(* ===== verification/Prelude.thy ===== *)
theory Prelude
  imports Main "HOL-Library.Word" "HOL-Library.Char_ord" "HOL-Library.List_Lexorder"
begin

text \<open>
  Generic material shared by the component theories: C strings and the functions of the C
  standard library the sources call on them (\<open>ctype.h\<close> in the C locale, \<open>strcmp\<close>,
  \<open>strcasecmp\<close>, \<open>strchr\<close>, \<open>strrchr\<close>, \<open>strsep\<close>, \<open>strtol\<close>, \<open>atoi\<close>, the \<open>%d\<close> of
  \<open>printf\<close>), and lemmas on them.

  A C string is modelled by the list of its characters before the terminating NUL; a
  \<open>char *\<close> that may be NULL is a value of \<open>string option\<close>. Reading \<open>s[i]\<close> at the end of the
  string (the NUL) is the case of the empty remaining list.
\<close>

named_theorems ctype_defs
named_theorems cstr_simps

type_synonym cstr = "string option"

subsection \<open>Character classes (C locale)\<close>

definition c_isdigit :: "char \<Rightarrow> bool" where
  [ctype_defs]: "c_isdigit c \<longleftrightarrow> CHR ''0'' \<le> c \<and> c \<le> CHR ''9''"

definition c_isupper :: "char \<Rightarrow> bool" where
  [ctype_defs]: "c_isupper c \<longleftrightarrow> CHR ''A'' \<le> c \<and> c \<le> CHR ''Z''"

definition c_islower :: "char \<Rightarrow> bool" where
  [ctype_defs]: "c_islower c \<longleftrightarrow> CHR ''a'' \<le> c \<and> c \<le> CHR ''z''"

definition c_isalpha :: "char \<Rightarrow> bool" where
  [ctype_defs]: "c_isalpha c \<longleftrightarrow> c_isupper c \<or> c_islower c"

definition c_isalnum :: "char \<Rightarrow> bool" where
  [ctype_defs]: "c_isalnum c \<longleftrightarrow> c_isalpha c \<or> c_isdigit c"

definition c_isxdigit :: "char \<Rightarrow> bool" where
  [ctype_defs]: "c_isxdigit c \<longleftrightarrow> c_isdigit c
     \<or> (CHR ''a'' \<le> c \<and> c \<le> CHR ''f'') \<or> (CHR ''A'' \<le> c \<and> c \<le> CHR ''F'')"

definition c_isspace :: "char \<Rightarrow> bool" where
  [ctype_defs]: "c_isspace c \<longleftrightarrow> c = CHR '' '' \<or> (CHR 0x09 \<le> c \<and> c \<le> CHR 0x0D)"

definition c_toupper :: "char \<Rightarrow> char" where
  "c_toupper c = (if c_islower c then char_of (of_char c - 32 :: nat) else c)"

definition c_tolower :: "char \<Rightarrow> char" where
  "c_tolower c = (if c_isupper c then char_of (of_char c + 32 :: nat) else c)"

lemmas char_bounds = less_eq_char_def less_char_def

lemma of_char_lt_256 [simp]: "(of_char c :: nat) < 256"
  by (metis of_char_mod_256 mod_less_divisor zero_less_numeral)

lemma of_char_toupper:
  "(of_char (c_toupper c) :: nat) = (if c_islower c then of_char c - 32 else of_char c)"
  by (auto simp: c_toupper_def c_islower_def char_bounds)

lemma of_char_tolower:
  "(of_char (c_tolower c) :: nat) = (if c_isupper c then of_char c + 32 else of_char c)"
  by (auto simp: c_tolower_def c_isupper_def char_bounds)

lemma c_toupper_idem [simp]: "c_toupper (c_toupper c) = c_toupper c"
proof -
  have "(of_char (c_toupper (c_toupper c)) :: nat) = of_char (c_toupper c)"
    by (auto simp: of_char_toupper c_islower_def char_bounds)
  then show ?thesis by (simp add: of_char_eq_iff)
qed

lemma c_isalnum_not_isdigit [dest]: "c_isalnum c \<Longrightarrow> \<not> c_isdigit c \<Longrightarrow> c_isalpha c"
  by (simp add: c_isalnum_def)

lemma c_isalpha_not_isdigit [dest]: "c_isalpha c \<Longrightarrow> \<not> c_isdigit c"
  by (auto simp: c_isalpha_def c_isupper_def c_islower_def c_isdigit_def char_bounds)

lemma c_isdigit_isalnum [intro]: "c_isdigit c \<Longrightarrow> c_isalnum c"
  by (simp add: c_isalnum_def)

lemma c_isalpha_isalnum [intro]: "c_isalpha c \<Longrightarrow> c_isalnum c"
  by (simp add: c_isalnum_def)

subsection \<open>Comparing strings\<close>

text \<open>
  \<open>strcmp\<close> compares the bytes as \<open>unsigned char\<close>; the lists of characters are ordered the
  same way by the lexicographic order of the library. Only the sign of the result is
  specified by C, and the model returns -1, 0 or 1.
\<close>

definition strcmp :: "string \<Rightarrow> string \<Rightarrow> int" where
  "strcmp s t = (if s = t then 0 else if s < t then -1 else 1)"

definition strcasecmp :: "string \<Rightarrow> string \<Rightarrow> int" where
  "strcasecmp s t = strcmp (map c_tolower s) (map c_tolower t)"

lemma strcmp_eq_0 [simp]: "strcmp s t = 0 \<longleftrightarrow> s = t"
  by (simp add: strcmp_def)

lemma strcmp_range: "strcmp s t \<in> {-1, 0, 1}"
  by (simp add: strcmp_def)

lemma strcmp_antisym: "strcmp t s = - strcmp s t"
  by (auto simp: strcmp_def)

lemma strcmp_lt_0: "strcmp s t < 0 \<longleftrightarrow> s < t"
  by (auto simp: strcmp_def)

lemma strcmp_gt_0: "strcmp s t > 0 \<longleftrightarrow> t < s"
  by (auto simp: strcmp_def)

lemma strcasecmp_eq_0: "strcasecmp s t = 0 \<longleftrightarrow> map c_tolower s = map c_tolower t"
  by (simp add: strcasecmp_def)

lemma strcasecmp_refl [simp]: "strcasecmp s s = 0"
  by (simp add: strcasecmp_def)

subsection \<open>Searching and splitting\<close>

text \<open>
  \<open>strchr s c\<close>: the text after the first occurrence of \<open>c\<close>, with the text before it, or None.
  \<open>strrchr\<close>: the same for the last occurrence.
\<close>

fun c_strchr :: "string \<Rightarrow> char \<Rightarrow> (string \<times> string) option" where
  "c_strchr [] c = None"
| "c_strchr (x # xs) c =
     (if x = c then Some ([], xs)
      else map_option (\<lambda>(a, b). (x # a, b)) (c_strchr xs c))"

fun c_strrchr :: "string \<Rightarrow> char \<Rightarrow> (string \<times> string) option" where
  "c_strrchr [] c = None"
| "c_strrchr (x # xs) c =
     (case c_strrchr xs c of
        Some (a, b) \<Rightarrow> Some (x # a, b)
      | None \<Rightarrow> if x = c then Some ([], xs) else None)"

lemma c_strchr_None [simp]: "c_strchr s c = None \<longleftrightarrow> c \<notin> set s"
  by (induction s) auto

lemma c_strchr_Some: "c_strchr s c = Some (a, b) \<Longrightarrow> s = a @ c # b \<and> c \<notin> set a"
  by (induction s arbitrary: a b) (auto split: if_splits)

lemma c_strchr_append [cstr_simps]: "c \<notin> set a \<Longrightarrow> c_strchr (a @ c # b) c = Some (a, b)"
  by (induction a) auto

lemma c_strrchr_None [simp]: "c_strrchr s c = None \<longleftrightarrow> c \<notin> set s"
  by (induction s) (auto split: option.splits)

lemma c_strrchr_Some: "c_strrchr s c = Some (a, b) \<Longrightarrow> s = a @ c # b \<and> c \<notin> set b"
  by (induction s arbitrary: a b) (auto split: option.splits if_splits prod.splits)

lemma c_strrchr_append [cstr_simps]:
  assumes "c \<notin> set b"
  shows "c_strrchr (a @ c # b) c = Some (a, b)"
proof -
  from assms have "c_strrchr b c = None" by (simp only: c_strrchr_None not_False_eq_True)
  then show ?thesis by (induction a) (simp_all del: c_strrchr_None)
qed

text \<open>Repeated \<open>strsep\<close> on a one-character delimiter set: the fields between delimiters.\<close>

fun c_split :: "char \<Rightarrow> string \<Rightarrow> string list" where
  "c_split d [] = [[]]"
| "c_split d (x # xs) =
     (if x = d then [] # c_split d xs
      else case c_split d xs of
             [] \<Rightarrow> [[x]]
           | f # fs \<Rightarrow> (x # f) # fs)"

fun c_join :: "char \<Rightarrow> string list \<Rightarrow> string" where
  "c_join d [] = []"
| "c_join d [f] = f"
| "c_join d (f # g # fs) = f @ d # c_join d (g # fs)"

lemma c_split_nonempty [simp]: "c_split d s \<noteq> []"
  by (induction s) (auto split: list.splits)

lemma c_split_append: "d \<notin> set a \<Longrightarrow> c_split d (a @ d # b) = a # c_split d b"
  by (induction a) auto

lemma c_split_single: "d \<notin> set a \<Longrightarrow> c_split d a = [a]"
  by (induction a) auto

lemma c_split_join:
  "fs \<noteq> [] \<Longrightarrow> \<forall>f \<in> set fs. d \<notin> set f \<Longrightarrow> c_split d (c_join d fs) = fs"
  by (induction d fs rule: c_join.induct) (auto simp: c_split_append c_split_single)

lemma c_join_Cons: "fs \<noteq> [] \<Longrightarrow> c_join d (f # fs) = f @ d # c_join d fs"
  by (cases fs) auto

lemma c_join_split: "c_join d (c_split d s) = s"
proof (induction s)
  case (Cons x xs)
  show ?case
  proof (cases "c_split d xs")
    case (Cons f fs)
    with Cons.IH show ?thesis by (cases fs) auto
  qed simp
qed simp

lemma c_split_no_delim: "f \<in> set (c_split d s) \<Longrightarrow> d \<notin> set f"
proof (induction s arbitrary: f)
  case (Cons x xs)
  show ?case
  proof (cases "c_split d xs")
    case (Cons g gs)
    with Cons.IH Cons.prems show ?thesis by (auto split: if_splits)
  qed simp
qed simp

lemma c_split_length: "length (c_split d s) = Suc (length (filter (\<lambda>c. c = d) s))"
  by (induction s) (auto split: list.splits)

text \<open>\<open>strstr\<close>: the text before and after the first occurrence of a needle.\<close>

fun c_strip_prefix :: "string \<Rightarrow> string \<Rightarrow> string option" where
  "c_strip_prefix [] s = Some s"
| "c_strip_prefix (p # ps) [] = None"
| "c_strip_prefix (p # ps) (x # xs) = (if p = x then c_strip_prefix ps xs else None)"

fun c_strstr :: "string \<Rightarrow> string \<Rightarrow> (string \<times> string) option" where
  "c_strstr [] needle = (if needle = [] then Some ([], []) else None)"
| "c_strstr (x # xs) needle =
     (case c_strip_prefix needle (x # xs) of
        Some rest \<Rightarrow> Some ([], rest)
      | None \<Rightarrow> map_option (\<lambda>(a, b). (x # a, b)) (c_strstr xs needle))"

lemma c_strip_prefix_Some [simp]: "c_strip_prefix p s = Some r \<longleftrightarrow> s = p @ r"
  by (induction p s rule: c_strip_prefix.induct) auto

lemma c_strip_prefix_None [simp]: "c_strip_prefix p s = None \<longleftrightarrow> (\<nexists>r. s = p @ r)"
  by (metis c_strip_prefix_Some not_None_eq)

lemma c_strstr_Some: "c_strstr s n = Some (a, b) \<Longrightarrow> s = a @ n @ b"
  by (induction s arbitrary: a) (auto split: option.splits if_splits)

subsection \<open>Numbers in decimal\<close>

definition digit_val :: "char \<Rightarrow> nat" where
  "digit_val c = of_char c - 48"

definition digit_char :: "nat \<Rightarrow> char" where
  "digit_char n = char_of (n + 48)"

text \<open>The value of the digits at the start of a string, and what is left of it.\<close>

fun parse_digits :: "nat \<Rightarrow> string \<Rightarrow> nat \<times> string" where
  "parse_digits acc [] = (acc, [])"
| "parse_digits acc (c # cs) =
     (if c_isdigit c then parse_digits (10 * acc + digit_val c) cs else (acc, c # cs))"

text \<open>
  \<open>strtol(s, &end, 10)\<close> before clamping: leading white space, an optional sign, digits. The
  result is the value and the unread text; without a digit nothing is converted, and \<open>end\<close>
  is the start of the string.
\<close>

definition strtol_unsigned :: "string \<Rightarrow> (nat \<times> string) option" where
  "strtol_unsigned s =
     (case s of c # _ \<Rightarrow> if c_isdigit c then Some (parse_digits 0 s) else None | [] \<Rightarrow> None)"

definition strtol_exact :: "string \<Rightarrow> (int \<times> string) option" where
  "strtol_exact s =
     (let t = dropWhile c_isspace s in
      case t of
        [] \<Rightarrow> None
      | c # cs \<Rightarrow>
          if c = CHR ''-'' then map_option (\<lambda>(n, r). (- int n, r)) (strtol_unsigned cs)
          else if c = CHR ''+'' then map_option (\<lambda>(n, r). (int n, r)) (strtol_unsigned cs)
          else map_option (\<lambda>(n, r). (int n, r)) (strtol_unsigned t))"

text \<open>
  \<open>strtol\<close> and \<open>strtoimax\<close> with 64-bit results: the value (clamped), the unread text and
  whether \<open>errno\<close> was set to ERANGE.
\<close>

definition strtol64 :: "string \<Rightarrow> int \<times> string \<times> bool" where
  "strtol64 s =
     (case strtol_exact s of
        None \<Rightarrow> (0, s, False)
      | Some (v, r) \<Rightarrow>
          if v > 2 ^ 63 - 1 then (2 ^ 63 - 1, r, True)
          else if v < - (2 ^ 63) then (- (2 ^ 63), r, True)
          else (v, r, False))"

text \<open>\<open>atoi(s)\<close> is \<open>(int) strtol(s, NULL, 10)\<close>, as in glibc: the low 32 bits, signed.\<close>

definition atoi :: "string \<Rightarrow> int" where
  "atoi s = signed_take_bit 31 (fst (strtol64 s))"

text \<open>\<open>printf\<close>'s decimal conversions.\<close>

fun show_nat :: "nat \<Rightarrow> string" where
  "show_nat n = (if n < 10 then [digit_char n] else show_nat (n div 10) @ [digit_char (n mod 10)])"

declare show_nat.simps [simp del]

definition show_int :: "int \<Rightarrow> string" where
  "show_int i = (if i < 0 then CHR ''-'' # show_nat (nat (- i)) else show_nat (nat i))"

lemma of_char_digit_char: "n < 10 \<Longrightarrow> (of_char (digit_char n) :: nat) = n + 48"
  by (simp add: digit_char_def)

lemma c_isdigit_digit_char [simp]: "n < 10 \<Longrightarrow> c_isdigit (digit_char n)"
  by (simp add: c_isdigit_def char_bounds of_char_digit_char)

lemma digit_val_digit_char [simp]: "n < 10 \<Longrightarrow> digit_val (digit_char n) = n"
  by (simp add: digit_val_def of_char_digit_char)

lemma show_nat_digits: "c \<in> set (show_nat n) \<Longrightarrow> c_isdigit c"
proof (induction n rule: show_nat.induct)
  case (1 n)
  then show ?case by (subst (asm) (2) show_nat.simps) (auto split: if_splits)
qed

lemma show_nat_nonempty [simp]: "show_nat n \<noteq> []"
  by (subst show_nat.simps) simp

lemma parse_digits_append:
  "\<forall>c \<in> set ds. c_isdigit c \<Longrightarrow>
   parse_digits acc (ds @ rest) = parse_digits (fst (parse_digits acc ds)) rest"
  by (induction ds arbitrary: acc) auto

lemma parse_digits_snoc:
  "\<forall>c \<in> set ds. c_isdigit c \<Longrightarrow> c_isdigit d \<Longrightarrow>
   fst (parse_digits acc (ds @ [d])) = 10 * fst (parse_digits acc ds) + digit_val d"
  by (simp add: parse_digits_append)

lemma parse_digits_show_nat: "fst (parse_digits 0 (show_nat n)) = n"
proof (induction n rule: show_nat.induct)
  case (1 n)
  show ?case
  proof (cases "n < 10")
    case True
    then show ?thesis by (subst show_nat.simps) simp
  next
    case False
    with 1 have "fst (parse_digits 0 (show_nat (n div 10))) = n div 10" by simp
    with False show ?thesis
      by (subst show_nat.simps) (simp add: parse_digits_snoc show_nat_digits)
  qed
qed

lemma parse_digits_stop: "(case rest of [] \<Rightarrow> True | c # _ \<Rightarrow> \<not> c_isdigit c) \<Longrightarrow>
   parse_digits acc rest = (acc, rest)"
  by (cases rest) auto

lemma parse_digits_show_nat_append:
  assumes "case rest of [] \<Rightarrow> True | c # _ \<Rightarrow> \<not> c_isdigit c"
  shows "parse_digits 0 (show_nat n @ rest) = (n, rest)"
  using assms
  by (simp add: parse_digits_append show_nat_digits parse_digits_show_nat parse_digits_stop)

lemma parse_digits_rest_length: "length (snd (parse_digits acc s)) \<le> length s"
  by (induction acc s rule: parse_digits.induct) auto

lemma show_nat_hd_digit: "\<exists>d ds. show_nat n = d # ds \<and> c_isdigit d"
  by (metis list.set_intros(1) neq_Nil_conv show_nat_digits show_nat_nonempty)

lemma c_isdigit_not_special:
  "c_isdigit c \<Longrightarrow> \<not> c_isspace c \<and> c \<noteq> CHR ''-'' \<and> c \<noteq> CHR ''+'' \<and> c \<noteq> CHR ''.'' \<and> c \<noteq> CHR '':''"
  by (auto simp: c_isdigit_def c_isspace_def char_bounds)

lemma strtol_exact_show_nat:
  assumes "case rest of [] \<Rightarrow> True | c # _ \<Rightarrow> \<not> c_isdigit c"
  shows "strtol_exact (show_nat n @ rest) = Some (int n, rest)"
proof -
  obtain d ds where d: "show_nat n = d # ds" "c_isdigit d" using show_nat_hd_digit by blast
  from parse_digits_show_nat_append [OF assms, of n]
  have "parse_digits 0 (d # ds @ rest) = (n, rest)" by (simp add: d(1))
  with d(2) show ?thesis
    by (simp add: strtol_exact_def d(1) c_isdigit_not_special strtol_unsigned_def Let_def)
qed

lemma strtol_exact_show_int: "strtol_exact (show_int i) = Some (i, [])"
proof (cases "i < 0")
  case True
  obtain d ds where d: "show_nat (nat (- i)) = d # ds" "c_isdigit d"
    using show_nat_hd_digit by blast
  from parse_digits_show_nat_append [of "[]" "nat (- i)"]
  have "parse_digits 0 (d # ds) = (nat (- i), [])" by (simp add: d(1))
  with True d(2) show ?thesis
    by (simp add: strtol_exact_def show_int_def d(1) strtol_unsigned_def c_isspace_def char_bounds)
next
  case False
  with strtol_exact_show_nat [of "[]" "nat i"] show ?thesis by (simp add: show_int_def)
qed

lemma strtol64_range: "- (2 ^ 63) \<le> fst (strtol64 s)" "fst (strtol64 s) < 2 ^ 63"
  by (auto simp: strtol64_def split: option.splits)

lemma strtol64_show_int:
  "- (2 ^ 63) \<le> i \<Longrightarrow> i < 2 ^ 63 \<Longrightarrow> strtol64 (show_int i) = (i, [], False)"
  by (simp add: strtol64_def strtol_exact_show_int)

lemma strtol64_show_nat:
  assumes "n < 2 ^ 63" and "case rest of [] \<Rightarrow> True | c # _ \<Rightarrow> \<not> c_isdigit c"
  shows "strtol64 (show_nat n @ rest) = (int n, rest, False)"
  using assms by (simp add: strtol64_def strtol_exact_show_nat)

lemma atoi_show_nat:
  assumes "n < 2 ^ 31" and "case rest of [] \<Rightarrow> True | c # _ \<Rightarrow> \<not> c_isdigit c"
  shows "atoi (show_nat n @ rest) = int n"
  using assms strtol64_show_nat [of n rest]
  by (simp add: atoi_def signed_take_bit_int_eq_self)

text \<open>The value of two hexadecimal digits (\<open>sscanf(hex, "%x", &out)\<close> on two digits).\<close>

definition hex_val :: "char \<Rightarrow> nat" where
  "hex_val c =
     (if c_isdigit c then of_char c - 48
      else if CHR ''a'' \<le> c \<and> c \<le> CHR ''f'' then of_char c - 87
      else of_char c - 55)"

definition hex_digit :: "nat \<Rightarrow> char" where
  "hex_digit n = (if n < 10 then char_of (n + 48) else char_of (n + 55))"

lemma of_char_hex_digit:
  "n < 16 \<Longrightarrow> (of_char (hex_digit n) :: nat) = (if n < 10 then n + 48 else n + 55)"
  by (simp add: hex_digit_def)

lemma c_isxdigit_hex_digit [simp]: "n < 16 \<Longrightarrow> c_isxdigit (hex_digit n)"
  by (auto simp: c_isxdigit_def c_isdigit_def char_bounds of_char_hex_digit)

lemma hex_val_hex_digit [simp]: "n < 16 \<Longrightarrow> hex_val (hex_digit n) = n"
  by (auto simp: hex_val_def c_isdigit_def char_bounds of_char_hex_digit)

lemma hex_val_lt_16: "c_isxdigit c \<Longrightarrow> hex_val c < 16"
  by (auto simp: hex_val_def c_isxdigit_def c_isdigit_def char_bounds)

subsection \<open>Lists\<close>

lemma filter_eq_length_0: "length (filter P xs) = 0 \<longleftrightarrow> (\<forall>x \<in> set xs. \<not> P x)"
  by (simp add: filter_empty_conv)

lemma filter_eq_length_pos: "0 < length (filter P xs) \<longleftrightarrow> (\<exists>x \<in> set xs. P x)"
  by (auto simp: filter_empty_conv)

lemma map_update_same:
  "f y = f (xs ! i) \<Longrightarrow> map f (xs[i := y]) = map f xs"
  by (cases "i < length xs") (simp_all add: map_update list_update_same_conv list_update_beyond)

end
