(* ===== verification/Oscap_Util.thy ===== *)
theory Oscap_Util
  imports Prelude
begin

text \<open>
  \<open>src/common/util.c\<close>: the string/enumeration tables every OVAL enumeration is read and
  written with, NULL-tolerant comparison, splitting with a growing field array, trimming, and
  the expansion of abbreviated IPv6 addresses.
\<close>

section \<open>String tables\<close>

text \<open>
  \<open>struct oscap_string_map\<close>: an array of value/text pairs that a NULL text terminates. Reading
  past the end of an array that has no NULL text is undefined in C: the searches return None.
\<close>

record 'e oscap_string_map =
  map_value :: 'e
  map_string :: cstr

fun oscap_string_to_enum :: "'e oscap_string_map list \<Rightarrow> cstr \<Rightarrow> 'e option" where
  "oscap_string_to_enum [] str = None"
| "oscap_string_to_enum (m # ms) str =
     (case map_string m of
        None \<Rightarrow> Some (map_value m)
      | Some s \<Rightarrow>
          (case str of
             None \<Rightarrow> oscap_string_to_enum ms str
           | Some t \<Rightarrow> if strcmp s t \<noteq> 0 then oscap_string_to_enum ms str else Some (map_value m)))"

fun oscap_enum_to_string :: "'e oscap_string_map list \<Rightarrow> 'e \<Rightarrow> cstr option" where
  "oscap_enum_to_string [] val = None"
| "oscap_enum_to_string (m # ms) val =
     (case map_string m of
        None \<Rightarrow> Some None
      | Some s \<Rightarrow> if map_value m \<noteq> val then oscap_enum_to_string ms val else Some (Some s))"

text \<open>The shape of nearly every table of the sources: entries, then the terminator.\<close>

definition string_map_of :: "('e \<times> string) list \<Rightarrow> 'e \<Rightarrow> 'e oscap_string_map list" where
  "string_map_of es dflt =
     map (\<lambda>(v, s). \<lparr>map_value = v, map_string = Some s\<rparr>) es @ [\<lparr>map_value = dflt, map_string = None\<rparr>]"

lemma string_to_enum_string_map_of:
  "oscap_string_to_enum (string_map_of es dflt) (Some t) =
     Some (case map_of (map (\<lambda>(v, s). (s, v)) es) t of None \<Rightarrow> dflt | Some v \<Rightarrow> v)"
  by (induction es) (auto simp: string_map_of_def)

lemma string_to_enum_string_map_of_NULL:
  "oscap_string_to_enum (string_map_of es dflt) None = Some dflt"
  by (induction es) (auto simp: string_map_of_def)

lemma enum_to_string_string_map_of:
  "oscap_enum_to_string (string_map_of es dflt) v = Some (map_of es v)"
  by (induction es) (auto simp: string_map_of_def)

text \<open>
  The contract of a table: no value and no text twice, and the terminator's value is not the
  value of an entry. Under it reading and writing are inverse to each other.
\<close>

locale string_table =
  fixes tab :: "'e oscap_string_map list" and es :: "('e \<times> string) list" and dflt :: 'e
  assumes tab_def: "tab = string_map_of es dflt"
    and distinct_values: "distinct (map fst es)"
    and distinct_texts: "distinct (map snd es)"
    and dflt_fresh: "dflt \<notin> set (map fst es)"
begin

lemma swapped_map_of: "map_of (map (\<lambda>(v, s). (s, v)) es) t = Some v \<longleftrightarrow> (v, t) \<in> set es"
proof -
  have eq: "map fst (map (\<lambda>(v, s). (s, v)) es) = map snd es"
    by (simp add: case_prod_unfold comp_def)
  have "distinct (map fst (map (\<lambda>(v, s). (s, v)) es))"
    unfolding eq by (rule distinct_texts)
  then have "map_of (map (\<lambda>(v, s). (s, v)) es) t = Some v \<longleftrightarrow> (t, v) \<in> set (map (\<lambda>(v, s). (s, v)) es)"
    by (rule map_of_eq_Some_iff)
  then show ?thesis by auto
qed

lemma get_text: "oscap_enum_to_string tab v = Some (map_of es v)"
  by (simp add: tab_def enum_to_string_string_map_of)

lemma get_text_iff: "oscap_enum_to_string tab v = Some (Some t) \<longleftrightarrow> (v, t) \<in> set es"
  by (simp add: get_text map_of_eq_Some_iff [OF distinct_values])

lemma get_text_dflt: "oscap_enum_to_string tab dflt = Some None"
  using dflt_fresh by (simp add: get_text map_of_eq_None_iff)

lemma from_text_total: "\<exists>v. oscap_string_to_enum tab s = Some v"
  by (cases s) (simp_all add: tab_def string_to_enum_string_map_of string_to_enum_string_map_of_NULL)

lemma from_text_iff:
  "v \<noteq> dflt \<Longrightarrow> oscap_string_to_enum tab (Some t) = Some v \<longleftrightarrow> (v, t) \<in> set es"
  by (simp add: tab_def string_to_enum_string_map_of swapped_map_of [symmetric] split: option.split)

lemma text_roundtrip:
  assumes "oscap_enum_to_string tab v = Some (Some t)"
  shows "oscap_string_to_enum tab (Some t) = Some v"
proof -
  from assms have m: "(v, t) \<in> set es" by (simp add: get_text_iff)
  with dflt_fresh have "v \<noteq> dflt" by force
  with m show ?thesis by (simp add: from_text_iff)
qed

lemma value_roundtrip:
  assumes "oscap_string_to_enum tab (Some t) = Some v" and "v \<noteq> dflt"
  shows "oscap_enum_to_string tab v = Some (Some t)"
  using assms by (simp add: from_text_iff get_text_iff)

lemma unknown_text: "t \<notin> set (map snd es) \<Longrightarrow> oscap_string_to_enum tab (Some t) = Some dflt"
  by (auto simp: tab_def string_to_enum_string_map_of swapped_map_of image_iff split: option.split)

end

section \<open>Comparison, splitting and trimming\<close>

definition oscap_strcmp :: "cstr \<Rightarrow> cstr \<Rightarrow> int" where
  "oscap_strcmp s1 s2 =
     strcmp (case s1 of None \<Rightarrow> [] | Some a \<Rightarrow> a) (case s2 of None \<Rightarrow> [] | Some b \<Rightarrow> b)"

definition oscap_streq :: "cstr \<Rightarrow> cstr \<Rightarrow> bool" where
  "oscap_streq s1 s2 = (oscap_strcmp s1 s2 = 0)"

text \<open>
  One call of \<open>strsep(stringp, delim)\<close>: the token, and the new \<open>*stringp\<close> (NULL after the last
  token).
\<close>

fun strsep :: "string \<Rightarrow> string \<Rightarrow> string \<times> cstr" where
  "strsep [] delim = ([], None)"
| "strsep (x # xs) delim =
     (if x \<in> set delim then ([], Some xs)
      else (case strsep xs delim of (t, r) \<Rightarrow> (x # t, r)))"

lemma strsep_length: "strsep s delim = (t, Some r) \<Longrightarrow> length r < length s"
  by (induction s arbitrary: t r) (auto split: if_splits prod.splits)

text \<open>
  \<open>oscap_split\<close>: the loop with its field array. \<open>i\<close> fields are stored, the array has room for
  \<open>alloc\<close> pointers (initially 8, doubled when \<open>i + 2 > alloc\<close>). The result holds the fields and
  the final capacity; allocation succeeds.
\<close>

definition CPE_SPLIT_INIT_ALLOC :: nat where
  "CPE_SPLIT_INIT_ALLOC = 8"

function oscap_split_loop :: "cstr \<Rightarrow> string \<Rightarrow> string list \<Rightarrow> nat \<Rightarrow> string list \<times> nat" where
  "oscap_split_loop None delim flds alloc = (flds, alloc)"
| "oscap_split_loop (Some str) delim flds alloc =
     (let alloc' = (if length flds + 2 > alloc then alloc * 2 else alloc);
          (tok, rest) = strsep str delim
      in oscap_split_loop rest delim (flds @ [tok]) alloc')"
  by pat_completeness auto
termination
  by (relation "measure (\<lambda>(s, _). case s of None \<Rightarrow> 0 | Some t \<Rightarrow> Suc (length t))")
     (auto split: option.splits dest: strsep_length [OF sym])

definition oscap_split_alloc :: "string \<Rightarrow> string \<Rightarrow> string list \<times> nat" where
  "oscap_split_alloc str delim = oscap_split_loop (Some str) delim [] CPE_SPLIT_INIT_ALLOC"

definition oscap_split :: "string \<Rightarrow> string \<Rightarrow> string list" where
  "oscap_split str delim = fst (oscap_split_alloc str delim)"

lemma strsep_c_split:
  "c_split d s = (case strsep s [d] of (t, None) \<Rightarrow> [t] | (t, Some r) \<Rightarrow> t # c_split d r)"
  by (induction s) (auto split: option.splits prod.splits list.splits)

lemma oscap_split_loop_fields:
  "fst (oscap_split_loop s [d] fs alloc) = fs @ (case s of None \<Rightarrow> [] | Some t \<Rightarrow> c_split d t)"
proof (induction s "[d]" fs alloc rule: oscap_split_loop.induct)
  case (2 str flds alloc)
  obtain t r where tr: "strsep str [d] = (t, r)" by force
  with 2 show ?case by (simp add: Let_def strsep_c_split [of d str] split: option.splits)
qed simp

lemma oscap_split_eq: "oscap_split s [d] = c_split d s"
  by (simp only: oscap_split_def oscap_split_alloc_def oscap_split_loop_fields option.case append_Nil)

lemma oscap_split_loop_bound:
  "length fs + 1 \<le> alloc \<Longrightarrow> 2 \<le> alloc \<Longrightarrow> oscap_split_loop s delim fs alloc = (fs', alloc') \<Longrightarrow>
   length fs' + 1 \<le> alloc'"
proof (induction s delim fs alloc arbitrary: fs' alloc' rule: oscap_split_loop.induct)
  case (2 str delim flds alloc)
  obtain t r where tr: "strsep str delim = (t, r)" by force
  show ?case
    by (rule "2.IH" [OF refl tr [symmetric] refl])
       (use "2.prems" tr in \<open>auto simp: Let_def split: if_splits\<close>)
qed simp

text \<open>
  \<open>oscap_trim\<close>: the left trim moves the text; the right trim looks for the last character that
  is not white space and ends the string after it.
\<close>

fun trim_right :: "string \<Rightarrow> nat \<Rightarrow> string" where
  "trim_right str 0 = str"
| "trim_right str (Suc i) = (if \<not> c_isspace (str ! i) then take (Suc i) str else trim_right str i)"

definition oscap_trim :: "cstr \<Rightarrow> cstr" where
  "oscap_trim str =
     (case str of
        None \<Rightarrow> None
      | Some s \<Rightarrow> (let moved = dropWhile c_isspace s in Some (trim_right moved (length moved))))"

text \<open>\<open>oscap_rtrim\<close> removes one character at the end while it is \<open>ch\<close>.\<close>

definition oscap_rtrim :: "cstr \<Rightarrow> char \<Rightarrow> cstr" where
  "oscap_rtrim str ch = map_option (\<lambda>s. rev (dropWhile (\<lambda>c. c = ch) (rev s))) str"

definition oscap_strtoupper :: "string \<Rightarrow> string" where
  "oscap_strtoupper s = map c_toupper s"

lemma trim_right_spec:
  assumes "\<exists>k < i. \<not> c_isspace (s ! k)" and "i \<le> length s"
    and "\<forall>k. i \<le> k \<and> k < length s \<longrightarrow> c_isspace (s ! k)"
  shows "\<exists>n ws. s = trim_right s i @ ws \<and> trim_right s i = take (Suc n) s \<and> n < length s
           \<and> \<not> c_isspace (s ! n) \<and> (\<forall>c \<in> set ws. c_isspace c)"
  using assms
proof (induction i)
  case (Suc i)
  show ?case
  proof (cases "c_isspace (s ! i)")
    case True
    from Suc.prems True have "\<exists>k < i. \<not> c_isspace (s ! k)" by (metis less_SucE)
    moreover from Suc.prems True have "\<forall>k. i \<le> k \<and> k < length s \<longrightarrow> c_isspace (s ! k)"
      by (metis Suc_leI le_eq_less_or_eq)
    ultimately show ?thesis using Suc True by simp
  next
    case False
    have "\<forall>c \<in> set (drop (Suc i) s). c_isspace c"
      using Suc.prems(3) by (auto simp: in_set_conv_nth)
    with False Suc.prems(2) show ?thesis
      by (intro exI [of _ i] exI [of _ "drop (Suc i) s"]) simp
  qed
qed simp

lemma oscap_trim_Some:
  assumes "oscap_trim (Some s) = Some t"
  shows "\<exists>l r. s = l @ t @ r \<and> (\<forall>c \<in> set l \<union> set r. c_isspace c)
           \<and> (t \<noteq> [] \<longrightarrow> \<not> c_isspace (hd t) \<and> \<not> c_isspace (last t))"
proof -
  define m where "m = dropWhile c_isspace s"
  have t: "t = trim_right m (length m)" using assms by (simp add: oscap_trim_def m_def Let_def)
  obtain lw where s: "s = lw @ m" and l: "\<forall>c \<in> set lw. c_isspace c"
    using takeWhile_dropWhile_id [of c_isspace s] set_takeWhileD [of _ c_isspace s]
    unfolding m_def by metis
  show ?thesis
  proof (cases "m = []")
    case True
    with t s l show ?thesis by (intro exI [of _ s] exI [of _ "[]"]) auto
  next
    case False
    then have hd: "\<not> c_isspace (m ! 0)" unfolding m_def
      by (metis hd_conv_nth hd_dropWhile)
    with False have "\<exists>k < length m. \<not> c_isspace (m ! k)" by auto
    moreover have "\<forall>k. length m \<le> k \<and> k < length m \<longrightarrow> c_isspace (m ! k)" by auto
    ultimately obtain n ws where
      w: "m = t @ ws" "t = take (Suc n) m" "n < length m" "\<not> c_isspace (m ! n)"
      "\<forall>c \<in> set ws. c_isspace c"
      using trim_right_spec [OF _ order_refl] t by blast
    have lt: "last t = m ! n" using w(2,3) by (simp add: take_Suc_conv_app_nth)
    have ht: "hd t = m ! 0" using w(2) False by (cases m) auto
    have "s = lw @ t @ ws" by (simp only: s w(1) [symmetric])
    with l lt ht w(4,5) hd show ?thesis
      by (intro exI [of _ lw] exI [of _ ws]) auto
  qed
qed

section \<open>Expanding abbreviated IPv6 addresses\<close>

text \<open>
  \<open>oscap_expand_ipv6\<close>. The first pass counts the components: a colon that is not the first
  character adds one, and the character after any colon is skipped. A string that ends with a
  single colon makes the pass step over the NUL: the model returns None. The count is an
  \<open>unsigned short\<close>.
\<close>

fun ipv6_component_count :: "bool \<Rightarrow> nat \<Rightarrow> string \<Rightarrow> nat option" where
  "ipv6_component_count at_start n [] = Some n"
| "ipv6_component_count at_start n (c # cs) =
     (if c = CHR '':'' then
        (let n' = (if at_start then n else (n + 1) mod 65536) in
         case cs of [] \<Rightarrow> None | _ # ds \<Rightarrow> ipv6_component_count False n' ds)
      else ipv6_component_count False n cs)"

text \<open>\<open>k\<close> turns of the inner loop that writes the missing zero components.\<close>

fun ipv6_write_zeros :: "nat \<Rightarrow> string \<Rightarrow> string" where
  "ipv6_write_zeros 0 out = out"
| "ipv6_write_zeros (Suc k) out =
     ipv6_write_zeros k ((if out \<noteq> [] then out @ '':'' else out) @ ''0'')"

text \<open>The second pass; \<open>out\<close> is what has been written to \<open>ret\<close>.\<close>

function ipv6_expand :: "nat \<Rightarrow> string \<Rightarrow> string \<Rightarrow> string" where
  "ipv6_expand cnt out [] = out"
| "ipv6_expand cnt out (c # cs) =
     (let (out', closed, rest) =
        (if c = CHR '':'' then
           (case cs of
              d # ds \<Rightarrow>
                if d = CHR '':'' then (ipv6_write_zeros (8 - cnt) out, cnt < 8, ds)
                else (out, True, cs)
            | [] \<Rightarrow> (out, True, cs))
         else (out @ [c], False, cs))
      in ipv6_expand cnt (if closed \<and> rest \<noteq> [] then out' @ '':'' else out') rest)"
  by pat_completeness auto
termination
  by (relation "measure (\<lambda>(cnt, out, s). length s)") (auto split: list.splits if_splits)

definition oscap_expand_ipv6 :: "string \<Rightarrow> string option" where
  "oscap_expand_ipv6 input =
     map_option (\<lambda>cnt. ipv6_expand cnt [] input) (ipv6_component_count True 1 input)"

text \<open>The array \<open>ret\<close> has room for this many bytes, the NUL included.\<close>

definition ipv6_buffer_size :: nat where
  "ipv6_buffer_size = 8 * 4 + 7 + 1"

declare ipv6_expand.simps(2) [simp del]
declare ipv6_component_count.simps(2) [simp del]

abbreviation ipv6_group :: "string \<Rightarrow> bool" where
  "ipv6_group g \<equiv> g \<noteq> [] \<and> CHR '':'' \<notin> set g"

lemma component_count_group:
  "CHR '':'' \<notin> set g \<Longrightarrow> ipv6_component_count False n (g @ r) = ipv6_component_count False n r"
  by (induction g) (auto simp: ipv6_component_count.simps(2))

lemma component_count_first_group:
  "ipv6_group g \<Longrightarrow> ipv6_component_count True n (g @ r) = ipv6_component_count False n r"
  by (cases g) (auto simp: ipv6_component_count.simps(2) component_count_group)

lemma component_count_sep:
  "ipv6_group g \<Longrightarrow> n + 1 < 65536 \<Longrightarrow>
   ipv6_component_count False n (CHR '':'' # g @ r) = ipv6_component_count False (n + 1) r"
  by (cases g) (auto simp: ipv6_component_count.simps(2) component_count_group)

lemma component_count_gap:
  "n + 1 < 65536 \<Longrightarrow>
   ipv6_component_count at_start n (''::'' @ r)
     = ipv6_component_count False (if at_start then n else n + 1) r"
  by (simp add: ipv6_component_count.simps(2))

lemma component_count_groups:
  "\<forall>g \<in> set gs. ipv6_group g \<Longrightarrow> n + length gs < 65536 \<Longrightarrow>
   ipv6_component_count False n (concat (map (\<lambda>g. CHR '':'' # g) gs) @ r)
     = ipv6_component_count False (n + length gs) r"
proof (induction gs arbitrary: n)
  case (Cons g gs)
  then have "ipv6_component_count False n (CHR '':'' # g @ concat (map (\<lambda>g. CHR '':'' # g) gs) @ r)
      = ipv6_component_count False (n + 1) (concat (map (\<lambda>g. CHR '':'' # g) gs) @ r)"
    by (intro component_count_sep) auto
  also have "\<dots> = ipv6_component_count False (n + 1 + length gs) r"
    using Cons.prems by (intro Cons.IH) auto
  finally show ?case by simp
qed simp

lemma expand_group: "CHR '':'' \<notin> set g \<Longrightarrow> ipv6_expand cnt out (g @ r) = ipv6_expand cnt (out @ g) r"
  by (induction g arbitrary: out) (auto simp: ipv6_expand.simps(2))

lemma expand_sep:
  assumes "ipv6_group g"
  shows "ipv6_expand cnt out (CHR '':'' # g @ r) = ipv6_expand cnt (out @ '':'' @ g) r"
proof -
  obtain c cs where g: "g = c # cs" "c \<noteq> CHR '':''" using assms by (cases g) auto
  then have "ipv6_expand cnt out (CHR '':'' # g @ r) = ipv6_expand cnt (out @ '':'') (g @ r)"
    by (subst ipv6_expand.simps(2)) simp
  with assms show ?thesis by (simp add: expand_group)
qed

lemma expand_groups:
  "\<forall>g \<in> set gs. ipv6_group g \<Longrightarrow>
   ipv6_expand cnt out (concat (map (\<lambda>g. CHR '':'' # g) gs) @ r)
     = ipv6_expand cnt (out @ concat (map (\<lambda>g. CHR '':'' # g) gs)) r"
  by (induction gs arbitrary: out) (auto simp: expand_sep)

lemma expand_gap:
  assumes "cnt < 8"
  shows "ipv6_expand cnt out (''::'' @ r)
     = ipv6_expand cnt (ipv6_write_zeros (8 - cnt) out @ (if r = [] then [] else '':'')) r"
  using assms by (simp add: ipv6_expand.simps(2))

lemma join_concat: "c_join d (g # gs) = g @ concat (map (\<lambda>h. d # h) gs)"
  by (induction gs arbitrary: g) auto

lemma join_append: "gs \<noteq> [] \<Longrightarrow> hs \<noteq> [] \<Longrightarrow> c_join d (gs @ hs) = c_join d gs @ d # c_join d hs"
proof (induction gs)
  case (Cons g gs)
  then show ?case by (cases "gs = []") (simp_all add: c_join_Cons)
qed simp

lemma join_snoc: "gs \<noteq> [] \<Longrightarrow> c_join d (gs @ [g]) = c_join d gs @ d # g"
  by (simp add: join_append)

lemma join_nonempty: "gs \<noteq> [] \<Longrightarrow> \<forall>g \<in> set gs. g \<noteq> [] \<Longrightarrow> c_join d gs \<noteq> []"
  by (cases gs) (auto simp: join_concat)

lemma write_zeros_join:
  "\<forall>g \<in> set gs. ipv6_group g \<Longrightarrow>
   ipv6_write_zeros k (c_join CHR '':'' gs) = c_join CHR '':'' (gs @ replicate k ''0'')"
proof (induction k arbitrary: gs)
  case (Suc k)
  have z: "(if c_join CHR '':'' gs \<noteq> [] then c_join CHR '':'' gs @ '':'' else c_join CHR '':'' gs) @ ''0''
      = c_join CHR '':'' (gs @ [''0''])"
    using Suc.prems join_nonempty [of gs "CHR '':''"] by (cases "gs = []") (auto simp: join_snoc)
  have "ipv6_write_zeros (Suc k) (c_join CHR '':'' gs) = ipv6_write_zeros k (c_join CHR '':'' (gs @ [''0'']))"
    by (simp only: ipv6_write_zeros.simps z)
  also have "\<dots> = c_join CHR '':'' ((gs @ [''0'']) @ replicate k ''0'')"
    using Suc.prems by (intro Suc.IH) auto
  finally show ?case by simp
qed simp

lemma expand_ipv6_full:
  assumes "gs \<noteq> []" and "\<forall>g \<in> set gs. ipv6_group g" and "length gs < 65536"
  shows "oscap_expand_ipv6 (c_join CHR '':'' gs) = Some (c_join CHR '':'' gs)"
proof -
  obtain g hs where gs: "gs = g # hs" using assms(1) by (cases gs) auto
  have cnt: "ipv6_component_count True 1 (c_join CHR '':'' gs) = Some (1 + length hs)"
    using assms(2,3) component_count_groups [of hs 1 "[]"]
    by (simp add: gs join_concat component_count_first_group)
  have "ipv6_expand n [] (c_join CHR '':'' gs) = c_join CHR '':'' gs" for n
    using assms(2) expand_groups [of hs n g "[]"]
    by (simp add: gs join_concat expand_group)
  with cnt show ?thesis by (simp add: oscap_expand_ipv6_def)
qed

text \<open>What comes before the gap: the components are counted and copied.\<close>

lemma component_count_before_gap:
  assumes "\<forall>g \<in> set gs. ipv6_group g" and "length gs < 65535"
  shows "ipv6_component_count True 1 (c_join CHR '':'' gs @ ''::'' @ r)
           = ipv6_component_count False (if gs = [] then 1 else length gs + 1) r"
proof (cases gs)
  case (Cons g hs)
  with assms component_count_groups [of hs 1 "''::'' @ r"]
  have "ipv6_component_count True 1 (c_join CHR '':'' gs @ ''::'' @ r)
      = ipv6_component_count False (1 + length hs) (''::'' @ r)"
    by (simp add: join_concat component_count_first_group)
  also have "\<dots> = ipv6_component_count False (1 + length hs + 1) r"
    using assms(2) Cons by (subst component_count_gap) auto
  finally show ?thesis using Cons by simp
next
  case Nil
  then show ?thesis using component_count_gap [of 1 True r] by simp
qed

lemma expand_before_gap:
  assumes "\<forall>g \<in> set gs. ipv6_group g" and "cnt < 8"
  shows "ipv6_expand cnt [] (c_join CHR '':'' gs @ ''::'' @ r)
     = ipv6_expand cnt (c_join CHR '':'' (gs @ replicate (8 - cnt) ''0'') @ (if r = [] then [] else '':'')) r"
proof -
  have "ipv6_expand cnt [] (c_join CHR '':'' gs @ ''::'' @ r)
      = ipv6_expand cnt (c_join CHR '':'' gs) (''::'' @ r)"
  proof (cases gs)
    case (Cons g hs)
    with assms(1) expand_groups [of hs cnt g "''::'' @ r"] show ?thesis
      by (simp add: join_concat expand_group)
  qed simp
  then show ?thesis
    using assms by (simp only: expand_gap write_zeros_join)
qed

lemma component_count_after_gap:
  assumes "hs \<noteq> []" and "\<forall>g \<in> set hs. ipv6_group g" and "n + length hs < 65536"
  shows "ipv6_component_count False n (c_join CHR '':'' hs) = Some (n + length hs - 1)"
proof -
  obtain g ks where "hs = g # ks" using assms(1) by (cases hs) auto
  with assms component_count_groups [of ks n "[]"] show ?thesis
    by (simp add: join_concat component_count_group)
qed

lemma expand_after_gap:
  assumes "hs \<noteq> []" and "\<forall>g \<in> set hs. ipv6_group g"
  shows "ipv6_expand cnt out (c_join CHR '':'' hs) = out @ c_join CHR '':'' hs"
proof -
  obtain g ks where "hs = g # ks" using assms(1) by (cases hs) auto
  with assms(2) expand_groups [of ks cnt "out @ g" "[]"] show ?thesis
    by (simp add: join_concat expand_group)
qed

lemma expand_ipv6_gap:
  assumes "\<forall>g \<in> set gs \<union> set hs. ipv6_group g" and "hs \<noteq> []" and "length gs + length hs < 8"
  shows "oscap_expand_ipv6 (c_join CHR '':'' gs @ ''::'' @ c_join CHR '':'' hs)
     = Some (c_join CHR '':'' (gs @ replicate (8 - (length gs + length hs)) ''0'' @ hs))"
proof -
  let ?c = "length gs + length hs" and ?k = "8 - (length gs + length hs)"
  have cnt: "ipv6_component_count True 1 (c_join CHR '':'' gs @ ''::'' @ c_join CHR '':'' hs) = Some ?c"
    using assms component_count_before_gap [of gs "c_join CHR '':'' hs"]
      component_count_after_gap [of hs "if gs = [] then 1 else length gs + 1"]
    by (auto split: if_splits)
  have ne: "c_join CHR '':'' hs \<noteq> []" using assms join_nonempty [of hs] by auto
  have "ipv6_expand ?c [] (c_join CHR '':'' gs @ ''::'' @ c_join CHR '':'' hs)
      = c_join CHR '':'' (gs @ replicate ?k ''0'') @ '':'' @ c_join CHR '':'' hs"
    using assms ne by (subst expand_before_gap) (auto simp: expand_after_gap)
  also have "\<dots> = c_join CHR '':'' ((gs @ replicate ?k ''0'') @ hs)"
    using assms by (subst join_append) auto
  finally show ?thesis using cnt by (simp add: oscap_expand_ipv6_def)
qed

lemma expand_ipv6_trailing_gap:
  assumes "\<forall>g \<in> set gs. ipv6_group g" and "length gs < 7"
  shows "oscap_expand_ipv6 (c_join CHR '':'' gs @ ''::'')
     = Some (c_join CHR '':'' (gs @ replicate (7 - length gs) ''0''))"
proof -
  let ?c = "if gs = [] then 1 else length gs + 1"
  have cnt: "ipv6_component_count True 1 (c_join CHR '':'' gs @ ''::'') = Some ?c"
    using assms component_count_before_gap [of gs "[]"] by simp
  have "ipv6_expand ?c [] (c_join CHR '':'' gs @ ''::'' @ []) = c_join CHR '':'' (gs @ replicate (8 - ?c) ''0'')"
    using assms by (subst expand_before_gap) auto
  with cnt show ?thesis by (auto simp: oscap_expand_ipv6_def split: if_splits)
qed

section \<open>Properties\<close>

text \<open>
  C22. Splitting loses nothing: joining the fields with the delimiter gives the string back, no field
  holds the delimiter, and the array always has room for the fields and the terminating NULL.
\<close>

theorem split_correct:
  "c_join d (oscap_split s [d]) = s
   \<and> list_all (\<lambda>f. d \<notin> set f) (oscap_split s [d])
   \<and> length (oscap_split s [d]) + 1 \<le> snd (oscap_split_alloc s [d])"
proof -
  obtain fs n where a: "oscap_split_alloc s [d] = (fs, n)" by force
  then have "length fs + 1 \<le> n"
    unfolding oscap_split_alloc_def by (rule oscap_split_loop_bound [rotated 2]) (simp_all add: CPE_SPLIT_INIT_ALLOC_def)
  with a have "length (oscap_split s [d]) + 1 \<le> snd (oscap_split_alloc s [d])"
    by (simp add: oscap_split_def)
  then show ?thesis
    by (auto simp: oscap_split_eq c_join_split list_all_iff dest: c_split_no_delim)
qed

text \<open>
  Expanding an IPv6 address whose \<open>::\<close> stands before at least one component writes eight
  components: those before the gap, zeros, those after it.
\<close>

theorem expand_ipv6_middle_gap:
  assumes "list_all ipv6_group (gs @ hs)" and "hs \<noteq> []" and "length gs + length hs < 8"
  shows "\<exists>out. oscap_expand_ipv6 (c_join CHR '':'' gs @ ''::'' @ c_join CHR '':'' hs) = Some out
           \<and> oscap_split out '':'' = gs @ replicate (8 - (length gs + length hs)) ''0'' @ hs"
proof -
  let ?fs = "gs @ replicate (8 - (length gs + length hs)) ''0'' @ hs"
  have "\<forall>f \<in> set ?fs. CHR '':'' \<notin> set f" using assms(1) by (auto simp: list_all_iff)
  then have "oscap_split (c_join CHR '':'' ?fs) '':'' = ?fs"
    using assms(2) by (simp only: oscap_split_eq) (rule c_split_join, simp_all)
  moreover have "oscap_expand_ipv6 (c_join CHR '':'' gs @ ''::'' @ c_join CHR '':'' hs) = Some (c_join CHR '':'' ?fs)"
    using assms by (intro expand_ipv6_gap) (auto simp: list_all_iff)
  ultimately show ?thesis by blast
qed

theorem expand_ipv6_middle_gap_witness:
  "\<exists>out. oscap_expand_ipv6 ''2001:db8::ff:1'' = Some out
     \<and> oscap_split out '':'' = [''2001'', ''db8'', ''0'', ''0'', ''0'', ''0'', ''ff'', ''1'']"
  using expand_ipv6_middle_gap [of "[''2001'', ''db8'']" "[''ff'', ''1'']"]
  by (simp add: numeral_eq_Suc)

text \<open>
  A trailing \<open>::\<close> is expanded to seven components, one too few: the count of the first pass
  includes an empty component after the gap.
\<close>

theorem expand_ipv6_trailing:
  assumes "list_all ipv6_group gs" and "length gs < 7"
  shows "\<exists>out. oscap_expand_ipv6 (c_join CHR '':'' gs @ ''::'') = Some out
           \<and> oscap_split out '':'' = gs @ replicate (7 - length gs) ''0''"
proof -
  let ?fs = "gs @ replicate (7 - length gs) ''0''"
  have "\<forall>f \<in> set ?fs. CHR '':'' \<notin> set f" using assms(1) by (auto simp: list_all_iff)
  then have "oscap_split (c_join CHR '':'' ?fs) '':'' = ?fs"
    using assms(2) by (simp only: oscap_split_eq) (rule c_split_join, simp_all)
  moreover have "oscap_expand_ipv6 (c_join CHR '':'' gs @ ''::'') = Some (c_join CHR '':'' ?fs)"
    using assms by (intro expand_ipv6_trailing_gap) (auto simp: list_all_iff)
  ultimately show ?thesis by blast
qed

theorem expand_ipv6_trailing_witness:
  "\<exists>out. oscap_expand_ipv6 ''fe80::'' = Some out
     \<and> oscap_split out '':'' = [''fe80'', ''0'', ''0'', ''0'', ''0'', ''0'', ''0'']"
  using expand_ipv6_trailing [of "[''fe80'']"] by (simp add: numeral_eq_Suc)

text \<open>
  \<open>oscap_trim\<close> removes white space at both ends and nothing else: what it returns stands in the
  text between white space, and neither begins nor ends with white space.
\<close>

theorem oscap_trim_correct:
  "case oscap_trim (Some s) of
     None \<Rightarrow> False
   | Some t \<Rightarrow> (\<exists>l r. s = l @ t @ r \<and> list_all c_isspace (l @ r))
             \<and> (t = [] \<or> (\<not> c_isspace (hd t) \<and> \<not> c_isspace (last t)))"
proof -
  obtain t where t: "oscap_trim (Some s) = Some t" by (simp add: oscap_trim_def Let_def)
  from oscap_trim_Some [OF this] obtain l r where
    "s = l @ t @ r" "\<forall>c \<in> set l \<union> set r. c_isspace c"
    "t \<noteq> [] \<longrightarrow> \<not> c_isspace (hd t) \<and> \<not> c_isspace (last t)" by blast
  then have "(\<exists>l r. s = l @ t @ r \<and> list_all c_isspace (l @ r))
             \<and> (t = [] \<or> (\<not> c_isspace (hd t) \<and> \<not> c_isspace (last t)))"
    by (intro conjI exI [of _ l] exI [of _ r]) (auto simp: list_all_iff)
  with t show ?thesis by simp
qed

end
