(* ===== verification/Oval_Types.thy ===== *)
theory Oval_Types
  imports Prelude
begin

text \<open>
  The enumerations of the public OVAL headers (\<open>oval_types.h\<close>, \<open>oval_definitions.h\<close>,
  \<open>oval_system_characteristics.h\<close>) as datatypes with the constructors of the sources. The
  constructor that ends in \<open>INVALID\<close> stands for the value \<open>OVAL_ENUMERATION_INVALID\<close> (-1), which
  the parsers and some functions return in these types although it is not an enumerator; the
  \<open>default\<close> branches of the sources handle it. The families and the subtypes are computed with
  as numbers (\<open>subtype / 1000\<close>) and are integers; their enumerators are abbreviations.
\<close>

datatype oval_syschar_collection_flag_t =
    SYSCHAR_FLAG_UNKNOWN
  | SYSCHAR_FLAG_ERROR
  | SYSCHAR_FLAG_COMPLETE
  | SYSCHAR_FLAG_INCOMPLETE
  | SYSCHAR_FLAG_DOES_NOT_EXIST
  | SYSCHAR_FLAG_NOT_COLLECTED
  | SYSCHAR_FLAG_NOT_APPLICABLE
  | SYSCHAR_FLAG_INVALID

datatype oval_syschar_status_t =
    SYSCHAR_STATUS_UNKNOWN
  | SYSCHAR_STATUS_ERROR
  | SYSCHAR_STATUS_EXISTS
  | SYSCHAR_STATUS_DOES_NOT_EXIST
  | SYSCHAR_STATUS_NOT_COLLECTED
  | SYSCHAR_STATUS_INVALID

datatype oval_message_level_t =
    OVAL_MESSAGE_LEVEL_NONE
  | OVAL_MESSAGE_LEVEL_DEBUG
  | OVAL_MESSAGE_LEVEL_INFO
  | OVAL_MESSAGE_LEVEL_WARNING
  | OVAL_MESSAGE_LEVEL_ERROR
  | OVAL_MESSAGE_LEVEL_FATAL
  | OVAL_MESSAGE_LEVEL_INVALID

datatype oval_criteria_node_type_t =
    OVAL_NODETYPE_UNKNOWN
  | OVAL_NODETYPE_CRITERIA
  | OVAL_NODETYPE_CRITERION
  | OVAL_NODETYPE_EXTENDDEF

datatype oval_operator_t =
    OVAL_OPERATOR_UNKNOWN
  | OVAL_OPERATOR_AND
  | OVAL_OPERATOR_ONE
  | OVAL_OPERATOR_OR
  | OVAL_OPERATOR_XOR
  | OVAL_OPERATOR_INVALID

datatype oval_operation_t =
    OVAL_OPERATION_UNKNOWN
  | OVAL_OPERATION_BITWISE_AND
  | OVAL_OPERATION_BITWISE_OR
  | OVAL_OPERATION_CASE_INSENSITIVE_EQUALS
  | OVAL_OPERATION_CASE_INSENSITIVE_NOT_EQUAL
  | OVAL_OPERATION_EQUALS
  | OVAL_OPERATION_GREATER_THAN
  | OVAL_OPERATION_GREATER_THAN_OR_EQUAL
  | OVAL_OPERATION_LESS_THAN
  | OVAL_OPERATION_LESS_THAN_OR_EQUAL
  | OVAL_OPERATION_NOT_EQUAL
  | OVAL_OPERATION_PATTERN_MATCH
  | OVAL_OPERATION_SUBSET_OF
  | OVAL_OPERATION_SUPERSET_OF
  | OVAL_OPERATION_INVALID

datatype oval_existence_t =
    OVAL_EXISTENCE_UNKNOWN
  | OVAL_ALL_EXIST
  | OVAL_ANY_EXIST
  | OVAL_AT_LEAST_ONE_EXISTS
  | OVAL_ONLY_ONE_EXISTS
  | OVAL_NONE_EXIST
  | OVAL_EXISTENCE_INVALID

datatype oval_check_t =
    OVAL_CHECK_UNKNOWN
  | OVAL_CHECK_ALL
  | OVAL_CHECK_AT_LEAST_ONE
  | OVAL_CHECK_NONE_EXIST
  | OVAL_CHECK_NONE_SATISFY
  | OVAL_CHECK_ONLY_ONE
  | OVAL_CHECK_INVALID

datatype oval_filter_action_t =
    OVAL_FILTER_ACTION_UNKNOWN
  | OVAL_FILTER_ACTION_EXCLUDE
  | OVAL_FILTER_ACTION_INCLUDE
  | OVAL_FILTER_ACTION_INVALID

datatype oval_datatype_t =
    OVAL_DATATYPE_UNKNOWN
  | OVAL_DATATYPE_BINARY
  | OVAL_DATATYPE_BOOLEAN
  | OVAL_DATATYPE_EVR_STRING
  | OVAL_DATATYPE_FILESET_REVISION
  | OVAL_DATATYPE_FLOAT
  | OVAL_DATATYPE_INTEGER
  | OVAL_DATATYPE_IOS_VERSION
  | OVAL_DATATYPE_IPV4ADDR
  | OVAL_DATATYPE_IPV6ADDR
  | OVAL_DATATYPE_RECORD
  | OVAL_DATATYPE_SEXP
  | OVAL_DATATYPE_STRING
  | OVAL_DATATYPE_STRING_M
  | OVAL_DATATYPE_VERSION
  | OVAL_DATATYPE_INVALID

datatype oval_entity_varref_type_t =
    OVAL_ENTITY_VARREF_UNKNOWN
  | OVAL_ENTITY_VARREF_NONE
  | OVAL_ENTITY_VARREF_ATTRIBUTE
  | OVAL_ENTITY_VARREF_ELEMENT

datatype oval_setobject_operation_t =
    OVAL_SET_OPERATION_UNKNOWN
  | OVAL_SET_OPERATION_COMPLEMENT
  | OVAL_SET_OPERATION_INTERSECTION
  | OVAL_SET_OPERATION_UNION
  | OVAL_SET_OPERATION_INVALID

datatype oval_variable_type_t =
    OVAL_VARIABLE_UNKNOWN
  | OVAL_VARIABLE_EXTERNAL
  | OVAL_VARIABLE_CONSTANT
  | OVAL_VARIABLE_LOCAL
  | OVAL_VARIABLE_INVALID

datatype oval_component_type_t =
    OVAL_COMPONENT_UNKNOWN
  | OVAL_COMPONENT_LITERAL
  | OVAL_COMPONENT_OBJECTREF
  | OVAL_COMPONENT_VARREF
  | OVAL_COMPONENT_FUNCTION
  | OVAL_FUNCTION_BEGIN
  | OVAL_FUNCTION_CONCAT
  | OVAL_FUNCTION_END
  | OVAL_FUNCTION_SPLIT
  | OVAL_FUNCTION_SUBSTRING
  | OVAL_FUNCTION_TIMEDIF
  | OVAL_FUNCTION_ESCAPE_REGEX
  | OVAL_FUNCTION_REGEX_CAPTURE
  | OVAL_FUNCTION_ARITHMETIC
  | OVAL_FUNCTION_COUNT
  | OVAL_FUNCTION_UNIQUE
  | OVAL_FUNCTION_LAST
  | OVAL_COMPONENT_INVALID

datatype oval_arithmetic_operation_t =
    OVAL_ARITHMETIC_UNKNOWN
  | OVAL_ARITHMETIC_ADD
  | OVAL_ARITHMETIC_MULTIPLY
  | OVAL_ARITHMETIC_SUBTRACT
  | OVAL_ARITHMETIC_DIVIDE
  | OVAL_ARITHMETIC_INVALID

datatype oval_datetime_format_t =
    OVAL_DATETIME_UNKNOWN
  | OVAL_DATETIME_YEAR_MONTH_DAY
  | OVAL_DATETIME_MONTH_DAY_YEAR
  | OVAL_DATETIME_DAY_MONTH_YEAR
  | OVAL_DATETIME_WIN_FILETIME
  | OVAL_DATETIME_SECONDS_SINCE_EPOCH
  | OVAL_DATETIME_INVALID

datatype oval_result_t =
    OVAL_RESULT_TRUE
  | OVAL_RESULT_FALSE
  | OVAL_RESULT_UNKNOWN
  | OVAL_RESULT_ERROR
  | OVAL_RESULT_NOT_EVALUATED
  | OVAL_RESULT_NOT_APPLICABLE
  | OVAL_RESULT_INVALID

datatype oval_definition_class_t =
    OVAL_CLASS_UNKNOWN
  | OVAL_CLASS_COMPLIANCE
  | OVAL_CLASS_INVENTORY
  | OVAL_CLASS_MISCELLANEOUS
  | OVAL_CLASS_PATCH
  | OVAL_CLASS_VULNERABILITY

subsection \<open>Families and subtypes\<close>

abbreviation (input) OVAL_FAMILY_UNKNOWN :: int where "OVAL_FAMILY_UNKNOWN \<equiv> 0"
abbreviation (input) OVAL_FAMILY_AIX :: int where "OVAL_FAMILY_AIX \<equiv> 1000"
abbreviation (input) OVAL_FAMILY_APACHE :: int where "OVAL_FAMILY_APACHE \<equiv> 2000"
abbreviation (input) OVAL_FAMILY_CATOS :: int where "OVAL_FAMILY_CATOS \<equiv> 3000"
abbreviation (input) OVAL_FAMILY_ESX :: int where "OVAL_FAMILY_ESX \<equiv> 4000"
abbreviation (input) OVAL_FAMILY_FREEBSD :: int where "OVAL_FAMILY_FREEBSD \<equiv> 5000"
abbreviation (input) OVAL_FAMILY_HPUX :: int where "OVAL_FAMILY_HPUX \<equiv> 6000"
abbreviation (input) OVAL_FAMILY_INDEPENDENT :: int where "OVAL_FAMILY_INDEPENDENT \<equiv> 7000"
abbreviation (input) OVAL_FAMILY_IOS :: int where "OVAL_FAMILY_IOS \<equiv> 8000"
abbreviation (input) OVAL_FAMILY_LINUX :: int where "OVAL_FAMILY_LINUX \<equiv> 9000"
abbreviation (input) OVAL_FAMILY_MACOS :: int where "OVAL_FAMILY_MACOS \<equiv> 10000"
abbreviation (input) OVAL_FAMILY_PIXOS :: int where "OVAL_FAMILY_PIXOS \<equiv> 11000"
abbreviation (input) OVAL_FAMILY_SOLARIS :: int where "OVAL_FAMILY_SOLARIS \<equiv> 12000"
abbreviation (input) OVAL_FAMILY_UNIX :: int where "OVAL_FAMILY_UNIX \<equiv> 13000"
abbreviation (input) OVAL_FAMILY_WINDOWS :: int where "OVAL_FAMILY_WINDOWS \<equiv> 14000"
abbreviation (input) OVAL_SUBTYPE_UNKNOWN :: int where "OVAL_SUBTYPE_UNKNOWN \<equiv> 0"
abbreviation (input) OVAL_SUBTYPE_ALL :: int where "OVAL_SUBTYPE_ALL \<equiv> 1"
abbreviation (input) OVAL_SUBTYPE_SYSINFO :: int where "OVAL_SUBTYPE_SYSINFO \<equiv> 2"
abbreviation (input) OVAL_AIX_FILESET :: int where "OVAL_AIX_FILESET \<equiv> 1001"
abbreviation (input) OVAL_AIX_FIX :: int where "OVAL_AIX_FIX \<equiv> OVAL_FAMILY_AIX + 2"
abbreviation (input) OVAL_AIX_OSLEVEL :: int where "OVAL_AIX_OSLEVEL \<equiv> OVAL_FAMILY_AIX + 3"
abbreviation (input) OVAL_APACHE_HTTPD :: int where "OVAL_APACHE_HTTPD \<equiv> OVAL_FAMILY_APACHE + 1"
abbreviation (input) OVAL_APACHE_VERSION :: int where "OVAL_APACHE_VERSION \<equiv> OVAL_FAMILY_APACHE + 2"
abbreviation (input) OVAL_CATOS_LINE :: int where "OVAL_CATOS_LINE \<equiv> OVAL_FAMILY_CATOS + 1"
abbreviation (input) OVAL_CATOS_MODULE :: int where "OVAL_CATOS_MODULE \<equiv> OVAL_FAMILY_CATOS + 2"
abbreviation (input) OVAL_CATOS_VERSION_55 :: int where "OVAL_CATOS_VERSION_55 \<equiv> OVAL_FAMILY_CATOS + 3"
abbreviation (input) OVAL_CATOS_VERSION :: int where "OVAL_CATOS_VERSION \<equiv> OVAL_FAMILY_CATOS + 4"
abbreviation (input) OVAL_ESX_PATCH :: int where "OVAL_ESX_PATCH \<equiv> OVAL_FAMILY_ESX + 1"
abbreviation (input) OVAL_ESX_PATCH56 :: int where "OVAL_ESX_PATCH56 \<equiv> OVAL_FAMILY_ESX + 2"
abbreviation (input) OVAL_ESX_VERSION :: int where "OVAL_ESX_VERSION \<equiv> OVAL_FAMILY_ESX + 3"
abbreviation (input) OVAL_ESX_VISDKMANAGEDOBJECT :: int where "OVAL_ESX_VISDKMANAGEDOBJECT \<equiv> OVAL_FAMILY_ESX + 4"
abbreviation (input) OVAL_FREEBSD_PORT_INFO :: int where "OVAL_FREEBSD_PORT_INFO \<equiv> OVAL_FAMILY_FREEBSD + 1"
abbreviation (input) OVAL_HPUX_GETCONF :: int where "OVAL_HPUX_GETCONF \<equiv> OVAL_FAMILY_HPUX + 1"
abbreviation (input) OVAL_HPUX_PATCH_53 :: int where "OVAL_HPUX_PATCH_53 \<equiv> OVAL_FAMILY_HPUX + 2"
abbreviation (input) OVAL_HPUX_PATCH :: int where "OVAL_HPUX_PATCH \<equiv> OVAL_FAMILY_HPUX + 3"
abbreviation (input) OVAL_HPUX_SOFTWARE_LIST :: int where "OVAL_HPUX_SOFTWARE_LIST \<equiv> OVAL_FAMILY_HPUX + 4"
abbreviation (input) OVAL_HPUX_TRUSTED_ACCOUNTS :: int where "OVAL_HPUX_TRUSTED_ACCOUNTS \<equiv> OVAL_FAMILY_HPUX + 5"
abbreviation (input) OVAL_HPUX_NDD :: int where "OVAL_HPUX_NDD \<equiv> OVAL_FAMILY_HPUX + 6"
abbreviation (input) OVAL_HPUX_SWLIST :: int where "OVAL_HPUX_SWLIST \<equiv> OVAL_FAMILY_HPUX + 7"
abbreviation (input) OVAL_HPUX_TRUSTED :: int where "OVAL_HPUX_TRUSTED \<equiv> OVAL_FAMILY_HPUX + 8"
abbreviation (input) OVAL_INDEPENDENT_FAMILY :: int where "OVAL_INDEPENDENT_FAMILY \<equiv> OVAL_FAMILY_INDEPENDENT + 1"
abbreviation (input) OVAL_INDEPENDENT_FILE_MD5 :: int where "OVAL_INDEPENDENT_FILE_MD5 \<equiv> OVAL_FAMILY_INDEPENDENT + 2"
abbreviation (input) OVAL_INDEPENDENT_FILE_HASH :: int where "OVAL_INDEPENDENT_FILE_HASH \<equiv> OVAL_FAMILY_INDEPENDENT + 3"
abbreviation (input) OVAL_INDEPENDENT_ENVIRONMENT_VARIABLE :: int where "OVAL_INDEPENDENT_ENVIRONMENT_VARIABLE \<equiv> OVAL_FAMILY_INDEPENDENT + 4"
abbreviation (input) OVAL_INDEPENDENT_SQL :: int where "OVAL_INDEPENDENT_SQL \<equiv> OVAL_FAMILY_INDEPENDENT + 5"
abbreviation (input) OVAL_INDEPENDENT_TEXT_FILE_CONTENT_54 :: int where "OVAL_INDEPENDENT_TEXT_FILE_CONTENT_54 \<equiv> OVAL_FAMILY_INDEPENDENT + 6"
abbreviation (input) OVAL_INDEPENDENT_TEXT_FILE_CONTENT :: int where "OVAL_INDEPENDENT_TEXT_FILE_CONTENT \<equiv> OVAL_FAMILY_INDEPENDENT + 7"
abbreviation (input) OVAL_INDEPENDENT_UNKNOWN :: int where "OVAL_INDEPENDENT_UNKNOWN \<equiv> OVAL_FAMILY_INDEPENDENT + 8"
abbreviation (input) OVAL_INDEPENDENT_SYSCHAR_SUBTYPE :: int where "OVAL_INDEPENDENT_SYSCHAR_SUBTYPE \<equiv> 7999"
abbreviation (input) OVAL_INDEPENDENT_VARIABLE :: int where "OVAL_INDEPENDENT_VARIABLE \<equiv> OVAL_FAMILY_INDEPENDENT + 9"
abbreviation (input) OVAL_INDEPENDENT_XML_FILE_CONTENT :: int where "OVAL_INDEPENDENT_XML_FILE_CONTENT \<equiv> OVAL_FAMILY_INDEPENDENT + 10"
abbreviation (input) OVAL_INDEPENDENT_LDAP57 :: int where "OVAL_INDEPENDENT_LDAP57 \<equiv> OVAL_FAMILY_INDEPENDENT + 11"
abbreviation (input) OVAL_INDEPENDENT_LDAP :: int where "OVAL_INDEPENDENT_LDAP \<equiv> OVAL_FAMILY_INDEPENDENT + 12"
abbreviation (input) OVAL_INDEPENDENT_SQL57 :: int where "OVAL_INDEPENDENT_SQL57 \<equiv> OVAL_FAMILY_INDEPENDENT + 13"
abbreviation (input) OVAL_INDEPENDENT_ENVIRONMENT_VARIABLE58 :: int where "OVAL_INDEPENDENT_ENVIRONMENT_VARIABLE58 \<equiv> OVAL_FAMILY_INDEPENDENT + 14"
abbreviation (input) OVAL_INDEPENDENT_FILE_HASH58 :: int where "OVAL_INDEPENDENT_FILE_HASH58 \<equiv> OVAL_FAMILY_INDEPENDENT + 15"
abbreviation (input) OVAL_IOS_GLOBAL :: int where "OVAL_IOS_GLOBAL \<equiv> OVAL_FAMILY_IOS + 1"
abbreviation (input) OVAL_IOS_INTERFACE :: int where "OVAL_IOS_INTERFACE \<equiv> OVAL_FAMILY_IOS + 2"
abbreviation (input) OVAL_IOS_LINE :: int where "OVAL_IOS_LINE \<equiv> OVAL_FAMILY_IOS + 3"
abbreviation (input) OVAL_IOS_SNMP :: int where "OVAL_IOS_SNMP \<equiv> OVAL_FAMILY_IOS + 4"
abbreviation (input) OVAL_IOS_TCLSH :: int where "OVAL_IOS_TCLSH \<equiv> OVAL_FAMILY_IOS + 5"
abbreviation (input) OVAL_IOS_VERSION_55 :: int where "OVAL_IOS_VERSION_55 \<equiv> OVAL_FAMILY_IOS + 6"
abbreviation (input) OVAL_LINUX_DPKG_INFO :: int where "OVAL_LINUX_DPKG_INFO \<equiv> OVAL_FAMILY_LINUX + 1"
abbreviation (input) OVAL_LINUX_INET_LISTENING_SERVERS :: int where "OVAL_LINUX_INET_LISTENING_SERVERS \<equiv> OVAL_FAMILY_LINUX + 2"
abbreviation (input) OVAL_LINUX_RPM_INFO :: int where "OVAL_LINUX_RPM_INFO \<equiv> OVAL_FAMILY_LINUX + 3"
abbreviation (input) OVAL_LINUX_SLACKWARE_PKG_INFO_TEST :: int where "OVAL_LINUX_SLACKWARE_PKG_INFO_TEST \<equiv> OVAL_FAMILY_LINUX + 4"
abbreviation (input) OVAL_LINUX_PARTITION :: int where "OVAL_LINUX_PARTITION \<equiv> OVAL_FAMILY_LINUX + 5"
abbreviation (input) OVAL_LINUX_IFLISTENERS :: int where "OVAL_LINUX_IFLISTENERS \<equiv> OVAL_FAMILY_LINUX + 6"
abbreviation (input) OVAL_LINUX_RPMVERIFY :: int where "OVAL_LINUX_RPMVERIFY \<equiv> OVAL_FAMILY_LINUX + 7"
abbreviation (input) OVAL_LINUX_RPMVERIFYFILE :: int where "OVAL_LINUX_RPMVERIFYFILE \<equiv> OVAL_FAMILY_LINUX + 71"
abbreviation (input) OVAL_LINUX_RPMVERIFYPACKAGE :: int where "OVAL_LINUX_RPMVERIFYPACKAGE \<equiv> OVAL_FAMILY_LINUX + 72"
abbreviation (input) OVAL_LINUX_SELINUXBOOLEAN :: int where "OVAL_LINUX_SELINUXBOOLEAN \<equiv> OVAL_FAMILY_LINUX + 8"
abbreviation (input) OVAL_LINUX_SELINUXSECURITYCONTEXT :: int where "OVAL_LINUX_SELINUXSECURITYCONTEXT \<equiv> OVAL_FAMILY_LINUX + 9"
abbreviation (input) OVAL_LINUX_INET_LISTENING_SERVER :: int where "OVAL_LINUX_INET_LISTENING_SERVER \<equiv> OVAL_FAMILY_LINUX + 102"
abbreviation (input) OVAL_LINUX_SYSTEMDUNITPROPERTY :: int where "OVAL_LINUX_SYSTEMDUNITPROPERTY \<equiv> OVAL_FAMILY_LINUX + 103"
abbreviation (input) OVAL_LINUX_SYSTEMDUNITDEPENDENCY :: int where "OVAL_LINUX_SYSTEMDUNITDEPENDENCY \<equiv> OVAL_FAMILY_LINUX + 104"
abbreviation (input) OVAL_MACOS_ACCOUNT_INFO :: int where "OVAL_MACOS_ACCOUNT_INFO \<equiv> OVAL_FAMILY_MACOS + 1"
abbreviation (input) OVAL_MACOS_INET_LISTENING_SERVERS :: int where "OVAL_MACOS_INET_LISTENING_SERVERS \<equiv> OVAL_FAMILY_MACOS + 2"
abbreviation (input) OVAL_MACOS_NVRAM_INFO :: int where "OVAL_MACOS_NVRAM_INFO \<equiv> OVAL_FAMILY_MACOS + 3"
abbreviation (input) OVAL_MACOS_PWPOLICY :: int where "OVAL_MACOS_PWPOLICY \<equiv> OVAL_FAMILY_MACOS + 4"
abbreviation (input) OVAL_PIXOS_LINE :: int where "OVAL_PIXOS_LINE \<equiv> OVAL_FAMILY_PIXOS + 1"
abbreviation (input) OVAL_PIXOS_VERSION :: int where "OVAL_PIXOS_VERSION \<equiv> OVAL_FAMILY_PIXOS + 2"
abbreviation (input) OVAL_SOLARIS_ISAINFO :: int where "OVAL_SOLARIS_ISAINFO \<equiv> OVAL_FAMILY_SOLARIS + 1"
abbreviation (input) OVAL_SOLARIS_PACKAGE :: int where "OVAL_SOLARIS_PACKAGE \<equiv> OVAL_FAMILY_SOLARIS + 2"
abbreviation (input) OVAL_SOLARIS_PATCH :: int where "OVAL_SOLARIS_PATCH \<equiv> OVAL_FAMILY_SOLARIS + 3"
abbreviation (input) OVAL_SOLARIS_SMF :: int where "OVAL_SOLARIS_SMF \<equiv> OVAL_FAMILY_SOLARIS + 4"
abbreviation (input) OVAL_SOLARIS_PATCH54 :: int where "OVAL_SOLARIS_PATCH54 \<equiv> OVAL_FAMILY_SOLARIS + 5"
abbreviation (input) OVAL_SOLARIS_NDD :: int where "OVAL_SOLARIS_NDD \<equiv> OVAL_FAMILY_SOLARIS + 6"
abbreviation (input) OVAL_SOLARIS_PACKAGECHECK :: int where "OVAL_SOLARIS_PACKAGECHECK \<equiv> OVAL_FAMILY_SOLARIS + 7"
abbreviation (input) OVAL_UNIX_FILE :: int where "OVAL_UNIX_FILE \<equiv> OVAL_FAMILY_UNIX + 1"
abbreviation (input) OVAL_UNIX_INETD :: int where "OVAL_UNIX_INETD \<equiv> OVAL_FAMILY_UNIX + 2"
abbreviation (input) OVAL_UNIX_INTERFACE :: int where "OVAL_UNIX_INTERFACE \<equiv> OVAL_FAMILY_UNIX + 3"
abbreviation (input) OVAL_UNIX_PASSWORD :: int where "OVAL_UNIX_PASSWORD \<equiv> OVAL_FAMILY_UNIX + 4"
abbreviation (input) OVAL_UNIX_PROCESS :: int where "OVAL_UNIX_PROCESS \<equiv> OVAL_FAMILY_UNIX + 5"
abbreviation (input) OVAL_UNIX_RUNLEVEL :: int where "OVAL_UNIX_RUNLEVEL \<equiv> OVAL_FAMILY_UNIX + 6"
abbreviation (input) OVAL_UNIX_SCCS :: int where "OVAL_UNIX_SCCS \<equiv> OVAL_FAMILY_UNIX + 7"
abbreviation (input) OVAL_UNIX_SHADOW :: int where "OVAL_UNIX_SHADOW \<equiv> OVAL_FAMILY_UNIX + 8"
abbreviation (input) OVAL_UNIX_UNAME :: int where "OVAL_UNIX_UNAME \<equiv> OVAL_FAMILY_UNIX + 9"
abbreviation (input) OVAL_UNIX_XINETD :: int where "OVAL_UNIX_XINETD \<equiv> OVAL_FAMILY_UNIX + 10"
abbreviation (input) OVAL_UNIX_DNSCACHE :: int where "OVAL_UNIX_DNSCACHE \<equiv> OVAL_FAMILY_UNIX + 11"
abbreviation (input) OVAL_UNIX_SYSCTL :: int where "OVAL_UNIX_SYSCTL \<equiv> OVAL_FAMILY_UNIX + 12"
abbreviation (input) OVAL_UNIX_PROCESS58 :: int where "OVAL_UNIX_PROCESS58 \<equiv> OVAL_FAMILY_UNIX + 13"
abbreviation (input) OVAL_UNIX_FILEEXTENDEDATTRIBUTE :: int where "OVAL_UNIX_FILEEXTENDEDATTRIBUTE \<equiv> OVAL_FAMILY_UNIX + 14"
abbreviation (input) OVAL_UNIX_GCONF :: int where "OVAL_UNIX_GCONF \<equiv> OVAL_FAMILY_UNIX + 15"
abbreviation (input) OVAL_UNIX_ROUTINGTABLE :: int where "OVAL_UNIX_ROUTINGTABLE \<equiv> OVAL_FAMILY_UNIX + 16"
abbreviation (input) OVAL_WINDOWS_ACCESS_TOKEN :: int where "OVAL_WINDOWS_ACCESS_TOKEN \<equiv> OVAL_FAMILY_WINDOWS + 1"
abbreviation (input) OVAL_WINDOWS_ACTIVE_DIRECTORY :: int where "OVAL_WINDOWS_ACTIVE_DIRECTORY \<equiv> OVAL_FAMILY_WINDOWS + 2"
abbreviation (input) OVAL_WINDOWS_AUDIT_EVENT_POLICY :: int where "OVAL_WINDOWS_AUDIT_EVENT_POLICY \<equiv> OVAL_FAMILY_WINDOWS + 3"
abbreviation (input) OVAL_WINDOWS_AUDIT_EVENT_SUBCATEGORIES :: int where "OVAL_WINDOWS_AUDIT_EVENT_SUBCATEGORIES \<equiv> OVAL_FAMILY_WINDOWS + 4"
abbreviation (input) OVAL_WINDOWS_FILE :: int where "OVAL_WINDOWS_FILE \<equiv> OVAL_FAMILY_WINDOWS + 5"
abbreviation (input) OVAL_WINDOWS_FILE_AUDITED_PERMISSIONS_53 :: int where "OVAL_WINDOWS_FILE_AUDITED_PERMISSIONS_53 \<equiv> OVAL_FAMILY_WINDOWS + 6"
abbreviation (input) OVAL_WINDOWS_FILE_AUDITED_PERMISSIONS :: int where "OVAL_WINDOWS_FILE_AUDITED_PERMISSIONS \<equiv> OVAL_FAMILY_WINDOWS + 7"
abbreviation (input) OVAL_WINDOWS_FILE_EFFECTIVE_RIGHTS_53 :: int where "OVAL_WINDOWS_FILE_EFFECTIVE_RIGHTS_53 \<equiv> OVAL_FAMILY_WINDOWS + 8"
abbreviation (input) OVAL_WINDOWS_FILE_EFFECTIVE_RIGHTS :: int where "OVAL_WINDOWS_FILE_EFFECTIVE_RIGHTS \<equiv> OVAL_FAMILY_WINDOWS + 9"
abbreviation (input) OVAL_WINDOWS_GROUP :: int where "OVAL_WINDOWS_GROUP \<equiv> OVAL_FAMILY_WINDOWS + 10"
abbreviation (input) OVAL_WINDOWS_GROUP_SID :: int where "OVAL_WINDOWS_GROUP_SID \<equiv> OVAL_FAMILY_WINDOWS + 11"
abbreviation (input) OVAL_WINDOWS_INTERFACE :: int where "OVAL_WINDOWS_INTERFACE \<equiv> OVAL_FAMILY_WINDOWS + 12"
abbreviation (input) OVAL_WINDOWS_LOCKOUT_POLICY :: int where "OVAL_WINDOWS_LOCKOUT_POLICY \<equiv> OVAL_FAMILY_WINDOWS + 13"
abbreviation (input) OVAL_WINDOWS_METABASE :: int where "OVAL_WINDOWS_METABASE \<equiv> OVAL_FAMILY_WINDOWS + 14"
abbreviation (input) OVAL_WINDOWS_PASSWORD_POLICY :: int where "OVAL_WINDOWS_PASSWORD_POLICY \<equiv> OVAL_FAMILY_WINDOWS + 15"
abbreviation (input) OVAL_WINDOWS_PORT :: int where "OVAL_WINDOWS_PORT \<equiv> OVAL_FAMILY_WINDOWS + 16"
abbreviation (input) OVAL_WINDOWS_PRINTER_EFFECTIVE_RIGHTS :: int where "OVAL_WINDOWS_PRINTER_EFFECTIVE_RIGHTS \<equiv> OVAL_FAMILY_WINDOWS + 17"
abbreviation (input) OVAL_WINDOWS_PROCESS :: int where "OVAL_WINDOWS_PROCESS \<equiv> OVAL_FAMILY_WINDOWS + 18"
abbreviation (input) OVAL_WINDOWS_REGISTRY :: int where "OVAL_WINDOWS_REGISTRY \<equiv> OVAL_FAMILY_WINDOWS + 19"
abbreviation (input) OVAL_WINDOWS_REGKEY_AUDITED_PERMISSIONS_53 :: int where "OVAL_WINDOWS_REGKEY_AUDITED_PERMISSIONS_53 \<equiv> OVAL_FAMILY_WINDOWS + 20"
abbreviation (input) OVAL_WINDOWS_REGKEY_AUDITED_PERMISSIONS :: int where "OVAL_WINDOWS_REGKEY_AUDITED_PERMISSIONS \<equiv> OVAL_FAMILY_WINDOWS + 21"
abbreviation (input) OVAL_WINDOWS_REGKEY_EFFECTIVE_RIGHTS_53 :: int where "OVAL_WINDOWS_REGKEY_EFFECTIVE_RIGHTS_53 \<equiv> OVAL_FAMILY_WINDOWS + 22"
abbreviation (input) OVAL_WINDOWS_REGKEY_EFFECTIVE_RIGHTS :: int where "OVAL_WINDOWS_REGKEY_EFFECTIVE_RIGHTS \<equiv> OVAL_FAMILY_WINDOWS + 23"
abbreviation (input) OVAL_WINDOWS_SHARED_RESOURCE :: int where "OVAL_WINDOWS_SHARED_RESOURCE \<equiv> OVAL_FAMILY_WINDOWS + 24"
abbreviation (input) OVAL_WINDOWS_SID :: int where "OVAL_WINDOWS_SID \<equiv> OVAL_FAMILY_WINDOWS + 25"
abbreviation (input) OVAL_WINDOWS_SID_SID :: int where "OVAL_WINDOWS_SID_SID \<equiv> OVAL_FAMILY_WINDOWS + 26"
abbreviation (input) OVAL_WINDOWS_USER_ACCESS_CONTROL :: int where "OVAL_WINDOWS_USER_ACCESS_CONTROL \<equiv> OVAL_FAMILY_WINDOWS + 27"
abbreviation (input) OVAL_WINDOWS_USER :: int where "OVAL_WINDOWS_USER \<equiv> OVAL_FAMILY_WINDOWS + 28"
abbreviation (input) OVAL_WINDOWS_USER_SID_55 :: int where "OVAL_WINDOWS_USER_SID_55 \<equiv> OVAL_FAMILY_WINDOWS + 29"
abbreviation (input) OVAL_WINDOWS_USER_SID :: int where "OVAL_WINDOWS_USER_SID \<equiv> OVAL_FAMILY_WINDOWS + 30"
abbreviation (input) OVAL_WINDOWS_VOLUME :: int where "OVAL_WINDOWS_VOLUME \<equiv> OVAL_FAMILY_WINDOWS + 31"
abbreviation (input) OVAL_WINDOWS_WMI :: int where "OVAL_WINDOWS_WMI \<equiv> OVAL_FAMILY_WINDOWS + 32"
abbreviation (input) OVAL_WINDOWS_WUA_UPDATE_SEARCHER :: int where "OVAL_WINDOWS_WUA_UPDATE_SEARCHER \<equiv> OVAL_FAMILY_WINDOWS + 33"

end
