(* ===== verification/Oval_Enumerations.thy ===== *)
theory Oval_Enumerations
  imports Oval_Types Oscap_Util "HOL-Library.Signed_Division"
begin

text \<open>
  \<open>src/OVAL/oval_enumerations.c\<close>: the text tables of the OVAL enumerations and the functions that
  read an attribute into an enumeration and write an enumeration as text. The current node of
  libxml2's reader is a record of what the reader reports of it: attribute values, namespace,
  local name. Every table is an interpretation of the contract \<open>string_table\<close>, except the
  component types' table, where a NULL text stands in the middle of the array.
\<close>

record xml_node =
  xml_attribute :: "string \<Rightarrow> cstr"
  xml_namespace_uri :: cstr
  xml_local_name :: string

definition oval_enumeration_attr ::
    "'e \<Rightarrow> xml_node \<Rightarrow> string \<Rightarrow> 'e oscap_string_map list \<Rightarrow> 'e \<Rightarrow> 'e option" where
  "oval_enumeration_attr invalid reader attname tab defval =
     (case xml_attribute reader attname of
        None \<Rightarrow> Some defval
      | Some attrstr \<Rightarrow>
          map_option (\<lambda>ret. if ret = invalid then defval else ret)
            (oscap_string_to_enum tab (Some attrstr)))"

definition oval_enumeration_get_text :: "'e oscap_string_map list \<Rightarrow> 'e \<Rightarrow> cstr option" where
  "oval_enumeration_get_text tab val = oscap_enum_to_string tab val"

definition oval_enumeration_from_text :: "'e oscap_string_map list \<Rightarrow> cstr \<Rightarrow> 'e option" where
  "oval_enumeration_from_text tab text = oscap_string_to_enum tab text"

text \<open>Attribute reading against a table that keeps the contract.\<close>

context string_table
begin

lemma attr_missing:
  "xml_attribute reader a = None \<Longrightarrow> oval_enumeration_attr iv reader a tab d = Some d"
  by (simp add: oval_enumeration_attr_def)

lemma attr_total: "\<exists>v. oval_enumeration_attr iv reader a tab d = Some v"
  using from_text_total by (auto simp: oval_enumeration_attr_def split: option.split)

lemma attr_roundtrip:
  assumes "oval_enumeration_get_text tab v = Some (Some t)"
    and "xml_attribute reader a = Some t"
  shows "oval_enumeration_attr dflt reader a tab d = Some v"
proof -
  from assms(1) have m: "(v, t) \<in> set es" by (simp add: oval_enumeration_get_text_def get_text_iff)
  with dflt_fresh have "v \<noteq> dflt" by force
  with m have "oscap_string_to_enum tab (Some t) = Some v" by (simp add: from_text_iff)
  with assms(2) \<open>v \<noteq> dflt\<close> show ?thesis by (simp add: oval_enumeration_attr_def)
qed

lemma attr_unknown:
  assumes "t \<notin> set (map snd es)" and "xml_attribute reader a = Some t"
  shows "oval_enumeration_attr dflt reader a tab d = Some d"
  using assms by (simp add: oval_enumeration_attr_def unknown_text)

end

section \<open>The tables and their readers and writers\<close>

definition OVAL_SYSCHAR_FLAG_MAP :: "oval_syschar_collection_flag_t oscap_string_map list" where
  "OVAL_SYSCHAR_FLAG_MAP = string_map_of
     [(SYSCHAR_FLAG_ERROR, ''error''),
      (SYSCHAR_FLAG_COMPLETE, ''complete''),
      (SYSCHAR_FLAG_INCOMPLETE, ''incomplete''),
      (SYSCHAR_FLAG_DOES_NOT_EXIST, ''does not exist''),
      (SYSCHAR_FLAG_NOT_APPLICABLE, ''not applicable''),
      (SYSCHAR_FLAG_NOT_COLLECTED, ''not collected'')]
     SYSCHAR_FLAG_INVALID"

definition oval_syschar_flag_parse :: "xml_node \<Rightarrow> string \<Rightarrow> oval_syschar_collection_flag_t \<Rightarrow> oval_syschar_collection_flag_t option" where
  "oval_syschar_flag_parse reader attname defval =
     oval_enumeration_attr SYSCHAR_FLAG_INVALID reader attname OVAL_SYSCHAR_FLAG_MAP defval"

definition oval_syschar_collection_flag_get_text :: "oval_syschar_collection_flag_t \<Rightarrow> cstr option" where
  "oval_syschar_collection_flag_get_text val = oval_enumeration_get_text OVAL_SYSCHAR_FLAG_MAP val"

interpretation syschar_flag_tab: string_table OVAL_SYSCHAR_FLAG_MAP
  "[(SYSCHAR_FLAG_ERROR, ''error''),
    (SYSCHAR_FLAG_COMPLETE, ''complete''),
    (SYSCHAR_FLAG_INCOMPLETE, ''incomplete''),
    (SYSCHAR_FLAG_DOES_NOT_EXIST, ''does not exist''),
    (SYSCHAR_FLAG_NOT_APPLICABLE, ''not applicable''),
    (SYSCHAR_FLAG_NOT_COLLECTED, ''not collected'')]"
  SYSCHAR_FLAG_INVALID
  by unfold_locales (simp_all add: OVAL_SYSCHAR_FLAG_MAP_def)

definition OVAL_SYSCHAR_STATUS_MAP :: "oval_syschar_status_t oscap_string_map list" where
  "OVAL_SYSCHAR_STATUS_MAP = string_map_of
     [(SYSCHAR_STATUS_ERROR, ''error''),
      (SYSCHAR_STATUS_DOES_NOT_EXIST, ''does not exist''),
      (SYSCHAR_STATUS_EXISTS, ''exists''),
      (SYSCHAR_STATUS_NOT_COLLECTED, ''not collected'')]
     SYSCHAR_STATUS_INVALID"

definition oval_syschar_status_parse :: "xml_node \<Rightarrow> string \<Rightarrow> oval_syschar_status_t \<Rightarrow> oval_syschar_status_t option" where
  "oval_syschar_status_parse reader attname defval =
     oval_enumeration_attr SYSCHAR_STATUS_INVALID reader attname OVAL_SYSCHAR_STATUS_MAP defval"

definition oval_syschar_status_get_text :: "oval_syschar_status_t \<Rightarrow> cstr option" where
  "oval_syschar_status_get_text val = oscap_enum_to_string OVAL_SYSCHAR_STATUS_MAP val"

interpretation syschar_status_tab: string_table OVAL_SYSCHAR_STATUS_MAP
  "[(SYSCHAR_STATUS_ERROR, ''error''),
    (SYSCHAR_STATUS_DOES_NOT_EXIST, ''does not exist''),
    (SYSCHAR_STATUS_EXISTS, ''exists''),
    (SYSCHAR_STATUS_NOT_COLLECTED, ''not collected'')]"
  SYSCHAR_STATUS_INVALID
  by unfold_locales (simp_all add: OVAL_SYSCHAR_STATUS_MAP_def)

definition OVAL_MESSAGE_LEVEL_MAP :: "oval_message_level_t oscap_string_map list" where
  "OVAL_MESSAGE_LEVEL_MAP = string_map_of
     [(OVAL_MESSAGE_LEVEL_DEBUG, ''debug''),
      (OVAL_MESSAGE_LEVEL_ERROR, ''error''),
      (OVAL_MESSAGE_LEVEL_FATAL, ''fatal''),
      (OVAL_MESSAGE_LEVEL_INFO, ''info''),
      (OVAL_MESSAGE_LEVEL_WARNING, ''warning'')]
     OVAL_MESSAGE_LEVEL_INVALID"

definition oval_message_level_parse :: "xml_node \<Rightarrow> string \<Rightarrow> oval_message_level_t \<Rightarrow> oval_message_level_t option" where
  "oval_message_level_parse reader attname defval =
     oval_enumeration_attr OVAL_MESSAGE_LEVEL_INVALID reader attname OVAL_MESSAGE_LEVEL_MAP defval"

definition oval_message_level_text :: "oval_message_level_t \<Rightarrow> cstr option" where
  "oval_message_level_text val = oscap_enum_to_string OVAL_MESSAGE_LEVEL_MAP val"

interpretation message_level_tab: string_table OVAL_MESSAGE_LEVEL_MAP
  "[(OVAL_MESSAGE_LEVEL_DEBUG, ''debug''),
    (OVAL_MESSAGE_LEVEL_ERROR, ''error''),
    (OVAL_MESSAGE_LEVEL_FATAL, ''fatal''),
    (OVAL_MESSAGE_LEVEL_INFO, ''info''),
    (OVAL_MESSAGE_LEVEL_WARNING, ''warning'')]"
  OVAL_MESSAGE_LEVEL_INVALID
  by unfold_locales (simp_all add: OVAL_MESSAGE_LEVEL_MAP_def)

definition OVAL_ARITHMETIC_OPERATION_MAP :: "oval_arithmetic_operation_t oscap_string_map list" where
  "OVAL_ARITHMETIC_OPERATION_MAP = string_map_of
     [(OVAL_ARITHMETIC_ADD, ''add''),
      (OVAL_ARITHMETIC_MULTIPLY, ''multiply''),
      (OVAL_ARITHMETIC_SUBTRACT, ''subtract''),
      (OVAL_ARITHMETIC_DIVIDE, ''divide'')]
     OVAL_ARITHMETIC_INVALID"

definition oval_arithmetic_operation_parse :: "xml_node \<Rightarrow> string \<Rightarrow> oval_arithmetic_operation_t \<Rightarrow> oval_arithmetic_operation_t option" where
  "oval_arithmetic_operation_parse reader attname defval =
     oval_enumeration_attr OVAL_ARITHMETIC_INVALID reader attname OVAL_ARITHMETIC_OPERATION_MAP defval"

definition oval_arithmetic_operation_get_text :: "oval_arithmetic_operation_t \<Rightarrow> cstr option" where
  "oval_arithmetic_operation_get_text val = oval_enumeration_get_text OVAL_ARITHMETIC_OPERATION_MAP val"

interpretation arithmetic_operation_tab: string_table OVAL_ARITHMETIC_OPERATION_MAP
  "[(OVAL_ARITHMETIC_ADD, ''add''),
    (OVAL_ARITHMETIC_MULTIPLY, ''multiply''),
    (OVAL_ARITHMETIC_SUBTRACT, ''subtract''),
    (OVAL_ARITHMETIC_DIVIDE, ''divide'')]"
  OVAL_ARITHMETIC_INVALID
  by unfold_locales (simp_all add: OVAL_ARITHMETIC_OPERATION_MAP_def)

definition OVAL_DATETIME_FORMAT_MAP :: "oval_datetime_format_t oscap_string_map list" where
  "OVAL_DATETIME_FORMAT_MAP = string_map_of
     [(OVAL_DATETIME_YEAR_MONTH_DAY, ''year_month_day''),
      (OVAL_DATETIME_MONTH_DAY_YEAR, ''month_day_year''),
      (OVAL_DATETIME_DAY_MONTH_YEAR, ''day_month_year''),
      (OVAL_DATETIME_WIN_FILETIME, ''win_filetime''),
      (OVAL_DATETIME_SECONDS_SINCE_EPOCH, ''seconds_since_epoch'')]
     OVAL_DATETIME_INVALID"

definition oval_datetime_format_parse :: "xml_node \<Rightarrow> string \<Rightarrow> oval_datetime_format_t \<Rightarrow> oval_datetime_format_t option" where
  "oval_datetime_format_parse reader attname defval =
     oval_enumeration_attr OVAL_DATETIME_INVALID reader attname OVAL_DATETIME_FORMAT_MAP defval"

definition oval_datetime_format_get_text :: "oval_datetime_format_t \<Rightarrow> cstr option" where
  "oval_datetime_format_get_text val = oval_enumeration_get_text OVAL_DATETIME_FORMAT_MAP val"

interpretation datetime_format_tab: string_table OVAL_DATETIME_FORMAT_MAP
  "[(OVAL_DATETIME_YEAR_MONTH_DAY, ''year_month_day''),
    (OVAL_DATETIME_MONTH_DAY_YEAR, ''month_day_year''),
    (OVAL_DATETIME_DAY_MONTH_YEAR, ''day_month_year''),
    (OVAL_DATETIME_WIN_FILETIME, ''win_filetime''),
    (OVAL_DATETIME_SECONDS_SINCE_EPOCH, ''seconds_since_epoch'')]"
  OVAL_DATETIME_INVALID
  by unfold_locales (simp_all add: OVAL_DATETIME_FORMAT_MAP_def)

definition OVAL_SET_OPERATION_MAP :: "oval_setobject_operation_t oscap_string_map list" where
  "OVAL_SET_OPERATION_MAP = string_map_of
     [(OVAL_SET_OPERATION_COMPLEMENT, ''COMPLEMENT''),
      (OVAL_SET_OPERATION_INTERSECTION, ''INTERSECTION''),
      (OVAL_SET_OPERATION_UNION, ''UNION'')]
     OVAL_SET_OPERATION_INVALID"

definition oval_set_operation_parse :: "xml_node \<Rightarrow> string \<Rightarrow> oval_setobject_operation_t \<Rightarrow> oval_setobject_operation_t option" where
  "oval_set_operation_parse reader attname defval =
     oval_enumeration_attr OVAL_SET_OPERATION_INVALID reader attname OVAL_SET_OPERATION_MAP defval"

definition oval_set_operation_get_text :: "oval_setobject_operation_t \<Rightarrow> cstr option" where
  "oval_set_operation_get_text val = oval_enumeration_get_text OVAL_SET_OPERATION_MAP val"

interpretation set_operation_tab: string_table OVAL_SET_OPERATION_MAP
  "[(OVAL_SET_OPERATION_COMPLEMENT, ''COMPLEMENT''),
    (OVAL_SET_OPERATION_INTERSECTION, ''INTERSECTION''),
    (OVAL_SET_OPERATION_UNION, ''UNION'')]"
  OVAL_SET_OPERATION_INVALID
  by unfold_locales (simp_all add: OVAL_SET_OPERATION_MAP_def)

definition OVAL_FILTER_ACTION_MAP :: "oval_filter_action_t oscap_string_map list" where
  "OVAL_FILTER_ACTION_MAP = string_map_of
     [(OVAL_FILTER_ACTION_EXCLUDE, ''exclude''),
      (OVAL_FILTER_ACTION_INCLUDE, ''include'')]
     OVAL_FILTER_ACTION_INVALID"

definition oval_filter_action_parse :: "xml_node \<Rightarrow> string \<Rightarrow> oval_filter_action_t \<Rightarrow> oval_filter_action_t option" where
  "oval_filter_action_parse reader attname defval =
     oval_enumeration_attr OVAL_FILTER_ACTION_INVALID reader attname OVAL_FILTER_ACTION_MAP defval"

definition oval_filter_action_get_text :: "oval_filter_action_t \<Rightarrow> cstr option" where
  "oval_filter_action_get_text val = oval_enumeration_get_text OVAL_FILTER_ACTION_MAP val"

interpretation filter_action_tab: string_table OVAL_FILTER_ACTION_MAP
  "[(OVAL_FILTER_ACTION_EXCLUDE, ''exclude''),
    (OVAL_FILTER_ACTION_INCLUDE, ''include'')]"
  OVAL_FILTER_ACTION_INVALID
  by unfold_locales (simp_all add: OVAL_FILTER_ACTION_MAP_def)

definition OVAL_OPERATION_MAP :: "oval_operation_t oscap_string_map list" where
  "OVAL_OPERATION_MAP = string_map_of
     [(OVAL_OPERATION_EQUALS, ''equals''),
      (OVAL_OPERATION_NOT_EQUAL, ''not equal''),
      (OVAL_OPERATION_CASE_INSENSITIVE_EQUALS, ''case insensitive equals''),
      (OVAL_OPERATION_CASE_INSENSITIVE_NOT_EQUAL, ''case insensitive not equal''),
      (OVAL_OPERATION_GREATER_THAN, ''greater than''),
      (OVAL_OPERATION_LESS_THAN, ''less than''),
      (OVAL_OPERATION_GREATER_THAN_OR_EQUAL, ''greater than or equal''),
      (OVAL_OPERATION_LESS_THAN_OR_EQUAL, ''less than or equal''),
      (OVAL_OPERATION_BITWISE_AND, ''bitwise and''),
      (OVAL_OPERATION_BITWISE_OR, ''bitwise or''),
      (OVAL_OPERATION_PATTERN_MATCH, ''pattern match''),
      (OVAL_OPERATION_SUBSET_OF, ''subset of''),
      (OVAL_OPERATION_SUPERSET_OF, ''superset of'')]
     OVAL_OPERATION_INVALID"

definition oval_operation_parse :: "xml_node \<Rightarrow> string \<Rightarrow> oval_operation_t \<Rightarrow> oval_operation_t option" where
  "oval_operation_parse reader attname defval =
     oval_enumeration_attr OVAL_OPERATION_INVALID reader attname OVAL_OPERATION_MAP defval"

definition oval_operation_get_text :: "oval_operation_t \<Rightarrow> cstr option" where
  "oval_operation_get_text val = oval_enumeration_get_text OVAL_OPERATION_MAP val"

interpretation operation_tab: string_table OVAL_OPERATION_MAP
  "[(OVAL_OPERATION_EQUALS, ''equals''),
    (OVAL_OPERATION_NOT_EQUAL, ''not equal''),
    (OVAL_OPERATION_CASE_INSENSITIVE_EQUALS, ''case insensitive equals''),
    (OVAL_OPERATION_CASE_INSENSITIVE_NOT_EQUAL, ''case insensitive not equal''),
    (OVAL_OPERATION_GREATER_THAN, ''greater than''),
    (OVAL_OPERATION_LESS_THAN, ''less than''),
    (OVAL_OPERATION_GREATER_THAN_OR_EQUAL, ''greater than or equal''),
    (OVAL_OPERATION_LESS_THAN_OR_EQUAL, ''less than or equal''),
    (OVAL_OPERATION_BITWISE_AND, ''bitwise and''),
    (OVAL_OPERATION_BITWISE_OR, ''bitwise or''),
    (OVAL_OPERATION_PATTERN_MATCH, ''pattern match''),
    (OVAL_OPERATION_SUBSET_OF, ''subset of''),
    (OVAL_OPERATION_SUPERSET_OF, ''superset of'')]"
  OVAL_OPERATION_INVALID
  by unfold_locales (simp_all add: OVAL_OPERATION_MAP_def)

definition OVAL_CHECK_MAP :: "oval_check_t oscap_string_map list" where
  "OVAL_CHECK_MAP = string_map_of
     [(OVAL_CHECK_ALL, ''all''),
      (OVAL_CHECK_AT_LEAST_ONE, ''at least one''),
      (OVAL_CHECK_NONE_EXIST, ''none exist''),
      (OVAL_CHECK_NONE_SATISFY, ''none satisfy''),
      (OVAL_CHECK_ONLY_ONE, ''only one'')]
     OVAL_CHECK_INVALID"

definition oval_check_parse :: "xml_node \<Rightarrow> string \<Rightarrow> oval_check_t \<Rightarrow> oval_check_t option" where
  "oval_check_parse reader attname defval =
     oval_enumeration_attr OVAL_CHECK_INVALID reader attname OVAL_CHECK_MAP defval"

definition oval_check_get_text :: "oval_check_t \<Rightarrow> cstr option" where
  "oval_check_get_text val = oval_enumeration_get_text OVAL_CHECK_MAP val"

interpretation check_tab: string_table OVAL_CHECK_MAP
  "[(OVAL_CHECK_ALL, ''all''),
    (OVAL_CHECK_AT_LEAST_ONE, ''at least one''),
    (OVAL_CHECK_NONE_EXIST, ''none exist''),
    (OVAL_CHECK_NONE_SATISFY, ''none satisfy''),
    (OVAL_CHECK_ONLY_ONE, ''only one'')]"
  OVAL_CHECK_INVALID
  by unfold_locales (simp_all add: OVAL_CHECK_MAP_def)

definition OVAL_DATATYPE_MAP :: "oval_datatype_t oscap_string_map list" where
  "OVAL_DATATYPE_MAP = string_map_of
     [(OVAL_DATATYPE_BINARY, ''binary''),
      (OVAL_DATATYPE_BOOLEAN, ''boolean''),
      (OVAL_DATATYPE_EVR_STRING, ''evr_string''),
      (OVAL_DATATYPE_FILESET_REVISION, ''fileset_revision''),
      (OVAL_DATATYPE_FLOAT, ''float''),
      (OVAL_DATATYPE_IOS_VERSION, ''ios_version''),
      (OVAL_DATATYPE_IPV4ADDR, ''ipv4_address''),
      (OVAL_DATATYPE_IPV6ADDR, ''ipv6_address''),
      (OVAL_DATATYPE_VERSION, ''version''),
      (OVAL_DATATYPE_INTEGER, ''int''),
      (OVAL_DATATYPE_STRING, ''string''),
      (OVAL_DATATYPE_RECORD, ''record''),
      (OVAL_DATATYPE_SEXP, ''SEXP'')]
     OVAL_DATATYPE_INVALID"

definition oval_datatype_parse :: "xml_node \<Rightarrow> string \<Rightarrow> oval_datatype_t \<Rightarrow> oval_datatype_t option" where
  "oval_datatype_parse reader attname defval =
     oval_enumeration_attr OVAL_DATATYPE_INVALID reader attname OVAL_DATATYPE_MAP defval"

definition oval_datatype_get_text :: "oval_datatype_t \<Rightarrow> cstr option" where
  "oval_datatype_get_text val = oval_enumeration_get_text OVAL_DATATYPE_MAP val"

definition oval_datatype_from_text :: "cstr \<Rightarrow> oval_datatype_t option" where
  "oval_datatype_from_text text = oval_enumeration_from_text OVAL_DATATYPE_MAP text"

interpretation datatype_tab: string_table OVAL_DATATYPE_MAP
  "[(OVAL_DATATYPE_BINARY, ''binary''),
    (OVAL_DATATYPE_BOOLEAN, ''boolean''),
    (OVAL_DATATYPE_EVR_STRING, ''evr_string''),
    (OVAL_DATATYPE_FILESET_REVISION, ''fileset_revision''),
    (OVAL_DATATYPE_FLOAT, ''float''),
    (OVAL_DATATYPE_IOS_VERSION, ''ios_version''),
    (OVAL_DATATYPE_IPV4ADDR, ''ipv4_address''),
    (OVAL_DATATYPE_IPV6ADDR, ''ipv6_address''),
    (OVAL_DATATYPE_VERSION, ''version''),
    (OVAL_DATATYPE_INTEGER, ''int''),
    (OVAL_DATATYPE_STRING, ''string''),
    (OVAL_DATATYPE_RECORD, ''record''),
    (OVAL_DATATYPE_SEXP, ''SEXP'')]"
  OVAL_DATATYPE_INVALID
  by unfold_locales (simp_all add: OVAL_DATATYPE_MAP_def)

definition OVAL_EXISTENCE_MAP :: "oval_existence_t oscap_string_map list" where
  "OVAL_EXISTENCE_MAP = string_map_of
     [(OVAL_ALL_EXIST, ''all_exist''),
      (OVAL_ANY_EXIST, ''any_exist''),
      (OVAL_AT_LEAST_ONE_EXISTS, ''at_least_one_exists''),
      (OVAL_ONLY_ONE_EXISTS, ''only_one_exists''),
      (OVAL_NONE_EXIST, ''none_exist'')]
     OVAL_EXISTENCE_INVALID"

definition oval_existence_parse :: "xml_node \<Rightarrow> string \<Rightarrow> oval_existence_t \<Rightarrow> oval_existence_t option" where
  "oval_existence_parse reader attname defval =
     oval_enumeration_attr OVAL_EXISTENCE_INVALID reader attname OVAL_EXISTENCE_MAP defval"

definition oval_existence_get_text :: "oval_existence_t \<Rightarrow> cstr option" where
  "oval_existence_get_text val = oval_enumeration_get_text OVAL_EXISTENCE_MAP val"

interpretation existence_tab: string_table OVAL_EXISTENCE_MAP
  "[(OVAL_ALL_EXIST, ''all_exist''),
    (OVAL_ANY_EXIST, ''any_exist''),
    (OVAL_AT_LEAST_ONE_EXISTS, ''at_least_one_exists''),
    (OVAL_ONLY_ONE_EXISTS, ''only_one_exists''),
    (OVAL_NONE_EXIST, ''none_exist'')]"
  OVAL_EXISTENCE_INVALID
  by unfold_locales (simp_all add: OVAL_EXISTENCE_MAP_def)

definition OVAL_OPERATOR_MAP :: "oval_operator_t oscap_string_map list" where
  "OVAL_OPERATOR_MAP = string_map_of
     [(OVAL_OPERATOR_AND, ''AND''),
      (OVAL_OPERATOR_ONE, ''ONE''),
      (OVAL_OPERATOR_OR, ''OR''),
      (OVAL_OPERATOR_XOR, ''XOR'')]
     OVAL_OPERATOR_INVALID"

definition oval_operator_parse :: "xml_node \<Rightarrow> string \<Rightarrow> oval_operator_t \<Rightarrow> oval_operator_t option" where
  "oval_operator_parse reader attname defval =
     oval_enumeration_attr OVAL_OPERATOR_INVALID reader attname OVAL_OPERATOR_MAP defval"

definition oval_operator_get_text :: "oval_operator_t \<Rightarrow> cstr option" where
  "oval_operator_get_text val = oval_enumeration_get_text OVAL_OPERATOR_MAP val"

interpretation operator_tab: string_table OVAL_OPERATOR_MAP
  "[(OVAL_OPERATOR_AND, ''AND''),
    (OVAL_OPERATOR_ONE, ''ONE''),
    (OVAL_OPERATOR_OR, ''OR''),
    (OVAL_OPERATOR_XOR, ''XOR'')]"
  OVAL_OPERATOR_INVALID
  by unfold_locales (simp_all add: OVAL_OPERATOR_MAP_def)

definition OVAL_RESULT_MAP :: "oval_result_t oscap_string_map list" where
  "OVAL_RESULT_MAP = string_map_of
     [(OVAL_RESULT_TRUE, ''true''),
      (OVAL_RESULT_FALSE, ''false''),
      (OVAL_RESULT_UNKNOWN, ''unknown''),
      (OVAL_RESULT_ERROR, ''error''),
      (OVAL_RESULT_NOT_EVALUATED, ''not evaluated''),
      (OVAL_RESULT_NOT_APPLICABLE, ''not applicable'')]
     OVAL_RESULT_INVALID"

definition oval_result_parse :: "xml_node \<Rightarrow> string \<Rightarrow> oval_result_t \<Rightarrow> oval_result_t option" where
  "oval_result_parse reader attname defval =
     oval_enumeration_attr OVAL_RESULT_INVALID reader attname OVAL_RESULT_MAP defval"

definition oval_result_get_text :: "oval_result_t \<Rightarrow> cstr option" where
  "oval_result_get_text val = oval_enumeration_get_text OVAL_RESULT_MAP val"

interpretation result_tab: string_table OVAL_RESULT_MAP
  "[(OVAL_RESULT_TRUE, ''true''),
    (OVAL_RESULT_FALSE, ''false''),
    (OVAL_RESULT_UNKNOWN, ''unknown''),
    (OVAL_RESULT_ERROR, ''error''),
    (OVAL_RESULT_NOT_EVALUATED, ''not evaluated''),
    (OVAL_RESULT_NOT_APPLICABLE, ''not applicable'')]"
  OVAL_RESULT_INVALID
  by unfold_locales (simp_all add: OVAL_RESULT_MAP_def)

definition OVAL_VARIABLE_TYPE_MAP :: "oval_variable_type_t oscap_string_map list" where
  "OVAL_VARIABLE_TYPE_MAP = string_map_of
     [(OVAL_VARIABLE_CONSTANT, ''constant_variable''),
      (OVAL_VARIABLE_EXTERNAL, ''external_variable''),
      (OVAL_VARIABLE_LOCAL, ''local_variable'')]
     OVAL_VARIABLE_INVALID"

definition oval_variable_type_get_text :: "oval_variable_type_t \<Rightarrow> cstr option" where
  "oval_variable_type_get_text val = oval_enumeration_get_text OVAL_VARIABLE_TYPE_MAP val"

interpretation variable_type_tab: string_table OVAL_VARIABLE_TYPE_MAP
  "[(OVAL_VARIABLE_CONSTANT, ''constant_variable''),
    (OVAL_VARIABLE_EXTERNAL, ''external_variable''),
    (OVAL_VARIABLE_LOCAL, ''local_variable'')]"
  OVAL_VARIABLE_INVALID
  by unfold_locales (simp_all add: OVAL_VARIABLE_TYPE_MAP_def)

definition OVAL_DEFINITION_CLASS_MAP :: "oval_definition_class_t oscap_string_map list" where
  "OVAL_DEFINITION_CLASS_MAP = string_map_of
     [(OVAL_CLASS_COMPLIANCE, ''compliance''),
      (OVAL_CLASS_INVENTORY, ''inventory''),
      (OVAL_CLASS_MISCELLANEOUS, ''miscellaneous''),
      (OVAL_CLASS_PATCH, ''patch''),
      (OVAL_CLASS_VULNERABILITY, ''vulnerability'')]
     OVAL_CLASS_UNKNOWN"

definition oval_definition_class_enum :: "cstr \<Rightarrow> oval_definition_class_t option" where
  "oval_definition_class_enum cl = oscap_string_to_enum OVAL_DEFINITION_CLASS_MAP cl"

definition oval_definition_class_text :: "oval_definition_class_t \<Rightarrow> cstr option" where
  "oval_definition_class_text cl = oscap_enum_to_string OVAL_DEFINITION_CLASS_MAP cl"

interpretation definition_class_tab: string_table OVAL_DEFINITION_CLASS_MAP
  "[(OVAL_CLASS_COMPLIANCE, ''compliance''),
    (OVAL_CLASS_INVENTORY, ''inventory''),
    (OVAL_CLASS_MISCELLANEOUS, ''miscellaneous''),
    (OVAL_CLASS_PATCH, ''patch''),
    (OVAL_CLASS_VULNERABILITY, ''vulnerability'')]"
  OVAL_CLASS_UNKNOWN
  by unfold_locales (simp_all add: OVAL_DEFINITION_CLASS_MAP_def)

text \<open>
  The component types. \<open>OVAL_FUNCTION\<close> and \<open>OVAL_COMPONENT_FUNCTION\<close> are both 4, so the
  adjustment \<open>type - OVAL_FUNCTION + OVAL_COMPONENT_FUNCTION\<close> of a function's type is the
  identity. The array has a NULL text in its middle.
\<close>

text \<open>
  The component types are computed with as numbers here: \<open>component_type_val\<close> gives the value of
  the enumerator, and \<open>OVAL_FUNCTION\<close> is the macro of \<open>oval_definitions.h\<close>.
\<close>

abbreviation (input) OVAL_FUNCTION :: int where "OVAL_FUNCTION \<equiv> 4"

fun component_type_val :: "oval_component_type_t \<Rightarrow> int" where
  "component_type_val OVAL_COMPONENT_UNKNOWN = 0"
| "component_type_val OVAL_COMPONENT_LITERAL = 1"
| "component_type_val OVAL_COMPONENT_OBJECTREF = 2"
| "component_type_val OVAL_COMPONENT_VARREF = 3"
| "component_type_val OVAL_COMPONENT_FUNCTION = 4"
| "component_type_val OVAL_FUNCTION_BEGIN = OVAL_FUNCTION + 1"
| "component_type_val OVAL_FUNCTION_CONCAT = OVAL_FUNCTION + 2"
| "component_type_val OVAL_FUNCTION_END = OVAL_FUNCTION + 3"
| "component_type_val OVAL_FUNCTION_SPLIT = OVAL_FUNCTION + 4"
| "component_type_val OVAL_FUNCTION_SUBSTRING = OVAL_FUNCTION + 5"
| "component_type_val OVAL_FUNCTION_TIMEDIF = OVAL_FUNCTION + 6"
| "component_type_val OVAL_FUNCTION_ESCAPE_REGEX = OVAL_FUNCTION + 7"
| "component_type_val OVAL_FUNCTION_REGEX_CAPTURE = OVAL_FUNCTION + 8"
| "component_type_val OVAL_FUNCTION_ARITHMETIC = OVAL_FUNCTION + 9"
| "component_type_val OVAL_FUNCTION_COUNT = OVAL_FUNCTION + 10"
| "component_type_val OVAL_FUNCTION_UNIQUE = OVAL_FUNCTION + 11"
| "component_type_val OVAL_FUNCTION_LAST = OVAL_FUNCTION + 12"
| "component_type_val OVAL_COMPONENT_INVALID = -1"

definition OVAL_COMPONENT_TYPE_MAP :: "int oscap_string_map list" where
  "OVAL_COMPONENT_TYPE_MAP =
     [\<lparr>map_value = component_type_val OVAL_COMPONENT_LITERAL, map_string = Some ''literal_component''\<rparr>,
      \<lparr>map_value = component_type_val OVAL_COMPONENT_OBJECTREF, map_string = Some ''object_component''\<rparr>,
      \<lparr>map_value = component_type_val OVAL_COMPONENT_VARREF, map_string = Some ''variable_component''\<rparr>,
      \<lparr>map_value = -1, map_string = None\<rparr>,
      \<lparr>map_value = component_type_val OVAL_FUNCTION_BEGIN, map_string = Some ''begin''\<rparr>,
      \<lparr>map_value = component_type_val OVAL_FUNCTION_CONCAT, map_string = Some ''concat''\<rparr>,
      \<lparr>map_value = component_type_val OVAL_FUNCTION_END, map_string = Some ''end''\<rparr>,
      \<lparr>map_value = component_type_val OVAL_FUNCTION_SPLIT, map_string = Some ''split''\<rparr>,
      \<lparr>map_value = component_type_val OVAL_FUNCTION_SUBSTRING, map_string = Some ''substring''\<rparr>,
      \<lparr>map_value = component_type_val OVAL_FUNCTION_TIMEDIF, map_string = Some ''time_difference''\<rparr>,
      \<lparr>map_value = component_type_val OVAL_FUNCTION_ESCAPE_REGEX, map_string = Some ''escape_regex''\<rparr>,
      \<lparr>map_value = component_type_val OVAL_FUNCTION_REGEX_CAPTURE, map_string = Some ''regex_capture''\<rparr>,
      \<lparr>map_value = component_type_val OVAL_FUNCTION_ARITHMETIC, map_string = Some ''arithmetic''\<rparr>,
      \<lparr>map_value = component_type_val OVAL_FUNCTION_COUNT, map_string = Some ''count''\<rparr>,
      \<lparr>map_value = -1, map_string = None\<rparr>]"

definition oval_component_type_get_text :: "oval_component_type_t \<Rightarrow> cstr option" where
  "oval_component_type_get_text t =
     (let type = component_type_val t;
          type' = (if type > OVAL_FUNCTION then type - OVAL_FUNCTION + component_type_val OVAL_COMPONENT_FUNCTION
                   else type)
      in oval_enumeration_get_text OVAL_COMPONENT_TYPE_MAP type')"

section \<open>Families and subtypes\<close>

abbreviation (input) OVAL_ENUMERATION_INVALID :: int where "OVAL_ENUMERATION_INVALID \<equiv> -1"

definition OVAL_FAMILY_MAP :: "int oscap_string_map list" where
  "OVAL_FAMILY_MAP = string_map_of
     [(OVAL_FAMILY_AIX, ''aix''),
      (OVAL_FAMILY_APACHE, ''apache''),
      (OVAL_FAMILY_CATOS, ''catos''),
      (OVAL_FAMILY_ESX, ''esx''),
      (OVAL_FAMILY_FREEBSD, ''freebsd''),
      (OVAL_FAMILY_HPUX, ''hpux''),
      (OVAL_FAMILY_INDEPENDENT, ''independent''),
      (OVAL_FAMILY_IOS, ''ios''),
      (OVAL_FAMILY_LINUX, ''linux''),
      (OVAL_FAMILY_MACOS, ''macos''),
      (OVAL_FAMILY_PIXOS, ''pixos''),
      (OVAL_FAMILY_SOLARIS, ''solaris''),
      (OVAL_FAMILY_UNIX, ''unix''),
      (OVAL_FAMILY_WINDOWS, ''windows'')]
     OVAL_ENUMERATION_INVALID"

interpretation family_tab: string_table OVAL_FAMILY_MAP
  "[(OVAL_FAMILY_AIX, ''aix''),
    (OVAL_FAMILY_APACHE, ''apache''),
    (OVAL_FAMILY_CATOS, ''catos''),
    (OVAL_FAMILY_ESX, ''esx''),
    (OVAL_FAMILY_FREEBSD, ''freebsd''),
    (OVAL_FAMILY_HPUX, ''hpux''),
    (OVAL_FAMILY_INDEPENDENT, ''independent''),
    (OVAL_FAMILY_IOS, ''ios''),
    (OVAL_FAMILY_LINUX, ''linux''),
    (OVAL_FAMILY_MACOS, ''macos''),
    (OVAL_FAMILY_PIXOS, ''pixos''),
    (OVAL_FAMILY_SOLARIS, ''solaris''),
    (OVAL_FAMILY_UNIX, ''unix''),
    (OVAL_FAMILY_WINDOWS, ''windows'')]"
  OVAL_ENUMERATION_INVALID
  by unfold_locales (simp_all add: OVAL_FAMILY_MAP_def)

definition oval_family_parse :: "xml_node \<Rightarrow> int option" where
  "oval_family_parse reader =
     (case xml_namespace_uri reader of
        None \<Rightarrow> Some OVAL_FAMILY_UNKNOWN
      | Some namespace \<Rightarrow>
          (case c_strrchr namespace CHR ''#'' of
             None \<Rightarrow> Some OVAL_FAMILY_UNKNOWN
           | Some (_, family_text) \<Rightarrow>
               map_option (\<lambda>ret. if ret = OVAL_ENUMERATION_INVALID then OVAL_FAMILY_UNKNOWN else ret)
                 (oscap_string_to_enum OVAL_FAMILY_MAP (Some family_text))))"

definition oval_family_get_text :: "int \<Rightarrow> cstr option" where
  "oval_family_get_text family = oval_enumeration_get_text OVAL_FAMILY_MAP family"

definition OVAL_SUBTYPE_AIX_MAP :: "int oscap_string_map list" where
  "OVAL_SUBTYPE_AIX_MAP = string_map_of
     [(OVAL_AIX_FILESET, ''fileset''),
      (OVAL_AIX_FIX, ''fix''),
      (OVAL_AIX_OSLEVEL, ''oslevel'')]
     OVAL_SUBTYPE_UNKNOWN"

interpretation aix_subtypes: string_table OVAL_SUBTYPE_AIX_MAP
  "[(OVAL_AIX_FILESET, ''fileset''),
    (OVAL_AIX_FIX, ''fix''),
    (OVAL_AIX_OSLEVEL, ''oslevel'')]"
  OVAL_SUBTYPE_UNKNOWN
  by unfold_locales (simp_all add: OVAL_SUBTYPE_AIX_MAP_def)

definition OVAL_SUBTYPE_APACHE_MAP :: "int oscap_string_map list" where
  "OVAL_SUBTYPE_APACHE_MAP = string_map_of
     [(OVAL_APACHE_HTTPD, ''httpd''),
      (OVAL_APACHE_VERSION, ''version'')]
     OVAL_SUBTYPE_UNKNOWN"

interpretation apache_subtypes: string_table OVAL_SUBTYPE_APACHE_MAP
  "[(OVAL_APACHE_HTTPD, ''httpd''),
    (OVAL_APACHE_VERSION, ''version'')]"
  OVAL_SUBTYPE_UNKNOWN
  by unfold_locales (simp_all add: OVAL_SUBTYPE_APACHE_MAP_def)

definition OVAL_SUBTYPE_CATOS_MAP :: "int oscap_string_map list" where
  "OVAL_SUBTYPE_CATOS_MAP = string_map_of
     [(OVAL_CATOS_LINE, ''line''),
      (OVAL_CATOS_MODULE, ''module''),
      (OVAL_CATOS_VERSION_55, ''version55''),
      (OVAL_CATOS_VERSION, ''version'')]
     OVAL_SUBTYPE_UNKNOWN"

interpretation catos_subtypes: string_table OVAL_SUBTYPE_CATOS_MAP
  "[(OVAL_CATOS_LINE, ''line''),
    (OVAL_CATOS_MODULE, ''module''),
    (OVAL_CATOS_VERSION_55, ''version55''),
    (OVAL_CATOS_VERSION, ''version'')]"
  OVAL_SUBTYPE_UNKNOWN
  by unfold_locales (simp_all add: OVAL_SUBTYPE_CATOS_MAP_def)

definition OVAL_SUBTYPE_ESX_MAP :: "int oscap_string_map list" where
  "OVAL_SUBTYPE_ESX_MAP = string_map_of
     [(OVAL_ESX_PATCH, ''patch''),
      (OVAL_ESX_PATCH56, ''patch56''),
      (OVAL_ESX_VERSION, ''version''),
      (OVAL_ESX_VISDKMANAGEDOBJECT, ''visdkmanagedobject'')]
     OVAL_SUBTYPE_UNKNOWN"

interpretation esx_subtypes: string_table OVAL_SUBTYPE_ESX_MAP
  "[(OVAL_ESX_PATCH, ''patch''),
    (OVAL_ESX_PATCH56, ''patch56''),
    (OVAL_ESX_VERSION, ''version''),
    (OVAL_ESX_VISDKMANAGEDOBJECT, ''visdkmanagedobject'')]"
  OVAL_SUBTYPE_UNKNOWN
  by unfold_locales (simp_all add: OVAL_SUBTYPE_ESX_MAP_def)

definition OVAL_SUBTYPE_FREEBSD_MAP :: "int oscap_string_map list" where
  "OVAL_SUBTYPE_FREEBSD_MAP = string_map_of
     [(OVAL_FREEBSD_PORT_INFO, ''portinfo'')]
     OVAL_SUBTYPE_UNKNOWN"

interpretation freebsd_subtypes: string_table OVAL_SUBTYPE_FREEBSD_MAP
  "[(OVAL_FREEBSD_PORT_INFO, ''portinfo'')]"
  OVAL_SUBTYPE_UNKNOWN
  by unfold_locales (simp_all add: OVAL_SUBTYPE_FREEBSD_MAP_def)

definition OVAL_SUBTYPE_HPUX_MAP :: "int oscap_string_map list" where
  "OVAL_SUBTYPE_HPUX_MAP = string_map_of
     [(OVAL_HPUX_GETCONF, ''getconf''),
      (OVAL_HPUX_PATCH_53, ''patch53''),
      (OVAL_HPUX_PATCH, ''patch''),
      (OVAL_HPUX_SOFTWARE_LIST, ''softwarelist''),
      (OVAL_HPUX_TRUSTED_ACCOUNTS, ''trustedaccounts''),
      (OVAL_HPUX_NDD, ''ndd''),
      (OVAL_HPUX_SWLIST, ''swlist''),
      (OVAL_HPUX_TRUSTED, ''trusted'')]
     OVAL_SUBTYPE_UNKNOWN"

interpretation hpux_subtypes: string_table OVAL_SUBTYPE_HPUX_MAP
  "[(OVAL_HPUX_GETCONF, ''getconf''),
    (OVAL_HPUX_PATCH_53, ''patch53''),
    (OVAL_HPUX_PATCH, ''patch''),
    (OVAL_HPUX_SOFTWARE_LIST, ''softwarelist''),
    (OVAL_HPUX_TRUSTED_ACCOUNTS, ''trustedaccounts''),
    (OVAL_HPUX_NDD, ''ndd''),
    (OVAL_HPUX_SWLIST, ''swlist''),
    (OVAL_HPUX_TRUSTED, ''trusted'')]"
  OVAL_SUBTYPE_UNKNOWN
  by unfold_locales (simp_all add: OVAL_SUBTYPE_HPUX_MAP_def)

definition OVAL_SUBTYPE_INDEPENDENT_MAP :: "int oscap_string_map list" where
  "OVAL_SUBTYPE_INDEPENDENT_MAP = string_map_of
     [(OVAL_INDEPENDENT_FAMILY, ''family''),
      (OVAL_INDEPENDENT_FILE_MD5, ''filemd5''),
      (OVAL_INDEPENDENT_FILE_HASH, ''filehash''),
      (OVAL_INDEPENDENT_FILE_HASH58, ''filehash58''),
      (OVAL_INDEPENDENT_ENVIRONMENT_VARIABLE, ''environmentvariable''),
      (OVAL_INDEPENDENT_ENVIRONMENT_VARIABLE58, ''environmentvariable58''),
      (OVAL_INDEPENDENT_SQL57, ''sql57''),
      (OVAL_INDEPENDENT_SQL, ''sql''),
      (OVAL_INDEPENDENT_TEXT_FILE_CONTENT_54, ''textfilecontent54''),
      (OVAL_INDEPENDENT_TEXT_FILE_CONTENT, ''textfilecontent''),
      (OVAL_INDEPENDENT_UNKNOWN, ''unknown''),
      (OVAL_INDEPENDENT_VARIABLE, ''variable''),
      (OVAL_INDEPENDENT_XML_FILE_CONTENT, ''xmlfilecontent''),
      (OVAL_INDEPENDENT_SYSCHAR_SUBTYPE, ''system_info''),
      (OVAL_INDEPENDENT_LDAP57, ''ldap57''),
      (OVAL_INDEPENDENT_LDAP, ''ldap'')]
     OVAL_SUBTYPE_UNKNOWN"

interpretation independent_subtypes: string_table OVAL_SUBTYPE_INDEPENDENT_MAP
  "[(OVAL_INDEPENDENT_FAMILY, ''family''),
    (OVAL_INDEPENDENT_FILE_MD5, ''filemd5''),
    (OVAL_INDEPENDENT_FILE_HASH, ''filehash''),
    (OVAL_INDEPENDENT_FILE_HASH58, ''filehash58''),
    (OVAL_INDEPENDENT_ENVIRONMENT_VARIABLE, ''environmentvariable''),
    (OVAL_INDEPENDENT_ENVIRONMENT_VARIABLE58, ''environmentvariable58''),
    (OVAL_INDEPENDENT_SQL57, ''sql57''),
    (OVAL_INDEPENDENT_SQL, ''sql''),
    (OVAL_INDEPENDENT_TEXT_FILE_CONTENT_54, ''textfilecontent54''),
    (OVAL_INDEPENDENT_TEXT_FILE_CONTENT, ''textfilecontent''),
    (OVAL_INDEPENDENT_UNKNOWN, ''unknown''),
    (OVAL_INDEPENDENT_VARIABLE, ''variable''),
    (OVAL_INDEPENDENT_XML_FILE_CONTENT, ''xmlfilecontent''),
    (OVAL_INDEPENDENT_SYSCHAR_SUBTYPE, ''system_info''),
    (OVAL_INDEPENDENT_LDAP57, ''ldap57''),
    (OVAL_INDEPENDENT_LDAP, ''ldap'')]"
  OVAL_SUBTYPE_UNKNOWN
  by unfold_locales (simp_all add: OVAL_SUBTYPE_INDEPENDENT_MAP_def)

definition OVAL_SUBTYPE_IOS_MAP :: "int oscap_string_map list" where
  "OVAL_SUBTYPE_IOS_MAP = string_map_of
     [(OVAL_IOS_GLOBAL, ''global''),
      (OVAL_IOS_INTERFACE, ''interface''),
      (OVAL_IOS_LINE, ''line''),
      (OVAL_IOS_SNMP, ''snmp''),
      (OVAL_IOS_TCLSH, ''tclsh''),
      (OVAL_IOS_VERSION_55, ''version55'')]
     OVAL_SUBTYPE_UNKNOWN"

interpretation ios_subtypes: string_table OVAL_SUBTYPE_IOS_MAP
  "[(OVAL_IOS_GLOBAL, ''global''),
    (OVAL_IOS_INTERFACE, ''interface''),
    (OVAL_IOS_LINE, ''line''),
    (OVAL_IOS_SNMP, ''snmp''),
    (OVAL_IOS_TCLSH, ''tclsh''),
    (OVAL_IOS_VERSION_55, ''version55'')]"
  OVAL_SUBTYPE_UNKNOWN
  by unfold_locales (simp_all add: OVAL_SUBTYPE_IOS_MAP_def)

definition OVAL_SUBTYPE_LINUX_MAP :: "int oscap_string_map list" where
  "OVAL_SUBTYPE_LINUX_MAP = string_map_of
     [(OVAL_LINUX_DPKG_INFO, ''dpkginfo''),
      (OVAL_LINUX_INET_LISTENING_SERVERS, ''inetlisteningservers''),
      (OVAL_LINUX_INET_LISTENING_SERVER, ''inetlisteningserver''),
      (OVAL_LINUX_RPM_INFO, ''rpminfo''),
      (OVAL_LINUX_SLACKWARE_PKG_INFO_TEST, ''slackwarepkginfo''),
      (OVAL_LINUX_PARTITION, ''partition''),
      (OVAL_LINUX_IFLISTENERS, ''iflisteners''),
      (OVAL_LINUX_RPMVERIFY, ''rpmverify''),
      (OVAL_LINUX_RPMVERIFYFILE, ''rpmverifyfile''),
      (OVAL_LINUX_RPMVERIFYPACKAGE, ''rpmverifypackage''),
      (OVAL_LINUX_SELINUXBOOLEAN, ''selinuxboolean''),
      (OVAL_LINUX_SELINUXSECURITYCONTEXT, ''selinuxsecuritycontext''),
      (OVAL_LINUX_SYSTEMDUNITPROPERTY, ''systemdunitproperty''),
      (OVAL_LINUX_SYSTEMDUNITDEPENDENCY, ''systemdunitdependency'')]
     OVAL_SUBTYPE_UNKNOWN"

interpretation linux_subtypes: string_table OVAL_SUBTYPE_LINUX_MAP
  "[(OVAL_LINUX_DPKG_INFO, ''dpkginfo''),
    (OVAL_LINUX_INET_LISTENING_SERVERS, ''inetlisteningservers''),
    (OVAL_LINUX_INET_LISTENING_SERVER, ''inetlisteningserver''),
    (OVAL_LINUX_RPM_INFO, ''rpminfo''),
    (OVAL_LINUX_SLACKWARE_PKG_INFO_TEST, ''slackwarepkginfo''),
    (OVAL_LINUX_PARTITION, ''partition''),
    (OVAL_LINUX_IFLISTENERS, ''iflisteners''),
    (OVAL_LINUX_RPMVERIFY, ''rpmverify''),
    (OVAL_LINUX_RPMVERIFYFILE, ''rpmverifyfile''),
    (OVAL_LINUX_RPMVERIFYPACKAGE, ''rpmverifypackage''),
    (OVAL_LINUX_SELINUXBOOLEAN, ''selinuxboolean''),
    (OVAL_LINUX_SELINUXSECURITYCONTEXT, ''selinuxsecuritycontext''),
    (OVAL_LINUX_SYSTEMDUNITPROPERTY, ''systemdunitproperty''),
    (OVAL_LINUX_SYSTEMDUNITDEPENDENCY, ''systemdunitdependency'')]"
  OVAL_SUBTYPE_UNKNOWN
  by unfold_locales (simp_all add: OVAL_SUBTYPE_LINUX_MAP_def)

definition OVAL_SUBTYPE_MACOS_MAP :: "int oscap_string_map list" where
  "OVAL_SUBTYPE_MACOS_MAP = string_map_of
     [(OVAL_MACOS_ACCOUNT_INFO, ''accountinfo''),
      (OVAL_MACOS_INET_LISTENING_SERVERS, ''inetlisteningservers''),
      (OVAL_MACOS_NVRAM_INFO, ''nvraminfo''),
      (OVAL_MACOS_PWPOLICY, ''pwpolicy'')]
     OVAL_SUBTYPE_UNKNOWN"

interpretation macos_subtypes: string_table OVAL_SUBTYPE_MACOS_MAP
  "[(OVAL_MACOS_ACCOUNT_INFO, ''accountinfo''),
    (OVAL_MACOS_INET_LISTENING_SERVERS, ''inetlisteningservers''),
    (OVAL_MACOS_NVRAM_INFO, ''nvraminfo''),
    (OVAL_MACOS_PWPOLICY, ''pwpolicy'')]"
  OVAL_SUBTYPE_UNKNOWN
  by unfold_locales (simp_all add: OVAL_SUBTYPE_MACOS_MAP_def)

definition OVAL_SUBTYPE_PIXOS_MAP :: "int oscap_string_map list" where
  "OVAL_SUBTYPE_PIXOS_MAP = string_map_of
     [(OVAL_PIXOS_LINE, ''line''),
      (OVAL_PIXOS_VERSION, ''version'')]
     OVAL_SUBTYPE_UNKNOWN"

interpretation pixos_subtypes: string_table OVAL_SUBTYPE_PIXOS_MAP
  "[(OVAL_PIXOS_LINE, ''line''),
    (OVAL_PIXOS_VERSION, ''version'')]"
  OVAL_SUBTYPE_UNKNOWN
  by unfold_locales (simp_all add: OVAL_SUBTYPE_PIXOS_MAP_def)

definition OVAL_SUBTYPE_SOLARIS_MAP :: "int oscap_string_map list" where
  "OVAL_SUBTYPE_SOLARIS_MAP = string_map_of
     [(OVAL_SOLARIS_ISAINFO, ''isainfo''),
      (OVAL_SOLARIS_PACKAGE, ''package''),
      (OVAL_SOLARIS_PATCH, ''patch''),
      (OVAL_SOLARIS_PATCH54, ''patch54''),
      (OVAL_SOLARIS_SMF, ''smf''),
      (OVAL_SOLARIS_NDD, ''ndd''),
      (OVAL_SOLARIS_PACKAGECHECK, ''packagecheck'')]
     OVAL_SUBTYPE_UNKNOWN"

interpretation solaris_subtypes: string_table OVAL_SUBTYPE_SOLARIS_MAP
  "[(OVAL_SOLARIS_ISAINFO, ''isainfo''),
    (OVAL_SOLARIS_PACKAGE, ''package''),
    (OVAL_SOLARIS_PATCH, ''patch''),
    (OVAL_SOLARIS_PATCH54, ''patch54''),
    (OVAL_SOLARIS_SMF, ''smf''),
    (OVAL_SOLARIS_NDD, ''ndd''),
    (OVAL_SOLARIS_PACKAGECHECK, ''packagecheck'')]"
  OVAL_SUBTYPE_UNKNOWN
  by unfold_locales (simp_all add: OVAL_SUBTYPE_SOLARIS_MAP_def)

definition OVAL_SUBTYPE_UNIX_MAP :: "int oscap_string_map list" where
  "OVAL_SUBTYPE_UNIX_MAP = string_map_of
     [(OVAL_UNIX_FILE, ''file''),
      (OVAL_UNIX_INETD, ''inetd''),
      (OVAL_UNIX_INTERFACE, ''interface''),
      (OVAL_UNIX_PASSWORD, ''password''),
      (OVAL_UNIX_PROCESS, ''process''),
      (OVAL_UNIX_RUNLEVEL, ''runlevel''),
      (OVAL_UNIX_SCCS, ''sccs''),
      (OVAL_UNIX_SHADOW, ''shadow''),
      (OVAL_UNIX_UNAME, ''uname''),
      (OVAL_UNIX_XINETD, ''xinetd''),
      (OVAL_UNIX_DNSCACHE, ''dnscache''),
      (OVAL_UNIX_SYSCTL, ''sysctl''),
      (OVAL_UNIX_PROCESS58, ''process58''),
      (OVAL_UNIX_FILEEXTENDEDATTRIBUTE, ''fileextendedattribute''),
      (OVAL_UNIX_GCONF, ''gconf''),
      (OVAL_UNIX_ROUTINGTABLE, ''routingtable'')]
     OVAL_SUBTYPE_UNKNOWN"

interpretation unix_subtypes: string_table OVAL_SUBTYPE_UNIX_MAP
  "[(OVAL_UNIX_FILE, ''file''),
    (OVAL_UNIX_INETD, ''inetd''),
    (OVAL_UNIX_INTERFACE, ''interface''),
    (OVAL_UNIX_PASSWORD, ''password''),
    (OVAL_UNIX_PROCESS, ''process''),
    (OVAL_UNIX_RUNLEVEL, ''runlevel''),
    (OVAL_UNIX_SCCS, ''sccs''),
    (OVAL_UNIX_SHADOW, ''shadow''),
    (OVAL_UNIX_UNAME, ''uname''),
    (OVAL_UNIX_XINETD, ''xinetd''),
    (OVAL_UNIX_DNSCACHE, ''dnscache''),
    (OVAL_UNIX_SYSCTL, ''sysctl''),
    (OVAL_UNIX_PROCESS58, ''process58''),
    (OVAL_UNIX_FILEEXTENDEDATTRIBUTE, ''fileextendedattribute''),
    (OVAL_UNIX_GCONF, ''gconf''),
    (OVAL_UNIX_ROUTINGTABLE, ''routingtable'')]"
  OVAL_SUBTYPE_UNKNOWN
  by unfold_locales (simp_all add: OVAL_SUBTYPE_UNIX_MAP_def)

definition OVAL_SUBTYPE_WINDOWS_MAP :: "int oscap_string_map list" where
  "OVAL_SUBTYPE_WINDOWS_MAP = string_map_of
     [(OVAL_WINDOWS_ACCESS_TOKEN, ''access_token''),
      (OVAL_WINDOWS_ACTIVE_DIRECTORY, ''active_directory''),
      (OVAL_WINDOWS_AUDIT_EVENT_POLICY, ''audit_event_policy''),
      (OVAL_WINDOWS_AUDIT_EVENT_SUBCATEGORIES, ''audit_event_subcatagories''),
      (OVAL_WINDOWS_FILE, ''file''),
      (OVAL_WINDOWS_FILE_AUDITED_PERMISSIONS_53, ''file_audited_permissions_53''),
      (OVAL_WINDOWS_FILE_AUDITED_PERMISSIONS, ''file_audited_permissions''),
      (OVAL_WINDOWS_FILE_EFFECTIVE_RIGHTS_53, ''file_effective_rights_53''),
      (OVAL_WINDOWS_FILE_EFFECTIVE_RIGHTS, ''file_effective_rights''),
      (OVAL_WINDOWS_GROUP, ''group''),
      (OVAL_WINDOWS_GROUP_SID, ''group_sid''),
      (OVAL_WINDOWS_INTERFACE, ''interface''),
      (OVAL_WINDOWS_LOCKOUT_POLICY, ''lockout_policy''),
      (OVAL_WINDOWS_METABASE, ''metabase''),
      (OVAL_WINDOWS_PASSWORD_POLICY, ''password_policy''),
      (OVAL_WINDOWS_PORT, ''port''),
      (OVAL_WINDOWS_PRINTER_EFFECTIVE_RIGHTS, ''printer_effective_rights''),
      (OVAL_WINDOWS_PROCESS, ''process''),
      (OVAL_WINDOWS_REGISTRY, ''registry''),
      (OVAL_WINDOWS_REGKEY_AUDITED_PERMISSIONS_53, ''regkey_audited_permissions_53''),
      (OVAL_WINDOWS_REGKEY_AUDITED_PERMISSIONS, ''regkey_audited_permissions''),
      (OVAL_WINDOWS_REGKEY_EFFECTIVE_RIGHTS_53, ''regkey_effective_rights_53''),
      (OVAL_WINDOWS_REGKEY_EFFECTIVE_RIGHTS, ''regkey_effective_rights''),
      (OVAL_WINDOWS_SHARED_RESOURCE, ''shared_resource''),
      (OVAL_WINDOWS_SID, ''sid''),
      (OVAL_WINDOWS_SID_SID, ''sid_sid''),
      (OVAL_WINDOWS_USER_ACCESS_CONTROL, ''user_access_control''),
      (OVAL_WINDOWS_USER, ''user''),
      (OVAL_WINDOWS_USER_SID_55, ''user_sid_55''),
      (OVAL_WINDOWS_USER_SID, ''user_sid''),
      (OVAL_WINDOWS_VOLUME, ''volume''),
      (OVAL_WINDOWS_WMI, ''wmi''),
      (OVAL_WINDOWS_WUA_UPDATE_SEARCHER, ''wua_update_searcher'')]
     OVAL_SUBTYPE_UNKNOWN"

interpretation windows_subtypes: string_table OVAL_SUBTYPE_WINDOWS_MAP
  "[(OVAL_WINDOWS_ACCESS_TOKEN, ''access_token''),
    (OVAL_WINDOWS_ACTIVE_DIRECTORY, ''active_directory''),
    (OVAL_WINDOWS_AUDIT_EVENT_POLICY, ''audit_event_policy''),
    (OVAL_WINDOWS_AUDIT_EVENT_SUBCATEGORIES, ''audit_event_subcatagories''),
    (OVAL_WINDOWS_FILE, ''file''),
    (OVAL_WINDOWS_FILE_AUDITED_PERMISSIONS_53, ''file_audited_permissions_53''),
    (OVAL_WINDOWS_FILE_AUDITED_PERMISSIONS, ''file_audited_permissions''),
    (OVAL_WINDOWS_FILE_EFFECTIVE_RIGHTS_53, ''file_effective_rights_53''),
    (OVAL_WINDOWS_FILE_EFFECTIVE_RIGHTS, ''file_effective_rights''),
    (OVAL_WINDOWS_GROUP, ''group''),
    (OVAL_WINDOWS_GROUP_SID, ''group_sid''),
    (OVAL_WINDOWS_INTERFACE, ''interface''),
    (OVAL_WINDOWS_LOCKOUT_POLICY, ''lockout_policy''),
    (OVAL_WINDOWS_METABASE, ''metabase''),
    (OVAL_WINDOWS_PASSWORD_POLICY, ''password_policy''),
    (OVAL_WINDOWS_PORT, ''port''),
    (OVAL_WINDOWS_PRINTER_EFFECTIVE_RIGHTS, ''printer_effective_rights''),
    (OVAL_WINDOWS_PROCESS, ''process''),
    (OVAL_WINDOWS_REGISTRY, ''registry''),
    (OVAL_WINDOWS_REGKEY_AUDITED_PERMISSIONS_53, ''regkey_audited_permissions_53''),
    (OVAL_WINDOWS_REGKEY_AUDITED_PERMISSIONS, ''regkey_audited_permissions''),
    (OVAL_WINDOWS_REGKEY_EFFECTIVE_RIGHTS_53, ''regkey_effective_rights_53''),
    (OVAL_WINDOWS_REGKEY_EFFECTIVE_RIGHTS, ''regkey_effective_rights''),
    (OVAL_WINDOWS_SHARED_RESOURCE, ''shared_resource''),
    (OVAL_WINDOWS_SID, ''sid''),
    (OVAL_WINDOWS_SID_SID, ''sid_sid''),
    (OVAL_WINDOWS_USER_ACCESS_CONTROL, ''user_access_control''),
    (OVAL_WINDOWS_USER, ''user''),
    (OVAL_WINDOWS_USER_SID_55, ''user_sid_55''),
    (OVAL_WINDOWS_USER_SID, ''user_sid''),
    (OVAL_WINDOWS_VOLUME, ''volume''),
    (OVAL_WINDOWS_WMI, ''wmi''),
    (OVAL_WINDOWS_WUA_UPDATE_SEARCHER, ''wua_update_searcher'')]"
  OVAL_SUBTYPE_UNKNOWN
  by unfold_locales (simp_all add: OVAL_SUBTYPE_WINDOWS_MAP_def)

text \<open>The switch over the families that selects the table of the subtypes.\<close>

definition oval_subtype_map :: "int \<Rightarrow> int oscap_string_map list option" where
  "oval_subtype_map family =
     (if family = OVAL_FAMILY_AIX then Some OVAL_SUBTYPE_AIX_MAP
      else if family = OVAL_FAMILY_APACHE then Some OVAL_SUBTYPE_APACHE_MAP
      else if family = OVAL_FAMILY_CATOS then Some OVAL_SUBTYPE_CATOS_MAP
      else if family = OVAL_FAMILY_ESX then Some OVAL_SUBTYPE_ESX_MAP
      else if family = OVAL_FAMILY_FREEBSD then Some OVAL_SUBTYPE_FREEBSD_MAP
      else if family = OVAL_FAMILY_HPUX then Some OVAL_SUBTYPE_HPUX_MAP
      else if family = OVAL_FAMILY_INDEPENDENT then Some OVAL_SUBTYPE_INDEPENDENT_MAP
      else if family = OVAL_FAMILY_IOS then Some OVAL_SUBTYPE_IOS_MAP
      else if family = OVAL_FAMILY_LINUX then Some OVAL_SUBTYPE_LINUX_MAP
      else if family = OVAL_FAMILY_MACOS then Some OVAL_SUBTYPE_MACOS_MAP
      else if family = OVAL_FAMILY_PIXOS then Some OVAL_SUBTYPE_PIXOS_MAP
      else if family = OVAL_FAMILY_SOLARIS then Some OVAL_SUBTYPE_SOLARIS_MAP
      else if family = OVAL_FAMILY_UNIX then Some OVAL_SUBTYPE_UNIX_MAP
      else if family = OVAL_FAMILY_WINDOWS then Some OVAL_SUBTYPE_WINDOWS_MAP
      else None)"

definition oval_subtype_parse :: "xml_node \<Rightarrow> int option" where
  "oval_subtype_parse reader =
     (case oval_family_parse reader of
        None \<Rightarrow> None
      | Some family \<Rightarrow>
          if family = OVAL_FAMILY_UNKNOWN then Some OVAL_SUBTYPE_UNKNOWN
          else (case c_strrchr (xml_local_name reader) CHR ''_'' of
                  None \<Rightarrow> Some OVAL_SUBTYPE_UNKNOWN
                | Some (tagname, _) \<Rightarrow>
                    (case oval_subtype_map family of
                       None \<Rightarrow> Some OVAL_SUBTYPE_UNKNOWN
                     | Some tab \<Rightarrow>
                         (let subtype = OVAL_SUBTYPE_UNKNOWN in
                          case oscap_string_to_enum tab (Some tagname) of
                            None \<Rightarrow> None
                          | Some subtype_s \<Rightarrow>
                              Some (if subtype < 0 then OVAL_ENUMERATION_INVALID else subtype_s)))))"

definition oval_subtype_get_family :: "int \<Rightarrow> int" where
  "oval_subtype_get_family subtype = (subtype sdiv 1000) * 1000"

definition invalid_text :: string where
  "invalid_text = ''**INVALID**''"

definition oval_subtype_get_text :: "int \<Rightarrow> cstr option" where
  "oval_subtype_get_text subtype =
     (case oval_subtype_map (oval_subtype_get_family subtype) of
        Some tab \<Rightarrow> oval_enumeration_get_text tab subtype
      | None \<Rightarrow> Some (Some invalid_text))"

text \<open>The contract each selected table keeps; its values belong to the family.\<close>

definition in_family :: "int \<Rightarrow> (int \<times> string) list \<Rightarrow> bool" where
  "in_family family es = list_all (\<lambda>(v, t). oval_subtype_get_family v = family) es"

lemmas subtype_tables =
  aix_subtypes.string_table_axioms apache_subtypes.string_table_axioms
  catos_subtypes.string_table_axioms esx_subtypes.string_table_axioms
  freebsd_subtypes.string_table_axioms hpux_subtypes.string_table_axioms
  independent_subtypes.string_table_axioms ios_subtypes.string_table_axioms
  linux_subtypes.string_table_axioms macos_subtypes.string_table_axioms
  pixos_subtypes.string_table_axioms solaris_subtypes.string_table_axioms
  unix_subtypes.string_table_axioms windows_subtypes.string_table_axioms

lemma in_family_simps [simp]:
  "in_family f []"
  "in_family f ((v, t) # es) \<longleftrightarrow> (v sdiv 1000) * 1000 = f \<and> in_family f es"
  by (simp_all add: in_family_def oval_subtype_get_family_def)

lemma subtype_map_family:
  assumes "oval_subtype_map f = Some m"
  shows "f \<in> {1000, 2000, 3000, 4000, 5000, 6000, 7000, 8000, 9000, 10000, 11000, 12000, 13000, 14000}"
  using assms by (auto simp: oval_subtype_map_def split: if_splits)

lemma subtype_map_table:
  assumes "oval_subtype_map f = Some m"
  shows "\<exists>es. string_table m es OVAL_SUBTYPE_UNKNOWN \<and> in_family f es"
  using subtype_map_family [OF assms] assms
  by (elim insertE emptyE; simp add: oval_subtype_map_def; intro exI conjI)
     (erule subst, rule subtype_tables, simp)+

lemma subtype_family_text_nonempty:
  "oval_subtype_map f = Some m \<Longrightarrow> \<exists>ft. oval_family_get_text f = Some (Some ft) \<and> CHR ''#'' \<notin> set ft"
  by (drule subtype_map_family)
     (elim insertE emptyE;
      simp add: oval_family_get_text_def oval_enumeration_get_text_def OVAL_FAMILY_MAP_def
        enum_to_string_string_map_of)+

lemma subtype_get_text_cases:
  assumes "oval_subtype_get_text s = Some (Some t)" and "t \<noteq> invalid_text"
  obtains m es where "oval_subtype_map (oval_subtype_get_family s) = Some m"
    and "string_table m es OVAL_SUBTYPE_UNKNOWN" and "oscap_enum_to_string m s = Some (Some t)"
proof -
  from assms obtain m where m: "oval_subtype_map (oval_subtype_get_family s) = Some m"
    "oscap_enum_to_string m s = Some (Some t)"
    by (auto simp: oval_subtype_get_text_def oval_enumeration_get_text_def split: option.splits)
  with subtype_map_table that show ?thesis by blast
qed

lemma family_parse_text:
  assumes "oval_family_get_text f = Some (Some ft)" and "CHR ''#'' \<notin> set ft"
    and "xml_namespace_uri reader = Some (base @ CHR ''#'' # ft)" and "f \<noteq> OVAL_ENUMERATION_INVALID"
  shows "oval_family_parse reader = Some f"
proof -
  have "oscap_string_to_enum OVAL_FAMILY_MAP (Some ft) = Some f"
    using assms(1) family_tab.text_roundtrip
    by (simp add: oval_family_get_text_def oval_enumeration_get_text_def)
  with assms show ?thesis by (simp add: oval_family_parse_def c_strrchr_append)
qed

section \<open>Properties\<close>

text \<open>
  C23. Subtypes round trip through the names of OVAL elements: when \<open>oval_subtype_get_text\<close> names a
  subtype \<open>t\<close> and its family is called \<open>ft\<close>, an element \<open>t_test\<close> (\<open>t_object\<close>, \<open>t_state\<close>,
  \<open>t_item\<close>: any suffix without an underscore) of a namespace \<open>...#ft\<close> is parsed to that subtype.
\<close>

theorem subtype_roundtrip:
  assumes "oval_subtype_get_text s = Some (Some t)" and "t \<noteq> invalid_text"
    and "oval_family_get_text (oval_subtype_get_family s) = Some (Some ft)"
    and "xml_namespace_uri reader = Some (base @ CHR ''#'' # ft)"
    and "xml_local_name reader = t @ CHR ''_'' # kind" and "CHR ''_'' \<notin> set kind"
  shows "oval_subtype_parse reader = Some s"
proof -
  obtain m es where m: "oval_subtype_map (oval_subtype_get_family s) = Some m"
    "string_table m es OVAL_SUBTYPE_UNKNOWN" "oscap_enum_to_string m s = Some (Some t)"
    using assms(1,2) by (rule subtype_get_text_cases)
  have f: "CHR ''#'' \<notin> set ft" "oval_subtype_get_family s \<notin> {0, -1}"
    using subtype_family_text_nonempty [OF m(1)] subtype_map_family [OF m(1)] assms(3) by auto
  then have "oval_family_parse reader = Some (oval_subtype_get_family s)"
    using family_parse_text [OF assms(3) _ assms(4)] by simp
  with f assms(5,6) m(1) string_table.text_roundtrip [OF m(2,3)] show ?thesis
    by (simp add: oval_subtype_parse_def c_strrchr_append)
qed

theorem subtype_roundtrip_witness:
  "oval_subtype_parse
     \<lparr>xml_attribute = Map.empty,
      xml_namespace_uri = Some (''http://oval.mitre.org/XMLSchema/oval-definitions-5#linux''),
      xml_local_name = ''rpminfo_test''\<rparr> = Some OVAL_LINUX_RPM_INFO"
  by (rule subtype_roundtrip [where t = "''rpminfo''" and ft = "''linux''" and kind = "''test''"
        and base = "''http://oval.mitre.org/XMLSchema/oval-definitions-5''"])
     (simp_all add: oval_subtype_get_text_def oval_subtype_get_family_def oval_subtype_map_def
       OVAL_SUBTYPE_LINUX_MAP_def oval_enumeration_get_text_def enum_to_string_string_map_of
       oval_family_get_text_def OVAL_FAMILY_MAP_def invalid_text_def)

text \<open>
  C24. What the writers put in an attribute the readers read back: for the checks, existence
  checks, operators, operations, datatypes, results, set operations, filter actions and message
  levels, the text of a value is parsed to that value, whatever the other attributes are.
\<close>

theorem attribute_roundtrip:
  assumes "xml_attribute reader a = Some t"
  shows "(oval_check_get_text c = Some (Some t) \<longrightarrow> oval_check_parse reader a OVAL_CHECK_INVALID = Some c)
     \<and> (oval_existence_get_text e = Some (Some t) \<longrightarrow> oval_existence_parse reader a OVAL_EXISTENCE_INVALID = Some e)
     \<and> (oval_operator_get_text p = Some (Some t) \<longrightarrow> oval_operator_parse reader a OVAL_OPERATOR_INVALID = Some p)
     \<and> (oval_operation_get_text op = Some (Some t) \<longrightarrow> oval_operation_parse reader a OVAL_OPERATION_INVALID = Some op)
     \<and> (oval_datatype_get_text d = Some (Some t) \<longrightarrow> oval_datatype_parse reader a OVAL_DATATYPE_INVALID = Some d)
     \<and> (oval_result_get_text r = Some (Some t) \<longrightarrow> oval_result_parse reader a OVAL_RESULT_INVALID = Some r)
     \<and> (oval_set_operation_get_text s = Some (Some t) \<longrightarrow> oval_set_operation_parse reader a OVAL_SET_OPERATION_INVALID = Some s)
     \<and> (oval_filter_action_get_text f = Some (Some t) \<longrightarrow> oval_filter_action_parse reader a OVAL_FILTER_ACTION_INVALID = Some f)"
  using assms
  by (simp add: oval_check_get_text_def oval_check_parse_def oval_existence_get_text_def oval_existence_parse_def oval_operator_get_text_def oval_operator_parse_def oval_operation_get_text_def oval_operation_parse_def oval_datatype_get_text_def oval_datatype_parse_def oval_result_get_text_def oval_result_parse_def oval_set_operation_get_text_def oval_set_operation_parse_def oval_filter_action_get_text_def oval_filter_action_parse_def
    check_tab.attr_roundtrip existence_tab.attr_roundtrip operator_tab.attr_roundtrip operation_tab.attr_roundtrip datatype_tab.attr_roundtrip result_tab.attr_roundtrip set_operation_tab.attr_roundtrip filter_action_tab.attr_roundtrip)

theorem attribute_roundtrip_witness:
  "oval_check_parse \<lparr>xml_attribute = [''check'' \<mapsto> ''at least one''], xml_namespace_uri = None,
     xml_local_name = ''state''\<rparr> ''check'' OVAL_CHECK_INVALID = Some OVAL_CHECK_AT_LEAST_ONE"
  by (rule attribute_roundtrip [where t = "''at least one''", THEN conjunct1, THEN mp])
     (simp_all add: oval_check_get_text_def oval_enumeration_get_text_def OVAL_CHECK_MAP_def
       enum_to_string_string_map_of)

text \<open>
  No function component has a name: the NULL text in the middle of the table ends every search
  before the entries of the functions, so \<open>oval_component_type_get_text\<close> returns NULL for the
  types of all function components, and a text exactly for literals, object and variable references.
\<close>

theorem component_type_text:
  "oval_component_type_get_text t =
     Some (case t of
             OVAL_COMPONENT_LITERAL \<Rightarrow> Some ''literal_component''
           | OVAL_COMPONENT_OBJECTREF \<Rightarrow> Some ''object_component''
           | OVAL_COMPONENT_VARREF \<Rightarrow> Some ''variable_component''
           | _ \<Rightarrow> None)"
  by (cases t) (simp_all add: oval_component_type_get_text_def OVAL_COMPONENT_TYPE_MAP_def
      oval_enumeration_get_text_def Let_def)

end
