(* ===== verification/Oval_Results.thy ===== *)
theory Oval_Results
  imports Oval_Types "HOL-Library.Multiset"
begin

text \<open>
  The combination of partial results: \<open>struct oresults\<close> (\<open>results/oval_results_impl.h\<close>) with
  \<open>ores_add_res\<close>, \<open>ores_clear\<close>, \<open>ores_get_result_bychk\<close> and \<open>ores_get_result_byopr\<close>
  (\<open>results/oval_resultTest.c\<close>), the second implementation of the same tables in
  \<open>probes/probe/entcmp.c\<close> (\<open>results_parser\<close>, \<open>probe_ent_result_bychk\<close>,
  \<open>probe_ent_result_byopr\<close>), and the specification of both: the truth tables of the OVAL
  language as priorities among the results. The counters are natural numbers: the number of
  results is bounded by memory well below \<open>INT_MAX\<close>.
\<close>

section \<open>Counting results\<close>

record oresults =
  true_cnt :: nat
  false_cnt :: nat
  unknown_cnt :: nat
  error_cnt :: nat
  noteval_cnt :: nat
  notappl_cnt :: nat

definition ores_clear :: "oresults \<Rightarrow> oresults" where
  "ores_clear ores = ores\<lparr>true_cnt := 0, false_cnt := 0, unknown_cnt := 0,
                          error_cnt := 0, noteval_cnt := 0, notappl_cnt := 0\<rparr>"

definition ores_add_res :: "oresults \<Rightarrow> oval_result_t \<Rightarrow> oresults \<times> int" where
  "ores_add_res ores res =
     (case res of
        OVAL_RESULT_TRUE \<Rightarrow> (ores\<lparr>true_cnt := true_cnt ores + 1\<rparr>, 0)
      | OVAL_RESULT_FALSE \<Rightarrow> (ores\<lparr>false_cnt := false_cnt ores + 1\<rparr>, 0)
      | OVAL_RESULT_UNKNOWN \<Rightarrow> (ores\<lparr>unknown_cnt := unknown_cnt ores + 1\<rparr>, 0)
      | OVAL_RESULT_ERROR \<Rightarrow> (ores\<lparr>error_cnt := error_cnt ores + 1\<rparr>, 0)
      | OVAL_RESULT_NOT_EVALUATED \<Rightarrow> (ores\<lparr>noteval_cnt := noteval_cnt ores + 1\<rparr>, 0)
      | OVAL_RESULT_NOT_APPLICABLE \<Rightarrow> (ores\<lparr>notappl_cnt := notappl_cnt ores + 1\<rparr>, 0)
      | _ \<Rightarrow> (ores, 1))"

text \<open>The two tests at the start of both functions.\<close>

definition ores_all_zero :: "oresults \<Rightarrow> bool" where
  "ores_all_zero ores \<longleftrightarrow> true_cnt ores = 0 \<and> false_cnt ores = 0 \<and> error_cnt ores = 0
     \<and> unknown_cnt ores = 0 \<and> notappl_cnt ores = 0 \<and> noteval_cnt ores = 0"

definition ores_only_notappl :: "oresults \<Rightarrow> bool" where
  "ores_only_notappl ores \<longleftrightarrow> notappl_cnt ores > 0 \<and> noteval_cnt ores = 0 \<and> false_cnt ores = 0
     \<and> error_cnt ores = 0 \<and> unknown_cnt ores = 0 \<and> true_cnt ores = 0"

definition ores_get_result_bychk :: "oresults \<Rightarrow> oval_check_t \<Rightarrow> oval_result_t" where
  "ores_get_result_bychk ores check =
     (if ores_all_zero ores then OVAL_RESULT_UNKNOWN
      else if ores_only_notappl ores then OVAL_RESULT_NOT_APPLICABLE
      else (let t = true_cnt ores; f = false_cnt ores; e = error_cnt ores;
               u = unknown_cnt ores; n = noteval_cnt ores;
               none_satisfy =
                 (if t > 0 then OVAL_RESULT_FALSE
                  else if t = 0 \<and> e > 0 then OVAL_RESULT_ERROR
                  else if t = 0 \<and> e = 0 \<and> u > 0 then OVAL_RESULT_UNKNOWN
                  else if t = 0 \<and> e = 0 \<and> u = 0 \<and> n > 0 then OVAL_RESULT_NOT_EVALUATED
                  else if f > 0 \<and> e = 0 \<and> u = 0 \<and> n = 0 \<and> t = 0 then OVAL_RESULT_TRUE
                  else OVAL_RESULT_ERROR)
           in case check of
             OVAL_CHECK_ALL \<Rightarrow>
               (if t > 0 \<and> f = 0 \<and> e = 0 \<and> u = 0 \<and> n = 0 then OVAL_RESULT_TRUE
                else if f > 0 then OVAL_RESULT_FALSE
                else if f = 0 \<and> e > 0 then OVAL_RESULT_ERROR
                else if f = 0 \<and> e = 0 \<and> u > 0 then OVAL_RESULT_UNKNOWN
                else if f = 0 \<and> e = 0 \<and> u = 0 \<and> n > 0 then OVAL_RESULT_NOT_EVALUATED
                else OVAL_RESULT_ERROR)
           | OVAL_CHECK_AT_LEAST_ONE \<Rightarrow>
               (if t > 0 then OVAL_RESULT_TRUE
                else if f > 0 \<and> t = 0 \<and> u = 0 \<and> e = 0 \<and> n = 0 then OVAL_RESULT_FALSE
                else if t = 0 \<and> e > 0 then OVAL_RESULT_ERROR
                else if f = 0 \<and> e = 0 \<and> u > 0 then OVAL_RESULT_UNKNOWN
                else if f = 0 \<and> e = 0 \<and> u = 0 \<and> n > 0 then OVAL_RESULT_NOT_EVALUATED
                else OVAL_RESULT_ERROR)
           | OVAL_CHECK_NONE_EXIST \<Rightarrow> none_satisfy
           | OVAL_CHECK_NONE_SATISFY \<Rightarrow> none_satisfy
           | OVAL_CHECK_ONLY_ONE \<Rightarrow>
               (if t = 1 \<and> e = 0 \<and> u = 0 \<and> n = 0 then OVAL_RESULT_TRUE
                else if t > 1 then OVAL_RESULT_FALSE
                else if t < 2 \<and> e > 0 then OVAL_RESULT_ERROR
                else if t < 2 \<and> e = 0 \<and> u > 0 then OVAL_RESULT_UNKNOWN
                else if t < 2 \<and> e = 0 \<and> u = 0 \<and> n > 0 then OVAL_RESULT_NOT_EVALUATED
                else if t \<noteq> 1 \<and> f > 0 then OVAL_RESULT_FALSE
                else OVAL_RESULT_ERROR)
           | _ \<Rightarrow> OVAL_RESULT_ERROR))"

definition ores_get_result_byopr :: "oresults \<Rightarrow> oval_operator_t \<Rightarrow> oval_result_t" where
  "ores_get_result_byopr ores op =
     (if ores_all_zero ores then OVAL_RESULT_UNKNOWN
      else if ores_only_notappl ores then OVAL_RESULT_NOT_APPLICABLE
      else (let t = true_cnt ores; f = false_cnt ores; e = error_cnt ores;
               u = unknown_cnt ores; n = noteval_cnt ores; a = notappl_cnt ores
           in case op of
             OVAL_OPERATOR_AND \<Rightarrow>
               (if t > 0 \<and> f = 0 \<and> e = 0 \<and> u = 0 \<and> n = 0 then OVAL_RESULT_TRUE
                else if f > 0 then OVAL_RESULT_FALSE
                else if f = 0 \<and> e > 0 then OVAL_RESULT_ERROR
                else if f = 0 \<and> e = 0 \<and> u > 0 then OVAL_RESULT_UNKNOWN
                else if f = 0 \<and> e = 0 \<and> u = 0 \<and> n > 0 then OVAL_RESULT_NOT_EVALUATED
                else OVAL_RESULT_ERROR)
           | OVAL_OPERATOR_ONE \<Rightarrow>
               (if t = 1 \<and> f \<ge> 0 \<and> e = 0 \<and> u = 0 \<and> n = 0 \<and> a \<ge> 0 then OVAL_RESULT_TRUE
                else if t \<ge> 2 \<and> f \<ge> 0 \<and> e \<ge> 0 \<and> u \<ge> 0 \<and> n \<ge> 0 \<and> a \<ge> 0 then OVAL_RESULT_FALSE
                else if t = 0 \<and> f \<ge> 0 \<and> e = 0 \<and> u = 0 \<and> n = 0 \<and> a \<ge> 0 then OVAL_RESULT_FALSE
                else if t < 2 \<and> f \<ge> 0 \<and> e > 0 \<and> u \<ge> 0 \<and> n \<ge> 0 \<and> a \<ge> 0 then OVAL_RESULT_ERROR
                else if t < 2 \<and> f \<ge> 0 \<and> e = 0 \<and> u \<ge> 1 \<and> n \<ge> 0 \<and> a \<ge> 0 then OVAL_RESULT_UNKNOWN
                else if t < 2 \<and> f \<ge> 0 \<and> e = 0 \<and> u = 0 \<and> n > 0 \<and> a \<ge> 0 then OVAL_RESULT_NOT_EVALUATED
                else OVAL_RESULT_ERROR)
           | OVAL_OPERATOR_OR \<Rightarrow>
               (if t > 0 then OVAL_RESULT_TRUE
                else if t = 0 \<and> f > 0 \<and> e = 0 \<and> u = 0 \<and> n = 0 then OVAL_RESULT_FALSE
                else if t = 0 \<and> e > 0 then OVAL_RESULT_ERROR
                else if t = 0 \<and> e = 0 \<and> u > 0 then OVAL_RESULT_UNKNOWN
                else if t = 0 \<and> e = 0 \<and> u = 0 \<and> n > 0 then OVAL_RESULT_NOT_EVALUATED
                else OVAL_RESULT_ERROR)
           | OVAL_OPERATOR_XOR \<Rightarrow>
               (if t mod 2 = 1 \<and> e = 0 \<and> u = 0 \<and> n = 0 then OVAL_RESULT_TRUE
                else if t mod 2 = 0 \<and> e = 0 \<and> u = 0 \<and> n = 0 then OVAL_RESULT_FALSE
                else if e > 0 then OVAL_RESULT_ERROR
                else if e = 0 \<and> u > 0 then OVAL_RESULT_UNKNOWN
                else if e = 0 \<and> u = 0 \<and> n > 0 then OVAL_RESULT_NOT_EVALUATED
                else OVAL_RESULT_ERROR)
           | _ \<Rightarrow> OVAL_RESULT_ERROR))"

section \<open>The second implementation, in the probes\<close>

text \<open>
  \<open>results_parser\<close> clears the counters and counts a list of results; the first value that is not a
  result makes it return -1 (here None).
\<close>

definition ores_zero :: oresults where
  "ores_zero = \<lparr>true_cnt = 0, false_cnt = 0, unknown_cnt = 0, error_cnt = 0, noteval_cnt = 0, notappl_cnt = 0\<rparr>"

fun results_parser_loop :: "oval_result_t list \<Rightarrow> oresults \<Rightarrow> oresults option" where
  "results_parser_loop [] ores = Some ores"
| "results_parser_loop (r # res) ores =
     (case r of
        OVAL_RESULT_TRUE \<Rightarrow> results_parser_loop res (ores\<lparr>true_cnt := true_cnt ores + 1\<rparr>)
      | OVAL_RESULT_FALSE \<Rightarrow> results_parser_loop res (ores\<lparr>false_cnt := false_cnt ores + 1\<rparr>)
      | OVAL_RESULT_UNKNOWN \<Rightarrow> results_parser_loop res (ores\<lparr>unknown_cnt := unknown_cnt ores + 1\<rparr>)
      | OVAL_RESULT_ERROR \<Rightarrow> results_parser_loop res (ores\<lparr>error_cnt := error_cnt ores + 1\<rparr>)
      | OVAL_RESULT_NOT_EVALUATED \<Rightarrow> results_parser_loop res (ores\<lparr>noteval_cnt := noteval_cnt ores + 1\<rparr>)
      | OVAL_RESULT_NOT_APPLICABLE \<Rightarrow> results_parser_loop res (ores\<lparr>notappl_cnt := notappl_cnt ores + 1\<rparr>)
      | _ \<Rightarrow> None)"

definition results_parser :: "oval_result_t list \<Rightarrow> oresults option" where
  "results_parser res_lst = results_parser_loop res_lst ores_zero"

definition probe_ent_result_bychk :: "oval_result_t list \<Rightarrow> oval_check_t \<Rightarrow> oval_result_t" where
  "probe_ent_result_bychk res_lst check =
     (if res_lst = [] then OVAL_RESULT_UNKNOWN
      else case results_parser res_lst of None \<Rightarrow> OVAL_RESULT_ERROR
      | Some ores \<Rightarrow>
      if ores_only_notappl ores then OVAL_RESULT_NOT_APPLICABLE
      else (let t = true_cnt ores; f = false_cnt ores; e = error_cnt ores;
               u = unknown_cnt ores; n = noteval_cnt ores;
               none_satisfy =
                 (if t > 0 then OVAL_RESULT_FALSE
                  else if t = 0 \<and> e > 0 then OVAL_RESULT_ERROR
                  else if t = 0 \<and> e = 0 \<and> u > 0 then OVAL_RESULT_UNKNOWN
                  else if t = 0 \<and> e = 0 \<and> u = 0 \<and> n > 0 then OVAL_RESULT_NOT_EVALUATED
                  else if f > 0 \<and> e = 0 \<and> u = 0 \<and> n = 0 \<and> t = 0 then OVAL_RESULT_TRUE
                  else OVAL_RESULT_UNKNOWN)
           in case check of
             OVAL_CHECK_ALL \<Rightarrow>
               (if t > 0 \<and> f = 0 \<and> e = 0 \<and> u = 0 \<and> n = 0 then OVAL_RESULT_TRUE
                else if f > 0 then OVAL_RESULT_FALSE
                else if f = 0 \<and> e > 0 then OVAL_RESULT_ERROR
                else if f = 0 \<and> e = 0 \<and> u > 0 then OVAL_RESULT_UNKNOWN
                else if f = 0 \<and> e = 0 \<and> u = 0 \<and> n > 0 then OVAL_RESULT_NOT_EVALUATED
                else OVAL_RESULT_UNKNOWN)
           | OVAL_CHECK_AT_LEAST_ONE \<Rightarrow>
               (if t > 0 then OVAL_RESULT_TRUE
                else if f > 0 \<and> t = 0 \<and> u = 0 \<and> e = 0 \<and> n = 0 then OVAL_RESULT_FALSE
                else if t = 0 \<and> e > 0 then OVAL_RESULT_ERROR
                else if f = 0 \<and> e = 0 \<and> u > 0 then OVAL_RESULT_UNKNOWN
                else if f = 0 \<and> e = 0 \<and> u = 0 \<and> n > 0 then OVAL_RESULT_NOT_EVALUATED
                else OVAL_RESULT_UNKNOWN)
           | OVAL_CHECK_NONE_EXIST \<Rightarrow> none_satisfy
           | OVAL_CHECK_NONE_SATISFY \<Rightarrow> none_satisfy
           | OVAL_CHECK_ONLY_ONE \<Rightarrow>
               (if t = 1 \<and> e = 0 \<and> u = 0 \<and> n = 0 then OVAL_RESULT_TRUE
                else if t > 1 then OVAL_RESULT_FALSE
                else if t < 2 \<and> e > 0 then OVAL_RESULT_ERROR
                else if t < 2 \<and> e = 0 \<and> u > 0 then OVAL_RESULT_UNKNOWN
                else if t < 2 \<and> e = 0 \<and> u = 0 \<and> n > 0 then OVAL_RESULT_NOT_EVALUATED
                else if t \<noteq> 1 \<and> f > 0 then OVAL_RESULT_FALSE
                else OVAL_RESULT_UNKNOWN)
           | _ \<Rightarrow> OVAL_RESULT_UNKNOWN))"

definition probe_ent_result_byopr :: "oval_result_t list \<Rightarrow> oval_operator_t \<Rightarrow> oval_result_t" where
  "probe_ent_result_byopr res_lst op =
     (if res_lst = [] then OVAL_RESULT_UNKNOWN
      else case results_parser res_lst of None \<Rightarrow> OVAL_RESULT_ERROR
      | Some ores \<Rightarrow>
      if ores_only_notappl ores then OVAL_RESULT_NOT_APPLICABLE
      else (let t = true_cnt ores; f = false_cnt ores; e = error_cnt ores;
               u = unknown_cnt ores; n = noteval_cnt ores; a = notappl_cnt ores
           in case op of
             OVAL_OPERATOR_AND \<Rightarrow>
               (if t > 0 \<and> f = 0 \<and> e = 0 \<and> u = 0 \<and> n = 0 then OVAL_RESULT_TRUE
                else if f > 0 then OVAL_RESULT_FALSE
                else if f = 0 \<and> e > 0 then OVAL_RESULT_ERROR
                else if f = 0 \<and> e = 0 \<and> u > 0 then OVAL_RESULT_UNKNOWN
                else if f = 0 \<and> e = 0 \<and> u = 0 \<and> n > 0 then OVAL_RESULT_NOT_EVALUATED
                else OVAL_RESULT_UNKNOWN)
           | OVAL_OPERATOR_ONE \<Rightarrow>
               (if t = 1 \<and> f \<ge> 0 \<and> e = 0 \<and> u = 0 \<and> n = 0 \<and> a \<ge> 0 then OVAL_RESULT_TRUE
                else if t \<ge> 2 \<and> f \<ge> 0 \<and> e \<ge> 0 \<and> u \<ge> 0 \<and> n \<ge> 0 \<and> a \<ge> 0 then OVAL_RESULT_FALSE
                else if t = 0 \<and> f \<ge> 0 \<and> e = 0 \<and> u = 0 \<and> n = 0 \<and> a \<ge> 0 then OVAL_RESULT_FALSE
                else if t < 2 \<and> f \<ge> 0 \<and> e > 0 \<and> u \<ge> 0 \<and> n \<ge> 0 \<and> a \<ge> 0 then OVAL_RESULT_ERROR
                else if t < 2 \<and> f \<ge> 0 \<and> e = 0 \<and> u \<ge> 1 \<and> n \<ge> 0 \<and> a \<ge> 0 then OVAL_RESULT_UNKNOWN
                else if t < 2 \<and> f \<ge> 0 \<and> e = 0 \<and> u = 0 \<and> n > 0 \<and> a \<ge> 0 then OVAL_RESULT_NOT_EVALUATED
                else OVAL_RESULT_UNKNOWN)
           | OVAL_OPERATOR_OR \<Rightarrow>
               (if t > 0 then OVAL_RESULT_TRUE
                else if t = 0 \<and> f > 0 \<and> e = 0 \<and> u = 0 \<and> n = 0 then OVAL_RESULT_FALSE
                else if t = 0 \<and> e > 0 then OVAL_RESULT_ERROR
                else if t = 0 \<and> e = 0 \<and> u > 0 then OVAL_RESULT_UNKNOWN
                else if t = 0 \<and> e = 0 \<and> u = 0 \<and> n > 0 then OVAL_RESULT_NOT_EVALUATED
                else OVAL_RESULT_UNKNOWN)
           | OVAL_OPERATOR_XOR \<Rightarrow>
               (if t mod 2 = 1 \<and> e = 0 \<and> u = 0 \<and> n = 0 then OVAL_RESULT_TRUE
                else if t mod 2 = 0 \<and> e = 0 \<and> u = 0 \<and> n = 0 then OVAL_RESULT_FALSE
                else if e > 0 then OVAL_RESULT_ERROR
                else if e = 0 \<and> u > 0 then OVAL_RESULT_UNKNOWN
                else if e = 0 \<and> u = 0 \<and> n > 0 then OVAL_RESULT_NOT_EVALUATED
                else OVAL_RESULT_UNKNOWN)
           | _ \<Rightarrow> OVAL_RESULT_UNKNOWN))"

section \<open>Specification: the truth tables of the language\<close>

text \<open>The results of a list one after the other, from cleared counters.\<close>

definition ores_of :: "oval_result_t list \<Rightarrow> oresults" where
  "ores_of rs = foldl (\<lambda>ores r. fst (ores_add_res ores r)) ores_zero rs"

text \<open>The first result of a priority list that occurs among the results.\<close>

fun first_present :: "oval_result_t list \<Rightarrow> oval_result_t list \<Rightarrow> oval_result_t" where
  "first_present [] rs = OVAL_RESULT_UNKNOWN"
| "first_present (p # ps) rs = (if p \<in> set rs then p else first_present ps rs)"

definition negated :: "oval_result_t \<Rightarrow> oval_result_t" where
  "negated r = (case r of OVAL_RESULT_TRUE \<Rightarrow> OVAL_RESULT_FALSE | OVAL_RESULT_FALSE \<Rightarrow> OVAL_RESULT_TRUE | _ \<Rightarrow> r)"

definition all_table :: "oval_result_t list \<Rightarrow> oval_result_t" where
  "all_table = first_present
     [OVAL_RESULT_FALSE, OVAL_RESULT_ERROR, OVAL_RESULT_UNKNOWN, OVAL_RESULT_NOT_EVALUATED,
      OVAL_RESULT_TRUE, OVAL_RESULT_NOT_APPLICABLE]"

definition some_table :: "oval_result_t list \<Rightarrow> oval_result_t" where
  "some_table = first_present
     [OVAL_RESULT_TRUE, OVAL_RESULT_ERROR, OVAL_RESULT_UNKNOWN, OVAL_RESULT_NOT_EVALUATED,
      OVAL_RESULT_FALSE, OVAL_RESULT_NOT_APPLICABLE]"

definition none_table :: "oval_result_t list \<Rightarrow> oval_result_t" where
  "none_table rs = negated (some_table rs)"

definition one_table :: "oval_result_t list \<Rightarrow> oval_result_t" where
  "one_table rs =
     (if count_list rs OVAL_RESULT_TRUE \<ge> 2 then OVAL_RESULT_FALSE
      else first_present
        [OVAL_RESULT_ERROR, OVAL_RESULT_UNKNOWN, OVAL_RESULT_NOT_EVALUATED, OVAL_RESULT_TRUE,
         OVAL_RESULT_FALSE, OVAL_RESULT_NOT_APPLICABLE] rs)"

definition undecided :: "oval_result_t list \<Rightarrow> bool" where
  "undecided rs \<longleftrightarrow> OVAL_RESULT_ERROR \<in> set rs \<or> OVAL_RESULT_UNKNOWN \<in> set rs
     \<or> OVAL_RESULT_NOT_EVALUATED \<in> set rs"

definition xor_table :: "oval_result_t list \<Rightarrow> oval_result_t" where
  "xor_table rs =
     (if undecided rs then
        first_present [OVAL_RESULT_ERROR, OVAL_RESULT_UNKNOWN, OVAL_RESULT_NOT_EVALUATED] rs
      else if odd (count_list rs OVAL_RESULT_TRUE) then OVAL_RESULT_TRUE
      else if OVAL_RESULT_TRUE \<in> set rs then OVAL_RESULT_FALSE
      else first_present [OVAL_RESULT_FALSE, OVAL_RESULT_NOT_APPLICABLE] rs)"

text \<open>
  The check \<open>at least one\<close> is the table of \<open>OR\<close> except in one case: a false result together with
  unknown or not evaluated ones, and no true result and no error.
\<close>

definition at_least_one_gap :: "oval_result_t list \<Rightarrow> bool" where
  "at_least_one_gap rs \<longleftrightarrow> OVAL_RESULT_TRUE \<notin> set rs \<and> OVAL_RESULT_FALSE \<in> set rs
     \<and> OVAL_RESULT_ERROR \<notin> set rs
     \<and> (OVAL_RESULT_UNKNOWN \<in> set rs \<or> OVAL_RESULT_NOT_EVALUATED \<in> set rs)"

definition check_table :: "oval_check_t \<Rightarrow> oval_result_t \<Rightarrow> oval_result_t list \<Rightarrow> oval_result_t" where
  "check_table check gap rs =
     (case check of
        OVAL_CHECK_ALL \<Rightarrow> all_table rs
      | OVAL_CHECK_AT_LEAST_ONE \<Rightarrow> if at_least_one_gap rs then gap else some_table rs
      | OVAL_CHECK_NONE_EXIST \<Rightarrow> none_table rs
      | OVAL_CHECK_NONE_SATISFY \<Rightarrow> none_table rs
      | OVAL_CHECK_ONLY_ONE \<Rightarrow> one_table rs
      | _ \<Rightarrow> (if rs = [] then OVAL_RESULT_UNKNOWN
              else if set rs = {OVAL_RESULT_NOT_APPLICABLE} then OVAL_RESULT_NOT_APPLICABLE else gap))"

definition operator_table :: "oval_operator_t \<Rightarrow> oval_result_t \<Rightarrow> oval_result_t list \<Rightarrow> oval_result_t" where
  "operator_table op dflt rs =
     (case op of
        OVAL_OPERATOR_AND \<Rightarrow> all_table rs
      | OVAL_OPERATOR_OR \<Rightarrow> some_table rs
      | OVAL_OPERATOR_ONE \<Rightarrow> one_table rs
      | OVAL_OPERATOR_XOR \<Rightarrow> xor_table rs
      | _ \<Rightarrow> (if rs = [] then OVAL_RESULT_UNKNOWN
              else if set rs = {OVAL_RESULT_NOT_APPLICABLE} then OVAL_RESULT_NOT_APPLICABLE else dflt))"

section \<open>The counters hold the numbers of the results\<close>

lemma counts_foldl:
  "true_cnt (foldl (\<lambda>ores r. fst (ores_add_res ores r)) ores rs) = true_cnt ores + count_list rs OVAL_RESULT_TRUE"
  "false_cnt (foldl (\<lambda>ores r. fst (ores_add_res ores r)) ores rs) = false_cnt ores + count_list rs OVAL_RESULT_FALSE"
  "error_cnt (foldl (\<lambda>ores r. fst (ores_add_res ores r)) ores rs) = error_cnt ores + count_list rs OVAL_RESULT_ERROR"
  "unknown_cnt (foldl (\<lambda>ores r. fst (ores_add_res ores r)) ores rs) = unknown_cnt ores + count_list rs OVAL_RESULT_UNKNOWN"
  "noteval_cnt (foldl (\<lambda>ores r. fst (ores_add_res ores r)) ores rs) = noteval_cnt ores + count_list rs OVAL_RESULT_NOT_EVALUATED"
  "notappl_cnt (foldl (\<lambda>ores r. fst (ores_add_res ores r)) ores rs) = notappl_cnt ores + count_list rs OVAL_RESULT_NOT_APPLICABLE"
  by (induction rs arbitrary: ores) (auto simp: ores_add_res_def split: oval_result_t.splits)

lemma counts [simp]:
  "true_cnt (ores_of rs) = count_list rs OVAL_RESULT_TRUE"
  "false_cnt (ores_of rs) = count_list rs OVAL_RESULT_FALSE"
  "error_cnt (ores_of rs) = count_list rs OVAL_RESULT_ERROR"
  "unknown_cnt (ores_of rs) = count_list rs OVAL_RESULT_UNKNOWN"
  "noteval_cnt (ores_of rs) = count_list rs OVAL_RESULT_NOT_EVALUATED"
  "notappl_cnt (ores_of rs) = count_list rs OVAL_RESULT_NOT_APPLICABLE"
  by (simp_all add: ores_of_def counts_foldl ores_zero_def)

lemma results_parser_loop_eq:
  "OVAL_RESULT_INVALID \<notin> set rs \<Longrightarrow>
   results_parser_loop rs ores = Some (foldl (\<lambda>ores r. fst (ores_add_res ores r)) ores rs)"
  by (induction rs arbitrary: ores) (auto simp: ores_add_res_def split: oval_result_t.splits)

lemma results_parser_eq: "OVAL_RESULT_INVALID \<notin> set rs \<Longrightarrow> results_parser rs = Some (ores_of rs)"
  by (simp add: results_parser_def ores_of_def results_parser_loop_eq)

lemma results_parser_loop_None:
  "OVAL_RESULT_INVALID \<in> set rs \<Longrightarrow> results_parser_loop rs ores = None"
  by (induction rs arbitrary: ores) (auto split: oval_result_t.splits)

lemma ores_all_zero_of: "OVAL_RESULT_INVALID \<notin> set rs \<Longrightarrow> ores_all_zero (ores_of rs) \<longleftrightarrow> rs = []"
  by (cases rs; cases "hd rs") (auto simp: ores_all_zero_def count_list_0_iff)

lemma ores_only_notappl_of:
  assumes "OVAL_RESULT_INVALID \<notin> set rs"
  shows "ores_only_notappl (ores_of rs) \<longleftrightarrow> set rs = {OVAL_RESULT_NOT_APPLICABLE}"
proof -
  have "set rs \<subseteq> {OVAL_RESULT_NOT_APPLICABLE}"
    if "set rs \<inter> {OVAL_RESULT_TRUE, OVAL_RESULT_FALSE, OVAL_RESULT_ERROR, OVAL_RESULT_UNKNOWN,
                   OVAL_RESULT_NOT_EVALUATED} = {}"
    using assms that by (auto, metis oval_result_t.exhaust)
  then show ?thesis
    by (auto simp: ores_only_notappl_def count_list_0_iff zero_less_iff_neq_zero)
qed

lemma count_list_pos [simp]: "0 < count_list xs x \<longleftrightarrow> x \<in> set xs"
  by (simp add: zero_less_iff_neq_zero count_list_0_iff)

lemma count_list_Suc_0_le [simp]: "Suc 0 \<le> count_list xs x \<longleftrightarrow> x \<in> set xs"
  by (simp add: Suc_le_eq)

lemma count_list_zero [simp]: "count_list xs x = 0 \<longleftrightarrow> x \<notin> set xs"
  by (simp add: count_list_0_iff)

lemma some_decided:
  assumes "OVAL_RESULT_INVALID \<notin> set rs" and "rs \<noteq> []" and "set rs \<noteq> {OVAL_RESULT_NOT_APPLICABLE}"
  shows "OVAL_RESULT_TRUE \<in> set rs \<or> OVAL_RESULT_FALSE \<in> set rs \<or> OVAL_RESULT_ERROR \<in> set rs
         \<or> OVAL_RESULT_UNKNOWN \<in> set rs \<or> OVAL_RESULT_NOT_EVALUATED \<in> set rs"
proof -
  from assms(2,3) obtain r where "r \<in> set rs" "r \<noteq> OVAL_RESULT_NOT_APPLICABLE"
    by (metis insertI1 list.set_sel(1) set_empty subsetI subset_singletonD)
  with assms(1) show ?thesis by (cases r) auto
qed

lemmas table_defs = all_table_def some_table_def none_table_def one_table_def xor_table_def
  undecided_def at_least_one_gap_def check_table_def operator_table_def negated_def

lemma count_cases:
  obtains "x \<notin> set rs"
  | "x \<in> set rs" and "count_list rs x = Suc 0"
  | "x \<in> set rs" and "count_list rs x \<noteq> Suc 0" and "2 \<le> count_list rs x" and "\<not> count_list rs x < 2"
proof -
  consider "count_list rs x = 0" | "count_list rs x = Suc 0" | "2 \<le> count_list rs x" by linarith
  then show thesis
  proof cases
    case 2
    then have "x \<in> set rs" by (metis count_list_zero nat.distinct(1))
    with 2 that show thesis by blast
  next
    case 3
    then have "x \<in> set rs" by (metis count_list_zero not_numeral_le_zero)
    with 3 that show thesis by auto
  qed (use that in simp)
qed

text \<open>Both functions on lists that hold a result that is not \<open>not applicable\<close>.\<close>

lemma bychk_table_decided:
  assumes "OVAL_RESULT_INVALID \<notin> set rs" and nz: "rs \<noteq> []" "set rs \<noteq> {OVAL_RESULT_NOT_APPLICABLE}"
  shows "ores_get_result_bychk (ores_of rs) check = check_table check OVAL_RESULT_ERROR rs"
proof -
  have z: "\<not> ores_all_zero (ores_of rs)" "\<not> ores_only_notappl (ores_of rs)"
    using assms by (simp_all add: ores_all_zero_of ores_only_notappl_of)
  note some = some_decided [OF assms]
  show ?thesis
    by (rule count_cases [of OVAL_RESULT_TRUE rs]; cases check;
        use some in \<open>simp add: ores_get_result_bychk_def z nz table_defs Let_def\<close>;
        (elim disjE)?; simp?; blast?)
qed

lemma byopr_table_decided:
  assumes "OVAL_RESULT_INVALID \<notin> set rs" and nz: "rs \<noteq> []" "set rs \<noteq> {OVAL_RESULT_NOT_APPLICABLE}"
  shows "ores_get_result_byopr (ores_of rs) op = operator_table op OVAL_RESULT_ERROR rs"
proof -
  have z: "\<not> ores_all_zero (ores_of rs)" "\<not> ores_only_notappl (ores_of rs)"
    using assms by (simp_all add: ores_all_zero_of ores_only_notappl_of)
  note some = some_decided [OF assms]
  show ?thesis
    by (rule count_cases [of OVAL_RESULT_TRUE rs]; cases op;
        use some in \<open>simp add: ores_get_result_byopr_def z nz table_defs Let_def\<close>;
        (elim disjE)?; simp?; blast?)
qed

lemma bychk_table:
  assumes "OVAL_RESULT_INVALID \<notin> set rs"
  shows "ores_get_result_bychk (ores_of rs) check = check_table check OVAL_RESULT_ERROR rs"
proof (cases "rs = [] \<or> set rs = {OVAL_RESULT_NOT_APPLICABLE}")
  case True
  then show ?thesis
    using assms
    by (cases check)
      (auto simp: ores_get_result_bychk_def ores_all_zero_of ores_only_notappl_of table_defs)
qed (use assms bychk_table_decided in blast)

lemma byopr_table:
  assumes "OVAL_RESULT_INVALID \<notin> set rs"
  shows "ores_get_result_byopr (ores_of rs) op = operator_table op OVAL_RESULT_ERROR rs"
proof (cases "rs = [] \<or> set rs = {OVAL_RESULT_NOT_APPLICABLE}")
  case True
  then show ?thesis
    using assms
    by (cases op)
      (auto simp: ores_get_result_byopr_def ores_all_zero_of ores_only_notappl_of table_defs)
qed (use assms byopr_table_decided in blast)

text \<open>The functions of the probes differ in the value \<open>result\<close> is initialised with.\<close>

lemma probe_bychk_unfold:
  assumes "OVAL_RESULT_INVALID \<notin> set rs" and nz: "rs \<noteq> []" "set rs \<noteq> {OVAL_RESULT_NOT_APPLICABLE}"
  shows "probe_ent_result_bychk rs check = check_table check OVAL_RESULT_UNKNOWN rs"
proof -
  have z: "results_parser rs = Some (ores_of rs)" "\<not> ores_only_notappl (ores_of rs)"
    using assms by (simp_all add: results_parser_eq ores_only_notappl_of)
  note some = some_decided [OF assms]
  show ?thesis
    by (rule count_cases [of OVAL_RESULT_TRUE rs]; cases check;
        use some in \<open>simp add: probe_ent_result_bychk_def z nz table_defs Let_def\<close>;
        (elim disjE)?; simp?; blast?)
qed

lemma probe_byopr_unfold:
  assumes "OVAL_RESULT_INVALID \<notin> set rs" and nz: "rs \<noteq> []" "set rs \<noteq> {OVAL_RESULT_NOT_APPLICABLE}"
  shows "probe_ent_result_byopr rs op = operator_table op OVAL_RESULT_UNKNOWN rs"
proof -
  have z: "results_parser rs = Some (ores_of rs)" "\<not> ores_only_notappl (ores_of rs)"
    using assms by (simp_all add: results_parser_eq ores_only_notappl_of)
  note some = some_decided [OF assms]
  show ?thesis
    by (rule count_cases [of OVAL_RESULT_TRUE rs]; cases op;
        use some in \<open>simp add: probe_ent_result_byopr_def z nz table_defs Let_def\<close>;
        (elim disjE)?; simp?; blast?)
qed

lemma probe_bychk_table:
  assumes "OVAL_RESULT_INVALID \<notin> set rs"
  shows "probe_ent_result_bychk rs check = check_table check OVAL_RESULT_UNKNOWN rs"
proof (cases "rs = [] \<or> set rs = {OVAL_RESULT_NOT_APPLICABLE}")
  case True
  then show ?thesis
    using assms
    by (cases check)
      (auto simp: probe_ent_result_bychk_def results_parser_eq ores_only_notappl_of table_defs)
qed (use assms probe_bychk_unfold in blast)

lemma probe_byopr_table:
  assumes "OVAL_RESULT_INVALID \<notin> set rs"
  shows "probe_ent_result_byopr rs op = operator_table op OVAL_RESULT_UNKNOWN rs"
proof (cases "rs = [] \<or> set rs = {OVAL_RESULT_NOT_APPLICABLE}")
  case True
  then show ?thesis
    using assms
    by (cases op)
      (auto simp: probe_ent_result_byopr_def results_parser_eq ores_only_notappl_of table_defs)
qed (use assms probe_byopr_unfold in blast)

section \<open>What every combination promises\<close>

text \<open>
  The contract of a combination of results, whatever the check or the operator: no result is
  \<open>unknown\<close>, the order does not matter, and \<open>not applicable\<close> counts only when nothing else is
  there. The tests and the criteria rest on it.
\<close>

locale result_combination =
  fixes comb :: "oval_result_t list \<Rightarrow> oval_result_t"
  assumes comb_Nil: "comb [] = OVAL_RESULT_UNKNOWN"
    and comb_perm: "OVAL_RESULT_INVALID \<notin> set xs \<Longrightarrow> mset xs = mset ys \<Longrightarrow> comb xs = comb ys"
    and comb_only_na: "set xs = {OVAL_RESULT_NOT_APPLICABLE} \<Longrightarrow> comb xs = OVAL_RESULT_NOT_APPLICABLE"
    and comb_drop_na: "OVAL_RESULT_INVALID \<notin> set xs \<Longrightarrow> x \<in> set xs \<Longrightarrow> x \<noteq> OVAL_RESULT_NOT_APPLICABLE \<Longrightarrow>
           comb (OVAL_RESULT_NOT_APPLICABLE # xs) = comb xs"
begin

lemma comb_append_commute:
  "OVAL_RESULT_INVALID \<notin> set xs \<union> set ys \<Longrightarrow> comb (xs @ ys) = comb (ys @ xs)"
  by (rule comb_perm) (auto simp: union_commute)

lemma comb_rev: "OVAL_RESULT_INVALID \<notin> set xs \<Longrightarrow> comb (rev xs) = comb xs"
  by (rule comb_perm) auto

lemma comb_drop_nas:
  "OVAL_RESULT_INVALID \<notin> set xs \<Longrightarrow> x \<in> set xs \<Longrightarrow> x \<noteq> OVAL_RESULT_NOT_APPLICABLE \<Longrightarrow>
   comb (xs @ replicate k OVAL_RESULT_NOT_APPLICABLE) = comb xs"
proof (induction k)
  case (Suc k)
  have "comb (xs @ replicate (Suc k) OVAL_RESULT_NOT_APPLICABLE)
      = comb (OVAL_RESULT_NOT_APPLICABLE # xs @ replicate k OVAL_RESULT_NOT_APPLICABLE)"
    using Suc.prems by (intro comb_perm) auto
  also have "\<dots> = comb (xs @ replicate k OVAL_RESULT_NOT_APPLICABLE)"
    using Suc.prems by (intro comb_drop_na) auto
  finally show ?case using Suc by simp
qed simp

lemma comb_filter_na:
  assumes "OVAL_RESULT_INVALID \<notin> set xs" and "x \<in> set xs" and "x \<noteq> OVAL_RESULT_NOT_APPLICABLE"
  shows "comb (filter (\<lambda>r. r \<noteq> OVAL_RESULT_NOT_APPLICABLE) xs) = comb xs"
proof -
  let ?f = "filter (\<lambda>r. r \<noteq> OVAL_RESULT_NOT_APPLICABLE) xs"
  have "mset xs = mset (?f @ replicate (count (mset xs) OVAL_RESULT_NOT_APPLICABLE) OVAL_RESULT_NOT_APPLICABLE)"
    by (simp add: multiset_eq_iff)
  then have "comb xs = comb (?f @ replicate (count (mset xs) OVAL_RESULT_NOT_APPLICABLE) OVAL_RESULT_NOT_APPLICABLE)"
    by (rule comb_perm [OF assms(1)])
  also have "\<dots> = comb ?f" using assms by (intro comb_drop_nas) auto
  finally show ?thesis by simp
qed

end

text \<open>A combination that leaves a single result as it is.\<close>

locale result_junction = result_combination +
  assumes comb_single: "r \<noteq> OVAL_RESULT_INVALID \<Longrightarrow> comb [r] = r"
begin

lemma comb_single_na:
  "r \<noteq> OVAL_RESULT_INVALID \<Longrightarrow> comb (r # replicate k OVAL_RESULT_NOT_APPLICABLE) = r"
proof (cases "r = OVAL_RESULT_NOT_APPLICABLE")
  case False
  assume r: "r \<noteq> OVAL_RESULT_INVALID"
  with False have "comb ([r] @ replicate k OVAL_RESULT_NOT_APPLICABLE) = comb [r]"
    by (intro comb_drop_nas [of _ r]) auto
  with r show ?thesis by (simp add: comb_single)
next
  case True
  then show ?thesis by (simp only:) (rule comb_only_na, auto)
qed

end

text \<open>The tables depend on the set of the results and the number of true ones only.\<close>

lemma count_list_mset: "mset xs = mset ys \<Longrightarrow> count_list xs x = count_list ys x"
  by (metis count_mset)

lemma first_present_cong: "set xs = set ys \<Longrightarrow> first_present ps xs = first_present ps ys"
  by (induction ps) auto

lemma tables_perm:
  assumes "mset xs = mset ys"
  shows "check_table chk d xs = check_table chk d ys" "operator_table op d xs = operator_table op d ys"
proof -
  note e = mset_eq_setD [OF assms] count_list_mset [OF assms, of OVAL_RESULT_TRUE]
  have n: "xs = [] \<longleftrightarrow> ys = []" using assms by (metis mset_zero_iff_right mset_zero_iff)
  show "check_table chk d xs = check_table chk d ys" by (cases chk; simp add: table_defs e n)
  show "operator_table op d xs = operator_table op d ys" by (cases op; simp add: table_defs e n)
qed

lemma tables_only_na:
  assumes s: "set xs = {OVAL_RESULT_NOT_APPLICABLE}"
  shows "check_table chk d xs = OVAL_RESULT_NOT_APPLICABLE"
    and "operator_table op d xs = OVAL_RESULT_NOT_APPLICABLE"
proof -
  from s have n: "xs \<noteq> []" "count_list xs OVAL_RESULT_TRUE = 0" by (force, simp)
  show "check_table chk d xs = OVAL_RESULT_NOT_APPLICABLE"
    using n by (cases chk; simp add: table_defs s)
  show "operator_table op d xs = OVAL_RESULT_NOT_APPLICABLE"
    using n by (cases op; simp add: table_defs s)
qed

lemma tables_drop_na:
  assumes "OVAL_RESULT_INVALID \<notin> set xs" and "x \<in> set xs" and "x \<noteq> OVAL_RESULT_NOT_APPLICABLE"
  shows "check_table chk d (OVAL_RESULT_NOT_APPLICABLE # xs) = check_table chk d xs"
    and "operator_table op d (OVAL_RESULT_NOT_APPLICABLE # xs) = operator_table op d xs"
proof -
  have nz: "xs \<noteq> []" "set xs \<noteq> {OVAL_RESULT_NOT_APPLICABLE}"
    "insert OVAL_RESULT_NOT_APPLICABLE (set xs) \<noteq> {OVAL_RESULT_NOT_APPLICABLE}"
    using assms(2,3) by (force, blast, blast)
  note some = some_decided [OF assms(1) nz(1,2)]
  show "check_table chk d (OVAL_RESULT_NOT_APPLICABLE # xs) = check_table chk d xs"
    by (cases chk; use some nz in \<open>simp add: table_defs\<close>; (elim disjE)?; simp?)
  show "operator_table op d (OVAL_RESULT_NOT_APPLICABLE # xs) = operator_table op d xs"
    by (cases op; use some nz in \<open>simp add: table_defs\<close>; (elim disjE)?; simp?)
qed

lemma tables_Nil: "check_table chk d [] = OVAL_RESULT_UNKNOWN" "operator_table op d [] = OVAL_RESULT_UNKNOWN"
  by (cases chk; simp add: table_defs) (cases op; simp add: table_defs)

lemma invalid_perm: "mset xs = mset ys \<Longrightarrow> OVAL_RESULT_INVALID \<in> set xs \<longleftrightarrow> OVAL_RESULT_INVALID \<in> set ys"
  by (auto dest: mset_eq_setD)

lemma combination_by_table:
  assumes eq: "\<And>rs. OVAL_RESULT_INVALID \<notin> set rs \<Longrightarrow> f rs = table rs"
    and nil: "table [] = OVAL_RESULT_UNKNOWN"
    and perm: "\<And>xs ys. mset xs = mset ys \<Longrightarrow> table xs = table ys"
    and na: "\<And>xs. set xs = {OVAL_RESULT_NOT_APPLICABLE} \<Longrightarrow> table xs = OVAL_RESULT_NOT_APPLICABLE"
    and drop: "\<And>xs x. OVAL_RESULT_INVALID \<notin> set xs \<Longrightarrow> x \<in> set xs \<Longrightarrow> x \<noteq> OVAL_RESULT_NOT_APPLICABLE \<Longrightarrow>
                table (OVAL_RESULT_NOT_APPLICABLE # xs) = table xs"
  shows "result_combination f"
proof
  show "f [] = OVAL_RESULT_UNKNOWN" by (simp add: eq nil)
  show "f xs = f ys" if "OVAL_RESULT_INVALID \<notin> set xs" "mset xs = mset ys" for xs ys
    using that invalid_perm [OF that(2)] by (simp add: eq perm [OF that(2)])
  show "f xs = OVAL_RESULT_NOT_APPLICABLE" if "set xs = {OVAL_RESULT_NOT_APPLICABLE}" for xs
    using that na by (simp add: eq)
  show "f (OVAL_RESULT_NOT_APPLICABLE # xs) = f xs"
    if "OVAL_RESULT_INVALID \<notin> set xs" "x \<in> set xs" "x \<noteq> OVAL_RESULT_NOT_APPLICABLE" for xs x
    using that drop [OF that] by (simp add: eq)
qed

interpretation ores_bychk: result_combination "\<lambda>rs. ores_get_result_bychk (ores_of rs) chk" for chk
  by (rule combination_by_table [of _ "check_table chk OVAL_RESULT_ERROR"])
    (rule bychk_table tables_Nil tables_perm tables_only_na tables_drop_na, assumption?)+

interpretation ores_byopr: result_combination "\<lambda>rs. ores_get_result_byopr (ores_of rs) op" for op
  by (rule combination_by_table [of _ "operator_table op OVAL_RESULT_ERROR"])
    (rule byopr_table tables_Nil tables_perm tables_only_na tables_drop_na, assumption?)+

interpretation probe_bychk: result_combination "\<lambda>rs. probe_ent_result_bychk rs chk" for chk
  by (rule combination_by_table [of _ "check_table chk OVAL_RESULT_UNKNOWN"])
    (rule probe_bychk_table tables_Nil tables_perm tables_only_na tables_drop_na, assumption?)+

interpretation probe_byopr: result_combination "\<lambda>rs. probe_ent_result_byopr rs op" for op
  by (rule combination_by_table [of _ "operator_table op OVAL_RESULT_UNKNOWN"])
    (rule probe_byopr_table tables_Nil tables_perm tables_only_na tables_drop_na, assumption?)+

text \<open>The four operators and the positive checks keep single results.\<close>

lemma operator_table_single:
  "op \<in> {OVAL_OPERATOR_AND, OVAL_OPERATOR_OR, OVAL_OPERATOR_ONE, OVAL_OPERATOR_XOR} \<Longrightarrow>
   r \<noteq> OVAL_RESULT_INVALID \<Longrightarrow> operator_table op d [r] = r"
  by (cases r; elim insertE emptyE; simp add: table_defs)

interpretation ores_and: result_junction "\<lambda>rs. ores_get_result_byopr (ores_of rs) OVAL_OPERATOR_AND"
  by unfold_locales (simp add: byopr_table operator_table_single)

interpretation ores_or: result_junction "\<lambda>rs. ores_get_result_byopr (ores_of rs) OVAL_OPERATOR_OR"
  by unfold_locales (simp add: byopr_table operator_table_single)

interpretation ores_one: result_junction "\<lambda>rs. ores_get_result_byopr (ores_of rs) OVAL_OPERATOR_ONE"
  by unfold_locales (simp add: byopr_table operator_table_single)

interpretation ores_xor: result_junction "\<lambda>rs. ores_get_result_byopr (ores_of rs) OVAL_OPERATOR_XOR"
  by unfold_locales (simp add: byopr_table operator_table_single)

section \<open>Properties\<close>

text \<open>
  C8. The four operators of criteria compute the truth tables of the language on every list of
  results: \<open>AND\<close> and \<open>OR\<close> as priorities among the results, \<open>ONE\<close> as exactly one true result,
  \<open>XOR\<close> as the parity of the true results unless a result is undecided.
\<close>

theorem operators_correct:
  assumes "OVAL_RESULT_INVALID \<notin> set rs"
  shows "ores_get_result_byopr (ores_of rs) OVAL_OPERATOR_AND = all_table rs
    \<and> ores_get_result_byopr (ores_of rs) OVAL_OPERATOR_OR = some_table rs
    \<and> ores_get_result_byopr (ores_of rs) OVAL_OPERATOR_ONE = one_table rs
    \<and> ores_get_result_byopr (ores_of rs) OVAL_OPERATOR_XOR = xor_table rs"
  using byopr_table [OF assms] by (simp add: operator_table_def)

theorem operators_correct_witness:
  "ores_get_result_byopr (ores_of [OVAL_RESULT_TRUE, OVAL_RESULT_UNKNOWN, OVAL_RESULT_FALSE]) OVAL_OPERATOR_AND
     = OVAL_RESULT_FALSE"
  using operators_correct [of "[OVAL_RESULT_TRUE, OVAL_RESULT_UNKNOWN, OVAL_RESULT_FALSE]"]
  by (simp add: all_table_def)

text \<open>
  C9. The checks compute the tables of the language: \<open>all\<close> is the table of \<open>AND\<close>, \<open>none satisfy\<close>
  (and the deprecated \<open>none exist\<close>) the negation of the table of \<open>OR\<close>, \<open>only one\<close> the table of \<open>ONE\<close>,
  and \<open>at least one\<close> the table of \<open>OR\<close> outside the gap.
\<close>

theorem checks_correct:
  assumes "OVAL_RESULT_INVALID \<notin> set rs"
  shows "ores_get_result_bychk (ores_of rs) OVAL_CHECK_ALL = all_table rs
    \<and> ores_get_result_bychk (ores_of rs) OVAL_CHECK_NONE_SATISFY = negated (some_table rs)
    \<and> ores_get_result_bychk (ores_of rs) OVAL_CHECK_NONE_EXIST = negated (some_table rs)
    \<and> ores_get_result_bychk (ores_of rs) OVAL_CHECK_ONLY_ONE = one_table rs
    \<and> (\<not> at_least_one_gap rs \<longrightarrow>
         ores_get_result_bychk (ores_of rs) OVAL_CHECK_AT_LEAST_ONE = some_table rs)"
  using bychk_table [OF assms] by (simp add: check_table_def none_table_def)

theorem checks_correct_witness:
  "ores_get_result_bychk (ores_of [OVAL_RESULT_FALSE, OVAL_RESULT_NOT_APPLICABLE, OVAL_RESULT_TRUE])
     OVAL_CHECK_AT_LEAST_ONE = OVAL_RESULT_TRUE"
  using checks_correct [of "[OVAL_RESULT_FALSE, OVAL_RESULT_NOT_APPLICABLE, OVAL_RESULT_TRUE]"]
  by (simp add: at_least_one_gap_def some_table_def)

text \<open>
  The gap of \<open>at least one\<close>: with a false result, an unknown or not evaluated one, and neither a
  true result nor an error, the check yields \<open>error\<close>, where \<open>OR\<close> on the same results is undecided
  (unknown or not evaluated), as the table of the language demands.
\<close>

theorem at_least_one_gap_error:
  assumes "at_least_one_gap rs" and "OVAL_RESULT_INVALID \<notin> set rs"
  shows "ores_get_result_bychk (ores_of rs) OVAL_CHECK_AT_LEAST_ONE = OVAL_RESULT_ERROR
    \<and> ores_get_result_byopr (ores_of rs) OVAL_OPERATOR_OR
        = (if OVAL_RESULT_UNKNOWN \<in> set rs then OVAL_RESULT_UNKNOWN else OVAL_RESULT_NOT_EVALUATED)"
  using assms bychk_table [OF assms(2)] byopr_table [OF assms(2)]
  by (auto simp: check_table_def operator_table_def some_table_def at_least_one_gap_def)

theorem at_least_one_gap_error_witness:
  "ores_get_result_bychk (ores_of [OVAL_RESULT_FALSE, OVAL_RESULT_UNKNOWN]) OVAL_CHECK_AT_LEAST_ONE
     = OVAL_RESULT_ERROR"
  using at_least_one_gap_error [of "[OVAL_RESULT_FALSE, OVAL_RESULT_UNKNOWN]"]
  by (simp add: at_least_one_gap_def)

text \<open>
  C17. The order in which results arrive does not matter, for any check and any operator, and a
  result \<open>not applicable\<close> changes nothing as long as another result is present.
\<close>

theorem combination_order:
  assumes "OVAL_RESULT_INVALID \<notin> set xs"
  shows "(mset xs = mset ys \<longrightarrow>
      ores_get_result_bychk (ores_of xs) chk = ores_get_result_bychk (ores_of ys) chk
      \<and> ores_get_result_byopr (ores_of xs) op = ores_get_result_byopr (ores_of ys) op)
    \<and> (x \<in> set xs \<and> x \<noteq> OVAL_RESULT_NOT_APPLICABLE \<longrightarrow>
      ores_get_result_bychk (ores_of (filter (\<lambda>r. r \<noteq> OVAL_RESULT_NOT_APPLICABLE) xs)) chk
        = ores_get_result_bychk (ores_of xs) chk
      \<and> ores_get_result_byopr (ores_of (filter (\<lambda>r. r \<noteq> OVAL_RESULT_NOT_APPLICABLE) xs)) op
        = ores_get_result_byopr (ores_of xs) op)"
  using assms
  by (blast intro: ores_bychk.comb_perm ores_byopr.comb_perm ores_bychk.comb_filter_na
      ores_byopr.comb_filter_na)

theorem combination_order_witness:
  "ores_get_result_byopr (ores_of [OVAL_RESULT_FALSE, OVAL_RESULT_TRUE]) OVAL_OPERATOR_XOR
     = ores_get_result_byopr (ores_of [OVAL_RESULT_TRUE, OVAL_RESULT_FALSE]) OVAL_OPERATOR_XOR"
  using combination_order [of "[OVAL_RESULT_FALSE, OVAL_RESULT_TRUE]" "[OVAL_RESULT_TRUE, OVAL_RESULT_FALSE]"]
  by simp

text \<open>
  C18. The probes' copy of the tables agrees with the evaluator's: on every list of results for the
  operators, and for the checks outside the gap of \<open>at least one\<close>. In the gap the copy yields \<open>unknown\<close>.
\<close>

theorem probe_tables_agree:
  assumes "OVAL_RESULT_INVALID \<notin> set rs"
    and "chk \<in> {OVAL_CHECK_ALL, OVAL_CHECK_AT_LEAST_ONE, OVAL_CHECK_NONE_EXIST,
                 OVAL_CHECK_NONE_SATISFY, OVAL_CHECK_ONLY_ONE}"
    and "opr \<in> {OVAL_OPERATOR_AND, OVAL_OPERATOR_OR, OVAL_OPERATOR_ONE, OVAL_OPERATOR_XOR}"
  shows "probe_ent_result_byopr rs opr = ores_get_result_byopr (ores_of rs) opr
    \<and> (if chk = OVAL_CHECK_AT_LEAST_ONE \<and> at_least_one_gap rs
        then probe_ent_result_bychk rs chk = OVAL_RESULT_UNKNOWN
          \<and> ores_get_result_bychk (ores_of rs) chk = OVAL_RESULT_ERROR
        else probe_ent_result_bychk rs chk = ores_get_result_bychk (ores_of rs) chk)"
  using assms(2,3)
  by (elim insertE emptyE)
    (simp_all add: bychk_table byopr_table probe_bychk_table probe_byopr_table assms(1)
      check_table_def operator_table_def)

theorem probe_tables_agree_witness:
  "probe_ent_result_bychk [OVAL_RESULT_TRUE, OVAL_RESULT_ERROR] OVAL_CHECK_NONE_SATISFY
     = ores_get_result_bychk (ores_of [OVAL_RESULT_TRUE, OVAL_RESULT_ERROR]) OVAL_CHECK_NONE_SATISFY"
  using probe_tables_agree [of "[OVAL_RESULT_TRUE, OVAL_RESULT_ERROR]" OVAL_CHECK_NONE_SATISFY OVAL_OPERATOR_AND]
  by simp

end
