(* ===== verification/Oval_Version.thy ===== *)
theory Oval_Version
  imports Prelude
begin

unbundle bit_operations_syntax

text \<open>
  \<open>src/OVAL/oval_version.c\<close>: the version of an OVAL schema, three bytes packed into the upper
  24 bits of an \<open>uint32_t\<close>, read from and written as text and compared as a number.
\<close>

type_synonym oval_version_t = "32 word"

definition OVAL_VERSION_INVALID :: oval_version_t where
  "OVAL_VERSION_INVALID = 0"

text \<open>
  The scan that cuts the copy of the text at the dots: \<open>cur\<close> is the component being read, \<open>comps\<close>
  the finished ones, \<open>found\<close> the variable \<open>found_digit\<close>. There is room for three components.
\<close>

fun version_scan :: "string \<Rightarrow> bool \<Rightarrow> string \<Rightarrow> string list \<Rightarrow> string list option" where
  "version_scan [] found cur comps = Some (comps @ [cur])"
| "version_scan (x # xs) found cur comps =
     (if c_isdigit x then version_scan xs True (cur @ [x]) comps
      else if x = CHR ''.'' \<and> found then
        (if length comps + 1 < 3 then version_scan xs False [] (comps @ [cur]) else None)
      else None)"

definition component_ints :: "string list \<Rightarrow> int list option" where
  "component_ints comps =
     (let vs = map (\<lambda>s. fst (strtol64 s)) comps in
      if list_ex (\<lambda>v. v < 0 \<or> v > 255) vs then None else Some vs)"

definition oval_version_from_cstr :: "cstr \<Rightarrow> oval_version_t" where
  "oval_version_from_cstr version_str_orig =
     (case version_str_orig of
        None \<Rightarrow> OVAL_VERSION_INVALID
      | Some str \<Rightarrow>
          if length str > 12 - 1 then OVAL_VERSION_INVALID
          else (case version_scan str False [] [] of
                  None \<Rightarrow> OVAL_VERSION_INVALID
                | Some comps \<Rightarrow>
                    (case component_ints comps of
                       None \<Rightarrow> OVAL_VERSION_INVALID
                     | Some vs \<Rightarrow>
                         (let vs' = vs @ replicate (3 - length vs) 0 in
                          push_bit 24 (word_of_int (vs' ! 0)) OR push_bit 16 (word_of_int (vs' ! 1))
                            OR push_bit 8 (word_of_int (vs' ! 2))))))"

definition oval_version_major :: "oval_version_t \<Rightarrow> 8 word" where
  "oval_version_major version = ucast (drop_bit 24 version AND 0xFF)"

definition oval_version_minor :: "oval_version_t \<Rightarrow> 8 word" where
  "oval_version_minor version = ucast (drop_bit 16 version AND 0xFF)"

definition oval_version_patch :: "oval_version_t \<Rightarrow> 8 word" where
  "oval_version_patch version = ucast (drop_bit 8 version AND 0xFF)"

text \<open>
  \<open>oval_version_to_cstr\<close> returns its status and what \<open>snprintf\<close> left in the buffer (None: the buffer
  is not written).
\<close>

definition snprintf :: "nat \<Rightarrow> string \<Rightarrow> cstr" where
  "snprintf buflen text = (if buflen = 0 then None else Some (take (buflen - 1) text))"

definition oval_version_to_cstr :: "oval_version_t \<Rightarrow> nat \<Rightarrow> int \<times> cstr" where
  "oval_version_to_cstr version buflen =
     (let major = unat (oval_version_major version);
          minor = unat (oval_version_minor version);
          patch = unat (oval_version_patch version)
      in if major = 0 then (1, None)
         else (let s = (if patch \<noteq> 0 then show_nat major @ ''.'' @ show_nat minor @ ''.'' @ show_nat patch
                        else if minor \<noteq> 0 then show_nat major @ ''.'' @ show_nat minor
                        else show_nat major)
               in (if length s \<ge> buflen then -1 else 0, snprintf buflen s)))"

definition oval_version_cmp :: "oval_version_t \<Rightarrow> oval_version_t \<Rightarrow> int" where
  "oval_version_cmp v1 v2 = (if v1 = v2 then 0 else if v1 < v2 then -1 else 1)"

section \<open>Packing and unpacking\<close>

definition version_of :: "nat \<Rightarrow> nat \<Rightarrow> nat \<Rightarrow> oval_version_t" where
  "version_of a b c =
     push_bit 24 (word_of_nat a) OR push_bit 16 (word_of_nat b) OR push_bit 8 (word_of_nat c)"

lemma byte_bit: "(a :: nat) < 256 \<Longrightarrow> bit a n \<Longrightarrow> n < 8"
proof -
  assume "a < 256" and b: "bit a n"
  then have "take_bit 8 a = a" by (simp add: take_bit_nat_eq_self)
  with b show "n < 8" by (metis bit_take_bit_iff)
qed

lemma version_of_add:
  assumes "a < 256" "b < 256" "c < 256"
  shows "version_of a b c =
     push_bit 24 (word_of_nat a) + (push_bit 16 (word_of_nat b) + push_bit 8 (word_of_nat c))"
proof -
  have "push_bit 16 (word_of_nat b :: 32 word) AND push_bit 8 (word_of_nat c) = 0"
    using byte_bit [OF assms(2)] byte_bit [OF assms(3)]
    by (intro bit_word_eqI) (force simp: bit_simps)
  moreover have "push_bit 24 (word_of_nat a :: 32 word)
      AND (push_bit 16 (word_of_nat b) OR push_bit 8 (word_of_nat c)) = 0"
    using byte_bit [OF assms(1)] byte_bit [OF assms(2)] byte_bit [OF assms(3)]
    by (intro bit_word_eqI) (force simp: bit_simps)
  ultimately show ?thesis
    by (simp add: version_of_def disjunctive_add_eq_or or.assoc)
qed

lemma unat_version_of:
  assumes "a < 256" "b < 256" "c < 256"
  shows "unat (version_of a b c) = a * 2 ^ 24 + b * 2 ^ 16 + c * 2 ^ 8"
proof -
  define n where "n = a * 2 ^ 24 + b * 2 ^ 16 + c * 2 ^ 8"
  have "version_of a b c = word_of_nat n"
    by (simp add: version_of_add [OF assms] push_bit_eq_mult algebra_simps n_def)
  moreover have "n < 2 ^ 32" using assms by (simp add: n_def)
  ultimately have "unat (version_of a b c) = n" by (simp add: unat_of_nat take_bit_nat_eq_self)
  then show ?thesis by (simp add: n_def)
qed

lemma and_FF: "unat ((w :: 32 word) AND 0xFF) = unat w mod 256"
proof -
  have "w AND 0xFF = take_bit 8 w" by (simp add: take_bit_eq_mask mask_eq_decr_exp)
  then show ?thesis by (simp add: unsigned_take_bit_eq take_bit_eq_mod unat_mod)
qed

lemma unat_parts:
  "unat (oval_version_major v) = unat v div 2 ^ 24"
  "unat (oval_version_minor v) = unat v div 2 ^ 16 mod 256"
  "unat (oval_version_patch v) = unat v div 2 ^ 8 mod 256"
proof -
  have "unat v < 2 ^ 32" using unsigned_less [of v] by simp
  then have "unat v div 2 ^ 24 mod 256 = unat v div 2 ^ 24" by (intro mod_less) auto
  then show "unat (oval_version_major v) = unat v div 2 ^ 24"
    by (simp add: oval_version_major_def unsigned_ucast_eq and_FF unat_drop_bit_eq drop_bit_eq_div take_bit_eq_mod unat_div)
qed (simp_all add: oval_version_minor_def oval_version_patch_def unsigned_ucast_eq and_FF
  unat_drop_bit_eq drop_bit_eq_div take_bit_eq_mod unat_div)

text \<open>The low byte is not used by a version that was read from text.\<close>

definition version_wf :: "oval_version_t \<Rightarrow> bool" where
  "version_wf v \<longleftrightarrow> unat v mod 256 = 0"

lemma unat_by_parts:
  assumes "version_wf v"
  shows "unat v = unat (oval_version_major v) * 2 ^ 24 + unat (oval_version_minor v) * 2 ^ 16
           + unat (oval_version_patch v) * 2 ^ 8"
proof -
  have n: "n = n div 16777216 * 16777216 + n div 65536 mod 256 * 65536 + n div 256 mod 256 * 256 + n mod 256"
    for n :: nat
  proof -
    have q: "n div 65536 div 256 = n div 16777216" "n div 256 div 256 = n div 65536"
      by (simp_all add: div_mult2_eq [symmetric])
    have "m = q3 * 16777216 + r3 * 65536 + r2 * 256 + r1"
      if "q1 * 256 + r1 = m" "q2 * 256 + r2 = q1" "q3 * 256 + r3 = q2" for m q1 q2 q3 r1 r2 r3 :: nat
      using that by auto
    note r = this [OF div_mult_mod_eq [of n 256] div_mult_mod_eq [of "n div 256" 256]
        div_mult_mod_eq [of "n div 256 div 256" 256]]
    show ?thesis using r [symmetric] unfolding q by (rule sym)
  qed
  show ?thesis using n [of "unat v"] assms by (simp add: unat_parts version_wf_def)
qed

lemma part_less [simp]: "unat (w :: 8 word) < 256"
  using unsigned_less [of w] by simp

lemma version_of_parts:
  "version_wf v \<Longrightarrow> version_of (unat (oval_version_major v)) (unat (oval_version_minor v))
     (unat (oval_version_patch v)) = v"
  by (simp add: word_unat_eq_iff unat_version_of unat_by_parts)

lemma version_of_wf: "a < 256 \<Longrightarrow> b < 256 \<Longrightarrow> c < 256 \<Longrightarrow> version_wf (version_of a b c)"
  by (simp add: version_wf_def unat_version_of)

section \<open>Reading what was written\<close>

lemma scan_digits:
  "list_all c_isdigit ds \<Longrightarrow> ds \<noteq> [] \<Longrightarrow> version_scan (ds @ r) found cur comps = version_scan r True (cur @ ds) comps"
proof (induction ds arbitrary: found cur)
  case (Cons d ds)
  then show ?case by (cases "ds = []") auto
qed simp

lemma scan_number:
  "version_scan (show_nat n) found [] comps = Some (comps @ [show_nat n])"
  "length comps < 2 \<Longrightarrow>
   version_scan (show_nat n @ CHR ''.'' # r) found [] comps = version_scan r False [] (comps @ [show_nat n])"
proof -
  have d: "list_all c_isdigit (show_nat n)" by (simp add: list_all_iff show_nat_digits)
  show "version_scan (show_nat n) found [] comps = Some (comps @ [show_nat n])"
    using scan_digits [OF d, of "[]"] by simp
  show "length comps < 2 \<Longrightarrow>
   version_scan (show_nat n @ CHR ''.'' # r) found [] comps = version_scan r False [] (comps @ [show_nat n])"
    using scan_digits [OF d] by (simp add: c_isdigit_def char_bounds)
qed

lemma show_nat_byte_length: "n < 256 \<Longrightarrow> length (show_nat n) \<le> 3"
  by (subst show_nat.simps) (auto simp: show_nat.simps)

lemma strtol_byte: "n < 256 \<Longrightarrow> fst (strtol64 (show_nat n)) = int n"
  using strtol64_show_nat [of n "[]"] by simp

lemma component_ints_bytes:
  "list_all (\<lambda>n. n < 256) ns \<Longrightarrow> component_ints (map show_nat ns) = Some (map int ns)"
  by (auto simp: component_ints_def Let_def list_all_iff list_ex_iff strtol_byte)

text \<open>What \<open>oval_version_from_cstr\<close> makes of up to three numbers joined by dots.\<close>

lemma from_cstr_numbers:
  assumes "ns \<noteq> []" and "length ns \<le> 3" and "list_all (\<lambda>n. n < 256) ns"
    and "length (c_join CHR ''.'' (map show_nat ns)) \<le> 11"
  shows "oval_version_from_cstr (Some (c_join CHR ''.'' (map show_nat ns)))
    = (let ms = ns @ replicate (3 - length ns) 0 in version_of (ms ! 0) (ms ! 1) (ms ! 2))"
proof -
  have scan: "length comps + length ns \<le> 3 \<Longrightarrow>
      version_scan (c_join CHR ''.'' (map show_nat ns)) False [] comps = Some (comps @ map show_nat ns)"
    for comps
    using assms(1)
  proof (induction ns arbitrary: comps)
    case (Cons n ns)
    show ?case
    proof (cases "ns = []")
      case False
      with Cons.prems have "length comps < 2" by (cases ns) auto
      with Cons False show ?thesis by (simp add: scan_number c_join_Cons)
    qed (simp add: scan_number)
  qed simp
  from scan [of "[]"] assms component_ints_bytes [OF assms(3)] show ?thesis
    by (cases ns; cases "tl ns"; cases "tl (tl ns)")
      (auto simp: oval_version_from_cstr_def version_of_def Let_def)
qed

lemma lex_less:
  assumes "y < k" and "y' < k"
  shows "x * k + y < x' * k + y' \<longleftrightarrow> x < x' \<or> x = x' \<and> y < (y' :: nat)"
proof -
  have "u * k + k \<le> w * k" if "u < w" for u w :: nat
    using that mult_le_mono1 [of "Suc u" w k] by simp
  with assms show ?thesis
    by (cases x x' rule: linorder_cases) fastforce+
qed

section \<open>Properties\<close>

text \<open>
  C19. Writing a version and reading the text gives the version back, for every version that is not
  \<open>OVAL_VERSION_INVALID\<close>: its low byte is unused and its major number is not 0. A buffer of twelve
  bytes always suffices.
\<close>

theorem version_roundtrip:
  assumes "version_wf v" and "oval_version_major v \<noteq> 0" and "12 \<le> buflen"
  shows "\<exists>out. oval_version_to_cstr v buflen = (0, Some out) \<and> oval_version_from_cstr (Some out) = v"
proof -
  let ?a = "unat (oval_version_major v)" and ?b = "unat (oval_version_minor v)"
    and ?c = "unat (oval_version_patch v)"
  define ns where "ns = (if ?c \<noteq> 0 then [?a, ?b, ?c] else if ?b \<noteq> 0 then [?a, ?b] else [?a])"
  define out where "out = c_join CHR ''.'' (map show_nat ns)"
  have l: "length out \<le> 11"
    using show_nat_byte_length [OF part_less [of "oval_version_major v"]]
      show_nat_byte_length [OF part_less [of "oval_version_minor v"]]
      show_nat_byte_length [OF part_less [of "oval_version_patch v"]]
    by (simp add: out_def ns_def)
  have a: "?a \<noteq> 0" using assms(2) by (simp add: unat_eq_0)
  have "(if ?c \<noteq> 0 then show_nat ?a @ ''.'' @ show_nat ?b @ ''.'' @ show_nat ?c
         else if ?b \<noteq> 0 then show_nat ?a @ ''.'' @ show_nat ?b else show_nat ?a) = out"
    by (simp add: out_def ns_def)
  then have "oval_version_to_cstr v buflen = (0, Some out)"
    using a l assms(3) by (simp add: oval_version_to_cstr_def Let_def snprintf_def)
  moreover have "oval_version_from_cstr (Some out) = version_of ?a ?b ?c"
    unfolding out_def using l
    by (subst from_cstr_numbers) (simp_all add: ns_def out_def Let_def)
  ultimately show ?thesis using version_of_parts [OF assms(1)] by auto
qed

theorem version_roundtrip_witness:
  "\<exists>out. oval_version_to_cstr (version_of 5 10 1) 12 = (0, Some out)
     \<and> oval_version_from_cstr (Some out) = version_of 5 10 1"
  by (rule version_roundtrip) (simp_all add: version_wf_def version_of_def oval_version_major_def)

text \<open>
  C20. Versions compare as major, minor and patch numbers do, in this order: \<open>oval_version_cmp\<close> on
  packed versions is the lexicographic order of the three numbers.
\<close>

theorem version_cmp_lex:
  assumes "a < 256" "b < 256" "c < 256" "a' < 256" "b' < 256" "c' < 256"
  shows "oval_version_cmp (version_of a b c) (version_of a' b' c') =
     (if (a, b, c) = (a', b', c') then 0
      else if a < a' \<or> a = a' \<and> (b < b' \<or> b = b' \<and> c < c') then -1 else 1)"
proof -
  have small: "b * 2 ^ 16 + c * 2 ^ 8 < 2 ^ 24" "b' * 2 ^ 16 + c' * 2 ^ 8 < (2 :: nat) ^ 24"
    "c * 2 ^ 8 < 2 ^ 16" "c' * 2 ^ 8 < (2 :: nat) ^ 16" using assms by simp_all
  have lt: "version_of a b c < version_of a' b' c' \<longleftrightarrow> a < a' \<or> a = a' \<and> (b < b' \<or> b = b' \<and> c < c')"
    using assms lex_less [OF small(1,2), of a a'] lex_less [OF small(3,4), of b b']
    by (simp only: word_less_nat_alt unat_version_of add.assoc) simp
  have gt: "version_of a' b' c' < version_of a b c \<longleftrightarrow> a' < a \<or> a' = a \<and> (b' < b \<or> b' = b \<and> c' < c)"
    using assms lex_less [OF small(2,1), of a' a] lex_less [OF small(4,3), of b' b]
    by (simp only: word_less_nat_alt unat_version_of add.assoc) simp
  have "version_of a b c = version_of a' b' c' \<longleftrightarrow> (a, b, c) = (a', b', c')"
    using lt gt by (metis linorder_neqE prod.inject order_less_irrefl)
  then show ?thesis by (simp only: oval_version_cmp_def lt)
qed

theorem version_cmp_lex_witness:
  "oval_version_cmp (version_of 5 10 1) (version_of 5 9 255) = 1"
  using version_cmp_lex [of 5 10 1 5 9 255] by simp

end
