(* ===== verification/Comparator.thy ===== *)
theory Comparator
  imports Prelude "HOL-Library.Product_Lexorder" "HOL-Library.Option_ord"
begin

text \<open>
  The contract of the three-way comparisons of the program (\<open>rpmvercmp\<close>, \<open>rpmevrcmp\<close>,
  \<open>oval_version_cmp\<close>, \<open>strcmp\<close>, \<open>ipaddr_cmp\<close>): the sign of the result orders the arguments as a
  total preorder. A comparison that computes the comparison of keys in a linear order keeps it.
\<close>

definition cmp_of :: "'a::linorder \<Rightarrow> 'a \<Rightarrow> int" where
  "cmp_of x y = (if x = y then 0 else if x < y then -1 else 1)"

lemma cmp_of_simps [simp]:
  "cmp_of x x = 0"
  "cmp_of x y = 0 \<longleftrightarrow> x = y"
  "cmp_of x y = -1 \<longleftrightarrow> x < y"
  "cmp_of x y = 1 \<longleftrightarrow> y < x"
  "cmp_of x y \<le> 0 \<longleftrightarrow> x \<le> y"
  "0 \<le> cmp_of x y \<longleftrightarrow> y \<le> x"
  "cmp_of x y < 0 \<longleftrightarrow> x < y"
  "0 < cmp_of x y \<longleftrightarrow> y < x"
  by (auto simp: cmp_of_def)

lemma cmp_of_range: "cmp_of x y \<in> {-1, 0, 1}"
  by (simp add: cmp_of_def)

lemma cmp_of_swap: "cmp_of y x = - cmp_of x y"
  by (auto simp: cmp_of_def)

lemma cmp_of_Cons: "cmp_of (x # xs) (y # ys) = (if cmp_of x y = 0 then cmp_of xs ys else cmp_of x y)"
  by (auto simp: cmp_of_def)

lemma cmp_of_Pair: "cmp_of (a, b) (c, d) = (if cmp_of a c = 0 then cmp_of b d else cmp_of a c)"
  by (auto simp: cmp_of_def)

lemma cmp_of_option:
  "cmp_of None None = 0" "cmp_of (Some x) None = 1" "cmp_of None (Some y) = -1"
  "cmp_of (Some x) (Some y) = cmp_of x y"
  by (auto simp: cmp_of_def)

lemma strcmp_cmp_of: "strcmp s t = cmp_of s t"
  by (simp add: strcmp_def cmp_of_def)

locale comparator =
  fixes cmp :: "'a \<Rightarrow> 'a \<Rightarrow> int"
  assumes cmp_range: "cmp a b \<in> {-1, 0, 1}"
    and cmp_swap: "cmp b a = - cmp a b"
    and cmp_trans: "cmp a b \<le> 0 \<Longrightarrow> cmp b c \<le> 0 \<Longrightarrow> cmp a c \<le> 0"
begin

lemma cmp_refl: "cmp a a = 0"
  using cmp_swap [of a a] by linarith

lemma cmp_cases:
  obtains (lt) "cmp a b = -1" "cmp b a = 1" | (eq) "cmp a b = 0" "cmp b a = 0"
    | (gt) "cmp a b = 1" "cmp b a = -1"
  using cmp_range [of a b] cmp_swap [of a b] by auto

lemma cmp_eq_trans: "cmp a b = 0 \<Longrightarrow> cmp b c = 0 \<Longrightarrow> cmp a c = 0"
  using cmp_trans [of a b c] cmp_trans [of c b a] cmp_swap [of a b] cmp_swap [of b c] cmp_swap [of a c]
  by linarith

lemma cmp_less_trans:
  assumes "cmp a b = -1" and "cmp b c = -1"
  shows "cmp a c = -1"
proof -
  have "cmp a c \<le> 0" using assms cmp_trans [of a b c] by simp
  moreover have "cmp a c \<noteq> 0"
  proof
    assume "cmp a c = 0"
    then have "cmp c a \<le> 0" using cmp_swap [of a c] by simp
    with assms cmp_trans [of c a b] have "cmp c b \<le> 0" by simp
    with assms cmp_swap [of b c] show False by simp
  qed
  ultimately show ?thesis using cmp_range [of a c] by auto
qed

lemma cmp_congruent:
  assumes "cmp a b = 0"
  shows "cmp a c = cmp b c"
proof -
  have "cmp b a \<le> 0" "cmp a b \<le> 0" using assms cmp_swap [of a b] by auto
  then have "cmp a c \<le> 0 \<longleftrightarrow> cmp b c \<le> 0" "cmp c a \<le> 0 \<longleftrightarrow> cmp c b \<le> 0"
    using cmp_trans by blast+
  then show ?thesis
    using cmp_range [of a c] cmp_range [of b c] cmp_swap [of a c] cmp_swap [of b c] by auto
qed

end

text \<open>Comparing keys in a linear order keeps the contract.\<close>

lemma comparator_by_key:
  assumes "\<And>a b. cmp a b = cmp_of (key a) (key b)"
  shows "comparator cmp"
  by unfold_locales (use assms cmp_of_range cmp_of_swap in \<open>auto simp: assms\<close>)

interpretation strcmp_order: comparator strcmp
  by (rule comparator_by_key [of _ id]) (simp add: strcmp_cmp_of)

end
