(* ===== verification/Oval_Cmp.thy ===== *)
theory Oval_Cmp
  imports Comparator Oval_Types Oscap_Util
begin

unbundle bit_operations_syntax

text \<open>
  The comparisons of a state's value with a system's value:
  \<open>results/oval_cmp_basic.c\<close> (booleans, integers, floats, strings, binary data) and
  \<open>results/oval_cmp_evr_string.c\<close> (RPM versions and dotted version numbers). The regular
  expression library and the floating point comparison are parameters. Two empty
  versions reach the assertion at the end of \<open>oval_versiontype_cmp\<close> with an operation that is none on versions;
  the default build has no assertions, and the result is the error after it.
\<close>

section \<open>Basic values\<close>

definition oval_boolean_cmp :: "bool \<Rightarrow> bool \<Rightarrow> oval_operation_t \<Rightarrow> oval_result_t" where
  "oval_boolean_cmp state syschar operation =
     (case operation of
        OVAL_OPERATION_EQUALS \<Rightarrow> if state = syschar then OVAL_RESULT_TRUE else OVAL_RESULT_FALSE
      | OVAL_OPERATION_NOT_EQUAL \<Rightarrow> if state \<noteq> syschar then OVAL_RESULT_TRUE else OVAL_RESULT_FALSE
      | _ \<Rightarrow> OVAL_RESULT_ERROR)"

text \<open>The integers are values of \<open>intmax_t\<close>; the bitwise operations are those of two's complement.\<close>

definition oval_int_cmp :: "int \<Rightarrow> int \<Rightarrow> oval_operation_t \<Rightarrow> oval_result_t" where
  "oval_int_cmp state syschar operation =
     (case operation of
        OVAL_OPERATION_EQUALS \<Rightarrow> if state = syschar then OVAL_RESULT_TRUE else OVAL_RESULT_FALSE
      | OVAL_OPERATION_NOT_EQUAL \<Rightarrow> if state \<noteq> syschar then OVAL_RESULT_TRUE else OVAL_RESULT_FALSE
      | OVAL_OPERATION_GREATER_THAN \<Rightarrow> if syschar > state then OVAL_RESULT_TRUE else OVAL_RESULT_FALSE
      | OVAL_OPERATION_GREATER_THAN_OR_EQUAL \<Rightarrow> if syschar \<ge> state then OVAL_RESULT_TRUE else OVAL_RESULT_FALSE
      | OVAL_OPERATION_LESS_THAN \<Rightarrow> if syschar < state then OVAL_RESULT_TRUE else OVAL_RESULT_FALSE
      | OVAL_OPERATION_LESS_THAN_OR_EQUAL \<Rightarrow> if syschar \<le> state then OVAL_RESULT_TRUE else OVAL_RESULT_FALSE
      | OVAL_OPERATION_BITWISE_AND \<Rightarrow> if syschar AND state = state then OVAL_RESULT_TRUE else OVAL_RESULT_FALSE
      | OVAL_OPERATION_BITWISE_OR \<Rightarrow> if syschar OR state = state then OVAL_RESULT_TRUE else OVAL_RESULT_FALSE
      | _ \<Rightarrow> OVAL_RESULT_ERROR)"

definition oval_float_cmp :: "('d \<Rightarrow> 'd \<Rightarrow> int) \<Rightarrow> 'd \<Rightarrow> 'd \<Rightarrow> oval_operation_t \<Rightarrow> oval_result_t" where
  "oval_float_cmp cmp_float state_val sys_val operation =
     (if operation = OVAL_OPERATION_EQUALS then
        (if cmp_float sys_val state_val = 0 then OVAL_RESULT_TRUE else OVAL_RESULT_FALSE)
      else if operation = OVAL_OPERATION_NOT_EQUAL then
        (if cmp_float sys_val state_val \<noteq> 0 then OVAL_RESULT_TRUE else OVAL_RESULT_FALSE)
      else if operation = OVAL_OPERATION_GREATER_THAN then
        (if cmp_float sys_val state_val = 1 then OVAL_RESULT_TRUE else OVAL_RESULT_FALSE)
      else if operation = OVAL_OPERATION_GREATER_THAN_OR_EQUAL then
        (if cmp_float sys_val state_val \<ge> 0 then OVAL_RESULT_TRUE else OVAL_RESULT_FALSE)
      else if operation = OVAL_OPERATION_LESS_THAN then
        (if cmp_float sys_val state_val = -1 then OVAL_RESULT_TRUE else OVAL_RESULT_FALSE)
      else if operation = OVAL_OPERATION_LESS_THAN_OR_EQUAL then
        (if cmp_float sys_val state_val \<le> 0 then OVAL_RESULT_TRUE else OVAL_RESULT_FALSE)
      else OVAL_RESULT_ERROR)"

definition istrcmp :: "cstr \<Rightarrow> cstr \<Rightarrow> int" where
  "istrcmp st1 st2 =
     strcasecmp (case st1 of None \<Rightarrow> [] | Some a \<Rightarrow> a) (case st2 of None \<Rightarrow> [] | Some b \<Rightarrow> b)"

text \<open>
  \<open>strregcomp\<close> over PCRE: \<open>pcre pattern\<close> is None when the pattern does not compile, otherwise what
  \<open>pcre_exec\<close> returns on a subject.
\<close>

type_synonym pcre_engine = "string \<Rightarrow> (string \<Rightarrow> int) option"

definition strregcomp :: "pcre_engine \<Rightarrow> string \<Rightarrow> string \<Rightarrow> oval_result_t" where
  "strregcomp pcre pattern test_str =
     (case pcre pattern of
        None \<Rightarrow> OVAL_RESULT_ERROR
      | Some pcre_exec \<Rightarrow>
          (let ret = pcre_exec test_str in
           if ret > -1 then OVAL_RESULT_TRUE
           else if ret = -1 then OVAL_RESULT_FALSE
           else OVAL_RESULT_ERROR))"

definition oval_string_cmp :: "pcre_engine \<Rightarrow> string \<Rightarrow> cstr \<Rightarrow> oval_operation_t \<Rightarrow> oval_result_t" where
  "oval_string_cmp pcre state syschar operation =
     (let sys = (case syschar of None \<Rightarrow> [] | Some s \<Rightarrow> s) in
      case operation of
        OVAL_OPERATION_EQUALS \<Rightarrow>
          if oscap_strcmp (Some state) (Some sys) \<noteq> 0 then OVAL_RESULT_FALSE else OVAL_RESULT_TRUE
      | OVAL_OPERATION_CASE_INSENSITIVE_EQUALS \<Rightarrow>
          if istrcmp (Some state) (Some sys) \<noteq> 0 then OVAL_RESULT_FALSE else OVAL_RESULT_TRUE
      | OVAL_OPERATION_NOT_EQUAL \<Rightarrow>
          if oscap_strcmp (Some state) (Some sys) \<noteq> 0 then OVAL_RESULT_TRUE else OVAL_RESULT_FALSE
      | OVAL_OPERATION_CASE_INSENSITIVE_NOT_EQUAL \<Rightarrow>
          if istrcmp (Some state) (Some sys) \<noteq> 0 then OVAL_RESULT_TRUE else OVAL_RESULT_FALSE
      | OVAL_OPERATION_PATTERN_MATCH \<Rightarrow> strregcomp pcre state sys
      | _ \<Rightarrow> OVAL_RESULT_ERROR)"

definition oval_binary_cmp :: "cstr \<Rightarrow> cstr \<Rightarrow> oval_operation_t \<Rightarrow> oval_result_t" where
  "oval_binary_cmp state syschar operation =
     (case operation of
        OVAL_OPERATION_EQUALS \<Rightarrow> if istrcmp state syschar = 0 then OVAL_RESULT_TRUE else OVAL_RESULT_FALSE
      | OVAL_OPERATION_NOT_EQUAL \<Rightarrow> if istrcmp state syschar \<noteq> 0 then OVAL_RESULT_TRUE else OVAL_RESULT_FALSE
      | _ \<Rightarrow> OVAL_RESULT_ERROR)"

section \<open>RPM versions\<close>

definition rpmvercmp_end :: "string \<Rightarrow> string \<Rightarrow> int" where
  "rpmvercmp_end one two = (if one = [] \<and> two = [] then 0 else if one = [] then -1 else 1)"

lemma dropWhile_shorter: "xs \<noteq> [] \<Longrightarrow> takeWhile P xs \<noteq> [] \<Longrightarrow> length (dropWhile P xs) < length xs"
  by (cases xs) (auto simp: le_imp_less_Suc length_dropWhile_le split: if_splits)

lemma dropWhile_twice_shorter:
  "dropWhile Q xs \<noteq> [] \<Longrightarrow> takeWhile P (dropWhile Q xs) \<noteq> [] \<Longrightarrow>
   length (dropWhile P (dropWhile Q xs)) < length xs"
  by (meson dropWhile_shorter length_dropWhile_le less_le_trans)

text \<open>
  The loop of \<open>rpmvercmp\<close>. \<open>one\<close> and \<open>two\<close> are what is left of the two versions; a segment is cut
  off both, compared, and the loop goes on behind it.
\<close>

function rpmvercmp_loop :: "string \<Rightarrow> string \<Rightarrow> int" where
  "rpmvercmp_loop one two =
     (if one = [] \<or> two = [] then rpmvercmp_end one two
      else
        (let one1 = dropWhile (\<lambda>c. \<not> c_isalnum c) one;
             two1 = dropWhile (\<lambda>c. \<not> c_isalnum c) two
         in if one1 = [] \<or> two1 = [] then rpmvercmp_end one1 two1
            else
              (let isnum = c_isdigit (hd one1);
                   inseg = (if isnum then c_isdigit else c_isalpha);
                   seg1 = takeWhile inseg one1; str1 = dropWhile inseg one1;
                   seg2 = takeWhile inseg two1; str2 = dropWhile inseg two1
               in if seg1 = [] then -1
                  else if seg2 = [] then (if isnum then 1 else -1)
                  else
                    (let num1 = (if isnum then dropWhile (\<lambda>c. c = CHR ''0'') seg1 else seg1);
                         num2 = (if isnum then dropWhile (\<lambda>c. c = CHR ''0'') seg2 else seg2)
                     in if isnum \<and> length num1 > length num2 then 1
                        else if isnum \<and> length num2 > length num1 then -1
                        else
                          (let rc = strcmp num1 num2
                           in if rc \<noteq> 0 then (if rc < 1 then -1 else 1)
                              else rpmvercmp_loop str1 str2)))))"
  by pat_completeness auto

termination
  by (relation "measure (\<lambda>(one, two). length one + length two)")
     (auto simp: Let_def intro!: add_strict_mono dropWhile_twice_shorter)

declare rpmvercmp_loop.simps [simp del]

definition rpmvercmp :: "string \<Rightarrow> string \<Rightarrow> int" where
  "rpmvercmp a b = (if strcmp a b = 0 then 0 else rpmvercmp_loop a b)"

definition compare_values :: "cstr \<Rightarrow> cstr \<Rightarrow> int" where
  "compare_values str1 str2 =
     (case (str1, str2) of
        (None, None) \<Rightarrow> 0
      | (Some _, None) \<Rightarrow> 1
      | (None, Some _) \<Rightarrow> -1
      | (Some s, Some t) \<Rightarrow> rpmvercmp s t)"

text \<open>\<open>parseEVR\<close>: epoch, version and release of a package version \<open>epoch:version-release\<close>.\<close>

definition parseEVR :: "string \<Rightarrow> cstr \<times> cstr \<times> cstr" where
  "parseEVR evr =
     (let digits = takeWhile c_isdigit evr; s = dropWhile c_isdigit evr;
          se = c_strrchr s CHR ''-'';
          release = map_option snd se;
          upto = (case se of None \<Rightarrow> s | Some (before, _) \<Rightarrow> before)
      in if s \<noteq> [] \<and> hd s = CHR '':'' then
           (Some (if digits = [] then ''0'' else digits), Some (tl upto), release)
         else (None, Some (digits @ upto), release))"

definition rpmevrcmp :: "string \<Rightarrow> string \<Rightarrow> int" where
  "rpmevrcmp a b =
     (case (parseEVR a, parseEVR b) of
        ((a_epoch, a_version, a_release), (b_epoch, b_version, b_release)) \<Rightarrow>
          (let result = compare_values a_epoch b_epoch in
           if result = 0 then
             (let result = compare_values a_version b_version in
              if result = 0 then compare_values a_release b_release else result)
           else result))"

definition oval_evr_string_cmp :: "string \<Rightarrow> string \<Rightarrow> oval_operation_t \<Rightarrow> oval_result_t" where
  "oval_evr_string_cmp state sys operation =
     (let result = rpmevrcmp sys state in
      if operation = OVAL_OPERATION_EQUALS then
        (if result = 0 then OVAL_RESULT_TRUE else OVAL_RESULT_FALSE)
      else if operation = OVAL_OPERATION_NOT_EQUAL then
        (if result \<noteq> 0 then OVAL_RESULT_TRUE else OVAL_RESULT_FALSE)
      else if operation = OVAL_OPERATION_GREATER_THAN then
        (if result = 1 then OVAL_RESULT_TRUE else OVAL_RESULT_FALSE)
      else if operation = OVAL_OPERATION_GREATER_THAN_OR_EQUAL then
        (if result \<noteq> -1 then OVAL_RESULT_TRUE else OVAL_RESULT_FALSE)
      else if operation = OVAL_OPERATION_LESS_THAN then
        (if result = -1 then OVAL_RESULT_TRUE else OVAL_RESULT_FALSE)
      else if operation = OVAL_OPERATION_LESS_THAN_OR_EQUAL then
        (if result \<noteq> 1 then OVAL_RESULT_TRUE else OVAL_RESULT_FALSE)
      else OVAL_RESULT_ERROR)"

section \<open>Dotted versions\<close>

text \<open>
  Moving behind the current field of \<open>oval_versiontype_cmp\<close>: one character, the digits that
  follow, and one character more that is not a digit.
\<close>

definition next_field :: "string \<Rightarrow> string" where
  "next_field s = (case s of [] \<Rightarrow> [] | _ # r \<Rightarrow> (case dropWhile c_isdigit r of [] \<Rightarrow> [] | _ # r' \<Rightarrow> r'))"

lemma next_field_shorter: "s \<noteq> [] \<Longrightarrow> length (next_field s) < length s"
  by (cases s) (auto simp: next_field_def split: list.splits
      dest!: arg_cong [where f = length] intro: le_less_trans length_dropWhile_le
      simp: less_Suc_eq_le, metis Suc_leD length_dropWhile_le)

lemma next_field_le: "length (next_field s) \<le> length s"
  using next_field_shorter [of s] by (cases s) (auto simp: next_field_def)

function versiontype_loop :: "string \<Rightarrow> string \<Rightarrow> oval_operation_t \<Rightarrow> oval_result_t" where
  "versiontype_loop state syschar operation =
     (if state \<noteq> [] \<or> syschar \<noteq> [] then
        (let tmp_state_int = atoi state; tmp_sys_int = atoi syschar;
             next = versiontype_loop (next_field state) (next_field syschar) operation
         in if operation = OVAL_OPERATION_EQUALS then
              (if tmp_state_int \<noteq> tmp_sys_int then OVAL_RESULT_FALSE else next)
            else if operation = OVAL_OPERATION_NOT_EQUAL then
              (if tmp_state_int \<noteq> tmp_sys_int then OVAL_RESULT_TRUE else next)
            else if operation = OVAL_OPERATION_GREATER_THAN \<or> operation = OVAL_OPERATION_GREATER_THAN_OR_EQUAL then
              (if tmp_sys_int > tmp_state_int then OVAL_RESULT_TRUE
               else if tmp_sys_int < tmp_state_int then OVAL_RESULT_FALSE
               else next)
            else if operation = OVAL_OPERATION_LESS_THAN \<or> operation = OVAL_OPERATION_LESS_THAN_OR_EQUAL then
              (if tmp_sys_int < tmp_state_int then OVAL_RESULT_TRUE
               else if tmp_sys_int > tmp_state_int then OVAL_RESULT_FALSE
               else next)
            else OVAL_RESULT_ERROR)
      else if operation = OVAL_OPERATION_EQUALS then OVAL_RESULT_TRUE
      else if operation = OVAL_OPERATION_NOT_EQUAL then OVAL_RESULT_FALSE
      else if operation = OVAL_OPERATION_GREATER_THAN then OVAL_RESULT_FALSE
      else if operation = OVAL_OPERATION_GREATER_THAN_OR_EQUAL then OVAL_RESULT_TRUE
      else if operation = OVAL_OPERATION_LESS_THAN then OVAL_RESULT_FALSE
      else if operation = OVAL_OPERATION_LESS_THAN_OR_EQUAL then OVAL_RESULT_TRUE
      else OVAL_RESULT_ERROR)"
  by pat_completeness auto
termination
  by (relation "measure (\<lambda>(state, syschar, _). length state + length syschar)")
     (auto intro: add_less_le_mono add_le_less_mono next_field_shorter next_field_le)

declare versiontype_loop.simps [simp del]

definition oval_versiontype_cmp :: "string \<Rightarrow> string \<Rightarrow> oval_operation_t \<Rightarrow> oval_result_t" where
  "oval_versiontype_cmp state syschar operation = versiontype_loop state syschar operation"

section \<open>What the ordering operations mean\<close>

text \<open>
  The common specification: an operation on two ordered values depends on the sign of the comparison
  of the system's value with the state's value.
\<close>

definition order_result :: "oval_operation_t \<Rightarrow> int \<Rightarrow> oval_result_t" where
  "order_result operation c =
     (let res = (\<lambda>b. if b then OVAL_RESULT_TRUE else OVAL_RESULT_FALSE) in
      case operation of
        OVAL_OPERATION_EQUALS \<Rightarrow> res (c = 0)
      | OVAL_OPERATION_NOT_EQUAL \<Rightarrow> res (c \<noteq> 0)
      | OVAL_OPERATION_GREATER_THAN \<Rightarrow> res (c > 0)
      | OVAL_OPERATION_GREATER_THAN_OR_EQUAL \<Rightarrow> res (c \<ge> 0)
      | OVAL_OPERATION_LESS_THAN \<Rightarrow> res (c < 0)
      | OVAL_OPERATION_LESS_THAN_OR_EQUAL \<Rightarrow> res (c \<le> 0)
      | _ \<Rightarrow> OVAL_RESULT_ERROR)"

definition ordering_operations :: "oval_operation_t set" where
  "ordering_operations =
     {OVAL_OPERATION_EQUALS, OVAL_OPERATION_NOT_EQUAL, OVAL_OPERATION_GREATER_THAN,
      OVAL_OPERATION_GREATER_THAN_OR_EQUAL, OVAL_OPERATION_LESS_THAN, OVAL_OPERATION_LESS_THAN_OR_EQUAL}"

lemma int_cmp_order:
  "operation \<in> ordering_operations \<Longrightarrow>
   oval_int_cmp state sys operation = order_result operation (cmp_of sys state)"
  by (auto simp: ordering_operations_def oval_int_cmp_def order_result_def Let_def)

lemma float_cmp_order:
  assumes "cmp_float sys state \<in> {-1, 0, 1}"
  shows "oval_float_cmp cmp_float state sys operation = order_result operation (cmp_float sys state)"
  using assms by (cases operation) (auto simp: oval_float_cmp_def order_result_def Let_def)

lemma evr_cmp_order:
  assumes "rpmevrcmp sys state \<in> {-1, 0, 1}"
  shows "oval_evr_string_cmp state sys operation = order_result operation (rpmevrcmp sys state)"
  using assms by (cases operation) (auto simp: oval_evr_string_cmp_def order_result_def Let_def)

section \<open>Dotted versions are lists of numbers\<close>

definition dotted :: "nat list \<Rightarrow> string" where
  "dotted ns = c_join CHR ''.'' (map show_nat ns)"

definition field_value :: "nat list \<Rightarrow> nat" where
  "field_value ns = (case ns of [] \<Rightarrow> 0 | n # _ \<Rightarrow> n)"

lemma dotted_empty [simp]: "dotted ns = [] \<longleftrightarrow> ns = []"
proof (cases ns)
  case (Cons n ms)
  then show ?thesis by (cases ms) (auto simp: dotted_def)
qed (simp add: dotted_def)

lemma atoi_dotted: "list_all (\<lambda>n. n < 2 ^ 31) ns \<Longrightarrow> atoi (dotted ns) = int (field_value ns)"
proof (cases ns)
  case Nil
  then show ?thesis by (simp add: dotted_def field_value_def atoi_def strtol64_def strtol_exact_def)
next
  case (Cons n ms)
  assume b: "list_all (\<lambda>n. n < 2 ^ 31) ns"
  show ?thesis
  proof (cases "ms = []")
    case True
    with b Cons show ?thesis
      using atoi_show_nat [of n "[]"] by (simp add: dotted_def field_value_def)
  next
    case False
    have "\<not> c_isdigit CHR ''.''" by (simp add: c_isdigit_def char_bounds)
    with False b Cons show ?thesis
      using atoi_show_nat [of n "CHR ''.'' # c_join CHR ''.'' (map show_nat ms)"]
      by (simp add: dotted_def field_value_def c_join_Cons)
  qed
qed

lemma next_field_dotted: "next_field (dotted ns) = dotted (tl ns)"
proof (cases ns)
  case (Cons n ms)
  obtain d ds where d: "show_nat n = d # ds" using show_nat_hd_digit by blast
  have ds: "\<forall>c \<in> set ds. c_isdigit c" using show_nat_digits [of _ n] d by auto
  have nd: "\<not> c_isdigit CHR ''.''" by (simp add: c_isdigit_def char_bounds)
  show ?thesis
  proof (cases "ms = []")
    case True
    with ds show ?thesis by (simp add: dotted_def next_field_def Cons d dropWhile_eq_Nil_conv [THEN iffD2])
  next
    case False
    with ds nd show ?thesis
      by (simp add: dotted_def next_field_def Cons d c_join_Cons dropWhile_append2)
  qed
qed (simp add: dotted_def next_field_def)

text \<open>Comparing two lists of numbers of different lengths: the shorter one goes on with zeros.\<close>

definition padded_cmp :: "nat list \<Rightarrow> nat list \<Rightarrow> int" where
  "padded_cmp ms ns = cmp_of (ms @ replicate (length ns - length ms) 0) (ns @ replicate (length ms - length ns) 0)"

lemma padded_cmp_step:
  "padded_cmp ms ns = (if ms = [] \<and> ns = [] then 0
     else if field_value ms = field_value ns then padded_cmp (tl ms) (tl ns)
     else cmp_of (field_value ms) (field_value ns))"
  by (cases ms; cases ns) (auto simp: padded_cmp_def field_value_def cmp_of_Cons)

lemma versiontype_dotted:
  assumes "list_all (\<lambda>n. n < 2 ^ 31) ms" and "list_all (\<lambda>n. n < 2 ^ 31) ns"
    and "operation \<in> ordering_operations"
  shows "oval_versiontype_cmp (dotted ms) (dotted ns) operation = order_result operation (padded_cmp ns ms)"
  using assms(1,2) unfolding oval_versiontype_cmp_def
proof (induction "length ms + length ns" arbitrary: ms ns rule: less_induct)
  case less
  show ?case
  proof (cases "ms = [] \<and> ns = []")
    case True
    with assms(3) show ?thesis
      by (auto simp: versiontype_loop.simps dotted_def padded_cmp_def ordering_operations_def
          order_result_def Let_def)
  next
    case False
    have ih: "versiontype_loop (dotted (tl ms)) (dotted (tl ns)) operation
        = order_result operation (padded_cmp (tl ns) (tl ms))"
    proof (rule less.hyps)
      show "length (tl ms) + length (tl ns) < length ms + length ns"
        using False by (cases ms; cases ns) auto
    qed (use less.prems in \<open>cases ms; cases ns; simp\<close>)+
    have v: "atoi (dotted ms) = int (field_value ms)" "atoi (dotted ns) = int (field_value ns)"
      using less.prems by (simp_all add: atoi_dotted)
    from False assms(3) show ?thesis
      unfolding ordering_operations_def
      by (subst versiontype_loop.simps, subst padded_cmp_step)
        (auto simp: v next_field_dotted ih order_result_def Let_def cmp_of_def)
  qed
qed

section \<open>Properties\<close>



end
