(* ===== verification/Oval_Evr.thy ===== *)
theory Oval_Evr
  imports Oval_Cmp
begin

text \<open>
  What the comparison of RPM versions means: a version is a list of segments in a linear order,
  and \<open>rpmvercmp\<close> compares the lists lexicographically. Numeric segments count as numbers of any
  size, are newer than alphabetic ones, and the separators between segments do not matter, except
  that a version with trailing separators is newer than the same version without them.
\<close>

datatype rpm_token = TEnd | TAlpha string | TNum nat

fun token_key :: "rpm_token \<Rightarrow> nat \<times> nat \<times> string" where
  "token_key TEnd = (0, 0, [])"
| "token_key (TAlpha s) = (1, 0, s)"
| "token_key (TNum n) = (2, n, [])"

lemma token_key_inj: "token_key t = token_key u \<Longrightarrow> t = u"
  by (cases t; cases u) auto

instantiation rpm_token :: linorder
begin

definition less_eq_rpm_token :: "rpm_token \<Rightarrow> rpm_token \<Rightarrow> bool" where
  "less_eq_rpm_token t u \<longleftrightarrow> token_key t \<le> token_key u"

definition less_rpm_token :: "rpm_token \<Rightarrow> rpm_token \<Rightarrow> bool" where
  "less_rpm_token t u \<longleftrightarrow> token_key t < token_key u"

instance
  by standard (auto simp: less_eq_rpm_token_def less_rpm_token_def dest: token_key_inj)

end

lemma token_less [simp]:
  "TEnd < TAlpha s" "TEnd < TNum n" "TAlpha s < TNum n" "\<not> TNum n < TAlpha s"
  "TAlpha s < TAlpha t \<longleftrightarrow> s < t" "TNum n < TNum m \<longleftrightarrow> n < m" "\<not> u < TEnd"
  by (simp_all add: less_rpm_token_def) (cases u; simp)

lemma cmp_of_token:
  "cmp_of (TAlpha s) (TAlpha t) = cmp_of s t" "cmp_of (TNum n) (TNum m) = cmp_of n m"
  "cmp_of (TAlpha s) (TNum n) = -1" "cmp_of (TNum n) (TAlpha s) = 1"
  by (auto simp: cmp_of_def)

definition num_val :: "string \<Rightarrow> nat" where
  "num_val ds = fst (parse_digits 0 ds)"

lemma first_alnum: "dropWhile (\<lambda>c. \<not> c_isalnum c) s \<noteq> [] \<Longrightarrow> c_isalnum (hd (dropWhile (\<lambda>c. \<not> c_isalnum c) s))"
  using hd_dropWhile [of "\<lambda>c. \<not> c_isalnum c" s] by auto

lemma first_segment:
  assumes "dropWhile (\<lambda>c. \<not> c_isalnum c) s \<noteq> []"
  shows "if c_isdigit (hd (dropWhile (\<lambda>c. \<not> c_isalnum c) s))
     then takeWhile c_isdigit (dropWhile (\<lambda>c. \<not> c_isalnum c) s) \<noteq> []
        \<and> takeWhile c_isalpha (dropWhile (\<lambda>c. \<not> c_isalnum c) s) = []
     else takeWhile c_isalpha (dropWhile (\<lambda>c. \<not> c_isalnum c) s) \<noteq> []
        \<and> takeWhile c_isdigit (dropWhile (\<lambda>c. \<not> c_isalnum c) s) = []"
proof -
  obtain x xs where x: "dropWhile (\<lambda>c. \<not> c_isalnum c) s = x # xs"
    using assms by (meson neq_Nil_conv)
  then have "c_isalnum x" using first_alnum [of s] by simp
  then have "c_isdigit x \<and> \<not> c_isalpha x \<or> \<not> c_isdigit x \<and> c_isalpha x" by blast
  then show ?thesis unfolding x by auto
qed

function rpm_tokens :: "string \<Rightarrow> rpm_token list" where
  "rpm_tokens s =
     (if s = [] then []
      else
        (let s1 = dropWhile (\<lambda>c. \<not> c_isalnum c) s in
         if s1 = [] then [TEnd]
         else if c_isdigit (hd s1) then
           TNum (num_val (takeWhile c_isdigit s1)) # rpm_tokens (dropWhile c_isdigit s1)
         else TAlpha (takeWhile c_isalpha s1) # rpm_tokens (dropWhile c_isalpha s1)))"
  by pat_completeness auto

termination
proof (relation "measure length", goal_cases)
  case (2 s s1)
  then show ?case
    using dropWhile_twice_shorter [of "\<lambda>c. \<not> c_isalnum c" s c_isdigit] first_segment [of s] by simp
next
  case (3 s s1)
  then show ?case
    using dropWhile_twice_shorter [of "\<lambda>c. \<not> c_isalnum c" s c_isalpha] first_segment [of s] by simp
qed simp

declare rpm_tokens.simps [simp del]

section \<open>Numeric segments\<close>

lemma parse_digits_acc:
  "list_all c_isdigit ds \<Longrightarrow> fst (parse_digits acc ds) = acc * 10 ^ length ds + fst (parse_digits 0 ds)"
proof (induction ds arbitrary: acc)
  case (Cons d ds)
  then have ds: "list_all c_isdigit ds" and d: "c_isdigit d" by auto
  have "fst (parse_digits acc (d # ds)) = (10 * acc + digit_val d) * 10 ^ length ds + fst (parse_digits 0 ds)"
    unfolding parse_digits.simps using d Cons.IH [OF ds, of "10 * acc + digit_val d"] by (simp only: if_True)
  moreover have "fst (parse_digits 0 (d # ds)) = (10 * 0 + digit_val d) * 10 ^ length ds + fst (parse_digits 0 ds)"
    unfolding parse_digits.simps using d Cons.IH [OF ds, of "10 * 0 + digit_val d"] by (simp only: if_True)
  ultimately show ?case by (simp add: algebra_simps)
qed simp

lemma num_val_Cons:
  "c_isdigit d \<Longrightarrow> list_all c_isdigit ds \<Longrightarrow> num_val (d # ds) = digit_val d * 10 ^ length ds + num_val ds"
  using parse_digits_acc [of ds "digit_val d"] by (simp add: num_val_def)

lemma num_val_Nil [simp]: "num_val [] = 0"
  by (simp add: num_val_def)

lemma digit_val_le_9: "c_isdigit d \<Longrightarrow> digit_val d \<le> 9"
  by (auto simp: c_isdigit_def digit_val_def char_bounds)

lemma digit_val_less: "c_isdigit d \<Longrightarrow> c_isdigit e \<Longrightarrow> digit_val d < digit_val e \<longleftrightarrow> d < e"
  by (auto simp: c_isdigit_def digit_val_def char_bounds)

lemma digit_val_pos: "c_isdigit d \<Longrightarrow> d \<noteq> CHR ''0'' \<Longrightarrow> 1 \<le> digit_val d"
proof -
  assume d: "c_isdigit d" "d \<noteq> CHR ''0''"
  then have "CHR ''0'' < d" by (simp add: c_isdigit_def order.not_eq_order_implies_strict)
  then show ?thesis by (simp add: digit_val_def char_bounds)
qed

lemma num_val_less: "list_all c_isdigit ds \<Longrightarrow> num_val ds < 10 ^ length ds"
proof (induction ds)
  case (Cons d ds)
  then have "num_val (d # ds) < digit_val d * 10 ^ length ds + 10 ^ length ds"
    by (simp add: num_val_Cons)
  also have "\<dots> \<le> 10 * 10 ^ length ds"
    using digit_val_le_9 [of d] Cons.prems mult_le_mono1 [of "digit_val d + 1" 10 "10 ^ length ds"]
    by simp
  finally show ?case by simp
qed simp

lemma num_val_strip: "list_all c_isdigit ds \<Longrightarrow> num_val (dropWhile (\<lambda>c. c = CHR ''0'') ds) = num_val ds"
proof (induction ds)
  case (Cons d ds)
  then show ?case by (auto simp: num_val_Cons) (simp add: digit_val_def)
qed simp

lemma num_val_ge:
  "list_all c_isdigit (d # ds) \<Longrightarrow> d \<noteq> CHR ''0'' \<Longrightarrow> 10 ^ length ds \<le> num_val (d # ds)"
  using digit_val_pos [of d] mult_le_mono1 [of 1 "digit_val d" "10 ^ length ds"]
  by (simp add: num_val_Cons trans_le_add1)

lemma num_val_longer:
  assumes "list_all c_isdigit ds" "list_all c_isdigit es" "length es < length ds"
    and "ds \<noteq> [] \<longrightarrow> hd ds \<noteq> CHR ''0''"
  shows "num_val es < num_val ds"
proof -
  obtain d ds' where d: "ds = d # ds'" using assms(3) by (cases ds) auto
  have "num_val es < 10 ^ length es" by (rule num_val_less [OF assms(2)])
  also have "\<dots> \<le> 10 ^ length ds'" using assms(3) d by (intro power_increasing) auto
  also have "\<dots> \<le> num_val ds" using assms d by (auto intro: num_val_ge)
  finally show ?thesis .
qed

lemma num_val_same_length:
  "list_all c_isdigit ds \<Longrightarrow> list_all c_isdigit es \<Longrightarrow> length ds = length es \<Longrightarrow>
   cmp_of (num_val ds) (num_val es) = cmp_of ds es"
proof (induction ds arbitrary: es)
  case (Cons d ds)
  then obtain e es' where e: "es = e # es'" by (cases es) auto
  let ?k = "10 ^ length ds :: nat"
  have l: "length es' = length ds" using Cons.prems e by simp
  have b: "num_val ds < ?k" "num_val es' < ?k"
    using num_val_less [of ds] num_val_less [of es'] Cons.prems e by auto
  have v: "num_val (d # ds) = digit_val d * ?k + num_val ds" "num_val es = digit_val e * ?k + num_val es'"
    using Cons.prems e by (auto simp: num_val_Cons)
  have dig: "c_isdigit d" "c_isdigit e" using Cons.prems e by auto
  have strict: "x * ?k + u < y * ?k + w" if "x < y" "u < ?k" for x y u w :: nat
    using that mult_le_mono1 [of "Suc x" y ?k] by simp
  show ?case
  proof (cases d e rule: linorder_cases)
    case less
    then have "num_val (d # ds) < num_val es"
      using strict [OF _ b(1)] digit_val_less [OF dig] by (simp add: v)
    with less show ?thesis by (auto simp: cmp_of_def e)
  next
    case equal
    have ih: "cmp_of (num_val ds) (num_val es') = cmp_of ds es'"
      by (rule Cons.IH) (use Cons.prems e in auto)
    have "num_val ds = num_val es' \<longleftrightarrow> ds = es'" "num_val ds < num_val es' \<longleftrightarrow> ds < es'"
      using ih by (metis cmp_of_simps(2), metis cmp_of_simps(3))
    then have "num_val (d # ds) = num_val es \<longleftrightarrow> d # ds = es" "num_val (d # ds) < num_val es \<longleftrightarrow> d # ds < es"
      unfolding v using equal by (simp_all add: e)
    then show ?thesis by (simp only: cmp_of_def)
  next
    case greater
    then have "num_val es < num_val (d # ds)"
      using strict [OF _ b(2)] digit_val_less [OF dig(2,1)] by (simp add: v)
    with greater show ?thesis by (auto simp: cmp_of_def e)
  qed
qed simp

section \<open>The comparison is the comparison of segment lists\<close>

lemma rpm_tokens_Nil [simp]: "rpm_tokens [] = []"
  by (simp add: rpm_tokens.simps)

lemma rpm_tokens_nonempty: "s \<noteq> [] \<Longrightarrow> rpm_tokens s \<noteq> []"
  by (subst rpm_tokens.simps) (simp add: Let_def)

lemma rpmvercmp_end_tokens:
  "rpmvercmp_end one two = (if one = [] \<and> two = [] then 0 else if one = [] then -1 else 1)"
  by (rule rpmvercmp_end_def)

lemma num_segments:
  assumes "list_all c_isdigit s1" "list_all c_isdigit s2"
  defines "n1 \<equiv> dropWhile (\<lambda>c. c = CHR ''0'') s1" and "n2 \<equiv> dropWhile (\<lambda>c. c = CHR ''0'') s2"
  shows "(if length n1 > length n2 then 1 else if length n2 > length n1 then -1 else strcmp n1 n2)
     = cmp_of (num_val s1) (num_val s2)"
proof -
  have d: "list_all c_isdigit n1" "list_all c_isdigit n2"
    using assms set_dropWhileD by (fastforce simp: list_all_iff)+
  have h: "n1 \<noteq> [] \<longrightarrow> hd n1 \<noteq> CHR ''0''" "n2 \<noteq> [] \<longrightarrow> hd n2 \<noteq> CHR ''0''"
    unfolding n1_def n2_def using hd_dropWhile by blast+
  have v: "num_val s1 = num_val n1" "num_val s2 = num_val n2"
    unfolding n1_def n2_def using assms(1,2) by (simp_all add: num_val_strip)
  show ?thesis
  proof (cases "length n1" "length n2" rule: linorder_cases)
    case less
    with num_val_longer [OF d(2,1) less h(2)] show ?thesis by (simp add: v cmp_of_def)
  next
    case equal
    with num_val_same_length [OF d equal] show ?thesis by (simp add: v strcmp_cmp_of)
  next
    case greater
    with num_val_longer [OF d greater h(1)] show ?thesis by (simp add: v cmp_of_def)
  qed
qed

lemma three_way_code:
  assumes "(if P then 1 else if Q then -1 else r) = (c :: int)" and "r \<in> {-1, 0, 1}"
  shows "(if P then 1 else if Q then -1 else if r \<noteq> 0 then (if r < 1 then -1 else 1) else k)
     = (if c = 0 then k else c)"
  using assms by (auto split: if_splits)

lemma num_segments_code:
  assumes "list_all c_isdigit s1" "list_all c_isdigit s2"
  defines "n1 \<equiv> dropWhile (\<lambda>c. c = CHR ''0'') s1" and "n2 \<equiv> dropWhile (\<lambda>c. c = CHR ''0'') s2"
  shows "(if length n1 > length n2 then 1 else if length n2 > length n1 then -1
      else if strcmp n1 n2 \<noteq> 0 then (if strcmp n1 n2 < 1 then -1 else 1) else k)
     = (if cmp_of (num_val s1) (num_val s2) = 0 then k else cmp_of (num_val s1) (num_val s2))"
  unfolding n1_def n2_def by (rule three_way_code [OF num_segments [OF assms(1,2)] strcmp_range])

lemma strcmp_code:
  "(if strcmp s t \<noteq> 0 then (if strcmp s t < 1 then -1 else 1) else k)
     = (if cmp_of s t = 0 then k else cmp_of s t)"
  by (auto simp: strcmp_cmp_of cmp_of_def)

lemma cmp_of_Nil:
  "cmp_of [] (y # ys) = -1" "cmp_of (x # xs) [] = 1" for x y :: "'a :: linorder"
  by (simp_all add: cmp_of_def)

lemma rpmvercmp_loop_tokens: "rpmvercmp_loop one two = cmp_of (rpm_tokens one) (rpm_tokens two)"
proof (induction "length one + length two" arbitrary: one two rule: less_induct)
  case less
  define o1 where "o1 = dropWhile (\<lambda>c. \<not> c_isalnum c) one"
  define t1 where "t1 = dropWhile (\<lambda>c. \<not> c_isalnum c) two"
  note unfold = rpmvercmp_loop.simps [of one two] rpm_tokens.simps [of one] rpm_tokens.simps [of two]
    o1_def [symmetric] t1_def [symmetric]
  consider "one = [] \<or> two = []" | "one \<noteq> []" "two \<noteq> []" "o1 = [] \<or> t1 = []"
    | "one \<noteq> []" "two \<noteq> []" "o1 \<noteq> []" "t1 \<noteq> []" by blast
  then show ?case
  proof cases
    case 1
    then show ?thesis
      using rpm_tokens_nonempty [of one] rpm_tokens_nonempty [of two]
      by (auto simp: rpmvercmp_loop.simps [of one two] rpmvercmp_end_def neq_Nil_conv cmp_of_Nil)
  next
    case 2
    then show ?thesis
      by (auto simp: unfold Let_def rpmvercmp_end_def cmp_of_Cons) (auto simp: cmp_of_def)
  next
    case 3
    have o: "if c_isdigit (hd o1) then takeWhile c_isdigit o1 \<noteq> [] \<and> takeWhile c_isalpha o1 = []
        else takeWhile c_isalpha o1 \<noteq> [] \<and> takeWhile c_isdigit o1 = []"
      and t: "if c_isdigit (hd t1) then takeWhile c_isdigit t1 \<noteq> [] \<and> takeWhile c_isalpha t1 = []
        else takeWhile c_isalpha t1 \<noteq> [] \<and> takeWhile c_isdigit t1 = []"
      using first_segment 3 by (simp_all add: o1_def t1_def)
    have ih: "rpmvercmp_loop (dropWhile P o1) (dropWhile P t1)
        = cmp_of (rpm_tokens (dropWhile P o1)) (rpm_tokens (dropWhile P t1))"
      if "takeWhile P o1 \<noteq> []" "takeWhile P t1 \<noteq> []" for P
      using that 3 unfolding o1_def t1_def
      by (intro less add_strict_mono dropWhile_twice_shorter)
    note facts = 3 o1_def [symmetric] t1_def [symmetric] Let_def if_True if_False simp_thms
    show ?thesis
    proof (cases "c_isdigit (hd o1)")
      case True
      have d: "list_all c_isdigit (takeWhile c_isdigit o1)" "list_all c_isdigit (takeWhile c_isdigit t1)"
        by (auto simp: list_all_iff dest: set_takeWhileD)
      show ?thesis
      proof (cases "c_isdigit (hd t1)")
        case True
        with \<open>c_isdigit (hd o1)\<close> o t have h: "c_isdigit (hd o1)" "c_isdigit (hd t1)"
          "takeWhile c_isdigit o1 \<noteq> []" "takeWhile c_isdigit t1 \<noteq> []" by simp_all
        have "rpmvercmp_loop one two
            = (if cmp_of (num_val (takeWhile c_isdigit o1)) (num_val (takeWhile c_isdigit t1)) = 0
               then rpmvercmp_loop (dropWhile c_isdigit o1) (dropWhile c_isdigit t1)
               else cmp_of (num_val (takeWhile c_isdigit o1)) (num_val (takeWhile c_isdigit t1)))"
          by (subst rpmvercmp_loop.simps) (simp only: facts h num_segments_code [OF d])
        with 3 h ih [OF h(3,4)] show ?thesis
          by (simp add: rpm_tokens.simps [of one] rpm_tokens.simps [of two] facts cmp_of_Cons cmp_of_token)
      next
        case False
        with \<open>c_isdigit (hd o1)\<close> o t 3 show ?thesis
          by (simp add: unfold Let_def cmp_of_Cons cmp_of_token)
      qed
    next
      case False
      show ?thesis
      proof (cases "c_isdigit (hd t1)")
        case True
        with \<open>\<not> c_isdigit (hd o1)\<close> o t 3 show ?thesis
          by (simp add: unfold Let_def cmp_of_Cons cmp_of_token)
      next
        case False
        with \<open>\<not> c_isdigit (hd o1)\<close> o t have h: "\<not> c_isdigit (hd o1)" "\<not> c_isdigit (hd t1)"
          "takeWhile c_isalpha o1 \<noteq> []" "takeWhile c_isalpha t1 \<noteq> []" by simp_all
        have "rpmvercmp_loop one two
            = (if cmp_of (takeWhile c_isalpha o1) (takeWhile c_isalpha t1) = 0
               then rpmvercmp_loop (dropWhile c_isalpha o1) (dropWhile c_isalpha t1)
               else cmp_of (takeWhile c_isalpha o1) (takeWhile c_isalpha t1))"
          by (subst rpmvercmp_loop.simps) (simp only: facts h strcmp_code)
        with 3 h ih [OF h(3,4)] show ?thesis
          by (simp add: rpm_tokens.simps [of one] rpm_tokens.simps [of two] facts cmp_of_Cons cmp_of_token)
      qed
    qed
  qed
qed

lemma rpmvercmp_tokens: "rpmvercmp a b = cmp_of (rpm_tokens a) (rpm_tokens b)"
  by (simp add: rpmvercmp_def rpmvercmp_loop_tokens)

interpretation rpmvercmp_order: comparator rpmvercmp
  by (rule comparator_by_key [OF rpmvercmp_tokens])

text \<open>Epoch, version and release: a missing part is older than any part.\<close>

definition evr_key :: "string \<Rightarrow> rpm_token list option \<times> rpm_token list option \<times> rpm_token list option" where
  "evr_key evr = (case parseEVR evr of (e, v, r) \<Rightarrow>
     (map_option rpm_tokens e, map_option rpm_tokens v, map_option rpm_tokens r))"

lemma compare_values_tokens:
  "compare_values a b = cmp_of (map_option rpm_tokens a) (map_option rpm_tokens b)"
  by (cases a; cases b) (simp_all add: compare_values_def cmp_of_option rpmvercmp_tokens)

lemma rpmevrcmp_key: "rpmevrcmp a b = cmp_of (evr_key a) (evr_key b)"
  by (simp add: rpmevrcmp_def evr_key_def Let_def compare_values_tokens cmp_of_Pair split: prod.split)

interpretation rpmevrcmp_order: comparator rpmevrcmp
  by (rule comparator_by_key [OF rpmevrcmp_key])

section \<open>Properties\<close>

text \<open>
  C12. \<open>rpmvercmp\<close> orders versions: its result is -1, 0 or 1, exchanging the versions negates it, it is
  transitive, and it is the lexicographic comparison of the lists of segments, in which numeric
  segments count as numbers of any size and are newer than alphabetic segments.
\<close>

theorem rpmvercmp_correct:
  "rpmvercmp a b = cmp_of (rpm_tokens a) (rpm_tokens b)
   \<and> rpmvercmp b a = - rpmvercmp a b
   \<and> (rpmvercmp a b \<le> 0 \<and> rpmvercmp b c \<le> 0 \<longrightarrow> rpmvercmp a c \<le> 0)
   \<and> (rpmvercmp a b = 0 \<longrightarrow> rpmvercmp a c = rpmvercmp b c)"
  using rpmvercmp_tokens rpmvercmp_order.cmp_swap rpmvercmp_order.cmp_trans rpmvercmp_order.cmp_congruent
  by blast

theorem rpmvercmp_correct_witness:
  "rpmvercmp ''1.0'' ''1..0'' = 0 \<and> rpmvercmp ''1.0'' ''1.00a'' = rpmvercmp ''1..0'' ''1.00a''"
proof -
  have "rpmvercmp ''1.0'' ''1..0'' = 0" by code_simp
  with rpmvercmp_correct [of "''1.0''" "''1..0''" "''1.00a''"] show ?thesis by blast
qed

text \<open>
  C15. The comparison of package versions decides every ordering operation by the keys of epoch,
  version and release: a missing epoch or release is older than any, the epoch decides before the
  version and the version before the release.
\<close>

theorem evr_correct:
  "oval_evr_string_cmp state sys operation = order_result operation (cmp_of (evr_key sys) (evr_key state))"
  using evr_cmp_order [OF rpmevrcmp_order.cmp_range] by (simp add: rpmevrcmp_key)

end
