(* ===== verification/Oval_Cmp_Ip.thy ===== *)
theory Oval_Cmp_Ip
  imports Oval_Cmp "HOL-Library.Signed_Division"
begin

unbundle bit_operations_syntax

text \<open>
  \<open>results/oval_cmp_ip_address.c\<close>: comparing IP addresses with netmasks. \<open>inet_pton\<close> is a parameter
  for each family: an IPv4 address is the 32-bit number in network order (so that \<open>memcmp\<close> on the four
  bytes is the order of the numbers), an IPv6 address the list of its sixteen bytes.

  Results of option type are None where the source leaves what C defines: reading the uninitialised
  \<open>nm\<close> after a failed \<open>sscanf\<close>, shifting a 32-bit value by a count outside 0..31, writing before the
  address. Two assertions can fail on the content of a document: that a prefix of an IPv6 address is at
  most 128, and that the operation is one of those listed. The default build compiles them out (\<open>NDEBUG\<close>),
  and the model follows it: the loop of the mask has no byte to change, and the result stays the error.
\<close>

datatype address_family = AF_INET | AF_INET6

datatype ip_address = In4 "32 word" | In6 "8 word list"

section \<open>Parsing addresses and masks\<close>

text \<open>\<open>%hhu\<close>: \<open>strtoul\<close>, cut to one byte; a number too large for \<open>unsigned long\<close> is \<open>ULONG_MAX\<close>.\<close>

definition hhu :: "int \<Rightarrow> 8 word" where
  "hhu v = (if \<bar>v\<bar> > 2 ^ 64 - 1 then 255 else word_of_int v)"

text \<open>\<open>sscanf(pfx, "%hhu.%hhu.%hhu.%hhu", ...)\<close>: the values that are converted.\<close>

fun scan_fields :: "nat \<Rightarrow> string \<Rightarrow> 8 word list" where
  "scan_fields 0 s = []"
| "scan_fields (Suc k) s =
     (case strtol_exact s of
        None \<Rightarrow> []
      | Some (v, r) \<Rightarrow>
          hhu v # (case r of [] \<Rightarrow> [] | c # r' \<Rightarrow> if c = CHR ''.'' then scan_fields k r' else []))"

definition ipv4_netmask :: "string \<Rightarrow> 32 word option" where
  "ipv4_netmask pfx =
     (let nm = scan_fields 4 pfx; cnt = length nm in
      if cnt > 1 then
        (if cnt < 4 then None
         else Some (push_bit 24 (ucast (nm ! 0)) + push_bit 16 (ucast (nm ! 1))
                    + push_bit 8 (ucast (nm ! 2)) + ucast (nm ! 3)))
      else if cnt = 0 then None
      else (let n = unat (nm ! 0) in
            if n = 0 \<or> n > 32 then None else Some (push_bit (32 - n) (- 1))))"

definition ipv4addr_parse :: "(string \<Rightarrow> 32 word option) \<Rightarrow> string \<Rightarrow> (32 word \<times> ip_address) option option" where
  "ipv4addr_parse inet_pton oval_ipv4_string =
     (case (case c_strchr oval_ipv4_string CHR ''/'' of
              Some (s, pfx) \<Rightarrow> (s, ipv4_netmask pfx)
            | None \<Rightarrow> (oval_ipv4_string, Some (- 1))) of
        (s, None) \<Rightarrow> None
      | (s, Some netmask) \<Rightarrow> Some (map_option (\<lambda>a. (netmask, In4 a)) (inet_pton s)))"

definition ipv6addr_parse :: "(string \<Rightarrow> 8 word list option) \<Rightarrow> string \<Rightarrow> (32 word \<times> ip_address) option option" where
  "ipv6addr_parse inet_pton oval_ipv6_string =
     (case (case c_strchr oval_ipv6_string CHR ''/'' of
              Some (s, pfx) \<Rightarrow> (s, word_of_int (fst (strtol64 pfx)))
            | None \<Rightarrow> (oval_ipv6_string, 128)) of
        (s, len) \<Rightarrow> Some (map_option (\<lambda>a. (len, In6 a)) (inet_pton s)))"

record pton =
  pton4 :: "string \<Rightarrow> 32 word option"
  pton6 :: "string \<Rightarrow> 8 word list option"

definition ipaddr_parse :: "pton \<Rightarrow> address_family \<Rightarrow> string \<Rightarrow> (32 word \<times> ip_address) option option" where
  "ipaddr_parse env af oval_ip_string =
     (case af of
        AF_INET \<Rightarrow> ipv4addr_parse (pton4 env) oval_ip_string
      | AF_INET6 \<Rightarrow> ipv6addr_parse (pton6 env) oval_ip_string)"

section \<open>Masking and comparing\<close>

definition ipv4addr_mask :: "32 word \<Rightarrow> 32 word \<Rightarrow> 32 word" where
  "ipv4addr_mask ip_addr netmask = ip_addr AND netmask"

definition ipv6addr_mask :: "8 word list \<Rightarrow> int \<Rightarrow> 8 word list option" where
  "ipv6addr_mask addr prefix_len =
     (let mask = word_of_int (- (2 ^ nat (8 - prefix_len smod 8)));
          i = prefix_len sdiv 8
      in if i < 0 then None
         else Some (take (nat i) addr
                    @ (case drop (nat i) addr of [] \<Rightarrow> [] | b # bs \<Rightarrow> (b AND mask) # map (\<lambda>b. b AND 0) bs)))"

definition ipaddr_mask :: "ip_address \<Rightarrow> 32 word \<Rightarrow> ip_address option" where
  "ipaddr_mask ip_addr msk =
     (case ip_addr of
        In4 a \<Rightarrow> Some (In4 (ipv4addr_mask a msk))
      | In6 a \<Rightarrow> map_option In6 (ipv6addr_mask a (sint msk)))"

definition ipaddr_cmp :: "ip_address \<Rightarrow> ip_address \<Rightarrow> int" where
  "ipaddr_cmp addr1 addr2 =
     (case (addr1, addr2) of
        (In4 a, In4 b) \<Rightarrow> cmp_of a b
      | (In6 a, In6 b) \<Rightarrow> cmp_of a b
      | (In4 _, In6 _) \<Rightarrow> -1
      | (In6 _, In4 _) \<Rightarrow> 1)"

text \<open>Masking both addresses and looking at the sign of the comparison.\<close>

definition masked_cmp :: "ip_address \<Rightarrow> 32 word \<Rightarrow> ip_address \<Rightarrow> 32 word \<Rightarrow> int option" where
  "masked_cmp addr1 m1 addr2 m2 =
     (case ipaddr_mask addr1 m1 of
        None \<Rightarrow> None
      | Some a1 \<Rightarrow> (case ipaddr_mask addr2 m2 of None \<Rightarrow> None | Some a2 \<Rightarrow> Some (ipaddr_cmp a1 a2)))"

definition bool_result :: "bool \<Rightarrow> oval_result_t" where
  "bool_result b = (if b then OVAL_RESULT_TRUE else OVAL_RESULT_FALSE)"

definition oval_ipaddr_cmp ::
    "pton \<Rightarrow> address_family \<Rightarrow> string \<Rightarrow> string \<Rightarrow> oval_operation_t \<Rightarrow> oval_result_t option" where
  "oval_ipaddr_cmp env af s1 s2 op =
     (case ipaddr_parse env af s1 of
        None \<Rightarrow> None
      | Some None \<Rightarrow> Some OVAL_RESULT_ERROR
      | Some (Some (mask1, addr1)) \<Rightarrow>
     (case ipaddr_parse env af s2 of
        None \<Rightarrow> None
      | Some None \<Rightarrow> Some OVAL_RESULT_ERROR
      | Some (Some (mask2, addr2)) \<Rightarrow>
          (case op of
             OVAL_OPERATION_EQUALS \<Rightarrow> Some (bool_result (ipaddr_cmp addr1 addr2 = 0 \<and> mask1 = mask2))
           | OVAL_OPERATION_NOT_EQUAL \<Rightarrow> Some (bool_result (ipaddr_cmp addr1 addr2 \<noteq> 0 \<or> mask1 \<noteq> mask2))
           | OVAL_OPERATION_SUBSET_OF \<Rightarrow>
               if mask1 > mask2 then Some OVAL_RESULT_FALSE
               else map_option (\<lambda>c. bool_result (c = 0)) (masked_cmp addr1 mask1 addr2 mask1)
           | OVAL_OPERATION_GREATER_THAN \<Rightarrow>
               map_option (\<lambda>c. bool_result (c < 0)) (masked_cmp addr1 mask1 addr2 mask2)
           | OVAL_OPERATION_GREATER_THAN_OR_EQUAL \<Rightarrow>
               map_option (\<lambda>c. bool_result (c \<le> 0)) (masked_cmp addr1 mask1 addr2 mask2)
           | OVAL_OPERATION_SUPERSET_OF \<Rightarrow>
               if mask1 < mask2 then Some OVAL_RESULT_FALSE
               else map_option (\<lambda>c. bool_result (c = 0)) (masked_cmp addr1 mask2 addr2 mask2)
           | OVAL_OPERATION_LESS_THAN \<Rightarrow>
               map_option (\<lambda>c. bool_result (c > 0)) (masked_cmp addr1 mask1 addr2 mask2)
           | OVAL_OPERATION_LESS_THAN_OR_EQUAL \<Rightarrow>
               map_option (\<lambda>c. bool_result (c \<ge> 0)) (masked_cmp addr1 mask1 addr2 mask2)
           | _ \<Rightarrow> Some OVAL_RESULT_ERROR)))"

section \<open>Prefixes and blocks of IPv4 addresses\<close>

definition prefix_mask :: "nat \<Rightarrow> 32 word" where
  "prefix_mask p = push_bit (32 - p) (- 1)"

text \<open>The addresses of a block: those that agree with its address in the first \<open>p\<close> bits.\<close>

definition ipv4_block :: "32 word \<Rightarrow> nat \<Rightarrow> 32 word set" where
  "ipv4_block a p = {x. drop_bit (32 - p) x = drop_bit (32 - p) a}"

lemma prefix_mask_eq: "x AND prefix_mask p = a AND prefix_mask p \<longleftrightarrow> drop_bit (32 - p) x = drop_bit (32 - p) a"
proof
  assume l: "x AND prefix_mask p = a AND prefix_mask p"
  have "bit x n \<longleftrightarrow> bit a n" if "32 - p \<le> n" for n
    using arg_cong [OF l, of "\<lambda>w. bit w n"] that
    by (cases "n < 32") (simp_all add: prefix_mask_def bit_simps impossible_bit)
  then show "drop_bit (32 - p) x = drop_bit (32 - p) a"
    by (intro bit_word_eqI) (auto simp: bit_simps dest: bit_imp_le_length)
next
  assume r: "drop_bit (32 - p) x = drop_bit (32 - p) a"
  have "bit x n \<longleftrightarrow> bit a n" if "32 - p \<le> n" for n
    using arg_cong [OF r, of "\<lambda>w. bit w (n - (32 - p))"] that by (simp add: bit_simps)
  then show "x AND prefix_mask p = a AND prefix_mask p"
    by (intro bit_word_eqI) (auto simp: prefix_mask_def bit_simps)
qed

lemma block_member: "a \<in> ipv4_block a p"
  by (simp add: ipv4_block_def)

lemma block_subset:
  assumes "p1 \<le> 32" and "p2 \<le> 32"
  shows "ipv4_block a2 p2 \<subseteq> ipv4_block a1 p1
     \<longleftrightarrow> p1 \<le> p2 \<and> drop_bit (32 - p1) a2 = drop_bit (32 - p1) a1"
proof
  assume "p1 \<le> p2 \<and> drop_bit (32 - p1) a2 = drop_bit (32 - p1) a1"
  then have p: "p1 \<le> p2" and e: "drop_bit (32 - p1) a2 = drop_bit (32 - p1) a1" by auto
  have d: "drop_bit (32 - p1) y = drop_bit (p2 - p1) (drop_bit (32 - p2) y)" for y :: "32 word"
    using p assms by simp
  show "ipv4_block a2 p2 \<subseteq> ipv4_block a1 p1"
  proof
    fix x
    assume "x \<in> ipv4_block a2 p2"
    then have "drop_bit (32 - p2) x = drop_bit (32 - p2) a2" by (simp add: ipv4_block_def)
    then have "drop_bit (32 - p1) x = drop_bit (32 - p1) a2" by (simp only: d)
    with e show "x \<in> ipv4_block a1 p1" by (simp add: ipv4_block_def)
  qed
next
  assume s: "ipv4_block a2 p2 \<subseteq> ipv4_block a1 p1"
  with block_member [of a2 p2] have e: "drop_bit (32 - p1) a2 = drop_bit (32 - p1) a1"
    by (auto simp: ipv4_block_def)
  moreover have "p1 \<le> p2"
  proof (rule ccontr)
    assume "\<not> p1 \<le> p2"
    then have n: "32 - p1 < 32 - p2" "32 - p1 < 32" using assms by auto
    define x where "x = flip_bit (32 - p1) a2"
    have "drop_bit (32 - p2) x = drop_bit (32 - p2) a2"
      using n by (intro bit_word_eqI) (auto simp: x_def bit_simps dest: bit_imp_le_length)
    with s e have "drop_bit (32 - p1) x = drop_bit (32 - p1) a2" by (auto simp: ipv4_block_def)
    then have "bit (drop_bit (32 - p1) x) 0 \<longleftrightarrow> bit (drop_bit (32 - p1) a2) 0" by simp
    with n show False by (simp add: x_def bit_simps del: bit_0)
  qed
  ultimately show "p1 \<le> p2 \<and> drop_bit (32 - p1) a2 = drop_bit (32 - p1) a1" by simp
qed

lemma prefix_mask_strict:
  assumes "p1 < p2" and "p2 \<le> 32"
  shows "prefix_mask p1 < prefix_mask p2"
proof -
  have "prefix_mask p1 = prefix_mask p2 AND prefix_mask p1"
    using assms by (intro bit_word_eqI) (auto simp: prefix_mask_def bit_simps)
  then have "prefix_mask p1 \<le> prefix_mask p2" by (metis word_and_le2)
  moreover have "bit (prefix_mask p2) (32 - p2)" "\<not> bit (prefix_mask p1) (32 - p2)"
    using assms by (auto simp: prefix_mask_def bit_simps)
  ultimately show ?thesis by (metis order_le_less)
qed

lemma prefix_mask_less:
  assumes "p1 \<le> 32" and "p2 \<le> 32"
  shows "prefix_mask p1 < prefix_mask p2 \<longleftrightarrow> p1 < p2"
  using prefix_mask_strict [of p1 p2] prefix_mask_strict [of p2 p1] assms
  by (metis linorder_neqE_nat order_less_asym order_less_irrefl)

lemma scan_fields_prefix: "p < 256 \<Longrightarrow> scan_fields 4 (show_nat p) = [word_of_nat p]"
proof -
  assume p: "p < 256"
  have s: "strtol_exact (show_nat p) = Some (int p, [])" using strtol_exact_show_nat [of "[]" p] by simp
  have "scan_fields (Suc 3) (show_nat p) = [hhu (int p)]" by (simp only: scan_fields.simps s option.case prod.case list.case)
  moreover have "hhu (int p) = word_of_nat p" using p by (simp add: hhu_def)
  ultimately show "scan_fields 4 (show_nat p) = [word_of_nat p]" by simp
qed

lemma netmask_prefix:
  assumes "1 \<le> p" and "p \<le> 32"
  shows "ipv4_netmask (show_nat p) = Some (prefix_mask p)"
proof -
  have "unat (word_of_nat p :: 8 word) = p"
    using assms by (simp add: unat_of_nat take_bit_nat_eq_self)
  with assms show ?thesis
    by (simp add: ipv4_netmask_def scan_fields_prefix prefix_mask_def)
qed

definition with_prefix :: "string \<Rightarrow> nat \<Rightarrow> string" where
  "with_prefix t p = t @ CHR ''/'' # show_nat p"

lemma parse_with_prefix:
  assumes "1 \<le> p" and "p \<le> 32" and "CHR ''/'' \<notin> set t" and "inet_pton t = Some a"
  shows "ipv4addr_parse inet_pton (with_prefix t p) = Some (Some (prefix_mask p, In4 a))"
  using assms by (simp add: ipv4addr_parse_def with_prefix_def c_strchr_append netmask_prefix)

lemma parse_without_prefix:
  assumes "CHR ''/'' \<notin> set t" and "inet_pton t = Some a"
  shows "ipv4addr_parse inet_pton t = Some (Some (prefix_mask 32, In4 a))"
proof -
  have "c_strchr t CHR ''/'' = None" using assms(1) by simp
  with assms(2) show ?thesis by (simp add: ipv4addr_parse_def prefix_mask_def del: c_strchr_None)
qed

lemma netmask_outside:
  assumes "p = 0 \<or> 32 < p" and "p < 256"
  shows "ipv4_netmask (show_nat p) = None"
proof -
  have "unat (word_of_nat p :: 8 word) = p"
    using assms by (simp add: unat_of_nat take_bit_nat_eq_self)
  with assms show ?thesis by (simp add: ipv4_netmask_def scan_fields_prefix)
qed

text \<open>The text of a block: an address with a prefix, or without one, which means the address alone.\<close>

definition block_text :: "string \<Rightarrow> nat option \<Rightarrow> string" where
  "block_text t pfx = (case pfx of None \<Rightarrow> t | Some p \<Rightarrow> with_prefix t p)"

definition block_prefix :: "nat option \<Rightarrow> nat" where
  "block_prefix pfx = (case pfx of None \<Rightarrow> 32 | Some p \<Rightarrow> p)"

lemma parse_block:
  assumes "pfx \<noteq> Some 0" and "block_prefix pfx \<le> 32" and "CHR ''/'' \<notin> set t" and "inet_pton t = Some a"
  shows "ipv4addr_parse inet_pton (block_text t pfx) = Some (Some (prefix_mask (block_prefix pfx), In4 a))"
  using assms
  by (cases pfx) (auto simp: block_text_def block_prefix_def Suc_le_eq intro!: parse_with_prefix parse_without_prefix)

lemma parse_zero_prefix:
  assumes "CHR ''/'' \<notin> set t"
  shows "ipv4addr_parse inet_pton (block_text t (Some 0)) = None"
  using assms by (simp add: ipv4addr_parse_def block_text_def with_prefix_def c_strchr_append netmask_outside)

section \<open>Properties\<close>

text \<open>
  C13. \<open>subset of\<close> and \<open>superset of\<close> on IPv4 blocks are inclusion of the sets of their addresses, whatever
  \<open>inet_pton\<close> accepts as addresses, for blocks with a prefix length of 1 to 32 or without one. The prefix
  length 0, the block of all addresses, is excepted: with it the code shifts a 32-bit number by 32, for which
  C defines no result (None).
\<close>

theorem ipv4_subset_correct:
  assumes "pton4 env t1 = Some a1" and "pton4 env t2 = Some a2"
    and "CHR ''/'' \<notin> set t1" and "CHR ''/'' \<notin> set t2"
    and "block_prefix p1 \<le> 32" and "block_prefix p2 \<le> 32"
  shows "oval_ipaddr_cmp env AF_INET (block_text t1 p1) (block_text t2 p2) OVAL_OPERATION_SUBSET_OF
       = (if p1 = Some 0 \<or> p2 = Some 0 then None
          else Some (if ipv4_block a2 (block_prefix p2) \<subseteq> ipv4_block a1 (block_prefix p1)
                     then OVAL_RESULT_TRUE else OVAL_RESULT_FALSE))
     \<and> oval_ipaddr_cmp env AF_INET (block_text t1 p1) (block_text t2 p2) OVAL_OPERATION_SUPERSET_OF
       = (if p1 = Some 0 \<or> p2 = Some 0 then None
          else Some (if ipv4_block a1 (block_prefix p1) \<subseteq> ipv4_block a2 (block_prefix p2)
                     then OVAL_RESULT_TRUE else OVAL_RESULT_FALSE))"
proof (cases "p1 = Some 0 \<or> p2 = Some 0")
  case True
  have zero: "ipaddr_parse env AF_INET (block_text t (Some 0)) = None" if "CHR ''/'' \<notin> set t" for t
    using that by (simp add: ipaddr_parse_def parse_zero_prefix)
  show ?thesis
  proof (cases "p1 = Some 0")
    case True
    then show ?thesis using assms by (simp add: oval_ipaddr_cmp_def zero)
  next
    case False
    with \<open>p1 = Some 0 \<or> p2 = Some 0\<close> assms show ?thesis
      by (simp add: oval_ipaddr_cmp_def ipaddr_parse_def parse_zero_prefix parse_block)
  qed
next
  case False
  let ?p1 = "block_prefix p1" and ?p2 = "block_prefix p2"
  have p: "ipaddr_parse env AF_INET (block_text t1 p1) = Some (Some (prefix_mask ?p1, In4 a1))"
    "ipaddr_parse env AF_INET (block_text t2 p2) = Some (Some (prefix_mask ?p2, In4 a2))"
    using assms False by (simp_all add: ipaddr_parse_def parse_block)
  have "ipv4_block a2 ?p2 \<subseteq> ipv4_block a1 ?p1 \<longleftrightarrow> ?p1 \<le> ?p2 \<and> a1 AND prefix_mask ?p1 = a2 AND prefix_mask ?p1"
    "ipv4_block a1 ?p1 \<subseteq> ipv4_block a2 ?p2 \<longleftrightarrow> ?p2 \<le> ?p1 \<and> a1 AND prefix_mask ?p2 = a2 AND prefix_mask ?p2"
    using assms by (auto simp: block_subset prefix_mask_eq)
  moreover have "prefix_mask ?p2 < prefix_mask ?p1 \<longleftrightarrow> \<not> ?p1 \<le> ?p2" "prefix_mask ?p1 < prefix_mask ?p2 \<longleftrightarrow> \<not> ?p2 \<le> ?p1"
    using assms by (simp_all add: prefix_mask_less not_le)
  ultimately show ?thesis using False
    by (simp add: oval_ipaddr_cmp_def p masked_cmp_def ipaddr_mask_def ipv4addr_mask_def ipaddr_cmp_def
        bool_result_def)
qed

theorem ipv4_subset_correct_witness:
  "let env = \<lparr>pton4 = (\<lambda>s. if s = ''10.0.0.0'' then Some 0x0A000000
                       else if s = ''10.1.2.3'' then Some 0x0A010203 else None),
              pton6 = Map.empty\<rparr>
   in oval_ipaddr_cmp env AF_INET (block_text ''10.0.0.0'' (Some 8)) (block_text ''10.1.2.3'' None)
        OVAL_OPERATION_SUBSET_OF
      = (if Some 8 = Some (0::nat) \<or> None = Some (0::nat) then None
         else Some (if ipv4_block 0x0A010203 (block_prefix None) \<subseteq> ipv4_block 0x0A000000 (block_prefix (Some 8))
                    then OVAL_RESULT_TRUE else OVAL_RESULT_FALSE))"
  unfolding Let_def by (rule ipv4_subset_correct [THEN conjunct1]) (simp_all add: block_prefix_def)

lemma ipaddr_unsupported_error:
  assumes "ipaddr_parse env af s1 = Some (Some (m1, a1))" and "ipaddr_parse env af s2 = Some (Some (m2, a2))"
    and "op \<notin> ordering_operations \<union> {OVAL_OPERATION_SUBSET_OF, OVAL_OPERATION_SUPERSET_OF}"
  shows "oval_ipaddr_cmp env af s1 s2 op = Some OVAL_RESULT_ERROR"
  using assms by (cases op) (auto simp: oval_ipaddr_cmp_def ordering_operations_def)

end
