(* ===== verification/Oval_Ent_Cmp.thy ===== *)
theory Oval_Ent_Cmp
  imports Oval_Evr Oval_Cmp_Ip
begin

text \<open>
  \<open>results/oval_cmp.c\<close>: the comparison of the text of a state's value with a collected entity,
  by datatype. Libraries and floating point numbers are parameters, collected in the record
  \<open>cmp_env\<close>: the regular expressions (\<open>env_pcre\<close>), \<open>inet_pton\<close> (\<open>env_pton\<close>), \<open>strtod\<close>
  (\<open>env_strtod\<close>: the number, the unread text, whether \<open>errno\<close> is ERANGE) and \<open>cmp_float\<close>.
  A result None is an abort: a NULL pointer passed where the callee reads it.
\<close>

record record_field =
  field_name :: string
  field_text :: cstr
  field_datatype :: oval_datatype_t

record sysent =
  sysent_name :: string
  sysent_status :: oval_syschar_status_t
  sysent_value :: cstr
  sysent_mask :: bool
  sysent_datatype :: oval_datatype_t
  sysent_record_fields :: "record_field list"

record 'd cmp_env =
  env_pcre :: pcre_engine
  env_pton :: pton
  env_strtod :: "string \<Rightarrow> 'd \<times> string \<times> bool"
  env_cmp_float :: "'d \<Rightarrow> 'd \<Rightarrow> int"

definition cstr_to_intmax :: "string \<Rightarrow> int option" where
  "cstr_to_intmax str =
     (case strtol64 str of
        (result, endptr, erange) \<Rightarrow>
          if erange then None
          else if endptr = str then None
          else if endptr \<noteq> [] then None
          else Some result)"

definition cstr_to_double :: "'d cmp_env \<Rightarrow> string \<Rightarrow> 'd option" where
  "cstr_to_double env str =
     (case env_strtod env str of
        (result, endptr, erange) \<Rightarrow>
          if erange then None
          else if endptr = str then None
          else if endptr \<noteq> [] then None
          else Some result)"

definition bool_of_cstr :: "string \<Rightarrow> bool" where
  "bool_of_cstr s \<longleftrightarrow> strcmp s ''true'' = 0 \<or> strcmp s ''1'' = 0"

definition oval_ent_cmp_str ::
    "'d cmp_env \<Rightarrow> string \<Rightarrow> oval_datatype_t \<Rightarrow> sysent \<Rightarrow> oval_operation_t \<Rightarrow> oval_result_t option" where
  "oval_ent_cmp_str env state_data state_data_type sysent operation =
     (let sys_data = sysent_value sysent;
          ipaddr = (\<lambda>af. case sys_data of
              Some s \<Rightarrow> oval_ipaddr_cmp (env_pton env) af state_data s operation
            | None \<Rightarrow> (case ipaddr_parse (env_pton env) af state_data of
                         Some None \<Rightarrow> Some OVAL_RESULT_ERROR
                       | _ \<Rightarrow> None))
      in case state_data_type of
        OVAL_DATATYPE_STRING \<Rightarrow> Some (oval_string_cmp (env_pcre env) state_data sys_data operation)
      | OVAL_DATATYPE_INTEGER \<Rightarrow>
          (case cstr_to_intmax state_data of
             None \<Rightarrow> Some OVAL_RESULT_ERROR
           | Some state_val \<Rightarrow>
               (case sys_data of
                  None \<Rightarrow> None
                | Some s \<Rightarrow>
                    (case cstr_to_intmax s of
                       None \<Rightarrow> Some OVAL_RESULT_ERROR
                     | Some syschar_val \<Rightarrow> Some (oval_int_cmp state_val syschar_val operation))))
      | OVAL_DATATYPE_FLOAT \<Rightarrow>
          (case cstr_to_double env state_data of
             None \<Rightarrow> Some OVAL_RESULT_ERROR
           | Some state_val \<Rightarrow>
               (case sys_data of
                  None \<Rightarrow> None
                | Some s \<Rightarrow>
                    (case cstr_to_double env s of
                       None \<Rightarrow> Some OVAL_RESULT_ERROR
                     | Some sys_val \<Rightarrow> Some (oval_float_cmp (env_cmp_float env) state_val sys_val operation))))
      | OVAL_DATATYPE_BOOLEAN \<Rightarrow>
          map_option (\<lambda>s. oval_boolean_cmp (bool_of_cstr state_data) (bool_of_cstr s) operation) sys_data
      | OVAL_DATATYPE_BINARY \<Rightarrow> Some (oval_binary_cmp (Some state_data) sys_data operation)
      | OVAL_DATATYPE_EVR_STRING \<Rightarrow> map_option (\<lambda>s. oval_evr_string_cmp state_data s operation) sys_data
      | OVAL_DATATYPE_VERSION \<Rightarrow>
          (case sys_data of None \<Rightarrow> None | Some s \<Rightarrow> Some (oval_versiontype_cmp state_data s operation))
      | OVAL_DATATYPE_IPV4ADDR \<Rightarrow> ipaddr AF_INET
      | OVAL_DATATYPE_IPV6ADDR \<Rightarrow> ipaddr AF_INET6
      | OVAL_DATATYPE_FILESET_REVISION \<Rightarrow> Some OVAL_RESULT_NOT_EVALUATED
      | OVAL_DATATYPE_IOS_VERSION \<Rightarrow> Some OVAL_RESULT_NOT_EVALUATED
      | _ \<Rightarrow> Some OVAL_RESULT_ERROR)"

section \<open>Numbers as text\<close>

lemma show_int_nonempty [simp]: "show_int i \<noteq> []" "[] \<noteq> show_int i"
  using show_nat_nonempty [symmetric] by (auto simp: show_int_def)

lemma cstr_to_intmax_show:
  "cstr_to_intmax (show_int i) = (if - (2 ^ 63) \<le> i \<and> i < 2 ^ 63 then Some i else None)"
  by (auto simp: cstr_to_intmax_def strtol64_def strtol_exact_show_int)

lemma cstr_to_intmax_range: "cstr_to_intmax s = Some i \<Longrightarrow> - (2 ^ 63) \<le> i \<and> i < 2 ^ 63"
  using strtol64_range [of s] by (auto simp: cstr_to_intmax_def split: prod.splits if_splits)

section \<open>Every comparison yields a result of the language\<close>

lemma order_result_valid: "order_result op c \<noteq> OVAL_RESULT_INVALID"
  by (cases op) (auto simp: order_result_def Let_def)

lemma basic_cmp_valid:
  "oval_boolean_cmp a b op \<noteq> OVAL_RESULT_INVALID"
  "oval_int_cmp i j op \<noteq> OVAL_RESULT_INVALID"
  "oval_float_cmp cf x y op \<noteq> OVAL_RESULT_INVALID"
  "oval_string_cmp pcre s t op \<noteq> OVAL_RESULT_INVALID"
  "oval_binary_cmp u v op \<noteq> OVAL_RESULT_INVALID"
  "oval_evr_string_cmp e f op \<noteq> OVAL_RESULT_INVALID"
proof -
  show "oval_boolean_cmp a b op \<noteq> OVAL_RESULT_INVALID" "oval_int_cmp i j op \<noteq> OVAL_RESULT_INVALID"
    "oval_binary_cmp u v op \<noteq> OVAL_RESULT_INVALID"
    by (cases op; simp add: oval_boolean_cmp_def oval_int_cmp_def oval_binary_cmp_def)+
  show "oval_float_cmp cf x y op \<noteq> OVAL_RESULT_INVALID" by (simp add: oval_float_cmp_def)
  show "oval_string_cmp pcre s t op \<noteq> OVAL_RESULT_INVALID"
    by (cases op) (auto simp: oval_string_cmp_def strregcomp_def Let_def split: option.splits)
  show "oval_evr_string_cmp e f op \<noteq> OVAL_RESULT_INVALID"
    by (simp add: evr_correct order_result_valid)
qed

lemma versiontype_valid [simp]: "oval_versiontype_cmp s t op \<noteq> OVAL_RESULT_INVALID"
  unfolding oval_versiontype_cmp_def
proof (induction s t op rule: versiontype_loop.induct)
  case (1 s t op)
  then show ?case by (subst versiontype_loop.simps) (auto simp: Let_def)
qed

lemma ipaddr_valid: "oval_ipaddr_cmp env af s t op = Some r \<Longrightarrow> r \<noteq> OVAL_RESULT_INVALID"
  by (cases op) (auto simp: oval_ipaddr_cmp_def bool_result_def split: option.splits if_splits)

lemma ent_cmp_str_valid:
  assumes "oval_ent_cmp_str env d dt e op = Some r"
  shows "r \<noteq> OVAL_RESULT_INVALID"
  using assms
  by (cases dt)
    (auto simp: oval_ent_cmp_str_def Let_def basic_cmp_valid split: option.splits
      dest: ipaddr_valid)

section \<open>Properties\<close>

text \<open>
  C21. Integers are compared as numbers: for texts of integers, an ordering operation decides by the
  order of the numbers when both fit in 64 bits, and yields an error when one of them does not (it
  is never truncated or wrapped around).
\<close>

theorem integer_cmp_correct:
  assumes "sysent_value e = Some (show_int j)" and "operation \<in> ordering_operations"
  shows "oval_ent_cmp_str env (show_int i) OVAL_DATATYPE_INTEGER e operation =
     Some (if - (2 ^ 63) \<le> i \<and> i < 2 ^ 63 \<and> - (2 ^ 63) \<le> j \<and> j < 2 ^ 63
           then order_result operation (cmp_of j i) else OVAL_RESULT_ERROR)"
  using assms by (simp add: oval_ent_cmp_str_def Let_def cstr_to_intmax_show int_cmp_order)

definition no_libraries :: "nat cmp_env" where
  "no_libraries = \<lparr>env_pcre = (\<lambda>_. None), env_pton = \<lparr>pton4 = (\<lambda>_. None), pton6 = (\<lambda>_. None)\<rparr>,
     env_strtod = (\<lambda>s. (0, s, False)), env_cmp_float = cmp_of\<rparr>"

theorem integer_cmp_correct_witness:
  "oval_ent_cmp_str no_libraries (show_int (2 ^ 63)) OVAL_DATATYPE_INTEGER
     \<lparr>sysent_name = ''size'', sysent_status = SYSCHAR_STATUS_EXISTS, sysent_value = Some (show_int 5),
      sysent_mask = False, sysent_datatype = OVAL_DATATYPE_INTEGER, sysent_record_fields = []\<rparr> OVAL_OPERATION_LESS_THAN = Some OVAL_RESULT_ERROR"
  by (subst integer_cmp_correct [where j = 5]) (simp_all add: ordering_operations_def)

end
