(* ===== verification/Oval_Test.thy ===== *)
theory Oval_Test
  imports Oval_Results Oval_Ent_Cmp Oval_Version
begin

text \<open>
  The evaluation of an OVAL test, \<open>results/oval_resultTest.c\<close>: a state against a collected item
  (\<open>eval_item\<close>), the items against the states (\<open>eval_check_state\<close>), the existence check, and the
  decision of a test from the flag of the collected object.

  The collected items stand in a map from identifiers to items: \<open>eval_item\<close> sets the mask of their
  entities, and the operations return the updated map. What \<open>oval_syschar_model_compute_variable\<close>
  returns and leaves in a variable (its return code, flag and values) is a parameter
  (\<open>env_variable\<close>). Every operation returns None when the program aborts in a comparison.
\<close>

section \<open>Definitions, collected items and results\<close>

record oval_value =
  value_datatype :: oval_datatype_t
  value_text :: cstr

record oval_entity =
  entity_name :: cstr
  entity_varref_type :: oval_entity_varref_type_t
  entity_variable :: "string option"
  entity_value :: "oval_value option"
  entity_operation :: oval_operation_t
  entity_mask :: bool

record oval_state_content =
  content_entity :: "oval_entity option"
  content_ent_check :: oval_check_t
  content_var_check :: oval_check_t

record oval_state =
  state_subtype :: int
  state_schema_version :: oval_version_t
  state_operator :: oval_operator_t
  state_contents :: "oval_state_content option list"

record sysitem =
  sysitem_status :: oval_syschar_status_t
  sysitem_sysents :: "sysent option list"

type_synonym sysitem_map = "string \<Rightarrow> sysitem option"

record oval_test =
  test_id :: string
  test_subtype :: int
  test_existence :: oval_existence_t
  test_check :: oval_check_t
  test_state_operator :: oval_operator_t
  test_object :: string
  test_states :: "oval_state list"

record oval_syschar =
  syschar_flag :: oval_syschar_collection_flag_t
  syschar_items :: "string option list"

record result_item =
  ritem_sysitem :: string
  ritem_result :: oval_result_t

record oval_result_test =
  rtest_test :: oval_test
  rtest_result :: oval_result_t
  rtest_items :: "result_item list"
  rtest_instance :: int
  rtest_bindings_initialized :: bool

record syschar_model =
  model_syschars :: "string \<Rightarrow> oval_syschar option"
  model_sysitems :: sysitem_map

record 'd test_env =
  env_cmp :: "'d cmp_env"
  env_variable :: "string \<Rightarrow> int \<times> oval_syschar_collection_flag_t \<times> oval_value list"

section \<open>An entity of a state against an entity of an item\<close>

fun evaluate_variable_values ::
    "'d cmp_env \<Rightarrow> oval_value list \<Rightarrow> sysent \<Rightarrow> oval_operation_t \<Rightarrow> oresults \<Rightarrow> oresults option" where
  "evaluate_variable_values env [] item_entity operation var_ores = Some var_ores"
| "evaluate_variable_values env (var_val # vals) item_entity operation var_ores =
     (case value_text var_val of
        None \<Rightarrow> Some (fst (ores_add_res var_ores OVAL_RESULT_ERROR))
      | Some text \<Rightarrow>
          (case oval_ent_cmp_str env text (value_datatype var_val) item_entity operation of
             None \<Rightarrow> None
           | Some var_val_res \<Rightarrow>
               evaluate_variable_values env vals item_entity operation
                 (fst (ores_add_res var_ores var_val_res))))"

definition evaluate_sysent_with_variable ::
    "'d test_env \<Rightarrow> oval_entity \<Rightarrow> sysent \<Rightarrow> oval_operation_t \<Rightarrow> oval_state_content \<Rightarrow> oval_result_t option" where
  "evaluate_sysent_with_variable env state_entity item_entity operation content =
     (case entity_variable state_entity of
        None \<Rightarrow> Some OVAL_RESULT_INVALID
      | Some state_entity_var \<Rightarrow>
          (case env_variable env state_entity_var of
             (rc, flag, vals) \<Rightarrow>
               if rc \<noteq> 0 then Some OVAL_RESULT_INVALID
               else if flag = SYSCHAR_FLAG_COMPLETE \<or> flag = SYSCHAR_FLAG_INCOMPLETE then
                 map_option (\<lambda>var_ores. ores_get_result_bychk var_ores (content_var_check content))
                   (evaluate_variable_values (env_cmp env) vals item_entity operation ores_zero)
               else if flag \<in> {SYSCHAR_FLAG_ERROR, SYSCHAR_FLAG_DOES_NOT_EXIST,
                                SYSCHAR_FLAG_NOT_COLLECTED, SYSCHAR_FLAG_NOT_APPLICABLE} then
                 Some OVAL_RESULT_ERROR
               else Some OVAL_RESULT_INVALID))"

definition evaluate_sysent ::
    "'d test_env \<Rightarrow> sysent \<Rightarrow> oval_entity \<Rightarrow> oval_operation_t \<Rightarrow> oval_state_content \<Rightarrow> oval_result_t option" where
  "evaluate_sysent env item_entity state_entity operation content =
     (if sysent_status item_entity = SYSCHAR_STATUS_DOES_NOT_EXIST then Some OVAL_RESULT_FALSE
      else if entity_varref_type state_entity = OVAL_ENTITY_VARREF_ATTRIBUTE then
        evaluate_sysent_with_variable env state_entity item_entity operation content
      else
        (case entity_value state_entity of
           None \<Rightarrow> Some OVAL_RESULT_INVALID
         | Some v \<Rightarrow>
             (case value_text v of
                None \<Rightarrow> Some OVAL_RESULT_INVALID
              | Some text \<Rightarrow> oval_ent_cmp_str (env_cmp env) text (value_datatype v) item_entity operation)))"

section \<open>A state against an item\<close>

text \<open>
  The loops of \<open>eval_item\<close>. The inner one goes through the entities of the item and returns the
  counted results, or None after \<open>goto fail\<close>, with the updated entities; the outer one through the
  contents of the state.
\<close>

fun eval_item_entities ::
    "'d test_env \<Rightarrow> oval_state_content \<Rightarrow> oval_entity \<Rightarrow> string \<Rightarrow> sysent option list \<Rightarrow> oresults \<Rightarrow>
     (oresults option \<times> sysent option list) option" where
  "eval_item_entities env content ent name [] ent_ores = Some (Some ent_ores, [])"
| "eval_item_entities env content ent name (None # es) ent_ores = Some (None, None # es)"
| "eval_item_entities env content ent name (Some e # es) ent_ores =
     (if strcmp (sysent_name e) name \<noteq> 0 then
        map_option (\<lambda>(r, es'). (r, Some e # es')) (eval_item_entities env content ent name es ent_ores)
      else
        (let e' = (if entity_mask ent then e\<lparr>sysent_mask := True\<rparr> else e) in
         case evaluate_sysent env e' ent (entity_operation ent) content of
           None \<Rightarrow> None
         | Some ent_val_res \<Rightarrow>
             if ent_val_res = OVAL_RESULT_INVALID then Some (None, Some e' # es)
             else map_option (\<lambda>(r, es'). (r, Some e' # es'))
                    (eval_item_entities env content ent name es (fst (ores_add_res ent_ores ent_val_res)))))"

text \<open>The name an entity of the state is compared under.\<close>

definition state_entity_name :: "oval_state \<Rightarrow> string \<Rightarrow> string" where
  "state_entity_name state name =
     (if oscap_streq (Some name) (Some ''line'') \<and> state_subtype state = OVAL_INDEPENDENT_TEXT_FILE_CONTENT then
        (if oval_version_cmp (state_schema_version state) (oval_version_from_cstr (Some ''5.4'')) \<ge> 0
         then ''text'' else name)
      else name)"

fun eval_item_contents ::
    "'d test_env \<Rightarrow> oval_state \<Rightarrow> oval_state_content option list \<Rightarrow> sysent option list \<Rightarrow> oresults \<Rightarrow>
     (oresults option \<times> sysent option list) option" where
  "eval_item_contents env state [] es ste_ores = Some (Some ste_ores, es)"
| "eval_item_contents env state (None # cs) es ste_ores = Some (None, es)"
| "eval_item_contents env state (Some content # cs) es ste_ores =
     (case content_entity content of
        None \<Rightarrow> Some (None, es)
      | Some ent \<Rightarrow>
          (case entity_name ent of
             None \<Rightarrow> Some (None, es)
           | Some name \<Rightarrow>
               (case eval_item_entities env content ent (state_entity_name state name) es ores_zero of
                  None \<Rightarrow> None
                | Some (None, es') \<Rightarrow> Some (None, es')
                | Some (Some ent_ores, es') \<Rightarrow>
                    (let ste_ent_res = ores_get_result_bychk ent_ores (content_ent_check content)
                     in eval_item_contents env state cs es' (fst (ores_add_res ste_ores ste_ent_res))))))"

definition eval_item :: "'d test_env \<Rightarrow> sysitem \<Rightarrow> oval_state \<Rightarrow> (oval_result_t \<times> sysitem) option" where
  "eval_item env cur_sysitem state =
     (case eval_item_contents env state (state_contents state) (sysitem_sysents cur_sysitem) ores_zero of
        None \<Rightarrow> None
      | Some (None, es) \<Rightarrow> Some (OVAL_RESULT_ERROR, cur_sysitem\<lparr>sysitem_sysents := es\<rparr>)
      | Some (Some ste_ores, es) \<Rightarrow>
          Some (ores_get_result_byopr ste_ores (state_operator state), cur_sysitem\<lparr>sysitem_sysents := es\<rparr>))"

section \<open>The items of a test against its states\<close>

fun eval_item_states ::
    "'d test_env \<Rightarrow> oval_state list \<Rightarrow> sysitem \<Rightarrow> oresults \<Rightarrow> (oresults \<times> sysitem) option" where
  "eval_item_states env [] item ste_ores = Some (ste_ores, item)"
| "eval_item_states env (ste # stes) item ste_ores =
     (case eval_item env item ste of
        None \<Rightarrow> None
      | Some (ste_res, item') \<Rightarrow> eval_item_states env stes item' (fst (ores_add_res ste_ores ste_res)))"

text \<open>The result of one item, and the item with the masks its evaluation set.\<close>

definition eval_one_item ::
    "'d test_env \<Rightarrow> oval_test \<Rightarrow> sysitem \<Rightarrow> (oval_result_t \<times> sysitem) option" where
  "eval_one_item env test item =
     (if sysitem_status item = SYSCHAR_STATUS_ERROR \<or> sysitem_status item = SYSCHAR_STATUS_NOT_COLLECTED then
        Some (OVAL_RESULT_ERROR, item)
      else if sysitem_status item = SYSCHAR_STATUS_DOES_NOT_EXIST then Some (OVAL_RESULT_FALSE, item)
      else
        map_option (\<lambda>(ste_ores, item'). (ores_get_result_byopr ste_ores (test_state_operator test), item'))
          (eval_item_states env (test_states test) item ores_zero))"

text \<open>
  An identifier without a collected item gets a new, empty item when its result is made
  (\<open>oval_syschar_model_get_new_sysitem\<close>); its status is \<open>UNKNOWN\<close>.
\<close>

definition new_sysitem :: sysitem where
  "new_sysitem = \<lparr>sysitem_status = SYSCHAR_STATUS_UNKNOWN, sysitem_sysents = []\<rparr>"

definition get_new_sysitem :: "sysitem_map \<Rightarrow> string \<Rightarrow> sysitem \<times> sysitem_map" where
  "get_new_sysitem items item_id =
     (case items item_id of
        Some item \<Rightarrow> (item, items)
      | None \<Rightarrow> (new_sysitem, items(item_id \<mapsto> new_sysitem)))"

fun eval_check_items ::
    "'d test_env \<Rightarrow> oval_test \<Rightarrow> result_item list \<Rightarrow> sysitem_map \<Rightarrow> oresults \<Rightarrow>
     (oresults \<times> result_item list \<times> sysitem_map) option" where
  "eval_check_items env test [] items item_ores = Some (item_ores, [], items)"
| "eval_check_items env test (ritem # ritems) items item_ores =
     (case get_new_sysitem items (ritem_sysitem ritem) of
        (item, items1) \<Rightarrow>
          (case eval_one_item env test item of
             None \<Rightarrow> None
           | Some (item_res, item') \<Rightarrow>
               map_option (\<lambda>(ores, rs, items'). (ores, ritem\<lparr>ritem_result := item_res\<rparr> # rs, items'))
                 (eval_check_items env test ritems (items1(ritem_sysitem ritem \<mapsto> item'))
                    (fst (ores_add_res item_ores item_res)))))"

definition eval_check_state ::
    "'d test_env \<Rightarrow> oval_test \<Rightarrow> result_item list \<Rightarrow> sysitem_map \<Rightarrow>
     (oval_result_t \<times> result_item list \<times> sysitem_map) option" where
  "eval_check_state env test ritems items =
     map_option (\<lambda>(ores, rs, items'). (ores_get_result_bychk ores (test_check test), rs, items'))
       (eval_check_items env test ritems items ores_zero)"

section \<open>Existence\<close>

definition eval_check_existence :: "oval_existence_t \<Rightarrow> nat \<Rightarrow> nat \<Rightarrow> oval_result_t" where
  "eval_check_existence check_existence exists_cnt err_cnt =
     (case check_existence of
        OVAL_ALL_EXIST \<Rightarrow>
          (if exists_cnt \<ge> 1 \<and> err_cnt = 0 then OVAL_RESULT_TRUE
           else if exists_cnt = 0 \<and> err_cnt = 0 then OVAL_RESULT_FALSE
           else if exists_cnt \<ge> 0 \<and> err_cnt \<ge> 1 then OVAL_RESULT_ERROR
           else OVAL_RESULT_ERROR)
      | OVAL_ANY_EXIST \<Rightarrow>
          (if exists_cnt \<ge> 0 \<and> err_cnt = 0 then OVAL_RESULT_TRUE
           else if exists_cnt \<ge> 1 \<and> err_cnt \<ge> 1 then OVAL_RESULT_TRUE
           else if exists_cnt = 0 \<and> err_cnt \<ge> 1 then OVAL_RESULT_ERROR
           else OVAL_RESULT_ERROR)
      | OVAL_AT_LEAST_ONE_EXISTS \<Rightarrow>
          (if exists_cnt \<ge> 1 \<and> err_cnt \<ge> 0 then OVAL_RESULT_TRUE
           else if exists_cnt = 0 \<and> err_cnt = 0 then OVAL_RESULT_FALSE
           else if exists_cnt = 0 \<and> err_cnt \<ge> 1 then OVAL_RESULT_ERROR
           else OVAL_RESULT_ERROR)
      | OVAL_NONE_EXIST \<Rightarrow>
          (if exists_cnt = 0 \<and> err_cnt = 0 then OVAL_RESULT_TRUE
           else if exists_cnt \<ge> 1 \<and> err_cnt = 0 then OVAL_RESULT_FALSE
           else if exists_cnt = 0 \<and> err_cnt \<ge> 1 then OVAL_RESULT_ERROR
           else OVAL_RESULT_ERROR)
      | OVAL_ONLY_ONE_EXISTS \<Rightarrow>
          (if exists_cnt = 1 \<and> err_cnt = 0 then OVAL_RESULT_TRUE
           else if exists_cnt \<ge> 2 \<and> err_cnt \<ge> 0 then OVAL_RESULT_FALSE
           else if exists_cnt = 0 \<and> err_cnt = 0 then OVAL_RESULT_FALSE
           else if exists_cnt = 0 \<and> err_cnt \<ge> 1 then OVAL_RESULT_ERROR
           else if exists_cnt = 1 \<and> err_cnt \<ge> 1 then OVAL_RESULT_ERROR
           else OVAL_RESULT_ERROR)
      | _ \<Rightarrow> OVAL_RESULT_ERROR)"

section \<open>A test\<close>

text \<open>
  The first loop of \<open>_oval_result_test_evaluate_items\<close> with \<open>_oval_test_item_consumer\<close>: it counts the
  items that exist and those in error, and adds a result for every identifier it meets for the first
  time (\<open>seen\<close> is the map \<open>ITEMMAP\<close>). A NULL item ends the evaluation (the first component is None).
\<close>

definition oval_result_item_new :: "sysitem_map \<Rightarrow> string \<Rightarrow> result_item \<times> sysitem_map" where
  "oval_result_item_new items item_id =
     (\<lparr>ritem_sysitem = item_id, ritem_result = OVAL_RESULT_NOT_EVALUATED\<rparr>, snd (get_new_sysitem items item_id))"

definition oval_test_item_consumer ::
    "result_item \<Rightarrow> result_item list \<Rightarrow> string list \<Rightarrow> result_item list \<times> string list" where
  "oval_test_item_consumer item ritems seen =
     (let item_id = ritem_sysitem item in
      if item_id \<in> set seen then (ritems, seen) else (ritems @ [item], item_id # seen))"

fun collect_items ::
    "string option list \<Rightarrow> sysitem_map \<Rightarrow> nat \<Rightarrow> nat \<Rightarrow> result_item list \<Rightarrow> string list \<Rightarrow>
     (nat \<times> nat) option \<times> result_item list \<times> sysitem_map" where
  "collect_items [] items n_exist n_err ritems seen = (Some (n_exist, n_err), ritems, items)"
| "collect_items (None # ids) items n_exist n_err ritems seen = (None, ritems, items)"
| "collect_items (Some item_id # ids) items n_exist n_err ritems seen =
     (let status = (case items item_id of None \<Rightarrow> SYSCHAR_STATUS_UNKNOWN | Some item \<Rightarrow> sysitem_status item);
          (ritem, items') = oval_result_item_new items item_id;
          (ritems', seen') = oval_test_item_consumer ritem ritems seen
      in collect_items ids items'
           (if status = SYSCHAR_STATUS_EXISTS then n_exist + 1 else n_exist)
           (if status = SYSCHAR_STATUS_ERROR then n_err + 1 else n_err) ritems' seen')"

text \<open>The decision from the flag of the object, the existence check and the states.\<close>

definition result_test_evaluate_items ::
    "'d test_env \<Rightarrow> oval_test \<Rightarrow> oval_syschar \<Rightarrow> result_item list \<Rightarrow> sysitem_map \<Rightarrow>
     (oval_result_t \<times> result_item list \<times> sysitem_map) option" where
  "result_test_evaluate_items env test syschar_object ritems0 items0 =
     (case collect_items (syschar_items syschar_object) items0 0 0 ritems0 [] of
        (None, ritems, items) \<Rightarrow> Some (OVAL_RESULT_ERROR, ritems, items)
      | (Some (exists_cnt, err_cnt), ritems, items) \<Rightarrow>
          (let tcheck = test_check test; existence = test_existence test;
               hasstate = (test_states test \<noteq> []);
               unless_any = (\<lambda>r. Some (if existence = OVAL_ANY_EXIST \<and> \<not> hasstate
                                      then OVAL_RESULT_TRUE else r, ritems, items))
           in case syschar_flag syschar_object of
                SYSCHAR_FLAG_ERROR \<Rightarrow> unless_any OVAL_RESULT_ERROR
              | SYSCHAR_FLAG_NOT_COLLECTED \<Rightarrow> unless_any OVAL_RESULT_UNKNOWN
              | SYSCHAR_FLAG_NOT_APPLICABLE \<Rightarrow> unless_any OVAL_RESULT_NOT_APPLICABLE
              | SYSCHAR_FLAG_DOES_NOT_EXIST \<Rightarrow>
                  Some (if existence = OVAL_NONE_EXIST \<or> existence = OVAL_ANY_EXIST
                        then OVAL_RESULT_TRUE else OVAL_RESULT_FALSE, ritems, items)
              | SYSCHAR_FLAG_COMPLETE \<Rightarrow>
                  (let result = eval_check_existence existence exists_cnt err_cnt in
                   if result = OVAL_RESULT_TRUE \<and> hasstate then eval_check_state env test ritems items
                   else Some (result, ritems, items))
              | SYSCHAR_FLAG_INCOMPLETE \<Rightarrow>
                  (let result =
                         (if existence = OVAL_ANY_EXIST then OVAL_RESULT_TRUE
                          else if existence = OVAL_AT_LEAST_ONE_EXISTS \<and> exists_cnt > 0 then OVAL_RESULT_TRUE
                          else if existence = OVAL_NONE_EXIST \<and> exists_cnt > 0 then OVAL_RESULT_FALSE
                          else if existence = OVAL_ONLY_ONE_EXISTS \<and> exists_cnt > 1 then OVAL_RESULT_FALSE
                          else OVAL_RESULT_UNKNOWN)
                   in if result = OVAL_RESULT_TRUE \<and> hasstate then
                        map_option (\<lambda>(r, ritems', items').
                            (if r = OVAL_RESULT_TRUE then
                               (if tcheck \<noteq> OVAL_CHECK_AT_LEAST_ONE then OVAL_RESULT_UNKNOWN else r)
                             else if r \<noteq> OVAL_RESULT_FALSE then OVAL_RESULT_UNKNOWN
                             else r, ritems', items'))
                          (eval_check_state env test ritems items)
                      else Some (result, ritems, items))
              | _ \<Rightarrow> Some (OVAL_RESULT_ERROR, ritems, items)))"

definition result_test_result ::
    "'d test_env \<Rightarrow> syschar_model \<Rightarrow> oval_result_test \<Rightarrow>
     (oval_result_t \<times> result_item list \<times> sysitem_map) option" where
  "result_test_result env model rtest =
     (if rtest_result rtest \<noteq> OVAL_RESULT_NOT_EVALUATED then
        Some (rtest_result rtest, rtest_items rtest, model_sysitems model)
      else
        (case model_syschars model (test_object (rtest_test rtest)) of
           None \<Rightarrow> Some (OVAL_RESULT_UNKNOWN, rtest_items rtest, model_sysitems model)
         | Some syschar \<Rightarrow>
             result_test_evaluate_items env (rtest_test rtest) syschar (rtest_items rtest) (model_sysitems model)))"

definition oval_result_test_eval ::
    "'d test_env \<Rightarrow> syschar_model \<Rightarrow> oval_result_test \<Rightarrow> (oval_result_t \<times> oval_result_test \<times> syschar_model) option" where
  "oval_result_test_eval env model rtest =
     (if rtest_result rtest = OVAL_RESULT_NOT_EVALUATED then
        (if test_subtype (rtest_test rtest) \<noteq> OVAL_INDEPENDENT_UNKNOWN then
           map_option (\<lambda>(r, ritems, items).
               (r, rtest\<lparr>rtest_result := r, rtest_items := ritems, rtest_bindings_initialized := True\<rparr>,
                model\<lparr>model_sysitems := items\<rparr>))
             (result_test_result env model rtest)
         else Some (OVAL_RESULT_UNKNOWN, rtest\<lparr>rtest_result := OVAL_RESULT_UNKNOWN\<rparr>, model))
      else Some (rtest_result rtest, rtest, model))"

end
