(* ===== verification/Oval_Test_Props.thy ===== *)
theory Oval_Test_Props
  imports Oval_Test
begin

text \<open>
  What the evaluation of tests promises: it changes nothing of the collected items but the masks of
  their entities, masks influence no result, every item is judged on its own, and the test's result is
  the combination of the items' results.
\<close>

section \<open>Masks\<close>

definition unmask :: "sysent option \<Rightarrow> sysent option" where
  "unmask = map_option (\<lambda>e. e\<lparr>sysent_mask := False\<rparr>)"

definition unmask_item :: "sysitem \<Rightarrow> sysitem" where
  "unmask_item item = item\<lparr>sysitem_sysents := map unmask (sysitem_sysents item)\<rparr>"

lemma unmask_simps [simp]:
  "unmask None = None"
  "unmask (Some (e\<lparr>sysent_mask := m\<rparr>)) = unmask (Some e)"
  by (simp_all add: unmask_def)

lemma unmask_Some:
  "unmask (Some e) = unmask f \<longleftrightarrow> (\<exists>g. f = Some g \<and> sysent_name e = sysent_name g
     \<and> sysent_status e = sysent_status g \<and> sysent_value e = sysent_value g
     \<and> sysent_datatype e = sysent_datatype g \<and> sysent_record_fields e = sysent_record_fields g)"
  by (cases f; cases e; cases "the f") (auto simp: unmask_def)

lemma ent_cmp_str_value:
  "sysent_value e = sysent_value f \<Longrightarrow> oval_ent_cmp_str env d dt e op = oval_ent_cmp_str env d dt f op"
  by (simp add: oval_ent_cmp_str_def)

lemma variable_values_value:
  "sysent_value e = sysent_value f \<Longrightarrow>
   evaluate_variable_values env vs e op ores = evaluate_variable_values env vs f op ores"
  by (induction vs arbitrary: ores) (auto simp: ent_cmp_str_value [of e f] split: option.splits)

lemma evaluate_sysent_value:
  "sysent_value e = sysent_value f \<Longrightarrow> sysent_status e = sysent_status f \<Longrightarrow>
   evaluate_sysent env e ent op c = evaluate_sysent env f ent op c"
  by (simp add: evaluate_sysent_def evaluate_sysent_with_variable_def variable_values_value [of e f]
      ent_cmp_str_value [of e f] split: option.split prod.split)

lemma entities_unmask:
  "eval_item_entities env c ent n es ores = Some (r, es') \<Longrightarrow> map unmask es' = map unmask es"
proof (induction env c ent n es ores arbitrary: r es' rule: eval_item_entities.induct)
  case (3 env c ent n e es ores)
  then show ?case
    by (auto simp: Let_def split: if_splits option.splits prod.splits)
qed auto

lemma entities_masks_irrelevant:
  "map unmask es = map unmask fs \<Longrightarrow>
   map_option fst (eval_item_entities env c ent n es ores)
     = map_option fst (eval_item_entities env c ent n fs ores)"
proof (induction env c ent n es ores arbitrary: fs rule: eval_item_entities.induct)
  case (2 env c ent n es ores)
  then obtain gs where "fs = None # gs" by (cases fs) (auto simp: unmask_def)
  then show ?case by simp
next
  case (3 env c ent n e es ores)
  then obtain f gs where fs: "fs = Some f # gs" "map unmask es = map unmask gs"
    "sysent_name e = sysent_name f" "sysent_status e = sysent_status f" "sysent_value e = sysent_value f"
    by (cases fs) (auto simp: unmask_Some)
  let ?m = "\<lambda>x. if entity_mask ent then x\<lparr>sysent_mask := True\<rparr> else x"
  have ev: "evaluate_sysent env (?m e) ent (entity_operation ent) c
      = evaluate_sysent env (?m f) ent (entity_operation ent) c"
    by (rule evaluate_sysent_value) (simp_all add: fs)
  show ?case
  proof (cases "strcmp (sysent_name e) n \<noteq> 0")
    case True
    then have "map_option fst (eval_item_entities env c ent n es ores)
        = map_option fst (eval_item_entities env c ent n gs ores)"
      using "3.IH"(1) fs(2) by blast
    with True fs(1,3) show ?thesis by (simp add: option.map_comp comp_def case_prod_unfold)
  next
    case False
    have "map_option fst (eval_item_entities env c ent n es (fst (ores_add_res ores r)))
        = map_option fst (eval_item_entities env c ent n gs (fst (ores_add_res ores r)))"
      if "evaluate_sysent env (?m e) ent (entity_operation ent) c = Some r" "r \<noteq> OVAL_RESULT_INVALID" for r
      using "3.IH"(2) [OF False refl that fs(2)] .
    with False fs(1,3) ev show ?thesis
      by (auto simp: Let_def option.map_comp comp_def case_prod_unfold split: option.split)
  qed
qed auto

lemma contents_unmask:
  "eval_item_contents env st cs es ores = Some (r, es') \<Longrightarrow> map unmask es' = map unmask es"
proof (induction env st cs es ores arbitrary: r es' rule: eval_item_contents.induct)
  case (3 env st content cs es ores)
  show ?case
  proof (cases "content_entity content")
    case (Some ent)
    show ?thesis
    proof (cases "entity_name ent")
      case name: (Some name)
      from "3.prems" Some name obtain ent_res es1 where
        e: "eval_item_entities env content ent (state_entity_name st name) es ores_zero = Some (ent_res, es1)"
        by (auto split: option.splits)
      then have u: "map unmask es1 = map unmask es" by (rule entities_unmask)
      show ?thesis
        using "3.prems" Some name e u "3.IH" [OF Some name e refl]
        by (cases ent_res) (auto simp: Let_def)
    qed (use "3.prems" Some in auto)
  qed (use "3.prems" in auto)
qed auto

lemma contents_masks_irrelevant:
  "map unmask es = map unmask fs \<Longrightarrow>
   map_option fst (eval_item_contents env st cs es ores) = map_option fst (eval_item_contents env st cs fs ores)"
proof (induction env st cs es ores arbitrary: fs rule: eval_item_contents.induct)
  case (3 env st content cs es ores)
  show ?case
  proof (cases "content_entity content")
    case (Some ent)
    show ?thesis
    proof (cases "entity_name ent")
      case name: (Some name)
      let ?e = "eval_item_entities env content ent (state_entity_name st name) es ores_zero"
      let ?f = "eval_item_entities env content ent (state_entity_name st name) fs ores_zero"
      have eq: "map_option fst ?e = map_option fst ?f" by (rule entities_masks_irrelevant [OF "3.prems"])
      show ?thesis
      proof (cases ?e)
        case e: (Some re)
        obtain r es1 where re: "re = (r, es1)" by force
        with e eq obtain fs1 where f: "?f = Some (r, fs1)" by (cases ?f) auto
        have u: "map unmask es1 = map unmask fs1"
          using entities_unmask e re f "3.prems" by metis
        show ?thesis
        proof (cases r)
          case ent_ores: (Some ent_ores)
          from "3.IH" [OF Some name e re [symmetric] ent_ores refl u] show ?thesis
            by (simp add: e re f Some name ent_ores Let_def)
        qed (simp add: e re f Some name)
      qed (use eq Some name in auto)
    qed (use Some in simp)
  qed simp
qed auto

lemma eval_item_masks:
  assumes "eval_item env item ste = Some (r, item')"
  shows "unmask_item item' = unmask_item item" and "sysitem_status item' = sysitem_status item"
  using assms contents_unmask
  by (force simp: eval_item_def unmask_item_def split: option.splits prod.splits)+

lemma eval_item_masks_irrelevant:
  assumes "unmask_item item = unmask_item item2"
  shows "map_option fst (eval_item env item ste) = map_option fst (eval_item env item2 ste)"
proof -
  have u: "map unmask (sysitem_sysents item) = map unmask (sysitem_sysents item2)"
    using arg_cong [OF assms, of sysitem_sysents] by (simp add: unmask_item_def)
  let ?e = "\<lambda>i. eval_item_contents env ste (state_contents ste) (sysitem_sysents i) ores_zero"
  have r: "map_option fst (eval_item env i ste)
      = map_option (\<lambda>x. case x of None \<Rightarrow> OVAL_RESULT_ERROR
          | Some ores \<Rightarrow> ores_get_result_byopr ores (state_operator ste)) (map_option fst (?e i))" for i
    by (auto simp: eval_item_def split: option.splits)
  show ?thesis by (simp only: r contents_masks_irrelevant [OF u])
qed

section \<open>States and items are judged one by one\<close>

abbreviation (input) add_results :: "oresults \<Rightarrow> oval_result_t list \<Rightarrow> oresults" where
  "add_results \<equiv> foldl (\<lambda>ores r. fst (ores_add_res ores r))"

text \<open>The results of the states for an item, each on the item as it was collected.\<close>

definition state_results :: "'d test_env \<Rightarrow> oval_state list \<Rightarrow> sysitem \<Rightarrow> oval_result_t option list" where
  "state_results env stes item = map (\<lambda>ste. map_option fst (eval_item env item ste)) stes"

lemma item_states:
  "eval_item_states env stes item ores = Some (ores', item') \<Longrightarrow>
   (\<exists>rs. state_results env stes item = map Some rs \<and> ores' = add_results ores rs)
   \<and> unmask_item item' = unmask_item item \<and> sysitem_status item' = sysitem_status item"
proof (induction env stes item ores rule: eval_item_states.induct)
  case (2 env ste stes item ores)
  then obtain r item1 where e: "eval_item env item ste = Some (r, item1)"
    and n: "eval_item_states env stes item1 (fst (ores_add_res ores r)) = Some (ores', item')"
    by (auto split: option.splits)
  note m = eval_item_masks [OF e]
  from "2.IH" [OF e refl n] obtain rs where
    rs: "state_results env stes item1 = map Some rs" "ores' = add_results (fst (ores_add_res ores r)) rs"
    and u: "unmask_item item' = unmask_item item1" "sysitem_status item' = sysitem_status item1" by blast
  have "state_results env stes item = state_results env stes item1"
    unfolding state_results_def by (rule map_cong [OF refl], rule eval_item_masks_irrelevant) (simp add: m)
  with rs have "state_results env (ste # stes) item = map Some (r # rs)" "ores' = add_results ores (r # rs)"
    by (simp_all add: state_results_def e)
  with u m show ?case by metis
qed (simp add: state_results_def)

lemma states_masks_irrelevant:
  "unmask_item item = unmask_item item2 \<Longrightarrow>
   map_option fst (eval_item_states env stes item ores) = map_option fst (eval_item_states env stes item2 ores)"
proof (induction env stes item ores arbitrary: item2 rule: eval_item_states.induct)
  case (2 env ste stes item ores)
  have eq: "map_option fst (eval_item env item ste) = map_option fst (eval_item env item2 ste)"
    by (rule eval_item_masks_irrelevant [OF "2.prems"])
  show ?case
  proof (cases "eval_item env item ste")
    case (Some p)
    then obtain r i1 where i1: "eval_item env item ste = Some (r, i1)" by (cases p) auto
    with eq have "map_option fst (eval_item env item2 ste) = Some r" by simp
    then obtain i2 where i2: "eval_item env item2 ste = Some (r, i2)"
      by (cases "eval_item env item2 ste") auto
    have "unmask_item i1 = unmask_item i2"
      using eval_item_masks(1) [OF i1] eval_item_masks(1) [OF i2] "2.prems" by simp
    from "2.IH" [OF i1 refl this] show ?thesis by (simp add: i1 i2)
  qed (use eq in auto)
qed simp

lemma one_item_masks:
  assumes "eval_one_item env test item = Some (r, item')"
  shows "unmask_item item' = unmask_item item"
  using assms by (auto simp: eval_one_item_def dest: item_states split: if_splits)

lemma unmask_item_status: "unmask_item item = unmask_item item2 \<Longrightarrow> sysitem_status item = sysitem_status item2"
  by (metis unmask_item_def sysitem.select_convs(1) sysitem.surjective sysitem.update_convs(2))

lemma one_item_masks_irrelevant:
  assumes "unmask_item item = unmask_item item2"
  shows "map_option fst (eval_one_item env test item) = map_option fst (eval_one_item env test item2)"
proof -
  have r: "map_option fst (map_option (\<lambda>(ores, i). (f ores, i)) x) = map_option f (map_option fst x)"
    for f :: "oresults \<Rightarrow> oval_result_t" and x :: "(oresults \<times> sysitem) option"
    by (cases x) auto
  have "map_option fst (eval_one_item env test i)
      = (if sysitem_status i = SYSCHAR_STATUS_ERROR \<or> sysitem_status i = SYSCHAR_STATUS_NOT_COLLECTED
         then Some OVAL_RESULT_ERROR
         else if sysitem_status i = SYSCHAR_STATUS_DOES_NOT_EXIST then Some OVAL_RESULT_FALSE
         else map_option (\<lambda>ores. ores_get_result_byopr ores (test_state_operator test))
                (map_option fst (eval_item_states env (test_states test) i ores_zero)))" for i
    by (simp add: eval_one_item_def r)
  then show ?thesis
    by (simp only: unmask_item_status [OF assms] states_masks_irrelevant [OF assms])
qed

text \<open>The item an identifier stands for: a new, empty one when nothing was collected under it.\<close>

definition collected :: "sysitem_map \<Rightarrow> string \<Rightarrow> sysitem" where
  "collected items item_id = fst (get_new_sysitem items item_id)"

definition same_items :: "sysitem_map \<Rightarrow> sysitem_map \<Rightarrow> bool" where
  "same_items items items2 \<longleftrightarrow> (\<forall>i. unmask_item (collected items i) = unmask_item (collected items2 i))"

lemma collected_simps [simp]:
  "collected (items(i \<mapsto> x)) j = (if j = i then x else collected items j)"
  "collected (snd (get_new_sysitem items i)) j = collected items j"
  by (auto simp: collected_def get_new_sysitem_def split: option.split)

text \<open>The result of the item an identifier stands for.\<close>

definition item_result :: "'d test_env \<Rightarrow> oval_test \<Rightarrow> sysitem_map \<Rightarrow> string \<Rightarrow> oval_result_t option" where
  "item_result env test items i = map_option fst (eval_one_item env test (collected items i))"

lemma same_items_result:
  assumes "same_items items items2"
  shows "item_result env test items i = item_result env test items2 i"
  unfolding item_result_def by (rule one_item_masks_irrelevant) (use assms in \<open>simp add: same_items_def\<close>)

lemma same_items_trans: "same_items i j \<Longrightarrow> same_items j k \<Longrightarrow> same_items i k"
  by (simp add: same_items_def)

lemma check_items:
  "eval_check_items env test ritems items ores = Some (ores', rs, items') \<Longrightarrow>
   map ritem_sysitem rs = map ritem_sysitem ritems \<and> ores' = add_results ores (map ritem_result rs)
   \<and> (\<forall>x\<in>set rs. item_result env test items (ritem_sysitem x) = Some (ritem_result x))
   \<and> same_items items items'"
proof (induction env test ritems items ores arbitrary: ores' rs items' rule: eval_check_items.induct)
  case (2 env test ritem ritems items ores)
  obtain item items1 where n: "get_new_sysitem items (ritem_sysitem ritem) = (item, items1)" by force
  from "2.prems" n obtain r item' where o: "eval_one_item env test item = Some (r, item')"
    by (auto split: option.splits)
  let ?items = "items1(ritem_sysitem ritem \<mapsto> item')"
  from "2.prems" n o obtain ts where
    t: "eval_check_items env test ritems ?items (fst (ores_add_res ores r)) = Some (ores', ts, items')"
    and rs: "rs = ritem\<lparr>ritem_result := r\<rparr> # ts"
    by (auto split: option.splits)
  have c: "collected items (ritem_sysitem ritem) = item" using n by (simp add: collected_def)
  have c1: "collected items1 j = collected items j" for j using collected_simps(2) [of items "ritem_sysitem ritem"] n by simp
  have s: "same_items items ?items"
    using one_item_masks [OF o] c c1 by (auto simp: same_items_def)
  note ih = "2.IH" [OF n [symmetric] o refl t]
  have "item_result env test items (ritem_sysitem ritem) = Some r"
    by (simp add: item_result_def c o)
  moreover have "same_items items items'" using ih s same_items_trans by blast
  moreover have "\<forall>x\<in>set ts. item_result env test items (ritem_sysitem x) = Some (ritem_result x)"
    using ih [THEN conjunct2, THEN conjunct2, THEN conjunct1] by (simp only: same_items_result [OF s])
  ultimately show ?case using ih by (simp add: rs)
qed (simp add: same_items_def)

section \<open>Results are results of the language\<close>

lemma combination_valid [simp]:
  "ores_get_result_bychk ores chk \<noteq> OVAL_RESULT_INVALID"
  "ores_get_result_byopr ores op \<noteq> OVAL_RESULT_INVALID"
  by (cases chk; cases op; simp add: ores_get_result_bychk_def ores_get_result_byopr_def Let_def)+

lemma eval_item_valid: "eval_item env item ste = Some (r, item') \<Longrightarrow> r \<noteq> OVAL_RESULT_INVALID"
  by (auto simp: eval_item_def split: option.splits prod.splits)

lemma one_item_valid: "eval_one_item env test item = Some (r, item') \<Longrightarrow> r \<noteq> OVAL_RESULT_INVALID"
  by (auto simp: eval_one_item_def split: if_splits)

section \<open>The number of items with a status\<close>

definition status_of :: "sysitem_map \<Rightarrow> string \<Rightarrow> oval_syschar_status_t" where
  "status_of items i = sysitem_status (collected items i)"

definition status_count :: "sysitem_map \<Rightarrow> string list \<Rightarrow> oval_syschar_status_t \<Rightarrow> nat" where
  "status_count items ids st = count_list (map (status_of items) ids) st"

lemma status_of_case:
  "(case items i of None \<Rightarrow> SYSCHAR_STATUS_UNKNOWN | Some item \<Rightarrow> sysitem_status item) = status_of items i"
  by (simp add: status_of_def collected_def get_new_sysitem_def new_sysitem_def split: option.split)

lemma status_of_new [simp]: "status_of (snd (get_new_sysitem items i)) = status_of items"
  by (rule ext) (simp add: status_of_def)

lemma collect_items_counts:
  "fst (collect_items (map Some ids) items n m ritems seen)
     = Some (n + status_count items ids SYSCHAR_STATUS_EXISTS, m + status_count items ids SYSCHAR_STATUS_ERROR)"
  by (induction ids arbitrary: items n m ritems seen)
    (auto simp: status_of_case status_count_def Let_def oval_result_item_new_def split: prod.split)

text \<open>The identifiers that get a result: each of the object's once, in the order of first occurrence.\<close>

fun first_occurrences :: "string list \<Rightarrow> string list \<Rightarrow> string list" where
  "first_occurrences seen [] = []"
| "first_occurrences seen (i # is) =
     (if i \<in> set seen then first_occurrences seen is else i # first_occurrences (i # seen) is)"

lemma first_occurrences_props:
  "distinct (first_occurrences seen is) \<and> set (first_occurrences seen is) = set is - set seen"
  by (induction seen "is" rule: first_occurrences.induct) auto

lemma collect_items_results:
  "fst (snd (collect_items (map Some ids) items n m ritems seen))
     = ritems @ map (\<lambda>i. \<lparr>ritem_sysitem = i, ritem_result = OVAL_RESULT_NOT_EVALUATED\<rparr>) (first_occurrences seen ids)"
  by (induction ids arbitrary: items n m ritems seen)
    (auto simp: Let_def oval_test_item_consumer_def oval_result_item_new_def)

lemma collect_items_keep: "same_items items (snd (snd (collect_items ids items n m ritems seen)))"
  by (induction ids items n m ritems seen rule: collect_items.induct)
    (auto simp: same_items_def Let_def oval_result_item_new_def split: prod.split)

section \<open>The table of the existence checks\<close>

text \<open>
  The charts of \<open>ExistenceEnumeration\<close> in \<open>schemas/oval/5.10/oval-common-schema.xsd\<close>, row by row: the
  numbers are of the items that exist, that do not exist, in error, and not collected. None where
  the charts have no row.
\<close>

definition existence_table :: "oval_existence_t \<Rightarrow> nat \<Rightarrow> nat \<Rightarrow> nat \<Rightarrow> nat \<Rightarrow> oval_result_t option" where
  "existence_table check ex de er nc =
     (case check of
        OVAL_ALL_EXIST \<Rightarrow>
          (if ex \<ge> 1 \<and> de = 0 \<and> er = 0 \<and> nc = 0 then Some OVAL_RESULT_TRUE
           else if ex = 0 \<and> de = 0 \<and> er = 0 \<and> nc = 0 then Some OVAL_RESULT_FALSE
           else if de \<ge> 1 then Some OVAL_RESULT_FALSE
           else if er \<ge> 1 then Some OVAL_RESULT_ERROR
           else Some OVAL_RESULT_UNKNOWN)
      | OVAL_ANY_EXIST \<Rightarrow>
          (if er = 0 \<or> ex \<ge> 1 then Some OVAL_RESULT_TRUE else Some OVAL_RESULT_ERROR)
      | OVAL_AT_LEAST_ONE_EXISTS \<Rightarrow>
          (if ex \<ge> 1 then Some OVAL_RESULT_TRUE
           else if de \<ge> 1 \<and> er = 0 \<and> nc = 0 then Some OVAL_RESULT_FALSE
           else if er \<ge> 1 then Some OVAL_RESULT_ERROR
           else if nc \<ge> 1 then Some OVAL_RESULT_UNKNOWN
           else None)
      | OVAL_NONE_EXIST \<Rightarrow>
          (if ex = 0 \<and> er = 0 \<and> nc = 0 then Some OVAL_RESULT_TRUE
           else if ex \<ge> 1 then Some OVAL_RESULT_FALSE
           else if er \<ge> 1 then Some OVAL_RESULT_ERROR
           else Some OVAL_RESULT_UNKNOWN)
      | OVAL_ONLY_ONE_EXISTS \<Rightarrow>
          (if ex = 1 \<and> er = 0 \<and> nc = 0 then Some OVAL_RESULT_TRUE
           else if ex \<ge> 2 then Some OVAL_RESULT_FALSE
           else if ex = 0 \<and> er = 0 \<and> nc = 0 then Some OVAL_RESULT_FALSE
           else if er \<ge> 1 then Some OVAL_RESULT_ERROR
           else Some OVAL_RESULT_UNKNOWN)
      | _ \<Rightarrow> None)"

lemma existence_table_eval:
  assumes "existence_table check ex de er 0 = Some r" and "check = OVAL_ALL_EXIST \<Longrightarrow> de = 0"
  shows "eval_check_existence check ex er
    = (if check = OVAL_NONE_EXIST \<and> ex \<ge> 1 \<and> er \<ge> 1 then OVAL_RESULT_ERROR else r)"
  using assms
  by (cases check) (auto simp: existence_table_def eval_check_existence_def split: if_splits)

section \<open>The result of a state for an item\<close>

definition content_wf :: "oval_state_content \<Rightarrow> bool" where
  "content_wf c = (case content_entity c of None \<Rightarrow> False | Some ent \<Rightarrow> entity_name ent \<noteq> None)"

text \<open>The results of a content of the state: of every entity of the item with its name.\<close>

definition entity_results ::
    "'d test_env \<Rightarrow> oval_state \<Rightarrow> oval_state_content \<Rightarrow> sysent list \<Rightarrow> oval_result_t option list" where
  "entity_results env st c es =
     (let ent = the (content_entity c); n = state_entity_name st (the (entity_name ent))
      in map (\<lambda>e. evaluate_sysent env e ent (entity_operation ent) c) (filter (\<lambda>e. sysent_name e = n) es))"

lemma entities_results:
  "map (\<lambda>e. evaluate_sysent env e ent (entity_operation ent) c) (filter (\<lambda>e. sysent_name e = n) es) = map Some rs \<Longrightarrow>
   OVAL_RESULT_INVALID \<notin> set rs \<Longrightarrow>
   map_option fst (eval_item_entities env c ent n (map Some es) ores) = Some (Some (add_results ores rs))"
proof (induction es arbitrary: ores rs)
  case (Cons e es)
  show ?case
  proof (cases "sysent_name e = n")
    case False
    then show ?thesis using Cons.IH [of rs] Cons.prems
      by (simp add: strcmp_eq_0 option.map_comp comp_def case_prod_unfold)
  next
    case True
    with Cons.prems obtain r ts where
      r: "rs = r # ts" "evaluate_sysent env e ent (entity_operation ent) c = Some r" "r \<noteq> OVAL_RESULT_INVALID"
      and ts: "map (\<lambda>e. evaluate_sysent env e ent (entity_operation ent) c) (filter (\<lambda>e. sysent_name e = n) es) = map Some ts"
        "OVAL_RESULT_INVALID \<notin> set ts"
      by auto
    have "evaluate_sysent env (e\<lparr>sysent_mask := True\<rparr>) ent (entity_operation ent) c
        = evaluate_sysent env e ent (entity_operation ent) c"
      by (rule evaluate_sysent_value) simp_all
    with r True Cons.IH [OF ts] show ?thesis
      by (simp add: strcmp_eq_0 Let_def option.map_comp comp_def case_prod_unfold)
  qed
qed simp

lemma contents_results:
  "\<forall>c\<in>set cs. content_wf c \<and> entity_results env st c es = map Some (res c) \<and> OVAL_RESULT_INVALID \<notin> set (res c) \<Longrightarrow>
   map unmask fs = map unmask (map Some es) \<Longrightarrow>
   map_option fst (eval_item_contents env st (map Some cs) fs ores)
     = Some (Some (add_results ores (map (\<lambda>c. check_table (content_ent_check c) OVAL_RESULT_ERROR (res c)) cs)))"
proof (induction cs arbitrary: ores fs)
  case (Cons c cs)
  then obtain ent n where c: "content_entity c = Some ent" "entity_name ent = Some n"
    by (auto simp: content_wf_def split: option.splits)
  let ?n = "state_entity_name st n"
  have "map_option fst (eval_item_entities env c ent ?n fs ores_zero)
      = map_option fst (eval_item_entities env c ent ?n (map Some es) ores_zero)"
    by (rule entities_masks_irrelevant) (fact Cons.prems(2))
  also have "\<dots> = Some (Some (ores_of (res c)))"
    using Cons.prems(1) c unfolding ores_of_def
    by (intro entities_results) (auto simp: entity_results_def Let_def)
  finally obtain gs where g: "eval_item_entities env c ent ?n fs ores_zero = Some (Some (ores_of (res c)), gs)"
    by (cases "eval_item_entities env c ent ?n fs ores_zero") auto
  with Cons.prems(2) have u: "map unmask gs = map unmask (map Some es)" by (metis entities_unmask)
  have b: "ores_get_result_bychk (ores_of (res c)) (content_ent_check c)
      = check_table (content_ent_check c) OVAL_RESULT_ERROR (res c)"
    using Cons.prems(1) by (intro bychk_table) simp
  show ?case
    using Cons.IH [OF _ u] Cons.prems(1) by (simp add: c g b Let_def)
qed simp

lemma check_table_valid:
  "OVAL_RESULT_INVALID \<notin> set rs \<Longrightarrow> OVAL_RESULT_INVALID \<noteq> check_table chk OVAL_RESULT_ERROR rs"
  by (metis bychk_table combination_valid(1))

section \<open>A test keeps the collected items\<close>

lemma existence_valid: "eval_check_existence check ex er \<noteq> OVAL_RESULT_INVALID"
  by (cases check) (simp_all add: eval_check_existence_def)

lemma check_state_keeps:
  "eval_check_state env test ritems items = Some (r, rs, items') \<Longrightarrow>
   r \<noteq> OVAL_RESULT_INVALID \<and> same_items items items'"
  by (auto simp: eval_check_state_def dest: check_items)

lemma evaluate_items_keep:
  assumes "result_test_evaluate_items env test sc ritems items = Some (r, rs, items')"
  shows "r \<noteq> OVAL_RESULT_INVALID \<and> same_items items items'"
proof -
  obtain c rs1 items1 where c: "collect_items (syschar_items sc) items 0 0 ritems [] = (c, rs1, items1)"
    by (metis prod.collapse)
  then have keep: "same_items items items1"
    using collect_items_keep [of items "syschar_items sc" 0 0 ritems "[]"] by simp
  note step = same_items_trans [OF keep]
  show ?thesis
  proof (cases c)
    case (Some n)
    then show ?thesis
      using assms keep
      by (cases n; cases "syschar_flag sc")
        (auto simp: result_test_evaluate_items_def c Let_def existence_valid
          dest: check_state_keeps intro: step split: if_splits)
  qed (use assms keep in \<open>auto simp: result_test_evaluate_items_def c\<close>)
qed

section \<open>Properties\<close>

text \<open>A test that every item has the user id 0, for the instances of the theorems.\<close>

definition example_env :: "nat test_env" where
  "example_env = \<lparr>env_cmp = no_libraries, env_variable = (\<lambda>_. (1, SYSCHAR_FLAG_ERROR, []))\<rparr>"

definition uid :: "string \<Rightarrow> sysent" where
  "uid n = \<lparr>sysent_name = ''uid'', sysent_status = SYSCHAR_STATUS_EXISTS, sysent_value = Some n, sysent_mask = False,
     sysent_datatype = OVAL_DATATYPE_STRING, sysent_record_fields = []\<rparr>"

definition uid_0 :: oval_state_content where
  "uid_0 = \<lparr>content_entity = Some \<lparr>entity_name = Some ''uid'', entity_varref_type = OVAL_ENTITY_VARREF_NONE,
       entity_variable = None, entity_value = Some \<lparr>value_datatype = OVAL_DATATYPE_STRING, value_text = Some ''0''\<rparr>,
       entity_operation = OVAL_OPERATION_EQUALS, entity_mask = True\<rparr>,
     content_ent_check = OVAL_CHECK_ALL, content_var_check = OVAL_CHECK_ALL\<rparr>"

definition root_state :: oval_state where
  "root_state = \<lparr>state_subtype = OVAL_INDEPENDENT_TEXT_FILE_CONTENT, state_schema_version = 0,
     state_operator = OVAL_OPERATOR_AND, state_contents = [Some uid_0]\<rparr>"

definition user_item :: "string \<Rightarrow> sysitem" where
  "user_item n = \<lparr>sysitem_status = SYSCHAR_STATUS_EXISTS, sysitem_sysents = [Some (uid n)]\<rparr>"

definition example_test :: "oval_existence_t \<Rightarrow> oval_state list \<Rightarrow> oval_test" where
  "example_test existence states = \<lparr>test_id = ''t'', test_subtype = OVAL_INDEPENDENT_TEXT_FILE_CONTENT, test_existence = existence,
     test_check = OVAL_CHECK_ONLY_ONE, test_state_operator = OVAL_OPERATOR_AND, test_object = ''o'', test_states = states\<rparr>"

definition users :: sysitem_map where
  "users = [''1'' \<mapsto> user_item ''0'', ''2'' \<mapsto> user_item ''5'']"

lemmas example_defs = example_env_def uid_def uid_0_def root_state_def user_item_def example_test_def users_def

text \<open>
  C6. The result of an item against a state: every content of the state is decided by its entity check
  over the results of the entities of its name, and the state's operator combines the contents, by
  the tables of the language. The mask an earlier content sets on an entity plays no role.
\<close>

theorem eval_item_correct:
  assumes "sysitem_sysents item = map Some es" and "state_contents st = map Some cs"
    and "\<forall>c\<in>set cs. content_wf c \<and> entity_results env st c es = map Some (res c) \<and> OVAL_RESULT_INVALID \<notin> set (res c)"
  shows "map_option fst (eval_item env item st)
    = Some (operator_table (state_operator st) OVAL_RESULT_ERROR
        (map (\<lambda>c. check_table (content_ent_check c) OVAL_RESULT_ERROR (res c)) cs))"
proof -
  let ?rs = "map (\<lambda>c. check_table (content_ent_check c) OVAL_RESULT_ERROR (res c)) cs"
  have "OVAL_RESULT_INVALID \<notin> set ?rs"
    using assms(3) check_table_valid by auto
  note op = byopr_table [OF this]
  obtain fs where "eval_item_contents env st (map Some cs) (map Some es) ores_zero = Some (Some (ores_of ?rs), fs)"
    using contents_results [OF assms(3) refl, of ores_zero] by (auto simp: ores_of_def)
  then show ?thesis by (simp add: eval_item_def assms op)
qed

theorem eval_item_correct_witness:
  "map_option fst (eval_item example_env (user_item ''5'') root_state) = Some OVAL_RESULT_FALSE"
proof -
  have "entity_results example_env root_state uid_0 [uid ''5''] = [Some OVAL_RESULT_FALSE]"
    "content_wf uid_0 = True" by code_simp+
  then have "map_option fst (eval_item example_env (user_item ''5'') root_state)
      = Some (operator_table (state_operator root_state) OVAL_RESULT_ERROR
          (map (\<lambda>c. check_table (content_ent_check c) OVAL_RESULT_ERROR [OVAL_RESULT_FALSE]) [uid_0]))"
    by (intro eval_item_correct [where es = "[uid ''5'']"]) (simp_all add: user_item_def root_state_def)
  then show ?thesis
    by (simp add: root_state_def uid_0_def check_table_def operator_table_def all_table_def)
qed

text \<open>
  C7. The states' part of a test: every identifier keeps its place and gets the result its item, as it
  was collected, has against the states; the result of the test is the table of its check over
  these results; nothing of the collected items changes but masks.
\<close>

theorem eval_check_state_correct:
  assumes "eval_check_state env test ritems items = Some (r, rs, items')"
  shows "map ritem_sysitem rs = map ritem_sysitem ritems
    \<and> (\<forall>x\<in>set rs. item_result env test items (ritem_sysitem x) = Some (ritem_result x))
    \<and> r = check_table (test_check test) OVAL_RESULT_ERROR (map ritem_result rs)
    \<and> same_items items items'"
proof -
  from assms obtain ores where e: "eval_check_items env test ritems items ores_zero = Some (ores, rs, items')"
    and r: "r = ores_get_result_bychk ores (test_check test)"
    by (auto simp: eval_check_state_def)
  note c = check_items [OF e]
  then have "OVAL_RESULT_INVALID \<notin> set (map ritem_result rs)"
    using one_item_valid by (fastforce simp: item_result_def)
  from bychk_table [OF this] c r show ?thesis by (simp add: ores_of_def)
qed

theorem eval_check_state_correct_witness:
  "\<exists>items'. eval_check_state example_env (example_test OVAL_ALL_EXIST [root_state])
       [\<lparr>ritem_sysitem = ''1'', ritem_result = OVAL_RESULT_NOT_EVALUATED\<rparr>,
        \<lparr>ritem_sysitem = ''2'', ritem_result = OVAL_RESULT_NOT_EVALUATED\<rparr>] users
     = Some (OVAL_RESULT_TRUE, [\<lparr>ritem_sysitem = ''1'', ritem_result = OVAL_RESULT_TRUE\<rparr>,
                                \<lparr>ritem_sysitem = ''2'', ritem_result = OVAL_RESULT_FALSE\<rparr>], items')
     \<and> same_items users items'"
proof -
  let ?c = "eval_check_state example_env (example_test OVAL_ALL_EXIST [root_state])
       [\<lparr>ritem_sysitem = ''1'', ritem_result = OVAL_RESULT_NOT_EVALUATED\<rparr>,
        \<lparr>ritem_sysitem = ''2'', ritem_result = OVAL_RESULT_NOT_EVALUATED\<rparr>] users"
  have "map_option (\<lambda>(r, rs, items). (r, rs)) ?c
      = Some (OVAL_RESULT_TRUE, [\<lparr>ritem_sysitem = ''1'', ritem_result = OVAL_RESULT_TRUE\<rparr>,
                                 \<lparr>ritem_sysitem = ''2'', ritem_result = OVAL_RESULT_FALSE\<rparr>])"
    by code_simp
  then obtain items' where "?c = Some (OVAL_RESULT_TRUE, [\<lparr>ritem_sysitem = ''1'', ritem_result = OVAL_RESULT_TRUE\<rparr>,
                                 \<lparr>ritem_sysitem = ''2'', ritem_result = OVAL_RESULT_FALSE\<rparr>], items')"
    by (cases ?c) auto
  with eval_check_state_correct [OF this] show ?thesis by blast
qed

text \<open>
  C10. The existence check of a test without states on an object collected completely (the flag is
  COMPLETE and no item is missing) decides by the charts of the language over the numbers of items of each
  status, when it is read with two numbers that the code does not count as zero: that of the
  \<open>not collected\<close> items, and for \<open>all_exist\<close> that of the items that do not exist. So the charts are met on
  collections without such items, and on others the result is that of the collection without them. The one
  other difference is \<open>none_exist\<close> on a collection with both existing items and errors, where the result is
  an error and the charts say false; an \<open>at_least_one_exists\<close> of an empty collection has no row.
\<close>

theorem existence_correct:
  assumes "test_states test = []" and "syschar_flag sc = SYSCHAR_FLAG_COMPLETE" and "syschar_items sc = map Some ids"
    and "existence_table (test_existence test) (status_count items ids SYSCHAR_STATUS_EXISTS)
           (if test_existence test = OVAL_ALL_EXIST then 0 else status_count items ids SYSCHAR_STATUS_DOES_NOT_EXIST)
           (status_count items ids SYSCHAR_STATUS_ERROR) 0 = Some r"
  shows "map_option fst (result_test_evaluate_items env test sc ritems items)
    = Some (if test_existence test = OVAL_NONE_EXIST \<and> status_count items ids SYSCHAR_STATUS_EXISTS \<ge> 1
               \<and> status_count items ids SYSCHAR_STATUS_ERROR \<ge> 1
            then OVAL_RESULT_ERROR else r)"
proof -
  let ?ex = "status_count items ids SYSCHAR_STATUS_EXISTS"
  let ?er = "status_count items ids SYSCHAR_STATUS_ERROR"
  obtain rs items' where c: "collect_items (map Some ids) items 0 0 ritems [] = (Some (?ex, ?er), rs, items')"
    using collect_items_counts [of ids items 0 0 ritems "[]"] by (metis add_0 prod.collapse)
  have "map_option fst (result_test_evaluate_items env test sc ritems items)
      = Some (eval_check_existence (test_existence test) ?ex ?er)"
    by (simp add: result_test_evaluate_items_def assms(1-3) c)
  with existence_table_eval [OF assms(4)] show ?thesis by simp
qed

theorem existence_correct_witness:
  "map_option fst (result_test_evaluate_items example_env (example_test OVAL_ONLY_ONE_EXISTS [])
     \<lparr>syschar_flag = SYSCHAR_FLAG_COMPLETE, syschar_items = [Some ''1'', Some ''2'']\<rparr> [] users)
     = Some OVAL_RESULT_FALSE"
  by (subst existence_correct [where ids = "[''1'', ''2'']" and r = OVAL_RESULT_FALSE])
    (simp_all add: example_defs existence_table_def status_count_def status_of_def collected_def get_new_sysitem_def)

text \<open>
  C16. Evaluating a test leaves the result in the test and the collected objects as they are (of the
  collected items only masks change), if the test's own result was not invalid; the result is a result of the
  language, and if it is not \<open>not evaluated\<close> it stays: evaluating again returns it and changes nothing. (A
  result that is \<open>not evaluated\<close> is computed again, see \<open>not_evaluated_test_counts_twice\<close>.)
\<close>

theorem test_evaluation_caches:
  assumes "oval_result_test_eval env model rtest = Some (r, rtest', model')"
    and "rtest_result rtest \<noteq> OVAL_RESULT_INVALID"
  shows "rtest_result rtest' = r \<and> r \<noteq> OVAL_RESULT_INVALID \<and> rtest_test rtest' = rtest_test rtest
    \<and> model_syschars model' = model_syschars model
    \<and> same_items (model_sysitems model) (model_sysitems model')
    \<and> (r \<noteq> OVAL_RESULT_NOT_EVALUATED \<longrightarrow>
         oval_result_test_eval env model' rtest' = Some (r, rtest', model'))"
  using assms
  by (auto simp: oval_result_test_eval_def result_test_result_def same_items_def split: if_splits option.splits
      dest: evaluate_items_keep [unfolded same_items_def])

theorem test_evaluation_caches_witness:
  "\<exists>rtest model. oval_result_test_eval example_env model rtest = Some (OVAL_RESULT_TRUE, rtest, model)
     \<and> rtest_test rtest = example_test OVAL_ANY_EXIST []"
proof -
  let ?t = "\<lparr>rtest_test = example_test OVAL_ANY_EXIST [], rtest_result = OVAL_RESULT_NOT_EVALUATED,
     rtest_items = [], rtest_instance = 1, rtest_bindings_initialized = False\<rparr>"
  let ?m = "\<lparr>model_syschars = [''o'' \<mapsto> \<lparr>syschar_flag = SYSCHAR_FLAG_COMPLETE, syschar_items = [Some ''1'']\<rparr>],
     model_sysitems = users\<rparr>"
  have "map_option fst (oval_result_test_eval example_env ?m ?t) = Some OVAL_RESULT_TRUE" by code_simp
  then obtain t m where "oval_result_test_eval example_env ?m ?t = Some (OVAL_RESULT_TRUE, t, m)"
    by (cases "oval_result_test_eval example_env ?m ?t") auto
  from test_evaluation_caches [OF this] show ?thesis by auto
qed

end
