(* ===== verification/Oval_Criteria.thy ===== *)
theory Oval_Criteria
  imports Oval_Test
begin

text \<open>
  Definitions and their criteria, \<open>results/oval_resultCriteriaNode.c\<close>, \<open>results/oval_resultDefinition.c\<close>
  and \<open>results/oval_resultSystem.c\<close>: the trees of results made from the criteria of the definitions, and
  their evaluation, which caches the result of every node, definition and test it reaches.

  Result definitions and result tests are shared by the nodes that refer to them. A system holds them in
  two lists, in the order they were added, and a node refers to them by position; the entry of an
  identifier is the last one with it (\<open>oval_smc_get_last\<close>). A result None is an abort in a test or a
  NULL pointer that is read, or, where a function has fuel, the end of the fuel: the recursion along
  extended definitions is the program's, and does not end on definitions that extend each other.
\<close>

section \<open>Definitions\<close>

datatype oval_criteria_node =
    CRITERIA bool bool oval_operator_t "oval_criteria_node list"
  | CRITERION bool bool string
  | EXTENDDEF bool bool "string option"

record oval_definition =
  definition_id :: string
  definition_criteria :: "oval_criteria_node option"

record oval_definition_model =
  dmodel_definitions :: "oval_definition list"
  dmodel_tests :: "oval_test list"

definition get_definition :: "oval_definition_model \<Rightarrow> string \<Rightarrow> oval_definition option" where
  "get_definition dm ident = find (\<lambda>d. definition_id d = ident) (dmodel_definitions dm)"

definition get_test :: "oval_definition_model \<Rightarrow> string \<Rightarrow> oval_test option" where
  "get_test dm ident = find (\<lambda>t. test_id t = ident) (dmodel_tests dm)"

section \<open>Results\<close>

datatype result_criteria_node =
    RCRITERIA oval_result_t bool bool oval_operator_t "result_criteria_node list"
  | RCRITERION oval_result_t bool bool nat int
  | REXTENDDEF oval_result_t bool bool "nat option" int

record oval_result_definition =
  rdef_definition :: string
  rdef_result :: oval_result_t
  rdef_criteria :: "result_criteria_node option"
  rdef_instance :: int
  rdef_hint :: int

record result_system =
  sys_definitions :: "oval_result_definition list"
  sys_tests :: "oval_result_test list"
  sys_syschar_model :: syschar_model
  sys_definition_model :: oval_definition_model

text \<open>\<open>oval_smc_get_last\<close>: the position of the last entry with an identifier.\<close>

fun get_last :: "('a \<Rightarrow> string) \<Rightarrow> string \<Rightarrow> 'a list \<Rightarrow> nat option" where
  "get_last key ident [] = None"
| "get_last key ident (x # xs) =
     (case get_last key ident xs of
        Some i \<Rightarrow> Some (Suc i)
      | None \<Rightarrow> if key x = ident then Some 0 else None)"

definition oval_result_system_get_definition :: "result_system \<Rightarrow> string \<Rightarrow> nat option" where
  "oval_result_system_get_definition sys ident = get_last rdef_definition ident (sys_definitions sys)"

definition oval_result_system_get_test :: "result_system \<Rightarrow> string \<Rightarrow> nat option" where
  "oval_result_system_get_test sys ident = get_last (\<lambda>t. test_id (rtest_test t)) ident (sys_tests sys)"

definition oval_result_system_add_definition ::
    "result_system \<Rightarrow> oval_result_definition \<Rightarrow> nat \<times> result_system" where
  "oval_result_system_add_definition sys d =
     (length (sys_definitions sys), sys\<lparr>sys_definitions := sys_definitions sys @ [d]\<rparr>)"

definition oval_result_system_add_test :: "result_system \<Rightarrow> oval_result_test \<Rightarrow> nat \<times> result_system" where
  "oval_result_system_add_test sys t = (length (sys_tests sys), sys\<lparr>sys_tests := sys_tests sys @ [t]\<rparr>)"

section \<open>The results of a definition are made\<close>

text \<open>
  The tests and definitions of the nodes are those of the definition model of the system, where
  \<open>oval_result_test_new\<close> and \<open>oval_result_definition_new\<close> look their identifiers up again.
\<close>

definition oval_result_test_new :: "oval_test \<Rightarrow> oval_result_test" where
  "oval_result_test_new test =
     \<lparr>rtest_test = test, rtest_result = OVAL_RESULT_NOT_EVALUATED, rtest_items = [], rtest_instance = 1,
      rtest_bindings_initialized = False\<rparr>"

definition make_result_test_from_oval_test :: "oval_test \<Rightarrow> int \<Rightarrow> oval_result_test" where
  "make_result_test_from_oval_test test variable_instance =
     (oval_result_test_new test)\<lparr>rtest_instance := variable_instance\<rparr>"

definition oval_result_system_get_new_test :: "result_system \<Rightarrow> oval_test \<Rightarrow> int \<Rightarrow> nat \<times> result_system" where
  "oval_result_system_get_new_test sys test variable_instance =
     (case oval_result_system_get_test sys (test_id test) of
        None \<Rightarrow> oval_result_system_add_test sys (make_result_test_from_oval_test test variable_instance)
      | Some i \<Rightarrow>
          if variable_instance \<noteq> 0 \<and> rtest_instance (sys_tests sys ! i) \<noteq> variable_instance then
            oval_result_system_add_test sys (make_result_test_from_oval_test test variable_instance)
          else (i, sys))"

definition oval_result_definition_new :: "string \<Rightarrow> oval_result_definition" where
  "oval_result_definition_new ident =
     \<lparr>rdef_definition = ident, rdef_result = OVAL_RESULT_NOT_EVALUATED, rdef_criteria = None,
      rdef_instance = 1, rdef_hint = 1\<rparr>"

definition oval_result_definition_set_instance :: "oval_result_definition \<Rightarrow> int \<Rightarrow> oval_result_definition" where
  "oval_result_definition_set_instance d i = d\<lparr>rdef_instance := i, rdef_hint := i\<rparr>"

function make_result_criteria_node ::
      "nat \<Rightarrow> result_system \<Rightarrow> oval_criteria_node \<Rightarrow> int \<Rightarrow> (result_criteria_node \<times> result_system) option"
  and make_result_criteria_nodes ::
      "nat \<Rightarrow> result_system \<Rightarrow> oval_criteria_node list \<Rightarrow> int \<Rightarrow>
       (result_criteria_node list \<times> result_system) option"
  and make_result_definition ::
      "nat \<Rightarrow> result_system \<Rightarrow> oval_definition \<Rightarrow> int \<Rightarrow> (oval_result_definition \<times> result_system) option"
  and oval_result_system_get_new_definition ::
      "nat \<Rightarrow> result_system \<Rightarrow> string option \<Rightarrow> int \<Rightarrow> (nat option \<times> result_system) option"
where
  "make_result_criteria_node fuel sys (CRITERIA negate appl op subs) vi =
     map_option (\<lambda>(rsubs, sys'). (RCRITERIA OVAL_RESULT_NOT_EVALUATED negate appl op rsubs, sys'))
       (make_result_criteria_nodes fuel sys subs vi)"
| "make_result_criteria_node fuel sys (CRITERION negate appl test_ref) vi =
     (case get_test (sys_definition_model sys) test_ref of
        None \<Rightarrow> None
      | Some test \<Rightarrow>
          (case oval_result_system_get_new_test sys test vi of
             (t, sys') \<Rightarrow> Some (RCRITERION OVAL_RESULT_NOT_EVALUATED negate appl t 1, sys')))"
| "make_result_criteria_node fuel sys (EXTENDDEF negate appl definition_ref) vi =
     map_option (\<lambda>(d, sys'). (REXTENDDEF OVAL_RESULT_NOT_EVALUATED negate appl d 1, sys'))
       (oval_result_system_get_new_definition fuel sys definition_ref vi)"
| "make_result_criteria_nodes fuel sys [] vi = Some ([], sys)"
| "make_result_criteria_nodes fuel sys (sub # subs) vi =
     (case make_result_criteria_node fuel sys sub vi of
        None \<Rightarrow> None
      | Some (rsub, sys1) \<Rightarrow>
          map_option (\<lambda>(rsubs, sys2). (rsub # rsubs, sys2)) (make_result_criteria_nodes fuel sys1 subs vi))"
| "make_result_definition 0 sys d vi = None"
| "make_result_definition (Suc fuel) sys d vi =
     (let rdef = oval_result_definition_set_instance (oval_result_definition_new (definition_id d)) vi in
      case definition_criteria d of
        None \<Rightarrow> Some (rdef, sys)
      | Some crit \<Rightarrow>
          map_option (\<lambda>(rcrit, sys'). (rdef\<lparr>rdef_criteria := Some rcrit\<rparr>, sys'))
            (make_result_criteria_node fuel sys crit vi))"
| "oval_result_system_get_new_definition fuel sys None vi = Some (None, sys)"
| "oval_result_system_get_new_definition fuel sys (Some ident) vi =
     (case get_definition (sys_definition_model sys) ident of
        None \<Rightarrow> Some (None, sys)
      | Some d \<Rightarrow>
          (let add = map_option (\<lambda>(rdef, sys'). let (i, sys'') = oval_result_system_add_definition sys' rdef
                                                in (Some i, sys''))
           in case oval_result_system_get_definition sys ident of
                None \<Rightarrow> add (make_result_definition fuel sys d (if vi \<noteq> 0 then vi else 1))
              | Some i \<Rightarrow>
                  (let rdef = sys_definitions sys ! i in
                   if rdef_hint rdef \<noteq> rdef_instance rdef then
                     add (make_result_definition fuel sys d (rdef_hint rdef))
                   else Some (Some i, sys))))"
  by pat_completeness auto
termination
  by (relation "measures [
        \<lambda>x. case x of Inl (Inl (f, _)) \<Rightarrow> f | Inl (Inr (f, _)) \<Rightarrow> f | Inr (Inl (f, _)) \<Rightarrow> f | Inr (Inr (f, _)) \<Rightarrow> f,
        \<lambda>x. case x of Inl (Inl (_, _, n, _)) \<Rightarrow> 2 + size n | Inl (Inr (_, _, ns, _)) \<Rightarrow> 2 + size_list size ns
               | Inr (Inl _) \<Rightarrow> 0 | Inr (Inr _) \<Rightarrow> 1]") auto

section \<open>Evaluation\<close>

definition oval_result_negate :: "bool \<Rightarrow> oval_result_t \<Rightarrow> oval_result_t" where
  "oval_result_negate negate result =
     (if negate \<and> result = OVAL_RESULT_TRUE then OVAL_RESULT_FALSE
      else if negate \<and> result = OVAL_RESULT_FALSE then OVAL_RESULT_TRUE else result)"

text \<open>The evaluation of the test a criterion refers to.\<close>

definition eval_test_at :: "'d test_env \<Rightarrow> nat \<Rightarrow> result_system \<Rightarrow> (oval_result_t \<times> result_system) option" where
  "eval_test_at env t sys =
     (if t < length (sys_tests sys) then
        map_option (\<lambda>(r, rtest, model). (r, sys\<lparr>sys_tests := (sys_tests sys)[t := rtest], sys_syschar_model := model\<rparr>))
          (oval_result_test_eval env (sys_syschar_model sys) (sys_tests sys ! t))
      else None)"

text \<open>
  A node is evaluated unless it holds a result; then its result is set. The subnodes of a criteria node
  are all evaluated, in order, whatever their results are.
\<close>

function oval_result_criteria_node_eval ::
      "nat \<Rightarrow> 'd test_env \<Rightarrow> result_criteria_node \<Rightarrow> result_system \<Rightarrow>
       (oval_result_t \<times> result_criteria_node \<times> result_system) option"
  and eval_subnodes ::
      "nat \<Rightarrow> 'd test_env \<Rightarrow> result_criteria_node list \<Rightarrow> oresults \<Rightarrow> result_system \<Rightarrow>
       (oresults \<times> result_criteria_node list \<times> result_system) option"
  and oval_result_definition_eval ::
      "nat \<Rightarrow> 'd test_env \<Rightarrow> nat \<Rightarrow> result_system \<Rightarrow> (oval_result_t \<times> result_system) option"
where
  "oval_result_criteria_node_eval fuel env (RCRITERIA res negate appl op subs) sys =
     (if res = OVAL_RESULT_NOT_EVALUATED then
        map_option (\<lambda>(node_res, subs', sys').
            (let r = oval_result_negate negate (ores_get_result_byopr node_res op)
             in (r, RCRITERIA r negate appl op subs', sys')))
          (eval_subnodes fuel env subs ores_zero sys)
      else Some (res, RCRITERIA res negate appl op subs, sys))"
| "oval_result_criteria_node_eval fuel env (RCRITERION res negate appl t vi) sys =
     (if res = OVAL_RESULT_NOT_EVALUATED then
        map_option (\<lambda>(r0, sys').
            (let r = oval_result_negate negate r0 in (r, RCRITERION r negate appl t vi, sys')))
          (eval_test_at env t sys)
      else Some (res, RCRITERION res negate appl t vi, sys))"
| "oval_result_criteria_node_eval fuel env (REXTENDDEF res negate appl d vi) sys =
     (if res = OVAL_RESULT_NOT_EVALUATED then
        (case d of
           None \<Rightarrow> None
         | Some i \<Rightarrow>
             map_option (\<lambda>(r0, sys').
                 (let r = oval_result_negate negate r0 in (r, REXTENDDEF r negate appl d vi, sys')))
               (oval_result_definition_eval fuel env i sys))
      else Some (res, REXTENDDEF res negate appl d vi, sys))"
| "eval_subnodes fuel env [] node_res sys = Some (node_res, [], sys)"
| "eval_subnodes fuel env (sub # subs) node_res sys =
     (case oval_result_criteria_node_eval fuel env sub sys of
        None \<Rightarrow> None
      | Some (subres, sub', sys1) \<Rightarrow>
          map_option (\<lambda>(res, subs', sys2). (res, sub' # subs', sys2))
            (eval_subnodes fuel env subs (fst (ores_add_res node_res subres)) sys1))"
| "oval_result_definition_eval 0 env i sys = None"
| "oval_result_definition_eval (Suc fuel) env i sys =
     (if i < length (sys_definitions sys) then
        (let rdef = sys_definitions sys ! i in
         if rdef_result rdef = OVAL_RESULT_NOT_EVALUATED then
           (case rdef_criteria rdef of
              None \<Rightarrow>
                Some (OVAL_RESULT_ERROR,
                  sys\<lparr>sys_definitions := (sys_definitions sys)[i := rdef\<lparr>rdef_result := OVAL_RESULT_ERROR\<rparr>]\<rparr>)
            | Some crit \<Rightarrow>
                map_option (\<lambda>(r, crit', sys').
                    (r, sys'\<lparr>sys_definitions := (sys_definitions sys')
                               [i := rdef\<lparr>rdef_result := r, rdef_criteria := Some crit'\<rparr>]\<rparr>))
                  (oval_result_criteria_node_eval fuel env crit sys))
         else Some (rdef_result rdef, sys))
      else None)"
  by pat_completeness auto
termination
  by (relation "measures [
        \<lambda>x. case x of Inl (f, _) \<Rightarrow> f | Inr (Inl (f, _)) \<Rightarrow> f | Inr (Inr (f, _)) \<Rightarrow> f,
        \<lambda>x. case x of Inl (_, _, n, _) \<Rightarrow> 2 + size n | Inr (Inl (_, _, ns, _)) \<Rightarrow> 2 + size_list size ns
               | Inr (Inr _) \<Rightarrow> 0]") auto

text \<open>Evaluation of one definition, and of all definitions of the model, by the system.\<close>

definition oval_result_system_eval_definition ::
    "nat \<Rightarrow> 'd test_env \<Rightarrow> string \<Rightarrow> result_system \<Rightarrow> (int \<times> result_system) option" where
  "oval_result_system_eval_definition fuel env ident sys =
     (case get_definition (sys_definition_model sys) ident of
        None \<Rightarrow> Some (-1, sys)
      | Some d \<Rightarrow>
          (case oval_result_system_get_new_definition fuel sys (Some ident) 1 of
             Some (Some i, sys') \<Rightarrow> map_option (\<lambda>(r, sys''). (0, sys'')) (oval_result_definition_eval fuel env i sys')
           | _ \<Rightarrow> None))"

fun eval_definitions :: "nat \<Rightarrow> 'd test_env \<Rightarrow> oval_definition list \<Rightarrow> result_system \<Rightarrow> result_system option" where
  "eval_definitions fuel env [] sys = Some sys"
| "eval_definitions fuel env (d # ds) sys =
     (case oval_result_system_get_new_definition fuel sys (Some (definition_id d)) 0 of
        Some (Some i, sys1) \<Rightarrow>
          (case oval_result_definition_eval fuel env i sys1 of
             None \<Rightarrow> None
           | Some (r, sys2) \<Rightarrow> eval_definitions fuel env ds sys2)
      | _ \<Rightarrow> None)"

definition oval_result_system_eval :: "nat \<Rightarrow> 'd test_env \<Rightarrow> result_system \<Rightarrow> result_system option" where
  "oval_result_system_eval fuel env sys = eval_definitions fuel env (dmodel_definitions (sys_definition_model sys)) sys"

end
