(* ===== verification/Oval_Criteria_Props.thy ===== *)
theory Oval_Criteria_Props
  imports Oval_Criteria Oval_Test_Props "HOL-Library.Sublist"
begin

text \<open>
  What the evaluation of definitions promises. The specification gives every definition the value of its
  criteria over the values of the tests, each judged in isolation; the evaluation, which shares and
  caches results and sets masks on the way, computes these values, and it ends on definitions that do not
  extend each other in a circle.
\<close>

section \<open>Tests do not influence each other\<close>

definition same_model :: "syschar_model \<Rightarrow> syschar_model \<Rightarrow> bool" where
  "same_model m n \<longleftrightarrow> model_syschars m = model_syschars n \<and> same_items (model_sysitems m) (model_sysitems n)"

lemma same_items_refl [simp]: "same_items i i"
  by (simp add: same_items_def)

lemma same_items_sym: "same_items i j \<Longrightarrow> same_items j i"
  by (simp add: same_items_def)

lemma same_model_trans: "same_model m n \<Longrightarrow> same_model n k \<Longrightarrow> same_model m k"
  using same_items_trans by (auto simp: same_model_def)

lemma status_of_same: "same_items items items2 \<Longrightarrow> status_of items = status_of items2"
  by (rule ext) (auto simp: same_items_def status_of_def intro: unmask_item_status)

text \<open>The result and the results of the items, without the masks.\<close>

abbreviation (input) results_only :: "('a \<times> 'b \<times> sysitem_map) option \<Rightarrow> ('a \<times> 'b) option" where
  "results_only \<equiv> map_option (\<lambda>(r, rs, _). (r, rs))"

lemma check_items_masks_irrelevant:
  "same_items items items2 \<Longrightarrow>
   results_only (eval_check_items env test ritems items ores)
     = results_only (eval_check_items env test ritems items2 ores)"
proof (induction env test ritems items ores arbitrary: items2 rule: eval_check_items.induct)
  case (2 env test ritem ritems items ores)
  let ?i = "ritem_sysitem ritem"
  obtain item items1 where n: "get_new_sysitem items ?i = (item, items1)" by force
  obtain item' items1' where n': "get_new_sysitem items2 ?i = (item', items1')" by force
  have c: "collected items ?i = item" "collected items2 ?i = item'"
    using n n' by (simp_all add: collected_def)
  have c1: "collected items1 j = collected items j" "collected items1' j = collected items2 j" for j
    using collected_simps(2) [of items ?i] collected_simps(2) [of items2 ?i] n n' by simp_all
  have u: "unmask_item item = unmask_item item'" using "2.prems" c by (auto simp: same_items_def)
  then have eq: "map_option fst (eval_one_item env test item) = map_option fst (eval_one_item env test item')"
    by (rule one_item_masks_irrelevant)
  show ?case
  proof (cases "eval_one_item env test item")
    case None
    with eq n n' show ?thesis by simp
  next
    case (Some p)
    then obtain r it where r: "eval_one_item env test item = Some (r, it)" by (cases p) auto
    with eq have "map_option fst (eval_one_item env test item') = Some r" by simp
    then obtain it' where r': "eval_one_item env test item' = Some (r, it')"
      by (cases "eval_one_item env test item'") auto
    have "unmask_item it = unmask_item it'"
      using one_item_masks [OF r] one_item_masks [OF r'] u by simp
    then have s: "same_items (items1(?i \<mapsto> it)) (items1'(?i \<mapsto> it'))"
      using "2.prems" by (simp add: same_items_def c1 del: fun_upd_apply)
    note ih = "2.IH" [OF n [symmetric] r refl s]
    show ?thesis
      using arg_cong [OF ih, of "map_option (\<lambda>(o', rs). (o', ritem\<lparr>ritem_result := r\<rparr> # rs))"]
      by (simp add: n n' r r' option.map_comp comp_def case_prod_unfold del: fun_upd_apply)
  qed
qed simp

lemma collect_items_masks_irrelevant:
  "same_items items items2 \<Longrightarrow>
   fst (collect_items ids items n m ritems seen) = fst (collect_items ids items2 n m ritems seen)
   \<and> fst (snd (collect_items ids items n m ritems seen)) = fst (snd (collect_items ids items2 n m ritems seen))"
proof (induction ids items n m ritems seen arbitrary: items2 rule: collect_items.induct)
  case (3 i ids items n m ritems seen)
  have s: "same_items (snd (get_new_sysitem items i)) (snd (get_new_sysitem items2 i))"
    using "3.prems" by (simp add: same_items_def)
  obtain ritems' seen' where c: "oval_test_item_consumer
      \<lparr>ritem_sysitem = i, ritem_result = OVAL_RESULT_NOT_EVALUATED\<rparr> ritems seen = (ritems', seen')" by force
  show ?case
    using "3.IH" [OF refl _ _ c [symmetric] refl s] status_of_same [OF "3.prems"]
    by (simp add: Let_def oval_result_item_new_def status_of_case c)
qed auto

lemma check_state_masks_irrelevant:
  assumes "same_items items items2"
  shows "results_only (eval_check_state env test ritems items) = results_only (eval_check_state env test ritems items2)"
proof -
  have "results_only (eval_check_state env test ritems i)
      = map_option (\<lambda>(o', rs). (ores_get_result_bychk o' (test_check test), rs))
          (results_only (eval_check_items env test ritems i ores_zero))" for i
    by (simp add: eval_check_state_def option.map_comp comp_def case_prod_unfold)
  then show ?thesis by (simp only: check_items_masks_irrelevant [OF assms])
qed

lemma evaluate_items_masks_irrelevant:
  assumes "same_items items items2"
  shows "map_option fst (result_test_evaluate_items env test sc ritems items)
    = map_option fst (result_test_evaluate_items env test sc ritems items2)"
proof -
  obtain c rs i where c: "collect_items (syschar_items sc) items 0 0 ritems [] = (c, rs, i)"
    by (metis prod.collapse)
  obtain c' rs' i' where c': "collect_items (syschar_items sc) items2 0 0 ritems [] = (c', rs', i')"
    by (metis prod.collapse)
  have eq: "c' = c" "rs' = rs"
    using collect_items_masks_irrelevant [OF assms, of "syschar_items sc" 0 0 ritems "[]"] c c' by simp_all
  have keep: "same_items items i" "same_items items2 i'"
    using collect_items_keep [of items "syschar_items sc" 0 0 ritems "[]"]
      collect_items_keep [of items2 "syschar_items sc" 0 0 ritems "[]"] c c' by simp_all
  have s: "same_items i i'"
    using same_items_trans [OF same_items_sym [OF keep(1)] same_items_trans [OF assms keep(2)]] .
  have first: "map_option (\<lambda>(r, ritems, items). f r) (eval_check_state env test rs j)
      = map_option (\<lambda>(r, rs). f r) (results_only (eval_check_state env test rs j))"
    for f :: "oval_result_t \<Rightarrow> oval_result_t" and j
    by (simp add: option.map_comp comp_def case_prod_unfold)
  have states: "map_option (\<lambda>(r, ritems, items). f r) (eval_check_state env test rs i)
      = map_option (\<lambda>(r, ritems, items). f r) (eval_check_state env test rs i')"
    for f :: "oval_result_t \<Rightarrow> oval_result_t"
    by (simp only: first check_state_masks_irrelevant [OF s])
  show ?thesis
    using states [of "\<lambda>r. r"]
      states [of "\<lambda>r. if r = OVAL_RESULT_TRUE
          then if test_check test \<noteq> OVAL_CHECK_AT_LEAST_ONE then OVAL_RESULT_UNKNOWN else r
          else if r \<noteq> OVAL_RESULT_FALSE then OVAL_RESULT_UNKNOWN else r"]
    by (cases c; cases "syschar_flag sc")
      (simp_all add: result_test_evaluate_items_def c c' eq Let_def option.map_comp comp_def case_prod_unfold)
qed

text \<open>The result of a test on its own, whatever was evaluated before.\<close>

definition test_value :: "'d test_env \<Rightarrow> syschar_model \<Rightarrow> oval_result_test \<Rightarrow> oval_result_t option" where
  "test_value env m t = map_option fst (oval_result_test_eval env m t)"

lemma test_value_same_model: "same_model m n \<Longrightarrow> test_value env m t = test_value env n t"
  using evaluate_items_masks_irrelevant [of "model_sysitems m" "model_sysitems n"]
  by (auto simp: test_value_def oval_result_test_eval_def result_test_result_def same_model_def
      option.map_comp comp_def case_prod_unfold split: option.split)

lemma test_eval_stable:
  assumes "oval_result_test_eval env m t = Some (r, t', m')" and "r \<noteq> OVAL_RESULT_NOT_EVALUATED"
  shows "same_model m m'" and "rtest_test t' = rtest_test t" and "rtest_instance t' = rtest_instance t"
    and "test_value env m' t' = Some r"
  using assms
  by (auto simp: oval_result_test_eval_def result_test_result_def same_model_def test_value_def
      split: if_splits option.splits dest: evaluate_items_keep)

section \<open>The values of the nodes\<close>

text \<open>
  The value of a node over the values of the tests and definitions it refers to, and what a node of a
  system holds at any time: no result yet or its value, and references within the system.
\<close>

definition signed :: "bool \<Rightarrow> oval_result_t \<Rightarrow> oval_result_t" where
  "signed negate r = (if negate then negated r else r)"

lemma oval_result_negate_eq [simp]: "oval_result_negate negate r = signed negate r"
  by (cases r) (simp_all add: oval_result_negate_def signed_def negated_def)

fun node_value :: "(nat \<Rightarrow> oval_result_t) \<Rightarrow> (nat \<Rightarrow> oval_result_t) \<Rightarrow> result_criteria_node \<Rightarrow> oval_result_t" where
  "node_value vt vd (RCRITERIA _ negate _ op subs) =
     signed negate (operator_table op OVAL_RESULT_ERROR (map (node_value vt vd) subs))"
| "node_value vt vd (RCRITERION _ negate _ t _) = signed negate (vt t)"
| "node_value vt vd (REXTENDDEF _ negate _ d _) = signed negate (vd (the d))"

definition cached :: "oval_result_t \<Rightarrow> oval_result_t \<Rightarrow> bool" where
  "cached res v \<longleftrightarrow> res = OVAL_RESULT_NOT_EVALUATED \<or> res = v"

fun node_ok :: "(nat \<Rightarrow> oval_result_t) \<Rightarrow> (nat \<Rightarrow> oval_result_t) \<Rightarrow> nat \<Rightarrow> (nat \<Rightarrow> bool) \<Rightarrow> result_criteria_node \<Rightarrow> bool" where
  "node_ok vt vd m P (RCRITERIA res negate appl op subs) \<longleftrightarrow>
     cached res (node_value vt vd (RCRITERIA res negate appl op subs)) \<and> (\<forall>s\<in>set subs. node_ok vt vd m P s)"
| "node_ok vt vd m P (RCRITERION res negate appl t vi) \<longleftrightarrow> cached res (signed negate (vt t)) \<and> t < m"
| "node_ok vt vd m P (REXTENDDEF res negate appl d vi) \<longleftrightarrow>
     cached res (signed negate (vd (the d))) \<and> (\<exists>i. d = Some i \<and> P i)"

lemma signed_valid [simp]: "signed n r = OVAL_RESULT_INVALID \<longleftrightarrow> r = OVAL_RESULT_INVALID"
  by (cases r) (auto simp: signed_def negated_def)

lemma operator_table_valid [simp]: "operator_table op OVAL_RESULT_ERROR rs \<noteq> OVAL_RESULT_INVALID"
  by (cases op) (auto simp: operator_table_def all_table_def some_table_def one_table_def xor_table_def)

lemma node_value_valid:
  "node_ok vt vd m P node \<Longrightarrow> \<forall>t<m. vt t \<noteq> OVAL_RESULT_INVALID \<Longrightarrow> \<forall>i. P i \<longrightarrow> vd i \<noteq> OVAL_RESULT_INVALID \<Longrightarrow>
   node_value vt vd node \<noteq> OVAL_RESULT_INVALID"
  by (cases node) auto

section \<open>What a system holds\<close>

definition definition_ok ::
    "(nat \<Rightarrow> oval_result_t) \<Rightarrow> (nat \<Rightarrow> oval_result_t) \<Rightarrow> nat \<Rightarrow> (nat \<Rightarrow> bool) \<Rightarrow> oval_result_t \<Rightarrow> oval_result_definition \<Rightarrow> bool" where
  "definition_ok vt vd m P v d \<longleftrightarrow> cached (rdef_result d) v \<and>
     (case rdef_criteria d of
        None \<Rightarrow> v = OVAL_RESULT_ERROR
      | Some c \<Rightarrow> v = node_value vt vd c \<and> node_ok vt vd m P c)"

text \<open>
  \<open>m0\<close> is the collected system before any evaluation, \<open>vT\<close> and \<open>vD\<close> are the values of the tests and
  definitions by identifier, \<open>tids\<close> and \<open>dids\<close> the identifiers of the system's entries. A definition
  refers to definitions of smaller rank.
\<close>

definition consistent ::
    "'d test_env \<Rightarrow> syschar_model \<Rightarrow> (string \<Rightarrow> nat) \<Rightarrow> (string \<Rightarrow> oval_result_t) \<Rightarrow> (string \<Rightarrow> oval_result_t) \<Rightarrow>
     string list \<Rightarrow> string list \<Rightarrow> result_system \<Rightarrow> bool" where
  "consistent env m0 rank vT vD tids dids sys \<longleftrightarrow>
     map (\<lambda>t. test_id (rtest_test t)) (sys_tests sys) = tids
     \<and> map rdef_definition (sys_definitions sys) = dids
     \<and> same_model m0 (sys_syschar_model sys)
     \<and> (\<forall>t<length tids. vT (tids ! t) \<noteq> OVAL_RESULT_NOT_EVALUATED \<and> vT (tids ! t) \<noteq> OVAL_RESULT_INVALID
          \<and> test_value env m0 (sys_tests sys ! t) = Some (vT (tids ! t)))
     \<and> (\<forall>i<length dids. vD (dids ! i) \<noteq> OVAL_RESULT_INVALID
          \<and> definition_ok (\<lambda>t. vT (tids ! t)) (\<lambda>i. vD (dids ! i)) (length tids)
              (\<lambda>j. j < length dids \<and> rank (dids ! j) < rank (dids ! i)) (vD (dids ! i)) (sys_definitions sys ! i))"

lemma consistent_lengths:
  "consistent env m0 rank vT vD tids dids sys \<Longrightarrow>
   length (sys_tests sys) = length tids \<and> length (sys_definitions sys) = length dids"
  by (auto simp: consistent_def)

lemma node_value_consistent:
  assumes "consistent env m0 rank vT vD tids dids sys" and "\<And>j. P j \<Longrightarrow> j < length dids \<and> Q j"
    and "node_ok (\<lambda>t. vT (tids ! t)) (\<lambda>i. vD (dids ! i)) (length tids) P node"
  shows "node_value (\<lambda>t. vT (tids ! t)) (\<lambda>i. vD (dids ! i)) node \<noteq> OVAL_RESULT_INVALID"
  using assms by (intro node_value_valid [OF assms(3)]) (auto simp: consistent_def)

lemma eval_test_at_consistent:
  assumes "consistent env m0 rank vT vD tids dids sys" and "t < length tids"
  shows "\<exists>sys'. eval_test_at env t sys = Some (vT (tids ! t), sys') \<and> consistent env m0 rank vT vD tids dids sys'
    \<and> sys_definitions sys' = sys_definitions sys \<and> sys_definition_model sys' = sys_definition_model sys"
proof -
  let ?t = "sys_tests sys ! t"
  have s: "same_model m0 (sys_syschar_model sys)" and len: "t < length (sys_tests sys)"
    and v: "test_value env m0 ?t = Some (vT (tids ! t))" "vT (tids ! t) \<noteq> OVAL_RESULT_NOT_EVALUATED"
    using assms by (auto simp: consistent_def)
  from v test_value_same_model [OF s, of env ?t] obtain t' m' where
    e: "oval_result_test_eval env (sys_syschar_model sys) ?t = Some (vT (tids ! t), t', m')"
    by (cases "oval_result_test_eval env (sys_syschar_model sys) ?t") (auto simp: test_value_def)
  note st = test_eval_stable [OF e v(2)]
  have s': "same_model m0 m'" using same_model_trans [OF s st(1)] .
  then have v': "test_value env m0 t' = Some (vT (tids ! t))"
    using st(4) test_value_same_model [OF s', of env t'] by simp
  have "map (\<lambda>t. test_id (rtest_test t)) ((sys_tests sys)[t := t']) = tids"
    using assms(1) st(2) by (subst map_update_same) (simp_all add: consistent_def)
  with assms s' v' len show ?thesis
    by (auto simp: eval_test_at_def e consistent_def nth_list_update)
qed

text \<open>An entry of the definitions is replaced by one with its results.\<close>

lemma consistent_update:
  assumes "consistent env m0 rank vT vD tids dids sys"
    and "i < length dids" and "rdef_definition d = dids ! i"
    and "definition_ok (\<lambda>t. vT (tids ! t)) (\<lambda>i. vD (dids ! i)) (length tids)
          (\<lambda>j. j < length dids \<and> rank (dids ! j) < rank (dids ! i)) (vD (dids ! i)) d"
  shows "consistent env m0 rank vT vD tids dids (sys\<lparr>sys_definitions := (sys_definitions sys)[i := d]\<rparr>)"
proof -
  have "map rdef_definition ((sys_definitions sys)[i := d]) = dids"
    using assms(1-3) by (subst map_update_same) (auto simp: consistent_def)
  with assms consistent_lengths [OF assms(1)] show ?thesis
    by (auto simp: consistent_def nth_list_update)
qed

text \<open>
  With enough fuel for the references of a node, its evaluation ends, yields its value, and leaves a
  consistent system.
\<close>

lemma eval_values:
  "consistent env m0 rank vT vD tids dids sys \<Longrightarrow>
   node_ok (\<lambda>t. vT (tids ! t)) (\<lambda>i. vD (dids ! i)) (length tids) P node \<Longrightarrow>
   (\<And>j. P j \<Longrightarrow> j < length dids \<and> rank (dids ! j) < fuel) \<Longrightarrow>
   \<exists>node' sys'. oval_result_criteria_node_eval fuel env node sys
       = Some (node_value (\<lambda>t. vT (tids ! t)) (\<lambda>i. vD (dids ! i)) node, node', sys')
     \<and> node_value (\<lambda>t. vT (tids ! t)) (\<lambda>i. vD (dids ! i)) node' = node_value (\<lambda>t. vT (tids ! t)) (\<lambda>i. vD (dids ! i)) node
     \<and> node_ok (\<lambda>t. vT (tids ! t)) (\<lambda>i. vD (dids ! i)) (length tids) P node'
     \<and> consistent env m0 rank vT vD tids dids sys'"
  "consistent env m0 rank vT vD tids dids sys \<Longrightarrow>
   (\<forall>s\<in>set subs. node_ok (\<lambda>t. vT (tids ! t)) (\<lambda>i. vD (dids ! i)) (length tids) P s) \<Longrightarrow>
   (\<And>j. P j \<Longrightarrow> j < length dids \<and> rank (dids ! j) < fuel) \<Longrightarrow>
   \<exists>subs' sys'. eval_subnodes fuel env subs ores sys
       = Some (add_results ores (map (node_value (\<lambda>t. vT (tids ! t)) (\<lambda>i. vD (dids ! i))) subs), subs', sys')
     \<and> map (node_value (\<lambda>t. vT (tids ! t)) (\<lambda>i. vD (dids ! i))) subs'
         = map (node_value (\<lambda>t. vT (tids ! t)) (\<lambda>i. vD (dids ! i))) subs
     \<and> (\<forall>s\<in>set subs'. node_ok (\<lambda>t. vT (tids ! t)) (\<lambda>i. vD (dids ! i)) (length tids) P s)
     \<and> consistent env m0 rank vT vD tids dids sys'"
  "consistent env m0 rank vT vD tids dids sys \<Longrightarrow> i < length dids \<Longrightarrow> rank (dids ! i) < fuel \<Longrightarrow>
   \<exists>sys'. oval_result_definition_eval fuel env i sys = Some (vD (dids ! i), sys')
     \<and> consistent env m0 rank vT vD tids dids sys'"
proof (induction fuel env node sys and fuel env subs ores sys and fuel env i sys
    arbitrary: P and P rule: oval_result_criteria_node_eval_eval_subnodes_oval_result_definition_eval.induct)
  case (1 fuel env res negate appl op subs sys)
  let ?vt = "\<lambda>t. vT (tids ! t)" and ?vd = "\<lambda>i. vD (dids ! i)"
  let ?v = "node_value ?vt ?vd (RCRITERIA res negate appl op subs)"
  show ?case
  proof (cases "res = OVAL_RESULT_NOT_EVALUATED")
    case True
    have ok: "\<forall>s\<in>set subs. node_ok ?vt ?vd (length tids) P s" using "1.prems"(2) by simp
    from "1.IH" [OF True "1.prems"(1) ok "1.prems"(3)] obtain subs' sys' where
      e: "eval_subnodes fuel env subs ores_zero sys
          = Some (add_results ores_zero (map (node_value ?vt ?vd) subs), subs', sys')"
      and s: "map (node_value ?vt ?vd) subs' = map (node_value ?vt ?vd) subs"
        "\<forall>s\<in>set subs'. node_ok ?vt ?vd (length tids) P s" "consistent env m0 rank vT vD tids dids sys'" by blast
    have "node_value ?vt ?vd s \<noteq> OVAL_RESULT_INVALID" if "s \<in> set subs" for s
      using node_value_consistent [OF "1.prems"(1) "1.prems"(3)] ok that by blast
    then have "OVAL_RESULT_INVALID \<notin> set (map (node_value ?vt ?vd) subs)" by fastforce
    from byopr_table [OF this, of op] have
      "ores_get_result_byopr (add_results ores_zero (map (node_value ?vt ?vd) subs)) op
       = operator_table op OVAL_RESULT_ERROR (map (node_value ?vt ?vd) subs)" by (simp add: ores_of_def)
    with s show ?thesis by (simp add: True e cached_def Let_def)
  next
    case False
    with "1.prems" show ?thesis by (simp add: cached_def)
  qed
next
  case (2 fuel env res negate appl t vi sys)
  show ?case
  proof (cases "res = OVAL_RESULT_NOT_EVALUATED")
    case True
    with "2.prems" eval_test_at_consistent [OF "2.prems"(1), of t] show ?thesis
      by (auto simp: cached_def Let_def)
  next
    case False
    with "2.prems" show ?thesis by (simp add: cached_def)
  qed
next
  case (3 fuel env res negate appl d vi sys)
  show ?case
  proof (cases "res = OVAL_RESULT_NOT_EVALUATED")
    case True
    from "3.prems"(2) obtain j where j: "d = Some j" "P j" by auto
    from "3.IH" [OF True j(1) "3.prems"(1)] "3.prems"(3) [OF j(2)] j show ?thesis
      by (auto simp: True cached_def Let_def)
  next
    case False
    with "3.prems" show ?thesis by (auto simp: cached_def)
  qed
next
  case (4 fuel env node_res sys)
  then show ?case by simp
next
  case (5 fuel env sub subs node_res sys)
  let ?vt = "\<lambda>t. vT (tids ! t)" and ?vd = "\<lambda>i. vD (dids ! i)"
  have ok: "node_ok ?vt ?vd (length tids) P sub" "\<forall>s\<in>set subs. node_ok ?vt ?vd (length tids) P s"
    using "5.prems"(2) by simp_all
  from "5.IH"(1) [OF "5.prems"(1) ok(1) "5.prems"(3)] obtain sub' sys1 where
    e: "oval_result_criteria_node_eval fuel env sub sys = Some (node_value ?vt ?vd sub, sub', sys1)"
    and s: "node_value ?vt ?vd sub' = node_value ?vt ?vd sub" "node_ok ?vt ?vd (length tids) P sub'"
    and c: "consistent env m0 rank vT vD tids dids sys1" by blast
  from "5.IH"(2) [OF e refl refl c ok(2) "5.prems"(3)] s show ?case by (fastforce simp: e)
next
  case (6 env i sys)
  then show ?case by simp
next
  case (7 fuel env i sys)
  let ?vt = "\<lambda>t. vT (tids ! t)" and ?vd = "\<lambda>i. vD (dids ! i)"
  let ?P = "\<lambda>j. j < length dids \<and> rank (dids ! j) < rank (dids ! i)"
  let ?d = "sys_definitions sys ! i"
  have len: "i < length (sys_definitions sys)" using "7.prems" consistent_lengths by metis
  have ok: "definition_ok ?vt ?vd (length tids) ?P (vD (dids ! i)) ?d" and ident: "rdef_definition ?d = dids ! i"
    using "7.prems"(1,2) len by (auto simp: consistent_def)
  have fuel: "j < length dids \<and> rank (dids ! j) < fuel" if "?P j" for j using that "7.prems"(3) by simp
  show ?case
  proof (cases "rdef_result ?d = OVAL_RESULT_NOT_EVALUATED")
    case ne: True
    show ?thesis
    proof (cases "rdef_criteria ?d")
      case None
      then have v: "vD (dids ! i) = OVAL_RESULT_ERROR" using ok by (simp add: definition_ok_def)
      have "definition_ok ?vt ?vd (length tids) ?P (vD (dids ! i)) (?d\<lparr>rdef_result := OVAL_RESULT_ERROR\<rparr>)"
        using None v by (simp add: definition_ok_def cached_def)
      with consistent_update [OF "7.prems"(1,2)] ident have
        "consistent env m0 rank vT vD tids dids (sys\<lparr>sys_definitions :=
           (sys_definitions sys)[i := ?d\<lparr>rdef_result := OVAL_RESULT_ERROR\<rparr>]\<rparr>)" by simp
      with v len ne None show ?thesis by (simp add: Let_def)
    next
      case (Some crit)
      with ok have c: "vD (dids ! i) = node_value ?vt ?vd crit" "node_ok ?vt ?vd (length tids) ?P crit"
        by (auto simp: definition_ok_def)
      from "7.IH" [OF len refl ne Some "7.prems"(1) c(2) fuel] obtain crit' sys' where
        e: "oval_result_criteria_node_eval fuel env crit sys = Some (node_value ?vt ?vd crit, crit', sys')"
        and s: "node_value ?vt ?vd crit' = node_value ?vt ?vd crit" "node_ok ?vt ?vd (length tids) ?P crit'"
        and cons: "consistent env m0 rank vT vD tids dids sys'" by blast
      let ?d' = "?d\<lparr>rdef_result := node_value ?vt ?vd crit, rdef_criteria := Some crit'\<rparr>"
      have "definition_ok ?vt ?vd (length tids) ?P (vD (dids ! i)) ?d'"
        using c s by (simp add: definition_ok_def cached_def)
      with consistent_update [OF cons "7.prems"(2)] ident have
        "consistent env m0 rank vT vD tids dids (sys'\<lparr>sys_definitions := (sys_definitions sys')[i := ?d']\<rparr>)"
        by simp
      with c len ne Some e show ?thesis by (simp add: Let_def)
    qed
  next
    case False
    with "7.prems"(1) len ok show ?thesis by (auto simp: definition_ok_def cached_def)
  qed
qed

section \<open>The values of the definitions\<close>

text \<open>
  The specification, on the definitions as they are written: the value of a node over the values of tests
  and definitions by identifier, definitions whose references resolve and go down a rank, and the values
  that solve the equations of all definitions.
\<close>

fun criteria_value :: "(string \<Rightarrow> oval_result_t) \<Rightarrow> (string \<Rightarrow> oval_result_t) \<Rightarrow> oval_criteria_node \<Rightarrow> oval_result_t" where
  "criteria_value vT vD (CRITERIA negate _ op subs) =
     signed negate (operator_table op OVAL_RESULT_ERROR (map (criteria_value vT vD) subs))"
| "criteria_value vT vD (CRITERION negate _ t) = signed negate (vT t)"
| "criteria_value vT vD (EXTENDDEF negate _ d) = signed negate (vD (the d))"

fun criteria_ok :: "oval_definition_model \<Rightarrow> (string \<Rightarrow> bool) \<Rightarrow> oval_criteria_node \<Rightarrow> bool" where
  "criteria_ok dm P (CRITERIA negate _ op subs) \<longleftrightarrow> (\<forall>s\<in>set subs. criteria_ok dm P s)"
| "criteria_ok dm P (CRITERION negate _ t) \<longleftrightarrow> get_test dm t \<noteq> None"
| "criteria_ok dm P (EXTENDDEF negate _ d) \<longleftrightarrow>
     (case d of None \<Rightarrow> False | Some i \<Rightarrow> get_definition dm i \<noteq> None \<and> P i)"

definition definitions_ok :: "oval_definition_model \<Rightarrow> (string \<Rightarrow> nat) \<Rightarrow> bool" where
  "definitions_ok dm rank \<longleftrightarrow> (\<forall>d\<in>set (dmodel_definitions dm).
     case definition_criteria d of
       None \<Rightarrow> True
     | Some c \<Rightarrow> criteria_ok dm (\<lambda>i. rank i < rank (definition_id d)) c)"

definition solves :: "(string \<Rightarrow> oval_result_t) \<Rightarrow> (string \<Rightarrow> oval_result_t) \<Rightarrow> oval_definition_model \<Rightarrow> bool" where
  "solves vT vD dm \<longleftrightarrow> (\<forall>d\<in>set (dmodel_definitions dm).
     vD (definition_id d) =
       (case definition_criteria d of None \<Rightarrow> OVAL_RESULT_ERROR | Some c \<Rightarrow> criteria_value vT vD c))"

definition tests_decided ::
    "'d test_env \<Rightarrow> syschar_model \<Rightarrow> (string \<Rightarrow> oval_result_t) \<Rightarrow> oval_definition_model \<Rightarrow> bool" where
  "tests_decided env m0 vT dm \<longleftrightarrow> (\<forall>t\<in>set (dmodel_tests dm).
     test_value env m0 (oval_result_test_new t) = Some (vT (test_id t)) \<and> vT (test_id t) \<noteq> OVAL_RESULT_NOT_EVALUATED)"

lemma get_definition_SomeD:
  "get_definition dm i = Some d \<Longrightarrow> d \<in> set (dmodel_definitions dm) \<and> definition_id d = i"
  by (auto simp: get_definition_def find_Some_iff)

lemma get_test_SomeD: "get_test dm i = Some t \<Longrightarrow> t \<in> set (dmodel_tests dm) \<and> test_id t = i"
  by (auto simp: get_test_def find_Some_iff)

lemma get_last_SomeD: "get_last key i xs = Some k \<Longrightarrow> k < length xs \<and> key (xs ! k) = i"
  by (induction key i xs arbitrary: k rule: get_last.induct) (auto split: option.splits if_splits)

lemma first_present_in: "first_present ps rs \<in> insert OVAL_RESULT_UNKNOWN (set rs)"
  by (induction ps) auto

lemma operator_table_decided:
  "OVAL_RESULT_NOT_EVALUATED \<notin> set rs \<Longrightarrow> operator_table op OVAL_RESULT_ERROR rs \<noteq> OVAL_RESULT_NOT_EVALUATED"
  by (cases op) (auto simp: operator_table_def all_table_def some_table_def one_table_def xor_table_def undecided_def)

lemma signed_decided [simp]: "signed n r = OVAL_RESULT_NOT_EVALUATED \<longleftrightarrow> r = OVAL_RESULT_NOT_EVALUATED"
  by (cases r) (auto simp: signed_def negated_def)

definition decided :: "oval_result_t \<Rightarrow> bool" where
  "decided r \<longleftrightarrow> r \<noteq> OVAL_RESULT_INVALID \<and> r \<noteq> OVAL_RESULT_NOT_EVALUATED"

lemma criteria_value_decided:
  "criteria_ok dm P c \<Longrightarrow> (\<And>t. get_test dm t \<noteq> None \<Longrightarrow> decided (vT t)) \<Longrightarrow>
   (\<And>i. get_definition dm i \<noteq> None \<Longrightarrow> P i \<Longrightarrow> decided (vD i)) \<Longrightarrow> decided (criteria_value vT vD c)"
proof (induction dm P c rule: criteria_ok.induct)
  case (1 dm P negate appl op subs)
  then have "decided (criteria_value vT vD s)" if "s \<in> set subs" for s using that by simp
  then have "OVAL_RESULT_NOT_EVALUATED \<notin> set (map (criteria_value vT vD) subs)" by (fastforce simp: decided_def)
  from operator_table_decided [OF this] show ?case by (simp add: decided_def)
qed (auto simp: decided_def split: option.splits)

lemma tests_decided_valid:
  assumes "tests_decided env m0 vT dm" and "get_test dm t = Some test"
  shows "vT t \<noteq> OVAL_RESULT_INVALID \<and> vT t \<noteq> OVAL_RESULT_NOT_EVALUATED
    \<and> test_value env m0 (make_result_test_from_oval_test test vi) = Some (vT t)"
proof -
  have t: "test_value env m0 (oval_result_test_new test) = Some (vT t)" "vT t \<noteq> OVAL_RESULT_NOT_EVALUATED"
    using assms get_test_SomeD [OF assms(2)] by (auto simp: tests_decided_def)
  have "vT t \<noteq> OVAL_RESULT_INVALID"
    using t(1) by (auto simp: test_value_def oval_result_test_eval_def result_test_result_def
        oval_result_test_new_def split: if_splits option.splits dest: evaluate_items_keep)
  moreover have "test_value env m0 (make_result_test_from_oval_test test vi) = test_value env m0 (oval_result_test_new test)"
    by (simp add: test_value_def oval_result_test_eval_def result_test_result_def make_result_test_from_oval_test_def
        oval_result_test_new_def option.map_comp comp_def case_prod_unfold split: option.split)
  ultimately show ?thesis using t by simp
qed

lemma solution_decided:
  assumes "definitions_ok dm rank" and "solves vT vD dm" and "tests_decided env m0 vT dm"
  shows "get_definition dm i \<noteq> None \<Longrightarrow> decided (vD i)"
proof (induction "rank i" arbitrary: i rule: less_induct)
  case less
  then obtain d where "get_definition dm i = Some d" by auto
  then have d: "d \<in> set (dmodel_definitions dm)" "definition_id d = i" using get_definition_SomeD by auto
  have tests: "decided (vT t)" if "get_test dm t \<noteq> None" for t
    using tests_decided_valid [OF assms(3)] that by (auto simp: decided_def)
  show ?case
  proof (cases "definition_criteria d")
    case None
    with d assms(2) show ?thesis by (auto simp: solves_def decided_def)
  next
    case (Some c)
    with d assms(1) have "criteria_ok dm (\<lambda>j. rank j < rank i) c" by (auto simp: definitions_ok_def)
    then have "decided (criteria_value vT vD c)"
      by (rule criteria_value_decided) (use tests less.hyps in auto)
    with Some d assms(2) show ?thesis by (auto simp: solves_def)
  qed
qed

section \<open>The results that are made\<close>

lemma node_extend:
  assumes "node_ok (\<lambda>t. vT (tids ! t)) (\<lambda>i. vD (dids ! i)) (length tids) (\<lambda>j. j < length dids \<and> P (dids ! j)) node"
    and "prefix tids tids'" and "prefix dids dids'"
  shows "node_ok (\<lambda>t. vT (tids' ! t)) (\<lambda>i. vD (dids' ! i)) (length tids') (\<lambda>j. j < length dids' \<and> P (dids' ! j)) node
    \<and> node_value (\<lambda>t. vT (tids' ! t)) (\<lambda>i. vD (dids' ! i)) node = node_value (\<lambda>t. vT (tids ! t)) (\<lambda>i. vD (dids ! i)) node"
  using assms(1)
proof (induction "\<lambda>t. vT (tids ! t)" "\<lambda>i. vD (dids ! i)" "length tids" "\<lambda>j. j < length dids \<and> P (dids ! j)" node
    rule: node_ok.induct)
  case (1 res negate appl op subs)
  then have "map (node_value (\<lambda>t. vT (tids' ! t)) (\<lambda>i. vD (dids' ! i))) subs
      = map (node_value (\<lambda>t. vT (tids ! t)) (\<lambda>i. vD (dids ! i))) subs" by simp
  with 1 show ?case by (simp del: map_eq_conv)
qed (use assms(2,3) in \<open>auto simp: prefix_def nth_append\<close>)

lemma definition_extend:
  assumes "definition_ok (\<lambda>t. vT (tids ! t)) (\<lambda>i. vD (dids ! i)) (length tids) (\<lambda>j. j < length dids \<and> P (dids ! j)) v d"
    and "prefix tids tids'" and "prefix dids dids'"
  shows "definition_ok (\<lambda>t. vT (tids' ! t)) (\<lambda>i. vD (dids' ! i)) (length tids') (\<lambda>j. j < length dids' \<and> P (dids' ! j)) v d"
  using assms(1) node_extend [OF _ assms(2,3)] by (auto simp: definition_ok_def split: option.splits)

lemma consistent_add_test:
  assumes "consistent env m0 rank vT vD tids dids sys" and "test_id (rtest_test t) = i"
    and "vT i \<noteq> OVAL_RESULT_NOT_EVALUATED" and "vT i \<noteq> OVAL_RESULT_INVALID" and "test_value env m0 t = Some (vT i)"
  shows "consistent env m0 rank vT vD (tids @ [i]) dids (sys\<lparr>sys_tests := sys_tests sys @ [t]\<rparr>)"
proof -
  have p: "prefix tids (tids @ [i])" "prefix dids dids" by simp_all
  have "definition_ok (\<lambda>t. vT ((tids @ [i]) ! t)) (\<lambda>i. vD (dids ! i)) (length (tids @ [i]))
      (\<lambda>j. j < length dids \<and> rank (dids ! j) < rank (dids ! k)) (vD (dids ! k)) (sys_definitions sys ! k)"
    if "k < length dids" for k
    by (rule definition_extend [OF _ p]) (use assms(1) that in \<open>simp add: consistent_def\<close>)
  with assms consistent_lengths [OF assms(1)] show ?thesis
    by (auto simp: consistent_def nth_append less_Suc_eq)
qed

lemma consistent_add_definition:
  assumes "consistent env m0 rank vT vD tids dids sys" and "rdef_definition d = i" and "vD i \<noteq> OVAL_RESULT_INVALID"
    and "definition_ok (\<lambda>t. vT (tids ! t)) (\<lambda>i. vD (dids ! i)) (length tids)
          (\<lambda>j. j < length dids \<and> rank (dids ! j) < rank i) (vD i) d"
  shows "consistent env m0 rank vT vD tids (dids @ [i]) (sys\<lparr>sys_definitions := sys_definitions sys @ [d]\<rparr>)"
proof -
  have p: "prefix tids tids" "prefix dids (dids @ [i])" by simp_all
  have "definition_ok (\<lambda>t. vT (tids ! t)) (\<lambda>k. vD ((dids @ [i]) ! k)) (length tids)
      (\<lambda>j. j < length (dids @ [i]) \<and> rank ((dids @ [i]) ! j) < rank (dids ! k)) (vD (dids ! k)) (sys_definitions sys ! k)"
    if "k < length dids" for k
    by (rule definition_extend [OF _ p]) (use assms(1) that in \<open>simp add: consistent_def\<close>)
  moreover have "definition_ok (\<lambda>t. vT (tids ! t)) (\<lambda>k. vD ((dids @ [i]) ! k)) (length tids)
      (\<lambda>j. j < length (dids @ [i]) \<and> rank ((dids @ [i]) ! j) < rank i) (vD i) d"
    by (rule definition_extend [OF assms(4) p])
  ultimately show ?thesis
    using assms consistent_lengths [OF assms(1)]
    by (auto simp: consistent_def nth_append less_Suc_eq)
qed

text \<open>A system that grew from another one of the same model and stayed consistent.\<close>

definition grown ::
    "'d test_env \<Rightarrow> syschar_model \<Rightarrow> (string \<Rightarrow> nat) \<Rightarrow> (string \<Rightarrow> oval_result_t) \<Rightarrow> (string \<Rightarrow> oval_result_t) \<Rightarrow>
     string list \<Rightarrow> string list \<Rightarrow> result_system \<Rightarrow> string list \<Rightarrow> string list \<Rightarrow> result_system \<Rightarrow> bool" where
  "grown env m0 rank vT vD tids dids sys tids' dids' sys' \<longleftrightarrow>
     consistent env m0 rank vT vD tids' dids' sys' \<and> prefix tids tids' \<and> prefix dids dids'
     \<and> sys_definition_model sys' = sys_definition_model sys"

lemma grown_refl: "consistent env m0 rank vT vD tids dids sys \<Longrightarrow> grown env m0 rank vT vD tids dids sys tids dids sys"
  by (simp add: grown_def)

lemma grown_trans:
  "grown env m0 rank vT vD tids dids sys tids' dids' sys' \<Longrightarrow>
   grown env m0 rank vT vD tids' dids' sys' tids'' dids'' sys'' \<Longrightarrow>
   grown env m0 rank vT vD tids dids sys tids'' dids'' sys''"
  by (auto simp: grown_def intro: prefix_order.trans)

lemma get_new_test_grown:
  assumes "consistent env m0 rank vT vD tids dids sys" and "tests_decided env m0 vT dm" and "get_test dm i = Some test"
  shows "\<exists>t tids' sys'. oval_result_system_get_new_test sys test vi = (t, sys')
    \<and> grown env m0 rank vT vD tids dids sys tids' dids sys' \<and> t < length tids' \<and> tids' ! t = i"
proof -
  note t = tests_decided_valid [OF assms(2,3)]
  have ident: "test_id test = i" using get_test_SomeD [OF assms(3)] by simp
  let ?new = "sys\<lparr>sys_tests := sys_tests sys @ [make_result_test_from_oval_test test vi]\<rparr>"
  have "consistent env m0 rank vT vD (tids @ [i]) dids ?new"
    by (rule consistent_add_test [OF assms(1)])
      (use t ident in \<open>auto simp: make_result_test_from_oval_test_def oval_result_test_new_def\<close>)
  then have new: "grown env m0 rank vT vD tids dids sys (tids @ [i]) dids ?new" by (simp add: grown_def)
  have len: "length (sys_tests sys) = length tids" "\<forall>k<length tids. test_id (rtest_test (sys_tests sys ! k)) = tids ! k"
    using assms(1) by (auto simp: consistent_def)
  show ?thesis
  proof (cases "oval_result_system_get_test sys i")
    case None
    with new len show ?thesis
      by (intro exI [of _ "length tids"] exI [of _ "tids @ [i]"])
        (simp add: oval_result_system_get_new_test_def oval_result_system_add_test_def ident)
  next
    case (Some k)
    then have k: "k < length tids" "tids ! k = i"
      using len by (auto simp: oval_result_system_get_test_def dest!: get_last_SomeD)
    show ?thesis
    proof (cases "vi \<noteq> 0 \<and> rtest_instance (sys_tests sys ! k) \<noteq> vi")
      case True
      with new len Some show ?thesis
        by (intro exI [of _ "length tids"] exI [of _ "tids @ [i]"])
          (simp add: oval_result_system_get_new_test_def oval_result_system_add_test_def ident)
    next
      case False
      then have "oval_result_system_get_new_test sys test vi = (k, sys)"
        using Some by (auto simp: oval_result_system_get_new_test_def ident)
      with k grown_refl [OF assms(1)] show ?thesis by blast
    qed
  qed
qed

text \<open>
  With fuel beyond the ranks of the definitions a node refers to, the results are made: the node has the
  value of the criteria, and the system has grown.
\<close>

definition makes_node where
  "makes_node env m0 rank vT vD tids dids sys P c res \<longleftrightarrow>
     (\<exists>node tids' dids' sys'. res = Some (node, sys') \<and> grown env m0 rank vT vD tids dids sys tids' dids' sys'
       \<and> node_ok (\<lambda>t. vT (tids' ! t)) (\<lambda>i. vD (dids' ! i)) (length tids') (\<lambda>j. j < length dids' \<and> P (dids' ! j)) node
       \<and> node_value (\<lambda>t. vT (tids' ! t)) (\<lambda>i. vD (dids' ! i)) node = criteria_value vT vD c)"

definition makes_nodes where
  "makes_nodes env m0 rank vT vD tids dids sys P cs res \<longleftrightarrow>
     (\<exists>nodes tids' dids' sys'. res = Some (nodes, sys') \<and> grown env m0 rank vT vD tids dids sys tids' dids' sys'
       \<and> (\<forall>node\<in>set nodes. node_ok (\<lambda>t. vT (tids' ! t)) (\<lambda>i. vD (dids' ! i)) (length tids')
             (\<lambda>j. j < length dids' \<and> P (dids' ! j)) node)
       \<and> map (node_value (\<lambda>t. vT (tids' ! t)) (\<lambda>i. vD (dids' ! i))) nodes = map (criteria_value vT vD) cs)"

definition makes_definition where
  "makes_definition env m0 rank vT vD tids dids sys i res \<longleftrightarrow>
     (\<exists>d tids' dids' sys'. res = Some (d, sys') \<and> grown env m0 rank vT vD tids dids sys tids' dids' sys'
       \<and> rdef_definition d = i
       \<and> definition_ok (\<lambda>t. vT (tids' ! t)) (\<lambda>i. vD (dids' ! i)) (length tids')
           (\<lambda>j. j < length dids' \<and> rank (dids' ! j) < rank i) (vD i) d)"

definition gets_definition where
  "gets_definition env m0 rank vT vD tids dids sys i res \<longleftrightarrow>
     (\<exists>k tids' dids' sys'. res = Some (Some k, sys') \<and> grown env m0 rank vT vD tids dids sys tids' dids' sys'
       \<and> k < length dids' \<and> dids' ! k = i)"

lemma makes_nodes_Cons:
  assumes n: "makes_node env m0 rank vT vD tids dids sys P c (make_result_criteria_node fuel sys c vi)"
    and ns: "\<And>node tids' dids' sys'. make_result_criteria_node fuel sys c vi = Some (node, sys') \<Longrightarrow>
      grown env m0 rank vT vD tids dids sys tids' dids' sys' \<Longrightarrow>
      makes_nodes env m0 rank vT vD tids' dids' sys' P cs (make_result_criteria_nodes fuel sys' cs vi)"
  shows "makes_nodes env m0 rank vT vD tids dids sys P (c # cs) (make_result_criteria_nodes fuel sys (c # cs) vi)"
proof -
  from n obtain node tids1 dids1 sys1 where
    e: "make_result_criteria_node fuel sys c vi = Some (node, sys1)"
    and g: "grown env m0 rank vT vD tids dids sys tids1 dids1 sys1"
    and ok: "node_ok (\<lambda>t. vT (tids1 ! t)) (\<lambda>i. vD (dids1 ! i)) (length tids1) (\<lambda>j. j < length dids1 \<and> P (dids1 ! j)) node"
    and v: "node_value (\<lambda>t. vT (tids1 ! t)) (\<lambda>i. vD (dids1 ! i)) node = criteria_value vT vD c"
    unfolding makes_node_def by blast
  from ns [OF e g] obtain nodes tids2 dids2 sys2 where
    e2: "make_result_criteria_nodes fuel sys1 cs vi = Some (nodes, sys2)"
    and g2: "grown env m0 rank vT vD tids1 dids1 sys1 tids2 dids2 sys2"
    and ok2: "\<forall>node\<in>set nodes. node_ok (\<lambda>t. vT (tids2 ! t)) (\<lambda>i. vD (dids2 ! i)) (length tids2)
         (\<lambda>j. j < length dids2 \<and> P (dids2 ! j)) node"
    and v2: "map (node_value (\<lambda>t. vT (tids2 ! t)) (\<lambda>i. vD (dids2 ! i))) nodes = map (criteria_value vT vD) cs"
    unfolding makes_nodes_def by blast
  have "prefix tids1 tids2" "prefix dids1 dids2" using g2 by (simp_all add: grown_def)
  note ext = node_extend [OF ok this]
  show ?thesis
    unfolding makes_nodes_def
    by (intro exI [of _ "node # nodes"] exI [of _ tids2] exI [of _ dids2] exI [of _ sys2])
      (use ext ok2 v v2 grown_trans [OF g g2] in \<open>simp add: e e2\<close>)
qed

lemma gets_definition_add:
  assumes "makes_definition env m0 rank vT vD tids dids sys i res" and "vD i \<noteq> OVAL_RESULT_INVALID"
  shows "gets_definition env m0 rank vT vD tids dids sys i
    (map_option (\<lambda>(rdef, sys'). let (i, sys'') = oval_result_system_add_definition sys' rdef in (Some i, sys'')) res)"
proof -
  from assms(1) obtain d tids' dids' sys' where
    e: "res = Some (d, sys')" and g: "grown env m0 rank vT vD tids dids sys tids' dids' sys'"
    and d: "rdef_definition d = i"
    and ok: "definition_ok (\<lambda>t. vT (tids' ! t)) (\<lambda>i. vD (dids' ! i)) (length tids')
           (\<lambda>j. j < length dids' \<and> rank (dids' ! j) < rank i) (vD i) d"
    unfolding makes_definition_def by blast
  have c: "consistent env m0 rank vT vD tids' dids' sys'" using g by (simp add: grown_def)
  from consistent_add_definition [OF c d assms(2) ok]
  have "grown env m0 rank vT vD tids dids sys tids' (dids' @ [i])
      (sys'\<lparr>sys_definitions := sys_definitions sys' @ [d]\<rparr>)"
    using g by (simp add: grown_def)
  with consistent_lengths [OF c] show ?thesis
    unfolding gets_definition_def
    by (intro exI [of _ "length dids'"] exI [of _ tids'] exI [of _ "dids' @ [i]"] exI)
      (auto simp: e oval_result_system_add_definition_def)
qed

lemma make_values:
  assumes dm: "definitions_ok dm rank" "solves vT vD dm" "tests_decided env m0 vT dm"
  shows "consistent env m0 rank vT vD tids dids sys \<Longrightarrow> sys_definition_model sys = dm \<Longrightarrow>
     criteria_ok dm P c \<Longrightarrow> (\<And>i. P i \<Longrightarrow> rank i < fuel) \<Longrightarrow>
     makes_node env m0 rank vT vD tids dids sys P c (make_result_criteria_node fuel sys c vi)"
    and "consistent env m0 rank vT vD tids dids sys \<Longrightarrow> sys_definition_model sys = dm \<Longrightarrow>
     \<forall>c\<in>set cs. criteria_ok dm P c \<Longrightarrow> (\<And>i. P i \<Longrightarrow> rank i < fuel) \<Longrightarrow>
     makes_nodes env m0 rank vT vD tids dids sys P cs (make_result_criteria_nodes fuel sys cs vi)"
    and "consistent env m0 rank vT vD tids dids sys \<Longrightarrow> sys_definition_model sys = dm \<Longrightarrow>
     d \<in> set (dmodel_definitions dm) \<Longrightarrow> rank (definition_id d) < fuel \<Longrightarrow>
     makes_definition env m0 rank vT vD tids dids sys (definition_id d) (make_result_definition fuel sys d vi)"
    and "consistent env m0 rank vT vD tids dids sys \<Longrightarrow> sys_definition_model sys = dm \<Longrightarrow>
     (\<exists>i. ref = Some i \<and> get_definition dm i \<noteq> None \<and> rank i < fuel) \<Longrightarrow>
     gets_definition env m0 rank vT vD tids dids sys (the ref)
       (oval_result_system_get_new_definition fuel sys ref vi)"
proof (induction fuel sys c vi and fuel sys cs vi and fuel sys d vi and fuel sys ref vi
    arbitrary: tids dids P and tids dids P and tids dids and tids dids
    rule: make_result_criteria_node_make_result_criteria_nodes_make_result_definition_oval_result_system_get_new_definition.induct)
  case (1 fuel sys negate appl op subs vi)
  then have "makes_nodes env m0 rank vT vD tids dids sys P subs (make_result_criteria_nodes fuel sys subs vi)" by simp
  then show ?case
    by (fastforce simp: makes_nodes_def makes_node_def cached_def)
next
  case (2 fuel sys negate appl test_ref vi)
  from "2.prems" obtain test where test: "get_test dm test_ref = Some test" by auto
  from get_new_test_grown [OF "2.prems"(1) dm(3) test, of vi] test "2.prems"(2) show ?case
    by (fastforce simp: makes_node_def cached_def)
next
  case (3 fuel sys negate appl definition_ref vi)
  from "3.prems"(3) obtain i where i: "definition_ref = Some i" "get_definition dm i \<noteq> None" "P i"
    by (auto split: option.splits)
  with "3.IH" [OF "3.prems"(1,2)] "3.prems"(4) have
    "gets_definition env m0 rank vT vD tids dids sys i (oval_result_system_get_new_definition fuel sys definition_ref vi)"
    by auto
  then obtain k tids' dids' sys' where
    "oval_result_system_get_new_definition fuel sys definition_ref vi = Some (Some k, sys')"
    "grown env m0 rank vT vD tids dids sys tids' dids' sys'" "k < length dids'" "dids' ! k = i"
    unfolding gets_definition_def by blast
  with i show ?case
    unfolding makes_node_def
    by (intro exI [of _ "REXTENDDEF OVAL_RESULT_NOT_EVALUATED negate appl (Some k) 1"] exI [of _ tids']
        exI [of _ dids'] exI [of _ sys']) (simp add: cached_def)
next
  case (4 fuel sys vi)
  then show ?case by (auto simp: makes_nodes_def dest: grown_refl)
next
  case (5 fuel sys c cs vi)
  show ?case
  proof (rule makes_nodes_Cons)
    show "makes_node env m0 rank vT vD tids dids sys P c (make_result_criteria_node fuel sys c vi)"
      using "5.IH"(1) "5.prems" by simp
    fix node tids' dids' sys'
    assume e: "make_result_criteria_node fuel sys c vi = Some (node, sys')"
      and g: "grown env m0 rank vT vD tids dids sys tids' dids' sys'"
    show "makes_nodes env m0 rank vT vD tids' dids' sys' P cs (make_result_criteria_nodes fuel sys' cs vi)"
      using "5.IH"(2) [OF e refl] g "5.prems" by (simp add: grown_def)
  qed
next
  case (6 sys d vi)
  then show ?case by simp
next
  case (7 fuel sys d vi)
  let ?i = "definition_id d"
  have v: "vD ?i = (case definition_criteria d of None \<Rightarrow> OVAL_RESULT_ERROR | Some c \<Rightarrow> criteria_value vT vD c)"
    using dm(2) "7.prems"(3) by (simp add: solves_def)
  show ?case
  proof (cases "definition_criteria d")
    case None
    with v grown_refl [OF "7.prems"(1)] show ?thesis
      by (auto simp: makes_definition_def Let_def oval_result_definition_set_instance_def oval_result_definition_new_def
          definition_ok_def cached_def)
  next
    case (Some c)
    let ?P = "\<lambda>j. rank j < rank ?i"
    have "criteria_ok dm ?P c" using dm(1) "7.prems"(3) Some by (auto simp: definitions_ok_def)
    from "7.IH" [OF refl Some "7.prems"(1,2) this] "7.prems"(4) have
      "makes_node env m0 rank vT vD tids dids sys ?P c (make_result_criteria_node fuel sys c vi)" by simp
    with v Some show ?thesis
      by (fastforce simp: makes_node_def makes_definition_def Let_def oval_result_definition_set_instance_def
          oval_result_definition_new_def definition_ok_def cached_def)
  qed
next
  case (8 fuel sys vi)
  then show ?case by simp
next
  case (9 fuel sys i vi)
  from "9.prems" obtain d where d: "get_definition dm i = Some d" "rank i < fuel" by auto
  note mem = get_definition_SomeD [OF d(1)]
  have val: "vD i \<noteq> OVAL_RESULT_INVALID" using solution_decided [OF dm] d by (auto simp: decided_def)
  show ?case
  proof (cases "oval_result_system_get_definition sys i")
    case None
    from "9.IH"(1) [OF _ refl None "9.prems"(1,2)] d mem "9.prems"(2) have
      "makes_definition env m0 rank vT vD tids dids sys i (make_result_definition fuel sys d (if vi \<noteq> 0 then vi else 1))"
      by simp
    from gets_definition_add [OF this val] show ?thesis using d None "9.prems"(2) by (simp add: Let_def)
  next
    case (Some k)
    have k: "k < length dids" "dids ! k = i"
      using Some "9.prems"(1) by (auto simp: oval_result_system_get_definition_def consistent_def dest!: get_last_SomeD)
    let ?d = "sys_definitions sys ! k"
    show ?thesis
    proof (cases "rdef_hint ?d \<noteq> rdef_instance ?d")
      case True
      from "9.IH"(2) [OF _ refl Some refl True "9.prems"(1,2)] d mem "9.prems"(2) have
        "makes_definition env m0 rank vT vD tids dids sys i (make_result_definition fuel sys d (rdef_hint ?d))" by simp
      from gets_definition_add [OF this val] show ?thesis using d Some True "9.prems"(2) by (simp add: Let_def)
    next
      case False
      with k d Some "9.prems"(2) grown_refl [OF "9.prems"(1)] show ?thesis
        by (auto simp: gets_definition_def Let_def)
    qed
  qed
qed

section \<open>Results that are set stay\<close>

definition keeps :: "result_system \<Rightarrow> result_system \<Rightarrow> bool" where
  "keeps sys sys' \<longleftrightarrow> sys_definition_model sys' = sys_definition_model sys
     \<and> length (sys_definitions sys) \<le> length (sys_definitions sys')
     \<and> (\<forall>j<length (sys_definitions sys). rdef_definition (sys_definitions sys' ! j) = rdef_definition (sys_definitions sys ! j))
     \<and> (\<forall>j<length (sys_definitions sys). rdef_result (sys_definitions sys ! j) \<noteq> OVAL_RESULT_NOT_EVALUATED \<longrightarrow>
          rdef_result (sys_definitions sys' ! j) = rdef_result (sys_definitions sys ! j))"

lemma keeps_refl [simp]: "keeps sys sys"
  by (simp add: keeps_def)

lemma keeps_trans: "keeps a b \<Longrightarrow> keeps b c \<Longrightarrow> keeps a c"
  by (fastforce simp: keeps_def)

lemma keeps_append [simp]: "keeps sys (sys\<lparr>sys_definitions := sys_definitions sys @ ds\<rparr>)"
  by (simp add: keeps_def nth_append)

lemma keeps_tests [simp]: "keeps sys (sys\<lparr>sys_tests := ts, sys_syschar_model := m\<rparr>)" "keeps sys (sys\<lparr>sys_tests := ts\<rparr>)"
  by (simp_all add: keeps_def)

lemma eval_keeps:
  "oval_result_criteria_node_eval fuel env node sys = Some (r, node', sys') \<Longrightarrow> keeps sys sys'"
  "eval_subnodes fuel env subs ores sys = Some (ores', subs', sys') \<Longrightarrow> keeps sys sys'"
  "oval_result_definition_eval fuel env i sys = Some (r, sys') \<Longrightarrow>
     keeps sys sys' \<and> i < length (sys_definitions sys') \<and> rdef_result (sys_definitions sys' ! i) = r"
proof (induction fuel env node sys and fuel env subs ores sys and fuel env i sys
    arbitrary: r node' sys' and ores' subs' sys' and r sys'
    rule: oval_result_criteria_node_eval_eval_subnodes_oval_result_definition_eval.induct)
  case (2 fuel env res negate appl t vi sys)
  then show ?case by (auto simp: eval_test_at_def Let_def split: if_splits)
next
  case (5 fuel env sub subs node_res sys)
  then show ?case by (fastforce split: option.splits intro: keeps_trans)
next
  case (7 fuel env i sys)
  let ?d = "sys_definitions sys ! i"
  from "7.prems" have len: "i < length (sys_definitions sys)" by (auto split: if_splits)
  show ?case
  proof (cases "rdef_result ?d = OVAL_RESULT_NOT_EVALUATED")
    case ne: True
    show ?thesis
    proof (cases "rdef_criteria ?d")
      case None
      with "7.prems" len ne show ?thesis by (auto simp: Let_def keeps_def nth_list_update)
    next
      case (Some crit)
      with "7.prems" len ne obtain crit' sys1 where
        e: "oval_result_criteria_node_eval fuel env crit sys = Some (r, crit', sys1)"
        and sys': "sys' = sys1\<lparr>sys_definitions := (sys_definitions sys1)
             [i := ?d\<lparr>rdef_result := r, rdef_criteria := Some crit'\<rparr>]\<rparr>"
        by (auto simp: Let_def)
      have "keeps sys sys1" using "7.IH" [OF len refl ne Some e] .
      with len ne show ?thesis by (auto simp: sys' keeps_def nth_list_update)
    qed
  qed (use "7.prems" len in \<open>auto simp: Let_def\<close>)
qed (auto simp: Let_def split: if_splits option.splits)

lemma make_keeps:
  "make_result_criteria_node fuel sys c vi = Some (node, sys') \<Longrightarrow> keeps sys sys'"
  "make_result_criteria_nodes fuel sys cs vi = Some (nodes, sys') \<Longrightarrow> keeps sys sys'"
  "make_result_definition fuel sys d vi = Some (rdef, sys') \<Longrightarrow> keeps sys sys'"
  "oval_result_system_get_new_definition fuel sys ref vi = Some (k, sys') \<Longrightarrow> keeps sys sys'"
proof (induction fuel sys c vi and fuel sys cs vi and fuel sys d vi and fuel sys ref vi
    arbitrary: node sys' and nodes sys' and rdef sys' and k sys'
    rule: make_result_criteria_node_make_result_criteria_nodes_make_result_definition_oval_result_system_get_new_definition.induct)
  case (2 fuel sys negate appl test_ref vi)
  then show ?case
    by (auto simp: oval_result_system_get_new_test_def oval_result_system_add_test_def Let_def
        split: option.splits prod.splits if_splits)
next
  case (5 fuel sys c cs vi)
  then show ?case by (fastforce split: option.splits intro: keeps_trans)
next
  case (9 fuel sys i vi)
  then show ?case
    by (auto simp: Let_def oval_result_system_add_definition_def intro: keeps_trans [OF _ keeps_append]
        split: option.splits if_splits)
qed (auto simp: Let_def split: option.splits)

section \<open>All definitions of a model\<close>

lemma get_definition_None: "get_definition dm i = None \<longleftrightarrow> i \<notin> definition_id ` set (dmodel_definitions dm)"
  by (auto simp: get_definition_def find_None_iff)

text \<open>One definition: its results are made and evaluated.\<close>

lemma definition_values:
  assumes dm: "definitions_ok dm rank" "solves vT vD dm" "tests_decided env m0 vT dm"
    and cons: "consistent env m0 rank vT vD tids dids sys" and sys: "sys_definition_model sys = dm"
    and i: "i \<in> definition_id ` set (dmodel_definitions dm)" "rank i < fuel"
  obtains k sys1 sys2 tids' dids'
  where "oval_result_system_get_new_definition fuel sys (Some i) vi = Some (Some k, sys1)"
    and "oval_result_definition_eval fuel env k sys1 = Some (vD i, sys2)"
    and "consistent env m0 rank vT vD tids' dids' sys2" and "k < length dids'" and "dids' ! k = i"
    and "sys_definition_model sys1 = dm"
proof -
  have "\<exists>j. Some i = Some j \<and> get_definition dm j \<noteq> None \<and> rank j < fuel" using i by (auto simp: get_definition_None)
  from make_values(4) [OF dm cons sys this, of vi] obtain k tids' dids' sys1 where
    e: "oval_result_system_get_new_definition fuel sys (Some i) vi = Some (Some k, sys1)"
    and g: "grown env m0 rank vT vD tids dids sys tids' dids' sys1" and k: "k < length dids'" "dids' ! k = i"
    unfolding gets_definition_def by auto
  have c: "consistent env m0 rank vT vD tids' dids' sys1" "sys_definition_model sys1 = dm"
    using g sys by (simp_all add: grown_def)
  from eval_values(3) [OF c(1) k(1), of fuel] k i obtain sys2 where
    "oval_result_definition_eval fuel env k sys1 = Some (vD i, sys2)" "consistent env m0 rank vT vD tids' dids' sys2"
    by auto
  with that e k c show thesis by blast
qed

definition holds_value :: "(string \<Rightarrow> oval_result_t) \<Rightarrow> string \<Rightarrow> result_system \<Rightarrow> bool" where
  "holds_value vD i sys \<longleftrightarrow> (\<exists>k<length (sys_definitions sys).
     rdef_definition (sys_definitions sys ! k) = i \<and> rdef_result (sys_definitions sys ! k) = vD i)"

lemma holds_value_keeps:
  assumes "holds_value vD i sys" and "keeps sys sys'" and "decided (vD i)"
  shows "holds_value vD i sys'"
proof -
  from assms(1) obtain k where k: "k < length (sys_definitions sys)" "rdef_definition (sys_definitions sys ! k) = i"
    "rdef_result (sys_definitions sys ! k) = vD i" by (auto simp: holds_value_def)
  with assms(2,3) show ?thesis
    by (auto simp: holds_value_def keeps_def decided_def intro!: exI [of _ k])
qed

lemma eval_definitions_values:
  assumes dm: "definitions_ok dm rank" "solves vT vD dm" "tests_decided env m0 vT dm"
  shows "consistent env m0 rank vT vD tids dids sys \<Longrightarrow> sys_definition_model sys = dm \<Longrightarrow>
    set ds \<subseteq> set (dmodel_definitions dm) \<Longrightarrow> \<forall>d\<in>set ds. rank (definition_id d) < fuel \<Longrightarrow>
    \<exists>sys' tids' dids'. eval_definitions fuel env ds sys = Some sys' \<and> keeps sys sys'
      \<and> consistent env m0 rank vT vD tids' dids' sys' \<and> (\<forall>d\<in>set ds. holds_value vD (definition_id d) sys')"
proof (induction ds arbitrary: sys tids dids)
  case Nil
  then show ?case by auto
next
  case (Cons d ds)
  have i: "definition_id d \<in> definition_id ` set (dmodel_definitions dm)" "rank (definition_id d) < fuel"
    using Cons.prems by auto
  have val: "decided (vD (definition_id d))"
    using solution_decided [OF dm] i(1) get_definition_None [of dm] by auto
  obtain k sys1 sys2 tids2 dids2 where
    n: "oval_result_system_get_new_definition fuel sys (Some (definition_id d)) 0 = Some (Some k, sys1)"
    and e: "oval_result_definition_eval fuel env k sys1 = Some (vD (definition_id d), sys2)"
    and c: "consistent env m0 rank vT vD tids2 dids2 sys2" and k: "k < length dids2" "dids2 ! k = definition_id d"
    by (rule definition_values [OF dm Cons.prems(1,2) i])
  have ks: "keeps sys sys2" using make_keeps(4) [OF n] eval_keeps(3) [OF e] keeps_trans by blast
  then have m: "sys_definition_model sys2 = dm" using Cons.prems(2) by (simp add: keeps_def)
  have h: "holds_value vD (definition_id d) sys2"
  proof -
    have "map rdef_definition (sys_definitions sys2) = dids2" using c by (simp add: consistent_def)
    with k have "rdef_definition (sys_definitions sys2 ! k) = definition_id d" by (metis length_map nth_map)
    with eval_keeps(3) [OF e] show ?thesis unfolding holds_value_def by blast
  qed
  from Cons.IH [OF c m] Cons.prems(3,4) obtain sys' tids' dids' where
    f: "eval_definitions fuel env ds sys2 = Some sys'" "keeps sys2 sys'"
      "consistent env m0 rank vT vD tids' dids' sys'" "\<forall>d\<in>set ds. holds_value vD (definition_id d) sys'" by auto
  with n e ks h val show ?case by (auto intro: keeps_trans holds_value_keeps)
qed

section \<open>Circular extensions\<close>

text \<open>
  Definitions \<open>S\<close> that each extend one of \<open>S\<close>. As long as the system has no entry for them, none is made.
\<close>

fun extends_in :: "string set \<Rightarrow> oval_criteria_node \<Rightarrow> bool" where
  "extends_in S (CRITERIA _ _ _ subs) \<longleftrightarrow> (\<exists>s\<in>set subs. extends_in S s)"
| "extends_in S (CRITERION _ _ _) \<longleftrightarrow> False"
| "extends_in S (EXTENDDEF _ _ d) \<longleftrightarrow> (\<exists>i. d = Some i \<and> i \<in> S)"

definition circular :: "string set \<Rightarrow> oval_definition_model \<Rightarrow> bool" where
  "circular S dm \<longleftrightarrow> (\<forall>i\<in>S. \<exists>d c. get_definition dm i = Some d \<and> definition_criteria d = Some c \<and> extends_in S c)"

definition no_entries :: "string set \<Rightarrow> oval_definition_model \<Rightarrow> result_system \<Rightarrow> bool" where
  "no_entries S dm sys \<longleftrightarrow> sys_definition_model sys = dm \<and> (\<forall>d\<in>set (sys_definitions sys). rdef_definition d \<notin> S)"

lemma get_last_None: "get_last key i xs = None \<longleftrightarrow> i \<notin> key ` set xs"
  by (induction key i xs rule: get_last.induct) (auto split: option.splits)

lemma circular_not_made:
  assumes S: "circular S dm"
  shows "make_result_criteria_node fuel sys c vi = Some (node, sys') \<Longrightarrow> no_entries S dm sys \<Longrightarrow>
      \<not> extends_in S c \<and> no_entries S dm sys'"
    and "make_result_criteria_nodes fuel sys cs vi = Some (nodes, sys') \<Longrightarrow> no_entries S dm sys \<Longrightarrow>
      (\<forall>c\<in>set cs. \<not> extends_in S c) \<and> no_entries S dm sys'"
    and "make_result_definition fuel sys d vi = Some (rdef, sys') \<Longrightarrow> no_entries S dm sys \<Longrightarrow>
      (\<forall>c. definition_criteria d = Some c \<longrightarrow> \<not> extends_in S c) \<and> no_entries S dm sys'
      \<and> rdef_definition rdef = definition_id d"
    and "oval_result_system_get_new_definition fuel sys ref vi = Some (k, sys') \<Longrightarrow> no_entries S dm sys \<Longrightarrow>
      (\<forall>i. ref = Some i \<longrightarrow> i \<notin> S) \<and> no_entries S dm sys'"
proof (induction fuel sys c vi and fuel sys cs vi and fuel sys d vi and fuel sys ref vi
    arbitrary: node sys' and nodes sys' and rdef sys' and k sys'
    rule: make_result_criteria_node_make_result_criteria_nodes_make_result_definition_oval_result_system_get_new_definition.induct)
  case (2 fuel sys negate appl test_ref vi)
  then show ?case
    by (auto simp: oval_result_system_get_new_test_def oval_result_system_add_test_def Let_def no_entries_def
        split: option.splits prod.splits if_splits)
next
  case (3 fuel sys negate appl definition_ref vi)
  then show ?case by (auto split: option.splits)
next
  case (5 fuel sys c cs vi)
  then show ?case by (fastforce split: option.splits)
next
  case (7 fuel sys d vi)
  then show ?case
    by (auto simp: Let_def oval_result_definition_set_instance_def oval_result_definition_new_def split: option.splits)
next
  case (9 fuel sys i vi)
  show ?case
  proof (cases "get_definition dm i")
    case None
    with "9.prems" S show ?thesis by (auto simp: no_entries_def circular_def)
  next
    case (Some d)
    then have d: "definition_id d = i" using get_definition_SomeD by blast
    have dm: "sys_definition_model sys = dm" using "9.prems" by (simp add: no_entries_def)
    have made: "i \<notin> S \<and> no_entries S dm sys'"
      if m: "make_result_definition fuel sys d v = Some (rdef, sys1)"
        and sys': "sys' = sys1\<lparr>sys_definitions := sys_definitions sys1 @ [rdef]\<rparr>"
        and ih: "(\<forall>c. definition_criteria d = Some c \<longrightarrow> \<not> extends_in S c) \<and> no_entries S dm sys1
          \<and> rdef_definition rdef = definition_id d" for v rdef sys1
      using S Some d ih by (auto simp: circular_def no_entries_def sys')
    show ?thesis
    proof (cases "oval_result_system_get_definition sys i")
      case None
      with "9.prems"(1) Some dm obtain rdef sys1 where
        m: "make_result_definition fuel sys d (if vi \<noteq> 0 then vi else 1) = Some (rdef, sys1)"
        and sys': "sys' = sys1\<lparr>sys_definitions := sys_definitions sys1 @ [rdef]\<rparr>"
        by (auto simp: Let_def oval_result_system_add_definition_def split: if_splits)
      from made [OF m sys'] "9.IH"(1) [OF _ refl None m "9.prems"(2)] Some dm show ?thesis by simp
    next
      case e: (Some k)
      then have "i \<notin> S"
        using "9.prems"(2) by (auto simp: no_entries_def oval_result_system_get_definition_def dest!: get_last_SomeD)
      show ?thesis
      proof (cases "rdef_hint (sys_definitions sys ! k) \<noteq> rdef_instance (sys_definitions sys ! k)")
        case True
        with "9.prems"(1) Some dm e obtain rdef sys1 where
          m: "make_result_definition fuel sys d (rdef_hint (sys_definitions sys ! k)) = Some (rdef, sys1)"
          and sys': "sys' = sys1\<lparr>sys_definitions := sys_definitions sys1 @ [rdef]\<rparr>"
          by (auto simp: Let_def oval_result_system_add_definition_def split: if_splits)
        from made [OF m sys'] "9.IH"(2) [OF _ refl e refl True m "9.prems"(2)] Some dm show ?thesis by simp
      next
        case False
        with \<open>i \<notin> S\<close> "9.prems" Some dm e show ?thesis by (simp add: Let_def)
      qed
    qed
  qed
qed auto

section \<open>Properties\<close>

definition new_system :: "syschar_model \<Rightarrow> oval_definition_model \<Rightarrow> result_system" where
  "new_system m dm = \<lparr>sys_definitions = [], sys_tests = [], sys_syschar_model = m, sys_definition_model = dm\<rparr>"

lemma consistent_new: "consistent env m rank vT vD [] [] (new_system m dm)"
  by (simp add: consistent_def new_system_def same_model_def)

text \<open>
  C1. On definitions that do not extend each other in a circle and whose criteria refer to tests and
  definitions of the model (\<open>definitions_ok\<close>), and when every test, evaluated in isolation, has a result and
  that is not \<open>not evaluated\<close> (\<open>tests_decided\<close>), evaluating a system gives every definition its value: the
  values that solve the equations of the definitions, in which a criteria node is the table of its operator
  over its subnodes, a criterion the result of its test evaluated in isolation, an extended definition its
  own value, and each is negated where the node says so. The order of evaluation, the results cached and
  shared on the way, and the masks that tests set play no role. Fuel beyond the ranks of the definitions is
  enough. (Without \<open>tests_decided\<close> the values differ: see \<open>not_evaluated_test_counts_twice\<close>.)
\<close>

theorem system_eval_correct:
  assumes "definitions_ok dm rank" and "solves vT vD dm" and "tests_decided env m vT dm"
    and "\<forall>d\<in>set (dmodel_definitions dm). rank (definition_id d) < fuel"
  shows "\<exists>sys. oval_result_system_eval fuel env (new_system m dm) = Some sys
    \<and> (\<forall>d\<in>set (dmodel_definitions dm). \<exists>r\<in>set (sys_definitions sys).
          rdef_definition r = definition_id d \<and> rdef_result r = vD (definition_id d))
    \<and> (\<forall>r\<in>set (sys_definitions sys). rdef_result r \<in> {OVAL_RESULT_NOT_EVALUATED, vD (rdef_definition r)})"
proof -
  from eval_definitions_values [OF assms(1-3) consistent_new _ subset_refl assms(4)] obtain sys tids dids where
    e: "oval_result_system_eval fuel env (new_system m dm) = Some sys" "consistent env m rank vT vD tids dids sys"
      "\<forall>d\<in>set (dmodel_definitions dm). holds_value vD (definition_id d) sys"
    by (auto simp: oval_result_system_eval_def new_system_def)
  have "rdef_result r \<in> {OVAL_RESULT_NOT_EVALUATED, vD (rdef_definition r)}" if "r \<in> set (sys_definitions sys)" for r
    using that e(2) by (auto simp: in_set_conv_nth consistent_def definition_ok_def cached_def)
  with e(1,3) show ?thesis unfolding holds_value_def by (metis nth_mem)
qed

definition example_model :: syschar_model where
  "example_model = \<lparr>model_syschars = [''o'' \<mapsto> \<lparr>syschar_flag = SYSCHAR_FLAG_COMPLETE, syschar_items = [Some ''1'']\<rparr>],
     model_sysitems = users\<rparr>"

definition example_definitions :: oval_definition_model where
  "example_definitions = \<lparr>dmodel_definitions =
      [\<lparr>definition_id = ''a'', definition_criteria = Some (CRITERIA False False OVAL_OPERATOR_AND
          [CRITERION False False ''t'', EXTENDDEF True False (Some ''b'')])\<rparr>,
       \<lparr>definition_id = ''b'', definition_criteria = Some (CRITERION False False ''t'')\<rparr>],
     dmodel_tests = [example_test OVAL_ANY_EXIST []]\<rparr>"

theorem system_eval_correct_witness:
  "\<exists>sys. oval_result_system_eval 2 example_env (new_system example_model example_definitions) = Some sys
     \<and> (\<exists>r\<in>set (sys_definitions sys). rdef_definition r = ''a'' \<and> rdef_result r = OVAL_RESULT_FALSE)"
proof -
  let ?vD = "\<lambda>i. if i = ''a'' then OVAL_RESULT_FALSE else OVAL_RESULT_TRUE"
  have "test_value example_env example_model (oval_result_test_new (example_test OVAL_ANY_EXIST [])) = Some OVAL_RESULT_TRUE"
    by code_simp
  then have tests: "tests_decided example_env example_model (\<lambda>_. OVAL_RESULT_TRUE) example_definitions"
    by (simp add: tests_decided_def example_definitions_def)
  have ok: "definitions_ok example_definitions (\<lambda>i. if i = ''a'' then 1 else 0)"
    "solves (\<lambda>_. OVAL_RESULT_TRUE) ?vD example_definitions"
    by (simp_all add: definitions_ok_def solves_def example_definitions_def get_test_def get_definition_def example_test_def
        operator_table_def all_table_def signed_def negated_def)
  from system_eval_correct [OF ok tests, of 2] show ?thesis
    by (auto simp: example_definitions_def)
qed

text \<open>
  C14. Definitions that extend each other in a circle are never made: on a system without an entry for
  them, the recursion of \<open>oval_result_system_get_new_definition\<close> does not end, whatever the fuel. The
  content alone decides this; the program runs out of stack.
\<close>

theorem circular_extension_diverges:
  assumes "circular S dm" and "i \<in> S" and "no_entries S dm sys"
  shows "oval_result_system_get_new_definition fuel sys (Some i) vi = None
    \<and> oval_result_system_eval_definition fuel env i sys = None"
proof -
  have n: "oval_result_system_get_new_definition fuel sys (Some i) v = None" for v
    using circular_not_made(4) [OF assms(1), of fuel sys "Some i" v] assms(2,3)
    by (cases "oval_result_system_get_new_definition fuel sys (Some i) v") (auto simp del: oval_result_system_get_new_definition.simps)
  have "get_definition (sys_definition_model sys) i \<noteq> None"
    using assms by (auto simp: circular_def no_entries_def)
  with n show ?thesis by (auto simp: oval_result_system_eval_definition_def)
qed

definition circular_definitions :: oval_definition_model where
  "circular_definitions = \<lparr>dmodel_definitions =
      [\<lparr>definition_id = ''a'', definition_criteria = Some (EXTENDDEF False False (Some ''b''))\<rparr>,
       \<lparr>definition_id = ''b'', definition_criteria = Some (EXTENDDEF False False (Some ''a''))\<rparr>],
     dmodel_tests = []\<rparr>"

theorem circular_extension_diverges_witness:
  "oval_result_system_eval_definition 1000000 example_env ''a'' (new_system example_model circular_definitions) = None"
proof -
  have "circular {''a'', ''b''} circular_definitions"
    "no_entries {''a'', ''b''} circular_definitions (new_system example_model circular_definitions)"
    by (simp_all add: circular_def no_entries_def new_system_def get_definition_def circular_definitions_def)
  from circular_extension_diverges [OF this(1) _ this(2), of "''a''"] show ?thesis by blast
qed

text \<open>
  A test whose result is \<open>not evaluated\<close> (its state has a datatype the comparison does not support)
  is evaluated again when it is needed again, and its items are then counted twice: here a test that
  exactly one item satisfies goes from \<open>not evaluated\<close> to \<open>false\<close>.
\<close>

definition version_state :: oval_state where
  "version_state = root_state\<lparr>state_contents := [Some (uid_0\<lparr>content_ent_check := OVAL_CHECK_NONE_SATISFY,
     content_entity := map_option (\<lambda>e. e\<lparr>entity_value :=
       Some \<lparr>value_datatype = OVAL_DATATYPE_IOS_VERSION, value_text = Some ''12''\<rparr>\<rparr>) (content_entity uid_0)\<rparr>)]\<rparr>"

definition version_items :: syschar_model where
  "version_items = \<lparr>model_syschars = [''o'' \<mapsto> \<lparr>syschar_flag = SYSCHAR_FLAG_COMPLETE, syschar_items = [Some ''1'', Some ''2'']\<rparr>],
     model_sysitems = [''1'' \<mapsto> (user_item ''0'')\<lparr>sysitem_sysents := [Some ((uid ''0'')\<lparr>sysent_status := SYSCHAR_STATUS_DOES_NOT_EXIST\<rparr>)]\<rparr>,
                       ''2'' \<mapsto> user_item ''12'']\<rparr>"

theorem not_evaluated_test_counts_twice:
  "(case oval_result_test_eval example_env version_items
           (oval_result_test_new (example_test OVAL_ALL_EXIST [version_state])) of
      None \<Rightarrow> None
    | Some (r1, t, m) \<Rightarrow> map_option (\<lambda>(r2, t', m'). (r1, r2, length (rtest_items t'))) (oval_result_test_eval example_env m t))
   = Some (OVAL_RESULT_NOT_EVALUATED, OVAL_RESULT_FALSE, 4)"
  by code_simp

end
