(* ===== verification/Oval_Component.thy ===== *)
theory Oval_Component
  imports Oval_Test
begin

text \<open>
  Variables and the components they are computed from, \<open>oval_component.c\<close> and \<open>oval_variable.c\<close>: the
  literals, references and functions of the language, each evaluated to a collection flag and a list of
  values.

  The variables stand in a map by identifier; a local variable caches its flag and values. The same
  evaluators serve the two modes of the program: \<open>COMPUTE\<close> looks objects up in the collected system,
  \<open>QUERY\<close> has a probe collect them (\<open>env_query\<close>). Parameters are what the evaluators call outside the
  sources: the regular expression engine, the calendar functions of the C library, and the arithmetic
  of \<open>double\<close>. The result None is an abort (a NULL that is read: a text, an attribute that the document
  left out, what \<open>localtime\<close> gives for a time it cannot break down, an empty list of components) or the end
  of the fuel, which bounds the recursion along variable references.
\<close>

section \<open>Components and variables\<close>

datatype oval_component =
    COMP_LITERAL oval_value
  | COMP_OBJECTREF "string option" cstr "string option"
  | COMP_VARREF "string option"
  | COMP_BEGIN "string option" "oval_component list"
  | COMP_CONCAT "oval_component list"
  | COMP_END "string option" "oval_component list"
  | COMP_SPLIT cstr "oval_component list"
  | COMP_SUBSTRING int int "oval_component list"
  | COMP_TIMEDIF oval_datetime_format_t oval_datetime_format_t "oval_component list"
  | COMP_ESCAPE_REGEX "oval_component list"
  | COMP_REGEX_CAPTURE cstr "oval_component list"
  | COMP_ARITHMETIC oval_arithmetic_operation_t "oval_component list"
  | COMP_COUNT "oval_component list"
  | COMP_UNIQUE "oval_component list"
  | COMP_UNSUPPORTED

record oval_variable =
  var_type :: oval_variable_type_t
  var_datatype :: oval_datatype_t
  var_flag :: oval_syschar_collection_flag_t
  var_values :: "oval_value list"
  var_component :: "oval_component option"

type_synonym variable_map = "string \<Rightarrow> oval_variable option"

datatype oval_mode = OVAL_MODE_COMPUTE | OVAL_MODE_QUERY

datatype capture = Capture_Error | Capture_None | Capture string

record 'd double_ops =
  dbl_of_int :: "int \<Rightarrow> 'd"
  dbl_strtof :: "string \<Rightarrow> 'd"
  dbl_add :: "'d \<Rightarrow> 'd \<Rightarrow> 'd"
  dbl_mul :: "'d \<Rightarrow> 'd \<Rightarrow> 'd"
  dbl_show_ld :: "'d \<Rightarrow> string"
  dbl_show_f :: "'d \<Rightarrow> string"

text \<open>
  The broken-down time and the calendar: \<open>time\<close>, \<open>strptime\<close> (with what is left of the text), \<open>mktime\<close>,
  and of \<open>localtime\<close> the daylight saving flag, or NULL for a time whose year does not fit.
\<close>

record tm =
  tm_year :: int
  tm_mon :: int
  tm_mday :: int
  tm_hour :: int
  tm_min :: int
  tm_sec :: int

record calendar =
  cal_time :: "64 word"
  cal_strptime :: "string \<Rightarrow> string \<Rightarrow> (tm \<times> string) option"
  cal_mktime :: "tm \<Rightarrow> 64 word"
  cal_localtime :: "64 word \<Rightarrow> bool option"

record 'd comp_env =
  env_mode :: oval_mode
  env_model :: syschar_model
  env_query :: "string \<Rightarrow> oval_syschar option option"
  env_capture :: "string \<Rightarrow> (string \<Rightarrow> capture) option"
  env_calendar :: calendar
  env_double :: "'d double_ops"

section \<open>Flags\<close>

definition flag_agg_map :: "oval_syschar_collection_flag_t \<Rightarrow> oval_syschar_collection_flag_t \<Rightarrow> oval_syschar_collection_flag_t" where
  "flag_agg_map f2 f1 =
     (case f2 of
        SYSCHAR_FLAG_UNKNOWN \<Rightarrow> f1
      | SYSCHAR_FLAG_ERROR \<Rightarrow> SYSCHAR_FLAG_ERROR
      | SYSCHAR_FLAG_COMPLETE \<Rightarrow> (if f1 = SYSCHAR_FLAG_UNKNOWN then SYSCHAR_FLAG_COMPLETE else f1)
      | SYSCHAR_FLAG_INCOMPLETE \<Rightarrow>
          (if f1 = SYSCHAR_FLAG_UNKNOWN \<or> f1 = SYSCHAR_FLAG_COMPLETE then SYSCHAR_FLAG_INCOMPLETE else f1)
      | SYSCHAR_FLAG_DOES_NOT_EXIST \<Rightarrow>
          (if f1 \<in> {SYSCHAR_FLAG_ERROR, SYSCHAR_FLAG_NOT_COLLECTED, SYSCHAR_FLAG_NOT_APPLICABLE} then f1
           else SYSCHAR_FLAG_DOES_NOT_EXIST)
      | SYSCHAR_FLAG_NOT_COLLECTED \<Rightarrow>
          (if f1 \<in> {SYSCHAR_FLAG_ERROR, SYSCHAR_FLAG_NOT_APPLICABLE} then f1 else SYSCHAR_FLAG_NOT_COLLECTED)
      | _ \<Rightarrow> (if f1 = SYSCHAR_FLAG_ERROR then SYSCHAR_FLAG_ERROR else SYSCHAR_FLAG_NOT_APPLICABLE))"

definition agg_flag :: "oval_syschar_collection_flag_t \<Rightarrow> oval_syschar_collection_flag_t \<Rightarrow> oval_syschar_collection_flag_t" where
  "agg_flag f1 f2 = flag_agg_map f2 f1"

definition has_values :: "oval_syschar_collection_flag_t \<Rightarrow> bool" where
  "has_values flag \<longleftrightarrow> flag = SYSCHAR_FLAG_COMPLETE \<or> flag = SYSCHAR_FLAG_INCOMPLETE"

section \<open>What the functions do with texts\<close>

definition string_value :: "string \<Rightarrow> oval_value" where
  "string_value text = \<lparr>value_datatype = OVAL_DATATYPE_STRING, value_text = Some text\<rparr>"

definition begin_text :: "string \<Rightarrow> string \<Rightarrow> string" where
  "begin_text prefix key = (if take (length prefix) key \<noteq> prefix then prefix @ key else key)"

definition end_text :: "string \<Rightarrow> string \<Rightarrow> string" where
  "end_text suffix key =
     (if length suffix > length key \<or> drop (length key - length suffix) key \<noteq> suffix then key @ suffix else key)"

text \<open>\<open>split_text\<close>: the texts between the occurrences of the delimiter, or the single characters.\<close>

lemma c_strstr_shorter: "c_strstr s n = Some (a, b) \<Longrightarrow> n \<noteq> [] \<Longrightarrow> length b < length s"
  using c_strstr_Some [of s n a b] by simp

function split_at :: "string \<Rightarrow> string \<Rightarrow> string list" where
  "split_at delimiter text =
     (if delimiter = [] then map (\<lambda>c. [c]) text
      else case c_strstr text delimiter of
             None \<Rightarrow> [text]
           | Some (before, after) \<Rightarrow> before # split_at delimiter after)"
  by pat_completeness auto
termination
  by (relation "measure (\<lambda>(_, text). length text)") (auto dest: c_strstr_shorter)

declare split_at.simps [simp del]

text \<open>The substring, and None where the start is behind the text.\<close>

definition substring_text :: "int \<Rightarrow> int \<Rightarrow> string \<Rightarrow> string option" where
  "substring_text start len text =
     (let beg = (if start < 1 then 0 else nat (start - 1));
          sublen = (if len < 0 \<or> nat len > length text then length text else nat len)
      in if beg < length text then Some (take sublen (drop beg text)) else None)"

definition is_escape :: "char \<Rightarrow> bool" where
  "is_escape c \<longleftrightarrow> c \<in> set (''^$'' @ [CHR 0x5C] @ ''.[](){}*+?|'')"

fun escape_text :: "string \<Rightarrow> string" where
  "escape_text [] = []"
| "escape_text (c # cs) = (if is_escape c then CHR 0x5C # c # escape_text cs else c # escape_text cs)"

section \<open>Concatenation\<close>

text \<open>
  The state of a subcomponent in the loop of \<open>CONCAT\<close>: the current text, the values its iterator has
  left, and all its values. A subcomponent without values, or at a NULL text, has no current text.
\<close>

type_synonym wheel = "cstr \<times> oval_value list \<times> oval_value list"

fun wheel_start :: "oval_value list \<Rightarrow> wheel" where
  "wheel_start [] = (None, [], [])"
| "wheel_start (v # vs) = (value_text v, vs, v # vs)"

fun rotate_wheels :: "wheel list \<Rightarrow> wheel list" where
  "rotate_wheels [] = []"
| "rotate_wheels ((None, left, all) # ws) = (None, left, all) # rotate_wheels ws"
| "rotate_wheels ((Some t, v # vs, all) # ws) = (value_text v, vs, all) # ws"
| "rotate_wheels ((Some t, [], all) # ws) = (value_text (hd all), tl all, all) # rotate_wheels ws"

definition wheel_texts :: "wheel list \<Rightarrow> string" where
  "wheel_texts ws = concat (map (\<lambda>w. case fst w of None \<Rightarrow> [] | Some t \<Rightarrow> t) ws)"

fun concat_passes :: "nat \<Rightarrow> wheel list \<Rightarrow> string list" where
  "concat_passes 0 ws = []"
| "concat_passes (Suc n) ws = wheel_texts ws # concat_passes n (rotate_wheels ws)"

text \<open>
  The number of passes is the product of the numbers of values, of components that have some, in an
  \<open>int\<close>: it wraps at 32 bits (as the machine does; C leaves it undefined), and the loop makes no pass when
  it is not positive.
\<close>

definition concat_count :: "oval_value list list \<Rightarrow> 32 word" where
  "concat_count colls = foldl (\<lambda>catnum vs. if vs = [] then catnum else catnum * word_of_nat (length vs)) 1 colls"

definition concat_values :: "oval_value list list \<Rightarrow> oval_value list" where
  "concat_values colls =
     (let catnum = sint (concat_count colls)
      in map string_value (concat_passes (nat catnum) (map wheel_start colls)))"

section \<open>Distinct values\<close>

text \<open>The texts enter a map by text, which is read in the order of its keys.\<close>

fun unique_texts :: "string list \<Rightarrow> string list \<Rightarrow> string list" where
  "unique_texts valmap [] = valmap"
| "unique_texts valmap (t # ts) = unique_texts (if t \<in> set valmap then valmap else insort t valmap) ts"

definition value_texts :: "oval_value list \<Rightarrow> string list" where
  "value_texts vs = List.map_filter value_text vs"

section \<open>Time differences\<close>

definition dtfmt_ymd :: "string list" where
  "dtfmt_ymd = [''%Y%m%d'', ''%Y/%m/%d'', ''%Y-%m-%d'', ''%Y%m%dT%H%M%S'', ''%Y/%m/%d%n%T'', ''%Y-%m-%d%n%T'']"

definition dtfmt_mdy :: "string list" where
  "dtfmt_mdy = [''%m/%d/%Y'', ''%m-%d-%Y'', ''%b,%n%d%n%Y'', ''%m/%d/%Y%n%T'', ''%m-%d-%Y%n%T'', ''%b,%n%d%n%Y%n%T'']"

definition dtfmt_dmy :: "string list" where
  "dtfmt_dmy = [''%d/%m/%Y'', ''%d-%m-%Y'', ''%d/%m/%Y%n%T'', ''%d-%m-%Y%n%T'']"

text \<open>
  Seconds of a broken-down time. The year and the month are those of \<open>strptime\<close>, which counts them from
  1900 and from 0 already. The current time is broken down to have a structure to fill in.
\<close>

definition comp_sec :: "calendar \<Rightarrow> tm \<Rightarrow> 64 word option" where
  "comp_sec cal dt =
     (case cal_localtime cal (cal_time cal) of
        None \<Rightarrow> None
      | Some _ \<Rightarrow>
          (let t = cal_mktime cal (dt\<lparr>tm_year := tm_year dt - 1900, tm_mon := tm_mon dt - 1\<rparr>) in
           case cal_localtime cal t of
             None \<Rightarrow> None
           | Some isdst \<Rightarrow> Some (if isdst then t - 3600 else t)))"

fun parse_datetime :: "calendar \<Rightarrow> string \<Rightarrow> string list \<Rightarrow> 64 word option" where
  "parse_datetime cal datetime [] = Some 0"
| "parse_datetime cal datetime (fmt # fmts) =
     (case cal_strptime cal datetime fmt of
        Some (t, []) \<Rightarrow> comp_sec cal t
      | _ \<Rightarrow> parse_datetime cal datetime fmts)"

definition parse_fmt_sse :: "calendar \<Rightarrow> string \<Rightarrow> 64 word option" where
  "parse_fmt_sse cal dt =
     (let t = word_of_int (fst (strtol64 dt)) in
      case cal_localtime cal t of
        None \<Rightarrow> None
      | Some isdst \<Rightarrow> Some (if isdst then t - 3600 else t))"

text \<open>The formats that are not implemented do not read the text.\<close>

definition parse_fmt :: "calendar \<Rightarrow> cstr \<Rightarrow> oval_datetime_format_t \<Rightarrow> 64 word option" where
  "parse_fmt cal sv fmt =
     (let read = (\<lambda>parse. case sv of None \<Rightarrow> None | Some t \<Rightarrow> parse t) in
      case fmt of
        OVAL_DATETIME_YEAR_MONTH_DAY \<Rightarrow> read (\<lambda>t. parse_datetime cal t dtfmt_ymd)
      | OVAL_DATETIME_MONTH_DAY_YEAR \<Rightarrow> read (\<lambda>t. parse_datetime cal t dtfmt_mdy)
      | OVAL_DATETIME_DAY_MONTH_YEAR \<Rightarrow> read (\<lambda>t. parse_datetime cal t dtfmt_dmy)
      | OVAL_DATETIME_WIN_FILETIME \<Rightarrow> Some 0
      | OVAL_DATETIME_SECONDS_SINCE_EPOCH \<Rightarrow> read (parse_fmt_sse cal)
      | _ \<Rightarrow> Some 0)"

text \<open>\<open>snprintf\<close> of an unsigned number into 16 bytes keeps 15 digits.\<close>

definition show_time :: "64 word \<Rightarrow> string" where
  "show_time v = take 15 (show_nat (unat v))"

definition time_value :: "64 word \<Rightarrow> oval_value" where
  "time_value v = \<lparr>value_datatype = OVAL_DATATYPE_INTEGER, value_text = Some (show_time v)\<rparr>"

definition time_difference ::
    "calendar \<Rightarrow> oval_datetime_format_t \<Rightarrow> oval_datetime_format_t \<Rightarrow> oval_value \<Rightarrow> oval_value \<Rightarrow> oval_value option" where
  "time_difference cal fmt1 fmt2 ov1 ov2 =
     (case parse_fmt cal (value_text ov1) fmt1 of
        None \<Rightarrow> None
      | Some t1 \<Rightarrow> map_option (\<lambda>t2. time_value (t1 - t2)) (parse_fmt cal (value_text ov2) fmt2))"

definition timedif_values ::
    "calendar \<Rightarrow> oval_datetime_format_t \<Rightarrow> oval_datetime_format_t \<Rightarrow> oval_value list \<Rightarrow> oval_value list \<Rightarrow>
     oval_value list option" where
  "timedif_values cal fmt1 fmt2 vs1 vs2 =
     those (concat (map (\<lambda>ov1. map (time_difference cal fmt1 fmt2 ov1) vs2) vs1))"

section \<open>Arithmetic\<close>

definition arith_operand :: "'d double_ops \<Rightarrow> oval_value \<Rightarrow> 'd option option" where
  "arith_operand ops ov =
     (if value_datatype ov = OVAL_DATATYPE_INTEGER then
        map_option (\<lambda>t. Some (dbl_of_int ops (fst (strtol64 t)))) (value_text ov)
      else if value_datatype ov = OVAL_DATATYPE_FLOAT then
        map_option (\<lambda>t. Some (dbl_strtof ops t)) (value_text ov)
      else Some None)"

definition arith_result :: "'d double_ops \<Rightarrow> 'd \<Rightarrow> oval_datatype_t \<Rightarrow> oval_value" where
  "arith_result ops val datatype =
     \<lparr>value_datatype = datatype,
      value_text = Some (if datatype = OVAL_DATATYPE_INTEGER then take 31 (dbl_show_ld ops val)
                         else take 31 (dbl_show_f ops val))\<rparr>"

text \<open>
  \<open>_oval_component_evaluate_ARITHMETIC_rec\<close> and its loop over the values of one list. An operand of
  another type ends the loop with an error; the values made before stay, and the error of a deeper
  level is not looked at. The outer None is a NULL text that is read.
\<close>

fun arithmetic_rec ::
      "'d double_ops \<Rightarrow> oval_value list list \<Rightarrow> 'd \<Rightarrow> oval_datatype_t \<Rightarrow> oval_arithmetic_operation_t \<Rightarrow>
       (oval_syschar_collection_flag_t \<times> oval_value list) option"
  and arithmetic_loop ::
      "'d double_ops \<Rightarrow> oval_value list \<Rightarrow> oval_value list list \<Rightarrow> 'd \<Rightarrow> oval_datatype_t \<Rightarrow>
       oval_arithmetic_operation_t \<Rightarrow> (oval_syschar_collection_flag_t \<times> oval_value list) option"
where
  "arithmetic_rec ops [] val datatype aop = Some (SYSCHAR_FLAG_COMPLETE, [arith_result ops val datatype])"
| "arithmetic_rec ops (vs # others) val datatype aop = arithmetic_loop ops vs others val datatype aop"
| "arithmetic_loop ops [] others val datatype aop = Some (SYSCHAR_FLAG_COMPLETE, [])"
| "arithmetic_loop ops (ov # vs) others val datatype aop =
     (case arith_operand ops ov of
        None \<Rightarrow> None
      | Some None \<Rightarrow> Some (SYSCHAR_FLAG_ERROR, [])
      | Some (Some d) \<Rightarrow>
          (let dt = (if datatype = OVAL_DATATYPE_FLOAT then OVAL_DATATYPE_FLOAT else value_datatype ov) in
           if aop \<noteq> OVAL_ARITHMETIC_ADD \<and> aop \<noteq> OVAL_ARITHMETIC_MULTIPLY then Some (SYSCHAR_FLAG_ERROR, [])
           else
             (let new_val = (if aop = OVAL_ARITHMETIC_ADD then dbl_add ops d val else dbl_mul ops d val) in
              case arithmetic_rec ops others new_val dt aop of
                None \<Rightarrow> None
              | Some (_, new) \<Rightarrow>
                  map_option (\<lambda>(flag, rest). (flag, new @ rest)) (arithmetic_loop ops vs others val datatype aop))))"

text \<open>The loop of \<open>_oval_component_evaluate_ARITHMETIC\<close> over the values of the last component.\<close>

fun arithmetic_root ::
    "'d double_ops \<Rightarrow> oval_value list \<Rightarrow> oval_value list list \<Rightarrow> oval_arithmetic_operation_t \<Rightarrow>
     oval_syschar_collection_flag_t \<Rightarrow> (oval_syschar_collection_flag_t \<times> oval_value list) option" where
  "arithmetic_root ops [] others aop flag = Some (flag, [])"
| "arithmetic_root ops (ov # vs) others aop flag =
     (case arith_operand ops ov of
        None \<Rightarrow> None
      | Some None \<Rightarrow> Some (SYSCHAR_FLAG_ERROR, [])
      | Some (Some d) \<Rightarrow>
          (case arithmetic_rec ops others d (value_datatype ov) aop of
             None \<Rightarrow> None
           | Some (flag', new) \<Rightarrow>
               map_option (\<lambda>(f, rest). (f, new @ rest)) (arithmetic_root ops vs others aop flag')))"

section \<open>References to objects\<close>

definition field_values :: "string \<Rightarrow> record_field list \<Rightarrow> oval_value list" where
  "field_values rfield rfs =
     map (\<lambda>rf. \<lparr>value_datatype = field_datatype rf, value_text = field_text rf\<rparr>)
       (filter (\<lambda>rf. strcmp rfield (field_name rf) = 0) rfs)"

text \<open>The name of the entity is compared with the attribute \<open>item_field\<close>, which must not be NULL then.\<close>

definition sysent_values :: "cstr \<Rightarrow> string option \<Rightarrow> sysent \<Rightarrow> oval_value list option" where
  "sysent_values ifield_name rfield sysent =
     (case ifield_name of
        None \<Rightarrow> None
      | Some ifield \<Rightarrow>
          (let dt = sysent_datatype sysent in
           Some (if strcmp ifield (sysent_name sysent) \<noteq> 0 then []
                 else if (dt = OVAL_DATATYPE_RECORD \<and> rfield = None) \<or> (dt \<noteq> OVAL_DATATYPE_RECORD \<and> rfield \<noteq> None) then []
                 else if dt = OVAL_DATATYPE_RECORD then field_values (the rfield) (sysent_record_fields sysent)
                 else [\<lparr>value_datatype = dt, value_text = sysent_value sysent\<rparr>])))"

text \<open>The items of the object, by the map of collected items; a NULL item or entity is read (None).\<close>

definition items_of :: "sysitem_map \<Rightarrow> string option list \<Rightarrow> sysitem list option" where
  "items_of items ids = those (map (\<lambda>i. case i of None \<Rightarrow> None | Some i \<Rightarrow> items i) ids)"

definition syschar_values :: "sysitem_map \<Rightarrow> oval_syschar \<Rightarrow> cstr \<Rightarrow> string option \<Rightarrow> oval_value list option" where
  "syschar_values items syschar ifield rfield =
     (case items_of items (syschar_items syschar) of
        None \<Rightarrow> None
      | Some is \<Rightarrow>
          (case those (concat (map sysitem_sysents is)) of
             None \<Rightarrow> None
           | Some ents \<Rightarrow> map_option concat (those (map (sysent_values ifield rfield) ents))))"

definition component_evaluate_OBJECTREF ::
    "'d comp_env \<Rightarrow> string option \<Rightarrow> cstr \<Rightarrow> string option \<Rightarrow>
     (oval_syschar_collection_flag_t \<times> oval_value list) option" where
  "component_evaluate_OBJECTREF env object ifield rfield =
     (case object of
        None \<Rightarrow> Some (SYSCHAR_FLAG_ERROR, [])
      | Some obj_id \<Rightarrow>
          (let found = (if env_mode env = OVAL_MODE_QUERY then env_query env obj_id
                        else Some (model_syschars (env_model env) obj_id))
           in case found of
                None \<Rightarrow> Some (SYSCHAR_FLAG_ERROR, [])
              | Some None \<Rightarrow> Some (SYSCHAR_FLAG_ERROR, [])
              | Some (Some syschar) \<Rightarrow>
                  map_option (\<lambda>vs. (syschar_flag syschar, vs))
                    (syschar_values (model_sysitems (env_model env)) syschar ifield rfield)))"

section \<open>Functions of one component\<close>

text \<open>
  The functions apply to every value of the first component; a NULL text is read (None). \<open>SUBSTRING\<close> sets
  an error for a value whose text is too short, \<open>REGEX_CAPTURE\<close> sets the flag anew with every value.
\<close>

definition map_texts :: "(string \<Rightarrow> string list) \<Rightarrow> oval_value list \<Rightarrow> oval_value list option" where
  "map_texts f vs = map_option (\<lambda>ts. map string_value (concat (map f ts))) (those (map value_text vs))"

fun substring_values ::
    "int \<Rightarrow> int \<Rightarrow> oval_value list \<Rightarrow> oval_syschar_collection_flag_t \<Rightarrow>
     (oval_syschar_collection_flag_t \<times> oval_value list) option" where
  "substring_values start len [] flag = Some (flag, [])"
| "substring_values start len (v # vs) flag =
     (case value_text v of
        None \<Rightarrow> None
      | Some t \<Rightarrow>
          (case substring_text start len t of
             None \<Rightarrow> substring_values start len vs SYSCHAR_FLAG_ERROR
           | Some sub \<Rightarrow>
               map_option (\<lambda>(f, rest). (f, string_value sub # rest)) (substring_values start len vs flag)))"

fun capture_values ::
    "(string \<Rightarrow> capture) \<Rightarrow> oval_value list \<Rightarrow> oval_syschar_collection_flag_t \<Rightarrow>
     (oval_syschar_collection_flag_t \<times> oval_value list) option" where
  "capture_values exec [] flag = Some (flag, [])"
| "capture_values exec (v # vs) flag =
     (case value_text v of
        None \<Rightarrow> None
      | Some t \<Rightarrow>
          (case exec t of
             Capture_Error \<Rightarrow> Some (SYSCHAR_FLAG_ERROR, [])
           | Capture_None \<Rightarrow>
               map_option (\<lambda>(f, rest). (f, string_value [] # rest)) (capture_values exec vs SYSCHAR_FLAG_COMPLETE)
           | Capture sub \<Rightarrow>
               map_option (\<lambda>(f, rest). (f, string_value sub # rest)) (capture_values exec vs SYSCHAR_FLAG_COMPLETE)))"

section \<open>Evaluation\<close>

type_synonym evaluated = "oval_syschar_collection_flag_t \<times> oval_value list"

text \<open>What the functions make of their evaluated components.\<close>

definition on_values ::
    "(evaluated \<Rightarrow> evaluated option) \<Rightarrow> (evaluated \<times> variable_map) option \<Rightarrow> (evaluated \<times> variable_map) option" where
  "on_values f r =
     (case r of
        None \<Rightarrow> None
      | Some (e, vars) \<Rightarrow> map_option (\<lambda>e'. (e', vars)) (f e))"

definition on_all ::
    "(evaluated list \<Rightarrow> evaluated option) \<Rightarrow> (evaluated list \<times> variable_map) option \<Rightarrow> (evaluated \<times> variable_map) option" where
  "on_all f r =
     (case r of
        None \<Rightarrow> None
      | Some (es, vars) \<Rightarrow> map_option (\<lambda>e'. (e', vars)) (f es))"

definition agg_flags :: "evaluated list \<Rightarrow> oval_syschar_collection_flag_t" where
  "agg_flags es = foldl agg_flag SYSCHAR_FLAG_UNKNOWN (map fst es)"

definition evaluate_BEGIN :: "string \<Rightarrow> evaluated \<Rightarrow> evaluated option" where
  "evaluate_BEGIN prefix = (\<lambda>(flag, vs). map_option (Pair flag) (map_texts (\<lambda>key. [begin_text prefix key]) vs))"

definition evaluate_END :: "string \<Rightarrow> evaluated \<Rightarrow> evaluated option" where
  "evaluate_END suffix = (\<lambda>(flag, vs). map_option (Pair flag) (map_texts (\<lambda>key. [end_text suffix key]) vs))"

definition evaluate_SPLIT :: "string \<Rightarrow> evaluated \<Rightarrow> evaluated option" where
  "evaluate_SPLIT delimiter = (\<lambda>(flag, vs). map_option (Pair flag) (map_texts (split_at delimiter) vs))"

definition evaluate_ESCAPE_REGEX :: "evaluated \<Rightarrow> evaluated option" where
  "evaluate_ESCAPE_REGEX = (\<lambda>(flag, vs). map_option (Pair flag) (map_texts (\<lambda>t. [escape_text t]) vs))"

definition evaluate_SUBSTRING :: "int \<Rightarrow> int \<Rightarrow> evaluated \<Rightarrow> evaluated option" where
  "evaluate_SUBSTRING start len = (\<lambda>(flag, vs). substring_values start len vs flag)"

definition evaluate_REGEX_CAPTURE :: "(string \<Rightarrow> capture) \<Rightarrow> evaluated \<Rightarrow> evaluated option" where
  "evaluate_REGEX_CAPTURE exec = (\<lambda>(flag, vs). capture_values exec vs flag)"

definition evaluate_CONCAT :: "evaluated list \<Rightarrow> evaluated option" where
  "evaluate_CONCAT es =
     (let flag = agg_flags es in
      Some (flag, if es \<noteq> [] \<and> has_values flag then concat_values (map snd es) else []))"

definition evaluate_COUNT :: "evaluated list \<Rightarrow> evaluated option" where
  "evaluate_COUNT es =
     (let flag = agg_flags es;
          count = (if es \<noteq> [] \<and> has_values flag then length (concat (map (\<lambda>e. value_texts (snd e)) es)) else 0)
      in Some (flag, [\<lparr>value_datatype = OVAL_DATATYPE_INTEGER, value_text = Some (show_nat count)\<rparr>]))"

definition evaluate_UNIQUE :: "evaluated list \<Rightarrow> evaluated option" where
  "evaluate_UNIQUE es =
     (let flag = agg_flags es in
      Some (flag, if es \<noteq> [] \<and> has_values flag
        then map string_value (unique_texts [] (concat (map (\<lambda>e. value_texts (snd e)) es))) else []))"

definition evaluate_ARITHMETIC :: "'d double_ops \<Rightarrow> oval_arithmetic_operation_t \<Rightarrow> evaluated list \<Rightarrow> evaluated option" where
  "evaluate_ARITHMETIC ops aop es =
     (case rev es of
        [] \<Rightarrow> None
      | (flag, vs) # rest \<Rightarrow> arithmetic_root ops vs (map snd rest) aop flag)"

definition evaluate_TIMEDIF ::
    "calendar \<Rightarrow> oval_datetime_format_t \<Rightarrow> oval_datetime_format_t \<Rightarrow> evaluated list \<Rightarrow> evaluated option" where
  "evaluate_TIMEDIF cal fmt1 fmt2 es =
     (case es of
        [(flag, vs)] \<Rightarrow>
          map_option (Pair flag)
            (timedif_values cal OVAL_DATETIME_SECONDS_SINCE_EPOCH fmt2 [time_value (cal_time cal)] vs)
      | [(flag1, vs1), (flag, vs2)] \<Rightarrow> map_option (Pair flag) (timedif_values cal fmt1 fmt2 vs1 vs2)
      | _ \<Rightarrow> Some (SYSCHAR_FLAG_ERROR, []))"

text \<open>The values of a variable after its computation; and the state it is left in.\<close>

definition evaluate_VARREF :: "string \<Rightarrow> (int \<times> variable_map) option \<Rightarrow> (evaluated \<times> variable_map) option" where
  "evaluate_VARREF var r =
     (case r of
        None \<Rightarrow> None
      | Some (rc, vars) \<Rightarrow>
          if rc \<noteq> 0 then Some ((SYSCHAR_FLAG_ERROR, []), vars)
          else map_option (\<lambda>v. ((var_flag v, if has_values (var_flag v) then var_values v else []), vars)) (vars var))"

definition computed_variable :: "oval_mode \<Rightarrow> oval_variable \<Rightarrow> evaluated \<Rightarrow> oval_variable" where
  "computed_variable mode v e =
     (case e of (flag, vals) \<Rightarrow>
       let values = var_values v @ vals;
           flag' = (if has_values flag \<and> values = [] then SYSCHAR_FLAG_ERROR else flag);
           values' = (if mode = OVAL_MODE_QUERY \<and> has_values flag
                      then map (\<lambda>x. x\<lparr>value_datatype := var_datatype v\<rparr>) values else values)
       in v\<lparr>var_flag := flag', var_values := values'\<rparr>)"

lemma size_list_take: "size_list f (take n xs) \<le> size_list f xs"
proof (induction xs arbitrary: n)
  case (Cons x xs)
  then show ?case by (cases n) (auto simp: add_le_mono)
qed simp

text \<open>
  The evaluators, and the computation of a variable: a local variable whose flag is not known yet gets
  the flag of its component, and an error when a flag that promises values comes without any.
\<close>

function oval_component_eval_common ::
      "nat \<Rightarrow> 'd comp_env \<Rightarrow> oval_component \<Rightarrow> variable_map \<Rightarrow> (evaluated \<times> variable_map) option"
  and eval_components ::
      "nat \<Rightarrow> 'd comp_env \<Rightarrow> oval_component list \<Rightarrow> variable_map \<Rightarrow> (evaluated list \<times> variable_map) option"
  and compute_variable ::
      "nat \<Rightarrow> 'd comp_env \<Rightarrow> string \<Rightarrow> variable_map \<Rightarrow> (int \<times> variable_map) option"
where
  "oval_component_eval_common fuel env (COMP_LITERAL v) vars = Some ((SYSCHAR_FLAG_COMPLETE, [v]), vars)"
| "oval_component_eval_common fuel env (COMP_OBJECTREF object ifield rfield) vars =
     map_option (\<lambda>e. (e, vars)) (component_evaluate_OBJECTREF env object ifield rfield)"
| "oval_component_eval_common fuel env (COMP_VARREF None) vars = Some ((SYSCHAR_FLAG_ERROR, []), vars)"
| "oval_component_eval_common fuel env (COMP_VARREF (Some var)) vars =
     evaluate_VARREF var (compute_variable fuel env var vars)"
| "oval_component_eval_common fuel env (COMP_BEGIN None cs) vars = Some ((SYSCHAR_FLAG_ERROR, []), vars)"
| "oval_component_eval_common fuel env (COMP_BEGIN (Some prefix) []) vars = Some ((SYSCHAR_FLAG_ERROR, []), vars)"
| "oval_component_eval_common fuel env (COMP_BEGIN (Some prefix) (c # cs)) vars =
     on_values (evaluate_BEGIN prefix)
       (oval_component_eval_common fuel env c vars)"
| "oval_component_eval_common fuel env (COMP_END None cs) vars = Some ((SYSCHAR_FLAG_ERROR, []), vars)"
| "oval_component_eval_common fuel env (COMP_END (Some suffix) []) vars = Some ((SYSCHAR_FLAG_ERROR, []), vars)"
| "oval_component_eval_common fuel env (COMP_END (Some suffix) (c # cs)) vars =
     on_values (evaluate_END suffix)
       (oval_component_eval_common fuel env c vars)"
| "oval_component_eval_common fuel env (COMP_CONCAT cs) vars = on_all evaluate_CONCAT (eval_components fuel env cs vars)"
| "oval_component_eval_common fuel env (COMP_COUNT cs) vars = on_all evaluate_COUNT (eval_components fuel env cs vars)"
| "oval_component_eval_common fuel env (COMP_UNIQUE cs) vars = on_all evaluate_UNIQUE (eval_components fuel env cs vars)"
| "oval_component_eval_common fuel env (COMP_SPLIT None cs) vars = None"
| "oval_component_eval_common fuel env (COMP_SPLIT (Some delimiter) []) vars = Some ((SYSCHAR_FLAG_UNKNOWN, []), vars)"
| "oval_component_eval_common fuel env (COMP_SPLIT (Some delimiter) (c # cs)) vars =
     on_values (evaluate_SPLIT delimiter)
       (oval_component_eval_common fuel env c vars)"
| "oval_component_eval_common fuel env (COMP_SUBSTRING start len []) vars = Some ((SYSCHAR_FLAG_UNKNOWN, []), vars)"
| "oval_component_eval_common fuel env (COMP_SUBSTRING start len (c # cs)) vars =
     on_values (evaluate_SUBSTRING start len) (oval_component_eval_common fuel env c vars)"
| "oval_component_eval_common fuel env (COMP_TIMEDIF fmt1 fmt2 cs) vars =
     (if length cs > 2 then
        map_option (\<lambda>(es, vars'). ((SYSCHAR_FLAG_ERROR, []), vars')) (eval_components fuel env (take 2 cs) vars)
      else on_all (evaluate_TIMEDIF (env_calendar env) fmt1 fmt2) (eval_components fuel env cs vars))"
| "oval_component_eval_common fuel env (COMP_ESCAPE_REGEX []) vars = Some ((SYSCHAR_FLAG_UNKNOWN, []), vars)"
| "oval_component_eval_common fuel env (COMP_ESCAPE_REGEX (c # cs)) vars =
     on_values evaluate_ESCAPE_REGEX
       (oval_component_eval_common fuel env c vars)"
| "oval_component_eval_common fuel env (COMP_REGEX_CAPTURE None cs) vars = None"
| "oval_component_eval_common fuel env (COMP_REGEX_CAPTURE (Some pat) cs) vars =
     (case env_capture env pat of
        None \<Rightarrow> Some ((SYSCHAR_FLAG_ERROR, []), vars)
      | Some exec \<Rightarrow>
          (case cs of
             [] \<Rightarrow> Some ((SYSCHAR_FLAG_UNKNOWN, []), vars)
           | c # _ \<Rightarrow> on_values (evaluate_REGEX_CAPTURE exec) (oval_component_eval_common fuel env c vars)))"
| "oval_component_eval_common fuel env (COMP_ARITHMETIC aop cs) vars =
     (if aop \<noteq> OVAL_ARITHMETIC_ADD \<and> aop \<noteq> OVAL_ARITHMETIC_MULTIPLY then Some ((SYSCHAR_FLAG_ERROR, []), vars)
      else on_all (evaluate_ARITHMETIC (env_double env) aop) (eval_components fuel env cs vars))"
| "oval_component_eval_common fuel env COMP_UNSUPPORTED vars = Some ((SYSCHAR_FLAG_ERROR, []), vars)"
| "eval_components fuel env [] vars = Some ([], vars)"
| "eval_components fuel env (c # cs) vars =
     (case oval_component_eval_common fuel env c vars of
        None \<Rightarrow> None
      | Some (e, vars') \<Rightarrow> map_option (\<lambda>(es, vars''). (e # es, vars'')) (eval_components fuel env cs vars'))"
| "compute_variable 0 env var vars = None"
| "compute_variable (Suc fuel) env var vars =
     (case vars var of
        None \<Rightarrow> None
      | Some v \<Rightarrow>
          if var_type v \<noteq> OVAL_VARIABLE_LOCAL then Some (0, vars)
          else if var_flag v \<noteq> SYSCHAR_FLAG_UNKNOWN then Some (0, vars)
          else
            (case var_component v of
               None \<Rightarrow> Some (-1, vars)
             | Some component \<Rightarrow>
                 map_option (\<lambda>(e, vars'). (0, vars'(var \<mapsto> computed_variable (env_mode env) v e)))
                   (oval_component_eval_common fuel env component vars)))"
  by pat_completeness auto
termination
  by (relation "measures [
        \<lambda>x. case x of Inl (f, _) \<Rightarrow> f | Inr (Inl (f, _)) \<Rightarrow> f | Inr (Inr (f, _)) \<Rightarrow> f,
        \<lambda>x. case x of Inl (_, _, c, _) \<Rightarrow> 2 + size c | Inr (Inl (_, _, cs, _)) \<Rightarrow> 2 + size_list size cs
               | Inr (Inr _) \<Rightarrow> 0]")
    (auto simp: less_Suc_eq_le size_list_take)

end
