(* ===== verification/Oval_Component_Props.thy ===== *)
theory Oval_Component_Props
  imports Oval_Component
begin

text \<open>
  What the functions of components promise: \<open>CONCAT\<close> makes all combinations, \<open>SPLIT\<close> loses nothing,
  \<open>ESCAPE_REGEX\<close> can be undone within its buffer, \<open>UNIQUE\<close> is the sorted list of the distinct texts,
  flags combine by severity, and a computed variable stays as it is.
\<close>

section \<open>Concatenation\<close>

text \<open>All ways to take one text of every list, the first list varying fastest.\<close>

fun combinations :: "'a list list \<Rightarrow> 'a list list" where
  "combinations [] = [[]]"
| "combinations (xs # xss) = concat (map (\<lambda>ys. map (\<lambda>x. x # ys) xs) (combinations xss))"

definition full_value :: "oval_value \<Rightarrow> bool" where
  "full_value v \<longleftrightarrow> value_text v \<noteq> None"

text \<open>The texts of a list of values; a list without values adds nothing to a concatenation.\<close>

definition choices :: "oval_value list \<Rightarrow> string list" where
  "choices vs = (if vs = [] then [[]] else map (\<lambda>v. the (value_text v)) vs)"

text \<open>The current texts of the wheels, and the wheels after some rotations.\<close>

definition faces :: "wheel list \<Rightarrow> string list" where
  "faces ws = map (\<lambda>w. case fst w of None \<Rightarrow> [] | Some t \<Rightarrow> t) ws"

fun turns :: "nat \<Rightarrow> wheel list \<Rightarrow> wheel list list" where
  "turns 0 ws = []"
| "turns (Suc n) ws = ws # turns n (rotate_wheels ws)"

lemma concat_passes_turns: "concat_passes n ws = map (\<lambda>w. concat (faces w)) (turns n ws)"
  by (induction n arbitrary: ws) (auto simp: wheel_texts_def faces_def)

lemma turns_add: "turns (m + n) ws = turns m ws @ turns n ((rotate_wheels ^^ m) ws)"
  by (induction m arbitrary: ws) (auto simp: funpow_Suc_right simp del: funpow.simps)

text \<open>A wheel without texts never turns.\<close>

lemma turns_none: "turns n ((None, left, all) # ws) = map ((#) (None, left, all)) (turns n ws)"
  by (induction n arbitrary: ws) auto

text \<open>One round of the first wheel.\<close>

lemma first_wheel:
  "\<forall>v\<in>set left. full_value v \<Longrightarrow>
   map faces (turns (Suc (length left)) ((Some t, left, all) # ws))
     = map (\<lambda>x. x # faces ws) (t # map (\<lambda>v. the (value_text v)) left)
   \<and> (rotate_wheels ^^ Suc (length left)) ((Some t, left, all) # ws)
     = (value_text (hd all), tl all, all) # rotate_wheels ws"
proof (induction left arbitrary: t)
  case Nil
  then show ?case by (simp add: faces_def)
next
  case (Cons v left)
  then obtain u where u: "value_text v = Some u" by (auto simp: full_value_def)
  have "\<forall>v\<in>set left. full_value v" using Cons.prems by simp
  note ih = Cons.IH [OF this, of u]
  have "rotate_wheels ((Some t, v # left, all) # ws) = (Some u, left, all) # ws" by (simp add: u)
  with ih u show ?case
    by (simp only: turns.simps length_Cons list.map funpow_Suc_right comp_apply)
      (simp add: faces_def)
qed

lemma rounds:
  assumes "all \<noteq> []" and "\<forall>v\<in>set all. full_value v"
  shows "map faces (turns (length all * n) ((value_text (hd all), tl all, all) # ws))
    = concat (map (\<lambda>ys. map (\<lambda>v. the (value_text v) # ys) all) (map faces (turns n ws)))"
proof (induction n arbitrary: ws)
  case (Suc n)
  obtain v vs where all: "all = v # vs" using assms(1) by (cases all) auto
  obtain t where t: "value_text v = Some t" using assms(2) by (auto simp: all full_value_def)
  have vs: "\<forall>v\<in>set vs. full_value v" using assms(2) by (simp add: all)
  note f = first_wheel [OF vs, of t all ws]
  have "length all * Suc n = Suc (length vs) + length all * n" by (simp add: all)
  then have "map faces (turns (length all * Suc n) ((value_text (hd all), tl all, all) # ws))
      = map faces (turns (Suc (length vs)) ((Some t, vs, all) # ws))
        @ map faces (turns (length all * n) ((value_text (hd all), tl all, all) # rotate_wheels ws))"
    using f by (simp only: turns_add map_append) (simp add: all t)
  also have "\<dots> = map (\<lambda>v. the (value_text v) # faces ws) all
      @ concat (map (\<lambda>ys. map (\<lambda>v. the (value_text v) # ys) all) (map faces (turns n (rotate_wheels ws))))"
    using f by (simp only: Suc.IH) (simp add: all t)
  finally show ?case by simp
qed simp

lemma choices_Nil [simp]: "choices [] = [[]]"
  by (simp add: choices_def)

lemma choices_Cons: "choices (v # vs) = the (value_text v) # map (\<lambda>v. the (value_text v)) vs"
  by (simp add: choices_def)

lemma length_choices: "length (choices vs) = (if vs = [] then 1 else length vs)"
  by (simp add: choices_def)

lemma turns_combinations:
  "\<forall>vs\<in>set colls. \<forall>v\<in>set vs. full_value v \<Longrightarrow>
   map faces (turns (prod_list (map (\<lambda>vs. length (choices vs)) colls)) (map wheel_start colls))
     = combinations (map choices colls)"
proof (induction colls)
  case (Cons all colls)
  let ?n = "prod_list (map (\<lambda>vs. length (choices vs)) colls)"
  have ih: "map faces (turns ?n (map wheel_start colls)) = combinations (map choices colls)" using Cons by simp
  show ?case
  proof (cases all)
    case Nil
    have "map faces (turns ?n ((None, [], []) # map wheel_start colls)) = map ((#) []) (combinations (map choices colls))"
      unfolding turns_none ih [symmetric] by (simp add: faces_def comp_def)
    also have "\<dots> = concat (map (\<lambda>ys. map (\<lambda>x. x # ys) (choices all)) (combinations (map choices colls)))"
      unfolding Nil by (induction "combinations (map choices colls)") (simp_all add: choices_def)
    finally show ?thesis by (simp add: Nil)
  next
    case (Cons v vs)
    then have "wheel_start all = (value_text (hd all), tl all, all)" by simp
    then have "map faces (turns (prod_list (map (\<lambda>vs. length (choices vs)) (all # colls))) (map wheel_start (all # colls)))
        = map faces (turns (length all * ?n) ((value_text (hd all), tl all, all) # map wheel_start colls))"
      by (simp only: list.map length_choices prod_list.Cons) (simp add: Cons)
    also have "\<dots> = concat (map (\<lambda>ys. map (\<lambda>v. the (value_text v) # ys) all) (map faces (turns ?n (map wheel_start colls))))"
      by (rule rounds) (use Cons Cons.prems in auto)
    finally show ?thesis unfolding ih by (simp add: Cons choices_Cons comp_def)
  qed
qed (simp add: faces_def)

lemma concat_count_eq: "concat_count colls = word_of_nat (prod_list (map (\<lambda>vs. length (choices vs)) colls))"
proof -
  have "foldl (\<lambda>catnum vs. if vs = [] then catnum else catnum * word_of_nat (length vs)) c colls
      = c * word_of_nat (prod_list (map (\<lambda>vs. length (choices vs)) colls))" for c :: "32 word"
    by (induction colls arbitrary: c) (auto simp: length_choices)
  then show ?thesis by (simp add: concat_count_def)
qed

lemma concat_values_combinations:
  assumes "\<forall>vs\<in>set colls. \<forall>v\<in>set vs. full_value v"
    and "prod_list (map (\<lambda>vs. length (choices vs)) colls) < 2 ^ 31"
  shows "concat_values colls = map (\<lambda>ts. string_value (concat ts)) (combinations (map choices colls))"
proof -
  let ?n = "prod_list (map (\<lambda>vs. length (choices vs)) colls)"
  have "sint (word_of_nat ?n :: 32 word) = int ?n"
    using assms(2) by (simp add: signed_of_nat signed_take_bit_int_eq_self)
  then have "concat_values colls = map string_value (concat_passes ?n (map wheel_start colls))"
    by (simp add: concat_values_def concat_count_eq)
  also have "\<dots> = map (\<lambda>ts. string_value (concat ts)) (map faces (turns ?n (map wheel_start colls)))"
    by (simp add: concat_passes_turns comp_def)
  finally show ?thesis by (simp only: turns_combinations [OF assms(1)])
qed

text \<open>
  With more combinations than an \<open>int\<close> counts they are lost: 31 components of two values have \<open>2 ^ 31\<close>, which
  wraps to a negative number of passes.
\<close>

lemma concat_overflow:
  assumes "length colls = 31" and "\<forall>vs\<in>set colls. length vs = 2"
  shows "concat_values colls = []"
proof -
  have "map (\<lambda>vs. length (choices vs)) colls = map (\<lambda>vs. 2) colls"
    using assms(2) by (intro map_cong) (auto simp: length_choices)
  also have "\<dots> = replicate 31 2" by (simp add: map_replicate_const assms(1))
  finally have "map (\<lambda>vs. length (choices vs)) colls = replicate 31 2" .
  then have "concat_count colls = word_of_nat (2 ^ 31)" unfolding concat_count_eq by simp
  then have "sint (concat_count colls) = - (2 ^ 31)" by simp
  then show ?thesis by (simp add: concat_values_def)
qed

section \<open>Splitting\<close>

fun join_with :: "string \<Rightarrow> string list \<Rightarrow> string" where
  "join_with d [] = []"
| "join_with d [p] = p"
| "join_with d (p # q # ps) = p @ d @ join_with d (q # ps)"

lemma c_strstr_later:
  assumes "\<nexists>r. x # xs = d @ r"
  shows "c_strstr (x # xs) d = map_option (\<lambda>(a, b). (x # a, b)) (c_strstr xs d)"
proof -
  have "c_strip_prefix d (x # xs) = None" using assms by (cases "c_strip_prefix d (x # xs)") auto
  then show ?thesis by (simp only: c_strstr.simps option.simps)
qed

lemma c_strstr_None: "d \<noteq> [] \<Longrightarrow> c_strstr s d = None \<longleftrightarrow> (\<nexists>a b. s = a @ d @ b)"
proof (induction s)
  case (Cons x xs)
  show ?case
  proof (cases "\<exists>r. x # xs = d @ r")
    case True
    then obtain r where r: "x # xs = d @ r" by blast
    then have "c_strip_prefix d (x # xs) = Some r" by simp
    then have "c_strstr (x # xs) d = Some ([], r)" by (simp only: c_strstr.simps option.simps)
    moreover have "x # xs = [] @ d @ r" using r by simp
    ultimately show ?thesis by (metis option.distinct(1))
  next
    case False
    then have "c_strstr (x # xs) d = None \<longleftrightarrow> (\<nexists>a b. xs = a @ d @ b)"
      unfolding c_strstr_later [OF False] using Cons by simp
    also have "\<dots> \<longleftrightarrow> (\<nexists>a b. x # xs = a @ d @ b)"
      using False by (metis append_Cons append_Nil list.exhaust list.inject)
    finally show ?thesis .
  qed
qed auto

lemma c_strstr_first: "d \<noteq> [] \<Longrightarrow> c_strstr s d = Some (a, b) \<Longrightarrow> c_strstr a d = None"
proof (induction s arbitrary: a)
  case (Cons x xs)
  show ?case
  proof (cases "\<exists>r. x # xs = d @ r")
    case True
    then obtain r where "x # xs = d @ r" by blast
    then have "c_strip_prefix d (x # xs) = Some r" by simp
    with Cons.prems show ?thesis by simp
  next
    case False
    with Cons.prems(2) obtain a' where a: "a = x # a'" "c_strstr xs d = Some (a', b)"
      unfolding c_strstr_later [OF False] by auto
    have "x # xs = a @ d @ b" using c_strstr_Some [OF Cons.prems(2)] .
    have "\<nexists>r. x # a' = d @ r" (is ?none)
    proof
      assume "\<exists>r. x # a' = d @ r"
      then obtain r where "a = d @ r" by (auto simp: a)
      with \<open>x # xs = a @ d @ b\<close> have "x # xs = d @ (r @ d @ b)" by simp
      with False show False by blast
    qed
    then show ?thesis
      unfolding a(1) c_strstr_later [OF \<open>?none\<close>] using Cons.IH [OF Cons.prems(1) a(2)] by simp
  qed
qed simp

lemma split_at_nonempty [simp]: "d \<noteq> [] \<Longrightarrow> split_at d s \<noteq> []"
  by (subst split_at.simps) (simp split: option.split)

lemma join_with_Cons: "ps \<noteq> [] \<Longrightarrow> join_with d (p # ps) = p @ d @ join_with d ps"
  by (cases ps) auto

lemma split_at_join:
  "d \<noteq> [] \<Longrightarrow> join_with d (split_at d s) = s \<and> (\<forall>p\<in>set (split_at d s). c_strstr p d = None)"
proof (induction d s rule: split_at.induct)
  case (1 d s)
  show ?case
  proof (cases "c_strstr s d")
    case None
    with "1.prems" show ?thesis by (subst (1 2) split_at.simps) simp
  next
    case (Some p)
    obtain a b where ab: "c_strstr s d = Some (a, b)" using Some by (cases p) auto
    have rec: "split_at d s = a # split_at d b" using "1.prems" by (subst split_at.simps) (simp add: ab)
    have ih: "join_with d (split_at d b) = b" "\<forall>p\<in>set (split_at d b). c_strstr p d = None"
      using "1.IH" [OF "1.prems" ab refl "1.prems"] by auto
    have "join_with d (split_at d s) = a @ d @ b"
      unfolding rec by (simp add: join_with_Cons ih "1.prems")
    also have "\<dots> = s" using c_strstr_Some [OF ab] by simp
    finally show ?thesis using ih(2) c_strstr_first [OF "1.prems" ab] by (simp add: rec)
  qed
qed

section \<open>Escaping\<close>

fun unescape_text :: "string \<Rightarrow> string" where
  "unescape_text [] = []"
| "unescape_text [c] = [c]"
| "unescape_text (c # d # cs) = (if c = CHR 0x5C then d # unescape_text cs else c # unescape_text (d # cs))"

lemma unescape_Cons: "c \<noteq> CHR 0x5C \<Longrightarrow> unescape_text (c # cs) = c # unescape_text cs"
  by (cases cs) auto

lemma unescape_escape: "unescape_text (escape_text t) = t \<and> length (escape_text t) \<le> 2 * length t"
  by (induction t) (auto simp: unescape_Cons is_escape_def)

section \<open>Distinct texts\<close>

lemma unique_texts_sorted:
  "sorted m \<and> distinct m \<Longrightarrow>
   sorted (unique_texts m ts) \<and> distinct (unique_texts m ts) \<and> set (unique_texts m ts) = set m \<union> set ts"
proof (induction m ts rule: unique_texts.induct)
  case (2 m t ts)
  then show ?case
    by (cases "t \<in> set m") (auto simp: sorted_insort distinct_insort set_insort_key)
qed simp

section \<open>Flags\<close>

text \<open>The flags in the order of their weight.\<close>

fun flag_weight :: "oval_syschar_collection_flag_t \<Rightarrow> nat" where
  "flag_weight SYSCHAR_FLAG_UNKNOWN = 0"
| "flag_weight SYSCHAR_FLAG_COMPLETE = 1"
| "flag_weight SYSCHAR_FLAG_INCOMPLETE = 2"
| "flag_weight SYSCHAR_FLAG_DOES_NOT_EXIST = 3"
| "flag_weight SYSCHAR_FLAG_NOT_COLLECTED = 4"
| "flag_weight SYSCHAR_FLAG_NOT_APPLICABLE = 5"
| "flag_weight SYSCHAR_FLAG_ERROR = 6"
| "flag_weight SYSCHAR_FLAG_INVALID = 7"

lemma flag_weight_inj [simp]: "flag_weight f = flag_weight g \<longleftrightarrow> f = g"
  by (cases f; cases g) auto

lemma agg_flag_weight:
  "f \<noteq> SYSCHAR_FLAG_INVALID \<Longrightarrow> g \<noteq> SYSCHAR_FLAG_INVALID \<Longrightarrow>
   flag_weight (agg_flag f g) = max (flag_weight f) (flag_weight g) \<and> agg_flag f g \<noteq> SYSCHAR_FLAG_INVALID"
  by (cases f; cases g) (auto simp: agg_flag_def flag_agg_map_def)

lemma agg_flags_weight:
  "SYSCHAR_FLAG_INVALID \<notin> set fs \<Longrightarrow> f \<noteq> SYSCHAR_FLAG_INVALID \<Longrightarrow>
   flag_weight (foldl agg_flag f fs) = Max (insert (flag_weight f) (flag_weight ` set fs))"
proof (induction fs arbitrary: f)
  case (Cons g fs)
  have "flag_weight (agg_flag f g) = max (flag_weight f) (flag_weight g)" "agg_flag f g \<noteq> SYSCHAR_FLAG_INVALID"
    using agg_flag_weight Cons.prems by auto
  with Cons.IH [of "agg_flag f g"] Cons.prems
  have "flag_weight (foldl agg_flag f (g # fs))
      = Max (insert (max (flag_weight f) (flag_weight g)) (flag_weight ` set fs))" by simp
  also have "\<dots> = Max (insert (flag_weight f) (flag_weight ` set (g # fs)))"
    by (cases "fs = []") (simp_all add: max.assoc)
  finally show ?case .
qed simp

section \<open>Types of values\<close>

text \<open>The datatypes a component's values can have, given those of the variables it refers to.\<close>

type_synonym typing = "string \<Rightarrow> oval_datatype_t set"

primrec component_types :: "typing \<Rightarrow> oval_component \<Rightarrow> oval_datatype_t set" where
  "component_types \<Gamma> (COMP_LITERAL v) = {value_datatype v}"
| "component_types \<Gamma> (COMP_OBJECTREF obj ifield rfield) = UNIV"
| "component_types \<Gamma> (COMP_VARREF r) = (case r of None \<Rightarrow> {} | Some var \<Rightarrow> \<Gamma> var)"
| "component_types \<Gamma> (COMP_BEGIN prefix cs) = {OVAL_DATATYPE_STRING}"
| "component_types \<Gamma> (COMP_CONCAT cs) = {OVAL_DATATYPE_STRING}"
| "component_types \<Gamma> (COMP_END suffix cs) = {OVAL_DATATYPE_STRING}"
| "component_types \<Gamma> (COMP_SPLIT delimiter cs) = {OVAL_DATATYPE_STRING}"
| "component_types \<Gamma> (COMP_SUBSTRING start len cs) = {OVAL_DATATYPE_STRING}"
| "component_types \<Gamma> (COMP_TIMEDIF fmt1 fmt2 cs) = {OVAL_DATATYPE_INTEGER}"
| "component_types \<Gamma> (COMP_ESCAPE_REGEX cs) = {OVAL_DATATYPE_STRING}"
| "component_types \<Gamma> (COMP_REGEX_CAPTURE pat cs) = {OVAL_DATATYPE_STRING}"
| "component_types \<Gamma> (COMP_ARITHMETIC aop cs) =
     {OVAL_DATATYPE_INTEGER, OVAL_DATATYPE_FLOAT} \<inter> \<Union>(set (map (component_types \<Gamma>) cs))"
| "component_types \<Gamma> (COMP_COUNT cs) = {OVAL_DATATYPE_INTEGER}"
| "component_types \<Gamma> (COMP_UNIQUE cs) = {OVAL_DATATYPE_STRING}"
| "component_types \<Gamma> COMP_UNSUPPORTED = {}"

definition typed_values :: "oval_datatype_t set \<Rightarrow> oval_value list \<Rightarrow> bool" where
  "typed_values T vs \<longleftrightarrow> (\<forall>v\<in>set vs. value_datatype v \<in> T)"

text \<open>A variable keeps to its type: so do its values, and what its component can give.\<close>

definition typed_variable :: "typing \<Rightarrow> string \<Rightarrow> oval_variable \<Rightarrow> bool" where
  "typed_variable \<Gamma> name v \<longleftrightarrow>
     typed_values (\<Gamma> name) (var_values v) \<and> var_datatype v \<in> \<Gamma> name
     \<and> (case var_component v of None \<Rightarrow> True | Some c \<Rightarrow> component_types \<Gamma> c \<subseteq> \<Gamma> name)"

definition typed_variables :: "typing \<Rightarrow> variable_map \<Rightarrow> bool" where
  "typed_variables \<Gamma> vars \<longleftrightarrow> (\<forall>name v. vars name = Some v \<longrightarrow> typed_variable \<Gamma> name v)"

lemma typed_values_simps [simp]:
  "typed_values T []"
  "typed_values T (v # vs) \<longleftrightarrow> value_datatype v \<in> T \<and> typed_values T vs"
  "typed_values T (vs @ ws) \<longleftrightarrow> typed_values T vs \<and> typed_values T ws"
  by (auto simp: typed_values_def)

lemma typed_values_UNIV [simp]: "typed_values UNIV vs"
  by (simp add: typed_values_def)

lemma typed_values_Un:
  "typed_values T vs \<Longrightarrow> typed_values (T \<union> U) vs" "typed_values U vs \<Longrightarrow> typed_values (T \<union> U) vs"
  by (auto simp: typed_values_def)

lemma typed_values_mono: "typed_values T vs \<Longrightarrow> T \<subseteq> U \<Longrightarrow> typed_values U vs"
  by (auto simp: typed_values_def)

lemma string_value_datatype [simp]: "value_datatype (string_value t) = OVAL_DATATYPE_STRING"
  by (simp add: string_value_def)

lemma typed_string_values [simp]: "typed_values {OVAL_DATATYPE_STRING} (map string_value ts)"
  by (simp add: typed_values_def)

lemmas text_functions = evaluate_BEGIN_def evaluate_END_def evaluate_SPLIT_def evaluate_ESCAPE_REGEX_def
  evaluate_SUBSTRING_def evaluate_REGEX_CAPTURE_def

lemma typed_map_texts: "map_texts f vs = Some vs' \<Longrightarrow> typed_values {OVAL_DATATYPE_STRING} vs'"
  by (auto simp: map_texts_def)

lemma typed_substring:
  "substring_values start len vs flag = Some (flag', vs') \<Longrightarrow> typed_values {OVAL_DATATYPE_STRING} vs'"
  by (induction start len vs flag arbitrary: flag' vs' rule: substring_values.induct)
    (auto split: option.splits)

lemma typed_capture:
  "capture_values exec vs flag = Some (flag', vs') \<Longrightarrow> typed_values {OVAL_DATATYPE_STRING} vs'"
  by (induction exec vs flag arbitrary: flag' vs' rule: capture_values.induct)
    (auto split: option.splits capture.splits)

lemma those_map: "those (map f xs) = Some ys \<Longrightarrow> (\<And>x y. f x = Some y \<Longrightarrow> P y) \<Longrightarrow> list_all P ys"
  by (induction xs arbitrary: ys) (auto split: option.splits)

lemma timedif_values_map:
  "timedif_values cal f1 f2 vs1 vs2
     = those (map (\<lambda>(ov1, ov2). time_difference cal f1 f2 ov1 ov2) (concat (map (\<lambda>ov1. map (Pair ov1) vs2) vs1)))"
  by (simp add: timedif_values_def map_concat comp_def)

lemma timedif_integers: "timedif_values cal f1 f2 vs1 vs2 = Some vs \<Longrightarrow> typed_values {OVAL_DATATYPE_INTEGER} vs"
  unfolding timedif_values_map typed_values_def list_all_iff [symmetric]
  by (erule those_map) (auto simp: time_difference_def time_value_def split: option.splits)

lemma typed_timedif: "evaluate_TIMEDIF cal f1 f2 es = Some (flag, vs) \<Longrightarrow> typed_values {OVAL_DATATYPE_INTEGER} vs"
  using timedif_integers by (auto simp: evaluate_TIMEDIF_def split: list.splits)

abbreviation numeric :: "oval_datatype_t set" where
  "numeric \<equiv> {OVAL_DATATYPE_INTEGER, OVAL_DATATYPE_FLOAT}"

lemma arith_operand_numeric: "arith_operand ops ov = Some (Some d) \<Longrightarrow> value_datatype ov \<in> numeric"
  by (auto simp: arith_operand_def split: if_splits)

lemma typed_arithmetic_rec:
  "arithmetic_rec ops vss val dt aop = Some (flag, vs) \<Longrightarrow> dt \<in> numeric \<inter> T \<Longrightarrow>
   \<forall>ws\<in>set vss. typed_values T ws \<Longrightarrow> typed_values (numeric \<inter> T) vs"
  "arithmetic_loop ops us vss val dt aop = Some (flag, vs) \<Longrightarrow> dt \<in> numeric \<inter> T \<Longrightarrow> typed_values T us \<Longrightarrow>
   \<forall>ws\<in>set vss. typed_values T ws \<Longrightarrow> typed_values (numeric \<inter> T) vs"
proof (induction ops vss val dt aop and ops us vss val dt aop arbitrary: flag vs and flag vs
    rule: arithmetic_rec_arithmetic_loop.induct)
  case (4 ops ov us others val dt aop)
  let ?dt = "if dt = OVAL_DATATYPE_FLOAT then OVAL_DATATYPE_FLOAT else value_datatype ov"
  show ?case
  proof (cases "arith_operand ops ov")
    case (Some d')
    show ?thesis
    proof (cases d')
      case (Some d)
      with \<open>arith_operand ops ov = Some d'\<close> have d: "arith_operand ops ov = Some (Some d)" by simp
      have dt: "?dt \<in> numeric \<inter> T"
        using arith_operand_numeric [OF d] "4.prems"(2,3) by auto
      show ?thesis
        using "4.prems" "4.IH"(1) [OF d refl refl] "4.IH"(2) [OF d refl refl] dt
        by (auto simp: d Let_def split: if_splits option.splits)
    qed (use 4 Some in auto)
  qed (use 4 in auto)
qed (auto simp: arith_result_def)

lemma typed_arithmetic_root:
  "arithmetic_root ops vs others aop flag = Some (flag', vs') \<Longrightarrow> typed_values T vs \<Longrightarrow>
   \<forall>ws\<in>set others. typed_values T ws \<Longrightarrow> typed_values (numeric \<inter> T) vs'"
proof (induction ops vs others aop flag arbitrary: flag' vs' rule: arithmetic_root.induct)
  case (2 ops ov vs others aop flag)
  then show ?case
    using typed_arithmetic_rec(1) [of ops others _ "value_datatype ov" aop _ _ T] arith_operand_numeric [of ops ov]
    by (auto split: option.splits)
qed auto

lemma typed_arithmetic:
  assumes "evaluate_ARITHMETIC ops aop es = Some (flag, vs)" and "typed_values T (concat (map snd es))"
  shows "typed_values (numeric \<inter> T) vs"
proof -
  have all: "\<forall>e\<in>set (rev es). typed_values T (snd e)" using assms(2) by (auto simp: typed_values_def)
  obtain f us rest where es: "rev es = (f, us) # rest"
    and root: "arithmetic_root ops us (map snd rest) aop f = Some (flag, vs)"
    using assms(1) by (auto simp: evaluate_ARITHMETIC_def split: list.splits)
  show ?thesis by (rule typed_arithmetic_root [OF root]) (use all in \<open>simp_all add: es\<close>)
qed

lemmas eval_induct =
  oval_component_eval_common_eval_components_compute_variable.induct

lemmas eval_splits = option.splits if_splits prod.splits list.splits

lemma on_values_Some:
  "on_values f r = Some (e, vars) \<longleftrightarrow> (\<exists>e0. r = Some (e0, vars) \<and> f e0 = Some e)"
  by (cases e) (auto simp: on_values_def split: option.splits)

lemma on_all_Some:
  "on_all f r = Some (e, vars) \<longleftrightarrow> (\<exists>es. r = Some (es, vars) \<and> f es = Some e)"
  by (cases e) (auto simp: on_all_def split: option.splits)

lemma typed_simple_functions:
  "evaluate_CONCAT es = Some (flag, vs) \<Longrightarrow> typed_values {OVAL_DATATYPE_STRING} vs"
  "evaluate_UNIQUE es = Some (flag, vs) \<Longrightarrow> typed_values {OVAL_DATATYPE_STRING} vs"
  "evaluate_COUNT es = Some (flag, vs) \<Longrightarrow> typed_values {OVAL_DATATYPE_INTEGER} vs"
  by (auto simp: evaluate_CONCAT_def evaluate_UNIQUE_def evaluate_COUNT_def Let_def concat_values_def
      split: if_splits)

lemma typed_variablesD: "typed_variables \<Gamma> vars \<Longrightarrow> vars name = Some v \<Longrightarrow> typed_variable \<Gamma> name v"
  by (simp add: typed_variables_def)

lemma typed_variables_upd:
  "typed_variables \<Gamma> vars \<Longrightarrow> typed_variable \<Gamma> name v \<Longrightarrow> typed_variables \<Gamma> (vars(name \<mapsto> v))"
  by (simp add: typed_variables_def)

lemma typed_variable_values: "typed_variable \<Gamma> name v \<Longrightarrow> typed_values (\<Gamma> name) (var_values v)"
  by (simp add: typed_variable_def)

lemma typed_variable_computed:
  assumes "typed_variable \<Gamma> name v" and "var_component v = Some c" and "typed_values (component_types \<Gamma> c) vals"
  shows "typed_variable \<Gamma> name (computed_variable mode v (flag, vals))"
  using assms by (auto simp: computed_variable_def Let_def typed_variable_def typed_values_def)

lemma eval_typed_all:
  "oval_component_eval_common fuel env c vars = Some ((flag, vs), vars') \<Longrightarrow> typed_variables \<Gamma> vars \<Longrightarrow>
     typed_values (component_types \<Gamma> c) vs \<and> typed_variables \<Gamma> vars'"
  "eval_components fuel env cs vars = Some (es, vars') \<Longrightarrow> typed_variables \<Gamma> vars \<Longrightarrow>
     typed_values (\<Union>(set (map (component_types \<Gamma>) cs))) (concat (map snd es)) \<and> typed_variables \<Gamma> vars'"
  "compute_variable fuel env var vars = Some (rc, vars') \<Longrightarrow> typed_variables \<Gamma> vars \<Longrightarrow> typed_variables \<Gamma> vars'"
proof (induction fuel env c vars and fuel env cs vars and fuel env var vars
    arbitrary: flag vs vars' and es vars' and rc vars' rule: eval_induct)
  case (4 fuel env var vars)
  then show ?case
    by (auto simp: evaluate_VARREF_def dest: typed_variablesD typed_variable_values
        split: option.splits if_splits prod.splits)
next
  case (29 fuel env var vars)
  show ?case
  proof (cases "vars var")
    case (Some v)
    note v = this
    show ?thesis
    proof (cases "var_type v \<noteq> OVAL_VARIABLE_LOCAL \<or> var_flag v \<noteq> SYSCHAR_FLAG_UNKNOWN \<or> var_component v = None")
      case False
      then obtain c where c: "var_type v = OVAL_VARIABLE_LOCAL" "var_flag v = SYSCHAR_FLAG_UNKNOWN" "var_component v = Some c"
        by auto
      with "29.prems"(1) v obtain flag vals vars1
        where e: "oval_component_eval_common fuel env c vars = Some ((flag, vals), vars1)"
        by (auto split: option.splits)
      have "typed_values (component_types \<Gamma> c) vals" "typed_variables \<Gamma> vars1"
        using "29.IH" [OF v _ _ c(3) e "29.prems"(2)] c by auto
      with typed_variable_computed [OF typed_variablesD [OF "29.prems"(2) v] c(3)] typed_variables_upd "29.prems"(1) v c e
      show ?thesis by (auto simp del: fun_upd_apply)
    qed (use 29 v in \<open>auto split: if_splits option.splits\<close>)
  qed (use 29 in auto)
next
  case (19 fuel env fmt1 fmt2 cs vars)
  then show ?case using typed_timedif by (auto simp: on_all_Some split: if_splits) 
next
  case (24 fuel env aop cs vars)
  then show ?case using typed_arithmetic by (fastforce simp: on_all_Some split: if_splits)
next
  case (27 fuel env c cs vars)
  obtain flag vs vars1 es1 where e: "oval_component_eval_common fuel env c vars = Some ((flag, vs), vars1)"
      "eval_components fuel env cs vars1 = Some (es1, vars')" and es: "es = (flag, vs) # es1"
    using "27.prems"(1) by (auto split: option.splits)
  note one = "27.IH"(1) [OF e(1) "27.prems"(2)]
  note rest = "27.IH"(2) [OF e(1) refl e(2) conjunct2 [OF one]]
  show ?case using one rest by (simp add: es typed_values_Un)
qed (auto simp: on_values_Some on_all_Some typed_simple_functions text_functions dest: typed_map_texts typed_substring typed_capture split: eval_splits)

section \<open>Computed variables stay\<close>

definition settled :: "oval_variable \<Rightarrow> bool" where
  "settled v \<longleftrightarrow> var_type v \<noteq> OVAL_VARIABLE_LOCAL \<or> var_flag v \<noteq> SYSCHAR_FLAG_UNKNOWN"

definition keeps_settled :: "variable_map \<Rightarrow> variable_map \<Rightarrow> bool" where
  "keeps_settled vars vars' \<longleftrightarrow>
     dom vars' = dom vars \<and> (\<forall>name v. vars name = Some v \<and> settled v \<longrightarrow> vars' name = Some v)"

lemma keeps_settled_refl [simp]: "keeps_settled vars vars"
  by (simp add: keeps_settled_def)

lemma keeps_settled_trans: "keeps_settled vars vars1 \<Longrightarrow> keeps_settled vars1 vars2 \<Longrightarrow> keeps_settled vars vars2"
  by (auto simp: keeps_settled_def)

lemma keeps_settled_upd:
  "keeps_settled vars vars1 \<Longrightarrow> vars name = Some v \<Longrightarrow> \<not> settled v \<Longrightarrow> keeps_settled vars (vars1(name \<mapsto> v'))"
  by (auto simp: keeps_settled_def)

lemma eval_keeps_settled_all:
  "oval_component_eval_common fuel env c vars = Some (e, vars') \<Longrightarrow> keeps_settled vars vars'"
  "eval_components fuel env cs vars = Some (es, vars') \<Longrightarrow> keeps_settled vars vars'"
  "compute_variable fuel env var vars = Some (rc, vars') \<Longrightarrow> keeps_settled vars vars'"
proof (induction fuel env c vars and fuel env cs vars and fuel env var vars
    arbitrary: e vars' and es vars' and rc vars' rule: eval_induct)
  case (29 fuel env var vars)
  then show ?case
    by (auto simp: settled_def intro!: keeps_settled_upd simp del: fun_upd_apply
        split: option.splits if_splits)
qed (auto simp: on_values_Some on_all_Some evaluate_VARREF_def intro: keeps_settled_trans split: option.splits if_splits list.splits)

section \<open>Evaluation returns\<close>

text \<open>
  A component is ready when its literals and the values of its objects have texts, a \<open>SPLIT\<close> has a
  delimiter and a \<open>REGEX_CAPTURE\<close> a pattern, an \<open>ARITHMETIC\<close> has operands, no time of a \<open>TIMEDIF\<close> is too
  large for \<open>localtime\<close>, and the variables it refers to are allowed. The variables are ready when every
  component only refers to variables of a smaller rank, so that there is no cycle.
\<close>

definition calendar_total :: "calendar \<Rightarrow> bool" where
  "calendar_total cal \<longleftrightarrow> (\<forall>t. cal_localtime cal t \<noteq> None)"

primrec component_ready :: "'d comp_env \<Rightarrow> (string \<Rightarrow> bool) \<Rightarrow> oval_component \<Rightarrow> bool" where
  "component_ready env allowed (COMP_LITERAL v) \<longleftrightarrow> full_value v"
| "component_ready env allowed (COMP_OBJECTREF obj ifield rfield) \<longleftrightarrow>
     (case component_evaluate_OBJECTREF env obj ifield rfield of None \<Rightarrow> False | Some (_, vs) \<Rightarrow> list_all full_value vs)"
| "component_ready env allowed (COMP_VARREF r) \<longleftrightarrow> (case r of None \<Rightarrow> True | Some var \<Rightarrow> allowed var)"
| "component_ready env allowed (COMP_BEGIN prefix cs) \<longleftrightarrow> list_all id (map (component_ready env allowed) cs)"
| "component_ready env allowed (COMP_CONCAT cs) \<longleftrightarrow> list_all id (map (component_ready env allowed) cs)"
| "component_ready env allowed (COMP_END suffix cs) \<longleftrightarrow> list_all id (map (component_ready env allowed) cs)"
| "component_ready env allowed (COMP_SPLIT delimiter cs) \<longleftrightarrow> delimiter \<noteq> None \<and> list_all id (map (component_ready env allowed) cs)"
| "component_ready env allowed (COMP_SUBSTRING start len cs) \<longleftrightarrow> list_all id (map (component_ready env allowed) cs)"
| "component_ready env allowed (COMP_TIMEDIF fmt1 fmt2 cs) \<longleftrightarrow>
     calendar_total (env_calendar env) \<and> list_all id (map (component_ready env allowed) cs)"
| "component_ready env allowed (COMP_ESCAPE_REGEX cs) \<longleftrightarrow> list_all id (map (component_ready env allowed) cs)"
| "component_ready env allowed (COMP_REGEX_CAPTURE pat cs) \<longleftrightarrow> pat \<noteq> None \<and> list_all id (map (component_ready env allowed) cs)"
| "component_ready env allowed (COMP_ARITHMETIC aop cs) \<longleftrightarrow> cs \<noteq> [] \<and> list_all id (map (component_ready env allowed) cs)"
| "component_ready env allowed (COMP_COUNT cs) \<longleftrightarrow> list_all id (map (component_ready env allowed) cs)"
| "component_ready env allowed (COMP_UNIQUE cs) \<longleftrightarrow> list_all id (map (component_ready env allowed) cs)"
| "component_ready env allowed COMP_UNSUPPORTED \<longleftrightarrow> True"

definition ready_variable :: "'d comp_env \<Rightarrow> (string \<Rightarrow> nat) \<Rightarrow> string set \<Rightarrow> string \<Rightarrow> oval_variable \<Rightarrow> bool" where
  "ready_variable env rank names name v \<longleftrightarrow>
     list_all full_value (var_values v)
     \<and> (case var_component v of
          None \<Rightarrow> True
        | Some c \<Rightarrow> component_ready env (\<lambda>r. r \<in> names \<and> rank r < rank name) c)"

definition ready_variables :: "'d comp_env \<Rightarrow> (string \<Rightarrow> nat) \<Rightarrow> string set \<Rightarrow> variable_map \<Rightarrow> bool" where
  "ready_variables env rank names vars \<longleftrightarrow>
     dom vars = names \<and> (\<forall>name v. vars name = Some v \<longrightarrow> ready_variable env rank names name v)"

lemma ready_variables_upd:
  "ready_variables env rank names vars \<Longrightarrow> name \<in> names \<Longrightarrow> ready_variable env rank names name v \<Longrightarrow>
   ready_variables env rank names (vars(name \<mapsto> v))"
  by (auto simp: ready_variables_def)

lemma ready_variable_computed:
  "ready_variable env rank names name v \<Longrightarrow> list_all full_value vals \<Longrightarrow>
   ready_variable env rank names name (computed_variable mode v (flag, vals))"
  by (auto simp: ready_variable_def computed_variable_def Let_def list_all_iff full_value_def)

text \<open>What an evaluation that returns delivers.\<close>

definition delivers :: "'d comp_env \<Rightarrow> (string \<Rightarrow> nat) \<Rightarrow> string set \<Rightarrow> (evaluated \<times> variable_map) option \<Rightarrow> bool" where
  "delivers env rank names r \<longleftrightarrow>
     (case r of
        None \<Rightarrow> False
      | Some ((flag, vs), vars) \<Rightarrow> list_all full_value vs \<and> ready_variables env rank names vars)"

definition delivers_all :: "'d comp_env \<Rightarrow> (string \<Rightarrow> nat) \<Rightarrow> string set \<Rightarrow> (evaluated list \<times> variable_map) option \<Rightarrow> bool" where
  "delivers_all env rank names r \<longleftrightarrow>
     (case r of
        None \<Rightarrow> False
      | Some (es, vars) \<Rightarrow> list_all (\<lambda>e. list_all full_value (snd e)) es \<and> ready_variables env rank names vars)"

definition fullness_kept :: "('e \<Rightarrow> bool) \<Rightarrow> ('e \<Rightarrow> evaluated option) \<Rightarrow> bool" where
  "fullness_kept P f \<longleftrightarrow> (\<forall>e. P e \<longrightarrow> (\<exists>flag vs. f e = Some (flag, vs) \<and> list_all full_value vs))"

lemma delivers_iff:
  "delivers env rank names r \<longleftrightarrow>
     (\<exists>flag vs vars. r = Some ((flag, vs), vars) \<and> list_all full_value vs \<and> ready_variables env rank names vars)"
  by (auto simp: delivers_def split: option.splits)

lemma delivers_simps [simp]:
  "\<not> delivers env rank names None"
  "delivers env rank names (Some ((flag, vs), vars)) \<longleftrightarrow> list_all full_value vs \<and> ready_variables env rank names vars"
  "\<not> delivers_all env rank names None"
  "delivers_all env rank names (Some (es, vars))
     \<longleftrightarrow> list_all (\<lambda>e. list_all full_value (snd e)) es \<and> ready_variables env rank names vars"
  by (simp_all add: delivers_def delivers_all_def)

lemma delivers_on_values:
  assumes "delivers env rank names r" and "fullness_kept (\<lambda>e. list_all full_value (snd e)) f"
  shows "delivers env rank names (on_values f r)"
proof -
  obtain e vars where r: "r = Some (e, vars)" "list_all full_value (snd e)" "ready_variables env rank names vars"
    using assms(1) by (auto simp: delivers_iff)
  moreover obtain flag vs where "f e = Some (flag, vs)" "list_all full_value vs"
    using assms(2) r(2) unfolding fullness_kept_def by blast
  ultimately show ?thesis by (simp add: delivers_def on_values_def)
qed

lemma delivers_on_all:
  assumes "delivers_all env rank names r" and "fullness_kept (list_all (\<lambda>e. list_all full_value (snd e))) f"
  shows "delivers env rank names (on_all f r)"
proof -
  obtain es vars where r: "r = Some (es, vars)" "list_all (\<lambda>e. list_all full_value (snd e)) es"
      "ready_variables env rank names vars"
    using assms(1) by (auto simp: delivers_all_def split: option.splits)
  moreover obtain flag vs where "f es = Some (flag, vs)" "list_all full_value vs"
    using assms(2) r(2) unfolding fullness_kept_def by blast
  ultimately show ?thesis by (simp add: delivers_def on_all_def)
qed

lemma full_string_value [simp]: "full_value (string_value t)"
  by (simp add: full_value_def string_value_def)

lemma full_string_values [simp]: "list_all full_value (map string_value ts)"
  by (simp add: list_all_iff)

lemma full_texts: "list_all full_value vs \<Longrightarrow> those (map value_text vs) = Some (map (\<lambda>v. the (value_text v)) vs)"
  by (induction vs) (auto simp: full_value_def)

lemma map_texts_full: "list_all full_value vs \<Longrightarrow> \<exists>vs'. map_texts f vs = Some vs' \<and> list_all full_value vs'"
  by (auto simp: map_texts_def full_texts)

lemma fullness_map_texts [simp]:
  "fullness_kept (\<lambda>e. list_all full_value (snd e)) (\<lambda>(flag, vs). map_option (Pair flag) (map_texts f vs))"
  using map_texts_full by (fastforce simp: fullness_kept_def)

lemma substring_full:
  "list_all full_value vs \<Longrightarrow>
   \<exists>flag' vs'. substring_values start len vs flag = Some (flag', vs') \<and> list_all full_value vs'"
proof (induction start len vs flag rule: substring_values.induct)
  case (2 start len v vs flag)
  then obtain t where "value_text v = Some t" by (auto simp: full_value_def)
  with 2 show ?case by (cases "substring_text start len t") fastforce+
qed simp

lemma capture_full:
  "list_all full_value vs \<Longrightarrow>
   \<exists>flag' vs'. capture_values exec vs flag = Some (flag', vs') \<and> list_all full_value vs'"
proof (induction exec vs flag rule: capture_values.induct)
  case (2 exec v vs flag)
  then obtain t where "value_text v = Some t" by (auto simp: full_value_def)
  with 2 show ?case by (cases "exec t") fastforce+
qed simp

lemma fullness_simple [simp]:
  "fullness_kept (\<lambda>e. list_all full_value (snd e)) (\<lambda>(flag, vs). substring_values start len vs flag)"
  "fullness_kept (\<lambda>e. list_all full_value (snd e)) (\<lambda>(flag, vs). capture_values exec vs flag)"
  "fullness_kept P evaluate_CONCAT" "fullness_kept P evaluate_COUNT" "fullness_kept P evaluate_UNIQUE"
  using substring_full capture_full
  by (auto simp: fullness_kept_def evaluate_CONCAT_def evaluate_COUNT_def evaluate_UNIQUE_def concat_values_def
      Let_def full_value_def)

lemma localtime_total: "calendar_total cal \<Longrightarrow> \<exists>isdst. cal_localtime cal t = Some isdst"
  by (simp add: calendar_total_def)

lemma comp_sec_total: "calendar_total cal \<Longrightarrow> \<exists>t. comp_sec cal dt = Some t"
  using localtime_total [of cal "cal_time cal"]
    localtime_total [of cal "cal_mktime cal (dt\<lparr>tm_year := tm_year dt - 1900, tm_mon := tm_mon dt - 1\<rparr>)"]
  by (auto simp: comp_sec_def Let_def)

lemma parse_datetime_total: "calendar_total cal \<Longrightarrow> \<exists>t. parse_datetime cal dt fmts = Some t"
  using comp_sec_total by (induction fmts) (auto split: option.splits list.splits)

lemma parse_fmt_total: "calendar_total cal \<Longrightarrow> \<exists>t. parse_fmt cal (Some sv) fmt = Some t"
  using parse_datetime_total [of cal] localtime_total [of cal "word_of_int (fst (strtol64 sv))"]
  by (cases fmt) (auto simp: parse_fmt_def parse_fmt_sse_def Let_def)

lemma time_difference_full:
  assumes "calendar_total cal" and "full_value ov1" and "full_value ov2"
  shows "\<exists>v. time_difference cal f1 f2 ov1 ov2 = Some v \<and> full_value v"
proof -
  obtain s1 s2 where "value_text ov1 = Some s1" "value_text ov2 = Some s2" using assms(2,3) by (auto simp: full_value_def)
  moreover obtain t1 t2 where "parse_fmt cal (Some s1) f1 = Some t1" "parse_fmt cal (Some s2) f2 = Some t2"
    using parse_fmt_total [OF assms(1)] by metis
  ultimately show ?thesis by (simp add: time_difference_def time_value_def full_value_def)
qed

lemma those_full: "\<forall>x\<in>set xs. \<exists>v. f x = Some v \<and> P v \<Longrightarrow> \<exists>ys. those (map f xs) = Some ys \<and> list_all P ys"
  by (induction xs) auto

lemma timedif_full:
  assumes "calendar_total cal" and "list_all full_value vs1" and "list_all full_value vs2"
  shows "\<exists>vs. timedif_values cal f1 f2 vs1 vs2 = Some vs \<and> list_all full_value vs"
  unfolding timedif_values_map
  by (rule those_full) (use assms time_difference_full in \<open>auto simp: list_all_iff\<close>)

lemma full_time_value [simp]: "full_value (time_value t)"
  by (simp add: time_value_def full_value_def)

lemma fullness_timedif:
  assumes "calendar_total cal"
  shows "fullness_kept (list_all (\<lambda>e. list_all full_value (snd e))) (evaluate_TIMEDIF cal f1 f2)"
  using timedif_full [OF assms, of "[time_value (cal_time cal)]" _ OVAL_DATETIME_SECONDS_SINCE_EPOCH f2]
    timedif_full [OF assms, of _ _ f1 f2]
  by (fastforce simp: fullness_kept_def evaluate_TIMEDIF_def split: list.splits)

lemma arith_operand_full: "full_value ov \<Longrightarrow> \<exists>r. arith_operand ops ov = Some r"
  by (cases "value_text ov") (simp_all add: arith_operand_def full_value_def)

lemma arithmetic_rec_full:
  "\<forall>ws\<in>set vss. list_all full_value ws \<Longrightarrow>
   \<exists>flag vs. arithmetic_rec ops vss val dt aop = Some (flag, vs) \<and> list_all full_value vs"
  "list_all full_value us \<Longrightarrow> \<forall>ws\<in>set vss. list_all full_value ws \<Longrightarrow>
   \<exists>flag vs. arithmetic_loop ops us vss val dt aop = Some (flag, vs) \<and> list_all full_value vs"
proof (induction ops vss val dt aop and ops us vss val dt aop rule: arithmetic_rec_arithmetic_loop.induct)
  case (4 ops ov us others val dt aop)
  obtain r where r: "arith_operand ops ov = Some r"
    using "4.prems"(1) arith_operand_full [of ov ops] by auto
  show ?case
  proof (cases r)
    case (Some d)
    then show ?thesis using "4.IH"(1) [OF _ Some refl] "4.IH"(2) [OF _ Some refl] "4.prems"
      by (fastforce simp: r Let_def)
  qed (use 4 r in auto)
qed (auto simp: arith_result_def full_value_def)

lemma arithmetic_root_full:
  "list_all full_value vs \<Longrightarrow> \<forall>ws\<in>set others. list_all full_value ws \<Longrightarrow>
   \<exists>flag' vs'. arithmetic_root ops vs others aop flag = Some (flag', vs') \<and> list_all full_value vs'"
proof (induction ops vs others aop flag rule: arithmetic_root.induct)
  case (2 ops ov vs others aop flag)
  obtain r where r: "arith_operand ops ov = Some r" using "2.prems"(1) arith_operand_full [of ov ops] by auto
  show ?case
  proof (cases r)
    case (Some d)
    obtain f new where new: "arithmetic_rec ops others d (value_datatype ov) aop = Some (f, new)" "list_all full_value new"
      using arithmetic_rec_full(1) [OF "2.prems"(2), of ops d "value_datatype ov" aop] by auto
    have "\<exists>flag' vs'. arithmetic_root ops vs others aop f = Some (flag', vs') \<and> list_all full_value vs'"
      using "2.IH" [of r d "(f, new)" f new] r Some new "2.prems" by simp
    then show ?thesis using r Some new by auto
  qed (use 2 r in auto)
qed auto

lemma fullness_arithmetic:
  "fullness_kept (\<lambda>es. es \<noteq> [] \<and> list_all (\<lambda>e. list_all full_value (snd e)) es) (evaluate_ARITHMETIC ops aop)"
proof -
  have "\<exists>flag vs. evaluate_ARITHMETIC ops aop es = Some (flag, vs) \<and> list_all full_value vs"
    if ne: "es \<noteq> []" and full: "list_all (\<lambda>e. list_all full_value (snd e)) es" for es
  proof -
    obtain f us rest where es: "rev es = (f, us) # rest" using ne by (cases "rev es") auto
    have "\<forall>e\<in>set (rev es). list_all full_value (snd e)" using full by (simp add: list_all_iff)
    then show ?thesis
      using arithmetic_root_full [of us "map snd rest" ops aop f] by (simp add: evaluate_ARITHMETIC_def es)
  qed
  then show ?thesis unfolding fullness_kept_def by blast
qed

lemma eval_components_length: "eval_components fuel env cs vars = Some (es, vars') \<Longrightarrow> length es = length cs"
  by (induction cs arbitrary: vars es vars') (auto split: option.splits)

lemma delivers_arithmetic:
  assumes "delivers_all env rank names r" and "\<And>es vars. r = Some (es, vars) \<Longrightarrow> es \<noteq> []"
  shows "delivers env rank names (on_all (evaluate_ARITHMETIC ops aop) r)"
proof -
  obtain es vars where r: "r = Some (es, vars)" "list_all (\<lambda>e. list_all full_value (snd e)) es"
      "ready_variables env rank names vars"
    using assms(1) by (auto simp: delivers_all_def split: option.splits)
  moreover obtain flag vs where "evaluate_ARITHMETIC ops aop es = Some (flag, vs)" "list_all full_value vs"
    using fullness_arithmetic r(2) assms(2) [OF r(1)] unfolding fullness_kept_def by blast
  ultimately show ?thesis by (simp add: delivers_def on_all_def)
qed

lemma list_all_id_map [simp]: "list_all id (map f xs) \<longleftrightarrow> list_all f xs"
  by (simp add: list_all_iff)

lemma list_all_take: "list_all P xs \<Longrightarrow> list_all P (take n xs)"
  by (auto simp: list_all_iff dest: in_set_takeD)

abbreviation below :: "(string \<Rightarrow> nat) \<Rightarrow> string set \<Rightarrow> nat \<Rightarrow> string \<Rightarrow> bool" where
  "below rank names n \<equiv> (\<lambda>r. r \<in> names \<and> rank r < n)"

lemma component_ready_mono:
  "component_ready env P c \<Longrightarrow> (\<And>r. P r \<Longrightarrow> Q r) \<Longrightarrow> component_ready env Q c"
  by (induction c) (auto simp: list_all_iff split: option.splits)

lemma eval_delivers_all:
  "component_ready env (below rank names fuel) c \<Longrightarrow> ready_variables env rank names vars \<Longrightarrow>
     delivers env rank names (oval_component_eval_common fuel env c vars)"
  "list_all (component_ready env (below rank names fuel)) cs \<Longrightarrow> ready_variables env rank names vars \<Longrightarrow>
     delivers_all env rank names (eval_components fuel env cs vars)"
  "below rank names fuel var \<Longrightarrow> ready_variables env rank names vars \<Longrightarrow>
     \<exists>rc vars'. compute_variable fuel env var vars = Some (rc, vars') \<and> ready_variables env rank names vars'"
proof (induction fuel env c vars and fuel env cs vars and fuel env var vars rule: eval_induct)
  case (4 fuel env var vars)
  then obtain rc vars' where "compute_variable fuel env var vars = Some (rc, vars')"
    and r: "ready_variables env rank names vars'" by auto
  moreover obtain v where "vars' var = Some v" using r 4 by (auto simp: ready_variables_def)
  ultimately show ?case by (auto simp: evaluate_VARREF_def ready_variables_def ready_variable_def)
next
  case (19 fuel env fmt1 fmt2 cs vars)
  have fullness: "fullness_kept (list_all (\<lambda>e. list_all full_value (snd e))) (evaluate_TIMEDIF (env_calendar env) fmt1 fmt2)"
    using 19 by (intro fullness_timedif) simp
  show ?case
  proof (cases "length cs > 2")
    case True
    have "list_all (component_ready env (below rank names fuel)) (take 2 cs)"
      using 19 by (simp add: list_all_take)
    with 19 True have "delivers_all env rank names (eval_components fuel env (take 2 cs) vars)" by blast
    then show ?thesis using True by (auto simp: delivers_def delivers_all_def split: option.splits)
  next
    case False
    with 19 show ?thesis by (simp add: delivers_on_all fullness)
  qed
next
  case (24 fuel env aop cs vars)
  show ?case
  proof (cases "aop \<noteq> OVAL_ARITHMETIC_ADD \<and> aop \<noteq> OVAL_ARITHMETIC_MULTIPLY")
    case False
    with 24 have "delivers_all env rank names (eval_components fuel env cs vars)" by simp
    then have "delivers env rank names (on_all (evaluate_ARITHMETIC (env_double env) aop) (eval_components fuel env cs vars))"
      using 24 eval_components_length by (intro delivers_arithmetic) fastforce+
    then show ?thesis using False by auto
  qed (use 24 in \<open>simp add: delivers_def\<close>)
next
  case (27 fuel env c cs vars)
  then obtain flag vs vars1 where e: "oval_component_eval_common fuel env c vars = Some ((flag, vs), vars1)"
      "list_all full_value vs" "ready_variables env rank names vars1"
    by (auto simp: delivers_iff)
  have "list_all (component_ready env (below rank names fuel)) cs" using "27.prems" by simp
  then have "delivers_all env rank names (eval_components fuel env cs vars1)"
    using "27.IH"(2) [OF e(1) refl] e(3) by simp
  then show ?case using e by (auto simp: delivers_all_def split: option.splits)
next
  case (29 fuel env var vars)
  then obtain v where v: "vars var = Some v" by (auto simp: ready_variables_def)
  have ready: "ready_variable env rank names var v" using 29 v by (auto simp: ready_variables_def)
  show ?case
  proof (cases "settled v \<or> var_component v = None")
    case False
    then obtain c where c: "var_type v = OVAL_VARIABLE_LOCAL" "var_flag v = SYSCHAR_FLAG_UNKNOWN" "var_component v = Some c"
      by (auto simp: settled_def)
    have "component_ready env (below rank names (rank var)) c" using ready c(3) by (simp add: ready_variable_def)
    then have "component_ready env (below rank names fuel) c" using "29.prems"(1) component_ready_mono by fastforce
    then have "delivers env rank names (oval_component_eval_common fuel env c vars)"
      using "29.IH" [OF v _ _ c(3)] c "29.prems"(2) by simp
    then obtain flag vals vars1 where e: "oval_component_eval_common fuel env c vars = Some ((flag, vals), vars1)"
        "list_all full_value vals" "ready_variables env rank names vars1"
      by (auto simp: delivers_iff)
    show ?thesis
      using v c e "29.prems"(1) by (auto simp del: fun_upd_apply
          intro!: ready_variables_upd ready_variable_computed [OF ready])
  qed (use v 29 in \<open>auto simp: settled_def\<close>)
qed (auto simp: delivers_on_values delivers_on_all text_functions split: option.splits list.splits)

section \<open>The properties\<close>

text \<open>
  C27. \<open>CONCAT\<close> of lists of values gives one text for every combination of their values, in the order
  that varies the first list fastest: the loop that turns the iterators (with its count \<open>catnum\<close>)
  visits every combination exactly once. A list without values is skipped, it adds nothing to the texts. The
  values must have texts, and there must be fewer than \<open>2 ^ 31\<close> combinations, for \<open>catnum\<close> is an \<open>int\<close>
  (\<open>concat_overflow\<close> shows what happens otherwise).
\<close>

theorem concat_correct:
  assumes "colls \<noteq> []" and "\<forall>(flag, vs)\<in>set colls. \<forall>v\<in>set vs. value_text v \<noteq> None"
    and "has_values (agg_flags colls)" and "prod_list (map (\<lambda>(flag, vs). length (choices vs)) colls) < 2 ^ 31"
  shows "evaluate_CONCAT colls = Some (agg_flags colls,
    map (\<lambda>ts. string_value (concat ts))
      (combinations (map (\<lambda>(flag, vs). if vs = [] then [[]] else map (\<lambda>v. the (value_text v)) vs) colls)))"
proof -
  have full: "\<forall>vs\<in>set (map snd colls). \<forall>v\<in>set vs. full_value v"
    using assms(2) by (auto simp: full_value_def)
  have "map (\<lambda>vs. length (choices vs)) (map snd colls) = map (\<lambda>(flag, vs). length (choices vs)) colls" by auto
  with assms(4) have "concat_values (map snd colls)
      = map (\<lambda>ts. string_value (concat ts)) (combinations (map choices (map snd colls)))"
    by (intro concat_values_combinations [OF full]) (simp only:)
  moreover have "map choices (map snd colls)
      = map (\<lambda>(flag, vs). if vs = [] then [[]] else map (\<lambda>v. the (value_text v)) vs) colls"
    by (auto simp: choices_def)
  ultimately show ?thesis using assms(1,3) by (simp only: evaluate_CONCAT_def Let_def) simp
qed

theorem concat_correct_witness:
  "evaluate_CONCAT [(SYSCHAR_FLAG_COMPLETE, [string_value ''a'', string_value ''b'']), (SYSCHAR_FLAG_COMPLETE, []),
       (SYSCHAR_FLAG_INCOMPLETE, [string_value ''x'', string_value ''y''])]
     = Some (SYSCHAR_FLAG_INCOMPLETE, map string_value [''ax'', ''bx'', ''ay'', ''by''])"
  by (subst concat_correct)
    (simp_all add: string_value_def agg_flags_def agg_flag_def flag_agg_map_def has_values_def choices_def)

text \<open>
  \<open>SPLIT\<close> loses nothing: the pieces of a text joined with the delimiter are the text again, and no
  piece contains the delimiter.
\<close>

theorem split_roundtrip:
  assumes "delimiter \<noteq> []"
  shows "join_with delimiter (split_at delimiter s) = s
    \<and> (\<forall>p\<in>set (split_at delimiter s). c_strstr p delimiter = None)"
  by (rule split_at_join [OF assms])

theorem split_roundtrip_witness:
  "join_with ''--'' (split_at ''--'' ''a--b----'') = ''a--b----'' \<and> split_at ''--'' ''a--b----'' = [''a'', ''b'', [], []]
   \<and> list_all (\<lambda>p. c_strstr p ''--'' = None) (split_at ''--'' ''a--b----'')"
  using split_roundtrip [of "''--''" "''a--b----''"] by (simp add: split_at.simps list_all_iff)

text \<open>
  C25. The values of a component are of the datatypes its function gives: texts for the functions on
  texts, integers for \<open>COUNT\<close> and \<open>TIMEDIF\<close>, integers or floats that occur among the operands for
  \<open>ARITHMETIC\<close>, the variable's for a reference; and an evaluation that computes variables on the way
  leaves all variables with values of their types.
\<close>

theorem components_typed:
  assumes "oval_component_eval_common fuel env c vars = Some ((flag, vs), vars')" and "typed_variables \<Gamma> vars"
  shows "typed_values (component_types \<Gamma> c) vs \<and> typed_variables \<Gamma> vars'"
  by (rule eval_typed_all(1) [OF assms])

text \<open>An environment and variables for examples.\<close>

definition example_env :: "int comp_env" where
  "example_env = \<lparr>env_mode = OVAL_MODE_COMPUTE,
     env_model = \<lparr>model_syschars = \<lambda>_. None, model_sysitems = \<lambda>_. None\<rparr>,
     env_query = \<lambda>_. None, env_capture = \<lambda>_. None,
     env_calendar = \<lparr>cal_time = 0, cal_strptime = \<lambda>_ _. None, cal_mktime = \<lambda>_. 0, cal_localtime = \<lambda>_. Some False\<rparr>,
     env_double = \<lparr>dbl_of_int = \<lambda>i. i, dbl_strtof = \<lambda>_. 0, dbl_add = (+), dbl_mul = (*),
       dbl_show_ld = \<lambda>i. show_nat (nat i), dbl_show_f = \<lambda>i. show_nat (nat i)\<rparr>\<rparr>"

definition local_variable :: "oval_datatype_t \<Rightarrow> oval_component \<Rightarrow> oval_variable" where
  "local_variable dt c = \<lparr>var_type = OVAL_VARIABLE_LOCAL, var_datatype = dt, var_flag = SYSCHAR_FLAG_UNKNOWN,
     var_values = [], var_component = Some c\<rparr>"

definition example_variables :: variable_map where
  "example_variables = (\<lambda>name.
     if name = ''list'' then Some (local_variable OVAL_DATATYPE_STRING (COMP_SPLIT (Some '','') [COMP_LITERAL (string_value ''a,b'')]))
     else if name = ''n'' then Some (local_variable OVAL_DATATYPE_INTEGER (COMP_COUNT [COMP_VARREF (Some ''list'')]))
     else None)"

lemmas example_simps = text_functions evaluate_VARREF_def computed_variable_def local_variable_def agg_flags_def agg_flag_def flag_agg_map_def
  has_values_def evaluate_COUNT_def on_values_def on_all_def map_texts_def string_value_def split_at.simps
  value_texts_def List.map_filter_def Let_def

lemma compute_list:
  "compute_variable (Suc fuel) example_env ''list'' example_variables = Some (0, example_variables(''list'' \<mapsto>
     local_variable OVAL_DATATYPE_STRING (COMP_SPLIT (Some '','') [COMP_LITERAL (string_value ''a,b'')])
       \<lparr>var_flag := SYSCHAR_FLAG_COMPLETE, var_values := [string_value ''a'', string_value ''b'']\<rparr>))"
  by (simp add: example_variables_def example_env_def example_simps)

lemma eval_n:
  "oval_component_eval_common (Suc fuel) example_env (COMP_COUNT [COMP_VARREF (Some ''list'')]) example_variables
   = Some ((SYSCHAR_FLAG_COMPLETE, [\<lparr>value_datatype = OVAL_DATATYPE_INTEGER, value_text = Some ''2''\<rparr>]),
       example_variables(''list'' \<mapsto>
         local_variable OVAL_DATATYPE_STRING (COMP_SPLIT (Some '','') [COMP_LITERAL (string_value ''a,b'')])
           \<lparr>var_flag := SYSCHAR_FLAG_COMPLETE, var_values := [string_value ''a'', string_value ''b'']\<rparr>))"
  by (simp add: compute_list example_simps del: compute_variable.simps)
    (code_simp)

theorem components_typed_witness:
  "typed_values (component_types (\<lambda>name. if name = ''n'' then {OVAL_DATATYPE_INTEGER} else {OVAL_DATATYPE_STRING})
      (COMP_COUNT [COMP_VARREF (Some ''list'')])) [\<lparr>value_datatype = OVAL_DATATYPE_INTEGER, value_text = Some ''2''\<rparr>]"
  by (rule components_typed [OF eval_n, THEN conjunct1])
    (simp add: typed_variables_def typed_variable_def example_variables_def local_variable_def)

text \<open>
  C28. Computing a variable, and all the variables it needs, changes no variable that is not local or that
  has its flag already: a variable keeps its first values through the whole evaluation, and is not
  computed again.
\<close>

theorem settled_variables_stay:
  assumes "compute_variable fuel env var vars = Some (rc, vars')"
  shows "dom vars' = dom vars
    \<and> (\<forall>name v. vars name = Some v \<and> settled v \<longrightarrow>
          vars' name = Some v \<and> compute_variable (Suc n) env name vars' = Some (0, vars'))"
proof -
  have "compute_variable (Suc n) env name vars' = Some (0, vars')" if "vars' name = Some v" "settled v" for name v
    using that by (auto simp: settled_def)
  with eval_keeps_settled_all(3) [OF assms] show ?thesis unfolding keeps_settled_def by blast
qed

theorem settled_variables_stay_witness:
  "\<exists>vars'. compute_variable 2 example_env ''n'' (example_variables(''list'' \<mapsto>
        local_variable OVAL_DATATYPE_STRING COMP_UNSUPPORTED\<lparr>var_flag := SYSCHAR_FLAG_ERROR\<rparr>)) = Some (0, vars')
     \<and> vars' ''list'' = Some (local_variable OVAL_DATATYPE_STRING COMP_UNSUPPORTED\<lparr>var_flag := SYSCHAR_FLAG_ERROR\<rparr>)"
    (is "\<exists>vars'. compute_variable 2 example_env ''n'' ?vars = _ \<and> _")
proof -
  obtain vars' where c: "compute_variable 2 example_env ''n'' ?vars = Some (0, vars')"
    by (simp add: numeral_2_eq_2 example_variables_def example_env_def example_simps)
  have "vars' ''list'' = ?vars ''list''"
    using settled_variables_stay [OF c, of 0] by (simp add: settled_def local_variable_def)
  with c show ?thesis by simp
qed

text \<open>
  C26. Computing a variable returns, whatever functions its component is made of, when the references
  between variables are acyclic (there is a rank that falls along every reference) and nothing that is NULL
  is read: literals and the values of objects have texts, \<open>SPLIT\<close> and \<open>REGEX_CAPTURE\<close> have their
  attributes, \<open>ARITHMETIC\<close> has operands, and where there is a \<open>TIMEDIF\<close>, \<open>localtime\<close> can break down every
  time. A fuel above the rank is enough. The variable then has its values, all of them with texts.
\<close>

theorem variables_evaluate:
  assumes "ready_variables env rank (dom vars) vars" and "vars var \<noteq> None" and "rank var < fuel"
  shows "\<exists>rc vars' v. compute_variable fuel env var vars = Some (rc, vars') \<and> vars' var = Some v
    \<and> list_all full_value (var_values v)"
proof -
  have "below rank (dom vars) fuel var" using assms(2,3) by auto
  from eval_delivers_all(3) [OF this assms(1)] obtain rc vars' where
    c: "compute_variable fuel env var vars = Some (rc, vars')" "ready_variables env rank (dom vars) vars'" by auto
  moreover obtain v where "vars' var = Some v"
    using c(2) assms(2) unfolding ready_variables_def by (metis domD domIff)
  ultimately show ?thesis by (auto simp: ready_variables_def ready_variable_def)
qed

theorem variables_evaluate_witness:
  "\<exists>rc vars' v. compute_variable 2 example_env ''n'' example_variables = Some (rc, vars') \<and> vars' ''n'' = Some v
     \<and> list_all full_value (var_values v)"
  by (rule variables_evaluate [where rank = "\<lambda>name. if name = ''n'' then 1 else 0"])
    (auto simp: ready_variables_def ready_variable_def example_variables_def local_variable_def dom_def split: if_splits)

text \<open>A local variable that refers to itself is never computed, whatever the fuel.\<close>

lemma self_reference_diverges:
  assumes "vars var = Some v" and "\<not> settled v" and "var_component v = Some (COMP_VARREF (Some var))"
  shows "compute_variable fuel env var vars = None"
  using assms by (induction fuel) (auto simp: settled_def evaluate_VARREF_def)

end
