(* ===== verification/Oscap_List.thy ===== *)
theory Oscap_List
  imports Prelude
begin

text \<open>
  The lists and iterators of \<open>common/list.c\<close>, which hold nearly every collection of the program.

  A list is the HOL list of its data, in order; the fields \<open>first\<close>, \<open>last\<close> and \<open>itemcount\<close> are read
  off it. An iterator keeps the items up to its cursor, last one first, and the items behind it: the
  item at the cursor is the head of \<open>it_passed\<close>, and \<open>it_passed = []\<close> is the cursor NULL before the first
  item. What a loop over an iterator needs is the contract \<open>iterator\<close>, met by the filtered iterators
  here and by the iterators over hash tables.
\<close>

section \<open>Lists\<close>

text \<open>\<open>oscap_list_add\<close> takes a pointer and refuses NULL.\<close>

definition oscap_list_add :: "'a list \<Rightarrow> 'a option \<Rightarrow> bool \<times> 'a list" where
  "oscap_list_add xs v = (case v of None \<Rightarrow> (False, xs) | Some x \<Rightarrow> (True, xs @ [x]))"

fun oscap_list_pop :: "'a list \<Rightarrow> bool \<times> 'a list" where
  "oscap_list_pop [] = (False, [])"
| "oscap_list_pop [x] = (True, [])"
| "oscap_list_pop (x # y # xs) = (let (ok, ys) = oscap_list_pop (y # xs) in (ok, x # ys))"

fun oscap_list_remove :: "('a \<Rightarrow> 'b \<Rightarrow> bool) \<Rightarrow> 'a list \<Rightarrow> 'b \<Rightarrow> bool \<times> 'a list" where
  "oscap_list_remove compare [] v = (False, [])"
| "oscap_list_remove compare (x # xs) v =
     (if compare x v then (True, xs) else (let (ok, ys) = oscap_list_remove compare xs v in (ok, x # ys)))"

fun oscap_list_find :: "('a \<Rightarrow> 'b \<Rightarrow> bool) \<Rightarrow> 'a list \<Rightarrow> 'b \<Rightarrow> 'a option" where
  "oscap_list_find compare [] v = None"
| "oscap_list_find compare (x # xs) v = (if compare x v then Some x else oscap_list_find compare xs v)"

definition oscap_list_contains :: "('a \<Rightarrow> 'b \<Rightarrow> bool) \<Rightarrow> 'a list \<Rightarrow> 'b \<Rightarrow> bool" where
  "oscap_list_contains compare xs v \<longleftrightarrow> oscap_list_find compare xs v \<noteq> None"

definition oscap_list_destructive_join :: "'a list \<Rightarrow> 'a list \<Rightarrow> 'a list" where
  "oscap_list_destructive_join xs ys = (if xs = [] then ys else xs @ ys)"

lemma oscap_list_add_Some [simp]: "oscap_list_add xs (Some x) = (True, xs @ [x])"
  by (simp add: oscap_list_add_def)

lemma oscap_list_pop_butlast [simp]: "oscap_list_pop xs = (xs \<noteq> [], butlast xs)"
  by (induction xs rule: oscap_list_pop.induct) auto

lemma oscap_list_contains_iff [simp]: "oscap_list_contains compare xs v \<longleftrightarrow> (\<exists>x\<in>set xs. compare x v)"
  by (induction xs) (auto simp: oscap_list_contains_def)

lemma oscap_list_join_append [simp]: "oscap_list_destructive_join xs ys = xs @ ys"
  by (simp add: oscap_list_destructive_join_def)

lemma oscap_list_remove_remove1:
  "oscap_list_remove (=) xs v = (v \<in> set xs, remove1 v xs)"
  by (induction xs) auto

section \<open>The contract of iterators\<close>

text \<open>
  An iterator has items pending. \<open>has_more\<close> tells whether there are any and keeps them (it may move its
  cursor), \<open>next\<close> gives the first of them when there is one. Then the loop over the iterator sees
  exactly the pending items, and ends.
\<close>

locale iterator =
  fixes has_more :: "'s \<Rightarrow> bool \<times> 's" and advance :: "'s \<Rightarrow> ('a \<times> 's) option" and pending :: "'s \<Rightarrow> 'a list"
  assumes has_more_iff: "fst (has_more s) \<longleftrightarrow> pending s \<noteq> []"
    and has_more_keeps: "pending (snd (has_more s)) = pending s"
    and advance_first: "pending s = x # xs \<Longrightarrow> \<exists>s'. advance (snd (has_more s)) = Some (x, s') \<and> pending s' = xs"
begin

text \<open>The loop \<open>while (has_more(it)) { x = next(it); ... }\<close>, with the items it sees; None if \<open>next\<close> fails.\<close>

fun drain :: "nat \<Rightarrow> 's \<Rightarrow> 'a list option" where
  "drain 0 s = None"
| "drain (Suc n) s =
     (let (more, s') = has_more s in
      if more then (case advance s' of None \<Rightarrow> None | Some (x, s'') \<Rightarrow> map_option ((#) x) (drain n s''))
      else Some [])"

lemma drain_pending: "length (pending s) < n \<Longrightarrow> drain n s = Some (pending s)"
proof (induction n arbitrary: s)
  case (Suc n)
  obtain more s1 where h: "has_more s = (more, s1)" by (cases "has_more s")
  have more: "more \<longleftrightarrow> pending s \<noteq> []" using has_more_iff [of s] h by simp
  show ?case
  proof (cases "pending s")
    case Nil
    then show ?thesis using h more by simp
  next
    case (Cons x xs)
    then obtain s' where s': "advance s1 = Some (x, s')" "pending s' = xs" using advance_first [OF Cons] h by auto
    with Suc.IH [of s'] Suc.prems Cons have "drain n s' = Some xs" by simp
    then show ?thesis using h more Cons s' by simp
  qed
qed simp

lemma has_more_again: "fst (has_more (snd (has_more s))) \<longleftrightarrow> fst (has_more s)"
  by (simp add: has_more_iff has_more_keeps)

end

section \<open>Iterators over lists\<close>

record 'a oscap_iterator =
  it_passed :: "'a list"
  it_left :: "'a list"

definition it_list :: "'a oscap_iterator \<Rightarrow> 'a list" where
  "it_list it = rev (it_passed it) @ it_left it"

definition oscap_iterator_new :: "'a list \<Rightarrow> 'a oscap_iterator" where
  "oscap_iterator_new xs = \<lparr>it_passed = [], it_left = xs\<rparr>"

definition oscap_iterator_reset :: "'a oscap_iterator \<Rightarrow> 'a oscap_iterator" where
  "oscap_iterator_reset it = \<lparr>it_passed = [], it_left = it_list it\<rparr>"

text \<open>The loop of \<open>oscap_iterator_has_more\<close>: the cursor moves on while the next item is filtered out.\<close>

fun skip_filtered :: "('a \<Rightarrow> bool) \<Rightarrow> 'a list \<Rightarrow> 'a list \<Rightarrow> 'a list \<times> 'a list" where
  "skip_filtered p passed [] = (passed, [])"
| "skip_filtered p passed (x # xs) = (if p x then (passed, x # xs) else skip_filtered p (x # passed) xs)"

definition oscap_iterator_has_more :: "('a \<Rightarrow> bool) \<Rightarrow> 'a oscap_iterator \<Rightarrow> bool \<times> 'a oscap_iterator" where
  "oscap_iterator_has_more p it =
     (case (it_passed it, it_left it) of
        ([], []) \<Rightarrow> (False, it)
      | ([], x # xs) \<Rightarrow>
          if p x then (True, it)
          else (let (ps, l) = skip_filtered p [x] xs in (l \<noteq> [], \<lparr>it_passed = ps, it_left = l\<rparr>))
      | (passed, left) \<Rightarrow>
          (let (ps, l) = skip_filtered p passed left in (l \<noteq> [], \<lparr>it_passed = ps, it_left = l\<rparr>)))"

text \<open>
  \<open>oscap_iterator_find_nearest\<close> moves the cursor at least once, and on over filtered items as long as
  there are more; None is the NULL cursor that \<open>oscap_iterator_next\<close> then dereferences.
\<close>

fun find_nearest :: "('a \<Rightarrow> bool) \<Rightarrow> 'a list \<Rightarrow> 'a list \<Rightarrow> ('a list \<times> 'a list) option" where
  "find_nearest p passed [] = None"
| "find_nearest p passed (x # xs) = (if \<not> p x \<and> xs \<noteq> [] then find_nearest p (x # passed) xs else Some (x # passed, xs))"

definition oscap_iterator_next :: "('a \<Rightarrow> bool) \<Rightarrow> 'a oscap_iterator \<Rightarrow> ('a \<times> 'a oscap_iterator) option" where
  "oscap_iterator_next p it =
     map_option (\<lambda>(ps, l). (hd ps, \<lparr>it_passed = ps, it_left = l\<rparr>)) (find_nearest p (it_passed it) (it_left it))"

text \<open>\<open>oscap_iterator_detach\<close> takes the item at the cursor out of the list and steps the cursor back.\<close>

definition oscap_iterator_detach :: "'a oscap_iterator \<Rightarrow> ('a \<times> 'a oscap_iterator) option" where
  "oscap_iterator_detach it =
     (case it_passed it of
        [] \<Rightarrow> None
      | x # ps \<Rightarrow> Some (x, \<lparr>it_passed = ps, it_left = it_left it\<rparr>))"

definition it_pending :: "('a \<Rightarrow> bool) \<Rightarrow> 'a oscap_iterator \<Rightarrow> 'a list" where
  "it_pending p it = filter p (it_left it)"

lemma skip_filtered_pending:
  "skip_filtered p passed left = (ps, l) \<Longrightarrow>
   filter p l = filter p left \<and> (l \<noteq> [] \<longrightarrow> p (hd l)) \<and> rev ps @ l = rev passed @ left \<and> (passed \<noteq> [] \<longrightarrow> ps \<noteq> [])"
  by (induction p passed left rule: skip_filtered.induct) (auto split: if_splits)

lemma has_more_cases:
  obtains (idle) "oscap_iterator_has_more p it = (it_left it \<noteq> [], it)" "it_left it \<noteq> [] \<Longrightarrow> p (hd (it_left it))"
  | (skip) passed left ps l where "skip_filtered p passed left = (ps, l)" "filter p left = filter p (it_left it)"
      "rev passed @ left = it_list it" "oscap_iterator_has_more p it = (l \<noteq> [], \<lparr>it_passed = ps, it_left = l\<rparr>)"
proof (cases "it_passed it")
  case Nil
  show ?thesis
  proof (cases "it_left it")
    case Nil
    then show ?thesis using \<open>it_passed it = []\<close> by (intro idle) (simp_all add: oscap_iterator_has_more_def)
  next
    case (Cons x xs)
    note left = this
    show ?thesis
    proof (cases "p x")
      case True
      then show ?thesis using \<open>it_passed it = []\<close> Cons by (intro idle) (simp_all add: oscap_iterator_has_more_def)
    next
      case False
      obtain ps l where s: "skip_filtered p [x] xs = (ps, l)" by fastforce
      then show ?thesis using \<open>it_passed it = []\<close> Cons False
        by (intro skip [OF s]) (simp_all add: oscap_iterator_has_more_def it_list_def)
    qed
  qed
next
  case (Cons y ys)
  obtain ps l where s: "skip_filtered p (it_passed it) (it_left it) = (ps, l)" by fastforce
  then show ?thesis using Cons
    by (intro skip [OF s]) (simp_all add: oscap_iterator_has_more_def it_list_def split: list.split)
qed

lemma has_more_pending:
  assumes "oscap_iterator_has_more p it = (m, it')"
  shows "(m \<longleftrightarrow> it_pending p it \<noteq> []) \<and> it_pending p it' = it_pending p it \<and> it_list it' = it_list it
    \<and> (it_left it' \<noteq> [] \<longrightarrow> p (hd (it_left it')))"
proof (cases rule: has_more_cases [of p it])
  case idle
  then show ?thesis using assms by (cases "it_left it") (auto simp: it_pending_def)
next
  case (skip passed left ps l)
  with skip_filtered_pending [OF skip(1)] assms show ?thesis
    by (cases l) (auto simp: it_pending_def it_list_def)
qed

interpretation list_iterator: iterator "oscap_iterator_has_more p" "oscap_iterator_next p" "it_pending p" for p
proof
  fix s :: "'a oscap_iterator"
  obtain m s' where h: "oscap_iterator_has_more p s = (m, s')" by fastforce
  show "fst (oscap_iterator_has_more p s) \<longleftrightarrow> it_pending p s \<noteq> []" using has_more_pending [OF h] h by simp
  show "it_pending p (snd (oscap_iterator_has_more p s)) = it_pending p s" using has_more_pending [OF h] h by simp
  fix x xs assume "it_pending p s = x # xs"
  with has_more_pending [OF h] have "it_pending p s' = x # xs" and "it_left s' \<noteq> [] \<longrightarrow> p (hd (it_left s'))" by auto
  then obtain l where "it_left s' = x # l" "p x" "filter p l = xs"
    by (cases "it_left s'") (auto simp: it_pending_def)
  then show "\<exists>s''. oscap_iterator_next p (snd (oscap_iterator_has_more p s)) = Some (x, s'') \<and> it_pending p s'' = xs"
    using h by (simp add: oscap_iterator_next_def it_pending_def)
qed

text \<open>So the loop over a new iterator with a filter sees the items of the list that pass it, in order.\<close>

lemma iterate_filter: "list_iterator.drain p (Suc (length xs)) (oscap_iterator_new xs) = Some (filter p xs)"
proof -
  have "it_pending p (oscap_iterator_new xs) = filter p xs" by (simp add: it_pending_def oscap_iterator_new_def)
  then show ?thesis using list_iterator.drain_pending [of p "oscap_iterator_new xs" "Suc (length xs)"] by (simp add: less_Suc_eq_le)
qed

lemma find_nearest_passed: "find_nearest p passed left = Some (ps, l) \<Longrightarrow> ps \<noteq> []"
  by (induction p passed left rule: find_nearest.induct) (auto split: if_splits)

lemma detach_removes:
  assumes "oscap_iterator_next p it = Some (x, it')"
  shows "\<exists>it''. oscap_iterator_detach it' = Some (x, it'') \<and> it_left it'' = it_left it'"
proof -
  obtain ps l where n: "find_nearest p (it_passed it) (it_left it) = Some (ps, l)" "x = hd ps"
    "it' = \<lparr>it_passed = ps, it_left = l\<rparr>" using assms by (auto simp: oscap_iterator_next_def)
  with find_nearest_passed [OF n(1)] show ?thesis by (cases ps) (auto simp: oscap_iterator_detach_def)
qed

end
