(* ===== verification/Oscap_Htable.thy ===== *)
theory Oscap_Htable
  imports Oscap_List "HOL-Library.AList"
begin

text \<open>
  The hash tables of \<open>common/list.c\<close>: buckets of chained items, found by the hash of the key. An item that
  was detached stays in its chain without key and value; iterators still visit it.

  Clients rely on the contract \<open>dictionary\<close>: a table is a map from keys to values that \<open>add\<close> extends
  (and refuses to overwrite) and \<open>detach\<close> shrinks.
\<close>

section \<open>Tables\<close>

datatype 'v hitem = Hitem string 'v | Detached

record 'v oscap_htable =
  ht_table :: "'v hitem list list"
  ht_itemcount :: nat

definition OSCAP_DEFAULT_HSIZE :: nat where
  "OSCAP_DEFAULT_HSIZE = 389"

text \<open>The hash is computed in an \<open>unsigned int\<close>.\<close>

definition oscap_htable_hash :: "string \<Rightarrow> nat \<Rightarrow> nat" where
  "oscap_htable_hash str hsize = unat (foldl (\<lambda>h c. 97 * h + of_nat (of_char c)) (0 :: 32 word) str) mod hsize"

definition oscap_htable_new1 :: "nat \<Rightarrow> 'v oscap_htable" where
  "oscap_htable_new1 hsize = \<lparr>ht_table = replicate hsize [], ht_itemcount = 0\<rparr>"

definition oscap_htable_new :: "'v oscap_htable" where
  "oscap_htable_new = oscap_htable_new1 OSCAP_DEFAULT_HSIZE"

fun chain_lookup :: "'v hitem list \<Rightarrow> string \<Rightarrow> 'v option" where
  "chain_lookup [] key = None"
| "chain_lookup (Hitem k v # items) key = (if strcmp k key = 0 then Some v else chain_lookup items key)"
| "chain_lookup (Detached # items) key = chain_lookup items key"

fun chain_detach :: "'v hitem list \<Rightarrow> string \<Rightarrow> 'v hitem list" where
  "chain_detach [] key = []"
| "chain_detach (Hitem k v # items) key = (if strcmp k key = 0 then Detached # items else Hitem k v # chain_detach items key)"
| "chain_detach (Detached # items) key = Detached # chain_detach items key"

definition ht_bucket :: "'v oscap_htable \<Rightarrow> string \<Rightarrow> nat" where
  "ht_bucket t key = oscap_htable_hash key (length (ht_table t))"

definition oscap_htable_get :: "'v oscap_htable \<Rightarrow> string \<Rightarrow> 'v option" where
  "oscap_htable_get t key = chain_lookup (ht_table t ! ht_bucket t key) key"

definition oscap_htable_add :: "'v oscap_htable \<Rightarrow> string \<Rightarrow> 'v \<Rightarrow> bool \<times> 'v oscap_htable" where
  "oscap_htable_add t key v =
     (if oscap_htable_get t key \<noteq> None then (False, t)
      else (let b = ht_bucket t key in
        (True, \<lparr>ht_table = (ht_table t)[b := Hitem key v # ht_table t ! b], ht_itemcount = ht_itemcount t + 1\<rparr>)))"

definition oscap_htable_detach :: "'v oscap_htable \<Rightarrow> string \<Rightarrow> 'v option \<times> 'v oscap_htable" where
  "oscap_htable_detach t key =
     (case oscap_htable_get t key of
        None \<Rightarrow> (None, t)
      | Some v \<Rightarrow> (let b = ht_bucket t key in
          (Some v, \<lparr>ht_table = (ht_table t)[b := chain_detach (ht_table t ! b) key], ht_itemcount = ht_itemcount t - 1\<rparr>)))"

section \<open>The contract of dictionaries\<close>

locale dictionary =
  fixes empty :: 'd and get :: "'d \<Rightarrow> 'k \<Rightarrow> 'v option" and add :: "'d \<Rightarrow> 'k \<Rightarrow> 'v \<Rightarrow> bool \<times> 'd"
    and detach :: "'d \<Rightarrow> 'k \<Rightarrow> 'v option \<times> 'd" and valid :: "'d \<Rightarrow> bool"
  assumes empty_valid: "valid empty" and get_empty: "get empty k = None"
    and add_refused: "get d k \<noteq> None \<Longrightarrow> add d k v = (False, d)"
    and add_done: "valid d \<Longrightarrow> get d k = None \<Longrightarrow> \<exists>d'. add d k v = (True, d') \<and> valid d' \<and> get d' = (get d)(k := Some v)"
    and detach_done: "valid d \<Longrightarrow> \<exists>d'. detach d k = (get d k, d') \<and> valid d' \<and> get d' = (get d)(k := None)"
begin

text \<open>What most clients do: the key gets a new value, whether it had one or not.\<close>

definition put :: "'d \<Rightarrow> 'k \<Rightarrow> 'v \<Rightarrow> 'd" where
  "put d k v = snd (add (snd (detach d k)) k v)"

lemma get_detach: "valid d \<Longrightarrow> get (snd (detach d k)) = (get d)(k := None)"
  using detach_done [of d k] by auto

lemma valid_detach: "valid d \<Longrightarrow> valid (snd (detach d k))"
  using detach_done [of d k] by auto

lemma valid_add: "valid d \<Longrightarrow> valid (snd (add d k v))"
  using add_refused [of d k v] add_done [of d k v] by (cases "get d k") auto

lemma get_add: "valid d \<Longrightarrow> get (snd (add d k v)) = (if get d k = None then (get d)(k := Some v) else get d)"
  using add_refused [of d k v] add_done [of d k v] by (cases "get d k") auto

lemma fst_add: "valid d \<Longrightarrow> fst (add d k v) \<longleftrightarrow> get d k = None"
  using add_refused [of d k v] add_done [of d k v] by (cases "get d k") auto

lemma get_put: "valid d \<Longrightarrow> get (put d k v) = (get d)(k := Some v)"
  by (auto simp: put_def get_add valid_detach get_detach)

lemma valid_put: "valid d \<Longrightarrow> valid (put d k v)"
  by (simp add: put_def valid_add valid_detach)

end

section \<open>Hash tables are dictionaries\<close>

fun live :: "'v hitem list \<Rightarrow> (string \<times> 'v) list" where
  "live [] = []"
| "live (Hitem k v # items) = (k, v) # live items"
| "live (Detached # items) = live items"

definition htable_ok :: "'v oscap_htable \<Rightarrow> bool" where
  "htable_ok t \<longleftrightarrow> ht_table t \<noteq> []
     \<and> (\<forall>b < length (ht_table t). distinct (map fst (live (ht_table t ! b)))
          \<and> (\<forall>(k, v)\<in>set (live (ht_table t ! b)). ht_bucket t k = b))
     \<and> ht_itemcount t = sum_list (map (\<lambda>b. length (live b)) (ht_table t))"

lemma chain_lookup_live: "chain_lookup items key = map_of (live items) key"
  by (induction items rule: live.induct) auto

lemma live_chain_detach:
  "distinct (map fst (live items)) \<Longrightarrow> live (chain_detach items key) = filter (\<lambda>(k, v). k \<noteq> key) (live items)"
  by (induction items key rule: chain_detach.induct) (force intro: filter_True [symmetric])+

lemma ht_bucket_less: "ht_table t \<noteq> [] \<Longrightarrow> ht_bucket t key < length (ht_table t)"
  by (simp add: ht_bucket_def oscap_htable_hash_def)

lemma ht_bucket_upd [simp]: "ht_bucket \<lparr>ht_table = (ht_table t)[b := c], ht_itemcount = n\<rparr> key = ht_bucket t key"
  by (simp add: ht_bucket_def)

lemma htable_get_upd:
  assumes "ht_table t \<noteq> []"
  shows "oscap_htable_get \<lparr>ht_table = (ht_table t)[ht_bucket t k := c], ht_itemcount = n\<rparr> key
    = (if ht_bucket t key = ht_bucket t k then chain_lookup c key else oscap_htable_get t key)"
  using ht_bucket_less [OF assms] by (simp add: oscap_htable_get_def nth_list_update)

lemma sum_list_update_nat:
  "b < length xs \<Longrightarrow> sum_list (map f (xs[b := c])) = sum_list (map f xs) + f c - (f (xs ! b) :: nat)"
  by (simp add: map_update sum_list_update)

lemma htable_ok_upd:
  assumes ok: "htable_ok t" and c: "distinct (map fst (live c))" "\<forall>(k', v)\<in>set (live c). ht_bucket t k' = ht_bucket t k"
    and n: "n + length (live (ht_table t ! ht_bucket t k)) = ht_itemcount t + length (live c)"
  shows "htable_ok \<lparr>ht_table = (ht_table t)[ht_bucket t k := c], ht_itemcount = n\<rparr>"
proof -
  have b: "ht_bucket t k < length (ht_table t)" using ok ht_bucket_less by (auto simp: htable_ok_def)
  have "n = sum_list (map (\<lambda>b. length (live b)) ((ht_table t)[ht_bucket t k := c]))"
    using sum_list_update_nat [OF b, of "\<lambda>b. length (live b)" c] n ok by (simp add: htable_ok_def)
  with ok c b show ?thesis by (auto simp: htable_ok_def nth_list_update)
qed

lemma htable_bucket_ok:
  assumes "htable_ok t"
  shows "distinct (map fst (live (ht_table t ! ht_bucket t k)))"
    and "\<forall>(k', v)\<in>set (live (ht_table t ! ht_bucket t k)). ht_bucket t k' = ht_bucket t k"
  using assms ht_bucket_less [of t k] by (auto simp: htable_ok_def)

lemma live_le_itemcount:
  assumes "htable_ok t"
  shows "length (live (ht_table t ! ht_bucket t k)) \<le> ht_itemcount t"
proof -
  have "ht_table t ! ht_bucket t k \<in> set (ht_table t)"
    using assms ht_bucket_less [of t k] by (simp add: htable_ok_def)
  then have "length (live (ht_table t ! ht_bucket t k)) \<in> set (map (\<lambda>b. length (live b)) (ht_table t))" by auto
  from member_le_sum_list [OF this] assms show ?thesis by (simp add: htable_ok_def)
qed

lemma length_filter_key:
  "distinct (map fst xs) \<Longrightarrow> (k, v) \<in> set xs \<Longrightarrow> length (filter (\<lambda>(k', v). k' \<noteq> k) xs) + 1 = length xs"
proof (induction xs)
  case (Cons x xs)
  show ?case
  proof (cases "fst x = k")
    case True
    with Cons.prems(1) have "\<forall>y\<in>set xs. fst y \<noteq> k" by (metis distinct.simps(2) image_eqI list.map(2) set_map)
    then have "filter (\<lambda>(k', v). k' \<noteq> k) xs = xs" by (intro filter_True) auto
    with True show ?thesis by (simp add: case_prod_unfold)
  next
    case False
    with Cons show ?thesis by (auto simp: case_prod_unfold)
  qed
qed simp

lemma map_of_filter_key: "map_of (filter (\<lambda>(k', v). k' \<noteq> k) xs) k1 = (if k1 = k then None else map_of xs k1)"
  by (induction xs) auto

interpretation htable_dictionary:
  dictionary "oscap_htable_new :: 'v oscap_htable" oscap_htable_get oscap_htable_add oscap_htable_detach htable_ok
proof
  show "htable_ok (oscap_htable_new :: 'v oscap_htable)"
    by (simp add: htable_ok_def oscap_htable_new_def oscap_htable_new1_def OSCAP_DEFAULT_HSIZE_def sum_list_replicate)
  show "oscap_htable_get (oscap_htable_new :: 'v oscap_htable) k = None" for k
    using ht_bucket_less [of "oscap_htable_new :: 'v oscap_htable" k]
    by (simp add: oscap_htable_get_def oscap_htable_new_def oscap_htable_new1_def OSCAP_DEFAULT_HSIZE_def)
next
  fix t :: "'v oscap_htable" and k :: string and v :: 'v
  show "oscap_htable_get t k \<noteq> None \<Longrightarrow> oscap_htable_add t k v = (False, t)"
    by (simp add: oscap_htable_add_def)
next
  fix t :: "'v oscap_htable" and k :: string and v :: 'v
  assume ok: "htable_ok t" and none: "oscap_htable_get t k = None"
  then have ne: "ht_table t \<noteq> []" by (simp add: htable_ok_def)
  note bucket = htable_bucket_ok [OF ok, of k]
  have fresh: "k \<notin> fst ` set (live (ht_table t ! ht_bucket t k))"
    using none by (auto simp: oscap_htable_get_def chain_lookup_live map_of_eq_None_iff)
  let ?c = "Hitem k v # ht_table t ! ht_bucket t k"
  have "htable_ok \<lparr>ht_table = (ht_table t)[ht_bucket t k := ?c], ht_itemcount = ht_itemcount t + 1\<rparr>"
    by (rule htable_ok_upd [OF ok]) (use bucket fresh in auto)
  moreover have "oscap_htable_get \<lparr>ht_table = (ht_table t)[ht_bucket t k := ?c], ht_itemcount = ht_itemcount t + 1\<rparr>
      = (oscap_htable_get t)(k := Some v)"
    unfolding htable_get_upd [OF ne] by (rule ext) (auto simp: oscap_htable_get_def)
  ultimately show "\<exists>t'. oscap_htable_add t k v = (True, t') \<and> htable_ok t' \<and> oscap_htable_get t' = (oscap_htable_get t)(k := Some v)"
    using none by (simp add: oscap_htable_add_def Let_def)
next
  fix t :: "'v oscap_htable" and k :: string
  assume ok: "htable_ok t"
  then have ne: "ht_table t \<noteq> []" by (simp add: htable_ok_def)
  note bucket = htable_bucket_ok [OF ok, of k]
  show "\<exists>t'. oscap_htable_detach t k = (oscap_htable_get t k, t') \<and> htable_ok t' \<and> oscap_htable_get t' = (oscap_htable_get t)(k := None)"
  proof (cases "oscap_htable_get t k")
    case None
    then have "(oscap_htable_get t)(k := None) = oscap_htable_get t" by auto
    with None ok show ?thesis by (simp add: oscap_htable_detach_def)
  next
    case (Some v)
    let ?items = "live (ht_table t ! ht_bucket t k)"
    let ?c = "chain_detach (ht_table t ! ht_bucket t k) k"
    have c: "live ?c = filter (\<lambda>(k', v). k' \<noteq> k) ?items" by (rule live_chain_detach [OF bucket(1)])
    have member: "(k, v) \<in> set ?items"
      using Some by (auto simp: oscap_htable_get_def chain_lookup_live dest: map_of_SomeD)
    have "length (live ?c) + 1 = length ?items"
      unfolding c by (rule length_filter_key [OF bucket(1) member])
    moreover have "length ?items \<le> ht_itemcount t" by (rule live_le_itemcount [OF ok])
    ultimately have "htable_ok \<lparr>ht_table = (ht_table t)[ht_bucket t k := ?c], ht_itemcount = ht_itemcount t - 1\<rparr>"
      by (intro htable_ok_upd [OF ok]) (use bucket in \<open>auto simp: c distinct_map_filter\<close>)
    moreover have "oscap_htable_get \<lparr>ht_table = (ht_table t)[ht_bucket t k := ?c], ht_itemcount = ht_itemcount t - 1\<rparr>
        = (oscap_htable_get t)(k := None)"
      unfolding htable_get_upd [OF ne]
      by (rule ext) (auto simp: oscap_htable_get_def chain_lookup_live c map_of_filter_key)
    ultimately show ?thesis using Some by (simp add: oscap_htable_detach_def Let_def)
  qed
qed

text \<open>
  The values are pointers: when the object behind a value of the table changes, the table does so in place.
\<close>

fun chain_changed :: "'v hitem list \<Rightarrow> string \<Rightarrow> 'v \<Rightarrow> 'v hitem list" where
  "chain_changed [] key v = []"
| "chain_changed (Hitem k u # items) key v = (if strcmp k key = 0 then Hitem k v # items else Hitem k u # chain_changed items key v)"
| "chain_changed (Detached # items) key v = Detached # chain_changed items key v"

definition htable_changed :: "'v oscap_htable \<Rightarrow> string \<Rightarrow> 'v \<Rightarrow> 'v oscap_htable" where
  "htable_changed t key v =
     \<lparr>ht_table = (ht_table t)[ht_bucket t key := chain_changed (ht_table t ! ht_bucket t key) key v], ht_itemcount = ht_itemcount t\<rparr>"

lemma live_chain_changed: "live (chain_changed items key v) = AList.update key v (live items) \<or> chain_lookup items key = None"
  by (induction items key v rule: chain_changed.induct) auto

lemma chain_changed_keys: "map fst (live (chain_changed items key v)) = map fst (live items)"
  by (induction items key v rule: chain_changed.induct) auto

lemma htable_changed_ok:
  assumes "htable_ok t" and "oscap_htable_get t key \<noteq> None"
  shows "htable_ok (htable_changed t key v)" and "oscap_htable_get (htable_changed t key v) = (oscap_htable_get t)(key := Some v)"
proof -
  let ?items = "ht_table t ! ht_bucket t key"
  note bucket = htable_bucket_ok [OF assms(1), of key]
  have keys: "map fst (live (chain_changed ?items key v)) = map fst (live ?items)" by (rule chain_changed_keys)
  have "\<forall>k\<in>fst ` set (live (chain_changed ?items key v)). ht_bucket t k = ht_bucket t key"
    using bucket(2) arg_cong [OF keys, of set] by auto
  then show "htable_ok (htable_changed t key v)"
    unfolding htable_changed_def using bucket(1) keys map_eq_imp_length_eq [OF keys]
    by (intro htable_ok_upd [OF assms(1)]) auto
  have ne: "ht_table t \<noteq> []" using assms(1) by (simp add: htable_ok_def)
  have "live (chain_changed ?items key v) = AList.update key v (live ?items)"
    using live_chain_changed [of ?items key v] assms(2) by (auto simp: oscap_htable_get_def)
  then show "oscap_htable_get (htable_changed t key v) = (oscap_htable_get t)(key := Some v)"
    unfolding htable_changed_def htable_get_upd [OF ne]
    by (intro ext) (auto simp: oscap_htable_get_def chain_lookup_live update_conv)
qed

section \<open>Iterators over hash tables\<close>

text \<open>
  The state of an iterator: the items behind the current one in its chain (None if there is no current
  item), and the line it is at. \<open>has_more\<close> moves the line to the one before the next chain that is not
  empty, from where \<open>next\<close> finds it; \<open>next\<close> fails (None) where the code asserts.
\<close>

record 'v oscap_htable_iterator =
  hit_table :: "'v hitem list list"
  hit_cur :: "'v hitem list option"
  hit_hpos :: nat

definition oscap_htable_iterator_new :: "'v oscap_htable \<Rightarrow> 'v oscap_htable_iterator" where
  "oscap_htable_iterator_new t = \<lparr>hit_table = ht_table t, hit_cur = None, hit_hpos = 0\<rparr>"

definition oscap_htable_iterator_reset :: "'v oscap_htable_iterator \<Rightarrow> 'v oscap_htable_iterator" where
  "oscap_htable_iterator_reset hit = hit\<lparr>hit_cur := None, hit_hpos := 0\<rparr>"

text \<open>The loop over the lines from \<open>i\<close> on to one that has items.\<close>

fun line_with_items :: "nat \<Rightarrow> 'a list list \<Rightarrow> nat option" where
  "line_with_items i [] = None"
| "line_with_items i (b # bs) = (if b \<noteq> [] then Some i else line_with_items (Suc i) bs)"

definition oscap_htable_iterator_has_more :: "'v oscap_htable_iterator \<Rightarrow> bool \<times> 'v oscap_htable_iterator" where
  "oscap_htable_iterator_has_more hit =
     (let scan = (\<lambda>i. case line_with_items i (drop i (hit_table hit)) of
                        Some j \<Rightarrow> (True, if j \<noteq> hit_hpos hit then hit\<lparr>hit_hpos := j - 1\<rparr> else hit)
                      | None \<Rightarrow> (False, hit\<lparr>hit_hpos := max i (length (hit_table hit))\<rparr>))
      in case hit_cur hit of
           None \<Rightarrow> scan (hit_hpos hit)
         | Some rest \<Rightarrow>
             if rest \<noteq> [] then (True, hit)
             else if hit_hpos hit + 1 \<ge> length (hit_table hit) then (False, hit)
             else scan (hit_hpos hit + 1))"

definition oscap_htable_iterator_next :: "'v oscap_htable_iterator \<Rightarrow> ('v hitem \<times> 'v oscap_htable_iterator) option" where
  "oscap_htable_iterator_next hit =
     (let scan = (\<lambda>i. case line_with_items i (drop i (hit_table hit)) of
                        Some j \<Rightarrow> (case hit_table hit ! j of
                            x # rest \<Rightarrow> Some (x, hit\<lparr>hit_cur := Some rest, hit_hpos := j\<rparr>)
                          | [] \<Rightarrow> None)
                      | None \<Rightarrow> None)
      in case hit_cur hit of
           None \<Rightarrow> scan (hit_hpos hit)
         | Some (x # rest) \<Rightarrow> Some (x, hit\<lparr>hit_cur := Some rest\<rparr>)
         | Some [] \<Rightarrow> if hit_hpos hit + 1 \<ge> length (hit_table hit) then None else scan (hit_hpos hit + 1))"

definition hit_pending :: "'v oscap_htable_iterator \<Rightarrow> 'v hitem list" where
  "hit_pending hit =
     (case hit_cur hit of
        None \<Rightarrow> concat (drop (hit_hpos hit) (hit_table hit))
      | Some rest \<Rightarrow> rest @ concat (drop (Suc (hit_hpos hit)) (hit_table hit)))"

lemma line_with_items_None: "line_with_items i bs = None \<longleftrightarrow> concat bs = []"
  by (induction i bs rule: line_with_items.induct) auto

lemma line_with_items_nonempty: "line_with_items i bs = Some j \<Longrightarrow> concat bs \<noteq> []"
  by (metis line_with_items_None option.distinct(1))

lemma line_with_items_Some:
  "line_with_items i bs = Some j \<Longrightarrow> i \<le> j \<and> j - i < length bs \<and> bs ! (j - i) \<noteq> [] \<and> concat bs = concat (drop (j - i) bs)"
proof (induction i bs rule: line_with_items.induct)
  case (2 i b bs)
  show ?case
  proof (cases "b = []")
    case True
    with 2 have "Suc i \<le> j \<and> j - Suc i < length bs \<and> bs ! (j - Suc i) \<noteq> [] \<and> concat bs = concat (drop (j - Suc i) bs)" by simp
    moreover from this have "j - i = Suc (j - Suc i)" by arith
    ultimately show ?thesis using True by simp
  qed (use 2 in auto)
qed simp

text \<open>The scan for the next line, and what is pending from it.\<close>

lemma scan_line:
  assumes "line_with_items i (drop i bs) = Some j"
  shows "i \<le> j \<and> j < length bs \<and> bs ! j \<noteq> [] \<and> concat (drop i bs) = concat (drop j bs)"
  using line_with_items_Some [OF assms] by (auto simp: nth_drop)

lemma concat_drop_between:
  assumes "concat (drop i bs) = concat (drop j bs)" and "i \<le> m" and "m \<le> j"
  shows "concat (drop m bs) = concat (drop j bs)"
proof -
  have split: "concat (drop a bs) = concat (take (b - a) (drop a bs)) @ concat (drop b bs)" if "a \<le> b" for a b
    using that by (metis append_take_drop_id concat_append drop_drop le_add_diff_inverse2)
  have "length (concat (drop j bs)) \<le> length (concat (drop m bs))"
    and "length (concat (drop m bs)) \<le> length (concat (drop i bs))"
    using split [OF assms(3)] split [OF assms(2)] by (metis le_add2 length_append)+
  with assms(1) have "length (concat (drop m bs)) = length (concat (drop j bs))" by simp
  with split [OF assms(3)] show ?thesis by (metis append_self_conv2 length_0_conv length_append self_append_conv2 add_cancel_left_left)
qed

lemma hit_has_more:
  "fst (oscap_htable_iterator_has_more s) \<longleftrightarrow> hit_pending s \<noteq> []"
  "hit_pending (snd (oscap_htable_iterator_has_more s)) = hit_pending s"
proof -
  have scan: "hit_pending (s\<lparr>hit_hpos := j - 1\<rparr>) = hit_pending s"
    if cur: "hit_cur s = None \<and> j \<noteq> hit_hpos s \<and> i = hit_hpos s \<or> hit_cur s = Some [] \<and> i = hit_hpos s + 1"
      and l: "line_with_items i (drop i (hit_table s)) = Some j" for i j
  proof (cases "hit_cur s")
    case None
    have "hit_hpos s \<le> j - 1" using cur None scan_line [OF l] by auto
    from concat_drop_between [OF _ this, of "hit_table s" j] scan_line [OF l] cur None
    show ?thesis by (auto simp: hit_pending_def)
  next
    case (Some rest)
    then show ?thesis using cur scan_line [OF l] by (auto simp: hit_pending_def)
  qed
  show "fst (oscap_htable_iterator_has_more s) \<longleftrightarrow> hit_pending s \<noteq> []"
  proof (cases "hit_cur s")
    case None
    then show ?thesis
      by (auto simp: oscap_htable_iterator_has_more_def hit_pending_def line_with_items_None
          dest: line_with_items_nonempty split: option.split)
  next
    case (Some rest)
    then show ?thesis
      by (auto simp: oscap_htable_iterator_has_more_def hit_pending_def line_with_items_None
          dest: line_with_items_nonempty split: option.split)
  qed
  show "hit_pending (snd (oscap_htable_iterator_has_more s)) = hit_pending s"
    using scan by (auto simp: oscap_htable_iterator_has_more_def Let_def split: option.splits)
      (auto simp: hit_pending_def line_with_items_None)
qed

lemma hit_next:
  assumes "hit_pending s = x # xs"
  shows "\<exists>s'. oscap_htable_iterator_next s = Some (x, s') \<and> hit_pending s' = xs"
proof -
  have scan: "\<exists>j rest. line_with_items i (drop i (hit_table s)) = Some j \<and> hit_table s ! j = x # rest
      \<and> xs = rest @ concat (drop (Suc j) (hit_table s))" if "concat (drop i (hit_table s)) = x # xs" for i
  proof (cases "line_with_items i (drop i (hit_table s))")
    case None
    then show ?thesis using that by (simp add: line_with_items_None)
  next
    case (Some j)
    note l = scan_line [OF Some]
    then have "x # xs = hit_table s ! j @ concat (drop (Suc j) (hit_table s))"
      using that by (metis Cons_nth_drop_Suc concat.simps(2))
    with l Some show ?thesis by (cases "hit_table s ! j") auto
  qed
  show ?thesis
  proof (cases "hit_cur s")
    case None
    with assms scan [of "hit_hpos s"] show ?thesis
      by (auto simp: hit_pending_def oscap_htable_iterator_next_def Let_def)
  next
    case (Some rest)
    show ?thesis
    proof (cases rest)
      case Nil
      with Some assms have p: "concat (drop (Suc (hit_hpos s)) (hit_table s)) = x # xs" by (simp add: hit_pending_def)
      then have "hit_hpos s + 1 < length (hit_table s)" by (metis Suc_eq_plus1 concat.simps(1) drop_all leI list.distinct(1))
      with Nil Some scan [OF p] show ?thesis
        by (auto simp: hit_pending_def oscap_htable_iterator_next_def Let_def)
    next
      case (Cons y ys)
      with Some assms show ?thesis by (auto simp: hit_pending_def oscap_htable_iterator_next_def Let_def)
    qed
  qed
qed

interpretation htable_iterator: iterator oscap_htable_iterator_has_more oscap_htable_iterator_next hit_pending
  by unfold_locales (auto simp: hit_has_more intro: hit_next)

text \<open>So the loop over a new iterator sees every item of the table, with those that were detached.\<close>

lemma iterate_htable:
  "htable_iterator.drain (Suc (length (concat (ht_table t)))) (oscap_htable_iterator_new t) = Some (concat (ht_table t))"
proof -
  have "hit_pending (oscap_htable_iterator_new t) = concat (ht_table t)"
    by (simp add: hit_pending_def oscap_htable_iterator_new_def)
  then show ?thesis by (metis htable_iterator.drain_pending lessI)
qed

end
