(* ===== verification/Oscap_Tsort.thy ===== *)
theory Oscap_Tsort
  imports Oscap_List
begin

text \<open>
  The topological sort of \<open>common/tsort.c\<close>: a depth first search that appends a node to the result after
  the nodes it depends on, and stops at a node that is still on the stack, which it then returns.

  The recursion is bounded by a fuel: with more fuel than there are nodes it always returns.
\<close>

section \<open>The search\<close>

record 'a oscap_tsort_context =
  ts_visited :: "'a list"
  ts_cur_stack :: "'a list"
  ts_result :: "'a list"

definition oscap_tsort_context_new :: "'a oscap_tsort_context" where
  "oscap_tsort_context_new = \<lparr>ts_visited = [], ts_cur_stack = [], ts_result = []\<rparr>"

fun oscap_tsort_visit ::
      "nat \<Rightarrow> ('a \<Rightarrow> 'a list) \<Rightarrow> ('a \<Rightarrow> 'a \<Rightarrow> bool) \<Rightarrow> 'a \<Rightarrow> 'a oscap_tsort_context \<Rightarrow> (bool \<times> 'a oscap_tsort_context) option"
  and oscap_tsort_visit_all ::
      "nat \<Rightarrow> ('a \<Rightarrow> 'a list) \<Rightarrow> ('a \<Rightarrow> 'a \<Rightarrow> bool) \<Rightarrow> 'a list \<Rightarrow> 'a oscap_tsort_context \<Rightarrow> (bool \<times> 'a oscap_tsort_context) option"
where
  "oscap_tsort_visit 0 edge_func cmp node ctx = None"
| "oscap_tsort_visit (Suc fuel) edge_func cmp node ctx =
     (if oscap_list_contains cmp (ts_cur_stack ctx) node then Some (False, ctx)
      else if oscap_list_contains cmp (ts_visited ctx) node then Some (True, ctx)
      else
        (let ctx1 = ctx\<lparr>ts_visited := snd (oscap_list_add (ts_visited ctx) (Some node)),
                        ts_cur_stack := snd (oscap_list_add (ts_cur_stack ctx) (Some node))\<rparr>
         in case oscap_tsort_visit_all fuel edge_func cmp (edge_func node) ctx1 of
              None \<Rightarrow> None
            | Some (ret, ctx2) \<Rightarrow>
                (let ctx3 = (if ret then ctx2\<lparr>ts_cur_stack := snd (oscap_list_pop (ts_cur_stack ctx2))\<rparr> else ctx2)
                 in Some (ret, ctx3\<lparr>ts_result := snd (oscap_list_add (ts_result ctx3) (Some node))\<rparr>))))"
| "oscap_tsort_visit_all fuel edge_func cmp [] ctx = Some (True, ctx)"
| "oscap_tsort_visit_all fuel edge_func cmp (node # nodes) ctx =
     (case oscap_tsort_visit fuel edge_func cmp node ctx of
        None \<Rightarrow> None
      | Some (False, ctx') \<Rightarrow> Some (False, ctx')
      | Some (True, ctx') \<Rightarrow> oscap_tsort_visit_all fuel edge_func cmp nodes ctx')"

definition oscap_tsort :: "nat \<Rightarrow> 'a list \<Rightarrow> ('a \<Rightarrow> 'a list) \<Rightarrow> ('a \<Rightarrow> 'a \<Rightarrow> bool) \<Rightarrow> (bool \<times> 'a list) option" where
  "oscap_tsort fuel input edge_func cmp =
     (case oscap_tsort_visit_all fuel edge_func cmp input oscap_tsort_context_new of
        None \<Rightarrow> None
      | Some (ret, ctx) \<Rightarrow> Some (ret, if ret then ts_result ctx else ts_cur_stack ctx))"

section \<open>What the search keeps\<close>

text \<open>
  Every node of a list comes after the nodes it depends on; a list of nodes each of which depends on the
  next; and the state of the search, with the path on the stack and the visited nodes done or on the stack.
\<close>

definition topological :: "('a \<Rightarrow> 'a list) \<Rightarrow> 'a list \<Rightarrow> bool" where
  "topological edge_func xs \<longleftrightarrow> distinct xs \<and> (\<forall>i<length xs. set (edge_func (xs ! i)) \<subseteq> set (take i xs))"

fun dep_path :: "('a \<Rightarrow> 'a list) \<Rightarrow> 'a list \<Rightarrow> bool" where
  "dep_path edge_func (x # y # xs) \<longleftrightarrow> y \<in> set (edge_func x) \<and> dep_path edge_func (y # xs)"
| "dep_path edge_func _ \<longleftrightarrow> True"

definition search_inv :: "('a \<Rightarrow> 'a list) \<Rightarrow> 'a oscap_tsort_context \<Rightarrow> bool" where
  "search_inv edge_func ctx \<longleftrightarrow>
     topological edge_func (ts_result ctx) \<and> distinct (ts_cur_stack ctx) \<and> dep_path edge_func (ts_cur_stack ctx)
     \<and> set (ts_visited ctx) = set (ts_result ctx) \<union> set (ts_cur_stack ctx)
     \<and> set (ts_result ctx) \<inter> set (ts_cur_stack ctx) = {}"

text \<open>The stack closes a cycle: its last node depends on a node of it.\<close>

definition closes_cycle :: "('a \<Rightarrow> 'a list) \<Rightarrow> 'a list \<Rightarrow> bool" where
  "closes_cycle edge_func xs \<longleftrightarrow> xs \<noteq> [] \<and> dep_path edge_func xs \<and> (\<exists>x\<in>set xs. x \<in> set (edge_func (last xs)))"

text \<open>The nodes the search may go to next: all, or those the top of the stack depends on.\<close>

definition next_nodes :: "('a \<Rightarrow> 'a list) \<Rightarrow> 'a oscap_tsort_context \<Rightarrow> 'a set" where
  "next_nodes edge_func ctx = (if ts_cur_stack ctx = [] then UNIV else set (edge_func (last (ts_cur_stack ctx))))"

lemma dep_path_snoc: "dep_path E (xs @ [x]) \<longleftrightarrow> dep_path E xs \<and> (xs = [] \<or> x \<in> set (E (last xs)))"
  by (induction E xs rule: dep_path.induct) auto

lemma topological_snoc:
  "topological E (xs @ [x]) \<longleftrightarrow> topological E xs \<and> x \<notin> set xs \<and> set (E x) \<subseteq> set xs"
  by (auto simp: topological_def nth_append less_Suc_eq)

definition visit_post :: "('a \<Rightarrow> 'a list) \<Rightarrow> 'a set \<Rightarrow> 'a oscap_tsort_context \<Rightarrow> (bool \<times> 'a oscap_tsort_context) \<Rightarrow> bool" where
  "visit_post E nodes ctx r \<longleftrightarrow>
     (case r of (ret, ctx') \<Rightarrow>
        (if ret then search_inv E ctx' \<and> ts_cur_stack ctx' = ts_cur_stack ctx
                     \<and> set (ts_result ctx) \<union> nodes \<subseteq> set (ts_result ctx')
         else closes_cycle E (ts_cur_stack ctx')))"

lemma search_inv_push:
  assumes "search_inv E ctx" and "node \<in> next_nodes E ctx" and "node \<notin> set (ts_visited ctx)"
  shows "search_inv E (ctx\<lparr>ts_visited := ts_visited ctx @ [node], ts_cur_stack := ts_cur_stack ctx @ [node]\<rparr>)"
  using assms by (auto simp: search_inv_def dep_path_snoc next_nodes_def split: if_splits)

lemma search_inv_done:
  assumes "search_inv E ctx" and "ts_cur_stack ctx = stack @ [node]" and "set (E node) \<subseteq> set (ts_result ctx)"
  shows "search_inv E (ctx\<lparr>ts_cur_stack := stack, ts_result := ts_result ctx @ [node]\<rparr>)"
  using assms by (auto simp: search_inv_def dep_path_snoc topological_snoc)

lemma visit_on_stack:
  assumes "search_inv E ctx" and "node \<in> next_nodes E ctx" and "node \<in> set (ts_cur_stack ctx)"
  shows "visit_post E nodes ctx (False, ctx)"
proof -
  have "ts_cur_stack ctx \<noteq> []" using assms(3) by auto
  with assms show ?thesis by (auto simp: visit_post_def closes_cycle_def search_inv_def next_nodes_def)
qed

lemma visit_visited:
  assumes "search_inv E ctx" and "node \<notin> set (ts_cur_stack ctx)" and "node \<in> set (ts_visited ctx)"
  shows "visit_post E {node} ctx (True, ctx)"
  using assms by (auto simp: visit_post_def search_inv_def)

lemma visit_new:
  assumes "node \<notin> set (ts_cur_stack ctx)" and "node \<notin> set (ts_visited ctx)"
  shows "oscap_tsort_visit (Suc fuel) E (=) node ctx =
    (case oscap_tsort_visit_all fuel E (=) (E node)
        (ctx\<lparr>ts_visited := ts_visited ctx @ [node], ts_cur_stack := ts_cur_stack ctx @ [node]\<rparr>) of
       None \<Rightarrow> None
     | Some (ret, ctx2) \<Rightarrow>
         Some (ret, ctx2\<lparr>ts_cur_stack := (if ret then butlast (ts_cur_stack ctx2) else ts_cur_stack ctx2),
                        ts_result := ts_result ctx2 @ [node]\<rparr>))"
proof -
  have "\<not> oscap_list_contains (=) (ts_cur_stack ctx) node" "\<not> oscap_list_contains (=) (ts_visited ctx) node"
    using assms by auto
  then show ?thesis
    by (simp only: oscap_tsort_visit.simps if_False Let_def oscap_list_add_Some oscap_list_pop_butlast snd_conv)
      (auto split: option.split)
qed

lemma visit_correct:
  "oscap_tsort_visit fuel E (=) node ctx = Some r \<Longrightarrow> search_inv E ctx \<Longrightarrow> node \<in> next_nodes E ctx \<Longrightarrow>
     visit_post E {node} ctx r"
  "oscap_tsort_visit_all fuel E (=) nodes ctx = Some r \<Longrightarrow> search_inv E ctx \<Longrightarrow> set nodes \<subseteq> next_nodes E ctx \<Longrightarrow>
     visit_post E (set nodes) ctx r"
proof (induction fuel E "(=) :: 'a \<Rightarrow> 'a \<Rightarrow> bool" node ctx and fuel E "(=) :: 'a \<Rightarrow> 'a \<Rightarrow> bool" nodes ctx arbitrary: r and r
    rule: oscap_tsort_visit_oscap_tsort_visit_all.induct)
  case (2 fuel E node ctx)
  show ?case
  proof (cases "node \<in> set (ts_cur_stack ctx) \<or> node \<in> set (ts_visited ctx)")
    case True
    then have "r = (node \<notin> set (ts_cur_stack ctx), ctx)" using "2.prems"(1) by (simp split: if_splits)
    then show ?thesis
      using True visit_on_stack [OF "2.prems"(2,3)] visit_visited [OF "2.prems"(2)]
      by (cases "node \<in> set (ts_cur_stack ctx)") simp_all
  next
    case False
    let ?ctx1 = "ctx\<lparr>ts_visited := ts_visited ctx @ [node], ts_cur_stack := ts_cur_stack ctx @ [node]\<rparr>"
    have new: "node \<notin> set (ts_cur_stack ctx)" "node \<notin> set (ts_visited ctx)" using False by auto
    note run = "2.prems"(1) [unfolded visit_new [OF new]]
    obtain ret ctx2 where all: "oscap_tsort_visit_all fuel E (=) (E node) ?ctx1 = Some (ret, ctx2)"
      using run by (cases "oscap_tsort_visit_all fuel E (=) (E node) ?ctx1") auto
    have r: "r = (ret, ctx2\<lparr>ts_cur_stack := (if ret then butlast (ts_cur_stack ctx2) else ts_cur_stack ctx2),
        ts_result := ts_result ctx2 @ [node]\<rparr>)"
      using run unfolding all by simp
    have "search_inv E ?ctx1" by (rule search_inv_push [OF "2.prems"(2,3) new(2)])
    moreover have "set (E node) \<subseteq> next_nodes E ?ctx1" by (simp add: next_nodes_def)
    moreover have "\<not> oscap_list_contains (=) (ts_cur_stack ctx) node" "\<not> oscap_list_contains (=) (ts_visited ctx) node"
      using new by simp_all
    ultimately have post: "visit_post E (set (E node)) ?ctx1 (ret, ctx2)"
      by (intro "2.hyps") (simp_all add: all)
    show ?thesis
    proof (cases ret)
      case True
      then have inv: "search_inv E ctx2" "ts_cur_stack ctx2 = ts_cur_stack ctx @ [node]"
          "set (ts_result ctx) \<union> set (E node) \<subseteq> set (ts_result ctx2)"
        using post by (auto simp: visit_post_def)
      then have "search_inv E (ctx2\<lparr>ts_cur_stack := ts_cur_stack ctx, ts_result := ts_result ctx2 @ [node]\<rparr>)"
        using search_inv_done [OF inv(1,2)] by blast
      with inv show ?thesis by (auto simp: visit_post_def r True)
    next
      case ret: False
      then show ?thesis using post by (simp add: visit_post_def r)
    qed
  qed
next
  case (4 fuel E node nodes ctx)
  then obtain ret ctx1 where v: "oscap_tsort_visit fuel E (=) node ctx = Some (ret, ctx1)"
    by (auto split: option.splits)
  have post: "visit_post E {node} ctx (ret, ctx1)" using "4.hyps"(1) [OF v] "4.prems" by simp
  show ?case
  proof (cases ret)
    case True
    with post have inv: "search_inv E ctx1" "ts_cur_stack ctx1 = ts_cur_stack ctx"
        "insert node (set (ts_result ctx)) \<subseteq> set (ts_result ctx1)" by (auto simp: visit_post_def)
    have "next_nodes E ctx1 = next_nodes E ctx" using inv(2) by (simp add: next_nodes_def)
    then have "visit_post E (set nodes) ctx1 r"
      using "4.hyps"(2) [OF v, of True ctx1] "4.prems" v True inv(1) by simp
    with inv show ?thesis by (auto simp: visit_post_def split: prod.splits if_splits)
  next
    case False
    then show ?thesis using "4.prems" v post by (auto simp: visit_post_def)
  qed
qed (auto simp: visit_post_def)

section \<open>Enough fuel\<close>

text \<open>The nodes that are not on the stack bound the depth of the recursion.\<close>

lemma visit_keeps_stack:
  "oscap_tsort_visit fuel E (=) node ctx = Some (True, ctx') \<Longrightarrow> ts_cur_stack ctx' = ts_cur_stack ctx"
  "oscap_tsort_visit_all fuel E (=) nodes ctx = Some (True, ctx') \<Longrightarrow> ts_cur_stack ctx' = ts_cur_stack ctx"
proof (induction fuel E "(=) :: 'a \<Rightarrow> 'a \<Rightarrow> bool" node ctx and fuel E "(=) :: 'a \<Rightarrow> 'a \<Rightarrow> bool" nodes ctx
    arbitrary: ctx' and ctx' rule: oscap_tsort_visit_oscap_tsort_visit_all.induct)
  case (2 fuel E node ctx)
  show ?case
  proof (cases "node \<in> set (ts_cur_stack ctx) \<or> node \<in> set (ts_visited ctx)")
    case False
    then have new: "node \<notin> set (ts_cur_stack ctx)" "node \<notin> set (ts_visited ctx)" by auto
    let ?ctx1 = "ctx\<lparr>ts_visited := ts_visited ctx @ [node], ts_cur_stack := ts_cur_stack ctx @ [node]\<rparr>"
    note run = "2.prems" [unfolded visit_new [OF new]]
    obtain ctx2 where all: "oscap_tsort_visit_all fuel E (=) (E node) ?ctx1 = Some (True, ctx2)"
      using run by (cases "oscap_tsort_visit_all fuel E (=) (E node) ?ctx1") auto
    have "\<not> oscap_list_contains (=) (ts_cur_stack ctx) node" "\<not> oscap_list_contains (=) (ts_visited ctx) node"
      using new by simp_all
    then have "ts_cur_stack ctx2 = ts_cur_stack ?ctx1" by (intro "2.hyps") (simp_all add: all)
    moreover have "ctx' = ctx2\<lparr>ts_cur_stack := butlast (ts_cur_stack ctx2), ts_result := ts_result ctx2 @ [node]\<rparr>"
      using run unfolding all by simp
    ultimately show ?thesis by simp
  qed (use "2.prems" in \<open>auto split: if_splits\<close>)
next
  case (4 fuel E node nodes ctx)
  obtain ret ctx1 where v: "oscap_tsort_visit fuel E (=) node ctx = Some (ret, ctx1)"
    using "4.prems" by (cases "oscap_tsort_visit fuel E (=) node ctx") auto
  with "4.prems" have ret: ret and rest: "oscap_tsort_visit_all fuel E (=) nodes ctx1 = Some (True, ctx')"
    by (cases ret; simp)+
  show ?case using "4.hyps"(1) [of ctx1] "4.hyps"(2) [OF v _ _ rest] v ret by simp
qed auto

definition room :: "'a set \<Rightarrow> 'a oscap_tsort_context \<Rightarrow> nat" where
  "room N ctx = card (N - set (ts_cur_stack ctx))"

lemma room_push:
  assumes "finite N" and "node \<in> N" and "node \<notin> set (ts_cur_stack ctx)"
  shows "room N (ctx\<lparr>ts_visited := v, ts_cur_stack := ts_cur_stack ctx @ [node]\<rparr>) < room N ctx"
proof -
  have "N - set (ts_cur_stack ctx @ [node]) \<subset> N - set (ts_cur_stack ctx)" using assms by auto
  then show ?thesis using assms(1) by (simp add: room_def psubset_card_mono)
qed

lemma visit_returns:
  assumes N: "finite N" "\<forall>x\<in>N. set (E x) \<subseteq> N"
  shows "node \<in> N \<Longrightarrow> room N ctx < fuel \<Longrightarrow> oscap_tsort_visit fuel E (=) node ctx \<noteq> None"
    and "set nodes \<subseteq> N \<Longrightarrow> room N ctx < fuel \<Longrightarrow> oscap_tsort_visit_all fuel E (=) nodes ctx \<noteq> None"
  using N(2)
proof (induction fuel E "(=) :: 'a \<Rightarrow> 'a \<Rightarrow> bool" node ctx and fuel E "(=) :: 'a \<Rightarrow> 'a \<Rightarrow> bool" nodes ctx
    rule: oscap_tsort_visit_oscap_tsort_visit_all.induct)
  case (2 fuel E node ctx)
  show ?case
  proof (cases "node \<in> set (ts_cur_stack ctx) \<or> node \<in> set (ts_visited ctx)")
    case False
    then have new: "node \<notin> set (ts_cur_stack ctx)" "node \<notin> set (ts_visited ctx)" by auto
    let ?ctx1 = "ctx\<lparr>ts_visited := ts_visited ctx @ [node], ts_cur_stack := ts_cur_stack ctx @ [node]\<rparr>"
    have "room N ?ctx1 < fuel" using room_push [OF N(1) "2.prems"(1) new(1), of "ts_visited ctx @ [node]"] "2.prems"(2) by simp
    moreover have "set (E node) \<subseteq> N" using "2.prems"(1,3) by blast
    moreover have "\<not> oscap_list_contains (=) (ts_cur_stack ctx) node" "\<not> oscap_list_contains (=) (ts_visited ctx) node"
      using new by simp_all
    ultimately have "oscap_tsort_visit_all fuel E (=) (E node) ?ctx1 \<noteq> None"
      using "2.prems"(3) by (intro "2.hyps") simp_all
    then show ?thesis unfolding visit_new [OF new] by auto
  qed (auto split: if_splits)
next
  case (4 fuel E node nodes ctx)
  then obtain ret ctx1 where v: "oscap_tsort_visit fuel E (=) node ctx = Some (ret, ctx1)" by auto
  show ?case
  proof (cases ret)
    case True
    then have "room N ctx1 = room N ctx"
      using visit_keeps_stack(1) [of fuel E node ctx ctx1] v by (simp add: room_def)
    then have "oscap_tsort_visit_all fuel E (=) nodes ctx1 \<noteq> None"
      using "4.hyps"(2) [OF v, of True ctx1] "4.prems" True by simp
    then show ?thesis by (simp add: v True)
  next
    case False
    then show ?thesis by (simp add: v)
  qed
qed auto

section \<open>The sort\<close>

lemma topologicalD: "topological E xs \<Longrightarrow> i < length xs \<Longrightarrow> z \<in> set (E (xs ! i)) \<Longrightarrow> z \<in> set (take i xs)"
  by (auto simp: topological_def)

lemma topological_acyclic:
  assumes "topological E xs" and "(x, y) \<in> {(a, b). b \<in> set (E a)}\<^sup>+" and "x \<in> set xs"
  shows "\<exists>i j. j < i \<and> i < length xs \<and> xs ! i = x \<and> xs ! j = y"
  using assms(2,3)
proof (induction rule: trancl_induct)
  case (base y)
  then obtain i where i: "i < length xs" "xs ! i = x" by (metis in_set_conv_nth)
  with base assms(1) have "y \<in> set (take i xs)" by (auto simp: topological_def)
  then obtain j where "j < i" "xs ! j = y" using i by (auto simp: in_set_conv_nth)
  with i show ?case by blast
next
  case (step y z)
  then obtain i j where ij: "j < i" "i < length xs" "xs ! i = x" "xs ! j = y" by blast
  moreover from ij have "j < length xs" by simp
  ultimately have "z \<in> set (take j xs)" using step(2) ij(4) by (intro topologicalD [OF assms(1)]) auto
  then obtain k where "k < j" "xs ! k = z" using ij by (auto simp: in_set_conv_nth)
  with ij(1) have "k < i" by simp
  with ij(2,3) \<open>xs ! k = z\<close> show ?case by blast
qed

lemma dep_path_trancl:
  "dep_path E xs \<Longrightarrow> x \<in> set xs \<Longrightarrow> z \<in> set (E (last xs)) \<Longrightarrow> (x, z) \<in> {(a, b). b \<in> set (E a)}\<^sup>+"
proof (induction E xs arbitrary: x rule: dep_path.induct)
  case (1 E a b xs)
  have step: "(b, z) \<in> {(a, b). b \<in> set (E a)}\<^sup>+" using 1 by auto
  show ?case
  proof (cases "x = a")
    case True
    have "(a, b) \<in> {(a, b). b \<in> set (E a)}" using "1.prems"(1) by simp
    from trancl_into_trancl2 [OF this step] True show ?thesis by simp
  qed (use 1 in auto)
qed auto

lemma no_cycle_from:
  assumes "topological E xs" and "x \<in> set xs" and "(x, y) \<in> {(a, b). b \<in> set (E a)}\<^sup>*"
  shows "(y, y) \<notin> {(a, b). b \<in> set (E a)}\<^sup>+"
proof
  assume loop: "(y, y) \<in> {(a, b). b \<in> set (E a)}\<^sup>+"
  have "y \<in> set xs"
  proof (cases "x = y")
    case False
    with assms(3) have "(x, y) \<in> {(a, b). b \<in> set (E a)}\<^sup>+" by (meson rtranclD)
    from topological_acyclic [OF assms(1) this assms(2)] show ?thesis by (metis less_trans nth_mem)
  qed (use assms in simp)
  from topological_acyclic [OF assms(1) loop this] obtain i j where "j < i" "i < length xs" "xs ! i = xs ! j" by auto
  with assms(1) show False by (auto simp: topological_def nth_eq_iff_index_eq)
qed

text \<open>On failure the path on the stack starts at a node of the list that was searched.\<close>

definition stack_from :: "'a set \<Rightarrow> 'a list \<Rightarrow> 'a list \<Rightarrow> bool" where
  "stack_from nodes stack stack' \<longleftrightarrow> (\<exists>ys. stack' = stack @ ys \<and> (ys = [] \<or> hd ys \<in> nodes))"

lemma stack_from_mono: "stack_from nodes stack stack' \<Longrightarrow> nodes \<subseteq> nodes' \<Longrightarrow> stack_from nodes' stack stack'"
  by (auto simp: stack_from_def)

lemma failed_stack:
  "oscap_tsort_visit fuel E (=) node ctx = Some (False, ctx') \<Longrightarrow> stack_from {node} (ts_cur_stack ctx) (ts_cur_stack ctx')"
  "oscap_tsort_visit_all fuel E (=) nodes ctx = Some (False, ctx') \<Longrightarrow>
     stack_from (set nodes) (ts_cur_stack ctx) (ts_cur_stack ctx')"
proof (induction fuel E "(=) :: 'a \<Rightarrow> 'a \<Rightarrow> bool" node ctx and fuel E "(=) :: 'a \<Rightarrow> 'a \<Rightarrow> bool" nodes ctx
    arbitrary: ctx' and ctx' rule: oscap_tsort_visit_oscap_tsort_visit_all.induct)
  case (2 fuel E node ctx)
  show ?case
  proof (cases "node \<in> set (ts_cur_stack ctx) \<or> node \<in> set (ts_visited ctx)")
    case True
    then show ?thesis using "2.prems" by (auto simp: stack_from_def split: if_splits)
  next
    case False
    then have new: "node \<notin> set (ts_cur_stack ctx)" "node \<notin> set (ts_visited ctx)" by auto
    let ?ctx1 = "ctx\<lparr>ts_visited := ts_visited ctx @ [node], ts_cur_stack := ts_cur_stack ctx @ [node]\<rparr>"
    note run = "2.prems" [unfolded visit_new [OF new]]
    obtain ctx2 where all: "oscap_tsort_visit_all fuel E (=) (E node) ?ctx1 = Some (False, ctx2)"
      using run by (cases "oscap_tsort_visit_all fuel E (=) (E node) ?ctx1") auto
    have "\<not> oscap_list_contains (=) (ts_cur_stack ctx) node" "\<not> oscap_list_contains (=) (ts_visited ctx) node"
      using new by simp_all
    then have "stack_from (set (E node)) (ts_cur_stack ?ctx1) (ts_cur_stack ctx2)" by (intro "2.hyps") (simp_all add: all)
    moreover have "ts_cur_stack ctx' = ts_cur_stack ctx2" using run unfolding all by auto
    ultimately show ?thesis by (auto simp: stack_from_def)
  qed
next
  case (4 fuel E node nodes ctx)
  obtain ret ctx1 where v: "oscap_tsort_visit fuel E (=) node ctx = Some (ret, ctx1)"
    using "4.prems" by (cases "oscap_tsort_visit fuel E (=) node ctx") auto
  show ?case
  proof (cases ret)
    case True
    with v have v: "oscap_tsort_visit fuel E (=) node ctx = Some (True, ctx1)" by simp
    have rest: "oscap_tsort_visit_all fuel E (=) nodes ctx1 = Some (False, ctx')" using "4.prems" by (simp add: v)
    have "stack_from (set nodes) (ts_cur_stack ctx1) (ts_cur_stack ctx')" by (rule "4.hyps"(2) [OF v refl refl rest])
    then have "stack_from (set nodes) (ts_cur_stack ctx) (ts_cur_stack ctx')" by (simp add: visit_keeps_stack(1) [OF v])
    then show ?thesis by (rule stack_from_mono) auto
  next
    case False
    with v have v: "oscap_tsort_visit fuel E (=) node ctx = Some (False, ctx1)" by simp
    then have "ctx' = ctx1" using "4.prems" by simp
    with "4.hyps"(1) [OF v] show ?thesis using stack_from_mono by fastforce
  qed
qed auto

text \<open>
  C30. The sort returns on every finite graph, with a fuel above the number of its nodes. It succeeds just
  when no cycle can be reached from the input; then the output holds the input, every node once and after
  all the nodes it depends on. When it fails, the output is a path of nodes, each depending on the next,
  whose last one depends on one of them.
\<close>

theorem tsort_correct:
  assumes "finite nodes" and "set input \<subseteq> nodes" and "\<forall>x\<in>nodes. set (edges x) \<subseteq> nodes" and "card nodes < fuel"
  shows "\<exists>ok out. oscap_tsort fuel input edges (=) = Some (ok, out)
    \<and> (ok \<longrightarrow> set input \<subseteq> set out \<and> topological edges out)
    \<and> (\<not> ok \<longrightarrow> closes_cycle edges out)
    \<and> (ok \<longleftrightarrow> \<not> (\<exists>x y. x \<in> set input \<and> (x, y) \<in> {(a, b). b \<in> set (edges a)}\<^sup>*
                     \<and> (y, y) \<in> {(a, b). b \<in> set (edges a)}\<^sup>+))"
proof -
  let ?E = "{(a, b). b \<in> set (edges a)}"
  have "room nodes oscap_tsort_context_new < fuel" using assms(4) by (simp add: room_def oscap_tsort_context_new_def)
  with visit_returns(2) [OF assms(1,3,2)] obtain ok ctx where
    run: "oscap_tsort_visit_all fuel edges (=) input oscap_tsort_context_new = Some (ok, ctx)" by fastforce
  have "search_inv edges oscap_tsort_context_new" "set input \<subseteq> next_nodes edges oscap_tsort_context_new"
    by (auto simp: search_inv_def oscap_tsort_context_new_def topological_def next_nodes_def)
  with visit_correct(2) [OF run] have post: "visit_post edges (set input) oscap_tsort_context_new (ok, ctx)" by blast
  define out where "out = (if ok then ts_result ctx else ts_cur_stack ctx)"
  have sorted: "set input \<subseteq> set out \<and> topological edges out" if ok
    using post that by (auto simp: visit_post_def search_inv_def out_def)
  have cycle: "closes_cycle edges out" if "\<not> ok" using post that by (simp add: visit_post_def out_def)
  have "\<not> (\<exists>x y. x \<in> set input \<and> (x, y) \<in> ?E\<^sup>* \<and> (y, y) \<in> ?E\<^sup>+)" if ok
    using no_cycle_from [of edges out] sorted [OF that] by blast
  moreover have "\<exists>x y. x \<in> set input \<and> (x, y) \<in> ?E\<^sup>* \<and> (y, y) \<in> ?E\<^sup>+" if bad: "\<not> ok"
  proof -
    have "oscap_tsort_visit_all fuel edges (=) input oscap_tsort_context_new = Some (False, ctx)" using run bad by simp
    from failed_stack(2) [OF this] have "out = [] \<or> hd out \<in> set input"
      using bad by (auto simp: stack_from_def oscap_tsort_context_new_def out_def)
    moreover obtain y where y: "out \<noteq> []" "dep_path edges out" "y \<in> set out" "y \<in> set (edges (last out))"
      using cycle [OF bad] by (auto simp: closes_cycle_def)
    ultimately have "hd out \<in> set input" by simp
    moreover have "(hd out, y) \<in> ?E\<^sup>+" by (rule dep_path_trancl [OF y(2) hd_in_set [OF y(1)] y(4)])
    moreover have "(y, y) \<in> ?E\<^sup>+" by (rule dep_path_trancl [OF y(2,3,4)])
    ultimately show ?thesis by (meson trancl_into_rtrancl)
  qed
  ultimately show ?thesis using run sorted cycle by (auto simp: oscap_tsort_def out_def)
qed

definition example_edges :: "nat \<Rightarrow> nat list" where
  "example_edges n = (if n = 3 then [1, 2] else if n = 1 then [2] else if n = 4 then [4] else [])"

theorem tsort_correct_witness:
  "oscap_tsort 5 [3, 1] example_edges (=) = Some (True, [2, 1, 3]) \<and> topological example_edges [2, 1, 3]
   \<and> oscap_tsort 5 [3, 4] example_edges (=) = Some (False, [4]) \<and> closes_cycle example_edges [4]"
proof -
  have run: "oscap_tsort 5 [3, 1] example_edges (=) = Some (True, [2, 1, 3])"
    "oscap_tsort 5 [3, 4] example_edges (=) = Some (False, [4])" by code_simp+
  show ?thesis
    using run tsort_correct [of "{1, 2, 3, 4}" "[3, 1]" example_edges 5]
      tsort_correct [of "{1, 2, 3, 4}" "[3, 4]" example_edges 5]
    by (auto simp: example_edges_def)
qed

end
