(* ===== verification/Xccdf_Types.thy ===== *)
theory Xccdf_Types
  imports Complex_Main Oscap_Util Oscap_Htable
begin

text \<open>
  The data of XCCDF that policies and scores work on: test results, checks, the items of a benchmark,
  profiles, \<open>XCCDF/item.h\<close> and \<open>XCCDF/public/xccdf_benchmark.h\<close>.

  A \<open>float\<close> is a rational number; the functions that compute with floats take the rounding of the
  machine's arithmetic as a parameter. Result codes are passed through \<open>int\<close> variables that also carry 0
  (no result yet) and -1 (cancelled), so they are integers here.
\<close>

section \<open>Test results\<close>

abbreviation XCCDF_RESULT_PASS :: int where "XCCDF_RESULT_PASS \<equiv> 1"
abbreviation XCCDF_RESULT_FAIL :: int where "XCCDF_RESULT_FAIL \<equiv> 2"
abbreviation XCCDF_RESULT_ERROR :: int where "XCCDF_RESULT_ERROR \<equiv> 3"
abbreviation XCCDF_RESULT_UNKNOWN :: int where "XCCDF_RESULT_UNKNOWN \<equiv> 4"
abbreviation XCCDF_RESULT_NOT_APPLICABLE :: int where "XCCDF_RESULT_NOT_APPLICABLE \<equiv> 5"
abbreviation XCCDF_RESULT_NOT_CHECKED :: int where "XCCDF_RESULT_NOT_CHECKED \<equiv> 6"
abbreviation XCCDF_RESULT_NOT_SELECTED :: int where "XCCDF_RESULT_NOT_SELECTED \<equiv> 7"
abbreviation XCCDF_RESULT_INFORMATIONAL :: int where "XCCDF_RESULT_INFORMATIONAL \<equiv> 8"
abbreviation XCCDF_RESULT_FIXED :: int where "XCCDF_RESULT_FIXED \<equiv> 9"

datatype xccdf_bool_operator_t = XCCDF_OPERATOR_AND | XCCDF_OPERATOR_OR

section \<open>Checks\<close>

record xccdf_check_content_ref =
  ref_href :: cstr
  ref_name :: cstr

record xccdf_check_export =
  export_name :: cstr
  export_value :: string

text \<open>The fields of a check; \<open>chk_oper\<close> is None (0) for a check that is not complex.\<close>

record xccdf_check_fields =
  chk_oper :: "xccdf_bool_operator_t option"
  chk_system :: cstr
  chk_selector :: cstr
  chk_negate :: bool
  chk_multicheck :: bool
  chk_exports :: "xccdf_check_export list"
  chk_content_refs :: "xccdf_check_content_ref list"

datatype xccdf_check = XCheck (check_fields: xccdf_check_fields) (check_children: "xccdf_check list")

definition xccdf_check_get_complex :: "xccdf_check \<Rightarrow> bool" where
  "xccdf_check_get_complex check \<longleftrightarrow> chk_oper (check_fields check) \<noteq> None"

text \<open>The content reference that was evaluated replaces all of them, with a name if one is given.\<close>

definition xccdf_check_inject_content_ref :: "xccdf_check \<Rightarrow> xccdf_check_content_ref \<Rightarrow> cstr \<Rightarrow> xccdf_check" where
  "xccdf_check_inject_content_ref check content name =
     XCheck ((check_fields check)\<lparr>chk_content_refs :=
         [case name of None \<Rightarrow> content | Some _ \<Rightarrow> content\<lparr>ref_name := name\<rparr>]\<rparr>)
       (check_children check)"

section \<open>Items\<close>

record xccdf_item_base =
  item_id :: string
  item_cluster_id :: cstr
  item_weight :: rat
  item_selected :: bool
  item_platforms :: "string list"

record xccdf_rule_item =
  rule_role :: int
  rule_severity :: int
  rule_checks :: "xccdf_check list"

record xccdf_value_instance =
  inst_selector :: cstr
  inst_value :: cstr
  inst_defval :: cstr

record xccdf_value_item =
  value_type :: int
  value_oper :: int
  value_instances :: "xccdf_value_instance list"

datatype xccdf_item =
    XCCDF_RULE (item_base: xccdf_item_base) xccdf_rule_item
  | XCCDF_GROUP (item_base: xccdf_item_base) (item_values: "(xccdf_item_base \<times> xccdf_value_item) list") (item_content: "xccdf_item list")
  | XCCDF_BENCHMARK (item_base: xccdf_item_base) (item_values: "(xccdf_item_base \<times> xccdf_value_item) list") (item_content: "xccdf_item list")
  | XCCDF_VALUE (item_base: xccdf_item_base) xccdf_value_item

abbreviation xccdf_item_get_id :: "xccdf_item \<Rightarrow> string" where
  "xccdf_item_get_id item \<equiv> item_id (item_base item)"

text \<open>The checks of a rule with a selector, where NULL and the empty selector are the same.\<close>

definition xccdf_rule_get_checks_filtered :: "xccdf_rule_item \<Rightarrow> cstr \<Rightarrow> xccdf_check list" where
  "xccdf_rule_get_checks_filtered rule selector =
     filter (\<lambda>check. oscap_strcmp (chk_selector (check_fields check)) selector = 0) (rule_checks rule)"

definition xccdf_rule_get_complex_checks :: "xccdf_rule_item \<Rightarrow> xccdf_check list" where
  "xccdf_rule_get_complex_checks rule = filter xccdf_check_get_complex (rule_checks rule)"

text \<open>An empty selector falls back to the first instance.\<close>

definition xccdf_value_get_instance_by_selector :: "xccdf_value_item \<Rightarrow> cstr \<Rightarrow> xccdf_value_instance option" where
  "xccdf_value_get_instance_by_selector v selector =
     (case oscap_list_find (\<lambda>inst sel. oscap_streq (inst_selector inst) sel) (value_instances v) selector of
        Some inst \<Rightarrow> Some inst
      | None \<Rightarrow>
          if oscap_streq selector (Some []) then
            (case value_instances v of [] \<Rightarrow> None | inst # _ \<Rightarrow> Some inst)
          else None)"

section \<open>Profiles\<close>

record xccdf_select =
  select_item :: string
  select_selected :: bool

record xccdf_setvalue =
  setvalue_item :: string
  setvalue_value :: string

record xccdf_refine_value =
  refine_value_item :: string
  refine_value_selector :: cstr
  refine_value_oper :: int

text \<open>The weight of a refine-rule is None when it is not given (NaN in the code).\<close>

record xccdf_refine_rule =
  refine_rule_item :: string
  refine_rule_selector :: cstr
  refine_rule_role :: int
  refine_rule_severity :: int
  refine_rule_weight :: "rat option"

record xccdf_profile =
  profile_id :: cstr
  profile_extends :: cstr
  profile_selects :: "xccdf_select list"
  profile_setvalues :: "xccdf_setvalue list"
  profile_refine_values :: "xccdf_refine_value list"
  profile_refine_rules :: "xccdf_refine_rule list"

section \<open>Results\<close>

record xccdf_rule_result =
  rr_idref :: string
  rr_result :: int
  rr_weight :: rat
  rr_role :: int
  rr_severity :: int
  rr_checks :: "xccdf_check list"
  rr_message :: cstr

fun xccdf_result_get_rule_result_by_id :: "xccdf_rule_result list \<Rightarrow> string \<Rightarrow> xccdf_rule_result option" where
  "xccdf_result_get_rule_result_by_id [] i = None"
| "xccdf_result_get_rule_result_by_id (rr # rrs) i =
     (if oscap_streq (Some (rr_idref rr)) (Some i) then Some rr else xccdf_result_get_rule_result_by_id rrs i)"

lemma oscap_streq_Some [simp]: "oscap_streq (Some s) (Some t) \<longleftrightarrow> s = t"
  by (simp add: oscap_streq_def oscap_strcmp_def)

lemma rule_result_by_id_find:
  "xccdf_result_get_rule_result_by_id rrs i = find (\<lambda>rr. rr_idref rr = i) rrs"
  by (induction rrs) auto

end
