(* ===== verification/Xccdf_Score.thy ===== *)
theory Xccdf_Score
  imports Xccdf_Types
begin

text \<open>
  The scoring models of XCCDF, \<open>XCCDF/result_scoring.c\<close>. Every arithmetic operation of the code is rounded
  by the parameter \<open>rnd\<close>, the rounding of \<open>float\<close> arithmetic (the constants 0, 1 and 100 are exact).
\<close>

section \<open>The scores of items\<close>

record default_score =
  ds_score :: rat
  ds_accumulator :: rat
  ds_weight_score :: rat
  ds_count :: nat

record flat_score =
  fs_score :: rat
  fs_weight :: rat

definition ignored_result :: "int \<Rightarrow> bool" where
  "ignored_result r \<longleftrightarrow> r = XCCDF_RESULT_NOT_SELECTED \<or> r = XCCDF_RESULT_NOT_APPLICABLE
     \<or> r = XCCDF_RESULT_INFORMATIONAL \<or> r = XCCDF_RESULT_NOT_CHECKED"

definition passing_result :: "int \<Rightarrow> bool" where
  "passing_result r \<longleftrightarrow> r = XCCDF_RESULT_PASS \<or> r = XCCDF_RESULT_FIXED"

text \<open>The score of a group or of the benchmark, from the sums over its children.\<close>

definition default_score_node :: "(rat \<Rightarrow> rat) \<Rightarrow> xccdf_item_base \<Rightarrow> default_score \<Rightarrow> default_score" where
  "default_score_node rnd base score =
     (let s = (if ds_count score \<noteq> 0 \<and> ds_accumulator score \<noteq> 0 then rnd (ds_score score / ds_accumulator score)
               else ds_score score)
      in score\<lparr>ds_score := s, ds_weight_score := rnd (s * item_weight base)\<rparr>)"

text \<open>
  \<open>xccdf_item_get_default_score\<close>, with the loop over the children of a group or of the benchmark; None is
  the NULL of a rule that is not scored.
\<close>

fun xccdf_item_get_default_score :: "(rat \<Rightarrow> rat) \<Rightarrow> xccdf_rule_result list \<Rightarrow> xccdf_item \<Rightarrow> default_score option"
  and default_score_children ::
    "(rat \<Rightarrow> rat) \<Rightarrow> xccdf_rule_result list \<Rightarrow> xccdf_item list \<Rightarrow> default_score \<Rightarrow> default_score"
where
  "xccdf_item_get_default_score rnd rrs (XCCDF_RULE base rule) =
     (case xccdf_result_get_rule_result_by_id rrs (item_id base) of
        None \<Rightarrow> None
      | Some rr \<Rightarrow>
          if ignored_result (rr_result rr) then None
          else (let score = (if passing_result (rr_result rr) then 100 else 0) in
            Some \<lparr>ds_score = score, ds_accumulator = 0, ds_weight_score = rnd (score * item_weight base), ds_count = 1\<rparr>))"
| "xccdf_item_get_default_score rnd rrs (XCCDF_GROUP base vs content) =
     Some (default_score_node rnd base (default_score_children rnd rrs content
       \<lparr>ds_score = 0, ds_accumulator = 0, ds_weight_score = 0, ds_count = 0\<rparr>))"
| "xccdf_item_get_default_score rnd rrs (XCCDF_BENCHMARK base vs content) =
     Some (default_score_node rnd base (default_score_children rnd rrs content
       \<lparr>ds_score = 0, ds_accumulator = 0, ds_weight_score = 0, ds_count = 0\<rparr>))"
| "xccdf_item_get_default_score rnd rrs (XCCDF_VALUE base v) = None"
| "default_score_children rnd rrs [] score = score"
| "default_score_children rnd rrs (child # children) score =
     (case xccdf_item_get_default_score rnd rrs child of
        None \<Rightarrow> default_score_children rnd rrs children score
      | Some ch_score \<Rightarrow>
          if ds_count ch_score = 0 then default_score_children rnd rrs children score
          else default_score_children rnd rrs children
            (score\<lparr>ds_score := rnd (ds_score score + ds_weight_score ch_score), ds_count := ds_count score + 1,
                   ds_accumulator := rnd (ds_accumulator score + item_weight (item_base child))\<rparr>))"

fun xccdf_item_get_flat_score :: "(rat \<Rightarrow> rat) \<Rightarrow> xccdf_rule_result list \<Rightarrow> bool \<Rightarrow> xccdf_item \<Rightarrow> flat_score option"
  and flat_score_children ::
    "(rat \<Rightarrow> rat) \<Rightarrow> xccdf_rule_result list \<Rightarrow> bool \<Rightarrow> xccdf_item list \<Rightarrow> flat_score \<Rightarrow> flat_score"
where
  "xccdf_item_get_flat_score rnd rrs unweighted (XCCDF_RULE base rule) =
     (case xccdf_result_get_rule_result_by_id rrs (item_id base) of
        None \<Rightarrow> None
      | Some rr \<Rightarrow>
          if ignored_result (rr_result rr) then None
          else (let weight = (if unweighted then 1 else item_weight base) in
            Some \<lparr>fs_score = (if passing_result (rr_result rr) then weight else 0), fs_weight = weight\<rparr>))"
| "xccdf_item_get_flat_score rnd rrs unweighted (XCCDF_GROUP base vs content) =
     Some (flat_score_children rnd rrs unweighted content \<lparr>fs_score = 0, fs_weight = 0\<rparr>)"
| "xccdf_item_get_flat_score rnd rrs unweighted (XCCDF_BENCHMARK base vs content) =
     Some (flat_score_children rnd rrs unweighted content \<lparr>fs_score = 0, fs_weight = 0\<rparr>)"
| "xccdf_item_get_flat_score rnd rrs unweighted (XCCDF_VALUE base v) = None"
| "flat_score_children rnd rrs unweighted [] score = score"
| "flat_score_children rnd rrs unweighted (child # children) score =
     (case xccdf_item_get_flat_score rnd rrs unweighted child of
        None \<Rightarrow> flat_score_children rnd rrs unweighted children score
      | Some ch_score \<Rightarrow>
          if fs_weight ch_score = 0 then flat_score_children rnd rrs unweighted children score
          else flat_score_children rnd rrs unweighted children
            \<lparr>fs_score = rnd (fs_score score + fs_score ch_score), fs_weight = rnd (fs_weight score + fs_weight ch_score)\<rparr>)"

section \<open>Scores of a result\<close>

record xccdf_score =
  score_system :: string
  score_maximum :: rat
  score_score :: rat

text \<open>
  The outer None is the dereference of a NULL score, which an item other than a benchmark or a group could
  give; the inner one a scoring system that is not supported. A score starts with the maximum 100 (\<open>XCCDF_SCORE_MAX_DAFAULT\<close>).
\<close>

definition xccdf_result_calculate_score ::
    "(rat \<Rightarrow> rat) \<Rightarrow> xccdf_rule_result list \<Rightarrow> xccdf_item \<Rightarrow> string \<Rightarrow> xccdf_score option option" where
  "xccdf_result_calculate_score rnd rrs benchmark system =
     (if system = ''urn:xccdf:scoring:default'' then
        map_option (\<lambda>s. Some \<lparr>score_system = system, score_maximum = 100, score_score = ds_score s\<rparr>)
          (xccdf_item_get_default_score rnd rrs benchmark)
      else if system = ''urn:xccdf:scoring:flat'' then
        map_option (\<lambda>s. Some \<lparr>score_system = system, score_maximum = fs_weight s, score_score = fs_score s\<rparr>)
          (xccdf_item_get_flat_score rnd rrs False benchmark)
      else if system = ''urn:xccdf:scoring:flat-unweighted'' then
        map_option (\<lambda>s. Some \<lparr>score_system = system, score_maximum = fs_weight s, score_score = fs_score s\<rparr>)
          (xccdf_item_get_flat_score rnd rrs True benchmark)
      else if system = ''urn:xccdf:scoring:absolute'' then
        map_option (\<lambda>s. Some \<lparr>score_system = system, score_maximum = fs_weight s,
            score_score = (if fs_score s = fs_weight s then 1 else 0)\<rparr>)
          (xccdf_item_get_flat_score rnd rrs False benchmark)
      else Some None)"

fun recalculate_scores ::
    "(rat \<Rightarrow> rat) \<Rightarrow> xccdf_rule_result list \<Rightarrow> xccdf_item \<Rightarrow> xccdf_score list \<Rightarrow> xccdf_score list option option" where
  "recalculate_scores rnd rrs benchmark [] = Some (Some [])"
| "recalculate_scores rnd rrs benchmark (old # olds) =
     (case xccdf_result_calculate_score rnd rrs benchmark (score_system old) of
        None \<Rightarrow> None
      | Some None \<Rightarrow> Some None
      | Some (Some new) \<Rightarrow> map_option (map_option ((#) new)) (recalculate_scores rnd rrs benchmark olds))"

text \<open>\<open>xccdf_result_recalculate_scores\<close> keeps the old scores when one of their systems is not supported.\<close>

definition xccdf_result_recalculate_scores ::
    "(rat \<Rightarrow> rat) \<Rightarrow> xccdf_rule_result list \<Rightarrow> xccdf_item \<Rightarrow> xccdf_score list \<Rightarrow> (int \<times> xccdf_score list) option" where
  "xccdf_result_recalculate_scores rnd rrs benchmark scores =
     map_option (\<lambda>r. case r of None \<Rightarrow> (1, scores) | Some new \<Rightarrow> (0, new)) (recalculate_scores rnd rrs benchmark scores)"

end
