(* ===== verification/Xccdf_Score_Props.thy ===== *)
theory Xccdf_Score_Props
  imports Xccdf_Score
begin

text \<open>
  What the scores are, in the arithmetic of \<open>float\<close>: the sums of the weights of scored rules, and a default
  score between 0 and 100, as long as the sums stay in the range in which floats are exact. Of the rounding
  \<open>rnd\<close> only this is used: it is monotone, and numbers of 24 bits in some unit are floats.
\<close>

definition single_rounding :: "(rat \<Rightarrow> rat) \<Rightarrow> rat \<Rightarrow> bool" where
  "single_rounding rnd u \<longleftrightarrow> 0 < u \<and> mono rnd \<and> (\<forall>k\<le>2 ^ 24. rnd (of_nat k * u) = of_nat k * u)
     \<and> (\<forall>k\<le>2 ^ 24. rnd (of_nat k) = of_nat k)"

definition multiple :: "rat \<Rightarrow> rat \<Rightarrow> bool" where
  "multiple u x \<longleftrightarrow> (\<exists>k::nat. x = of_nat k * u)"

lemma multiple_0 [simp]: "multiple u 0"
  unfolding multiple_def by (rule exI [of _ 0]) simp

lemma multiple_add: "multiple u x \<Longrightarrow> multiple u y \<Longrightarrow> multiple u (x + y)"
  unfolding multiple_def by (metis distrib_right of_nat_add)

lemma multiple_nonneg: "multiple u x \<Longrightarrow> 0 < u \<Longrightarrow> 0 \<le> x"
  by (auto simp: multiple_def)

lemma multiple_times: "multiple u x \<Longrightarrow> multiple u (100 * x)"
  unfolding multiple_def by (metis mult.assoc of_nat_mult of_nat_numeral)

lemma multiple_1: "multiple 1 1"
  unfolding multiple_def by (rule exI [of _ 1]) simp

lemma rounding_exact: "single_rounding rnd u \<Longrightarrow> multiple u x \<Longrightarrow> x \<le> 2 ^ 24 * u \<Longrightarrow> rnd x = x"
proof -
  assume r: "single_rounding rnd u" and "multiple u x" and le: "x \<le> 2 ^ 24 * u"
  then obtain k where x: "x = of_nat k * u" by (auto simp: multiple_def)
  from r have u: "0 < u" by (simp add: single_rounding_def)
  have "(of_nat k :: rat) * u \<le> 2 ^ 24 * u" using le x by simp
  then have "(of_nat k :: rat) \<le> of_nat (2 ^ 24)" using u by simp
  then have "k \<le> 2 ^ 24" by (simp only: of_nat_le_iff)
  with r show ?thesis by (simp add: single_rounding_def x)
qed

lemma rounding_mono: "single_rounding rnd u \<Longrightarrow> x \<le> y \<Longrightarrow> rnd x \<le> rnd y"
  by (simp add: single_rounding_def monoD)

lemma rounding_simps: "single_rounding rnd u \<Longrightarrow> rnd 0 = 0" "single_rounding rnd u \<Longrightarrow> rnd 100 = 100"
proof -
  assume "single_rounding rnd u"
  then have k: "\<And>k. k \<le> 2 ^ 24 \<Longrightarrow> rnd (of_nat k) = of_nat k" by (simp add: single_rounding_def)
  show "rnd 0 = 0" using k [of 0] by simp
  show "rnd 100 = 100" using k [of 100] by simp
qed

lemma rounding_nonneg: "single_rounding rnd u \<Longrightarrow> 0 \<le> x \<Longrightarrow> 0 \<le> rnd x"
  using rounding_mono [of rnd u 0 x] by (simp add: rounding_simps)

section \<open>Scored rules\<close>

text \<open>The scored rules below an item, each with its weight in the model and whether it passes.\<close>

fun scored_rules :: "xccdf_rule_result list \<Rightarrow> bool \<Rightarrow> xccdf_item \<Rightarrow> (rat \<times> bool) list" where
  "scored_rules rrs unweighted (XCCDF_RULE base rule) =
     (case find (\<lambda>rr. rr_idref rr = item_id base) rrs of
        None \<Rightarrow> []
      | Some rr \<Rightarrow> if ignored_result (rr_result rr) then []
                  else [(if unweighted then 1 else item_weight base, passing_result (rr_result rr))])"
| "scored_rules rrs unweighted (XCCDF_GROUP base vs content) = concat (map (scored_rules rrs unweighted) content)"
| "scored_rules rrs unweighted (XCCDF_BENCHMARK base vs content) = concat (map (scored_rules rrs unweighted) content)"
| "scored_rules rrs unweighted (XCCDF_VALUE base v) = []"

text \<open>All weights in a tree of items are multiples of the unit; their sum.\<close>

fun weights_ok :: "rat \<Rightarrow> xccdf_item \<Rightarrow> bool" where
  "weights_ok u (XCCDF_RULE base rule) \<longleftrightarrow> multiple u (item_weight base)"
| "weights_ok u (XCCDF_GROUP base vs content) \<longleftrightarrow> multiple u (item_weight base) \<and> list_all (weights_ok u) content"
| "weights_ok u (XCCDF_BENCHMARK base vs content) \<longleftrightarrow> multiple u (item_weight base) \<and> list_all (weights_ok u) content"
| "weights_ok u (XCCDF_VALUE base v) \<longleftrightarrow> True"

fun tree_weight :: "xccdf_item \<Rightarrow> rat" where
  "tree_weight (XCCDF_RULE base rule) = item_weight base"
| "tree_weight (XCCDF_GROUP base vs content) = item_weight base + sum_list (map tree_weight content)"
| "tree_weight (XCCDF_BENCHMARK base vs content) = item_weight base + sum_list (map tree_weight content)"
| "tree_weight (XCCDF_VALUE base v) = 0"

definition total_weight :: "(rat \<times> bool) list \<Rightarrow> rat" where
  "total_weight rs = sum_list (map fst rs)"

definition passing_weight :: "(rat \<times> bool) list \<Rightarrow> rat" where
  "passing_weight rs = sum_list (map fst (filter snd rs))"

lemma weight_simps [simp]:
  "total_weight [] = 0" "passing_weight [] = 0"
  "total_weight (rs @ rs') = total_weight rs + total_weight rs'"
  "passing_weight (rs @ rs') = passing_weight rs + passing_weight rs'"
  by (simp_all add: total_weight_def passing_weight_def)

lemma weight_single [simp]:
  "total_weight [(w, p)] = w" "passing_weight [(w, p)] = (if p then w else 0)"
  by (simp_all add: total_weight_def passing_weight_def)

lemma passing_le_total: "\<forall>(w, p)\<in>set rs. 0 \<le> w \<Longrightarrow> 0 \<le> passing_weight rs \<and> passing_weight rs \<le> total_weight rs"
  by (induction rs) (auto simp: passing_weight_def total_weight_def)

lemma passing_multiple: "\<forall>(w, p)\<in>set rs. multiple u w \<Longrightarrow> multiple u (total_weight rs) \<and> multiple u (passing_weight rs)"
  by (induction rs) (auto simp: total_weight_def passing_weight_def intro: multiple_add)

lemma multiples_nonneg: "0 < u \<Longrightarrow> \<forall>(w, p)\<in>set rs. multiple u w \<Longrightarrow> \<forall>(w, p)\<in>set rs. 0 \<le> w"
  using multiple_nonneg by fast

lemma scored_weights_ok: "weights_ok u item \<Longrightarrow> \<forall>(w, p)\<in>set (scored_rules rrs False item). multiple u w"
  by (induction rrs False item rule: scored_rules.induct) (auto simp: list_all_iff split: option.splits if_splits)

lemma tree_weight_nonneg: "0 < u \<Longrightarrow> weights_ok u item \<Longrightarrow> 0 \<le> tree_weight item"
  by (induction item rule: tree_weight.induct)
    (auto simp: list_all_iff multiple_nonneg intro!: add_nonneg_nonneg sum_list_nonneg)

lemma tree_weights_nonneg: "0 < u \<Longrightarrow> list_all (weights_ok u) items \<Longrightarrow> 0 \<le> sum_list (map tree_weight items)"
  by (intro sum_list_nonneg) (auto simp: list_all_iff tree_weight_nonneg)

lemma scored_concat: "total_weight (concat (map f items)) = sum_list (map (\<lambda>i. total_weight (f i)) items)"
  by (induction items) simp_all

lemma scored_le_tree: "0 < u \<Longrightarrow> weights_ok u item \<Longrightarrow> total_weight (scored_rules rrs False item) \<le> tree_weight item"
proof (induction rrs False item rule: scored_rules.induct)
  case (1 rrs base rule)
  then show ?case using multiple_nonneg by (auto split: option.splits)
next
  case (2 rrs base vs content)
  have "sum_list (map (\<lambda>i. total_weight (scored_rules rrs False i)) content) \<le> sum_list (map tree_weight content)"
    using 2 by (intro sum_list_mono) (auto simp: list_all_iff)
  moreover have "0 \<le> item_weight base" using 2 multiple_nonneg by auto
  ultimately show ?case by (simp add: scored_concat)
next
  case (3 rrs base vs content)
  have "sum_list (map (\<lambda>i. total_weight (scored_rules rrs False i)) content) \<le> sum_list (map tree_weight content)"
    using 3 by (intro sum_list_mono) (auto simp: list_all_iff)
  moreover have "0 \<le> item_weight base" using 3 multiple_nonneg by auto
  ultimately show ?case by (simp add: scored_concat)
qed simp

section \<open>Flat scores\<close>

text \<open>Sums that stay in the range are exact: a state of the sums with what is still to be added to it.\<close>

definition flat_ok :: "rat \<Rightarrow> flat_score \<Rightarrow> rat \<Rightarrow> bool" where
  "flat_ok u s pending \<longleftrightarrow> multiple u (fs_score s) \<and> multiple u (fs_weight s) \<and> fs_score s \<le> fs_weight s
     \<and> fs_weight s + pending \<le> 2 ^ 24 * u"

definition rules_sum :: "(rat \<times> bool) list \<Rightarrow> flat_score" where
  "rules_sum rs = \<lparr>fs_score = passing_weight rs, fs_weight = total_weight rs\<rparr>"

lemma flat_add:
  assumes "single_rounding rnd u" and "flat_ok u s (total_weight rs + pending)" and "\<forall>(w, p)\<in>set rs. multiple u w" and "0 \<le> pending"
  shows "rnd (fs_score s + passing_weight rs) = fs_score s + passing_weight rs
    \<and> rnd (fs_weight s + total_weight rs) = fs_weight s + total_weight rs
    \<and> flat_ok u \<lparr>fs_score = fs_score s + passing_weight rs, fs_weight = fs_weight s + total_weight rs\<rparr> pending"
proof -
  have u: "0 < u" using assms(1) by (simp add: single_rounding_def)
  have "passing_weight rs \<le> total_weight rs" using passing_le_total [OF multiples_nonneg [OF u assms(3)]] by simp
  moreover have "multiple u (fs_score s + passing_weight rs)" "multiple u (fs_weight s + total_weight rs)"
    using assms(2) passing_multiple [OF assms(3)] by (auto simp: flat_ok_def intro: multiple_add)
  moreover have "fs_weight s + total_weight rs \<le> 2 ^ 24 * u" "fs_score s \<le> fs_weight s"
    using assms(2,4) by (auto simp: flat_ok_def)
  ultimately show ?thesis
    using assms(2) by (auto simp: flat_ok_def intro!: rounding_exact [OF assms(1)])
qed

lemma zero_weights:
  assumes "0 < u" and "\<forall>(w, p)\<in>set rs. multiple u w" and "total_weight rs = 0"
  shows "passing_weight rs = 0"
  using passing_le_total [OF multiples_nonneg [OF assms(1,2)]] assms(3) by simp

lemma total_nonneg: "0 < u \<Longrightarrow> \<forall>(w, p)\<in>set rs. multiple u w \<Longrightarrow> 0 \<le> total_weight rs"
  using passing_multiple multiple_nonneg by blast

lemma flat_scores:
  "single_rounding rnd u \<Longrightarrow> \<forall>(w, p)\<in>set (scored_rules rrs unw item). multiple u w \<Longrightarrow>
   total_weight (scored_rules rrs unw item) \<le> 2 ^ 24 * u \<Longrightarrow>
     (case xccdf_item_get_flat_score rnd rrs unw item of
        None \<Rightarrow> scored_rules rrs unw item = []
      | Some s \<Rightarrow> s = rules_sum (scored_rules rrs unw item))"
  "single_rounding rnd u \<Longrightarrow> \<forall>(w, p)\<in>set (concat (map (scored_rules rrs unw) items)). multiple u w \<Longrightarrow>
   flat_ok u s (total_weight (concat (map (scored_rules rrs unw) items))) \<Longrightarrow>
     flat_score_children rnd rrs unw items s =
       \<lparr>fs_score = fs_score s + passing_weight (concat (map (scored_rules rrs unw) items)),
        fs_weight = fs_weight s + total_weight (concat (map (scored_rules rrs unw) items))\<rparr>"
proof (induction rnd rrs unw item and rnd rrs unw items s rule: xccdf_item_get_flat_score_flat_score_children.induct)
  case (1 rnd rrs unw base rule)
  show ?case
  proof (cases "find (\<lambda>rr. rr_idref rr = item_id base) rrs")
    case (Some rr)
    then show ?thesis by (cases "ignored_result (rr_result rr)") (simp_all add: rule_result_by_id_find Let_def rules_sum_def)
  qed (simp add: rule_result_by_id_find)
next
  case (6 rnd rrs unw child children score)
  let ?rs = "scored_rules rrs unw child" and ?more = "total_weight (concat (map (scored_rules rrs unw) children))"
  have u: "0 < u" using "6.prems"(1) by (simp add: single_rounding_def)
  have ok: "\<forall>(w, p)\<in>set ?rs. multiple u w" "\<forall>(w, p)\<in>set (concat (map (scored_rules rrs unw) children)). multiple u w"
    using "6.prems"(2) by auto
  have more: "0 \<le> ?more" "0 \<le> total_weight ?rs" using total_nonneg [OF u] ok by blast+
  have sum: "flat_ok u score (total_weight ?rs + ?more)" using "6.prems"(3) by simp
  have "0 \<le> fs_weight score" using sum u multiple_nonneg by (auto simp: flat_ok_def)
  then have range: "total_weight ?rs \<le> 2 ^ 24 * u" using sum more by (simp add: flat_ok_def)
  note one = "6.IH"(1) [OF "6.prems"(1) ok(1) range]
  show ?case
  proof (cases "xccdf_item_get_flat_score rnd rrs unw child")
    case None
    with one have none: "?rs = []" by simp
    then show ?thesis using None "6.IH"(2) [OF None "6.prems"(1) ok(2)] sum by simp
  next
    case (Some ch)
    with one have ch: "fs_weight ch = total_weight ?rs" "fs_score ch = passing_weight ?rs" by (auto simp: rules_sum_def)
    show ?thesis
    proof (cases "fs_weight ch = 0")
      case True
      with ch zero_weights [OF u ok(1)] have "total_weight ?rs = 0" "passing_weight ?rs = 0" by auto
      then show ?thesis using Some True "6.IH"(3) [OF Some True "6.prems"(1) ok(2)] sum by simp
    next
      case False
      note add = flat_add [OF "6.prems"(1) sum ok(1) more(1)]
      from add have eqs: "rnd (fs_score score + fs_score ch) = fs_score score + passing_weight ?rs"
        "rnd (fs_weight score + fs_weight ch) = fs_weight score + total_weight ?rs" by (simp_all add: ch)
      show ?thesis
        using Some False "6.IH"(4) [OF Some False "6.prems"(1) ok(2)] add by (simp add: eqs add.assoc)
    qed
  qed
qed (auto simp: rules_sum_def flat_ok_def)

section \<open>Default scores\<close>

text \<open>The default score of a node is a weighted mean of the scores below it.\<close>

definition default_ok :: "(rat \<Rightarrow> rat) \<Rightarrow> xccdf_item \<Rightarrow> default_score \<Rightarrow> bool" where
  "default_ok rnd item s \<longleftrightarrow>
     0 \<le> ds_score s \<and> ds_score s \<le> 100 \<and> ds_weight_score s = rnd (ds_score s * item_weight (item_base item))"

definition children_ok :: "rat \<Rightarrow> default_score \<Rightarrow> bool" where
  "children_ok u s \<longleftrightarrow> 0 \<le> ds_score s \<and> ds_score s \<le> 100 * ds_accumulator s \<and> (ds_count s = 0 \<longrightarrow> ds_score s = 0)
     \<and> multiple u (ds_accumulator s)"

lemma default_node:
  assumes "single_rounding rnd u" and "children_ok u s" and "item_base item = base"
  shows "default_ok rnd item (default_score_node rnd base s)"
proof (cases "ds_accumulator s = 0")
  case True
  with assms show ?thesis by (simp add: default_score_node_def default_ok_def children_ok_def Let_def)
next
  case False
  have "0 \<le> 100 * ds_accumulator s" using assms(2) unfolding children_ok_def by linarith
  with False have pos: "0 < ds_accumulator s" by simp
  let ?q = "ds_score s / ds_accumulator s"
  have "0 \<le> ?q" "?q \<le> 100" using assms(2) pos by (auto simp: children_ok_def divide_le_eq)
  then have "0 \<le> rnd ?q" "rnd ?q \<le> 100"
    using rounding_nonneg [OF assms(1)] rounding_mono [OF assms(1), of ?q 100] rounding_simps(2) [OF assms(1)] by auto
  with assms pos show ?thesis
    by (auto simp: default_score_node_def default_ok_def children_ok_def Let_def)
qed

lemma children_add:
  assumes "single_rounding rnd u" and "children_ok u s" and "default_ok rnd child ch"
    and "multiple u (item_weight (item_base child))"
    and "100 * (ds_accumulator s + item_weight (item_base child)) \<le> 2 ^ 24 * u"
  shows "children_ok u (s\<lparr>ds_score := rnd (ds_score s + ds_weight_score ch), ds_count := ds_count s + 1,
      ds_accumulator := rnd (ds_accumulator s + item_weight (item_base child))\<rparr>)"
proof -
  let ?w = "item_weight (item_base child)" and ?a = "ds_accumulator s"
  have u: "0 < u" using assms(1) by (simp add: single_rounding_def)
  have w: "0 \<le> ?w" "0 \<le> ?a" using assms(2,4) multiple_nonneg [OF _ u] by (auto simp: children_ok_def)
  have m: "multiple u (?a + ?w)" using assms(2,4) by (auto simp: children_ok_def intro: multiple_add)
  have acc: "rnd (?a + ?w) = ?a + ?w" using assms(5) w m by (intro rounding_exact [OF assms(1)]) auto
  have "ds_score ch * ?w \<le> 100 * ?w" using assms(3) w by (auto simp: default_ok_def mult_right_mono)
  then have "ds_weight_score ch \<le> rnd (100 * ?w)"
    using assms(3) rounding_mono [OF assms(1)] by (auto simp: default_ok_def)
  also have "rnd (100 * ?w) = 100 * ?w" using assms(4,5) w by (intro rounding_exact [OF assms(1)] multiple_times) auto
  finally have ch: "ds_weight_score ch \<le> 100 * ?w" .
  have ch0: "0 \<le> ds_weight_score ch" using assms(3) w by (auto simp: default_ok_def intro!: rounding_nonneg [OF assms(1)])
  have "ds_score s + ds_weight_score ch \<le> 100 * (?a + ?w)" using ch assms(2) by (simp add: children_ok_def distrib_left)
  then have "rnd (ds_score s + ds_weight_score ch) \<le> rnd (100 * (?a + ?w))" by (rule rounding_mono [OF assms(1)])
  also have "\<dots> = 100 * (?a + ?w)" using assms(5) m by (intro rounding_exact [OF assms(1)] multiple_times) auto
  finally have "rnd (ds_score s + ds_weight_score ch) \<le> 100 * (?a + ?w)" .
  moreover have "0 \<le> rnd (ds_score s + ds_weight_score ch)"
    using assms(2) ch0 by (intro rounding_nonneg [OF assms(1)]) (simp add: children_ok_def)
  ultimately show ?thesis using m by (simp add: children_ok_def acc)
qed

lemma weight_le_tree:
  assumes "0 < u" and "weights_ok u item" and "xccdf_item_get_default_score rnd rrs item = Some s"
  shows "multiple u (item_weight (item_base item)) \<and> item_weight (item_base item) \<le> tree_weight item"
  using assms tree_weights_nonneg by (cases item) auto

lemma default_scores:
  "single_rounding rnd u \<Longrightarrow> weights_ok u item \<Longrightarrow> 100 * tree_weight item \<le> 2 ^ 24 * u \<Longrightarrow>
     xccdf_item_get_default_score rnd rrs item = Some s \<Longrightarrow> default_ok rnd item s"
  "single_rounding rnd u \<Longrightarrow> list_all (weights_ok u) items \<Longrightarrow> children_ok u s0 \<Longrightarrow>
     100 * (ds_accumulator s0 + sum_list (map tree_weight items)) \<le> 2 ^ 24 * u \<Longrightarrow>
     children_ok u (default_score_children rnd rrs items s0)"
proof (induction rnd rrs item and rnd rrs items s0 arbitrary: s
    rule: xccdf_item_get_default_score_default_score_children.induct)
  case (1 rnd rrs base rule)
  then show ?case by (auto simp: default_ok_def Let_def split: option.splits if_splits)
next
  case (2 rnd rrs base vs content)
  have u: "0 < u" using "2.prems"(1) by (simp add: single_rounding_def)
  have "0 \<le> item_weight base" using "2.prems"(2) multiple_nonneg [OF _ u] by simp
  with 2 have "children_ok u (default_score_children rnd rrs content
      \<lparr>ds_score = 0, ds_accumulator = 0, ds_weight_score = 0, ds_count = 0\<rparr>)" by (simp add: children_ok_def)
  with 2 default_node [OF "2.prems"(1)] show ?case by auto
next
  case (3 rnd rrs base vs content)
  have u: "0 < u" using "3.prems"(1) by (simp add: single_rounding_def)
  have "0 \<le> item_weight base" using "3.prems"(2) multiple_nonneg [OF _ u] by simp
  with 3 have "children_ok u (default_score_children rnd rrs content
      \<lparr>ds_score = 0, ds_accumulator = 0, ds_weight_score = 0, ds_count = 0\<rparr>)" by (simp add: children_ok_def)
  with 3 default_node [OF "3.prems"(1)] show ?case by auto
next
  case (6 rnd rrs child children s0)
  have u: "0 < u" using "6.prems"(1) by (simp add: single_rounding_def)
  have ok: "weights_ok u child" "list_all (weights_ok u) children" using "6.prems" by auto
  have nonneg: "0 \<le> tree_weight child" "0 \<le> sum_list (map tree_weight children)" "0 \<le> ds_accumulator s0"
    using tree_weight_nonneg [OF u ok(1)] tree_weights_nonneg [OF u ok(2)] "6.prems"(3) multiple_nonneg [OF _ u]
    by (auto simp: children_ok_def)
  have range: "100 * (ds_accumulator s0 + sum_list (map tree_weight children)) \<le> 2 ^ 24 * u" "100 * tree_weight child \<le> 2 ^ 24 * u"
    using "6.prems"(4) nonneg by auto
  show ?case
  proof (cases "xccdf_item_get_default_score rnd rrs child")
    case None
    then show ?thesis using "6.IH"(2) [OF None "6.prems"(1) ok(2) "6.prems"(3) range(1)] by simp
  next
    case (Some ch)
    have ch: "default_ok rnd child ch" by (rule "6.IH"(1) [OF "6.prems"(1) ok(1) range(2) Some])
    show ?thesis
    proof (cases "ds_count ch = 0")
      case True
      then show ?thesis using Some "6.IH"(3) [OF Some True "6.prems"(1) ok(2) "6.prems"(3) range(1)] by simp
    next
      case False
      let ?w = "item_weight (item_base child)"
      have w: "multiple u ?w" "?w \<le> tree_weight child" using weight_le_tree [OF u ok(1) Some] by auto
      have "100 * (ds_accumulator s0 + ?w) \<le> 2 ^ 24 * u" using "6.prems"(4) nonneg(2) w(2) by simp
      note step = children_add [OF "6.prems"(1,3) ch w(1) this]
      have "rnd (ds_accumulator s0 + ?w) = ds_accumulator s0 + ?w"
        using "6.prems"(3,4) nonneg w multiple_nonneg [OF w(1) u]
        by (intro rounding_exact [OF "6.prems"(1)]) (auto simp: children_ok_def intro: multiple_add)
      then show ?thesis using Some False "6.IH"(4) [OF Some False "6.prems"(1) ok(2) step] "6.prems"(4) w(2) by simp
    qed
  qed
qed auto

lemma unweighted_count:
  "\<forall>(w, p)\<in>set rs. w = 1 \<Longrightarrow> total_weight rs = of_nat (length rs) \<and> passing_weight rs = of_nat (length (filter snd rs))"
  by (induction rs) (auto simp: total_weight_def passing_weight_def)

lemma unweighted_ones: "\<forall>(w, p)\<in>set (scored_rules rrs True item). w = 1"
  by (induction rrs True item rule: scored_rules.induct) (auto split: option.splits if_splits)

lemma passing_eq_total:
  "\<forall>(w, p)\<in>set rs. 0 \<le> w \<Longrightarrow> passing_weight rs = total_weight rs \<longleftrightarrow> \<not> (\<exists>(w, p)\<in>set rs. \<not> p \<and> w \<noteq> 0)"
proof (induction rs)
  case (Cons r rs)
  obtain w p where r: "r = (w, p)" by fastforce
  have "passing_weight rs \<le> total_weight rs" using passing_le_total [of rs] Cons.prems by auto
  with Cons show ?case by (auto simp: r passing_weight_def total_weight_def)
qed simp

text \<open>
  In exact arithmetic the range does not matter; with floats it does: a rule of weight 1 that fails beside one
  of weight \<open>2 ^ 24\<close> that passes is lost in the sum, and the absolute score is 1.
\<close>

lemma absolute_score_rounded:
  assumes "rnd (2 ^ 24) = 2 ^ 24" and "rnd (2 ^ 24 + 1) = 2 ^ 24"
    and "rrs = [\<lparr>rr_idref = ''a'', rr_result = XCCDF_RESULT_PASS, rr_weight = 2 ^ 24, rr_role = 0, rr_severity = 0, rr_checks = [], rr_message = None\<rparr>,
      \<lparr>rr_idref = ''b'', rr_result = XCCDF_RESULT_FAIL, rr_weight = 1, rr_role = 0, rr_severity = 0, rr_checks = [], rr_message = None\<rparr>]"
    and "item_id a = ''a''" and "item_weight a = 2 ^ 24" and "item_id b = ''b''" and "item_weight b = 1"
  shows "\<exists>m. xccdf_result_calculate_score rnd rrs (XCCDF_BENCHMARK base vs [XCCDF_RULE a r, XCCDF_RULE b q])
      ''urn:xccdf:scoring:absolute''
    = Some (Some \<lparr>score_system = ''urn:xccdf:scoring:absolute'', score_maximum = m, score_score = 1\<rparr>)"
  using assms
  by (simp add: xccdf_result_calculate_score_def rule_result_by_id_find ignored_result_def passing_result_def Let_def)

text \<open>
  C29. The scores of a benchmark, computed in floats: the default score lies between 0 and 100; the flat score
  is the weight of the scored rules that pass, of a maximum of the weight of all scored rules; unweighted, it
  counts the rules; the absolute score is 1 just when no scored rule with a weight fails. This holds for every
  monotone rounding that keeps numbers of 24 bits in the unit \<open>u\<close>, when the weights of items are multiples of
  \<open>u\<close>, not negative, and their sum is at most \<open>2 ^ 24 / 100\<close> units (and there are at most \<open>2 ^ 24\<close> rules):
  for whole weights, up to 167772 in total.
\<close>

theorem scores_correct:
  fixes rnd :: "rat \<Rightarrow> rat" and rrs benchmark
  defines "rules \<equiv> scored_rules rrs False benchmark" and "counted \<equiv> scored_rules rrs True benchmark"
    and "score \<equiv> xccdf_result_calculate_score rnd rrs benchmark"
  assumes "single_rounding rnd u" and "weights_ok u benchmark" and "100 * tree_weight benchmark \<le> 2 ^ 24 * u"
    and "length counted \<le> 2 ^ 24" and "benchmark = XCCDF_BENCHMARK base vs content"
  shows "(\<exists>d. score ''urn:xccdf:scoring:default''
            = Some (Some \<lparr>score_system = ''urn:xccdf:scoring:default'', score_maximum = 100, score_score = d\<rparr>) \<and> 0 \<le> d \<and> d \<le> 100)
    \<and> score ''urn:xccdf:scoring:flat''
        = Some (Some \<lparr>score_system = ''urn:xccdf:scoring:flat'', score_maximum = total_weight rules, score_score = passing_weight rules\<rparr>)
    \<and> score ''urn:xccdf:scoring:flat-unweighted''
        = Some (Some \<lparr>score_system = ''urn:xccdf:scoring:flat-unweighted'', score_maximum = of_nat (length counted),
                      score_score = of_nat (length (filter snd counted))\<rparr>)
    \<and> score ''urn:xccdf:scoring:absolute''
        = Some (Some \<lparr>score_system = ''urn:xccdf:scoring:absolute'', score_maximum = total_weight rules,
                      score_score = (if \<exists>(w, p)\<in>set rules. \<not> p \<and> w \<noteq> 0 then 0 else 1)\<rparr>)"
proof -
  have u: "0 < u" using assms(4) by (simp add: single_rounding_def)
  obtain s where d: "xccdf_item_get_default_score rnd rrs benchmark = Some s" using assms(8) by simp
  from default_scores(1) [OF assms(4-6) d] have ds: "0 \<le> ds_score s" "ds_score s \<le> 100" by (simp_all add: default_ok_def)
  have rules: "\<forall>(w, p)\<in>set rules. multiple u w" unfolding rules_def by (rule scored_weights_ok [OF assms(5)])
  have "total_weight rules \<le> tree_weight benchmark" unfolding rules_def by (rule scored_le_tree [OF u assms(5)])
  then have range: "total_weight rules \<le> 2 ^ 24 * u" using assms(6) tree_weight_nonneg [OF u assms(5)] by simp
  obtain f where f: "xccdf_item_get_flat_score rnd rrs False benchmark = Some f"
      "fs_weight f = total_weight rules" "fs_score f = passing_weight rules"
    using flat_scores(1) [OF assms(4), of rrs False benchmark] rules range assms(8) by (auto simp: rules_def rules_sum_def)
  have ones: "\<forall>(w, p)\<in>set counted. w = 1" unfolding counted_def by (rule unweighted_ones)
  note count = unweighted_count [OF ones]
  have r1: "single_rounding rnd 1" using assms(4) by (auto simp: single_rounding_def)
  have "\<forall>(w, p)\<in>set counted. multiple 1 w" using ones multiple_1 by fastforce
  moreover have "total_weight counted \<le> 2 ^ 24 * 1" using count assms(7) by (simp add: of_nat_le_iff [symmetric] del: of_nat_le_iff)
  ultimately obtain g where g: "xccdf_item_get_flat_score rnd rrs True benchmark = Some g"
      "fs_weight g = total_weight counted" "fs_score g = passing_weight counted"
    using flat_scores(1) [OF r1, of rrs True benchmark] assms(8) by (auto simp: counted_def rules_sum_def)
  note abs = passing_eq_total [OF multiples_nonneg [OF u rules]]
  show ?thesis
    using ds count by (simp add: score_def xccdf_result_calculate_score_def d f g abs)
qed

definition example_rule :: "string \<Rightarrow> rat \<Rightarrow> xccdf_item" where
  "example_rule name w = XCCDF_RULE \<lparr>item_id = name, item_cluster_id = None, item_weight = w, item_selected = True, item_platforms = []\<rparr>
     \<lparr>rule_role = 0, rule_severity = 0, rule_checks = []\<rparr>"

definition example_result :: "string \<Rightarrow> int \<Rightarrow> xccdf_rule_result" where
  "example_result name r = \<lparr>rr_idref = name, rr_result = r, rr_weight = 1, rr_role = 0, rr_severity = 0, rr_checks = [], rr_message = None\<rparr>"

text \<open>A rounding to whole numbers, towards minus infinity.\<close>

lemma floor_rounding: "single_rounding (\<lambda>x. of_int \<lfloor>x\<rfloor>) 1"
  by (simp add: single_rounding_def monoI floor_mono)

theorem scores_correct_witness:
  "xccdf_result_calculate_score (\<lambda>x. of_int \<lfloor>x\<rfloor>) [example_result ''a'' XCCDF_RESULT_PASS, example_result ''b'' XCCDF_RESULT_FAIL]
     (XCCDF_BENCHMARK \<lparr>item_id = ''x'', item_cluster_id = None, item_weight = 1, item_selected = True, item_platforms = []\<rparr> []
       [example_rule ''a'' 3, example_rule ''b'' 1, example_rule ''c'' 5]) ''urn:xccdf:scoring:flat''
   = Some (Some \<lparr>score_system = ''urn:xccdf:scoring:flat'', score_maximum = 4, score_score = 3\<rparr>)"
  (is "xccdf_result_calculate_score _ ?rrs ?benchmark _ = _")
proof -
  have m: "multiple 1 (of_nat k)" for k unfolding multiple_def by (rule exI [of _ k]) simp
  have ok: "weights_ok 1 ?benchmark" using m [of 1] m [of 3] m [of 5] by (simp add: example_rule_def)
  have range: "100 * tree_weight ?benchmark \<le> 2 ^ 24 * 1" by (simp add: example_rule_def)
  have counted: "length (scored_rules ?rrs True ?benchmark) \<le> 2 ^ 24"
    by (simp add: example_rule_def example_result_def ignored_result_def passing_result_def)
  have rules: "scored_rules ?rrs False ?benchmark = [(3, True), (1, False)]"
    by (simp add: example_rule_def example_result_def ignored_result_def passing_result_def)
  have "total_weight [(3, True), (1, False)] = 4" "passing_weight [(3, True), (1, False)] = 3"
    by (simp_all add: total_weight_def passing_weight_def)
  then show ?thesis
    using scores_correct [OF floor_rounding ok range counted refl] unfolding rules by simp
qed

end
