(* ===== verification/Cpe_Name.thy ===== *)
theory Cpe_Name
  imports Oscap_Util
begin

text \<open>
  CPE names, \<open>CPE/cpename.c\<close>: the names of platforms, their URI form of CPE 2.2 (with the attributes of
  2.3 packed into the edition) and their string form of CPE 2.3, and the matching of names.

  Characters are bytes. Which form a text has is decided by three constant patterns that the PCRE library
  is asked for; the library is the parameter \<open>re\<close>. A value of None where the code gives a pointer stands
  for a read beyond the end of a text or of an array.
\<close>

section \<open>Names and their fields\<close>

datatype cpe_part_t = CPE_PART_NONE | CPE_PART_HW | CPE_PART_OS | CPE_PART_APP

datatype cpe_format_t = CPE_FORMAT_UNKNOWN | CPE_FORMAT_URI | CPE_FORMAT_STRING | CPE_FORMAT_WFN

record cpe_name =
  cpe_format :: cpe_format_t
  cpe_part :: cpe_part_t
  cpe_vendor :: cstr
  cpe_product :: cstr
  cpe_version :: cstr
  cpe_update :: cstr
  cpe_edition :: cstr
  cpe_language :: cstr
  cpe_sw_edition :: cstr
  cpe_target_sw :: cstr
  cpe_target_hw :: cstr
  cpe_other :: cstr

abbreviation CPE_FIELD_EDITION :: nat where "CPE_FIELD_EDITION \<equiv> 5"
abbreviation CPE_BASIC_FIELDNUM :: nat where "CPE_BASIC_FIELDNUM \<equiv> 7"
abbreviation CPE_TOTAL_FIELDNUM :: nat where "CPE_TOTAL_FIELDNUM \<equiv> 11"

definition CPE_PART_MAP :: "cpe_part_t oscap_string_map list" where
  "CPE_PART_MAP = string_map_of [(CPE_PART_HW, ''h''), (CPE_PART_OS, ''o''), (CPE_PART_APP, ''a'')] CPE_PART_NONE"

interpretation cpe_parts: string_table CPE_PART_MAP
    "[(CPE_PART_HW, ''h''), (CPE_PART_OS, ''o''), (CPE_PART_APP, ''a'')]" CPE_PART_NONE
  by unfold_locales (auto simp: CPE_PART_MAP_def)

text \<open>The function \<open>cpe_get_field\<close>; an index of 11 or more gives NULL, behind an assertion.\<close>

definition cpe_get_field :: "cpe_name \<Rightarrow> nat \<Rightarrow> cstr" where
  "cpe_get_field cpe idx =
     (if idx = 0 then (case oscap_enum_to_string CPE_PART_MAP (cpe_part cpe) of None \<Rightarrow> None | Some s \<Rightarrow> s)
      else if idx = 1 then cpe_vendor cpe
      else if idx = 2 then cpe_product cpe
      else if idx = 3 then cpe_version cpe
      else if idx = 4 then cpe_update cpe
      else if idx = 5 then cpe_edition cpe
      else if idx = 6 then cpe_language cpe
      else if idx = 7 then cpe_sw_edition cpe
      else if idx = 8 then cpe_target_sw cpe
      else if idx = 9 then cpe_target_hw cpe
      else if idx = 10 then cpe_other cpe
      else None)"

definition cpe_fields_num :: "cpe_name \<Rightarrow> nat" where
  "cpe_fields_num cpe =
     fold (\<lambda>i maxnum. if cpe_get_field cpe i \<noteq> None then Suc i else maxnum) [0..<CPE_TOTAL_FIELDNUM] 0"

text \<open>
  Empty values are stored as NULL. The new value comes with the result. The index 11, at which the loop of
  \<open>cpe_name_new\<close> over packed attributes can arrive, fails an assertion; the default build has none
  (\<open>NDEBUG\<close>) and returns false.
\<close>

definition cpe_set_field :: "cpe_name \<Rightarrow> nat \<Rightarrow> cstr \<Rightarrow> bool \<times> cpe_name" where
  "cpe_set_field cpe idx newval =
     (let v = (if newval = Some [] then None else newval) in
      if idx = 0 then
        (let p = (case oscap_string_to_enum CPE_PART_MAP newval of None \<Rightarrow> CPE_PART_NONE | Some p \<Rightarrow> p)
         in (p \<noteq> CPE_PART_NONE, cpe\<lparr>cpe_part := p\<rparr>))
      else if idx = 1 then (True, cpe\<lparr>cpe_vendor := v\<rparr>)
      else if idx = 2 then (True, cpe\<lparr>cpe_product := v\<rparr>)
      else if idx = 3 then (True, cpe\<lparr>cpe_version := v\<rparr>)
      else if idx = 4 then (True, cpe\<lparr>cpe_update := v\<rparr>)
      else if idx = 5 then (True, cpe\<lparr>cpe_edition := v\<rparr>)
      else if idx = 6 then (True, cpe\<lparr>cpe_language := v\<rparr>)
      else if idx = 7 then (True, cpe\<lparr>cpe_sw_edition := v\<rparr>)
      else if idx = 8 then (True, cpe\<lparr>cpe_target_sw := v\<rparr>)
      else if idx = 9 then (True, cpe\<lparr>cpe_target_hw := v\<rparr>)
      else if idx = 10 then (True, cpe\<lparr>cpe_other := v\<rparr>)
      else (False, cpe))"

section \<open>Encoded texts\<close>

text \<open>None is the failure, after which the caller gives up the text.\<close>

fun cpe_urldecode :: "string \<Rightarrow> string option" where
  "cpe_urldecode [] = Some []"
| "cpe_urldecode (c # cs) =
     (if c = CHR ''%'' then
        (case cs of
           h # l # rest \<Rightarrow>
             if c_isxdigit h \<and> c_isxdigit l then
               (let out = 16 * hex_val h + hex_val l in
                if out = 0 then None else map_option ((#) (char_of out)) (cpe_urldecode rest))
             else None
         | _ \<Rightarrow> None)
      else map_option ((#) c) (cpe_urldecode cs))"

text \<open>
  \<open>snprintf\<close> writes at most three characters of \<open>%\<close> and the hexadecimal digits of the \<open>int\<close> that the
  (signed) character is promoted to.
\<close>

definition percent_encoded :: "char \<Rightarrow> string" where
  "percent_encoded c =
     (let v = of_char c :: nat in
      if v < 128 then [CHR ''%'', hex_digit (v div 16), hex_digit (v mod 16)] else ''%FF'')"

definition cpe_urlencode :: "string \<Rightarrow> string" where
  "cpe_urlencode str =
     concat (map (\<lambda>c. if c_isalnum c \<or> c \<in> set ''-._~'' then [c] else percent_encoded c) str)"

text \<open>
  The decoding of a field of the string form; \<open>out\<close> is what has been written before the output pointer.
  The colon that was escaped is written without moving the pointer on.
\<close>

fun cpestring_comp_decode :: "string \<Rightarrow> string \<Rightarrow> string option" where
  "cpestring_comp_decode out [] = Some out"
| "cpestring_comp_decode out (c # cs) =
     (if c = CHR 0x5C \<and> cs \<noteq> [] \<and> hd cs = CHR '':'' then cpestring_comp_decode out (tl cs)
      else if c = CHR ''%'' then
        (case cs of
           h # l # rest \<Rightarrow>
             if c_isxdigit h \<and> c_isxdigit l then
               (let v = 16 * hex_val h + hex_val l in
                if v = 0 then None else cpestring_comp_decode (out @ [char_of v]) rest)
             else None
         | _ \<Rightarrow> None)
      else cpestring_comp_decode (out @ [c]) cs)"

fun cpestring_comp_encode :: "string \<Rightarrow> string option" where
  "cpestring_comp_encode [] = Some []"
| "cpestring_comp_encode (c # cs) =
     (if c_isalnum c \<or> c \<in> set ''._~'' then map_option ((#) c) (cpestring_comp_encode cs)
      else if c = CHR 0x5C then
        (case cs of [] \<Rightarrow> None | d # ds \<Rightarrow> map_option (\<lambda>r. c # d # r) (cpestring_comp_encode ds))
      else if c = CHR '':'' then map_option (\<lambda>r. CHR 0x5C # c # r) (cpestring_comp_encode cs)
      else if c = CHR ''*'' \<or> c = CHR ''-'' then map_option ((#) c) (cpestring_comp_encode cs)
      else map_option ((@) (percent_encoded c)) (cpestring_comp_encode cs))"

section \<open>Reading names\<close>

text \<open>The three patterns of \<open>cpe_name_get_format_of_str\<close>, for the PCRE library.\<close>

datatype cpe_pattern = URI_PATTERN | STRING_PATTERN | WFN_PATTERN

definition cpe_name_get_format_of_str :: "(cpe_pattern \<Rightarrow> string \<Rightarrow> bool) \<Rightarrow> cstr \<Rightarrow> cpe_format_t" where
  "cpe_name_get_format_of_str re str =
     (case str of
        None \<Rightarrow> CPE_FORMAT_UNKNOWN
      | Some s \<Rightarrow>
          if re URI_PATTERN s then CPE_FORMAT_URI
          else if re STRING_PATTERN s then CPE_FORMAT_STRING
          else if re WFN_PATTERN s then CPE_FORMAT_WFN
          else CPE_FORMAT_UNKNOWN)"

definition cpe_name_check :: "(cpe_pattern \<Rightarrow> string \<Rightarrow> bool) \<Rightarrow> cstr \<Rightarrow> bool" where
  "cpe_name_check re str \<longleftrightarrow> cpe_name_get_format_of_str re str \<noteq> CPE_FORMAT_UNKNOWN"

definition cpe_zero :: "cpe_format_t \<Rightarrow> cpe_name" where
  "cpe_zero format = \<lparr>cpe_format = format, cpe_part = CPE_PART_NONE, cpe_vendor = None, cpe_product = None,
     cpe_version = None, cpe_update = None, cpe_edition = None, cpe_language = None, cpe_sw_edition = None,
     cpe_target_sw = None, cpe_target_hw = None, cpe_other = None\<rparr>"

text \<open>
  The loops of \<open>cpe_name_new\<close>. The results are None for a read beyond the fields of a split, \<open>Some None\<close> for NULL.
  First the attributes behind the edition, \<open>j\<close> the index of the loop.
\<close>

fun set_extended :: "nat \<Rightarrow> string list \<Rightarrow> cpe_name \<Rightarrow> cpe_name option option" where
  "set_extended j [] cpe = Some (Some cpe)"
| "set_extended j (attr # attribs) cpe =
     (if 5 \<le> j then Some (Some cpe)
      else (case cpe_urldecode attr of
              None \<Rightarrow> Some None
            | Some v \<Rightarrow>
                set_extended (j + 1) attribs (snd (cpe_set_field cpe (CPE_BASIC_FIELDNUM + j) (Some v)))))"

definition unpack_edition :: "nat \<Rightarrow> string \<Rightarrow> cpe_name \<Rightarrow> (string \<times> cpe_name) option option" where
  "unpack_edition i fld cpe =
     (if i = CPE_FIELD_EDITION \<and> 2 \<le> length fld \<and> hd fld = CHR ''~'' then
        (case oscap_split (tl fld) ''~'' of
           [] \<Rightarrow> None
         | edition # attribs \<Rightarrow> map_option (map_option (\<lambda>cpe'. (edition, cpe'))) (set_extended 0 attribs cpe))
      else Some (Some (fld, cpe)))"

fun set_uri_fields :: "nat \<Rightarrow> string list \<Rightarrow> cpe_name \<Rightarrow> cpe_name option option" where
  "set_uri_fields i [] cpe = Some (Some cpe)"
| "set_uri_fields i (fld # flds) cpe =
     (case unpack_edition i fld cpe of
        None \<Rightarrow> None
      | Some None \<Rightarrow> Some None
      | Some (Some (fld', cpe')) \<Rightarrow>
          (case cpe_urldecode fld' of
             None \<Rightarrow> Some None
           | Some v \<Rightarrow> set_uri_fields (i + 1) flds (snd (cpe_set_field cpe' i (Some v)))))"

fun set_string_fields :: "nat \<Rightarrow> string list \<Rightarrow> cpe_name \<Rightarrow> cpe_name option option" where
  "set_string_fields i [] cpe = Some (Some cpe)"
| "set_string_fields i (fld # flds) cpe =
     (if CPE_TOTAL_FIELDNUM \<le> i then Some (Some cpe)
      else (case cpestring_comp_decode [] fld of
              None \<Rightarrow> Some None
            | Some v \<Rightarrow> set_string_fields (i + 1) flds (snd (cpe_set_field cpe i (Some v)))))"

definition cpe_name_new :: "(cpe_pattern \<Rightarrow> string \<Rightarrow> bool) \<Rightarrow> cstr \<Rightarrow> cpe_name option option" where
  "cpe_name_new re cpestr =
     (let format = cpe_name_get_format_of_str re cpestr in
      case cpestr of
        None \<Rightarrow> Some (Some (cpe_zero format))
      | Some s \<Rightarrow>
          (case format of
             CPE_FORMAT_UNKNOWN \<Rightarrow> Some None
           | CPE_FORMAT_URI \<Rightarrow> set_uri_fields 0 (oscap_split (drop 5 s) '':'') (cpe_zero format)
           | CPE_FORMAT_STRING \<Rightarrow> set_string_fields 0 (oscap_split (drop 8 s) '':'') (cpe_zero format)
           | CPE_FORMAT_WFN \<Rightarrow> Some (Some (cpe_zero format))))"

section \<open>Writing names\<close>

definition as_str :: "cstr \<Rightarrow> string" where
  "as_str str = (case str of None \<Rightarrow> [] | Some s \<Rightarrow> s)"

definition cpe_has_extended_attributes :: "cpe_name \<Rightarrow> bool" where
  "cpe_has_extended_attributes cpe \<longleftrightarrow>
     (cpe_sw_edition cpe \<noteq> None \<and> cpe_sw_edition cpe \<noteq> Some []) \<or> (cpe_target_sw cpe \<noteq> None \<and> cpe_target_sw cpe \<noteq> Some [])
     \<or> (cpe_target_hw cpe \<noteq> None \<and> cpe_target_hw cpe \<noteq> Some []) \<or> (cpe_other cpe \<noteq> None \<and> cpe_other cpe \<noteq> Some [])"

definition cpe_pack_extended_attributes :: "cpe_name \<Rightarrow> string" where
  "cpe_pack_extended_attributes cpe =
     ''~'' @ cpe_urlencode (as_str (cpe_edition cpe)) @ ''~'' @ cpe_urlencode (as_str (cpe_sw_edition cpe))
     @ ''~'' @ cpe_urlencode (as_str (cpe_target_sw cpe)) @ ''~'' @ cpe_urlencode (as_str (cpe_target_hw cpe))
     @ ''~'' @ cpe_urlencode (as_str (cpe_other cpe))"

definition uri_part :: "cpe_name \<Rightarrow> nat \<Rightarrow> string" where
  "uri_part cpe i =
     (if i = CPE_FIELD_EDITION \<and> cpe_has_extended_attributes cpe then cpe_pack_extended_attributes cpe
      else cpe_urlencode (as_str (cpe_get_field cpe i)))"

text \<open>The outer None is the read beyond the end of a field that ends with a backslash, \<open>Some None\<close> is NULL.\<close>

definition cpe_name_get_as_format :: "cpe_name \<Rightarrow> cpe_format_t \<Rightarrow> cstr option" where
  "cpe_name_get_as_format cpe format =
     (case format of
        CPE_FORMAT_URI \<Rightarrow>
          Some (Some (rev (dropWhile (\<lambda>c. c = CHR '':'')
            (rev (''cpe:/'' @ c_join CHR '':'' (map (uri_part cpe) [0..<CPE_BASIC_FIELDNUM]))))))
      | CPE_FORMAT_STRING \<Rightarrow>
          (let parts = map (\<lambda>i. cpestring_comp_encode (as_str (cpe_get_field cpe i))) [0..<CPE_TOTAL_FIELDNUM] in
           if None \<in> set parts then None
           else Some (Some (''cpe:2.3:'' @ c_join CHR '':'' (map the parts))))
      | _ \<Rightarrow> Some None)"

definition cpe_name_get_as_str :: "cpe_name \<Rightarrow> cstr option" where
  "cpe_name_get_as_str cpe = cpe_name_get_as_format cpe (cpe_format cpe)"

section \<open>Matching names\<close>

fun fields_match :: "cpe_name \<Rightarrow> cpe_name \<Rightarrow> nat list \<Rightarrow> bool" where
  "fields_match cpe against [] = True"
| "fields_match cpe against (i # is) =
     (case cpe_get_field cpe i of
        None \<Rightarrow> fields_match cpe against is
      | Some cpefield \<Rightarrow>
          if strcasecmp cpefield (as_str (cpe_get_field against i)) \<noteq> 0 then False else fields_match cpe against is)"

definition cpe_name_match_one :: "cpe_name option \<Rightarrow> cpe_name option \<Rightarrow> bool" where
  "cpe_name_match_one cpe against =
     (case (cpe, against) of
        (Some c, Some a) \<Rightarrow>
          (if cpe_fields_num a < cpe_fields_num c then False else fields_match c a [0..<cpe_fields_num c])
      | _ \<Rightarrow> False)"

fun cpe_name_match_cpes :: "cpe_name \<Rightarrow> cpe_name list \<Rightarrow> bool" where
  "cpe_name_match_cpes name [] = False"
| "cpe_name_match_cpes name (n # ns) = (if cpe_name_match_one (Some name) (Some n) then True else cpe_name_match_cpes name ns)"

text \<open>The loop over the targets, \<open>i\<close> their index; None as in \<open>cpe_name_new\<close>.\<close>

fun match_targets :: "(cpe_pattern \<Rightarrow> string \<Rightarrow> bool) \<Rightarrow> cpe_name \<Rightarrow> int \<Rightarrow> string list \<Rightarrow> int option" where
  "match_targets re ccpe i [] = Some (-1)"
| "match_targets re ccpe i (t # ts) =
     (case cpe_name_new re (Some t) of
        None \<Rightarrow> None
      | Some tcpe \<Rightarrow> if cpe_name_match_one (Some ccpe) tcpe then Some i else match_targets re ccpe (i + 1) ts)"

definition cpe_name_match_strs :: "(cpe_pattern \<Rightarrow> string \<Rightarrow> bool) \<Rightarrow> string \<Rightarrow> string list \<Rightarrow> int option" where
  "cpe_name_match_strs re candidate targets =
     (case cpe_name_new re (Some candidate) of
        None \<Rightarrow> None
      | Some None \<Rightarrow> Some (-2)
      | Some (Some ccpe) \<Rightarrow> match_targets re ccpe 0 targets)"

end
