(* ===== verification/Cpe_Name_Props.thy ===== *)
theory Cpe_Name_Props
  imports Cpe_Name
begin

text \<open>
  A name written as a URI reads back as the same name, and what matching of names means field by field.
\<close>

section \<open>Encoding and decoding\<close>

text \<open>The characters that survive: seven bits, and not NUL, which ends a text.\<close>

definition plain_char :: "char \<Rightarrow> bool" where
  "plain_char c \<longleftrightarrow> 0 < (of_char c :: nat) \<and> (of_char c :: nat) < 128"

abbreviation unreserved :: "char \<Rightarrow> bool" where
  "unreserved c \<equiv> c_isalnum c \<or> c \<in> set ''-._~''"

lemma unreserved_not_special: "unreserved c \<Longrightarrow> c \<noteq> CHR ''%'' \<and> c \<noteq> CHR '':''"
  by (auto simp: ctype_defs char_bounds)

lemma urldecode_percent:
  assumes "plain_char c"
  shows "cpe_urldecode (percent_encoded c @ s) = map_option ((#) c) (cpe_urldecode s)"
proof -
  let ?v = "of_char c :: nat"
  have v: "?v div 16 < 16" "?v mod 16 < 16" "16 * (?v div 16) + ?v mod 16 = ?v" "?v \<noteq> 0" "?v < 128"
    using assms by (auto simp: plain_char_def)
  then have "percent_encoded c = [CHR ''%'', hex_digit (?v div 16), hex_digit (?v mod 16)]"
    by (simp add: percent_encoded_def Let_def)
  then show ?thesis using v by (simp add: Let_def)
qed

lemma urldecode_urlencode_append:
  "\<forall>c\<in>set s. plain_char c \<Longrightarrow> cpe_urldecode (cpe_urlencode s @ t) = map_option ((@) s) (cpe_urldecode t)"
proof (induction s)
  case (Cons c s)
  have rest: "cpe_urldecode (cpe_urlencode s @ t) = map_option ((@) s) (cpe_urldecode t)" using Cons by simp
  show ?case
  proof (cases "unreserved c")
    case True
    then have "c \<noteq> CHR ''%''" using unreserved_not_special by blast
    moreover have "cpe_urlencode (c # s) @ t = c # cpe_urlencode s @ t" using True by (simp add: cpe_urlencode_def)
    ultimately show ?thesis using rest by (cases "cpe_urldecode t") simp_all
  next
    case False
    then have "cpe_urlencode (c # s) @ t = percent_encoded c @ cpe_urlencode s @ t"
      by (simp add: cpe_urlencode_def)
    then show ?thesis using urldecode_percent [of c] Cons.prems rest by (cases "cpe_urldecode t") simp_all
  qed
next
  case Nil
  have "(@) ([] :: string) = (\<lambda>x. x)" by auto
  then show ?case by (simp add: cpe_urlencode_def option.map_ident)
qed

lemma urldecode_urlencode: "\<forall>c\<in>set s. plain_char c \<Longrightarrow> cpe_urldecode (cpe_urlencode s) = Some s"
  using urldecode_urlencode_append [of s "[]"] by simp

lemma hex_digit_alnum: "n < 16 \<Longrightarrow> c_isalnum (hex_digit n)"
  by (auto simp: ctype_defs char_bounds of_char_hex_digit)

text \<open>The characters of the pattern for URIs, \<open>[A-Za-z0-9._~%-]\<close>.\<close>

definition uri_char :: "char \<Rightarrow> bool" where
  "uri_char c \<longleftrightarrow> c_isalnum c \<or> c \<in> set ''._-~%''"

lemma percent_chars: "c \<in> set (percent_encoded d) \<Longrightarrow> c = CHR ''%'' \<or> c_isalnum c"
proof -
  assume c: "c \<in> set (percent_encoded d)"
  have F: "c_isalnum CHR ''F''" by code_simp
  show ?thesis
  proof (cases "(of_char d :: nat) < 128")
    case True
    then show ?thesis using c hex_digit_alnum by (auto simp: percent_encoded_def Let_def)
  next
    case False
    then show ?thesis using c F by (auto simp: percent_encoded_def Let_def)
  qed
qed

lemma urlencode_chars:
  assumes "c \<in> set (cpe_urlencode s)"
  shows "c_isalnum c \<or> c = CHR ''%'' \<or> (c \<in> set ''-._~'' \<and> c \<in> set s)"
proof -
  obtain d where d: "d \<in> set s" "c \<in> set (if unreserved d then [d] else percent_encoded d)"
    using assms by (auto simp: cpe_urlencode_def)
  then show ?thesis using percent_chars by (cases "unreserved d") auto
qed

lemma urlencode_uri_chars: "c \<in> set (cpe_urlencode s) \<Longrightarrow> uri_char c"
  using urlencode_chars [of c s] by (auto simp: uri_char_def)

lemma uri_char_not_colon: "uri_char c \<Longrightarrow> c \<noteq> CHR '':''"
  by (auto simp: uri_char_def ctype_defs char_bounds)

lemma urlencode_no_colon [simp]: "CHR '':'' \<notin> set (cpe_urlencode s)"
  using urlencode_uri_chars uri_char_not_colon by blast

lemma urlencode_tilde: "CHR ''~'' \<in> set (cpe_urlencode s) \<Longrightarrow> CHR ''~'' \<in> set s"
  using urlencode_chars [of "CHR ''~''" s] by (auto simp: ctype_defs char_bounds)

lemma urlencode_nil [simp]: "cpe_urlencode [] = []"
  by (simp add: cpe_urlencode_def)

section \<open>Reading fields\<close>

lemma set_field_other:
  assumes "j \<noteq> i"
  shows "cpe_get_field (snd (cpe_set_field c i v)) j = cpe_get_field c j"
proof (cases "i < 11")
  case True
  then have "i \<in> {0, 1, 2, 3, 4, 5, 6, 7, 8, 9, 10}" unfolding insert_iff empty_iff by arith
  then show ?thesis using assms by (auto simp: cpe_set_field_def cpe_get_field_def Let_def)
qed (simp add: cpe_set_field_def Let_def)

lemma cpe_same:
  "cpe_vendor c = None \<Longrightarrow> c\<lparr>cpe_vendor := None\<rparr> = c" "cpe_product c = None \<Longrightarrow> c\<lparr>cpe_product := None\<rparr> = c"
  "cpe_version c = None \<Longrightarrow> c\<lparr>cpe_version := None\<rparr> = c" "cpe_update c = None \<Longrightarrow> c\<lparr>cpe_update := None\<rparr> = c"
  "cpe_edition c = None \<Longrightarrow> c\<lparr>cpe_edition := None\<rparr> = c" "cpe_language c = None \<Longrightarrow> c\<lparr>cpe_language := None\<rparr> = c"
  "cpe_sw_edition c = None \<Longrightarrow> c\<lparr>cpe_sw_edition := None\<rparr> = c" "cpe_target_sw c = None \<Longrightarrow> c\<lparr>cpe_target_sw := None\<rparr> = c"
  "cpe_target_hw c = None \<Longrightarrow> c\<lparr>cpe_target_hw := None\<rparr> = c" "cpe_other c = None \<Longrightarrow> c\<lparr>cpe_other := None\<rparr> = c"
  by (cases c, simp)+

lemma set_field_empty:
  assumes "1 \<le> i" and "i < CPE_TOTAL_FIELDNUM" and "cpe_get_field c i = None"
  shows "cpe_set_field c i (Some []) = (True, c)"
proof -
  have "i \<in> {1, 2, 3, 4, 5, 6, 7, 8, 9, 10}" using assms(1,2) unfolding insert_iff empty_iff by arith
  then show ?thesis using assms(3)
    by (elim insertE emptyE; simp only:; simp add: cpe_set_field_def cpe_get_field_def Let_def cpe_same)
qed

lemma set_extended_other:
  "set_extended k as c = Some (Some c') \<Longrightarrow> j < 7 \<Longrightarrow> cpe_get_field c' j = cpe_get_field c j"
  by (induction k as c rule: set_extended.induct) (auto simp: set_field_other split: if_splits option.splits)

lemma unpack_other:
  "unpack_edition i f c = Some (Some (f', c')) \<Longrightarrow> j < 7 \<Longrightarrow> cpe_get_field c' j = cpe_get_field c j"
  using set_extended_other by (auto simp: unpack_edition_def split: if_splits list.splits)

lemma set_uri_fields_other:
  "set_uri_fields i flds c = Some (Some c') \<Longrightarrow> i + length flds \<le> j \<Longrightarrow> j < 7 \<Longrightarrow> cpe_get_field c' j = cpe_get_field c j"
proof (induction i flds c rule: set_uri_fields.induct)
  case (2 i fld flds c)
  obtain f1 c1 where u: "unpack_edition i fld c = Some (Some (f1, c1))" using "2.prems"(1) by (auto split: option.splits)
  obtain v where v: "cpe_urldecode f1 = Some v" using "2.prems"(1) u by (auto split: option.splits)
  let ?c2 = "snd (cpe_set_field c1 i (Some v))"
  have rest: "set_uri_fields (i + 1) flds ?c2 = Some (Some c')" using "2.prems"(1) u v by simp
  have "cpe_get_field c' j = cpe_get_field ?c2 j" using "2.IH" [OF u refl refl v rest] "2.prems"(2,3) by simp
  also have "\<dots> = cpe_get_field c1 j" using "2.prems"(2) by (simp add: set_field_other)
  also have "\<dots> = cpe_get_field c j" using unpack_other [OF u "2.prems"(3)] .
  finally show ?case .
qed simp

lemma set_uri_fields_append:
  "set_uri_fields i (xs @ ys) c = (case set_uri_fields i xs c of Some (Some c') \<Rightarrow> set_uri_fields (i + length xs) ys c' | r \<Rightarrow> r)"
  by (induction i xs c rule: set_uri_fields.induct) (auto split: option.splits)

lemma set_uri_fields_empties:
  "1 \<le> i \<Longrightarrow> i + k \<le> 7 \<Longrightarrow> \<forall>j. i \<le> j \<and> j < 7 \<longrightarrow> cpe_get_field c j = None \<Longrightarrow> set_uri_fields i (replicate k []) c = Some (Some c)"
proof (induction k arbitrary: i)
  case (Suc k)
  have "cpe_set_field c i (Some []) = (True, c)" using Suc.prems by (intro set_field_empty) auto
  then show ?case using Suc by (simp add: unpack_edition_def)
qed simp

text \<open>Empty fields at the end of a URI make no difference.\<close>

lemma set_uri_fields_trailing:
  assumes "set_uri_fields 0 (gs @ replicate k []) (cpe_zero format) = Some (Some n)" and "gs \<noteq> []" and "length gs + k \<le> 7"
  shows "set_uri_fields 0 gs (cpe_zero format) = Some (Some n)"
proof -
  obtain c where c: "set_uri_fields 0 gs (cpe_zero format) = Some (Some c)"
      "set_uri_fields (length gs) (replicate k []) c = Some (Some n)"
    using assms(1) by (auto simp: set_uri_fields_append split: option.splits)
  have "cpe_get_field c j = None" if "length gs \<le> j" "j < 7" for j
  proof -
    have "j \<in> {1, 2, 3, 4, 5, 6}" using that assms(2) by (cases gs) auto
    then have "cpe_get_field (cpe_zero format) j = None" by (auto simp: cpe_get_field_def cpe_zero_def)
    then show ?thesis using set_uri_fields_other [OF c(1)] that by simp
  qed
  then have "set_uri_fields (length gs) (replicate k []) c = Some (Some c)"
    using assms(2,3) by (intro set_uri_fields_empties) (auto simp: Suc_le_eq)
  with c show ?thesis by simp
qed

section \<open>The URI of a name\<close>

text \<open>
  Names a URI can express: the format says so, values are texts of plain characters, not empty, and those
  that may be packed into the edition have no tilde.
\<close>

definition value_ok :: "cstr \<Rightarrow> bool" where
  "value_ok v \<longleftrightarrow> (case v of None \<Rightarrow> True | Some s \<Rightarrow> s \<noteq> [] \<and> list_all plain_char s)"

definition no_tilde :: "cstr \<Rightarrow> bool" where
  "no_tilde v \<longleftrightarrow> CHR ''~'' \<notin> set (as_str v)"

definition uri_name :: "cpe_name \<Rightarrow> bool" where
  "uri_name n \<longleftrightarrow> cpe_format n = CPE_FORMAT_URI \<and> list_all (\<lambda>i. value_ok (cpe_get_field n i)) [1, 2, 3, 4, 5, 6, 7, 8, 9, 10]
     \<and> list_all (\<lambda>i. no_tilde (cpe_get_field n i)) [5, 7, 8, 9, 10]"

lemma decode_value: "value_ok v \<Longrightarrow> cpe_urldecode (cpe_urlencode (as_str v)) = Some (as_str v)"
  by (cases v) (auto simp: value_ok_def as_str_def list_all_iff urldecode_urlencode)

lemma value_stored: "value_ok v \<Longrightarrow> (if as_str v = [] then None else Some (as_str v)) = v"
  by (cases v) (auto simp: value_ok_def as_str_def)

lemma value_not_empty: "value_ok v \<Longrightarrow> v \<noteq> Some []"
  by (auto simp: value_ok_def)

lemma part_stored:
  "(case oscap_string_to_enum CPE_PART_MAP (Some (as_str (cpe_get_field n 0))) of None \<Rightarrow> CPE_PART_NONE | Some p \<Rightarrow> p) = cpe_part n"
  by (cases "cpe_part n") (simp_all add: cpe_get_field_def as_str_def CPE_PART_MAP_def string_map_of_def)

lemma decode_part: "cpe_urldecode (cpe_urlencode (as_str (cpe_get_field n 0))) = Some (as_str (cpe_get_field n 0))"
  by (rule urldecode_urlencode, cases "cpe_part n")
    (simp_all add: cpe_get_field_def as_str_def CPE_PART_MAP_def string_map_of_def plain_char_def)

lemma tilde_free: "no_tilde v \<Longrightarrow> CHR ''~'' \<notin> set (cpe_urlencode (as_str v))"
  using urlencode_tilde by (auto simp: no_tilde_def)

lemma unpack_packed:
  assumes "uri_name n" and "cpe_has_extended_attributes n"
  shows "unpack_edition 5 (uri_part n 5) c =
    Some (Some (cpe_urlencode (as_str (cpe_edition n)),
      c\<lparr>cpe_sw_edition := cpe_sw_edition n, cpe_target_sw := cpe_target_sw n, cpe_target_hw := cpe_target_hw n,
        cpe_other := cpe_other n\<rparr>))"
proof -
  have ok: "value_ok (cpe_sw_edition n)" "value_ok (cpe_target_sw n)" "value_ok (cpe_target_hw n)" "value_ok (cpe_other n)"
    and t: "no_tilde (cpe_edition n)" "no_tilde (cpe_sw_edition n)" "no_tilde (cpe_target_sw n)" "no_tilde (cpe_target_hw n)"
      "no_tilde (cpe_other n)"
    using assms(1) by (simp_all add: uri_name_def cpe_get_field_def)
  have "c_split CHR ''~'' (tl (uri_part n 5)) = map (\<lambda>v. cpe_urlencode (as_str v))
      [cpe_edition n, cpe_sw_edition n, cpe_target_sw n, cpe_target_hw n, cpe_other n]"
    using assms(2) t by (simp add: uri_part_def cpe_pack_extended_attributes_def c_split_append c_split_single tilde_free)
  moreover have "set_extended 0 (map (\<lambda>v. cpe_urlencode (as_str v)) [cpe_sw_edition n, cpe_target_sw n, cpe_target_hw n, cpe_other n]) c
     = Some (Some (c\<lparr>cpe_sw_edition := cpe_sw_edition n, cpe_target_sw := cpe_target_sw n, cpe_target_hw := cpe_target_hw n,
        cpe_other := cpe_other n\<rparr>))"
    using ok [THEN value_stored] by (simp add: decode_value ok cpe_set_field_def Let_def)
  ultimately show ?thesis
    using assms(2) by (simp add: unpack_edition_def oscap_split_eq uri_part_def cpe_pack_extended_attributes_def)
qed

lemma unpack_plain:
  assumes "uri_name n" and "\<not> cpe_has_extended_attributes n"
  shows "unpack_edition 5 (uri_part n 5) c = Some (Some (cpe_urlencode (as_str (cpe_edition n)), c))"
proof -
  have "no_tilde (cpe_edition n)" using assms(1) by (simp add: uri_name_def cpe_get_field_def)
  then have "CHR ''~'' \<notin> set (cpe_urlencode (as_str (cpe_edition n)))" by (rule tilde_free)
  moreover have "uri_part n 5 = cpe_urlencode (as_str (cpe_edition n))" using assms(2) by (simp add: uri_part_def cpe_get_field_def)
  ultimately show ?thesis by (cases "cpe_urlencode (as_str (cpe_edition n))") (auto simp: unpack_edition_def)
qed

lemma no_extended:
  assumes "uri_name n" and "\<not> cpe_has_extended_attributes n"
  shows "cpe_sw_edition n = None" "cpe_target_sw n = None" "cpe_target_hw n = None" "cpe_other n = None"
  using assms by (auto simp: uri_name_def cpe_get_field_def cpe_has_extended_attributes_def value_ok_def split: option.splits)

text \<open>The loop over all seven fields sets the fields of the name.\<close>

lemma unpack_other_index: "i \<noteq> 5 \<Longrightarrow> unpack_edition i fld c = Some (Some (fld, c))"
  by (simp add: unpack_edition_def)

lemma uri_part_other: "i \<noteq> 5 \<Longrightarrow> uri_part n i = cpe_urlencode (as_str (cpe_get_field n i))"
  by (simp add: uri_part_def)

lemma seven: "[0..<7] = [0, 1, 2, 3, 4, 5, 6 :: nat]"
  by (simp add: upt_rec)

lemma set_value: "value_ok v \<Longrightarrow> (if Some (as_str v) = Some [] then None else Some (as_str v)) = v"
  using value_stored [of v] by simp

lemma read_parts:
  assumes "uri_name n"
  shows "set_uri_fields 0 (map (uri_part n) [0..<7]) (cpe_zero CPE_FORMAT_URI) = Some (Some n)"
proof -
  define c0 where "c0 = (cpe_zero CPE_FORMAT_URI)\<lparr>cpe_part := cpe_part n, cpe_vendor := cpe_vendor n, cpe_product := cpe_product n,
    cpe_version := cpe_version n, cpe_update := cpe_update n\<rparr>"
  have ok: "value_ok (cpe_vendor n)" "value_ok (cpe_product n)" "value_ok (cpe_version n)"
      "value_ok (cpe_update n)" "value_ok (cpe_edition n)" "value_ok (cpe_language n)"
    and fmt: "cpe_format n = CPE_FORMAT_URI"
    using assms by (simp_all add: uri_name_def cpe_get_field_def)
  have get: "cpe_get_field n 1 = cpe_vendor n" "cpe_get_field n 2 = cpe_product n" "cpe_get_field n 3 = cpe_version n"
    "cpe_get_field n 4 = cpe_update n" "cpe_get_field n 6 = cpe_language n" by (simp_all add: cpe_get_field_def)
  note set = set_value [OF ok(1)] set_value [OF ok(2)] set_value [OF ok(3)] set_value [OF ok(4)] set_value [OF ok(5)] set_value [OF ok(6)]
  note dec = decode_value [OF ok(1)] decode_value [OF ok(2)] decode_value [OF ok(3)] decode_value [OF ok(4)]
    decode_value [OF ok(5)] decode_value [OF ok(6)]
  have start: "set_uri_fields 0 (map (uri_part n) [0, 1, 2, 3, 4]) (cpe_zero CPE_FORMAT_URI) = Some (Some c0)"
    using set(1-4) dec(1-4) part_stored [of n] decode_part [of n]
    by (simp add: unpack_other_index uri_part_other get [simplified] cpe_set_field_def Let_def c0_def)
  have all: "c0\<lparr>cpe_sw_edition := cpe_sw_edition n, cpe_target_sw := cpe_target_sw n, cpe_target_hw := cpe_target_hw n,
      cpe_other := cpe_other n, cpe_edition := cpe_edition n, cpe_language := cpe_language n\<rparr> = n"
    using fmt by (cases n) (simp add: c0_def cpe_zero_def)
  have rest: "set_uri_fields 5 (map (uri_part n) [5, 6]) c0 = Some (Some n)"
  proof (cases "cpe_has_extended_attributes n")
    case True
    show ?thesis
      using unpack_packed [OF assms True, of c0] set(5,6) dec(5,6) all
      by (simp add: unpack_other_index uri_part_other get [simplified] cpe_set_field_def Let_def)
  next
    case False
    have c0: "c0\<lparr>cpe_edition := cpe_edition n, cpe_language := cpe_language n\<rparr> = n"
      using fmt no_extended [OF assms False] by (cases n) (simp add: c0_def cpe_zero_def)
    show ?thesis
      using unpack_plain [OF assms False, of c0] set(5,6) dec(5,6) c0
      by (simp add: unpack_other_index uri_part_other get [simplified] cpe_set_field_def Let_def)
  qed
  have parts: "map (uri_part n) [0..<7] = map (uri_part n) [0, 1, 2, 3, 4] @ map (uri_part n) [5, 6]" by (simp add: seven)
  have len: "0 + length (map (uri_part n) [0, 1, 2, 3, 4]) = 5" by simp
  show ?thesis unfolding parts set_uri_fields_append start len by (simp only: rest option.case)
qed

text \<open>Taking colons off the end takes empty fields off the end.\<close>

lemma strip_fields:
  assumes "fs \<noteq> []" and "\<forall>f\<in>set fs. CHR '':'' \<notin> set f" and "p \<noteq> []" and "last p \<noteq> CHR '':''"
  shows "\<exists>gs k. gs \<noteq> [] \<and> fs = gs @ replicate k []
    \<and> rev (dropWhile (\<lambda>c. c = CHR '':'') (rev (p @ c_join CHR '':'' fs))) = p @ c_join CHR '':'' gs"
  using assms(1,2)
proof (induction fs rule: rev_induct)
  case (snoc f fs)
  have kept: "rev (dropWhile (\<lambda>c. c = CHR '':'') (rev (q @ f))) = q @ f" if "f \<noteq> []" for q
    using that snoc.prems(2) by (cases f rule: rev_cases) auto
  show ?case
  proof (cases "f = []")
    case False
    then show ?thesis
    proof (cases "fs = []")
      case True
      then show ?thesis using kept [OF False, of p] by (intro exI [of _ "[f]"] exI [of _ 0]) simp
    next
      case fs: False
      have "rev (dropWhile (\<lambda>c. c = CHR '':'') (rev (p @ c_join CHR '':'' (fs @ [f])))) = p @ c_join CHR '':'' (fs @ [f])"
        using kept [OF False, of "p @ c_join CHR '':'' fs @ '':''"] fs by (simp add: join_snoc)
      then show ?thesis by (intro exI [of _ "fs @ [f]"] exI [of _ 0]) simp
    qed
  next
    case True
    show ?thesis
    proof (cases "fs = []")
      case fs: True
      have "rev (dropWhile (\<lambda>c. c = CHR '':'') (rev p)) = p" using assms(3,4) by (cases p rule: rev_cases) auto
      then show ?thesis using True fs by (intro exI [of _ "[f]"] exI [of _ 0]) simp
    next
      case fs: False
      with snoc obtain gs k where "gs \<noteq> []" "fs = gs @ replicate k []"
        "rev (dropWhile (\<lambda>c. c = CHR '':'') (rev (p @ c_join CHR '':'' fs))) = p @ c_join CHR '':'' gs" by auto
      moreover have "fs @ [f] = gs @ replicate (Suc k) []" using calculation(2) True by (simp add: replicate_append_same)
      moreover have "c_join CHR '':'' (fs @ [f]) = c_join CHR '':'' fs @ '':''" using True fs by (simp add: join_snoc)
      ultimately show ?thesis by (intro exI [of _ gs] exI [of _ "Suc k"]) simp
    qed
  qed
qed simp

text \<open>
  The pattern for URIs, \<open>^[cC][pP][eE]:/[AHOaho]?(:[A-Za-z0-9._~%-]*){0,6}$\<close>, on texts that do not end with a
  line break.
\<close>

definition uri_syntax :: "string \<Rightarrow> bool" where
  "uri_syntax s \<longleftrightarrow> map c_tolower (take 5 s) = ''cpe:/''
     \<and> (let flds = c_split CHR '':'' (drop 5 s) in
         hd flds \<in> {[], ''A'', ''H'', ''O'', ''a'', ''h'', ''o''} \<and> length flds \<le> 7 \<and> list_all (list_all uri_char) flds)"

lemma uri_syntaxI:
  assumes "c_split CHR '':'' d = flds" and "hd flds \<in> {[], ''A'', ''H'', ''O'', ''a'', ''h'', ''o''}" and "length flds \<le> 7"
    and "list_all (list_all uri_char) flds"
  shows "uri_syntax (''cpe:/'' @ d)"
proof -
  have "map c_tolower ''cpe:/'' = ''cpe:/''" by code_simp
  moreover have "take 5 (''cpe:/'' @ d) = ''cpe:/''" "drop 5 (''cpe:/'' @ d) = d" by simp_all
  ultimately show ?thesis unfolding uri_syntax_def Let_def by (simp only: assms simp_thms)
qed

lemma uri_part_chars: "uri_name n \<Longrightarrow> c \<in> set (uri_part n i) \<Longrightarrow> uri_char c"
  using urlencode_uri_chars
  by (auto simp: uri_part_def cpe_pack_extended_attributes_def uri_char_def split: if_splits)

lemma part_text: "uri_part n 0 \<in> {[], ''a'', ''h'', ''o''}"
proof (cases "cpe_part n")
  case CPE_PART_NONE
  then show ?thesis by (simp add: uri_part_def cpe_get_field_def as_str_def CPE_PART_MAP_def string_map_of_def)
qed (simp_all add: uri_part_def cpe_get_field_def as_str_def CPE_PART_MAP_def string_map_of_def cpe_urlencode_def ctype_defs char_bounds)

lemma written_uri:
  assumes "uri_name n"
  shows "\<exists>gs k. gs \<noteq> [] \<and> map (uri_part n) [0..<7] = gs @ replicate k []
    \<and> cpe_name_get_as_format n CPE_FORMAT_URI = Some (Some (''cpe:/'' @ c_join CHR '':'' gs))
    \<and> c_split CHR '':'' (c_join CHR '':'' gs) = gs"
proof -
  have "CHR '':'' \<notin> set (uri_part n i)" for i using uri_part_chars [OF assms] uri_char_not_colon by blast
  then have colon: "\<forall>f\<in>set (map (uri_part n) [0..<7]). CHR '':'' \<notin> set f" by auto
  obtain gs k where gs: "gs \<noteq> []" "map (uri_part n) [0..<7] = gs @ replicate k []"
    "rev (dropWhile (\<lambda>c. c = CHR '':'') (rev (''cpe:/'' @ c_join CHR '':'' (map (uri_part n) [0..<7])))) = ''cpe:/'' @ c_join CHR '':'' gs"
    using strip_fields [OF _ colon, of "''cpe:/''"] by auto
  have "\<forall>f\<in>set gs. CHR '':'' \<notin> set f" using colon unfolding gs(2) by simp
  with gs show ?thesis by (auto simp: cpe_name_get_as_format_def c_split_join simp del: upt_rec_numeral)
qed

text \<open>
  Without the condition on tildes this fails: the edition of \<open>cpe:/a:v::::%7eabc\<close> is \<open>~abc\<close>, which is written
  as it is and read back as packed attributes, of which the first is the edition.
\<close>

lemma edition_tilde_lost:
  defines "n \<equiv> \<lparr>cpe_format = CPE_FORMAT_URI, cpe_part = CPE_PART_APP, cpe_vendor = Some ''v'', cpe_product = None,
     cpe_version = None, cpe_update = None, cpe_edition = Some ''~abc'', cpe_language = None, cpe_sw_edition = None,
     cpe_target_sw = None, cpe_target_hw = None, cpe_other = None\<rparr>"
  shows "set_uri_fields 0 (oscap_split ''a:v::::%7eabc'' '':'') (cpe_zero CPE_FORMAT_URI) = Some (Some n)
     \<and> cpe_name_get_as_format n CPE_FORMAT_URI = Some (Some ''cpe:/a:v::::~abc'')
     \<and> set_uri_fields 0 (oscap_split ''a:v::::~abc'' '':'') (cpe_zero CPE_FORMAT_URI) = Some (Some (n\<lparr>cpe_edition := Some ''abc''\<rparr>))"
  unfolding n_def by code_simp

text \<open>
  C31. A name of the URI format (\<open>uri_name\<close>) is written as a text that the pattern for URIs accepts, and
  reading that text gives the name back. The values of such a name are texts of 7-bit characters, not empty,
  and neither the edition nor an extended attribute, which may be packed into one field, has a tilde.
\<close>

theorem cpe_uri_roundtrip:
  assumes "uri_name n" and "\<forall>s. uri_syntax s \<longrightarrow> re URI_PATTERN s"
  shows "\<exists>s. cpe_name_get_as_str n = Some (Some s) \<and> uri_syntax s \<and> cpe_name_new re (Some s) = Some (Some n)"
proof -
  obtain gs k where gs: "gs \<noteq> []" "map (uri_part n) [0..<7] = gs @ replicate k []"
    and written: "cpe_name_get_as_format n CPE_FORMAT_URI = Some (Some (''cpe:/'' @ c_join CHR '':'' gs))"
    and split: "c_split CHR '':'' (c_join CHR '':'' gs) = gs"
    using written_uri [OF assms(1)] by blast
  let ?s = "''cpe:/'' @ c_join CHR '':'' gs"
  have len: "length gs + k = 7" using arg_cong [OF gs(2), of length] by simp
  have "hd gs = uri_part n 0" using gs(1) arg_cong [OF gs(2), of hd] by (simp add: seven)
  then have hd: "hd gs \<in> {[], ''a'', ''h'', ''o''}" using part_text [of n] by simp
  have "set gs \<subseteq> set (map (uri_part n) [0..<7])" unfolding gs(2) by simp
  then have "list_all (list_all uri_char) gs" using uri_part_chars [OF assms(1)] by (fastforce simp: list_all_iff)
  note chars = this
  have hd': "hd gs \<in> {[], ''A'', ''H'', ''O'', ''a'', ''h'', ''o''}" using hd by blast
  have le: "length gs \<le> 7" using len by simp
  have uri: "uri_syntax ?s" by (rule uri_syntaxI [OF split hd' le chars])
  have fmt: "cpe_format n = CPE_FORMAT_URI" using assms(1) by (simp add: uri_name_def)
  have "set_uri_fields 0 gs (cpe_zero CPE_FORMAT_URI) = Some (Some n)"
  proof (rule set_uri_fields_trailing [OF _ gs(1)])
    show "set_uri_fields 0 (gs @ replicate k []) (cpe_zero CPE_FORMAT_URI) = Some (Some n)"
      using read_parts [OF assms(1)] unfolding gs(2) .
    show "length gs + k \<le> 7" using len by simp
  qed
  moreover have "cpe_name_get_format_of_str re (Some ?s) = CPE_FORMAT_URI"
    using assms(2) uri by (simp add: cpe_name_get_format_of_str_def)
  ultimately have "cpe_name_new re (Some ?s) = Some (Some n)"
    by (simp add: cpe_name_new_def oscap_split_eq split)
  with written uri fmt show ?thesis by (auto simp: cpe_name_get_as_str_def)
qed

definition example_name :: cpe_name where
  "example_name = (cpe_zero CPE_FORMAT_URI)\<lparr>cpe_part := CPE_PART_OS, cpe_vendor := Some ''red hat'', cpe_product := Some ''linux'',
     cpe_target_hw := Some ''x86''\<rparr>"

theorem cpe_uri_roundtrip_witness:
  "cpe_name_get_as_str example_name = Some (Some ''cpe:/o:red%20hat:linux:::~~~~x86~'')
   \<and> cpe_name_new (\<lambda>p s. p = URI_PATTERN \<and> uri_syntax s) (Some ''cpe:/o:red%20hat:linux:::~~~~x86~'') = Some (Some example_name)"
proof -
  have "uri_name example_name" by code_simp
  note trip = cpe_uri_roundtrip [OF this, of "\<lambda>p s. p = URI_PATTERN \<and> uri_syntax s"]
  have "cpe_name_get_as_str example_name = Some (Some ''cpe:/o:red%20hat:linux:::~~~~x86~'')" by code_simp
  then show ?thesis using trip by auto
qed

section \<open>Matching\<close>

lemma fields_match_all:
  "fields_match c a is \<longleftrightarrow>
     list_all (\<lambda>i. case cpe_get_field c i of None \<Rightarrow> True | Some f \<Rightarrow> strcasecmp f (as_str (cpe_get_field a i)) = 0) is"
  by (induction c a "is" rule: fields_match.induct) (auto split: option.splits)

fun fields_below :: "cpe_name \<Rightarrow> nat \<Rightarrow> nat" where
  "fields_below c 0 = 0"
| "fields_below c (Suc i) = (if cpe_get_field c i \<noteq> None then Suc i else fields_below c i)"

lemma fields_num_below: "cpe_fields_num c = fields_below c 11"
proof -
  have "fold (\<lambda>i maxnum. if cpe_get_field c i \<noteq> None then Suc i else maxnum) [0..<n] 0 = fields_below c n" for n
  proof (induction n)
    case (Suc n)
    then show ?case by (cases "cpe_get_field c n") auto
  qed simp
  then show ?thesis by (simp only: cpe_fields_num_def)
qed

lemma fields_below_le: "fields_below c n \<le> n"
  by (induction n) auto

lemma fields_below_none: "fields_below c n \<le> i \<Longrightarrow> i < n \<Longrightarrow> cpe_get_field c i = None"
  by (induction n) (auto simp: less_Suc_eq split: if_splits)

lemma fields_below_last: "fields_below c n = Suc m \<Longrightarrow> cpe_get_field c m \<noteq> None"
  by (induction n) (auto split: if_splits)

lemma fields_num_spec:
  "cpe_fields_num c \<le> 11" "cpe_fields_num c \<le> i \<Longrightarrow> i < 11 \<Longrightarrow> cpe_get_field c i = None"
  "cpe_fields_num c = Suc m \<Longrightarrow> cpe_get_field c m \<noteq> None"
  by (metis fields_num_below fields_below_le, metis fields_num_below fields_below_none, metis fields_num_below fields_below_last)

text \<open>
  A name matches another one when each of its fields that is set is, but for case, that field of the other;
  the comparison of the numbers of fields decides nothing when no field is set to an empty text.
\<close>

lemma cpe_match_fieldwise:
  assumes "\<forall>i<11. cpe_get_field c i \<noteq> Some []"
  shows "cpe_name_match_one (Some c) (Some a) \<longleftrightarrow>
    (\<forall>i<11. \<forall>f. cpe_get_field c i = Some f \<longrightarrow> strcasecmp f (as_str (cpe_get_field a i)) = 0)"
proof -
  have enough: "cpe_fields_num c \<le> cpe_fields_num a"
    if all: "\<forall>i<11. \<forall>f. cpe_get_field c i = Some f \<longrightarrow> strcasecmp f (as_str (cpe_get_field a i)) = 0"
  proof (cases "cpe_fields_num c")
    case (Suc m)
    then obtain f where f: "cpe_get_field c m = Some f" using fields_num_spec(3) by blast
    have m: "m < 11" using fields_num_spec(1) [of c] Suc by simp
    have eq: "strcasecmp f (as_str (cpe_get_field a m)) = 0" using all f m by blast
    have "f \<noteq> []" using assms f m by blast
    then have "cpe_get_field a m \<noteq> None" using eq by (cases "cpe_get_field a m") (auto simp: as_str_def strcasecmp_eq_0)
    then have "\<not> cpe_fields_num a \<le> m" using fields_num_spec(2) [OF _ m, of a] by auto
    then show ?thesis using Suc by simp
  qed simp
  let ?P = "\<lambda>i. case cpe_get_field c i of None \<Rightarrow> True | Some f \<Rightarrow> strcasecmp f (as_str (cpe_get_field a i)) = 0"
  have "(\<forall>i<cpe_fields_num c. ?P i) \<longleftrightarrow> (\<forall>i<11. ?P i)"
  proof (intro iffI allI impI)
    fix i :: nat assume all: "\<forall>i<cpe_fields_num c. ?P i" and "i < 11"
    then show "?P i" using fields_num_spec(2) [of c i] by (cases "i < cpe_fields_num c") auto
  qed (use fields_num_spec(1) [of c] in auto)
  moreover have "(\<forall>i<11. ?P i) \<longleftrightarrow> (\<forall>i<11. \<forall>f. cpe_get_field c i = Some f \<longrightarrow> strcasecmp f (as_str (cpe_get_field a i)) = 0)"
    by (auto split: option.splits)
  moreover have "cpe_name_match_one (Some c) (Some a) \<longleftrightarrow> cpe_fields_num c \<le> cpe_fields_num a \<and> (\<forall>i<cpe_fields_num c. ?P i)"
    by (auto simp: cpe_name_match_one_def fields_match_all list_all_iff)
  ultimately show ?thesis using enough by blast
qed

end
