(* ===== verification/Cpe_Lang.thy ===== *)
theory Cpe_Lang
  imports Cpe_Name Oscap_Htable
begin

text \<open>
  CPE dictionaries and the CPE language: whether a platform applies to the system (\<open>CPE/cpedict.c\<close>,
  \<open>CPE/cpelang.c\<close>, the containers of \<open>cpedict_priv.c\<close>, \<open>cpelang_priv.c\<close> and \<open>cpe_session_priv.h\<close>).

  Checks are evaluated by a callback that may change the world \<open>'w\<close> (the OVAL sessions of the policy). None
  stands for a NULL name that is read. The assertion that an expression matched against names alone has no
  check is compiled out by default (\<open>NDEBUG\<close>); such a check is false.
\<close>

section \<open>Dictionaries\<close>

record cpe_check =
  cpe_check_system :: cstr
  cpe_check_href :: cstr
  cpe_check_identifier :: cstr

record cpe_item =
  cpe_item_name :: "cpe_name option"
  cpe_item_checks :: "cpe_check list"

record cpe_dict_model =
  dict_items :: "cpe_item list"
  dict_origin_file :: cstr

type_synonym 'w cpe_check_fn = "cstr \<Rightarrow> cstr \<Rightarrow> cstr \<Rightarrow> 'w \<Rightarrow> (bool \<times> 'w) option"
type_synonym 'w cpe_dict_fn = "cpe_name option \<Rightarrow> 'w \<Rightarrow> (bool \<times> 'w) option"

definition cpe_dict_model_add_item :: "cpe_dict_model \<Rightarrow> cpe_item \<Rightarrow> cpe_dict_model" where
  "cpe_dict_model_add_item dict item = dict\<lparr>dict_items := dict_items dict @ [item]\<rparr>"

fun match_items :: "cpe_name \<Rightarrow> cpe_item list \<Rightarrow> bool" where
  "match_items cpe [] = False"
| "match_items cpe (item # items) =
     (if cpe_name_match_one (cpe_item_name item) (Some cpe) then True else match_items cpe items)"

definition cpe_name_match_dict :: "cpe_name option \<Rightarrow> cpe_dict_model \<Rightarrow> bool option" where
  "cpe_name_match_dict cpe dict = map_option (\<lambda>c. match_items c (dict_items dict)) cpe"

definition cpe_name_match_dict_str :: "(cpe_pattern \<Rightarrow> string \<Rightarrow> bool) \<Rightarrow> string \<Rightarrow> cpe_dict_model \<Rightarrow> bool option" where
  "cpe_name_match_dict_str re cpestr dict =
     (case cpe_name_new re (Some cpestr) of
        None \<Rightarrow> None
      | Some None \<Rightarrow> Some False
      | Some (Some cpe) \<Rightarrow> cpe_name_match_dict (Some cpe) dict)"

definition cpe_check_evaluate :: "cpe_check \<Rightarrow> 'w cpe_check_fn \<Rightarrow> 'w \<Rightarrow> (bool \<times> 'w) option" where
  "cpe_check_evaluate check cb w = cb (cpe_check_system check) (cpe_check_href check) (cpe_check_identifier check) w"

text \<open>The loops over the checks of an item and over the items of a dictionary stop at the first that holds.\<close>

fun some_check :: "cpe_check list \<Rightarrow> 'w cpe_check_fn \<Rightarrow> 'w \<Rightarrow> (bool \<times> 'w) option" where
  "some_check [] cb w = Some (False, w)"
| "some_check (check # checks) cb w =
     (case cpe_check_evaluate check cb w of
        None \<Rightarrow> None
      | Some (True, w') \<Rightarrow> Some (True, w')
      | Some (False, w') \<Rightarrow> some_check checks cb w')"

definition cpe_item_is_applicable :: "cpe_item \<Rightarrow> 'w cpe_check_fn \<Rightarrow> 'w \<Rightarrow> (bool \<times> 'w) option" where
  "cpe_item_is_applicable item cb w = some_check (cpe_item_checks item) cb w"

fun some_item :: "cpe_name \<Rightarrow> cpe_item list \<Rightarrow> 'w cpe_check_fn \<Rightarrow> 'w \<Rightarrow> (bool \<times> 'w) option" where
  "some_item cpe [] cb w = Some (False, w)"
| "some_item cpe (item # items) cb w =
     (if cpe_name_match_one (Some cpe) (cpe_item_name item) then
        (case cpe_item_is_applicable item cb w of
           None \<Rightarrow> None
         | Some (True, w') \<Rightarrow> Some (True, w')
         | Some (False, w') \<Rightarrow> some_item cpe items cb w')
      else some_item cpe items cb w)"

definition cpe_name_applicable_dict :: "cpe_name option \<Rightarrow> cpe_dict_model \<Rightarrow> 'w cpe_check_fn \<Rightarrow> 'w \<Rightarrow> (bool \<times> 'w) option" where
  "cpe_name_applicable_dict cpe dict cb w =
     (case cpe of None \<Rightarrow> None | Some c \<Rightarrow> some_item c (dict_items dict) cb w)"

section \<open>The language\<close>

text \<open>The operators, each with its negation flag (\<open>CPE_LANG_OPER_NOT\<close>).\<close>

datatype cpe_testexpr =
    CPE_LANG_OPER_AND bool "cpe_testexpr list"
  | CPE_LANG_OPER_OR bool "cpe_testexpr list"
  | CPE_LANG_OPER_MATCH bool "cpe_name option"
  | CPE_LANG_OPER_CHECK bool cstr cstr cstr

definition maybe_not :: "bool \<Rightarrow> bool \<Rightarrow> bool" where
  "maybe_not neg ret = (if neg then \<not> ret else ret)"

fun cpe_language_match_expr :: "cpe_name list \<Rightarrow> cpe_testexpr \<Rightarrow> bool option"
  and match_all :: "cpe_name list \<Rightarrow> cpe_testexpr list \<Rightarrow> bool option"
  and match_some :: "cpe_name list \<Rightarrow> cpe_testexpr list \<Rightarrow> bool option"
where
  "cpe_language_match_expr cpe (CPE_LANG_OPER_AND neg exprs) = map_option (maybe_not neg) (match_all cpe exprs)"
| "cpe_language_match_expr cpe (CPE_LANG_OPER_OR neg exprs) = map_option (maybe_not neg) (match_some cpe exprs)"
| "cpe_language_match_expr cpe (CPE_LANG_OPER_MATCH neg name) =
     map_option (\<lambda>c. maybe_not neg (cpe_name_match_cpes c cpe)) name"
| "cpe_language_match_expr cpe (CPE_LANG_OPER_CHECK neg sys href i) = Some (maybe_not neg False)"
| "match_all cpe [] = Some True"
| "match_all cpe (e # exprs) =
     (case cpe_language_match_expr cpe e of None \<Rightarrow> None | Some False \<Rightarrow> Some False | Some True \<Rightarrow> match_all cpe exprs)"
| "match_some cpe [] = Some False"
| "match_some cpe (e # exprs) =
     (case cpe_language_match_expr cpe e of None \<Rightarrow> None | Some True \<Rightarrow> Some True | Some False \<Rightarrow> match_some cpe exprs)"

fun cpe_testexpr_evaluate :: "'w cpe_check_fn \<Rightarrow> 'w cpe_dict_fn \<Rightarrow> cpe_testexpr \<Rightarrow> 'w \<Rightarrow> (bool \<times> 'w) option"
  and evaluate_all :: "'w cpe_check_fn \<Rightarrow> 'w cpe_dict_fn \<Rightarrow> cpe_testexpr list \<Rightarrow> 'w \<Rightarrow> (bool \<times> 'w) option"
  and evaluate_some :: "'w cpe_check_fn \<Rightarrow> 'w cpe_dict_fn \<Rightarrow> cpe_testexpr list \<Rightarrow> 'w \<Rightarrow> (bool \<times> 'w) option"
where
  "cpe_testexpr_evaluate check_cb dict_cb (CPE_LANG_OPER_AND neg exprs) w =
     map_option (map_prod (maybe_not neg) (\<lambda>w'. w')) (evaluate_all check_cb dict_cb exprs w)"
| "cpe_testexpr_evaluate check_cb dict_cb (CPE_LANG_OPER_OR neg exprs) w =
     map_option (map_prod (maybe_not neg) (\<lambda>w'. w')) (evaluate_some check_cb dict_cb exprs w)"
| "cpe_testexpr_evaluate check_cb dict_cb (CPE_LANG_OPER_MATCH neg name) w =
     map_option (map_prod (maybe_not neg) (\<lambda>w'. w')) (dict_cb name w)"
| "cpe_testexpr_evaluate check_cb dict_cb (CPE_LANG_OPER_CHECK neg sys href i) w =
     map_option (map_prod (maybe_not neg) (\<lambda>w'. w')) (check_cb sys href i w)"
| "evaluate_all check_cb dict_cb [] w = Some (True, w)"
| "evaluate_all check_cb dict_cb (e # exprs) w =
     (case cpe_testexpr_evaluate check_cb dict_cb e w of
        None \<Rightarrow> None
      | Some (False, w') \<Rightarrow> Some (False, w')
      | Some (True, w') \<Rightarrow> evaluate_all check_cb dict_cb exprs w')"
| "evaluate_some check_cb dict_cb [] w = Some (False, w)"
| "evaluate_some check_cb dict_cb (e # exprs) w =
     (case cpe_testexpr_evaluate check_cb dict_cb e w of
        None \<Rightarrow> None
      | Some (True, w') \<Rightarrow> Some (True, w')
      | Some (False, w') \<Rightarrow> evaluate_some check_cb dict_cb exprs w')"

section \<open>Platforms\<close>

record cpe_platform =
  platform_id :: cstr
  platform_expr :: cpe_testexpr

record cpe_lang_model =
  lang_platforms :: "cpe_platform list"
  lang_item :: "cpe_platform oscap_htable"
  lang_origin_file :: cstr

definition cpe_lang_model_new :: cpe_lang_model where
  "cpe_lang_model_new = \<lparr>lang_platforms = [], lang_item = oscap_htable_new, lang_origin_file = None\<rparr>"

definition cpe_lang_model_add_platform :: "cpe_lang_model \<Rightarrow> cpe_platform \<Rightarrow> bool \<times> cpe_lang_model" where
  "cpe_lang_model_add_platform lang platform =
     (case platform_id platform of
        None \<Rightarrow> (False, lang)
      | Some i \<Rightarrow> (True, lang\<lparr>lang_platforms := snd (oscap_list_add (lang_platforms lang) (Some platform)),
                             lang_item := snd (oscap_htable_add (lang_item lang) i platform)\<rparr>))"

definition cpe_platform_match_cpe :: "cpe_name list \<Rightarrow> cpe_platform \<Rightarrow> bool option" where
  "cpe_platform_match_cpe cpe platform = cpe_language_match_expr cpe (platform_expr platform)"

definition cpe_platform_applicable_lang_model ::
    "string \<Rightarrow> cpe_lang_model \<Rightarrow> 'w cpe_check_fn \<Rightarrow> 'w cpe_dict_fn \<Rightarrow> 'w \<Rightarrow> (bool \<times> 'w) option" where
  "cpe_platform_applicable_lang_model platform lang_model check_cb dict_fn w =
     (case oscap_htable_get (lang_item lang_model) platform of
        None \<Rightarrow> Some (False, w)
      | Some plat \<Rightarrow> cpe_testexpr_evaluate check_cb dict_fn (platform_expr plat) w)"

section \<open>Sessions\<close>

text \<open>The sessions and caches of OVAL belong to the world.\<close>

record cpe_session =
  cpe_dicts :: "cpe_dict_model list"
  cpe_lang_models :: "cpe_lang_model list"
  cpe_applicable_platforms :: "unit oscap_htable"

section \<open>What expressions mean\<close>

text \<open>
  With checks and names that hold or not and leave the world alone, an expression is a formula: AND holds
  when all parts do, OR when one does, and the negation flag negates.
\<close>

fun holds :: "(cstr \<Rightarrow> cstr \<Rightarrow> cstr \<Rightarrow> bool) \<Rightarrow> (cpe_name option \<Rightarrow> bool) \<Rightarrow> cpe_testexpr \<Rightarrow> bool" where
  "holds chk known (CPE_LANG_OPER_AND neg exprs) \<longleftrightarrow> neg \<noteq> list_all (holds chk known) exprs"
| "holds chk known (CPE_LANG_OPER_OR neg exprs) \<longleftrightarrow> neg \<noteq> list_ex (holds chk known) exprs"
| "holds chk known (CPE_LANG_OPER_MATCH neg name) \<longleftrightarrow> neg \<noteq> known name"
| "holds chk known (CPE_LANG_OPER_CHECK neg sys href i) \<longleftrightarrow> neg \<noteq> chk sys href i"

lemma evaluate_holds:
  fixes w :: 'w
  assumes "\<And>s h i (w :: 'w). check_cb s h i w = Some (chk s h i, w)" and "\<And>n (w :: 'w). dict_cb n w = Some (known n, w)"
  shows "cpe_testexpr_evaluate check_cb dict_cb e w = Some (holds chk known e, w)"
    and "evaluate_all check_cb dict_cb es w = Some (list_all (holds chk known) es, w)"
    and "evaluate_some check_cb dict_cb es w = Some (list_ex (holds chk known) es, w)"
  using assms
  by (induction check_cb dict_cb e w and check_cb dict_cb es w and check_cb dict_cb es w
      rule: cpe_testexpr_evaluate_evaluate_all_evaluate_some.induct)
    (auto simp: maybe_not_def split: bool.splits)

lemma some_check_holds:
  assumes "\<And>s h i w. cb s h i w = Some (chk s h i, w)"
  shows "some_check checks cb w
    = Some (list_ex (\<lambda>c. chk (cpe_check_system c) (cpe_check_href c) (cpe_check_identifier c)) checks, w)"
  by (induction checks) (auto simp: assms cpe_check_evaluate_def split: bool.splits)

lemma some_item_holds:
  assumes "\<And>s h i w. cb s h i w = Some (chk s h i, w)"
  shows "some_item cpe items cb w
    = Some (list_ex (\<lambda>item. cpe_name_match_one (Some cpe) (cpe_item_name item)
        \<and> list_ex (\<lambda>c. chk (cpe_check_system c) (cpe_check_href c) (cpe_check_identifier c)) (cpe_item_checks item)) items, w)"
  by (induction items) (auto simp: some_check_holds [OF assms] cpe_item_is_applicable_def split: bool.splits)

end
