(* ===== verification/Xccdf_Benchmark.thy ===== *)
theory Xccdf_Benchmark
  imports Xccdf_Types Cpe_Lang
begin

text \<open>
  The benchmark and its dictionaries (\<open>XCCDF/benchmark.c\<close>): items by identifier and clusters of items.

  An item of the tree is known with its ancestors: a node is the list of the item, its parent, and so on up
  to the benchmark. Dictionaries hold pointers to items in the code and nodes here.
\<close>

section \<open>Nodes\<close>

type_synonym xccdf_node = "xccdf_item list"

definition node_item :: "xccdf_node \<Rightarrow> xccdf_item" where
  "node_item node = hd node"

definition node_id :: "xccdf_node \<Rightarrow> string" where
  "node_id node = xccdf_item_get_id (hd node)"

record xccdf_benchmark =
  bench_item :: xccdf_item
  bench_items_dict :: "xccdf_node oscap_htable"
  bench_clusters_dict :: "xccdf_node oscap_htable oscap_htable"
  bench_profiles :: "xccdf_profile list"
  bench_cpe_list :: "cpe_dict_model option"
  bench_cpe_lang_model :: "cpe_lang_model option"
  bench_version :: string

text \<open>Values are items with a base; the children of a benchmark or group are its values and its content.\<close>

definition value_node :: "xccdf_node \<Rightarrow> xccdf_item_base \<times> xccdf_value_item \<Rightarrow> xccdf_node" where
  "value_node ancestors v = XCCDF_VALUE (fst v) (snd v) # ancestors"

section \<open>Registering items\<close>

definition xccdf_benchmark_get_member :: "xccdf_benchmark \<Rightarrow> string \<Rightarrow> xccdf_node option" where
  "xccdf_benchmark_get_member bench key = oscap_htable_get (bench_items_dict bench) key"

definition register_item_to_cluster :: "xccdf_benchmark \<Rightarrow> xccdf_node \<Rightarrow> bool \<times> xccdf_benchmark" where
  "register_item_to_cluster bench node =
     (case item_cluster_id (item_base (node_item node)) of
        None \<Rightarrow> (True, bench)
      | Some cid \<Rightarrow>
          if oscap_streq (Some cid) (Some []) then (True, bench)
          else (case oscap_htable_get (bench_clusters_dict bench) cid of
                  None \<Rightarrow>
                    (let (ok, d) = oscap_htable_add (bench_clusters_dict bench) cid oscap_htable_new in
                     if \<not> ok then (False, bench\<lparr>bench_clusters_dict := d\<rparr>)
                     else (let (ok', cluster) = oscap_htable_add oscap_htable_new (node_id node) node in
                       (ok', bench\<lparr>bench_clusters_dict := htable_changed d cid cluster\<rparr>)))
                | Some cluster \<Rightarrow>
                    (let (ok', cluster') = oscap_htable_add cluster (node_id node) node in
                     (ok', bench\<lparr>bench_clusters_dict := htable_changed (bench_clusters_dict bench) cid cluster'\<rparr>))))"

text \<open>What registration does with the item itself, after the items of a group.\<close>

definition register_node :: "xccdf_benchmark \<Rightarrow> xccdf_node \<Rightarrow> bool \<times> xccdf_benchmark" where
  "register_node bench node =
     (let (ok, d) = oscap_htable_add (bench_items_dict bench) (node_id node) node in
      if ok then register_item_to_cluster (bench\<lparr>bench_items_dict := d\<rparr>) node
      else (False, bench\<lparr>bench_items_dict := d\<rparr>))"

fun register_values :: "xccdf_benchmark \<Rightarrow> xccdf_node \<Rightarrow> (xccdf_item_base \<times> xccdf_value_item) list \<Rightarrow> xccdf_benchmark" where
  "register_values bench ancestors [] = bench"
| "register_values bench ancestors (v # vs) =
     register_values
       (case xccdf_benchmark_get_member bench (node_id (value_node ancestors v)) of
          Some found \<Rightarrow> bench
        | None \<Rightarrow> snd (register_node bench (value_node ancestors v))) ancestors vs"

fun xccdf_benchmark_register_item :: "xccdf_benchmark \<Rightarrow> xccdf_node \<Rightarrow> xccdf_item \<Rightarrow> bool \<times> xccdf_benchmark"
  and register_content :: "xccdf_benchmark \<Rightarrow> xccdf_node \<Rightarrow> xccdf_item list \<Rightarrow> xccdf_benchmark"
where
  "xccdf_benchmark_register_item bench ancestors (XCCDF_GROUP base vs content) =
     (case xccdf_benchmark_get_member bench (item_id base) of
        Some found \<Rightarrow> (found = XCCDF_GROUP base vs content # ancestors, bench)
      | None \<Rightarrow>
          register_node
            (register_values (register_content bench (XCCDF_GROUP base vs content # ancestors) content)
               (XCCDF_GROUP base vs content # ancestors) vs)
            (XCCDF_GROUP base vs content # ancestors))"
| "xccdf_benchmark_register_item bench ancestors item =
     (case xccdf_benchmark_get_member bench (xccdf_item_get_id item) of
        Some found \<Rightarrow> (found = item # ancestors, bench)
      | None \<Rightarrow> register_node bench (item # ancestors))"
| "register_content bench ancestors [] = bench"
| "register_content bench ancestors (item # items) =
     register_content (snd (xccdf_benchmark_register_item bench ancestors item)) ancestors items"

definition xccdf_benchmark_get_cluster_items :: "xccdf_benchmark \<Rightarrow> string \<Rightarrow> xccdf_node oscap_htable_iterator option" where
  "xccdf_benchmark_get_cluster_items bench cluster_id =
     map_option oscap_htable_iterator_new (oscap_htable_get (bench_clusters_dict bench) cluster_id)"

definition unregister_item_from_cluster :: "xccdf_benchmark \<Rightarrow> xccdf_node \<Rightarrow> bool \<times> xccdf_benchmark" where
  "unregister_item_from_cluster bench node =
     (case item_cluster_id (item_base (node_item node)) of
        None \<Rightarrow> (True, bench)
      | Some cid \<Rightarrow>
          if oscap_streq (Some cid) (Some []) then (True, bench)
          else (case oscap_htable_get (bench_clusters_dict bench) cid of
                  None \<Rightarrow> (False, bench)
                | Some cluster \<Rightarrow>
                    (let (found, cluster') = oscap_htable_detach cluster cid in
                     (found \<noteq> None, bench\<lparr>bench_clusters_dict := htable_changed (bench_clusters_dict bench) cid cluster'\<rparr>))))"

text \<open>None is the failed assertion that the item is the one registered under its identifier.\<close>

definition xccdf_benchmark_unregister_item :: "xccdf_benchmark \<Rightarrow> xccdf_node \<Rightarrow> (bool \<times> xccdf_benchmark) option" where
  "xccdf_benchmark_unregister_item bench node =
     (if xccdf_benchmark_get_member bench (node_id node) \<noteq> Some node then None
      else (let (found, d) = oscap_htable_detach (bench_items_dict bench) (node_id node);
                bench' = bench\<lparr>bench_items_dict := d\<rparr>
            in Some (if found \<noteq> None then unregister_item_from_cluster bench' node else (False, bench'))))"

definition xccdf_benchmark_get_profile_by_id :: "xccdf_benchmark \<Rightarrow> cstr \<Rightarrow> xccdf_profile option" where
  "xccdf_benchmark_get_profile_by_id bench pid =
     oscap_list_find (\<lambda>profile i. oscap_streq (profile_id profile) i) (bench_profiles bench) pid"

end
