(* ===== verification/Xccdf_Policy.thy ===== *)
theory Xccdf_Policy
  imports Xccdf_Benchmark
begin

text \<open>
  Policies and the selection of items (\<open>XCCDF_POLICY/xccdf_policy.c\<close>): a policy keeps for every item the
  latest selector that concerns it (\<open>selected_internal\<close>) and, derived from these, whether the item is
  selected (\<open>selected_final\<close>).

  None stands for an item without a final selection (which the code asserts not to happen), a NULL that is
  dereferenced, or a recursion deeper than the fuel.
\<close>

section \<open>Data\<close>

record xccdf_value_binding =
  binding_name :: cstr
  binding_type :: int
  binding_value :: cstr
  binding_setvalue :: cstr
  binding_operator :: int

text \<open>
  Checking engines and reporters are callbacks that may change the world. An engine evaluates a definition
  (name, href and values) to a result, and may tell the names of the definitions of a file.
\<close>

record 'w xccdf_policy_engine =
  engine_system :: cstr
  engine_callback :: "cstr \<Rightarrow> cstr \<Rightarrow> xccdf_value_binding list \<Rightarrow> 'w \<Rightarrow> int \<times> 'w"
  engine_query_fn :: "(cstr \<Rightarrow> 'w \<Rightarrow> string list option \<times> 'w) option"

datatype report = Report_rule xccdf_item | Report_result xccdf_rule_result

record 'w reporter =
  reporter_system :: cstr
  reporter_callback :: "report \<Rightarrow> 'w \<Rightarrow> int \<times> 'w"

record xccdf_result =
  result_id :: string
  result_profile :: cstr
  result_rule_results :: "xccdf_rule_result list"
  result_setvalues :: "(string \<times> cstr) list"
  result_platforms :: "string list"

record xccdf_policy =
  policy_profile :: "xccdf_profile option"
  policy_selects :: "xccdf_select list"
  policy_results :: "xccdf_result list"
  policy_selected_internal :: "xccdf_select oscap_htable"
  policy_selected_final :: "bool oscap_htable"

record 'w xccdf_policy_model =
  model_benchmark :: xccdf_benchmark
  model_tailoring :: "xccdf_profile list option"
  model_policies :: "xccdf_policy list"
  model_callbacks :: "'w reporter list"
  model_engines :: "'w xccdf_policy_engine list"

section \<open>Selection\<close>

definition xccdf_policy_get_select_by_id :: "xccdf_policy \<Rightarrow> string \<Rightarrow> xccdf_select option" where
  "xccdf_policy_get_select_by_id policy i = oscap_htable_get (policy_selected_internal policy) i"

definition resolved_selection :: "xccdf_policy \<Rightarrow> xccdf_item_base \<Rightarrow> bool \<Rightarrow> bool" where
  "resolved_selection policy base selected =
     (if \<not> selected then False
      else (case xccdf_policy_get_select_by_id policy (item_id base) of
              Some sel \<Rightarrow> select_selected sel
            | None \<Rightarrow> item_selected base))"

definition detach_final :: "xccdf_policy \<Rightarrow> xccdf_item_base \<Rightarrow> xccdf_policy" where
  "detach_final policy base =
     policy\<lparr>policy_selected_final := snd (oscap_htable_detach (policy_selected_final policy) (item_id base))\<rparr>"

definition add_final :: "xccdf_policy \<Rightarrow> xccdf_item_base \<Rightarrow> bool \<Rightarrow> xccdf_policy" where
  "add_final policy base result =
     policy\<lparr>policy_selected_final := snd (oscap_htable_add (policy_selected_final policy) (item_id base) result)\<rparr>"

fun xccdf_policy_resolve_item :: "xccdf_policy \<Rightarrow> xccdf_item \<Rightarrow> bool \<Rightarrow> xccdf_policy"
  and resolve_content :: "xccdf_policy \<Rightarrow> xccdf_item list \<Rightarrow> bool \<Rightarrow> xccdf_policy"
where
  "xccdf_policy_resolve_item policy (XCCDF_GROUP base vs content) selected =
     (let policy1 = detach_final policy base;
          result = resolved_selection policy1 base selected
      in add_final (resolve_content policy1 content result) base result)"
| "xccdf_policy_resolve_item policy item selected =
     (let policy1 = detach_final policy (item_base item)
      in add_final policy1 (item_base item) (resolved_selection policy1 (item_base item) selected))"
| "resolve_content policy [] selected = policy"
| "resolve_content policy (item # items) selected =
     resolve_content (xccdf_policy_resolve_item policy item selected) items selected"

definition xccdf_policy_is_item_selected :: "xccdf_policy \<Rightarrow> string \<Rightarrow> bool option" where
  "xccdf_policy_is_item_selected policy i = oscap_htable_get (policy_selected_final policy) i"

text \<open>An item is resolved below its parent; the benchmark counts as selected.\<close>

definition parent_selected :: "xccdf_policy \<Rightarrow> xccdf_node \<Rightarrow> bool option" where
  "parent_selected policy node =
     (case tl node of
        [] \<Rightarrow> Some True
      | XCCDF_BENCHMARK base vs content # _ \<Rightarrow> Some True
      | parent # _ \<Rightarrow> xccdf_policy_is_item_selected policy (xccdf_item_get_id parent))"

definition resolve_node :: "xccdf_policy \<Rightarrow> xccdf_node \<Rightarrow> xccdf_policy option" where
  "resolve_node policy node = map_option (xccdf_policy_resolve_item policy (node_item node)) (parent_selected policy node)"

definition set_internal :: "xccdf_policy \<Rightarrow> string \<Rightarrow> xccdf_select \<Rightarrow> bool \<times> xccdf_policy" where
  "set_internal policy i sel =
     (let (ok, d) = oscap_htable_add (snd (oscap_htable_detach (policy_selected_internal policy) i)) i sel
      in (ok, policy\<lparr>policy_selected_internal := d\<rparr>))"

text \<open>The two loops over the members of a cluster: what the iterator has pending.\<close>

fun set_internal_all :: "xccdf_policy \<Rightarrow> xccdf_select \<Rightarrow> xccdf_node hitem list \<Rightarrow> (bool \<times> xccdf_policy) option" where
  "set_internal_all policy sel [] = Some (True, policy)"
| "set_internal_all policy sel (Detached # items) = None"
| "set_internal_all policy sel (Hitem i node # items) =
     (let (ok, policy1) = set_internal policy i sel
      in map_option (\<lambda>(ok', policy2). (ok \<and> ok', policy2)) (set_internal_all policy1 sel items))"

fun resolve_all :: "xccdf_policy \<Rightarrow> xccdf_node hitem list \<Rightarrow> xccdf_policy option" where
  "resolve_all policy [] = Some policy"
| "resolve_all policy (Detached # items) = resolve_all policy items"
| "resolve_all policy (Hitem i node # items) =
     (case resolve_node policy node of None \<Rightarrow> None | Some policy1 \<Rightarrow> resolve_all policy1 items)"

definition xccdf_policy_add_selector_internal ::
    "xccdf_policy \<Rightarrow> xccdf_benchmark \<Rightarrow> xccdf_select \<Rightarrow> bool \<Rightarrow> (bool \<times> xccdf_policy) option" where
  "xccdf_policy_add_selector_internal policy bench sel resolve =
     (let policy0 = policy\<lparr>policy_selects := snd (oscap_list_add (policy_selects policy) (Some sel))\<rparr> in
      case xccdf_benchmark_get_member bench (select_item sel) of
        Some node \<Rightarrow>
          (let (ok, policy1) = set_internal policy0 (select_item sel) sel in
           if resolve then map_option (Pair ok) (resolve_node policy1 node) else Some (ok, policy1))
      | None \<Rightarrow>
          (case xccdf_benchmark_get_cluster_items bench (select_item sel) of
             None \<Rightarrow> Some (False, policy0)
           | Some hit \<Rightarrow>
               if \<not> fst (oscap_htable_iterator_has_more hit) then Some (False, policy0)
               else (case set_internal_all policy0 sel (hit_pending hit) of
                       None \<Rightarrow> None
                     | Some (ok, policy1) \<Rightarrow>
                         if resolve then map_option (Pair ok) (resolve_all policy1 (hit_pending (oscap_htable_iterator_reset hit)))
                         else Some (ok, policy1))))"

definition xccdf_policy_add_select :: "'w xccdf_policy_model \<Rightarrow> xccdf_policy \<Rightarrow> xccdf_select \<Rightarrow> (bool \<times> xccdf_policy) option" where
  "xccdf_policy_add_select model policy sel = xccdf_policy_add_selector_internal policy (model_benchmark model) sel True"

text \<open>The number of selected rules, from all entries of the table of final selections.\<close>

fun count_selected :: "xccdf_benchmark \<Rightarrow> bool hitem list \<Rightarrow> nat" where
  "count_selected bench [] = 0"
| "count_selected bench (Detached # items) = count_selected bench items"
| "count_selected bench (Hitem key value # items) =
     (if \<not> value then count_selected bench items
      else (case xccdf_benchmark_get_member bench key of
              None \<Rightarrow> count_selected bench items
            | Some node \<Rightarrow> (case node_item node of XCCDF_RULE base rule \<Rightarrow> 1 | _ \<Rightarrow> 0) + count_selected bench items))"

definition xccdf_policy_get_selected_rules_count :: "'w xccdf_policy_model \<Rightarrow> xccdf_policy \<Rightarrow> nat" where
  "xccdf_policy_get_selected_rules_count model policy =
     count_selected (model_benchmark model) (hit_pending (oscap_htable_iterator_new (policy_selected_final policy)))"

text \<open>The selects that an iterator over the selected rules sees.\<close>

definition xccdf_policy_filter_selected :: "xccdf_benchmark \<Rightarrow> xccdf_select \<Rightarrow> bool" where
  "xccdf_policy_filter_selected bench sel =
     (case xccdf_benchmark_get_member bench (select_item sel) of
        None \<Rightarrow> False
      | Some node \<Rightarrow> (case node_item node of XCCDF_RULE base rule \<Rightarrow> True | _ \<Rightarrow> False) \<and> select_selected sel)"

definition xccdf_policy_get_selected_rules :: "'w xccdf_policy_model \<Rightarrow> xccdf_policy \<Rightarrow> xccdf_select list" where
  "xccdf_policy_get_selected_rules model policy =
     it_pending (xccdf_policy_filter_selected (model_benchmark model)) (oscap_iterator_new (policy_selects policy))"

section \<open>New policies\<close>

fun add_selectors :: "xccdf_policy \<Rightarrow> xccdf_benchmark \<Rightarrow> xccdf_select list \<Rightarrow> xccdf_policy option" where
  "add_selectors policy bench [] = Some policy"
| "add_selectors policy bench (sel # sels) =
     (case xccdf_policy_add_selector_internal policy bench sel False of
        None \<Rightarrow> None
      | Some (_, policy') \<Rightarrow> add_selectors policy' bench sels)"

definition empty_policy :: "xccdf_profile option \<Rightarrow> xccdf_policy" where
  "empty_policy profile = \<lparr>policy_profile = profile, policy_selects = [], policy_results = [],
     policy_selected_internal = oscap_htable_new, policy_selected_final = oscap_htable_new\<rparr>"

definition xccdf_policy_get_id :: "xccdf_policy \<Rightarrow> cstr" where
  "xccdf_policy_get_id policy = (case policy_profile policy of None \<Rightarrow> None | Some profile \<Rightarrow> profile_id profile)"

definition default_profile :: xccdf_profile where
  "default_profile = \<lparr>profile_id = None, profile_extends = None, profile_selects = [], profile_setvalues = [],
     profile_refine_values = [], profile_refine_rules = []\<rparr>"

definition xccdf_tailoring_get_profile_by_id :: "xccdf_profile list \<Rightarrow> cstr \<Rightarrow> xccdf_profile option" where
  "xccdf_tailoring_get_profile_by_id tailoring pid =
     oscap_list_find (\<lambda>profile i. oscap_streq (profile_id profile) i) tailoring pid"

text \<open>The profile for an identifier that no policy has: of the tailoring, the default, or of the benchmark.\<close>

definition find_profile :: "'w xccdf_policy_model \<Rightarrow> cstr \<Rightarrow> xccdf_profile option" where
  "find_profile model i =
     (case (case model_tailoring model of None \<Rightarrow> None | Some t \<Rightarrow> xccdf_tailoring_get_profile_by_id t i) of
        Some profile \<Rightarrow> Some profile
      | None \<Rightarrow>
          if i = None then Some default_profile
          else xccdf_benchmark_get_profile_by_id (model_benchmark model) i)"

text \<open>
  The policy is made while the model changes: the profile that a profile extends is looked up as a policy,
  which is made on the way. A profile that extends its own identifier shadows the one of the benchmark.
\<close>

fun xccdf_policy_add_profile_selectors ::
      "nat \<Rightarrow> 'w xccdf_policy_model \<Rightarrow> xccdf_policy \<Rightarrow> xccdf_profile \<Rightarrow> (xccdf_policy \<times> 'w xccdf_policy_model) option"
  and xccdf_policy_new :: "nat \<Rightarrow> 'w xccdf_policy_model \<Rightarrow> xccdf_profile \<Rightarrow> (xccdf_policy \<times> 'w xccdf_policy_model) option"
  and xccdf_policy_model_get_policy_by_id ::
      "nat \<Rightarrow> 'w xccdf_policy_model \<Rightarrow> cstr \<Rightarrow> (xccdf_policy option \<times> 'w xccdf_policy_model) option"
where
  "xccdf_policy_add_profile_selectors 0 model policy profile = None"
| "xccdf_policy_add_profile_selectors (Suc fuel) model policy profile =
     (case (case profile_extends profile of
              None \<Rightarrow> Some (None, model)
            | Some parent_id \<Rightarrow>
                (case profile_id profile of
                   None \<Rightarrow> None
                 | Some i \<Rightarrow>
                     if strcmp parent_id i = 0 then
                       Some (xccdf_benchmark_get_profile_by_id (model_benchmark model) (Some parent_id), model)
                     else
                       (case xccdf_policy_model_get_policy_by_id fuel model (Some parent_id) of
                          None \<Rightarrow> None
                        | Some (None, model1) \<Rightarrow> Some (None, model1)
                        | Some (Some parent_policy, model1) \<Rightarrow> Some (policy_profile parent_policy, model1)))) of
        None \<Rightarrow> None
      | Some (parent_profile, model1) \<Rightarrow>
          (case (case parent_profile of
                   None \<Rightarrow> Some (policy, model1)
                 | Some parent \<Rightarrow> xccdf_policy_add_profile_selectors fuel model1 policy parent) of
             None \<Rightarrow> None
           | Some (policy1, model2) \<Rightarrow>
               map_option (\<lambda>policy2. (policy2, model2))
                 (add_selectors policy1 (model_benchmark model2) (profile_selects profile))))"
| "xccdf_policy_new 0 model profile = None"
| "xccdf_policy_new (Suc fuel) model profile =
     map_option (\<lambda>(policy, model1). (resolve_content policy (item_content (bench_item (model_benchmark model1))) True, model1))
       (xccdf_policy_add_profile_selectors fuel model (empty_policy (Some profile)) profile)"
| "xccdf_policy_model_get_policy_by_id 0 model i = None"
| "xccdf_policy_model_get_policy_by_id (Suc fuel) model i =
     (case oscap_list_find (\<lambda>policy i. oscap_streq (xccdf_policy_get_id policy) i) (model_policies model) i of
        Some policy \<Rightarrow> Some (Some policy, model)
      | None \<Rightarrow>
          (case find_profile model i of
             None \<Rightarrow> Some (None, model)
           | Some profile \<Rightarrow>
               map_option (\<lambda>(policy, model1). (Some policy, model1\<lparr>model_policies := model_policies model1 @ [policy]\<rparr>))
                 (xccdf_policy_new fuel model profile)))"

definition xccdf_policy_get_result_by_id :: "xccdf_policy \<Rightarrow> string \<Rightarrow> xccdf_result option" where
  "xccdf_policy_get_result_by_id policy i =
     oscap_list_find (\<lambda>result j. strcmp (result_id result) j = 0) (policy_results policy) i"

section \<open>Engines and reporters of a model\<close>

definition xccdf_policy_engine_filter :: "'w xccdf_policy_engine \<Rightarrow> cstr \<Rightarrow> bool" where
  "xccdf_policy_engine_filter engine sysname \<longleftrightarrow> oscap_strcmp (engine_system engine) sysname = 0"

definition XCCDF_POLICY_OUTCB_START :: string where
  "XCCDF_POLICY_OUTCB_START = ''urn:xccdf:system:callback:start''"

definition XCCDF_POLICY_OUTCB_END :: string where
  "XCCDF_POLICY_OUTCB_END = ''urn:xccdf:system:callback:output''"

definition xccdf_policy_model_register_engine_and_query_callback ::
    "'w xccdf_policy_model \<Rightarrow> 'w xccdf_policy_engine \<Rightarrow> bool \<times> 'w xccdf_policy_model" where
  "xccdf_policy_model_register_engine_and_query_callback model engine =
     (let (ok, es) = oscap_list_add (model_engines model) (Some engine) in (ok, model\<lparr>model_engines := es\<rparr>))"

definition xccdf_policy_model_unregister_engines :: "'w xccdf_policy_model \<Rightarrow> cstr \<Rightarrow> 'w xccdf_policy_model" where
  "xccdf_policy_model_unregister_engines model sys =
     model\<lparr>model_engines := (if sys = None then []
       else filter (\<lambda>engine. \<not> xccdf_policy_engine_filter engine sys) (model_engines model))\<rparr>"

definition xccdf_policy_model_register_start_callback ::
    "'w xccdf_policy_model \<Rightarrow> (report \<Rightarrow> 'w \<Rightarrow> int \<times> 'w) \<Rightarrow> bool \<times> 'w xccdf_policy_model" where
  "xccdf_policy_model_register_start_callback model func =
     (let (ok, cs) = oscap_list_add (model_callbacks model)
        (Some \<lparr>reporter_system = Some XCCDF_POLICY_OUTCB_START, reporter_callback = func\<rparr>)
      in (ok, model\<lparr>model_callbacks := cs\<rparr>))"

definition xccdf_policy_model_register_output_callback ::
    "'w xccdf_policy_model \<Rightarrow> (report \<Rightarrow> 'w \<Rightarrow> int \<times> 'w) \<Rightarrow> bool \<times> 'w xccdf_policy_model" where
  "xccdf_policy_model_register_output_callback model func =
     (let (ok, cs) = oscap_list_add (model_callbacks model)
        (Some \<lparr>reporter_system = Some XCCDF_POLICY_OUTCB_END, reporter_callback = func\<rparr>)
      in (ok, model\<lparr>model_callbacks := cs\<rparr>))"

end
