(* ===== verification/Xccdf_Policy_Eval.thy ===== *)
theory Xccdf_Policy_Eval
  imports Xccdf_Policy
begin

text \<open>
  The evaluation of a policy (\<open>XCCDF_POLICY/xccdf_policy.c\<close>): complex checks and the tables that combine
  their results, the values exported to checks, the choice of a check for a rule, whether an item applies
  to the system, and the loop over the rules of the benchmark.

  What is outside stands in the environment: the world the engines and reporters act on, and the CPE
  session, which collects the platforms that apply. Parameters are the PCRE library (\<open>re\<close>) and the
  evaluation of an OVAL definition of a file (\<open>oval\<close>). None stands for a failed assertion or a NULL that
  is read.
\<close>

section \<open>Combining results\<close>

definition RESULT_TABLE_AND :: "int list list" where
  "RESULT_TABLE_AND =
    [[0, 0, 0, 0, 0, 0, 0, 0, 0],
     [0, 1, 2, 3, 4, 1, 1, 1, 1],
     [0, 2, 2, 2, 2, 2, 2, 2, 2],
     [0, 4, 2, 4, 4, 4, 4, 4, 4],
     [0, 3, 2, 3, 4, 3, 3, 3, 3],
     [0, 1, 2, 3, 4, 5, 5, 5, 5],
     [0, 1, 2, 3, 4, 5, 6, 6, 6],
     [0, 1, 2, 3, 4, 5, 6, 7, 7],
     [0, 1, 2, 3, 4, 5, 6, 7, 8]]"

definition RESULT_TABLE_OR :: "int list list" where
  "RESULT_TABLE_OR =
    [[0, 0, 0, 0, 0, 0, 0, 0, 0],
     [0, 1, 1, 1, 1, 1, 1, 1, 1],
     [0, 1, 2, 3, 4, 2, 2, 2, 2],
     [0, 1, 4, 4, 4, 4, 4, 4, 4],
     [0, 1, 3, 3, 4, 3, 3, 3, 3],
     [0, 1, 2, 3, 4, 5, 5, 5, 5],
     [0, 1, 2, 3, 4, 5, 6, 6, 6],
     [0, 1, 2, 3, 4, 5, 6, 7, 7],
     [0, 1, 2, 3, 4, 5, 6, 7, 8]]"

text \<open>
  The operation of a check is None where the code has 0. A negative result, which only an engine could
  return, would index outside the tables; \<open>nat\<close> makes it 0.
\<close>

definition resolve_operation :: "int \<Rightarrow> int \<Rightarrow> xccdf_bool_operator_t option \<Rightarrow> int" where
  "resolve_operation A B oper =
     (if A = 0 \<or> B = 0 \<or> A > XCCDF_RESULT_INFORMATIONAL \<or> B > XCCDF_RESULT_INFORMATIONAL then 0
      else (case oper of
              Some XCCDF_OPERATOR_AND \<Rightarrow> RESULT_TABLE_AND ! nat A ! nat B
            | Some XCCDF_OPERATOR_OR \<Rightarrow> RESULT_TABLE_OR ! nat A ! nat B
            | None \<Rightarrow> 0))"

definition xccdf_test_result_resolve_and_operation :: "int \<Rightarrow> int \<Rightarrow> int" where
  "xccdf_test_result_resolve_and_operation A B = resolve_operation A B (Some XCCDF_OPERATOR_AND)"

definition resolve_negate :: "int \<Rightarrow> xccdf_check_fields \<Rightarrow> int" where
  "resolve_negate v check =
     (if chk_negate check then
        if v = XCCDF_RESULT_PASS then XCCDF_RESULT_FAIL
        else if v = XCCDF_RESULT_FAIL then XCCDF_RESULT_PASS else v
      else v)"

section \<open>Engines, reporters, values\<close>

text \<open>The engines of a system in the order they were registered, until one has a result.\<close>

fun try_engines ::
    "'w xccdf_policy_engine list \<Rightarrow> cstr \<Rightarrow> cstr \<Rightarrow> xccdf_value_binding list \<Rightarrow> 'w \<Rightarrow> int \<times> 'w" where
  "try_engines [] content href bindings w = (XCCDF_RESULT_NOT_CHECKED, w)"
| "try_engines (engine # engines) content href bindings w =
     (let (retval, w') = engine_callback engine content href bindings w in
      if retval \<noteq> XCCDF_RESULT_NOT_CHECKED \<or> engines = [] then (retval, w')
      else try_engines engines content href bindings w')"

definition get_engines_by_sysname :: "'w xccdf_policy_model \<Rightarrow> cstr \<Rightarrow> 'w xccdf_policy_engine list" where
  "get_engines_by_sysname model sysname =
     it_pending (\<lambda>engine. xccdf_policy_engine_filter engine sysname) (oscap_iterator_new (model_engines model))"

definition xccdf_policy_evaluate_cb ::
    "'w xccdf_policy_model \<Rightarrow> cstr \<Rightarrow> cstr \<Rightarrow> cstr \<Rightarrow> xccdf_value_binding list \<Rightarrow> 'w \<Rightarrow> int \<times> 'w" where
  "xccdf_policy_evaluate_cb model sysname content href bindings w =
     try_engines (get_engines_by_sysname model sysname) content href bindings w"

fun query_engines :: "'w xccdf_policy_engine list \<Rightarrow> cstr \<Rightarrow> 'w \<Rightarrow> string list option \<times> 'w" where
  "query_engines [] href w = (None, w)"
| "query_engines (engine # engines) href w =
     (case engine_query_fn engine of
        None \<Rightarrow> query_engines engines href w
      | Some query \<Rightarrow>
          (case query href w of
             (Some names, w') \<Rightarrow> (Some names, w')
           | (None, w') \<Rightarrow> query_engines engines href w'))"

definition get_namesfor_href :: "'w xccdf_policy_model \<Rightarrow> cstr \<Rightarrow> cstr \<Rightarrow> 'w \<Rightarrow> string list option \<times> 'w" where
  "get_namesfor_href model sysname href w = query_engines (get_engines_by_sysname model sysname) href w"

fun report_all :: "'w reporter list \<Rightarrow> report \<Rightarrow> 'w \<Rightarrow> int \<times> 'w" where
  "report_all [] data w = (0, w)"
| "report_all (cb # cbs) data w =
     (let (retval, w') = reporter_callback cb data w in
      if retval \<noteq> 0 then (retval, w') else report_all cbs data w')"

definition xccdf_policy_report_cb :: "'w xccdf_policy_model \<Rightarrow> string \<Rightarrow> report \<Rightarrow> 'w \<Rightarrow> int \<times> 'w" where
  "xccdf_policy_report_cb model sysname data w =
     report_all (it_pending (\<lambda>cb. oscap_strcmp (reporter_system cb) (Some sysname) = 0)
       (oscap_iterator_new (model_callbacks model))) data w"

text \<open>The last setvalue, and the last refine-value, of the profile for an identifier.\<close>

fun last_match :: "('a \<Rightarrow> bool) \<Rightarrow> 'a list \<Rightarrow> 'a option \<Rightarrow> 'a option" where
  "last_match p [] final = final"
| "last_match p (x # xs) final = last_match p xs (if p x then Some x else final)"

definition xccdf_policy_get_setvalue :: "xccdf_policy \<Rightarrow> string \<Rightarrow> xccdf_setvalue option" where
  "xccdf_policy_get_setvalue policy i =
     (case policy_profile policy of
        None \<Rightarrow> None
      | Some profile \<Rightarrow> last_match (\<lambda>sv. strcmp i (setvalue_item sv) = 0) (profile_setvalues profile) None)"

definition xccdf_policy_get_refine_value :: "xccdf_policy \<Rightarrow> string \<Rightarrow> xccdf_refine_value option" where
  "xccdf_policy_get_refine_value policy i =
     (case policy_profile policy of
        None \<Rightarrow> None
      | Some profile \<Rightarrow> last_match (\<lambda>rv. strcmp i (refine_value_item rv) = 0) (profile_refine_values profile) None)"

text \<open>
  One exported value; None is the error of a missing value or instance. The code casts whatever item has
  the identifier to a value; an item of another kind counts as missing here.
\<close>

definition value_binding :: "xccdf_benchmark \<Rightarrow> xccdf_policy \<Rightarrow> xccdf_check_export \<Rightarrow> xccdf_value_binding option" where
  "value_binding bench policy check =
     (case xccdf_benchmark_get_member bench (export_value check) of
        None \<Rightarrow> None
      | Some node \<Rightarrow>
          (case node_item node of
             XCCDF_VALUE base v \<Rightarrow>
               (let s_value = xccdf_policy_get_setvalue policy (item_id base);
                    r_value = xccdf_policy_get_refine_value policy (item_id base);
                    selector = (case r_value of None \<Rightarrow> None | Some r \<Rightarrow> refine_value_selector r);
                    oper = (case r_value of
                              Some r \<Rightarrow> if refine_value_oper r > 0 then refine_value_oper r else value_oper v
                            | None \<Rightarrow> value_oper v)
                in map_option (\<lambda>inst. \<lparr>binding_name = export_name check, binding_type = value_type v,
                     binding_value = inst_value inst, binding_setvalue = map_option setvalue_value s_value,
                     binding_operator = oper\<rparr>) (xccdf_value_get_instance_by_selector v selector))
           | _ \<Rightarrow> None))"

fun xccdf_policy_check_get_value_bindings ::
    "xccdf_benchmark \<Rightarrow> xccdf_policy \<Rightarrow> xccdf_check_export list \<Rightarrow> xccdf_value_binding list option" where
  "xccdf_policy_check_get_value_bindings bench policy [] = Some []"
| "xccdf_policy_check_get_value_bindings bench policy (check # checks) =
     (case value_binding bench policy check of
        None \<Rightarrow> None
      | Some binding \<Rightarrow> map_option ((#) binding) (xccdf_policy_check_get_value_bindings bench policy checks))"

section \<open>Checks\<close>

text \<open>The content references of a check are alternatives: the first one with a result is kept.\<close>

fun evaluate_content_refs ::
    "'w xccdf_policy_model \<Rightarrow> xccdf_check \<Rightarrow> xccdf_value_binding list \<Rightarrow> xccdf_check_content_ref list \<Rightarrow> int \<Rightarrow> 'w
       \<Rightarrow> int \<times> xccdf_check \<times> 'w" where
  "evaluate_content_refs model check bindings [] ret w = (ret, check, w)"
| "evaluate_content_refs model check bindings (content # contents) ret w =
     (let (ret', w') = xccdf_policy_evaluate_cb model (chk_system (check_fields check)) (ref_name content) (ref_href content) bindings w
      in if ret' \<noteq> XCCDF_RESULT_NOT_CHECKED then (ret', xccdf_check_inject_content_ref check content None, w')
         else evaluate_content_refs model check bindings contents ret' w')"

text \<open>
  \<open>xccdf_policy_check_evaluate\<close> changes the check it evaluates: the new one comes with the result. The
  children of a complex check are evaluated in order and combined on the way (\<open>ret\<close>, 0 for none yet);
  \<open>-1\<close> stops at once.
\<close>

fun xccdf_policy_check_evaluate :: "'w xccdf_policy_model \<Rightarrow> xccdf_policy \<Rightarrow> xccdf_check \<Rightarrow> 'w \<Rightarrow> int \<times> xccdf_check \<times> 'w"
  and check_children_evaluate ::
    "'w xccdf_policy_model \<Rightarrow> xccdf_policy \<Rightarrow> xccdf_bool_operator_t option \<Rightarrow> xccdf_check list \<Rightarrow> int \<Rightarrow> 'w
       \<Rightarrow> int \<times> xccdf_check list \<times> 'w"
where
  "xccdf_policy_check_evaluate model policy (XCheck flds children) w =
     (if xccdf_check_get_complex (XCheck flds children) then
        (let (ret, children', w') = check_children_evaluate model policy (chk_oper flds) children 0 w
         in if ret = -1 then (-1, XCheck flds children', w')
            else (resolve_negate ret flds, XCheck flds children', w'))
      else (case xccdf_policy_check_get_value_bindings (model_benchmark model) policy (chk_exports flds) of
              None \<Rightarrow> (XCCDF_RESULT_UNKNOWN, XCheck flds children, w)
            | Some bindings \<Rightarrow>
                (let (ret, check', w') = evaluate_content_refs model (XCheck flds children) bindings (chk_content_refs flds) 0 w
                 in (resolve_negate ret flds, check', w'))))"
| "check_children_evaluate model policy oper [] ret w = (ret, [], w)"
| "check_children_evaluate model policy oper (child # children) ret w =
     (let (ret2, child', w') = xccdf_policy_check_evaluate model policy child w in
      if ret2 = -1 then (-1, child' # children, w')
      else (let (ret', children', w'') = check_children_evaluate model policy oper children
                  (if ret = 0 then ret2 else resolve_operation ret ret2 oper) w'
            in (ret', child' # children', w'')))"

definition is_engine_registered :: "'w xccdf_policy_model \<Rightarrow> cstr \<Rightarrow> bool" where
  "is_engine_registered model sysname = oscap_list_contains xccdf_policy_engine_filter (model_engines model) sysname"

text \<open>The first refine-rule of the profile for a rule.\<close>

definition xccdf_policy_get_refine_rules_by_rule :: "xccdf_policy \<Rightarrow> string \<Rightarrow> xccdf_refine_rule option" where
  "xccdf_policy_get_refine_rules_by_rule policy i =
     (case policy_profile policy of
        None \<Rightarrow> None
      | Some profile \<Rightarrow> oscap_list_find (\<lambda>rr j. strcmp (refine_rule_item rr) j = 0) (profile_refine_rules profile) i)"

text \<open>A complex check if there is one; else the last candidate whose system has an engine.\<close>

definition rule_get_applicable_check ::
    "'w xccdf_policy_model \<Rightarrow> xccdf_policy \<Rightarrow> xccdf_item_base \<Rightarrow> xccdf_rule_item \<Rightarrow> xccdf_check option" where
  "rule_get_applicable_check model policy base rule =
     (case xccdf_rule_get_complex_checks rule of
        check # _ \<Rightarrow> Some check
      | [] \<Rightarrow>
          (let selector = (case xccdf_policy_get_refine_rules_by_rule policy (item_id base) of
                             None \<Rightarrow> None | Some r_rule \<Rightarrow> refine_rule_selector r_rule);
               candidates = xccdf_rule_get_checks_filtered rule selector;
               candidates' = (if selector \<noteq> None \<and> candidates = [] then xccdf_rule_get_checks_filtered rule None else candidates)
           in last_match (\<lambda>check. is_engine_registered model (chk_system (check_fields check))) candidates' None))"

section \<open>Applicability\<close>

record 'w policy_env =
  env_world :: 'w
  env_cpe :: cpe_session

type_synonym 'w oval_evaluation = "cstr \<Rightarrow> cstr \<Rightarrow> 'w \<Rightarrow> bool \<times> 'w"

text \<open>\<open>dirname\<close> of the C library: the path before its last component.\<close>

definition c_dirname :: "string \<Rightarrow> string" where
  "c_dirname s =
     (let slash = (\<lambda>c. c = CHR ''/'');
          t = dropWhile slash (rev s);
          d = dropWhile (\<lambda>c. \<not> slash c) t;
          p = dropWhile slash d
      in if s = [] then ''.''
         else if t = [] then ''/''
         else if d = [] then ''.''
         else if p = [] then ''/''
         else rev p)"

definition cpe_get_oval_href :: "cpe_dict_model option \<Rightarrow> cpe_lang_model option \<Rightarrow> cstr \<Rightarrow> cstr" where
  "cpe_get_oval_href dict lang_model oval_relative_href =
     (case (dict, lang_model) of
        (None, None) \<Rightarrow> None
      | _ \<Rightarrow>
          (let origin = (case dict of Some d \<Rightarrow> dict_origin_file d
                         | None \<Rightarrow> (case lang_model of Some l \<Rightarrow> lang_origin_file l | None \<Rightarrow> None));
               prefix = c_dirname (as_str origin)
           in if oscap_streq (Some prefix) (Some ''.'') then oval_relative_href
              else Some (prefix @ ''/'' @ (case oval_relative_href of None \<Rightarrow> ''(null)'' | Some h \<Rightarrow> h))))"

text \<open>The callback for checks: whether the definition of the OVAL file holds (an unreadable file does not).\<close>

definition policy_cpe_check_cb ::
    "'w oval_evaluation \<Rightarrow> cpe_dict_model option \<Rightarrow> cpe_lang_model option \<Rightarrow> 'w policy_env cpe_check_fn" where
  "policy_cpe_check_cb oval dict lang_model sys href i env =
     (let (ok, w) = oval (cpe_get_oval_href dict lang_model href) i (env_world env) in Some (ok, env\<lparr>env_world := w\<rparr>))"

text \<open>The first of some dictionaries to which the name applies.\<close>

fun some_dict :: "cpe_name option \<Rightarrow> cpe_dict_model list \<Rightarrow> 'w policy_env cpe_check_fn \<Rightarrow> 'w policy_env \<Rightarrow> (bool \<times> 'w policy_env) option" where
  "some_dict name [] cb env = Some (False, env)"
| "some_dict name (dict # dicts) cb env =
     (case cpe_name_applicable_dict name dict cb env of
        None \<Rightarrow> None
      | Some (True, env') \<Rightarrow> Some (True, env')
      | Some (False, env') \<Rightarrow> some_dict name dicts cb env')"

text \<open>The callback for names: the dictionary of the benchmark, then those of the session; checks are looked up for \<open>usr\<close>.\<close>

definition policy_cpe_dict_cb ::
    "'w oval_evaluation \<Rightarrow> 'w xccdf_policy_model \<Rightarrow> cpe_dict_model option \<Rightarrow> cpe_lang_model option \<Rightarrow> 'w policy_env cpe_dict_fn" where
  "policy_cpe_dict_cb oval model dict lang_model name env =
     (let cb = policy_cpe_check_cb oval dict lang_model in
      case (case bench_cpe_list (model_benchmark model) of
              None \<Rightarrow> Some (False, env)
            | Some embedded \<Rightarrow> cpe_name_applicable_dict name embedded cb env) of
        None \<Rightarrow> None
      | Some (True, env') \<Rightarrow> Some (True, env')
      | Some (False, env') \<Rightarrow> some_dict name (cpe_dicts (env_cpe env')) cb env')"

definition add_applicable_platform :: "string \<Rightarrow> 'w policy_env \<Rightarrow> 'w policy_env" where
  "add_applicable_platform platform env =
     env\<lparr>env_cpe := (env_cpe env)\<lparr>cpe_applicable_platforms :=
       snd (oscap_htable_add (cpe_applicable_platforms (env_cpe env)) platform ())\<rparr>\<rparr>"

text \<open>
  The loops over the platforms of an item, against one dictionary and against one language model; \<open>ret\<close> is
  whether some platform so far applies.
\<close>

fun platforms_are_applicable_dict ::
    "(cpe_pattern \<Rightarrow> string \<Rightarrow> bool) \<Rightarrow> 'w oval_evaluation \<Rightarrow> cpe_dict_model \<Rightarrow> string list \<Rightarrow> bool \<Rightarrow> 'w policy_env
       \<Rightarrow> (bool \<times> 'w policy_env) option" where
  "platforms_are_applicable_dict re oval dict [] ret env = Some (ret, env)"
| "platforms_are_applicable_dict re oval dict (platform # platforms) ret env =
     (if \<not> cpe_name_check re (Some platform) then platforms_are_applicable_dict re oval dict platforms ret env
      else (case cpe_name_new re (Some platform) of
              None \<Rightarrow> None
            | Some name \<Rightarrow>
                (case cpe_name_applicable_dict name dict (policy_cpe_check_cb oval (Some dict) None) env of
                   None \<Rightarrow> None
                 | Some (True, env') \<Rightarrow>
                     platforms_are_applicable_dict re oval dict platforms True (add_applicable_platform platform env')
                 | Some (False, env') \<Rightarrow> platforms_are_applicable_dict re oval dict platforms ret env')))"

fun platforms_are_applicable_lang_model ::
    "'w oval_evaluation \<Rightarrow> 'w xccdf_policy_model \<Rightarrow> cpe_lang_model \<Rightarrow> string list \<Rightarrow> bool \<Rightarrow> 'w policy_env
       \<Rightarrow> (bool \<times> 'w policy_env) option" where
  "platforms_are_applicable_lang_model oval model lang_model [] ret env = Some (ret, env)"
| "platforms_are_applicable_lang_model oval model lang_model (platform # platforms) ret env =
     (let platform_shifted = (case platform of c # rest \<Rightarrow> if c = CHR ''#'' then rest else platform | [] \<Rightarrow> platform) in
      case cpe_platform_applicable_lang_model platform_shifted lang_model
             (policy_cpe_check_cb oval None (Some lang_model)) (policy_cpe_dict_cb oval model None (Some lang_model)) env of
        None \<Rightarrow> None
      | Some (True, env') \<Rightarrow>
          platforms_are_applicable_lang_model oval model lang_model platforms True (add_applicable_platform platform env')
      | Some (False, env') \<Rightarrow> platforms_are_applicable_lang_model oval model lang_model platforms ret env')"

text \<open>Running the two loops over several models or dictionaries; all of them run.\<close>

fun any_applicable :: "('m \<Rightarrow> 'w policy_env \<Rightarrow> (bool \<times> 'w policy_env) option) \<Rightarrow> 'm list \<Rightarrow> bool \<Rightarrow> 'w policy_env
    \<Rightarrow> (bool \<times> 'w policy_env) option" where
  "any_applicable f [] ret env = Some (ret, env)"
| "any_applicable f (m # ms) ret env =
     (case f m env of None \<Rightarrow> None | Some (b, env') \<Rightarrow> any_applicable f ms (if b then True else ret) env')"

definition xccdf_policy_model_platforms_are_applicable ::
    "(cpe_pattern \<Rightarrow> string \<Rightarrow> bool) \<Rightarrow> 'w oval_evaluation \<Rightarrow> 'w xccdf_policy_model \<Rightarrow> string list \<Rightarrow> 'w policy_env
       \<Rightarrow> (bool \<times> 'w policy_env) option" where
  "xccdf_policy_model_platforms_are_applicable re oval model platforms env =
     (if platforms = [] then Some (True, env)
      else (let lang = (\<lambda>m. platforms_are_applicable_lang_model oval model m platforms False);
                dict = (\<lambda>d. platforms_are_applicable_dict re oval d platforms False);
                bench = model_benchmark model
            in case any_applicable lang (case bench_cpe_lang_model bench of None \<Rightarrow> [] | Some m \<Rightarrow> [m]) False env of
                 None \<Rightarrow> None
               | Some (ret1, env1) \<Rightarrow>
                   (case any_applicable lang (cpe_lang_models (env_cpe env1)) ret1 env1 of
                      None \<Rightarrow> None
                    | Some (ret2, env2) \<Rightarrow>
                        (case any_applicable dict (case bench_cpe_list bench of None \<Rightarrow> [] | Some d \<Rightarrow> [d]) ret2 env2 of
                           None \<Rightarrow> None
                         | Some (ret3, env3) \<Rightarrow> any_applicable dict (cpe_dicts (env_cpe env3)) ret3 env3))))"

text \<open>An item applies if its parent does and one of its platforms, if it has any.\<close>

fun xccdf_policy_model_item_is_applicable ::
    "(cpe_pattern \<Rightarrow> string \<Rightarrow> bool) \<Rightarrow> 'w oval_evaluation \<Rightarrow> 'w xccdf_policy_model \<Rightarrow> xccdf_node \<Rightarrow> 'w policy_env
       \<Rightarrow> (bool \<times> 'w policy_env) option" where
  "xccdf_policy_model_item_is_applicable re oval model [] env = Some (True, env)"
| "xccdf_policy_model_item_is_applicable re oval model (item # ancestors) env =
     (case xccdf_policy_model_item_is_applicable re oval model ancestors env of
        None \<Rightarrow> None
      | Some (False, env') \<Rightarrow> Some (False, env')
      | Some (True, env') \<Rightarrow>
          xccdf_policy_model_platforms_are_applicable re oval model (item_platforms (item_base item)) env')"

end
