(* ===== verification/Xccdf_Policy_Run.thy ===== *)
theory Xccdf_Policy_Run
  imports Xccdf_Policy_Eval Xccdf_Score
begin

text \<open>
  The evaluation of a policy (\<open>XCCDF_POLICY/xccdf_policy.c\<close>): every rule of the benchmark in document order
  gets its results, which are reported; then the result records the values and the platforms that apply.

  Callbacks stop the evaluation with a result other than 0; \<open>-1\<close> also drops the result. None stands for a
  NULL that is read.
\<close>

section \<open>Rule results\<close>

definition xccdf_rule_result_new_from_rule ::
    "xccdf_item_base \<Rightarrow> xccdf_rule_item \<Rightarrow> xccdf_check option \<Rightarrow> int \<Rightarrow> cstr \<Rightarrow> xccdf_rule_result" where
  "xccdf_rule_result_new_from_rule base rule check eval_result message =
     \<lparr>rr_idref = item_id base, rr_result = eval_result, rr_weight = item_weight base, rr_role = rule_role rule,
      rr_severity = rule_severity rule,
      rr_checks = (case check of Some c \<Rightarrow> [c] | None \<Rightarrow> rule_checks rule),
      rr_message = message\<rparr>"

definition policy_report_rule_result ::
    "'w xccdf_policy_model \<Rightarrow> xccdf_result \<Rightarrow> xccdf_item_base \<Rightarrow> xccdf_rule_item \<Rightarrow> xccdf_check option \<Rightarrow> int \<Rightarrow> cstr \<Rightarrow> 'w
       \<Rightarrow> int \<times> xccdf_result \<times> 'w" where
  "policy_report_rule_result model result base rule check res message w =
     (if res = -1 then (res, result, w)
      else (let rule_result = xccdf_rule_result_new_from_rule base rule check res message;
                (ret, w') = xccdf_policy_report_cb model XCCDF_POLICY_OUTCB_END (Report_result rule_result) w
            in (ret, result\<lparr>result_rule_results := result_rule_results result @ [rule_result]\<rparr>, w')))"

text \<open>The names of a multi-check: one result for each; the rule is reported as started again between them.\<close>

fun evaluate_names ::
    "'w xccdf_policy_model \<Rightarrow> xccdf_policy \<Rightarrow> xccdf_item_base \<Rightarrow> xccdf_rule_item \<Rightarrow> xccdf_check \<Rightarrow> xccdf_check_content_ref
       \<Rightarrow> string list \<Rightarrow> xccdf_result \<Rightarrow> 'w \<Rightarrow> int \<times> xccdf_result \<times> 'w" where
  "evaluate_names model policy base rule check content [] result w = (0, result, w)"
| "evaluate_names model policy base rule check content (name # names) result w =
     (let cloned_check = xccdf_check_inject_content_ref check content (Some name);
          (inner_ret, evaluated, w1) = xccdf_policy_check_evaluate model policy cloned_check w
      in if inner_ret = -1 then (inner_ret, result, w1)
         else (let (report1, result1, w2) = policy_report_rule_result model result base rule (Some evaluated) inner_ret None w1 in
           if report1 \<noteq> 0 then (report1, result1, w2)
           else if names = [] then (0, result1, w2)
           else (let (report2, w3) = xccdf_policy_report_cb model XCCDF_POLICY_OUTCB_START (Report_rule (XCCDF_RULE base rule)) w2 in
             if report2 \<noteq> 0 then (report2, result1, w3)
             else evaluate_names model policy base rule check content names result1 w3)))"

text \<open>The end of the evaluation of a simple check.\<close>

definition report_check ::
    "'w xccdf_policy_model \<Rightarrow> xccdf_item_base \<Rightarrow> xccdf_rule_item \<Rightarrow> xccdf_check \<Rightarrow> int \<Rightarrow> cstr \<Rightarrow> xccdf_result \<Rightarrow> 'w
       \<Rightarrow> int \<times> xccdf_result \<times> 'w" where
  "report_check model base rule check ret message result w =
     policy_report_rule_result model result base rule (Some check) (resolve_negate ret (check_fields check))
       (if ret = XCCDF_RESULT_NOT_CHECKED then Some ''None of the check-content-ref elements was resolvable.'' else message) w"

definition multi_check_message :: string where
  "multi_check_message =
     ''Checking engine does not support multi-check; falling back to multi-check='' @ CHR 0x27 # ''false'' @ [CHR 0x27]"

text \<open>The loop over the content references, with the last result and message.\<close>

fun evaluate_rule_contents ::
    "'w xccdf_policy_model \<Rightarrow> xccdf_policy \<Rightarrow> xccdf_item_base \<Rightarrow> xccdf_rule_item \<Rightarrow> xccdf_check \<Rightarrow> xccdf_value_binding list
       \<Rightarrow> xccdf_check_content_ref list \<Rightarrow> int \<Rightarrow> cstr \<Rightarrow> xccdf_result \<Rightarrow> 'w \<Rightarrow> int \<times> xccdf_result \<times> 'w" where
  "evaluate_rule_contents model policy base rule check bindings [] ret message result w =
     report_check model base rule check ret message result w"
| "evaluate_rule_contents model policy base rule check bindings (content # contents) ret message result w =
     (let sysname = chk_system (check_fields check);
          multi = ref_name content = None \<and> chk_multicheck (check_fields check);
          (names, w1) = (if multi then get_namesfor_href model sysname (ref_href content) w else (None, w))
      in case names of
           Some [] \<Rightarrow>
             policy_report_rule_result model result base rule (Some check) XCCDF_RESULT_UNKNOWN
               (Some ''No definitions found for @multi-check.'') w1
         | Some (n # ns) \<Rightarrow> evaluate_names model policy base rule check content (n # ns) result w1
         | None \<Rightarrow>
             (let message1 = (if multi then Some multi_check_message else None);
                  (ret1, w2) = xccdf_policy_evaluate_cb model sysname (ref_name content) (ref_href content) bindings w1
              in if ret1 \<noteq> XCCDF_RESULT_NOT_CHECKED then
                   report_check model base rule (xccdf_check_inject_content_ref check content None) ret1 message1 result w2
                 else evaluate_rule_contents model policy base rule check bindings contents ret1 message1 result w2))"

section \<open>Rules and groups\<close>

definition in_world :: "int \<times> xccdf_result \<times> 'w \<Rightarrow> 'w policy_env \<Rightarrow> int \<times> xccdf_result \<times> 'w policy_env" where
  "in_world r env = (case r of (ret, result, w) \<Rightarrow> (ret, result, env\<lparr>env_world := w\<rparr>))"

text \<open>The check of a rule that is selected and applies.\<close>

definition evaluate_applicable_rule ::
    "'w xccdf_policy_model \<Rightarrow> xccdf_policy \<Rightarrow> xccdf_item_base \<Rightarrow> xccdf_rule_item \<Rightarrow> xccdf_result \<Rightarrow> 'w \<Rightarrow> int \<times> xccdf_result \<times> 'w" where
  "evaluate_applicable_rule model policy base rule result w =
     (case rule_get_applicable_check model policy base rule of
        None \<Rightarrow>
          policy_report_rule_result model result base rule None XCCDF_RESULT_NOT_CHECKED
            (Some ''No candidate or applicable check found.'') w
      | Some check \<Rightarrow>
          if xccdf_check_get_complex check then
            (let (res, evaluated, w1) = xccdf_policy_check_evaluate model policy check w
             in policy_report_rule_result model result base rule (Some evaluated) res None w1)
          else (case xccdf_policy_check_get_value_bindings (model_benchmark model) policy (chk_exports (check_fields check)) of
                  None \<Rightarrow>
                    policy_report_rule_result model result base rule (Some check) XCCDF_RESULT_UNKNOWN
                      (Some ''Value bindings not found.'') w
                | Some bindings \<Rightarrow>
                    evaluate_rule_contents model policy base rule check bindings (chk_content_refs (check_fields check))
                      XCCDF_RESULT_NOT_CHECKED None result w))"

definition xccdf_policy_rule_evaluate ::
    "(cpe_pattern \<Rightarrow> string \<Rightarrow> bool) \<Rightarrow> 'w oval_evaluation \<Rightarrow> 'w xccdf_policy_model \<Rightarrow> xccdf_policy \<Rightarrow> xccdf_node
       \<Rightarrow> xccdf_item_base \<Rightarrow> xccdf_rule_item \<Rightarrow> xccdf_result \<Rightarrow> 'w policy_env \<Rightarrow> (int \<times> xccdf_result \<times> 'w policy_env) option" where
  "xccdf_policy_rule_evaluate re oval model policy ancestors base rule result env =
     (case xccdf_policy_is_item_selected policy (item_id base) of
        None \<Rightarrow> None
      | Some is_selected \<Rightarrow>
          (let (report, w) = xccdf_policy_report_cb model XCCDF_POLICY_OUTCB_START (Report_rule (XCCDF_RULE base rule)) (env_world env);
               env1 = env\<lparr>env_world := w\<rparr>
           in if report \<noteq> 0 then Some (report, result, env1)
              else if \<not> is_selected then
                Some (in_world (policy_report_rule_result model result base rule None XCCDF_RESULT_NOT_SELECTED None w) env1)
              else (case xccdf_policy_model_item_is_applicable re oval model (XCCDF_RULE base rule # ancestors) env1 of
                      None \<Rightarrow> None
                    | Some (False, env2) \<Rightarrow>
                        Some (in_world (policy_report_rule_result model result base rule None XCCDF_RESULT_NOT_APPLICABLE None
                          (env_world env2)) env2)
                    | Some (True, env2) \<Rightarrow>
                        Some (in_world (evaluate_applicable_rule model policy base rule result (env_world env2)) env2))))"

fun xccdf_policy_item_evaluate ::
      "(cpe_pattern \<Rightarrow> string \<Rightarrow> bool) \<Rightarrow> 'w oval_evaluation \<Rightarrow> 'w xccdf_policy_model \<Rightarrow> xccdf_policy \<Rightarrow> xccdf_node
         \<Rightarrow> xccdf_item \<Rightarrow> xccdf_result \<Rightarrow> 'w policy_env \<Rightarrow> (int \<times> xccdf_result \<times> 'w policy_env) option"
  and content_evaluate ::
      "(cpe_pattern \<Rightarrow> string \<Rightarrow> bool) \<Rightarrow> 'w oval_evaluation \<Rightarrow> 'w xccdf_policy_model \<Rightarrow> xccdf_policy \<Rightarrow> xccdf_node
         \<Rightarrow> xccdf_item list \<Rightarrow> xccdf_result \<Rightarrow> 'w policy_env \<Rightarrow> (int \<times> xccdf_result \<times> 'w policy_env) option"
where
  "xccdf_policy_item_evaluate re oval model policy ancestors (XCCDF_RULE base rule) result env =
     xccdf_policy_rule_evaluate re oval model policy ancestors base rule result env"
| "xccdf_policy_item_evaluate re oval model policy ancestors (XCCDF_GROUP base vs content) result env =
     content_evaluate re oval model policy (XCCDF_GROUP base vs content # ancestors) content result env"
| "xccdf_policy_item_evaluate re oval model policy ancestors (XCCDF_BENCHMARK base vs content) result env = Some (-1, result, env)"
| "xccdf_policy_item_evaluate re oval model policy ancestors (XCCDF_VALUE base v) result env = Some (-1, result, env)"
| "content_evaluate re oval model policy ancestors [] result env = Some (0, result, env)"
| "content_evaluate re oval model policy ancestors (child # children) result env =
     (case xccdf_policy_item_evaluate re oval model policy ancestors child result env of
        None \<Rightarrow> None
      | Some (ret, result1, env1) \<Rightarrow>
          if ret \<noteq> 0 then Some (ret, result1, env1)
          else content_evaluate re oval model policy ancestors children result1 env1)"

section \<open>Values\<close>

text \<open>
  The value of an item: its last setvalue, or the instance chosen by the first refine-value (the bindings
  of checks take the last one). None is the NULL instance that is read.
\<close>

definition xccdf_policy_get_value_of_item :: "xccdf_policy \<Rightarrow> xccdf_item_base \<Rightarrow> xccdf_value_item \<Rightarrow> cstr option" where
  "xccdf_policy_get_value_of_item policy base v =
     (case xccdf_policy_get_setvalue policy (item_id base) of
        Some last_s_value \<Rightarrow> Some (Some (setvalue_value last_s_value))
      | None \<Rightarrow>
          (let selector = (case policy_profile policy of
                 None \<Rightarrow> None
               | Some profile \<Rightarrow>
                   (case oscap_list_find (\<lambda>rv i. strcmp (refine_value_item rv) i = 0) (profile_refine_values profile) (item_id base) of
                      None \<Rightarrow> None
                    | Some r_value \<Rightarrow> refine_value_selector r_value))
           in map_option inst_value (xccdf_value_get_instance_by_selector v selector)))"

definition xccdf_policy_add_final_setvalue ::
    "xccdf_policy \<Rightarrow> xccdf_item_base \<times> xccdf_value_item \<Rightarrow> xccdf_result \<Rightarrow> xccdf_result option" where
  "xccdf_policy_add_final_setvalue policy bv result =
     map_option (\<lambda>content. result\<lparr>result_setvalues := result_setvalues result @ [(item_id (fst bv), content)]\<rparr>)
       (xccdf_policy_get_value_of_item policy (fst bv) (snd bv))"

fun add_final_values ::
    "xccdf_policy \<Rightarrow> (xccdf_item_base \<times> xccdf_value_item) list \<Rightarrow> xccdf_result \<Rightarrow> xccdf_result option" where
  "add_final_values policy [] result = Some result"
| "add_final_values policy (v # vs) result =
     Option.bind (xccdf_policy_add_final_setvalue policy v result) (add_final_values policy vs)"

fun xccdf_policy_add_final_setvalues :: "xccdf_policy \<Rightarrow> xccdf_item \<Rightarrow> xccdf_result \<Rightarrow> xccdf_result option"
  and add_content_setvalues :: "xccdf_policy \<Rightarrow> xccdf_item list \<Rightarrow> xccdf_result \<Rightarrow> xccdf_result option"
where
  "xccdf_policy_add_final_setvalues policy (XCCDF_GROUP base vs content) result =
     Option.bind (add_final_values policy vs result) (add_content_setvalues policy content)"
| "xccdf_policy_add_final_setvalues policy (XCCDF_BENCHMARK base vs content) result =
     Option.bind (add_final_values policy vs result) (add_content_setvalues policy content)"
| "xccdf_policy_add_final_setvalues policy (XCCDF_RULE base rule) result = Some result"
| "xccdf_policy_add_final_setvalues policy (XCCDF_VALUE base v) result = Some result"
| "add_content_setvalues policy [] result = Some result"
| "add_content_setvalues policy (child # children) result =
     Option.bind (xccdf_policy_add_final_setvalues policy child result) (add_content_setvalues policy children)"

section \<open>The evaluation of a policy\<close>

text \<open>
  \<open>strverscmp\<close> of the GNU C library, by its manual: at the first difference, the longest strings of digits
  that start or end there are compared as numbers, and as fractions when they have leading zeros; without
  digits on both sides the bytes decide.
\<close>

fun common_prefix :: "string \<Rightarrow> string \<Rightarrow> string" where
  "common_prefix (c # s) (d # t) = (if c = d then c # common_prefix s t else [])"
| "common_prefix s t = []"

definition compare_digits :: "string \<Rightarrow> string \<Rightarrow> int" where
  "compare_digits a b =
     (let fraction = (\<lambda>x. 1 < length x \<and> hd x = CHR ''0'');
          zeros = (\<lambda>x. int (length (takeWhile (\<lambda>c. c = CHR ''0'') x)))
      in if fraction a \<and> fraction b then
           (if zeros a \<noteq> zeros b then zeros b - zeros a else strcmp a b)
         else if fraction a then -1
         else if fraction b then 1
         else if length a \<noteq> length b then int (length a) - int (length b)
         else strcmp a b)"

definition strverscmp :: "string \<Rightarrow> string \<Rightarrow> int" where
  "strverscmp s t =
     (if s = t then 0
      else (let p = common_prefix s t;
                d = rev (takeWhile c_isdigit (rev p));
                a = d @ takeWhile c_isdigit (drop (length p) s);
                b = d @ takeWhile c_isdigit (drop (length p) t)
            in if a = [] \<or> b = [] then strcmp s t else compare_digits a b))"

definition new_result :: "xccdf_policy \<Rightarrow> string \<Rightarrow> xccdf_result" where
  "new_result policy doc_version =
     (let profile = (case policy_profile policy of None \<Rightarrow> None | Some p \<Rightarrow> profile_id p);
          i = (case profile of None \<Rightarrow> ''default-profile'' | Some pid \<Rightarrow> pid)
      in \<lparr>result_id = (if strverscmp ''1.2'' doc_version \<ge> 0 then ''xccdf_org.open-scap_testresult_'' @ i else ''OSCAP-Test-'' @ i),
          result_profile = profile, result_rule_results = [], result_setvalues = [], result_platforms = []\<rparr>)"

fun add_platforms :: "unit hitem list \<Rightarrow> xccdf_result \<Rightarrow> xccdf_result" where
  "add_platforms [] result = result"
| "add_platforms (Detached # items) result = add_platforms items result"
| "add_platforms (Hitem key v # items) result = add_platforms items (result\<lparr>result_platforms := result_platforms result @ [key]\<rparr>)"

text \<open>The result of the evaluation is NULL (the inner None) when it is cancelled; else it joins the results of the policy.\<close>

definition xccdf_policy_evaluate ::
    "(cpe_pattern \<Rightarrow> string \<Rightarrow> bool) \<Rightarrow> 'w oval_evaluation \<Rightarrow> 'w xccdf_policy_model \<Rightarrow> xccdf_policy \<Rightarrow> 'w policy_env
       \<Rightarrow> (xccdf_result option \<times> xccdf_policy \<times> 'w policy_env) option" where
  "xccdf_policy_evaluate re oval model policy env =
     (let bench = model_benchmark model in
      case content_evaluate re oval model policy [bench_item bench] (item_content (bench_item bench))
             (new_result policy (bench_version bench)) env of
        None \<Rightarrow> None
      | Some (ret, result, env1) \<Rightarrow>
          if ret = -1 then Some (None, policy, env1)
          else map_option (\<lambda>result1.
                 let result2 = add_platforms (hit_pending (oscap_htable_iterator_new (cpe_applicable_platforms (env_cpe env1)))) result1
                 in (Some result2, policy\<lparr>policy_results := policy_results policy @ [result2]\<rparr>, env1))
               (xccdf_policy_add_final_setvalues policy (bench_item bench) result))"

definition xccdf_policy_get_score ::
    "(rat \<Rightarrow> rat) \<Rightarrow> 'w xccdf_policy_model \<Rightarrow> xccdf_result \<Rightarrow> string \<Rightarrow> xccdf_score option option" where
  "xccdf_policy_get_score rnd model test_result scsystem =
     xccdf_result_calculate_score rnd (result_rule_results test_result) (bench_item (model_benchmark model)) scsystem"

end
