(* ===== verification/Xccdf_Policy_Tailor.thy ===== *)
theory Xccdf_Policy_Tailor
  imports Xccdf_Policy_Run
begin

text \<open>
  Tailored items and the files of checks (\<open>XCCDF_POLICY/xccdf_policy.c\<close>): copies of items changed by the
  refine-rules and refine-values of a profile; the files that the checks of an item refer to, each once.
\<close>

section \<open>Tailored items\<close>

definition xccdf_policy_get_refine_value_oper :: "xccdf_policy \<Rightarrow> string \<Rightarrow> int" where
  "xccdf_policy_get_refine_value_oper policy i =
     (case policy_profile policy of
        None \<Rightarrow> -1
      | Some profile \<Rightarrow>
          (case oscap_list_find (\<lambda>rv j. strcmp (refine_value_item rv) j = 0) (profile_refine_values profile) i of
             None \<Rightarrow> -1
           | Some r_value \<Rightarrow> refine_value_oper r_value))"

definition refine_rule_fields :: "xccdf_refine_rule \<Rightarrow> xccdf_rule_item \<Rightarrow> xccdf_rule_item" where
  "refine_rule_fields r_rule rule =
     (let rule1 = (if refine_rule_role r_rule > 0 then rule\<lparr>rule_role := refine_rule_role r_rule\<rparr> else rule)
      in if refine_rule_severity r_rule > 0 then rule1\<lparr>rule_severity := refine_rule_severity r_rule\<rparr> else rule1)"

definition refine_weight :: "xccdf_refine_rule \<Rightarrow> xccdf_item_base \<Rightarrow> xccdf_item_base" where
  "refine_weight r_rule base =
     (case refine_rule_weight r_rule of None \<Rightarrow> base | Some w \<Rightarrow> base\<lparr>item_weight := w\<rparr>)"

text \<open>The first instance that an empty selector finds gets the value as its default.\<close>

fun set_defval :: "xccdf_value_instance \<Rightarrow> cstr \<Rightarrow> xccdf_value_instance list \<Rightarrow> xccdf_value_instance list" where
  "set_defval inst val [] = []"
| "set_defval inst val (i # is) = (if i = inst then i\<lparr>inst_defval := val\<rparr> # is else i # set_defval inst val is)"

definition tailor_instances :: "string \<Rightarrow> xccdf_value_item \<Rightarrow> xccdf_value_item option" where
  "tailor_instances val v =
     (let selector = (case last_match (\<lambda>inst. oscap_strcmp (inst_value inst) (Some val) = 0) (value_instances v) None of
                        None \<Rightarrow> None | Some inst \<Rightarrow> inst_selector inst);
          kept = filter (\<lambda>inst. oscap_strcmp (inst_selector inst) selector = 0) (value_instances v);
          v1 = v\<lparr>value_instances := kept\<rparr>
      in if selector \<noteq> None then Some v1
         else (case xccdf_value_get_instance_by_selector v1 None of
                 None \<Rightarrow> None
               | Some inst \<Rightarrow> Some (v1\<lparr>value_instances := set_defval inst (Some val) kept\<rparr>)))"

text \<open>
  The tailored item (the inner None is NULL; the same item if nothing refines it) and the original item
  afterwards: the operator of a value is set on the original. None is the NULL instance that is read.
\<close>

fun xccdf_policy_tailor_item :: "xccdf_policy \<Rightarrow> xccdf_item \<Rightarrow> (xccdf_item option \<times> xccdf_item) option" where
  "xccdf_policy_tailor_item policy (XCCDF_RULE base rule) =
     (case xccdf_policy_get_refine_rules_by_rule policy (item_id base) of
        None \<Rightarrow> Some (Some (XCCDF_RULE base rule), XCCDF_RULE base rule)
      | Some r_rule \<Rightarrow> Some (Some (XCCDF_RULE (refine_weight r_rule base) (refine_rule_fields r_rule rule)), XCCDF_RULE base rule))"
| "xccdf_policy_tailor_item policy (XCCDF_GROUP base vs content) =
     (case xccdf_policy_get_refine_rules_by_rule policy (item_id base) of
        None \<Rightarrow> Some (Some (XCCDF_GROUP base vs content), XCCDF_GROUP base vs content)
      | Some r_rule \<Rightarrow> Some (Some (XCCDF_GROUP (refine_weight r_rule base) vs content), XCCDF_GROUP base vs content))"
| "xccdf_policy_tailor_item policy (XCCDF_VALUE base v) =
     (case xccdf_policy_get_value_of_item policy base v of
        None \<Rightarrow> None
      | Some None \<Rightarrow> Some (None, XCCDF_VALUE base v)
      | Some (Some val) \<Rightarrow>
          map_option (\<lambda>v1.
              let oper = xccdf_policy_get_refine_value_oper policy (item_id base)
              in (Some (XCCDF_VALUE base v1), XCCDF_VALUE base (if oper = -1 then v else v\<lparr>value_oper := oper\<rparr>)))
            (tailor_instances val v))"
| "xccdf_policy_tailor_item policy (XCCDF_BENCHMARK base vs content) = Some (None, XCCDF_BENCHMARK base vs content)"

section \<open>Files of checks\<close>

record oscap_file_entry =
  entry_system_name :: cstr
  entry_file :: cstr

definition xccdf_file_entry_cmp_func :: "oscap_file_entry \<Rightarrow> oscap_file_entry \<Rightarrow> bool" where
  "xccdf_file_entry_cmp_func entry1 entry2 \<longleftrightarrow>
     oscap_strcmp (entry_system_name entry1) (entry_system_name entry2) = 0
     \<and> oscap_strcmp (entry_file entry1) (entry_file entry2) = 0"

text \<open>The loops that add the entries of a list that are not there yet.\<close>

fun add_files :: "oscap_file_entry list \<Rightarrow> oscap_file_entry list \<Rightarrow> oscap_file_entry list" where
  "add_files files [] = files"
| "add_files files (file_entry # entries) =
     add_files (if oscap_list_contains xccdf_file_entry_cmp_func files file_entry then files
                else snd (oscap_list_add files (Some file_entry))) entries"

fun xccdf_check_get_systems_and_files :: "xccdf_check \<Rightarrow> oscap_file_entry list"
  and children_systems_and_files :: "oscap_file_entry list \<Rightarrow> xccdf_check list \<Rightarrow> oscap_file_entry list"
where
  "xccdf_check_get_systems_and_files (XCheck flds children) =
     (if xccdf_check_get_complex (XCheck flds children) then children_systems_and_files [] children
      else add_files [] (map (\<lambda>content. \<lparr>entry_system_name = chk_system flds, entry_file = ref_href content\<rparr>) (chk_content_refs flds)))"
| "children_systems_and_files files [] = files"
| "children_systems_and_files files (child # children) =
     children_systems_and_files (add_files files (xccdf_check_get_systems_and_files child)) children"

text \<open>A value has no list (NULL, here None); as a child its NULL is read, which is None as well.\<close>

fun xccdf_item_get_systems_and_files :: "xccdf_item \<Rightarrow> oscap_file_entry list option"
  and content_systems_and_files :: "oscap_file_entry list \<Rightarrow> xccdf_item list \<Rightarrow> oscap_file_entry list option"
where
  "xccdf_item_get_systems_and_files (XCCDF_RULE base rule) = Some (children_systems_and_files [] (rule_checks rule))"
| "xccdf_item_get_systems_and_files (XCCDF_GROUP base vs content) = content_systems_and_files [] content"
| "xccdf_item_get_systems_and_files (XCCDF_BENCHMARK base vs content) = content_systems_and_files [] content"
| "xccdf_item_get_systems_and_files (XCCDF_VALUE base v) = None"
| "content_systems_and_files files [] = Some files"
| "content_systems_and_files files (child # children) =
     (case xccdf_item_get_systems_and_files child of
        None \<Rightarrow> None
      | Some sub_files \<Rightarrow> content_systems_and_files (add_files files sub_files) children)"

text \<open>The same for the names of the files alone, where a reference without a name fails (\<open>strdup\<close> of NULL).\<close>

definition xccdf_cmp_func :: "string \<Rightarrow> cstr \<Rightarrow> bool" where
  "xccdf_cmp_func s1 s2 \<longleftrightarrow> oscap_strcmp (Some s1) s2 = 0"

fun add_names :: "string list \<Rightarrow> cstr list \<Rightarrow> string list option" where
  "add_names names [] = Some names"
| "add_names names (href # hrefs) =
     (if oscap_list_contains xccdf_cmp_func names href then add_names names hrefs
      else (case href of None \<Rightarrow> None | Some h \<Rightarrow> add_names (snd (oscap_list_add names (Some h))) hrefs))"

fun xccdf_check_get_files :: "xccdf_check \<Rightarrow> string list option"
  and children_files :: "string list \<Rightarrow> xccdf_check list \<Rightarrow> string list option"
where
  "xccdf_check_get_files (XCheck flds children) =
     (if xccdf_check_get_complex (XCheck flds children) then children_files [] children
      else add_names [] (map ref_href (chk_content_refs flds)))"
| "children_files names [] = Some names"
| "children_files names (child # children) =
     (case xccdf_check_get_files child of
        None \<Rightarrow> None
      | Some sub_names \<Rightarrow> Option.bind (add_names names (map Some sub_names)) (\<lambda>names1. children_files names1 children))"

fun xccdf_item_get_files :: "xccdf_item \<Rightarrow> string list option"
  and content_files :: "string list \<Rightarrow> xccdf_item list \<Rightarrow> string list option"
where
  "xccdf_item_get_files (XCCDF_RULE base rule) = children_files [] (rule_checks rule)"
| "xccdf_item_get_files (XCCDF_GROUP base vs content) = content_files [] content"
| "xccdf_item_get_files (XCCDF_BENCHMARK base vs content) = content_files [] content"
| "xccdf_item_get_files (XCCDF_VALUE base v) = None"
| "content_files names [] = Some names"
| "content_files names (child # children) =
     (case xccdf_item_get_files child of
        None \<Rightarrow> None
      | Some sub_names \<Rightarrow> Option.bind (add_names names (map Some sub_names)) (\<lambda>names1. content_files names1 children))"

end
