(* ===== verification/Xccdf_Policy_Props.thy ===== *)
theory Xccdf_Policy_Props
  imports Xccdf_Policy_Tailor
begin

text \<open>
  What complex checks compute: the results of the children combined along the operator, and a formula
  over simple checks that pass or fail.
\<close>

section \<open>The combination of results\<close>

text \<open>The results of some checks that are evaluated one after the other.\<close>

fun evaluate_each ::
    "'w xccdf_policy_model \<Rightarrow> xccdf_policy \<Rightarrow> xccdf_check list \<Rightarrow> 'w \<Rightarrow> int list \<times> xccdf_check list \<times> 'w" where
  "evaluate_each model policy [] w = ([], [], w)"
| "evaluate_each model policy (c # cs) w =
     (let (r, c', w1) = xccdf_policy_check_evaluate model policy c w;
          (rs, cs', w2) = evaluate_each model policy cs w1
      in (r # rs, c' # cs', w2))"

text \<open>The results that a check may have; of an operator, the result that decides alone and the one that gives way to it.\<close>

definition result_code :: "int \<Rightarrow> bool" where
  "result_code r \<longleftrightarrow> r \<in> {1, 2, 3, 4, 5, 6, 7, 8}"

fun decisive :: "xccdf_bool_operator_t \<Rightarrow> int" where
  "decisive XCCDF_OPERATOR_AND = XCCDF_RESULT_FAIL"
| "decisive XCCDF_OPERATOR_OR = XCCDF_RESULT_PASS"

fun neutral :: "xccdf_bool_operator_t \<Rightarrow> int" where
  "neutral XCCDF_OPERATOR_AND = XCCDF_RESULT_PASS"
| "neutral XCCDF_OPERATOR_OR = XCCDF_RESULT_FAIL"

text \<open>
  What errors and unknown results come to, from the first of them on: the rows of the two kinds are exchanged
  in the tables, so that an error becomes unknown by any later result, and unknown an error by any later
  result that is not unknown.
\<close>

fun error_kind :: "int \<Rightarrow> int list \<Rightarrow> int" where
  "error_kind e [] = e"
| "error_kind e (r # rs) =
     error_kind (if e = XCCDF_RESULT_ERROR \<or> r = XCCDF_RESULT_UNKNOWN then XCCDF_RESULT_UNKNOWN else XCCDF_RESULT_ERROR) rs"

text \<open>The result that some results combine to; 0 for no result.\<close>

definition combine_codes :: "xccdf_bool_operator_t \<Rightarrow> int list \<Rightarrow> int" where
  "combine_codes oper rs =
     (if rs = [] then 0
      else if decisive oper \<in> set rs then decisive oper
      else case dropWhile (\<lambda>r. r \<noteq> XCCDF_RESULT_ERROR \<and> r \<noteq> XCCDF_RESULT_UNKNOWN) rs of
             e # later \<Rightarrow> error_kind e later
           | [] \<Rightarrow> if neutral oper \<in> set rs then neutral oper else Min (set rs))"

text \<open>A child without a result (0) makes the code forget those before it: the results that count are the later ones.\<close>

definition since_none :: "int list \<Rightarrow> int list" where
  "since_none rs = rev (takeWhile (\<lambda>r. r \<noteq> 0) (rev rs))"

definition combined :: "xccdf_bool_operator_t \<Rightarrow> int list \<Rightarrow> int" where
  "combined oper rs = combine_codes oper (since_none rs)"

text \<open>The tables in words, checked entry by entry.\<close>

definition resolved_as :: "xccdf_bool_operator_t \<Rightarrow> int \<Rightarrow> int \<Rightarrow> int \<Rightarrow> bool" where
  "resolved_as oper a b r \<longleftrightarrow> r =
     (if a = decisive oper \<or> b = decisive oper then decisive oper
      else if a = 3 then 4
      else if a = 4 then (if b = 4 then 4 else 3)
      else if b = 3 \<or> b = 4 then b
      else if a = neutral oper \<or> b = neutral oper then neutral oper
      else min a b)"

lemma resolve_table: "\<forall>oper\<in>set [XCCDF_OPERATOR_AND, XCCDF_OPERATOR_OR]. \<forall>a\<in>set [1, 2, 3, 4, 5, 6, 7, 8]. \<forall>b\<in>set [1, 2, 3, 4, 5, 6, 7, 8].
  resolved_as oper a b (resolve_operation a b (Some oper)) \<and> result_code (resolve_operation a b (Some oper))"
  by code_simp

lemma resolve_entry:
  assumes "result_code a" and "result_code b"
  shows "resolved_as oper a b (resolve_operation a b (Some oper)) \<and> result_code (resolve_operation a b (Some oper))"
proof -
  have "oper \<in> set [XCCDF_OPERATOR_AND, XCCDF_OPERATOR_OR]" by (cases oper) simp_all
  moreover have "a \<in> set [1, 2, 3, 4, 5, 6, 7, 8]" "b \<in> set [1, 2, 3, 4, 5, 6, 7, 8]" using assms by (simp_all add: result_code_def)
  ultimately show ?thesis by (rule bspec [OF bspec [OF bspec [OF resolve_table]]])
qed

lemmas resolve_cases = resolve_entry [THEN conjunct1, unfolded resolved_as_def]
  and resolve_code = resolve_entry [THEN conjunct2]

lemma error_kind_snoc:
  "error_kind e (rs @ [r]) =
     (if error_kind e rs = XCCDF_RESULT_ERROR \<or> r = XCCDF_RESULT_UNKNOWN then XCCDF_RESULT_UNKNOWN else XCCDF_RESULT_ERROR)"
  by (induction e rs rule: error_kind.induct) simp_all

lemma error_kind_cases: "e = 3 \<or> e = 4 \<Longrightarrow> error_kind e rs = 3 \<or> error_kind e rs = 4"
  by (induction e rs rule: error_kind.induct) auto

lemma combine_codes_single: "combine_codes oper [r] = r"
  by (simp add: combine_codes_def)

lemma errors_none: "dropWhile (\<lambda>r. r \<noteq> 3 \<and> r \<noteq> (4::int)) rs = [] \<Longrightarrow> 3 \<notin> set rs \<and> 4 \<notin> set rs"
  by (auto simp: dropWhile_eq_Nil_conv)

lemma errors_some: "dropWhile (\<lambda>r. r \<noteq> 3 \<and> r \<noteq> (4::int)) rs = e # later \<Longrightarrow> \<exists>x\<in>set rs. x = 3 \<or> x = 4"
  by (metis (mono_tags, lifting) dropWhile_eq_Nil_conv list.distinct(1))

lemma errors_first: "dropWhile (\<lambda>r. r \<noteq> 3 \<and> r \<noteq> (4::int)) rs = e # later \<Longrightarrow> e = 3 \<or> e = 4"
  by (metis (mono_tags, lifting) dropWhile_eq_Cons_conv)

lemma combine_codes_snoc:
  assumes "rs \<noteq> []" and "list_all result_code rs" and "result_code b"
  shows "combine_codes oper (rs @ [b]) = resolve_operation (combine_codes oper rs) b (Some oper)
    \<and> result_code (combine_codes oper rs)"
proof -
  define d n where "d = decisive oper" and "n = neutral oper"
  have no: "d \<noteq> 3" "d \<noteq> 4" "n \<noteq> 3" "n \<noteq> 4" "d \<noteq> n" by (cases oper; simp add: d_def n_def)+
  have Min: "Min (set rs) \<in> set rs" "Min (insert b (set rs)) = min b (Min (set rs))" using assms(1) by simp_all
  have codes: "x \<in> set rs \<Longrightarrow> result_code x" for x using assms(2) by (simp add: list_all_iff)
  let ?errors = "dropWhile (\<lambda>r. r \<noteq> 3 \<and> r \<noteq> (4::int)) rs"
  note combine = combine_codes_def [of oper, folded d_def n_def]
  consider (d) "d \<in> set rs" | (e) e later where "d \<notin> set rs" "?errors = e # later"
    | (n) "d \<notin> set rs" "?errors = []" "n \<in> set rs" | (m) "d \<notin> set rs" "?errors = []" "n \<notin> set rs"
    by (cases ?errors) auto
  then show ?thesis
  proof cases
    case d
    then show ?thesis using codes assms by (simp add: combine resolve_cases flip: d_def n_def)
  next
    case e
    have c: "combine_codes oper rs = error_kind e later" using e assms(1) by (simp add: combine)
    have k: "error_kind e later = 3 \<or> error_kind e later = 4" using error_kind_cases errors_first [OF e(2)] by blast
    then have code: "result_code (error_kind e later)" by (auto simp: result_code_def)
    have "dropWhile (\<lambda>r. r \<noteq> 3 \<and> r \<noteq> (4::int)) (rs @ [b]) = e # later @ [b]"
      using e(2) errors_some [OF e(2)] by (simp add: dropWhile_append)
    then have "combine_codes oper (rs @ [b]) = (if b = d then d else error_kind e (later @ [b]))"
      using e(1) by (auto simp: combine)
    then show ?thesis unfolding c error_kind_snoc using k code no assms(3) by (simp add: resolve_cases flip: d_def n_def) linarith
  next
    case n
    have c: "combine_codes oper rs = n" using n assms(1) by (simp add: combine del: dropWhile_eq_Nil_conv)
    have "combine_codes oper (rs @ [b]) = (if b = d then d else if b = 3 \<or> b = 4 then b else n)"
      using n no assms(1) by (auto simp: combine dropWhile_append)
    then show ?thesis using c codes [OF n(3)] no assms(3) by (simp add: resolve_cases flip: d_def n_def)
  next
    case m
    have c: "combine_codes oper rs = Min (set rs)" using m assms(1) by (simp add: combine del: dropWhile_eq_Nil_conv)
    have r: "Min (set rs) \<noteq> d" "Min (set rs) \<noteq> 3" "Min (set rs) \<noteq> 4" "Min (set rs) \<noteq> n"
      using m errors_none [OF m(2)] Min(1) by metis+
    have "combine_codes oper (rs @ [b]) = (if b = d then d else if b = 3 \<or> b = 4 then b else if b = n then n else min b (Min (set rs)))"
      using m no assms(1) Min(2) by (auto simp: combine dropWhile_append)
    then show ?thesis unfolding c using r codes [OF Min(1)] no assms(3)
      by (simp add: resolve_cases min.commute flip: d_def n_def)
  qed
qed

lemma error_alternates: "foldl (\<lambda>a b. resolve_operation a b (Some XCCDF_OPERATOR_AND)) XCCDF_RESULT_ERROR (replicate n XCCDF_RESULT_PASS)
    = (if even n then XCCDF_RESULT_ERROR else XCCDF_RESULT_UNKNOWN)"
proof (induction n)
  case (Suc n)
  then show ?case
    by (simp flip: replicate_append_same) (simp add: resolve_operation_def RESULT_TABLE_AND_def)
qed simp

text \<open>The loop over the children as a fold over their results.\<close>

definition combine_step :: "xccdf_bool_operator_t \<Rightarrow> int \<Rightarrow> int \<Rightarrow> int" where
  "combine_step oper ret ret2 = (if ret = 0 then ret2 else resolve_operation ret ret2 (Some oper))"

lemma children_fold:
  "evaluate_each model policy children w = (rs, cs, w') \<Longrightarrow> - 1 \<notin> set rs \<Longrightarrow>
   check_children_evaluate model policy (Some oper) children r w = (foldl (combine_step oper) r rs, cs, w')"
proof (induction children arbitrary: rs cs w r)
  case (Cons c children)
  obtain r1 c' w1 rs1 cs1 where each: "xccdf_policy_check_evaluate model policy c w = (r1, c', w1)"
      "evaluate_each model policy children w1 = (rs1, cs1, w')" and eqs: "rs = r1 # rs1" "cs = c' # cs1"
    using Cons.prems(1) by (auto split: prod.splits)
  show ?case using Cons.IH [OF each(2), of "combine_step oper r r1"] Cons.prems(2) each(1)
    by (simp add: eqs combine_step_def)
qed simp

definition possible_result :: "int \<Rightarrow> bool" where
  "possible_result r \<longleftrightarrow> r = 0 \<or> result_code r"

lemma since_none_snoc: "since_none (rs @ [r]) = (if r = 0 then [] else since_none rs @ [r])"
  by (simp add: since_none_def)

lemma since_none_codes: "list_all possible_result rs \<Longrightarrow> list_all result_code (since_none rs)"
  by (auto simp: since_none_def list_all_iff possible_result_def dest!: set_takeWhileD)

lemma fold_combined: "list_all possible_result rs \<Longrightarrow> foldl (combine_step oper) 0 rs = combined oper rs"
proof (induction rs rule: rev_induct)
  case (snoc r rs)
  then have ih: "foldl (combine_step oper) 0 rs = combine_codes oper (since_none rs)"
    and codes: "list_all result_code (since_none rs)" and r: "possible_result r"
    by (simp_all add: combined_def since_none_codes)
  have last: "foldl (combine_step oper) 0 (rs @ [r]) = combine_step oper (combine_codes oper (since_none rs)) r" by (simp add: ih)
  have nil: "combine_codes oper [] = 0" by (simp add: combine_codes_def)
  show ?case
  proof (cases "r = 0 \<or> since_none rs = []")
    case True
    then show ?thesis unfolding last
      by (auto simp: combined_def since_none_snoc combine_step_def combine_codes_single resolve_operation_def nil)
  next
    case False
    then have "result_code r" using r by (simp add: possible_result_def)
    note step = combine_codes_snoc [OF _ codes this, of oper]
    then have "combine_codes oper (since_none rs) \<noteq> 0" using False by (auto simp: result_code_def)
    then show ?thesis unfolding last using step False by (simp add: combined_def since_none_snoc combine_step_def)
  qed
qed (simp add: combined_def since_none_def combine_codes_def)

section \<open>Complex checks\<close>

lemma combine_codes_possible: "list_all result_code rs \<Longrightarrow> possible_result (combine_codes oper rs)"
proof (cases rs rule: rev_cases)
  case (snoc xs x)
  assume "list_all result_code rs"
  then show ?thesis
    using snoc combine_codes_snoc [of xs x oper] resolve_code [of "combine_codes oper xs" x oper]
    by (cases "xs = []") (auto simp: possible_result_def combine_codes_single)
qed (simp add: combine_codes_def possible_result_def)

lemma complex_check_combined:
  assumes "chk_oper flds = Some oper" and "evaluate_each model policy children w = (rs, cs, w')"
    and "list_all possible_result rs"
  shows "xccdf_policy_check_evaluate model policy (XCheck flds children) w
    = (resolve_negate (combined oper rs) flds, XCheck flds cs, w')"
proof -
  have "- 1 \<notin> set rs" using assms(3) by (auto simp: list_all_iff possible_result_def result_code_def)
  from children_fold [OF assms(2) this, of oper 0]
  have "check_children_evaluate model policy (Some oper) children 0 w = (combined oper rs, cs, w')"
    by (simp add: fold_combined [OF assms(3)])
  moreover have "combined oper rs \<noteq> - 1"
    using combine_codes_possible [OF since_none_codes [OF assms(3)], of oper]
    by (auto simp: combined_def possible_result_def result_code_def)
  ultimately show ?thesis using assms(1) by (simp add: xccdf_check_get_complex_def)
qed

text \<open>What a tree of checks says when its simple checks hold or do not.\<close>

fun check_holds :: "(xccdf_check \<Rightarrow> bool) \<Rightarrow> xccdf_check \<Rightarrow> bool" where
  "check_holds v (XCheck flds children) =
     (case chk_oper flds of
        None \<Rightarrow> v (XCheck flds children)
      | Some XCCDF_OPERATOR_AND \<Rightarrow> list_all (check_holds v) children \<noteq> chk_negate flds
      | Some XCCDF_OPERATOR_OR \<Rightarrow> list_ex (check_holds v) children \<noteq> chk_negate flds)"

fun simple_checks :: "xccdf_check \<Rightarrow> xccdf_check list" where
  "simple_checks (XCheck flds children) =
     (if chk_oper flds = None then [XCheck flds children] else concat (map simple_checks children))"

text \<open>Every complex check of the tree has children.\<close>

fun check_filled :: "xccdf_check \<Rightarrow> bool" where
  "check_filled (XCheck flds children) \<longleftrightarrow> chk_oper flds \<noteq> None \<longrightarrow> children \<noteq> [] \<and> list_all check_filled children"

definition pass_fail :: "bool \<Rightarrow> int" where
  "pass_fail b = (if b then XCCDF_RESULT_PASS else XCCDF_RESULT_FAIL)"

lemma evaluate_each_map:
  assumes "\<And>c w. c \<in> set children \<Longrightarrow> fst (xccdf_policy_check_evaluate model policy c w) = f c"
  shows "fst (evaluate_each model policy children w) = map f children"
  using assms
proof (induction children arbitrary: w)
  case (Cons c children)
  obtain r c' w1 where c: "xccdf_policy_check_evaluate model policy c w = (r, c', w1)" by (metis prod_cases3)
  have "r = f c" using Cons.prems [of c w] c by simp
  moreover have "fst (evaluate_each model policy children w1) = map f children" using Cons by simp
  ultimately show ?case by (auto simp: c split: prod.splits)
qed simp

lemma combined_pass_fail:
  assumes "children \<noteq> []"
  shows "combined oper (map (\<lambda>c. pass_fail (h c)) children)
    = pass_fail (case oper of XCCDF_OPERATOR_AND \<Rightarrow> list_all h children | XCCDF_OPERATOR_OR \<Rightarrow> list_ex h children)"
proof -
  let ?rs = "map (\<lambda>c. pass_fail (h c)) children"
  have "takeWhile (\<lambda>r. r \<noteq> 0) (rev ?rs) = rev ?rs" by (simp only: takeWhile_eq_all_conv) (auto simp: pass_fail_def)
  then have "since_none ?rs = ?rs" by (simp only: since_none_def rev_rev_ident)
  moreover have "dropWhile (\<lambda>r. r \<noteq> XCCDF_RESULT_ERROR \<and> r \<noteq> XCCDF_RESULT_UNKNOWN) ?rs = []" by (auto simp: pass_fail_def)
  moreover have "?rs \<noteq> []" using assms by simp
  ultimately have "combined oper ?rs
      = (if decisive oper \<in> set ?rs then decisive oper else if neutral oper \<in> set ?rs then neutral oper else Min (set ?rs))"
    by (simp only: combined_def combine_codes_def list.case if_False)
  then show ?thesis using assms
    by (cases oper; cases children) (auto simp: pass_fail_def list_all_iff list_ex_iff image_iff split: if_splits)
qed

lemma pass_fail_code [simp]: "result_code (pass_fail b)"
  by (simp add: result_code_def pass_fail_def)

lemma resolve_negate_pass_fail: "resolve_negate (pass_fail b) flds = pass_fail (b \<noteq> chk_negate flds)"
  by (simp add: resolve_negate_def pass_fail_def)

section \<open>An example\<close>

text \<open>A model with one engine, which counts its calls; definitions hold unless they are named \<open>bad\<close>.\<close>

definition demo_engine :: "nat xccdf_policy_engine" where
  "demo_engine = \<lparr>engine_system = Some ''demo'',
     engine_callback = (\<lambda>name href bindings w. (pass_fail (name \<noteq> Some ''bad''), Suc w)), engine_query_fn = None\<rparr>"

definition demo_base :: "string \<Rightarrow> xccdf_item_base" where
  "demo_base i = \<lparr>item_id = i, item_cluster_id = None, item_weight = 1, item_selected = True, item_platforms = []\<rparr>"

definition demo_benchmark :: "xccdf_item list \<Rightarrow> xccdf_benchmark" where
  "demo_benchmark content =
     \<lparr>bench_item = XCCDF_BENCHMARK (demo_base ''b'') [] content, bench_items_dict = oscap_htable_new, bench_clusters_dict = oscap_htable_new,
      bench_profiles = [], bench_cpe_list = None, bench_cpe_lang_model = None, bench_version = ''1.2''\<rparr>"

definition demo_model :: "nat xccdf_policy_model" where
  "demo_model = \<lparr>model_benchmark = demo_benchmark [], model_tailoring = None, model_policies = [], model_callbacks = [],
     model_engines = [demo_engine]\<rparr>"

definition demo_check :: "string \<Rightarrow> xccdf_check" where
  "demo_check name = XCheck \<lparr>chk_oper = None, chk_system = Some ''demo'', chk_selector = None, chk_negate = False, chk_multicheck = False,
     chk_exports = [], chk_content_refs = [\<lparr>ref_href = Some ''f.xml'', ref_name = Some name\<rparr>]\<rparr> []"

definition demo_fields :: "xccdf_bool_operator_t \<Rightarrow> bool \<Rightarrow> xccdf_check_fields" where
  "demo_fields oper negate = \<lparr>chk_oper = Some oper, chk_system = None, chk_selector = None, chk_negate = negate, chk_multicheck = False,
     chk_exports = [], chk_content_refs = []\<rparr>"

lemma demo_check_evaluate:
  "xccdf_policy_check_evaluate demo_model policy (demo_check name) w = (pass_fail (name \<noteq> ''bad''), demo_check name, Suc w)"
  by (simp add: demo_check_def demo_model_def demo_engine_def xccdf_check_get_complex_def xccdf_policy_evaluate_cb_def
      get_engines_by_sysname_def it_pending_def oscap_iterator_new_def xccdf_policy_engine_filter_def oscap_strcmp_def pass_fail_def
      xccdf_check_inject_content_ref_def resolve_negate_def)

section \<open>Properties\<close>

text \<open>
  C5. A complex check evaluates its children in order and has the combination of their results: FAIL for AND
  and PASS for OR when a child has it, else, when a child is in error or unknown, what \<open>error_kind\<close> makes of
  these results from the first such child on (the two kinds are exchanged in the tables, which is an error of
  the code), else PASS for AND and FAIL for OR when a child has it, else the least code. PASS and FAIL are
  swapped by a negation. A child that has no result (a check without content, 0) makes the code forget the
  children before it: the combination is that of the children after the last such one, so AND of FAIL, no
  result and PASS is PASS. The results of children are those of engines and of complex checks, PASS to
  INFORMATIONAL, or 0.
\<close>

theorem complex_check_correct:
  assumes "chk_oper flds = Some oper" and "evaluate_each model policy children w = (rs, cs, w')"
    and "list_all possible_result rs"
  shows "xccdf_policy_check_evaluate model policy (XCheck flds children) w
    = (resolve_negate (combined oper rs) flds, XCheck flds cs, w')"
  by (rule complex_check_combined [OF assms])

text \<open>A check without content, which has no result.\<close>

definition empty_check :: xccdf_check where
  "empty_check = XCheck \<lparr>chk_oper = None, chk_system = Some ''demo'', chk_selector = None, chk_negate = False, chk_multicheck = False,
     chk_exports = [], chk_content_refs = []\<rparr> []"

lemma empty_check_evaluate: "xccdf_policy_check_evaluate demo_model policy empty_check w = (0, empty_check, w)"
  by (simp add: empty_check_def xccdf_check_get_complex_def resolve_negate_def)

theorem complex_check_correct_witness:
  "xccdf_policy_check_evaluate demo_model (empty_policy None)
      (XCheck (demo_fields XCCDF_OPERATOR_AND False) [demo_check ''bad'', empty_check, demo_check ''good'']) 0
    = (resolve_negate (combined XCCDF_OPERATOR_AND [XCCDF_RESULT_FAIL, 0, XCCDF_RESULT_PASS]) (demo_fields XCCDF_OPERATOR_AND False),
       XCheck (demo_fields XCCDF_OPERATOR_AND False) [demo_check ''bad'', empty_check, demo_check ''good''], 2)
   \<and> combined XCCDF_OPERATOR_AND [XCCDF_RESULT_FAIL, 0, XCCDF_RESULT_PASS] = XCCDF_RESULT_PASS"
proof
  show "combined XCCDF_OPERATOR_AND [XCCDF_RESULT_FAIL, 0, XCCDF_RESULT_PASS] = XCCDF_RESULT_PASS"
    by (simp add: combined_def since_none_def combine_codes_def)
qed (rule complex_check_correct; simp add: demo_fields_def demo_check_evaluate empty_check_evaluate pass_fail_def
    possible_result_def result_code_def numeral_2_eq_2)

text \<open>
  C4. Over simple checks that pass or fail whatever the state of the world, a tree of checks passes or
  fails as the formula it stands for: conjunctions, disjunctions and negations.
\<close>

theorem complex_check_formula:
  assumes "check_filled check"
    and "\<And>c w. c \<in> set (simple_checks check) \<Longrightarrow> fst (xccdf_policy_check_evaluate model policy c w) = pass_fail (v c)"
  shows "fst (xccdf_policy_check_evaluate model policy check w) = pass_fail (check_holds v check)"
  using assms
proof (induction check arbitrary: w)
  case (XCheck flds children)
  show ?case
  proof (cases "chk_oper flds")
    case None
    then show ?thesis using XCheck.prems(2) by simp
  next
    case (Some oper)
    have filled: "children \<noteq> []" "\<And>c. c \<in> set children \<Longrightarrow> check_filled c"
      using XCheck.prems(1) Some by (auto simp: list_all_iff)
    have child: "fst (xccdf_policy_check_evaluate model policy c w) = pass_fail (check_holds v c)" if "c \<in> set children" for c w
      using that XCheck.prems(2) Some by (intro XCheck.IH [OF that filled(2)]) auto
    obtain rs cs w' where each: "evaluate_each model policy children w = (rs, cs, w')" by (metis prod_cases3)
    have rs: "rs = map (\<lambda>c. pass_fail (check_holds v c)) children"
    proof -
      have "fst (evaluate_each model policy children w) = map (\<lambda>c. pass_fail (check_holds v c)) children"
        by (rule evaluate_each_map) (rule child)
      then show ?thesis using each by simp
    qed
    then have "list_all possible_result rs" by (simp add: list_all_iff possible_result_def)
    from complex_check_combined [OF Some each this]
    have r: "fst (xccdf_policy_check_evaluate model policy (XCheck flds children) w) = resolve_negate (combined oper rs) flds" by simp
    have "combined oper rs = pass_fail (case oper of XCCDF_OPERATOR_AND \<Rightarrow> list_all (check_holds v) children
        | XCCDF_OPERATOR_OR \<Rightarrow> list_ex (check_holds v) children)"
      unfolding rs by (rule combined_pass_fail [OF filled(1)])
    then show ?thesis using r Some by (cases oper) (simp_all add: resolve_negate_pass_fail)
  qed
qed

lemma complex_check_formula_witness:
  "fst (xccdf_policy_check_evaluate demo_model (empty_policy None)
     (XCheck (demo_fields XCCDF_OPERATOR_AND False)
       [demo_check ''good'', XCheck (demo_fields XCCDF_OPERATOR_OR True) [demo_check ''bad'', demo_check ''bad'']]) 0) = pass_fail True"
proof -
  let ?check = "XCheck (demo_fields XCCDF_OPERATOR_AND False)
      [demo_check ''good'', XCheck (demo_fields XCCDF_OPERATOR_OR True) [demo_check ''bad'', demo_check ''bad'']]"
  have simple: "set (simple_checks ?check) = {demo_check ''good'', demo_check ''bad''}"
    by (simp add: demo_fields_def demo_check_def)
  have "fst (xccdf_policy_check_evaluate demo_model (empty_policy None) ?check 0) = pass_fail (check_holds (\<lambda>c. c = demo_check ''good'') ?check)"
  proof (rule complex_check_formula)
    show "check_filled ?check" by (simp add: demo_fields_def demo_check_def)
    show "fst (xccdf_policy_check_evaluate demo_model (empty_policy None) c w) = pass_fail (c = demo_check ''good'')"
      if "c \<in> set (simple_checks ?check)" for c w
      using that unfolding simple by (auto simp: demo_check_evaluate) (auto simp: demo_check_def pass_fail_def)
  qed
  then show ?thesis by (simp add: demo_fields_def demo_check_def)
qed

end
