(* ===== verification/Xccdf_Policy_Run_Props.thy ===== *)
theory Xccdf_Policy_Run_Props
  imports Xccdf_Policy_Props
begin

text \<open>
  What the evaluation of a policy leaves behind: with reporters that go on (they return 0) and engines that
  return results (1 to 8), every rule has its results, in the order of the document.
\<close>

section \<open>Results of checks\<close>

definition engines_answer :: "'w xccdf_policy_model \<Rightarrow> bool" where
  "engines_answer model \<longleftrightarrow> (\<forall>engine\<in>set (model_engines model). \<forall>name href bindings w.
     result_code (fst (engine_callback engine name href bindings w)))"

definition reporters_go_on :: "'w xccdf_policy_model \<Rightarrow> bool" where
  "reporters_go_on model \<longleftrightarrow> (\<forall>cb\<in>set (model_callbacks model). \<forall>data w. fst (reporter_callback cb data w) = 0)"

lemma try_engines_code:
  assumes "\<And>engine name href bindings w. engine \<in> set engines \<Longrightarrow> result_code (fst (engine_callback engine name href bindings w))"
  shows "result_code (fst (try_engines engines content href bindings w))"
  using assms
proof (induction engines arbitrary: w)
  case (Cons engine engines)
  have "result_code (fst (engine_callback engine content href bindings w))" by (rule Cons.prems) simp
  moreover have "result_code (fst (try_engines engines content href bindings w'))" for w' using Cons by simp
  ultimately show ?case by (auto split: prod.splits)
qed (simp add: result_code_def)

lemma evaluate_cb_code: "engines_answer model \<Longrightarrow> result_code (fst (xccdf_policy_evaluate_cb model sysname content href bindings w))"
  unfolding xccdf_policy_evaluate_cb_def
  by (rule try_engines_code) (auto simp: engines_answer_def get_engines_by_sysname_def it_pending_def oscap_iterator_new_def)

lemma report_goes_on: "reporters_go_on model \<Longrightarrow> fst (xccdf_policy_report_cb model sysname data w) = 0"
proof -
  assume go: "reporters_go_on model"
  have "set cbs \<subseteq> set (model_callbacks model) \<Longrightarrow> fst (report_all cbs data w) = 0" for cbs w
    using go by (induction cbs arbitrary: w) (auto simp: reporters_go_on_def split: prod.splits, metis fst_conv)
  then show ?thesis by (simp add: xccdf_policy_report_cb_def it_pending_def oscap_iterator_new_def)
qed

text \<open>A check has a result, or 0 when there is nothing to evaluate.\<close>

definition check_code :: "int \<Rightarrow> bool" where
  "check_code r \<longleftrightarrow> r = 0 \<or> result_code r"

lemma check_codeI [intro]: "result_code r \<Longrightarrow> check_code r" and check_code_0 [simp]: "check_code 0"
  by (simp_all add: check_code_def)

lemma check_code_not_cancelled: "check_code r \<Longrightarrow> r \<noteq> -1"
  by (auto simp: check_code_def result_code_def)

lemma negate_code: "check_code r \<Longrightarrow> check_code (resolve_negate r flds)"
  by (auto simp: check_code_def result_code_def resolve_negate_def)

lemma resolve_check_code: "check_code a \<Longrightarrow> check_code b \<Longrightarrow> check_code (resolve_operation a b oper)"
  by (cases oper) (auto simp: check_code_def resolve_code, auto simp: resolve_operation_def)

lemma content_refs_code:
  "engines_answer model \<Longrightarrow> check_code ret \<Longrightarrow> check_code (fst (evaluate_content_refs model check bindings contents ret w))"
proof (induction contents arbitrary: ret w)
  case (Cons content contents)
  obtain ret' w' where cb: "xccdf_policy_evaluate_cb model (chk_system (check_fields check)) (ref_name content) (ref_href content) bindings w
      = (ret', w')" by fastforce
  have "check_code ret'" using evaluate_cb_code [OF Cons.prems(1)] cb by (metis fst_conv check_codeI)
  moreover have "check_code (fst (evaluate_content_refs model check bindings contents ret' w'))"
    by (rule Cons.IH [OF Cons.prems(1) calculation])
  ultimately show ?case using cb by (cases "ret' = XCCDF_RESULT_NOT_CHECKED") simp_all
qed simp

lemma check_evaluate_code:
  "engines_answer model \<Longrightarrow> check_code (fst (xccdf_policy_check_evaluate model policy check w))"
  "engines_answer model \<Longrightarrow> check_code ret \<Longrightarrow> check_code (fst (check_children_evaluate model policy oper children ret w))"
proof (induction model policy check w and model policy oper children ret w
    rule: xccdf_policy_check_evaluate_check_children_evaluate.induct)
  case (1 model policy flds children w)
  show ?case
  proof (cases "xccdf_check_get_complex (XCheck flds children)")
    case True
    obtain ret cs w' where "check_children_evaluate model policy (chk_oper flds) children 0 w = (ret, cs, w')" by (metis prod_cases3)
    moreover have "check_code ret" using 1 True calculation by (metis fst_conv check_code_0)
    ultimately show ?thesis using True by (simp add: negate_code check_code_not_cancelled)
  next
    case False
    then show ?thesis
      using content_refs_code [OF "1.prems", of 0]
      by (auto simp: result_code_def negate_code split: option.splits prod.splits) (metis fst_conv negate_code check_code_0)
  qed
next
  case (3 model policy oper child children ret w)
  obtain ret2 child' w' where c: "xccdf_policy_check_evaluate model policy child w = (ret2, child', w')" by (metis prod_cases3)
  have ret2: "check_code ret2" using 3 c by (metis fst_conv)
  have "check_code (if ret = 0 then ret2 else resolve_operation ret ret2 oper)" using ret2 3 by (simp add: resolve_check_code)
  then have "check_code (fst (check_children_evaluate model policy oper children (if ret = 0 then ret2 else resolve_operation ret ret2 oper) w'))"
    using "3.IH"(2) [OF c [symmetric] refl refl] check_code_not_cancelled [OF ret2] "3.prems"(1) by simp
  then show ?case using c check_code_not_cancelled [OF ret2] by (cases "ret = 0") (auto split: prod.splits)
qed simp

section \<open>Results of rules\<close>

text \<open>An evaluation of a rule goes on, and adds results of the rule at the end of the result, at least one.\<close>

definition of_rule :: "xccdf_item_base \<Rightarrow> xccdf_rule_result \<Rightarrow> bool" where
  "of_rule base rr \<longleftrightarrow> rr_idref rr = item_id base \<and> rr_weight rr = item_weight base"

definition adds_results :: "xccdf_item_base \<Rightarrow> xccdf_result \<Rightarrow> int \<times> xccdf_result \<times> 'x \<Rightarrow> xccdf_rule_result list \<Rightarrow> bool" where
  "adds_results base result out rs \<longleftrightarrow> fst out = 0 \<and> rs \<noteq> [] \<and> list_all (of_rule base) rs
     \<and> fst (snd out) = result\<lparr>result_rule_results := result_rule_results result @ rs\<rparr>"

lemma adds_trans:
  "adds_results base result (0, result1, w1) rs \<Longrightarrow> adds_results base result1 out rs' \<Longrightarrow> adds_results base result out (rs @ rs')"
  by (simp add: adds_results_def)

lemma report_adds:
  assumes "reporters_go_on model" and "res \<noteq> -1"
  shows "adds_results base result (policy_report_rule_result model result base rule check res message w)
    [xccdf_rule_result_new_from_rule base rule check res message]"
  using assms(2) report_goes_on [OF assms(1), of XCCDF_POLICY_OUTCB_END]
  by (simp add: policy_report_rule_result_def adds_results_def of_rule_def xccdf_rule_result_new_from_rule_def Let_def split: prod.splits)
    (metis fst_conv)

lemma names_add:
  assumes "reporters_go_on model" and "engines_answer model"
  shows "names \<noteq> [] \<Longrightarrow> \<exists>rs. adds_results base result (evaluate_names model policy base rule check content names result w) rs"
proof (induction names arbitrary: result w)
  case (Cons name names)
  obtain r evaluated w1 where e: "xccdf_policy_check_evaluate model policy (xccdf_check_inject_content_ref check content (Some name)) w = (r, evaluated, w1)"
    by (metis prod_cases3)
  have r: "r \<noteq> -1" using check_evaluate_code(1) [OF assms(2)] check_code_not_cancelled e by (metis fst_conv)
  obtain r1 result1 w2 where rep: "policy_report_rule_result model result base rule (Some evaluated) r None w1 = (r1, result1, w2)"
    by (metis prod_cases3)
  obtain rs where added: "adds_results base result (r1, result1, w2) rs" using report_adds [OF assms(1) r] rep by metis
  then have "r1 = 0" by (simp add: adds_results_def)
  obtain r2 w3 where start: "xccdf_policy_report_cb model XCCDF_POLICY_OUTCB_START (Report_rule (XCCDF_RULE base rule)) w2 = (r2, w3)"
    by fastforce
  have "r2 = 0" using report_goes_on [OF assms(1)] start by (metis fst_conv)
  show ?case
  proof (cases "names = []")
    case True
    then show ?thesis using e r rep added \<open>r1 = 0\<close> by auto
  next
    case False
    obtain rs' where "adds_results base result1 (evaluate_names model policy base rule check content names result1 w3) rs'"
      using Cons.IH [OF False] by blast
    then have "adds_results base result (evaluate_names model policy base rule check content names result1 w3) (rs @ rs')"
      by (rule adds_trans [OF added [unfolded \<open>r1 = 0\<close>]])
    then show ?thesis using e r rep start \<open>r1 = 0\<close> \<open>r2 = 0\<close> False by auto
  qed
qed simp

lemma report_check_adds:
  assumes "reporters_go_on model" and "check_code ret"
  shows "\<exists>rs. adds_results base result (report_check model base rule check ret message result w) rs"
  unfolding report_check_def using report_adds [OF assms(1) check_code_not_cancelled [OF negate_code [OF assms(2)]]] by blast

lemma contents_add:
  assumes "reporters_go_on model" and "engines_answer model"
  shows "check_code ret \<Longrightarrow>
    \<exists>rs. adds_results base result (evaluate_rule_contents model policy base rule check bindings contents ret message result w) rs"
proof (induction contents arbitrary: ret message w)
  case Nil
  then show ?case by (simp add: report_check_adds [OF assms(1)])
next
  case (Cons content contents)
  define multi where "multi \<longleftrightarrow> ref_name content = None \<and> chk_multicheck (check_fields check)"
  obtain names w1 where names: "(if multi then get_namesfor_href model (chk_system (check_fields check)) (ref_href content) w else (None, w)) = (names, w1)"
    by fastforce
  show ?case
  proof (cases names)
    case None
    define message1 where "message1 = (if multi then Some multi_check_message else None)"
    obtain ret1 w2 where cb: "xccdf_policy_evaluate_cb model (chk_system (check_fields check)) (ref_name content) (ref_href content) bindings w1 = (ret1, w2)"
      by fastforce
    have code: "check_code ret1" using evaluate_cb_code [OF assms(2)] cb by (metis fst_conv check_codeI)
    have step: "evaluate_rule_contents model policy base rule check bindings (content # contents) ret message result w =
        (if ret1 \<noteq> XCCDF_RESULT_NOT_CHECKED then
           report_check model base rule (xccdf_check_inject_content_ref check content None) ret1 message1 result w2
         else evaluate_rule_contents model policy base rule check bindings contents ret1 message1 result w2)"
      using None names cb unfolding multi_def message1_def by (simp only: evaluate_rule_contents.simps Let_def) simp
    show ?thesis unfolding step using report_check_adds [OF assms(1) code] Cons.IH [OF code]
      by (cases "ret1 = XCCDF_RESULT_NOT_CHECKED") (simp_all only: if_False if_True not_True_eq_False not_False_eq_True simp_thms)
  next
    case (Some ns)
    show ?thesis
    proof (cases ns)
      case Nil
      then show ?thesis using Some names unfolding multi_def
        by (simp only: evaluate_rule_contents.simps Let_def) (auto intro!: exI report_adds [OF assms(1)])
    next
      case (Cons n rest)
      then show ?thesis using Some names names_add [OF assms, of "n # rest"] unfolding multi_def
        by (simp only: evaluate_rule_contents.simps Let_def) simp
    qed
  qed
qed

lemma applicable_rule_adds:
  assumes "reporters_go_on model" and "engines_answer model"
  shows "\<exists>rs. adds_results base result (evaluate_applicable_rule model policy base rule result w) rs"
proof (cases "rule_get_applicable_check model policy base rule")
  case None
  then show ?thesis by (auto simp: evaluate_applicable_rule_def intro!: exI report_adds [OF assms(1)])
next
  case (Some check)
  obtain res evaluated w1 where e: "xccdf_policy_check_evaluate model policy check w = (res, evaluated, w1)" by (metis prod_cases3)
  have "res \<noteq> -1" using check_evaluate_code(1) [OF assms(2)] check_code_not_cancelled e by (metis fst_conv)
  note complex = report_adds [OF assms(1) this]
  show ?thesis
  proof (cases "xccdf_check_get_complex check")
    case True
    then show ?thesis using e Some complex by (auto simp: evaluate_applicable_rule_def intro!: exI)
  next
    case False
    have "check_code XCCDF_RESULT_NOT_CHECKED" by (simp add: check_code_def result_code_def)
    note simple = contents_add [OF assms this]
    show ?thesis
    proof (cases "xccdf_policy_check_get_value_bindings (model_benchmark model) policy (chk_exports (check_fields check))")
      case None
      then show ?thesis using False Some by (auto simp: evaluate_applicable_rule_def intro!: exI report_adds [OF assms(1)])
    next
      case bindings: (Some bindings)
      then show ?thesis using False Some simple by (simp add: evaluate_applicable_rule_def)
    qed
  qed
qed

section \<open>The rules of a document\<close>

fun rule_nodes :: "xccdf_node \<Rightarrow> xccdf_item \<Rightarrow> xccdf_node list"
  and content_rule_nodes :: "xccdf_node \<Rightarrow> xccdf_item list \<Rightarrow> xccdf_node list"
where
  "rule_nodes ancestors (XCCDF_RULE base rule) = [XCCDF_RULE base rule # ancestors]"
| "rule_nodes ancestors (XCCDF_GROUP base vs content) = content_rule_nodes (XCCDF_GROUP base vs content # ancestors) content"
| "rule_nodes ancestors (XCCDF_BENCHMARK base vs content) = []"
| "rule_nodes ancestors (XCCDF_VALUE base v) = []"
| "content_rule_nodes ancestors [] = []"
| "content_rule_nodes ancestors (item # items) = rule_nodes ancestors item @ content_rule_nodes ancestors items"

text \<open>The content of a group or of the benchmark is made of rules and groups.\<close>

fun content_ok :: "xccdf_item \<Rightarrow> bool" where
  "content_ok (XCCDF_RULE base rule) = True"
| "content_ok (XCCDF_GROUP base vs content) = list_all content_ok content"
| "content_ok item = False"

fun document_values :: "xccdf_item \<Rightarrow> (xccdf_item_base \<times> xccdf_value_item) list" where
  "document_values (XCCDF_GROUP base vs content) = vs @ concat (map document_values content)"
| "document_values (XCCDF_BENCHMARK base vs content) = vs @ concat (map document_values content)"
| "document_values item = []"

text \<open>The results of a rule: of the rule, at least one, and only \<open>notselected\<close> when it is not selected.\<close>

definition rule_results_ok :: "xccdf_policy \<Rightarrow> xccdf_node \<Rightarrow> xccdf_rule_result list \<Rightarrow> bool" where
  "rule_results_ok policy node rs \<longleftrightarrow> rs \<noteq> [] \<and> list_all (of_rule (item_base (node_item node))) rs
     \<and> (xccdf_policy_is_item_selected policy (node_id node) = Some False \<longrightarrow> map rr_result rs = [XCCDF_RESULT_NOT_SELECTED])"

definition goes_on :: "xccdf_result \<Rightarrow> (int \<times> xccdf_result \<times> 'w policy_env) option \<Rightarrow> xccdf_rule_result list \<Rightarrow> bool" where
  "goes_on result out rs \<longleftrightarrow>
     (\<exists>env'. out = Some (0, result\<lparr>result_rule_results := result_rule_results result @ rs\<rparr>, env'))"

lemma in_world_goes_on: "adds_results base result out rs \<Longrightarrow> goes_on result (Some (in_world out env)) rs"
  by (auto simp: adds_results_def goes_on_def in_world_def split: prod.splits)

lemma rule_evaluate_goes_on:
  assumes "reporters_go_on model" and "engines_answer model"
    and "xccdf_policy_is_item_selected policy (item_id base) \<noteq> None"
    and "\<And>env. xccdf_policy_model_item_is_applicable re oval model (XCCDF_RULE base rule # ancestors) env \<noteq> None"
  shows "\<exists>rs. goes_on result (xccdf_policy_rule_evaluate re oval model policy ancestors base rule result env) rs
    \<and> rule_results_ok policy (XCCDF_RULE base rule # ancestors) rs"
proof -
  let ?node = "XCCDF_RULE base rule # ancestors"
  obtain selected where selected: "xccdf_policy_is_item_selected policy (item_id base) = Some selected" using assms(3) by auto
  obtain r w where start: "xccdf_policy_report_cb model XCCDF_POLICY_OUTCB_START (Report_rule (XCCDF_RULE base rule)) (env_world env) = (r, w)"
    by fastforce
  have "r = 0" using report_goes_on [OF assms(1)] start by (metis fst_conv)
  have ok: "rule_results_ok policy ?node rs" if "adds_results base result out rs"
      "selected \<or> map rr_result rs = [XCCDF_RESULT_NOT_SELECTED]" for rs and out :: "int \<times> xccdf_result \<times> 'a"
    using that selected by (auto simp: rule_results_ok_def adds_results_def node_item_def node_id_def)
  let ?env = "env\<lparr>env_world := w\<rparr>"
  have report: "adds_results base result (policy_report_rule_result model result base rule None res None w')
      [xccdf_rule_result_new_from_rule base rule None res None]" if "res \<noteq> -1" for res w'
    by (rule report_adds [OF assms(1) that])
  show ?thesis
  proof (cases selected)
    case False
    have "rule_results_ok policy ?node [xccdf_rule_result_new_from_rule base rule None XCCDF_RESULT_NOT_SELECTED None]"
      by (rule ok [OF report]) (simp_all add: xccdf_rule_result_new_from_rule_def)
    moreover have "goes_on result (Some (in_world (policy_report_rule_result model result base rule None XCCDF_RESULT_NOT_SELECTED None w) ?env))
        [xccdf_rule_result_new_from_rule base rule None XCCDF_RESULT_NOT_SELECTED None]"
      by (rule in_world_goes_on [OF report]) simp
    ultimately show ?thesis using False selected start \<open>r = 0\<close> by (auto simp: xccdf_policy_rule_evaluate_def)
  next
    case True
    obtain applicable env2 where app: "xccdf_policy_model_item_is_applicable re oval model ?node ?env = Some (applicable, env2)"
      using assms(4) [of ?env] by (metis option.exhaust surj_pair)
    define out where "out = (if applicable then evaluate_applicable_rule model policy base rule result (env_world env2)
        else policy_report_rule_result model result base rule None XCCDF_RESULT_NOT_APPLICABLE None (env_world env2))"
    have "\<exists>rs. adds_results base result out rs"
      unfolding out_def using applicable_rule_adds [OF assms(1,2)] report [of XCCDF_RESULT_NOT_APPLICABLE]
      by (cases applicable) (simp, simp, blast)
    then obtain rs where out: "adds_results base result out rs" ..
    have "xccdf_policy_rule_evaluate re oval model policy ancestors base rule result env = Some (in_world out env2)"
      using True app selected start \<open>r = 0\<close> by (cases applicable) (simp_all add: xccdf_policy_rule_evaluate_def out_def)
    then show ?thesis using in_world_goes_on [OF out] ok [OF out] True by auto
  qed
qed

lemma items_go_on:
  assumes "reporters_go_on model" and "engines_answer model"
  shows "content_ok item \<Longrightarrow>
     (\<And>node. node \<in> set (rule_nodes ancestors item) \<Longrightarrow> xccdf_policy_is_item_selected policy (node_id node) \<noteq> None) \<Longrightarrow>
     (\<And>node env. node \<in> set (rule_nodes ancestors item) \<Longrightarrow> xccdf_policy_model_item_is_applicable re oval model node env \<noteq> None) \<Longrightarrow>
     \<exists>rss. goes_on result (xccdf_policy_item_evaluate re oval model policy ancestors item result env) (concat rss)
       \<and> list_all2 (rule_results_ok policy) (rule_nodes ancestors item) rss"
    and "list_all content_ok items \<Longrightarrow>
     (\<And>node. node \<in> set (content_rule_nodes ancestors items) \<Longrightarrow> xccdf_policy_is_item_selected policy (node_id node) \<noteq> None) \<Longrightarrow>
     (\<And>node env. node \<in> set (content_rule_nodes ancestors items) \<Longrightarrow> xccdf_policy_model_item_is_applicable re oval model node env \<noteq> None) \<Longrightarrow>
     \<exists>rss. goes_on result (content_evaluate re oval model policy ancestors items result env) (concat rss)
       \<and> list_all2 (rule_results_ok policy) (content_rule_nodes ancestors items) rss"
proof (induction ancestors item and ancestors items arbitrary: result env and result env rule: rule_nodes_content_rule_nodes.induct)
  case (1 ancestors base rule)
  then obtain rs where "goes_on result (xccdf_policy_rule_evaluate re oval model policy ancestors base rule result env) rs"
      "rule_results_ok policy (XCCDF_RULE base rule # ancestors) rs"
    using rule_evaluate_goes_on [OF assms, of policy base re oval rule ancestors result env] by (auto simp: node_id_def)
  then show ?case by (intro exI [of _ "[rs]"]) simp
next
  case (2 ancestors base vs content)
  then show ?case by simp
next
  case (6 ancestors item items)
  obtain rss env' where item: "xccdf_policy_item_evaluate re oval model policy ancestors item result env
        = Some (0, result\<lparr>result_rule_results := result_rule_results result @ concat rss\<rparr>, env')"
      "list_all2 (rule_results_ok policy) (rule_nodes ancestors item) rss"
    using "6.IH"(1) [of result env] "6.prems" by (auto simp: goes_on_def)
  let ?result = "result\<lparr>result_rule_results := result_rule_results result @ concat rss\<rparr>"
  obtain rss' env'' where items: "content_evaluate re oval model policy ancestors items ?result env'
        = Some (0, ?result\<lparr>result_rule_results := result_rule_results ?result @ concat rss'\<rparr>, env'')"
      "list_all2 (rule_results_ok policy) (content_rule_nodes ancestors items) rss'"
    using "6.IH"(2) [of ?result env'] "6.prems" by (auto simp: goes_on_def)
  then show ?case using item by (intro exI [of _ "rss @ rss'"]) (simp add: goes_on_def list_all2_appendI)
qed (simp_all add: goes_on_def)

section \<open>The values of a result\<close>

lemma final_values:
  assumes "\<And>v. v \<in> set vs \<Longrightarrow> xccdf_policy_get_value_of_item policy (fst v) (snd v) \<noteq> None"
  shows "\<exists>svs. add_final_values policy vs result = Some (result\<lparr>result_setvalues := result_setvalues result @ svs\<rparr>)
    \<and> map fst svs = map (\<lambda>v. item_id (fst v)) vs"
  using assms
proof (induction vs arbitrary: result)
  case (Cons v vs)
  obtain content where v: "xccdf_policy_get_value_of_item policy (fst v) (snd v) = Some content" using Cons.prems [of v] by auto
  let ?result = "result\<lparr>result_setvalues := result_setvalues result @ [(item_id (fst v), content)]\<rparr>"
  obtain svs where "add_final_values policy vs ?result = Some (?result\<lparr>result_setvalues := result_setvalues ?result @ svs\<rparr>)"
      "map fst svs = map (\<lambda>v. item_id (fst v)) vs"
    using Cons.IH [of ?result] Cons.prems by (metis list.set_intros(2))
  then show ?case by (intro exI [of _ "(item_id (fst v), content) # svs"]) (simp add: xccdf_policy_add_final_setvalue_def v)
qed simp

lemma final_setvalues:
  "(\<And>v. v \<in> set (document_values item) \<Longrightarrow> xccdf_policy_get_value_of_item policy (fst v) (snd v) \<noteq> None) \<Longrightarrow>
   \<exists>svs. xccdf_policy_add_final_setvalues policy item result = Some (result\<lparr>result_setvalues := result_setvalues result @ svs\<rparr>)
     \<and> map fst svs = map (\<lambda>v. item_id (fst v)) (document_values item)"
  "(\<And>v. v \<in> set (concat (map document_values items)) \<Longrightarrow> xccdf_policy_get_value_of_item policy (fst v) (snd v) \<noteq> None) \<Longrightarrow>
   \<exists>svs. add_content_setvalues policy items result = Some (result\<lparr>result_setvalues := result_setvalues result @ svs\<rparr>)
     \<and> map fst svs = map (\<lambda>v. item_id (fst v)) (concat (map document_values items))"
proof (induction policy item result and policy items result rule: xccdf_policy_add_final_setvalues_add_content_setvalues.induct)
  case (1 policy base vs content result)
  then obtain svs where vs: "add_final_values policy vs result = Some (result\<lparr>result_setvalues := result_setvalues result @ svs\<rparr>)"
      "map fst svs = map (\<lambda>v. item_id (fst v)) vs"
    using final_values [of vs policy result] by auto
  with 1 show ?case by (fastforce intro: exI [of _ "svs @ _"])
next
  case (2 policy base vs content result)
  then obtain svs where vs: "add_final_values policy vs result = Some (result\<lparr>result_setvalues := result_setvalues result @ svs\<rparr>)"
      "map fst svs = map (\<lambda>v. item_id (fst v)) vs"
    using final_values [of vs policy result] by auto
  with 2 show ?case by (fastforce intro: exI [of _ "svs @ _"])
next
  case (6 policy child children result)
  then obtain svs where "xccdf_policy_add_final_setvalues policy child result = Some (result\<lparr>result_setvalues := result_setvalues result @ svs\<rparr>)"
      "map fst svs = map (\<lambda>v. item_id (fst v)) (document_values child)"
    by auto
  with 6 show ?case by (fastforce intro: exI [of _ "svs @ _"])
qed simp_all

lemma new_result_empty [simp]:
  "result_rule_results (new_result policy version) = []" "result_setvalues (new_result policy version) = []"
  by (simp_all add: new_result_def Let_def)

lemma add_platforms_keeps [simp]:
  "result_rule_results (add_platforms items result) = result_rule_results result"
  "result_setvalues (add_platforms items result) = result_setvalues result"
  by (induction items result rule: add_platforms.induct) simp_all

section \<open>An example\<close>

text \<open>A group of a rule that is selected and one that is not, with the policy that says so.\<close>

definition demo_rule :: "string \<Rightarrow> xccdf_item" where
  "demo_rule i = XCCDF_RULE (demo_base i) \<lparr>rule_role = 0, rule_severity = 0, rule_checks = [demo_check ''good'']\<rparr>"

definition demo_rules :: xccdf_benchmark where
  "demo_rules = demo_benchmark [XCCDF_GROUP (demo_base ''g'') [] [demo_rule ''r1'', demo_rule ''r2'']]"

definition demo_policy :: xccdf_policy where
  "demo_policy = (empty_policy None)\<lparr>policy_selected_final :=
     snd (oscap_htable_add (snd (oscap_htable_add oscap_htable_new ''r1'' True)) ''r2'' False)\<rparr>"

lemma demo_selected:
  "xccdf_policy_is_item_selected demo_policy ''r1'' = Some True" "xccdf_policy_is_item_selected demo_policy ''r2'' = Some False"
  by (simp_all add: xccdf_policy_is_item_selected_def demo_policy_def empty_policy_def htable_dictionary.get_add
      htable_dictionary.valid_add htable_dictionary.empty_valid htable_dictionary.get_empty)

section \<open>Properties\<close>

text \<open>
  C2. Suppose that no reporter stops the evaluation (every report returns 0), that every engine returns a
  result (1 to 8; none cancels with -1; there may be no engine at all), that the content is made of rules and
  groups, that every rule has a final selection, that the applicability of every rule is decided (evaluating
  its platforms does not fail) and that every value resolves: it has a set-value in the profile, or the selector
  of its refine-value is that of one of its instances. Then the evaluation of a policy ends with a result,
  which joins the results of the policy: it holds results for all rules of the benchmark in document order,
  each rule has at least one and a rule that is not selected has just one, \<open>notselected\<close>; and it records every
  value of the document once.
\<close>

theorem policy_evaluate_complete:
  assumes "reporters_go_on model" and "engines_answer model"
    and "bench_item (model_benchmark model) = bench" and "list_all content_ok (item_content bench)"
    and "\<And>node. node \<in> set (content_rule_nodes [bench] (item_content bench)) \<Longrightarrow>
      xccdf_policy_is_item_selected policy (node_id node) \<noteq> None"
    and "\<And>node e. node \<in> set (content_rule_nodes [bench] (item_content bench)) \<Longrightarrow>
      xccdf_policy_model_item_is_applicable re oval model node e \<noteq> None"
    and "\<And>v. v \<in> set (document_values bench) \<Longrightarrow> xccdf_policy_get_value_of_item policy (fst v) (snd v) \<noteq> None"
  shows "\<exists>result env' rss.
    xccdf_policy_evaluate re oval model policy env
      = Some (Some result, policy\<lparr>policy_results := policy_results policy @ [result]\<rparr>, env')
    \<and> result_rule_results result = concat rss
    \<and> list_all2 (rule_results_ok policy) (content_rule_nodes [bench] (item_content bench)) rss
    \<and> map fst (result_setvalues result) = map (\<lambda>v. item_id (fst v)) (document_values bench)"
proof -
  let ?new = "new_result policy (bench_version (model_benchmark model))"
  obtain rss env' where rules: "content_evaluate re oval model policy [bench] (item_content bench) ?new env
        = Some (0, ?new\<lparr>result_rule_results := concat rss\<rparr>, env')"
      "list_all2 (rule_results_ok policy) (content_rule_nodes [bench] (item_content bench)) rss"
    using items_go_on(2) [where ancestors = "[bench]" and result = ?new and env = env, OF assms(1,2,4-6)] by (auto simp: goes_on_def)
  obtain svs where svs: "xccdf_policy_add_final_setvalues policy bench (?new\<lparr>result_rule_results := concat rss\<rparr>)
        = Some (?new\<lparr>result_rule_results := concat rss, result_setvalues := svs\<rparr>)"
      "map fst svs = map (\<lambda>v. item_id (fst v)) (document_values bench)"
    using final_setvalues(1) [where result = "?new\<lparr>result_rule_results := concat rss\<rparr>", OF assms(7)] by auto
  show ?thesis
    using rules svs assms(3) by (auto simp: xccdf_policy_evaluate_def Let_def)
qed

lemma policy_evaluate_complete_witness:
  "\<exists>result env' rss.
    xccdf_policy_evaluate (\<lambda>p t. False) (\<lambda>href i w. (False, w)) (demo_model\<lparr>model_benchmark := demo_rules\<rparr>) demo_policy
        \<lparr>env_world = 0, env_cpe = \<lparr>cpe_dicts = [], cpe_lang_models = [], cpe_applicable_platforms = oscap_htable_new\<rparr>\<rparr>
      = Some (Some result, demo_policy\<lparr>policy_results := policy_results demo_policy @ [result]\<rparr>, env')
    \<and> result_rule_results result = concat rss
    \<and> list_all2 (rule_results_ok demo_policy) (content_rule_nodes [bench_item demo_rules] (item_content (bench_item demo_rules))) rss
    \<and> map fst (result_setvalues result) = map (\<lambda>v. item_id (fst v)) (document_values (bench_item demo_rules))"
proof (rule policy_evaluate_complete)
  let ?model = "demo_model\<lparr>model_benchmark := demo_rules\<rparr>"
  show "reporters_go_on ?model" by (simp add: reporters_go_on_def demo_model_def)
  show "engines_answer ?model" by (simp add: engines_answer_def demo_model_def demo_engine_def)
  show "bench_item (model_benchmark ?model) = bench_item demo_rules" by simp
  show "list_all content_ok (item_content (bench_item demo_rules))"
    by (simp add: demo_rules_def demo_benchmark_def demo_rule_def)
  have base: "demo_base i = demo_base j \<longleftrightarrow> i = j" for i j by (auto simp: demo_base_def)
  fix node
  assume "node \<in> set (content_rule_nodes [bench_item demo_rules] (item_content (bench_item demo_rules)))"
  then have "node = demo_rule ''r1'' # XCCDF_GROUP (demo_base ''g'') [] [demo_rule ''r1'', demo_rule ''r2''] # [bench_item demo_rules]
      \<or> node = demo_rule ''r2'' # XCCDF_GROUP (demo_base ''g'') [] [demo_rule ''r1'', demo_rule ''r2''] # [bench_item demo_rules]"
    by (simp add: demo_rules_def demo_benchmark_def demo_rule_def)
  then show "xccdf_policy_is_item_selected demo_policy (node_id node) \<noteq> None"
    and "xccdf_policy_model_item_is_applicable (\<lambda>p t. False) (\<lambda>href i w. (False, w)) ?model node e \<noteq> None" for e
    by (elim disjE; simp add: node_id_def demo_rule_def demo_base_def demo_selected demo_rules_def demo_benchmark_def
        xccdf_policy_model_platforms_are_applicable_def)+
next
  fix v
  assume "v \<in> set (document_values (bench_item demo_rules))"
  then show "xccdf_policy_get_value_of_item demo_policy (fst v) (snd v) \<noteq> None"
    by (simp add: demo_rules_def demo_benchmark_def demo_rule_def)
qed

end
