(* ===== verification/Xccdf_Select_Props.thy ===== *)
theory Xccdf_Select_Props
  imports Xccdf_Policy "HOL-Library.Sublist"
begin

text \<open>
  The selection of items: a policy knows for every item of the benchmark whether the item and all groups
  around it are selected, each by the latest selector that concerns it or else by itself. New policies
  establish this and further selectors keep it.
\<close>

section \<open>The nodes of a tree\<close>

fun item_nodes :: "xccdf_node \<Rightarrow> xccdf_item \<Rightarrow> xccdf_node list"
  and content_nodes :: "xccdf_node \<Rightarrow> xccdf_item list \<Rightarrow> xccdf_node list"
where
  "item_nodes ancestors (XCCDF_GROUP base vs content) =
     (XCCDF_GROUP base vs content # ancestors) # content_nodes (XCCDF_GROUP base vs content # ancestors) content"
| "item_nodes ancestors (XCCDF_RULE base rule) = [XCCDF_RULE base rule # ancestors]"
| "item_nodes ancestors (XCCDF_BENCHMARK base vs content) = [XCCDF_BENCHMARK base vs content # ancestors]"
| "item_nodes ancestors (XCCDF_VALUE base v) = [XCCDF_VALUE base v # ancestors]"
| "content_nodes ancestors [] = []"
| "content_nodes ancestors (item # items) = item_nodes ancestors item @ content_nodes ancestors items"

text \<open>The nodes of the subtree at a node.\<close>

definition node_nodes :: "xccdf_node \<Rightarrow> xccdf_node list" where
  "node_nodes node = item_nodes (tl node) (node_item node)"

fun is_group :: "xccdf_item \<Rightarrow> bool" where
  "is_group (XCCDF_GROUP base vs content) = True"
| "is_group item = False"

lemma nodes_below:
  "n \<in> set (item_nodes ancestors item) \<Longrightarrow> suffix (item # ancestors) n"
  "n \<in> set (content_nodes ancestors items) \<Longrightarrow> \<exists>item\<in>set items. suffix (item # ancestors) n"
proof (induction ancestors item and ancestors items rule: item_nodes_content_nodes.induct)
  case (1 ancestors base vs content)
  then show ?case by (fastforce dest: suffix_ConsD)
qed auto

lemma node_not_ancestors: "n \<in> set (content_nodes ancestors items) \<Longrightarrow> strict_suffix ancestors n"
  using nodes_below(2) [of n ancestors items] by (auto simp: strict_suffix_def suffix_def)

lemma nodes_split:
  "m \<in> set (item_nodes ancestors item) \<Longrightarrow> \<exists>xs ys. item_nodes ancestors item = xs @ node_nodes m @ ys"
  "m \<in> set (content_nodes ancestors items) \<Longrightarrow> \<exists>xs ys. content_nodes ancestors items = xs @ node_nodes m @ ys"
proof (induction ancestors item and ancestors items rule: item_nodes_content_nodes.induct)
  case (1 ancestors base vs content)
  show ?case
  proof (cases "m = XCCDF_GROUP base vs content # ancestors")
    case True
    then show ?thesis by (intro exI [of _ "[]"]) (simp add: node_nodes_def node_item_def)
  next
    case False
    then show ?thesis using 1 by simp (metis append_Cons)
  qed
next
  case (6 ancestors item items)
  then show ?case by simp (metis append.assoc)
qed (auto simp: node_nodes_def node_item_def)

text \<open>The parent of a node is where the tree starts, or the node of a group.\<close>

lemma parent_node:
  "m \<in> set (item_nodes ancestors item) \<Longrightarrow>
    tl m = ancestors \<or> tl m \<in> set (item_nodes ancestors item) \<and> is_group (hd (tl m))"
  "m \<in> set (content_nodes ancestors items) \<Longrightarrow>
    tl m = ancestors \<or> tl m \<in> set (content_nodes ancestors items) \<and> is_group (hd (tl m))"
proof (induction ancestors item and ancestors items rule: item_nodes_content_nodes.induct)
  case (1 ancestors base vs content)
  then show ?case by (cases "m = XCCDF_GROUP base vs content # ancestors") auto
qed auto

text \<open>What is above a node, up to the start of the tree, are nodes, and the node is in their subtrees.\<close>

lemma suffix_node:
  "n \<in> set (item_nodes ancestors item) \<Longrightarrow> suffix s n \<Longrightarrow> length ancestors < length s \<Longrightarrow>
    s \<in> set (item_nodes ancestors item) \<and> n \<in> set (node_nodes s)"
  "n \<in> set (content_nodes ancestors items) \<Longrightarrow> suffix s n \<Longrightarrow> length ancestors < length s \<Longrightarrow>
    s \<in> set (content_nodes ancestors items) \<and> n \<in> set (node_nodes s)"
proof (induction ancestors item and ancestors items rule: item_nodes_content_nodes.induct)
  case (1 ancestors base vs content)
  let ?g = "XCCDF_GROUP base vs content # ancestors"
  have below: "suffix ?g n" using nodes_below(1) [OF "1.prems"(1)] .
  show ?case
  proof (cases "length s = length ?g")
    case True
    then have "s = ?g" using below "1.prems"(2) by (metis suffix_length_suffix suffix_order.antisym order_refl)
    then show ?thesis using "1.prems"(1) by (simp add: node_nodes_def node_item_def)
  next
    case False
    then have "length ?g < length s" using "1.prems"(3) by simp
    moreover have "n \<noteq> ?g" using calculation "1.prems"(2) suffix_length_le by fastforce
    ultimately show ?thesis using "1.IH" "1.prems" by simp
  qed
next
  case (6 ancestors item items)
  then show ?case by auto
next
  case (2 ancestors base rule)
  then have "s = n" by (auto simp: suffix_def Cons_eq_append_conv)
  then show ?case using 2 by (simp add: node_nodes_def node_item_def)
next
  case (3 ancestors base vs content)
  then have "s = n" by (auto simp: suffix_def Cons_eq_append_conv)
  then show ?case using 3 by (simp add: node_nodes_def node_item_def)
next
  case (4 ancestors base v)
  then have "s = n" by (auto simp: suffix_def Cons_eq_append_conv)
  then show ?case using 4 by (simp add: node_nodes_def node_item_def)
qed auto

section \<open>Resolving a subtree\<close>

text \<open>Whether an item is selected, its ancestors aside.\<close>

definition own_selected :: "xccdf_policy \<Rightarrow> xccdf_item \<Rightarrow> bool" where
  "own_selected policy item =
     (case xccdf_policy_get_select_by_id policy (xccdf_item_get_id item) of
        Some sel \<Rightarrow> select_selected sel
      | None \<Rightarrow> item_selected (item_base item))"

text \<open>The items of a node above which \<open>k\<close> ancestors are left out.\<close>

definition below :: "nat \<Rightarrow> xccdf_node \<Rightarrow> xccdf_node" where
  "below k n = take (length n - k) n"

lemma below_append [simp]: "below (length anc) (xs @ anc) = xs"
  by (simp add: below_def)

definition resolves :: "xccdf_policy \<Rightarrow> xccdf_policy \<Rightarrow> xccdf_node list \<Rightarrow> nat \<Rightarrow> bool \<Rightarrow> bool" where
  "resolves policy policy' nodes k selected \<longleftrightarrow>
     htable_ok (policy_selected_final policy') \<and> (\<exists>d. policy' = policy\<lparr>policy_selected_final := d\<rparr>)
     \<and> (\<forall>n\<in>set nodes. xccdf_policy_is_item_selected policy' (node_id n)
          = Some (selected \<and> list_all (own_selected policy) (below k n)))
     \<and> (\<forall>i. i \<notin> node_id ` set nodes \<longrightarrow> xccdf_policy_is_item_selected policy' i = xccdf_policy_is_item_selected policy i)"

lemma final_put:
  assumes "htable_ok (policy_selected_final policy)"
  shows "htable_ok (policy_selected_final (add_final policy base r))"
    and "xccdf_policy_is_item_selected policy (item_id base) = None \<Longrightarrow>
      xccdf_policy_is_item_selected (add_final policy base r) = (xccdf_policy_is_item_selected policy)(item_id base := Some r)"
    and "htable_ok (policy_selected_final (detach_final policy base))"
    and "xccdf_policy_is_item_selected (detach_final policy base) = (xccdf_policy_is_item_selected policy)(item_id base := None)"
  using assms by (auto simp: add_final_def detach_final_def xccdf_policy_is_item_selected_def htable_dictionary.get_add
      htable_dictionary.valid_add htable_dictionary.get_detach htable_dictionary.valid_detach)

lemma resolved_selection_own [simp]: "resolved_selection policy (item_base item) selected \<longleftrightarrow> selected \<and> own_selected policy item"
  by (simp add: resolved_selection_def own_selected_def)

lemma own_selected_final [simp]:
  "own_selected (policy\<lparr>policy_selected_final := d\<rparr>) = own_selected policy"
  "own_selected (detach_final policy base) = own_selected policy" "own_selected (add_final policy base r) = own_selected policy"
  by (simp_all add: fun_eq_iff own_selected_def xccdf_policy_get_select_by_id_def detach_final_def add_final_def)

lemma detach_add_final:
  "\<exists>d. detach_final policy base = policy\<lparr>policy_selected_final := d\<rparr>" "\<exists>d. add_final policy base r = policy\<lparr>policy_selected_final := d\<rparr>"
  by (auto simp: detach_final_def add_final_def)

lemma node_id_Cons [simp]: "node_id (item # anc) = xccdf_item_get_id item"
  by (simp add: node_id_def)

lemma resolve_leaf:
  assumes "htable_ok (policy_selected_final policy)"
  shows "resolves policy (add_final (detach_final policy (item_base item)) (item_base item)
      (resolved_selection (detach_final policy (item_base item)) (item_base item) selected)) [item # anc] (length anc) selected"
proof -
  obtain d where "detach_final policy (item_base item) = policy\<lparr>policy_selected_final := d\<rparr>" using detach_add_final(1) by blast
  moreover have "below (length anc) (item # anc) = [item]" using below_append [of anc "[item]"] by simp
  ultimately show ?thesis
    using final_put(3,4) [OF assms, of "item_base item"] final_put(1,2) [of "detach_final policy (item_base item)" "item_base item"]
    by (auto simp: resolves_def node_id_def add_final_def)
qed

lemma resolves_trans:
  assumes "resolves policy policy1 nodes1 k selected" and "resolves policy1 policy2 nodes2 k selected"
    and "node_id ` set nodes1 \<inter> node_id ` set nodes2 = {}"
  shows "resolves policy policy2 (nodes1 @ nodes2) k selected"
proof -
  have "node_id n \<notin> node_id ` set nodes2" if "n \<in> set nodes1" for n using that assms(3) by blast
  then show ?thesis using assms(1,2) unfolding resolves_def by (auto simp: image_Un ball_Un)
qed

lemma below_child:
  assumes "n \<in> set (content_nodes (item # anc) items)"
  shows "list_all P (below (length anc) n) \<longleftrightarrow> P item \<and> list_all P (below (length (item # anc)) n)"
proof -
  obtain xs where "n = xs @ item # anc" using node_not_ancestors [OF assms] by (auto simp: strict_suffix_def suffix_def)
  then show ?thesis using below_append [of anc "xs @ [item]"] below_append [of "item # anc" xs] by auto
qed

lemma resolve_subtree:
  "htable_ok (policy_selected_final policy) \<Longrightarrow> distinct (map node_id (item_nodes anc item)) \<Longrightarrow>
   resolves policy (xccdf_policy_resolve_item policy item selected) (item_nodes anc item) (length anc) selected"
  "htable_ok (policy_selected_final policy) \<Longrightarrow> distinct (map node_id (content_nodes anc items)) \<Longrightarrow>
   resolves policy (resolve_content policy items selected) (content_nodes anc items) (length anc) selected"
proof (induction anc item and anc items arbitrary: policy selected and policy selected rule: item_nodes_content_nodes.induct)
  case (1 anc base vs content)
  let ?group = "XCCDF_GROUP base vs content"
  let ?nodes = "content_nodes (?group # anc) content"
  define policy1 where "policy1 = detach_final policy base"
  define result where "result \<longleftrightarrow> selected \<and> own_selected policy ?group"
  define policy2 where "policy2 = resolve_content policy1 content result"
  have policy1: "htable_ok (policy_selected_final policy1)" "own_selected policy1 = own_selected policy"
      "xccdf_policy_is_item_selected policy1 = (xccdf_policy_is_item_selected policy)(item_id base := None)"
    unfolding policy1_def using final_put(3,4) [OF "1.prems"(1)] by simp_all
  have distinct: "distinct (map node_id ?nodes)" "item_id base \<notin> node_id ` set ?nodes" using "1.prems"(2) by simp_all
  have res: "resolves policy1 policy2 ?nodes (length (?group # anc)) result"
    unfolding policy2_def by (rule "1.IH" [OF policy1(1) distinct(1)])
  then have "xccdf_policy_is_item_selected policy2 (item_id base) = None" using distinct(2) policy1(3) by (simp add: resolves_def)
  moreover have "htable_ok (policy_selected_final policy2)" using res by (simp add: resolves_def)
  ultimately have final: "htable_ok (policy_selected_final (add_final policy2 base result))"
      "xccdf_policy_is_item_selected (add_final policy2 base result) = (xccdf_policy_is_item_selected policy2)(item_id base := Some result)"
    using final_put(1,2) [of policy2 base result] by simp_all
  have root: "below (length anc) (?group # anc) = [?group]" using below_append [of anc "[?group]"] by simp
  obtain d where d: "policy1 = policy\<lparr>policy_selected_final := d\<rparr>" unfolding policy1_def using detach_add_final(1) by blast
  have "resolves policy (add_final policy2 base result) (item_nodes anc ?group) (length anc) selected"
    unfolding resolves_def
  proof (intro conjI ballI allI impI)
    show "htable_ok (policy_selected_final (add_final policy2 base result))" by (rule final(1))
    show "\<exists>d. add_final policy2 base result = policy\<lparr>policy_selected_final := d\<rparr>"
      using res d by (auto simp: resolves_def add_final_def)
  next
    fix n
    assume "n \<in> set (item_nodes anc ?group)"
    then show "xccdf_policy_is_item_selected (add_final policy2 base result) (node_id n)
        = Some (selected \<and> list_all (own_selected policy) (below (length anc) n))"
    proof (cases "n = ?group # anc")
      case True
      then show ?thesis using final(2) root by (simp add: node_id_def result_def)
    next
      case False
      then have n: "n \<in> set ?nodes" using \<open>n \<in> set (item_nodes anc ?group)\<close> by simp
      then have "node_id n \<noteq> item_id base" using distinct(2) by (metis image_eqI)
      then show ?thesis using final(2) res n policy1(2) unfolding below_child [OF n] by (auto simp: resolves_def result_def)
    qed
  next
    fix i
    assume "i \<notin> node_id ` set (item_nodes anc ?group)"
    then show "xccdf_policy_is_item_selected (add_final policy2 base result) i = xccdf_policy_is_item_selected policy i"
      using final(2) res policy1(3) by (simp add: resolves_def node_id_def)
  qed
  then show ?case
    using resolved_selection_own [of policy1 ?group selected]
    by (simp add: policy1_def [symmetric] policy1(2) policy2_def result_def Let_def)
next
  case (6 anc item items)
  have res: "resolves policy (xccdf_policy_resolve_item policy item selected) (item_nodes anc item) (length anc) selected"
    using 6 by simp
  then have "htable_ok (policy_selected_final (xccdf_policy_resolve_item policy item selected))" by (simp add: resolves_def)
  then have "resolves (xccdf_policy_resolve_item policy item selected)
      (resolve_content (xccdf_policy_resolve_item policy item selected) items selected) (content_nodes anc items) (length anc) selected"
    using 6 by simp
  from resolves_trans [OF res this] "6.prems"(2) show ?case by simp
next
  case (5 anc)
  then show ?case by (auto simp: resolves_def intro!: exI [of _ "policy_selected_final policy"])
qed (use resolve_leaf [of _ "XCCDF_RULE _ _"] resolve_leaf [of _ "XCCDF_BENCHMARK _ _ _"] resolve_leaf [of _ "XCCDF_VALUE _ _"] in
      \<open>simp_all add: Let_def\<close>)

section \<open>The selection of a benchmark\<close>

definition bench_nodes :: "xccdf_benchmark \<Rightarrow> xccdf_node list" where
  "bench_nodes bench = content_nodes [bench_item bench] (item_content (bench_item bench))"

text \<open>
  What the dictionaries of a benchmark hold: items of the tree, or values of it, by their identifiers, which
  differ; a cluster holds such items.
\<close>

definition member_ok :: "xccdf_benchmark \<Rightarrow> string \<Rightarrow> xccdf_node \<Rightarrow> bool" where
  "member_ok bench i node \<longleftrightarrow> node_id node = i \<and> node \<noteq> []
     \<and> (tl node = [bench_item bench] \<or> tl node \<in> set (bench_nodes bench) \<and> is_group (hd (tl node)))
     \<and> (node \<in> set (bench_nodes bench)
        \<or> (\<exists>base v. node_item node = XCCDF_VALUE base v) \<and> i \<notin> node_id ` set (bench_nodes bench))"

definition cluster_ok :: "xccdf_benchmark \<Rightarrow> xccdf_node oscap_htable \<Rightarrow> bool" where
  "cluster_ok bench cluster \<longleftrightarrow>
     list_all (\<lambda>item. case item of Hitem i node \<Rightarrow> member_ok bench i node | Detached \<Rightarrow> False)
       (hit_pending (oscap_htable_iterator_new cluster))"

definition bench_ok :: "xccdf_benchmark \<Rightarrow> bool" where
  "bench_ok bench \<longleftrightarrow> distinct (map node_id (bench_nodes bench))
     \<and> (\<exists>base vs content. bench_item bench = XCCDF_BENCHMARK base vs content)
     \<and> (\<forall>i node. xccdf_benchmark_get_member bench i = Some node \<longrightarrow> member_ok bench i node)
     \<and> (\<forall>i cluster. oscap_htable_get (bench_clusters_dict bench) i = Some cluster \<longrightarrow> cluster_ok bench cluster)"

text \<open>The selection is right for a node: it and its ancestors, the benchmark aside, are selected.\<close>

definition selected_right :: "xccdf_policy \<Rightarrow> xccdf_node \<Rightarrow> bool" where
  "selected_right policy n \<longleftrightarrow>
     xccdf_policy_is_item_selected policy (node_id n) = Some (list_all (own_selected policy) (butlast n))"

text \<open>It is right but for what lies at or below items that are still to be resolved.\<close>

definition selection_but :: "xccdf_benchmark \<Rightarrow> string set \<Rightarrow> xccdf_policy \<Rightarrow> bool" where
  "selection_but bench left policy \<longleftrightarrow> htable_ok (policy_selected_internal policy) \<and> htable_ok (policy_selected_final policy)
     \<and> (\<forall>n\<in>set (bench_nodes bench). xccdf_policy_is_item_selected policy (node_id n) \<noteq> None
          \<and> (xccdf_item_get_id ` set (butlast n) \<inter> left = {} \<longrightarrow> selected_right policy n))"

definition selection_ok :: "xccdf_benchmark \<Rightarrow> xccdf_policy \<Rightarrow> bool" where
  "selection_ok bench policy \<longleftrightarrow> htable_ok (policy_selected_internal policy) \<and> htable_ok (policy_selected_final policy)
     \<and> list_all (selected_right policy) (bench_nodes bench)"

lemma selection_but_none: "selection_but bench {} policy \<longleftrightarrow> selection_ok bench policy"
  by (auto simp: selection_but_def selection_ok_def selected_right_def list_all_iff)

text \<open>The items of the path of a node are nodes themselves, above the benchmark.\<close>

lemma path_nodes:
  assumes "n \<in> set (bench_nodes bench)"
  obtains xs where "n = xs @ [bench_item bench]" "xs \<noteq> []" "butlast n = xs"
    "\<And>ys item zs. xs = ys @ item # zs \<Longrightarrow> item # zs @ [bench_item bench] \<in> set (bench_nodes bench)
       \<and> n \<in> set (node_nodes (item # zs @ [bench_item bench]))"
proof -
  have "strict_suffix [bench_item bench] n" using assms unfolding bench_nodes_def by (rule node_not_ancestors)
  then obtain xs where xs: "n = xs @ [bench_item bench]" "xs \<noteq> []" by (auto simp: strict_suffix_def suffix_def)
  moreover have "item # zs @ [bench_item bench] \<in> set (bench_nodes bench) \<and> n \<in> set (node_nodes (item # zs @ [bench_item bench]))"
    if "xs = ys @ item # zs" for ys item zs
    using assms unfolding bench_nodes_def
    by (rule suffix_node(2)) (use xs(1) that in \<open>simp_all add: suffix_def\<close>)
  ultimately show ?thesis using that by simp
qed

text \<open>A node has the item of a member on its path just when it is in the subtree of the member.\<close>

lemma path_member:
  assumes "bench_ok bench" and "member_ok bench i m" and "n \<in> set (bench_nodes bench)"
    and "i \<in> xccdf_item_get_id ` set (butlast n)"
  shows "m \<in> set (bench_nodes bench)" and "n \<in> set (node_nodes m)"
proof -
  obtain xs where xs: "n = xs @ [bench_item bench]" "butlast n = xs"
      "\<And>ys item zs. xs = ys @ item # zs \<Longrightarrow> item # zs @ [bench_item bench] \<in> set (bench_nodes bench)
         \<and> n \<in> set (node_nodes (item # zs @ [bench_item bench]))"
    using path_nodes [OF assms(3)] by metis
  obtain item where "item \<in> set xs" "xccdf_item_get_id item = i" using assms(4) xs(2) by auto
  then obtain ys zs where split: "xs = ys @ item # zs" by (meson split_list)
  define s where "s = item # zs @ [bench_item bench]"
  have s: "s \<in> set (bench_nodes bench)" "n \<in> set (node_nodes s)" "node_id s = i"
    using xs(3) [OF split] \<open>xccdf_item_get_id item = i\<close> by (simp_all add: s_def)
  then show m: "m \<in> set (bench_nodes bench)" using assms(2) by (auto simp: member_ok_def)
  have "inj_on node_id (set (bench_nodes bench))" using assms(1) by (simp add: bench_ok_def distinct_map)
  then have "m = s" using m s(1,3) assms(2) by (simp add: member_ok_def inj_on_def)
  then show "n \<in> set (node_nodes m)" using s(2) by simp
qed

section \<open>Resolving a member\<close>

lemma parent_nonempty: "m \<in> set (bench_nodes bench) \<Longrightarrow> m \<noteq> [] \<and> tl m \<noteq> []"
  by (erule path_nodes) (auto simp: neq_Nil_conv)

lemma member_tl: "member_ok bench i m \<Longrightarrow> tl m \<noteq> []"
  by (auto simp: member_ok_def dest: parent_nonempty)

lemma member_nodes:
  assumes "bench_ok bench" and "member_ok bench i m"
  shows "distinct (map node_id (node_nodes m))"
    and "n \<in> set (bench_nodes bench) \<Longrightarrow> node_id n \<in> node_id ` set (node_nodes m) \<Longrightarrow> n \<in> set (node_nodes m) \<and> m \<in> set (bench_nodes bench)"
proof -
  have cons: "m = node_item m # tl m" using assms(2) by (simp add: member_ok_def node_item_def)
  have inj: "inj_on node_id (set (bench_nodes bench))" and dist: "distinct (map node_id (bench_nodes bench))"
    using assms(1) by (simp_all add: bench_ok_def distinct_map)
  consider (node) "m \<in> set (bench_nodes bench)" | (val) "node_nodes m = [m]" "i \<notin> node_id ` set (bench_nodes bench)" "node_id m = i"
    using assms(2) cons by (auto simp: member_ok_def node_nodes_def)
  then have "distinct (map node_id (node_nodes m)) \<and>
      (n \<in> set (bench_nodes bench) \<longrightarrow> node_id n \<in> node_id ` set (node_nodes m) \<longrightarrow> n \<in> set (node_nodes m) \<and> m \<in> set (bench_nodes bench))"
  proof cases
    case node
    obtain xs ys where split: "bench_nodes bench = xs @ node_nodes m @ ys"
      using nodes_split(2) node unfolding bench_nodes_def by blast
    then have "set (node_nodes m) \<subseteq> set (bench_nodes bench)" by auto
    then show ?thesis using dist inj node split by (auto simp: inj_on_def)
  next
    case val
    then show ?thesis by (metis distinct_singleton image_eqI image_insert image_is_empty list.simps(8,9) list.set(1,2) singletonD)
  qed
  then show "distinct (map node_id (node_nodes m))"
    and "n \<in> set (bench_nodes bench) \<Longrightarrow> node_id n \<in> node_id ` set (node_nodes m) \<Longrightarrow> n \<in> set (node_nodes m) \<and> m \<in> set (bench_nodes bench)"
    by blast+
qed

lemma member_parent_selected:
  assumes "member_ok bench i m" and "bench_item bench = XCCDF_BENCHMARK base vs content" and "selection_but bench left policy"
  obtains b where "parent_selected policy m = Some b"
    and "xccdf_item_get_id ` set (butlast (tl m)) \<inter> left = {} \<Longrightarrow> b = list_all (own_selected policy) (butlast (tl m))"
proof (cases "tl m = [bench_item bench]")
  case True
  then show ?thesis using that [of True] assms(2) by (simp add: parent_selected_def)
next
  case False
  then have parent: "tl m \<in> set (bench_nodes bench)" "is_group (hd (tl m))" using assms(1) by (auto simp: member_ok_def)
  obtain gbase gvs gcontent rest where tl: "tl m = XCCDF_GROUP gbase gvs gcontent # rest"
    using parent parent_nonempty by (metis is_group.elims(2) list.exhaust_sel tl_Nil)
  have sel: "xccdf_policy_is_item_selected policy (node_id (tl m)) \<noteq> None"
      "xccdf_item_get_id ` set (butlast (tl m)) \<inter> left = {} \<Longrightarrow> selected_right policy (tl m)"
    using assms(3) parent(1) by (auto simp: selection_but_def)
  then obtain b where "xccdf_policy_is_item_selected policy (node_id (tl m)) = Some b" by auto
  moreover have "parent_selected policy m = xccdf_policy_is_item_selected policy (node_id (tl m))"
    by (simp add: parent_selected_def tl)
  ultimately show ?thesis using that [of b] sel(2) by (simp add: selected_right_def)
qed

lemma resolve_member:
  assumes "bench_ok bench" and "member_ok bench i m" and "selection_but bench (insert i left) policy"
  obtains policy' d where "resolve_node policy m = Some policy'" and "policy' = policy\<lparr>policy_selected_final := d\<rparr>"
    and "selection_but bench left policy'"
proof -
  have cons: "m = node_item m # tl m" using assms(2) by (simp add: member_ok_def node_item_def)
  obtain base vs content where "bench_item bench = XCCDF_BENCHMARK base vs content" using assms(1) by (auto simp: bench_ok_def)
  from member_parent_selected [OF assms(2) this assms(3)] obtain b where b: "parent_selected policy m = Some b"
      "xccdf_item_get_id ` set (butlast (tl m)) \<inter> insert i left = {} \<Longrightarrow> b = list_all (own_selected policy) (butlast (tl m))"
    by blast
  define policy' where "policy' = xccdf_policy_resolve_item policy (node_item m) b"
  have ok: "htable_ok (policy_selected_internal policy)" "htable_ok (policy_selected_final policy)" using assms(3) by (simp_all add: selection_but_def)
  have res: "resolves policy policy' (node_nodes m) (length (tl m)) b"
    unfolding policy'_def node_nodes_def
    by (rule resolve_subtree(1) [OF ok(2)]) (use member_nodes(1) [OF assms(1,2)] in \<open>simp add: node_nodes_def\<close>)
  then obtain d where d: "policy' = policy\<lparr>policy_selected_final := d\<rparr>" by (auto simp: resolves_def)
  have "xccdf_policy_is_item_selected policy' (node_id n) \<noteq> None
      \<and> (xccdf_item_get_id ` set (butlast n) \<inter> left = {} \<longrightarrow> selected_right policy' n)" if n: "n \<in> set (bench_nodes bench)" for n
  proof (cases "n \<in> set (node_nodes m)")
    case True
    then have m: "m \<in> set (bench_nodes bench)" using member_nodes(2) [OF assms(1,2) n] by simp
    have sel: "xccdf_policy_is_item_selected policy' (node_id n) = Some (b \<and> list_all (own_selected policy) (below (length (tl m)) n))"
      using res True by (simp add: resolves_def)
    obtain xs where xs: "n = (xs @ [node_item m]) @ tl m"
      using nodes_below(1) [of n "tl m" "node_item m"] True by (auto simp: node_nodes_def suffix_def)
    then have path: "butlast n = below (length (tl m)) n @ butlast (tl m)"
      using below_append [of "tl m" "xs @ [node_item m]"] member_tl [OF assms(2)] by (simp add: butlast_append)
    have "i \<notin> xccdf_item_get_id ` set (butlast (tl m))"
    proof
      assume in_path: "i \<in> xccdf_item_get_id ` set (butlast (tl m))"
      then have "tl m \<in> set (bench_nodes bench)" using assms(2) by (auto simp: member_ok_def)
      from path_member(2) [OF assms(1,2) this in_path] have "suffix m (tl m)"
        using nodes_below(1) [of "tl m" "tl m" "node_item m"] cons by (simp add: node_nodes_def)
      then show False using cons suffix_length_le by (metis Suc_n_not_le_n length_Cons)
    qed
    then have "selected_right policy' n" if "xccdf_item_get_id ` set (butlast n) \<inter> left = {}"
      using b(2) sel that d unfolding selected_right_def path by auto
    then show ?thesis using sel by simp
  next
    case False
    then have "xccdf_policy_is_item_selected policy' (node_id n) = xccdf_policy_is_item_selected policy (node_id n)"
      using res member_nodes(2) [OF assms(1,2) n] by (auto simp: resolves_def)
    moreover have "i \<notin> xccdf_item_get_id ` set (butlast n)" using path_member(2) [OF assms(1,2) n] False by blast
    ultimately show ?thesis using assms(3) n d by (auto simp: selection_but_def selected_right_def)
  qed
  then have "selection_but bench left policy'" using res ok(1) d by (auto simp: selection_but_def resolves_def)
  then show ?thesis using that [of policy' d] b(1) d by (simp add: resolve_node_def policy'_def)
qed

section \<open>Selectors\<close>

text \<open>The items that a selector concerns: the one of its identifier, or else those of the cluster.\<close>

definition member_items :: "xccdf_benchmark \<Rightarrow> string \<Rightarrow> xccdf_node hitem list" where
  "member_items bench i =
     (case xccdf_benchmark_get_member bench i of
        Some node \<Rightarrow> [Hitem i node]
      | None \<Rightarrow> (case oscap_htable_get (bench_clusters_dict bench) i of
                None \<Rightarrow> []
              | Some cluster \<Rightarrow> hit_pending (oscap_htable_iterator_new cluster)))"

definition concerned :: "xccdf_benchmark \<Rightarrow> xccdf_select \<Rightarrow> string set" where
  "concerned bench sel = fst ` set (live (member_items bench (select_item sel)))"

text \<open>The latest selector that concerns an item, and whether the item is selected by it or else by itself.\<close>

definition latest_select :: "xccdf_benchmark \<Rightarrow> xccdf_select list \<Rightarrow> string \<Rightarrow> xccdf_select option" where
  "latest_select bench sels i = find (\<lambda>sel. i \<in> concerned bench sel) (rev sels)"

definition chosen :: "xccdf_benchmark \<Rightarrow> xccdf_select list \<Rightarrow> xccdf_item \<Rightarrow> bool" where
  "chosen bench sels item =
     (case latest_select bench sels (xccdf_item_get_id item) of
        Some sel \<Rightarrow> select_selected sel
      | None \<Rightarrow> item_selected (item_base item))"

lemma latest_select_snoc: "latest_select bench (sels @ [sel]) i = (if i \<in> concerned bench sel then Some sel else latest_select bench sels i)"
  by (simp add: latest_select_def)

definition selects_ok :: "xccdf_benchmark \<Rightarrow> xccdf_policy \<Rightarrow> bool" where
  "selects_ok bench policy \<longleftrightarrow> htable_ok (policy_selected_internal policy)
     \<and> xccdf_policy_get_select_by_id policy = latest_select bench (policy_selects policy)"

lemma own_selected_chosen: "selects_ok bench policy \<Longrightarrow> own_selected policy = chosen bench (policy_selects policy)"
  by (rule ext) (simp add: own_selected_def chosen_def selects_ok_def)

definition items_ok :: "xccdf_benchmark \<Rightarrow> xccdf_node hitem list \<Rightarrow> bool" where
  "items_ok bench items \<longleftrightarrow> list_all (\<lambda>item. case item of Hitem i node \<Rightarrow> member_ok bench i node | Detached \<Rightarrow> False) items"

lemma member_items_ok: "bench_ok bench \<Longrightarrow> items_ok bench (member_items bench i)"
  by (auto simp: items_ok_def member_items_def bench_ok_def cluster_ok_def split: option.splits)

lemma pending_new_reset [simp]: "oscap_htable_iterator_reset (oscap_htable_iterator_new t) = oscap_htable_iterator_new t"
  by (simp add: oscap_htable_iterator_reset_def oscap_htable_iterator_new_def)

lemma add_selector_items:
  "xccdf_policy_add_selector_internal policy bench sel resolve =
     (let policy0 = policy\<lparr>policy_selects := policy_selects policy @ [sel]\<rparr>; items = member_items bench (select_item sel) in
      if items = [] then Some (False, policy0)
      else (case set_internal_all policy0 sel items of
              None \<Rightarrow> None
            | Some (ok, policy1) \<Rightarrow> if resolve then map_option (Pair ok) (resolve_all policy1 items) else Some (ok, policy1)))"
proof -
  have single: "resolve_all p [Hitem i n] = resolve_node p n" for p i n by (cases "resolve_node p n") simp_all
  have more: "fst (oscap_htable_iterator_has_more (oscap_htable_iterator_new t)) \<longleftrightarrow> hit_pending (oscap_htable_iterator_new t) \<noteq> []"
    for t :: "xccdf_node oscap_htable"
    using hit_has_more by auto
  show ?thesis
    by (auto simp: xccdf_policy_add_selector_internal_def member_items_def xccdf_benchmark_get_cluster_items_def single more Let_def
        split: option.splits prod.splits)
qed

text \<open>Setting the selector of some items; the selection of what lies below them is to be resolved.\<close>

lemma set_items:
  "items_ok bench items \<Longrightarrow> htable_ok (policy_selected_internal policy) \<Longrightarrow>
   \<exists>d. set_internal_all policy sel items = Some (True, policy\<lparr>policy_selected_internal := d\<rparr>) \<and> htable_ok d
     \<and> oscap_htable_get d = (\<lambda>i. if i \<in> fst ` set (live items) then Some sel else oscap_htable_get (policy_selected_internal policy) i)"
proof (induction policy sel items rule: set_internal_all.induct)
  case (3 policy sel i node items)
  let ?t = "snd (oscap_htable_detach (policy_selected_internal policy) i)"
  define d where "d = snd (oscap_htable_add ?t i sel)"
  have t: "htable_ok ?t" "oscap_htable_get ?t = (oscap_htable_get (policy_selected_internal policy))(i := None)"
    using htable_dictionary.valid_detach [OF "3.prems"(2)] htable_dictionary.get_detach [OF "3.prems"(2)] by blast+
  then have add: "fst (oscap_htable_add ?t i sel)" "htable_ok d"
      "oscap_htable_get d = (oscap_htable_get (policy_selected_internal policy))(i := Some sel)"
    unfolding d_def using htable_dictionary.fst_add [OF t(1), of i sel] htable_dictionary.valid_add [OF t(1), of i sel]
      htable_dictionary.get_add [OF t(1), of i sel] by auto
  then have step: "set_internal policy i sel = (True, policy\<lparr>policy_selected_internal := d\<rparr>)"
    by (cases "oscap_htable_add ?t i sel") (simp add: set_internal_def d_def)
  have "items_ok bench items" using "3.prems"(1) by (simp add: items_ok_def)
  then have "\<exists>d'. set_internal_all (policy\<lparr>policy_selected_internal := d\<rparr>) sel items = Some (True, policy\<lparr>policy_selected_internal := d'\<rparr>)
      \<and> htable_ok d' \<and> oscap_htable_get d' = (\<lambda>i. if i \<in> fst ` set (live items) then Some sel else oscap_htable_get d i)"
    using "3.IH" [OF step [symmetric] refl] add(2) by (simp cong: if_cong)
  then obtain d' where d': "set_internal_all (policy\<lparr>policy_selected_internal := d\<rparr>) sel items = Some (True, policy\<lparr>policy_selected_internal := d'\<rparr>)
      \<and> htable_ok d' \<and> oscap_htable_get d' = (\<lambda>i. if i \<in> fst ` set (live items) then Some sel else oscap_htable_get d i)" ..
  then show ?case using step add(3) by (intro exI [of _ d']) (auto simp: fun_eq_iff)
qed (auto simp: items_ok_def intro!: exI [of _ "policy_selected_internal policy" for policy])

lemma set_items_selection:
  assumes "selection_ok bench policy" and "htable_ok d"
    and "\<And>i. i \<notin> left \<Longrightarrow> oscap_htable_get d i = oscap_htable_get (policy_selected_internal policy) i"
  shows "selection_but bench left (policy\<lparr>policy_selects := sels, policy_selected_internal := d\<rparr>)"
proof -
  let ?policy = "policy\<lparr>policy_selects := sels, policy_selected_internal := d\<rparr>"
  have own: "own_selected ?policy item = own_selected policy item" if "xccdf_item_get_id item \<notin> left" for item
    using assms(3) [OF that] by (simp add: own_selected_def xccdf_policy_get_select_by_id_def)
  have "selected_right ?policy n" if "selected_right policy n" "xccdf_item_get_id ` set (butlast n) \<inter> left = {}" for n
  proof -
    have "list_all (own_selected ?policy) (butlast n) = list_all (own_selected policy) (butlast n)"
    proof (rule list.pred_cong [OF refl])
      fix item
      assume "item \<in> set (butlast n)"
      then show "own_selected ?policy item = own_selected policy item" using that(2) by (intro own) blast
    qed
    then show ?thesis using that(1) by (simp add: selected_right_def xccdf_policy_is_item_selected_def)
  qed
  then show ?thesis
    using assms(1,2) by (auto simp: selection_ok_def selection_but_def list_all_iff selected_right_def xccdf_policy_is_item_selected_def)
qed

lemma resolve_items:
  "bench_ok bench \<Longrightarrow> items_ok bench items \<Longrightarrow> selection_but bench (fst ` set (live items)) policy \<Longrightarrow>
   \<exists>d. resolve_all policy items = Some (policy\<lparr>policy_selected_final := d\<rparr>) \<and> selection_ok bench (policy\<lparr>policy_selected_final := d\<rparr>)"
proof (induction policy items rule: resolve_all.induct)
  case (1 policy)
  then show ?case by (intro exI [of _ "policy_selected_final policy"]) (simp add: selection_but_none)
next
  case (2 policy items)
  then show ?case by (simp add: items_ok_def)
next
  case (3 policy i node items)
  have ok: "member_ok bench i node" "items_ok bench items" using "3.prems"(2) by (simp_all add: items_ok_def)
  have but: "selection_but bench (insert i (fst ` set (live items))) policy" using "3.prems"(3) by simp
  obtain policy1 d1 where step: "resolve_node policy node = Some policy1" "policy1 = policy\<lparr>policy_selected_final := d1\<rparr>"
      "selection_but bench (fst ` set (live items)) policy1"
    using resolve_member [OF "3.prems"(1) ok(1) but] by blast
  then show ?case using "3.IH" [OF step(1) "3.prems"(1) ok(2) step(3)] by auto
qed

text \<open>What a selector does before and after the resolution.\<close>

lemma add_selector:
  assumes "bench_ok bench" and "selects_ok bench policy"
  obtains policy1 where "xccdf_policy_add_selector_internal policy bench sel False = Some (concerned bench sel \<noteq> {}, policy1)"
    and "policy_selects policy1 = policy_selects policy @ [sel]" and "policy_selected_final policy1 = policy_selected_final policy"
    and "selects_ok bench policy1"
    and "selection_ok bench policy \<Longrightarrow> \<exists>d. xccdf_policy_add_selector_internal policy bench sel True
        = Some (concerned bench sel \<noteq> {}, policy1\<lparr>policy_selected_final := d\<rparr>) \<and> selection_ok bench (policy1\<lparr>policy_selected_final := d\<rparr>)"
proof -
  let ?items = "member_items bench (select_item sel)"
  define policy0 where "policy0 = policy\<lparr>policy_selects := policy_selects policy @ [sel]\<rparr>"
  have ok: "items_ok bench ?items" by (rule member_items_ok [OF assms(1)])
  have internal: "htable_ok (policy_selected_internal policy0)" using assms(2) by (simp add: policy0_def selects_ok_def)
  obtain d where "set_internal_all policy0 sel ?items = Some (True, policy0\<lparr>policy_selected_internal := d\<rparr>) \<and> htable_ok d
      \<and> oscap_htable_get d = (\<lambda>i. if i \<in> fst ` set (live ?items) then Some sel else oscap_htable_get (policy_selected_internal policy0) i)"
    using set_items [OF ok internal, of sel] ..
  then have d: "set_internal_all policy0 sel ?items = Some (True, policy0\<lparr>policy_selected_internal := d\<rparr>)" "htable_ok d"
      "oscap_htable_get d = (\<lambda>i. if i \<in> concerned bench sel then Some sel else oscap_htable_get (policy_selected_internal policy) i)"
    by (simp_all add: concerned_def policy0_def cong: if_cong)
  let ?policy1 = "policy0\<lparr>policy_selected_internal := d\<rparr>"
  have none: "concerned bench sel = {} \<longleftrightarrow> ?items = []"
    using ok by (cases ?items) (auto simp: concerned_def items_ok_def split: hitem.splits)
  have empty: "?policy1 = policy0 \<or> ?items \<noteq> []" using d(1) by (cases ?items) auto
  have selects: "selects_ok bench ?policy1"
    using d(2,3) assms(2) by (auto simp: selects_ok_def latest_select_snoc policy0_def xccdf_policy_get_select_by_id_def fun_eq_iff)
  show ?thesis
  proof (rule that [of ?policy1])
    show "xccdf_policy_add_selector_internal policy bench sel False = Some (concerned bench sel \<noteq> {}, ?policy1)"
      using d(1) empty none by (auto simp: add_selector_items policy0_def [symmetric] Let_def)
    show "policy_selects ?policy1 = policy_selects policy @ [sel]" "policy_selected_final ?policy1 = policy_selected_final policy"
      by (simp_all add: policy0_def)
    show "selects_ok bench ?policy1" by (rule selects)
    assume sel: "selection_ok bench policy"
    have "selection_but bench (fst ` set (live ?items)) ?policy1"
      unfolding policy0_def by (rule set_items_selection [OF sel d(2)]) (simp add: d(3) concerned_def)
    from resolve_items [OF assms(1) ok this] obtain e where
      e: "resolve_all ?policy1 ?items = Some (?policy1\<lparr>policy_selected_final := e\<rparr>)" "selection_ok bench (?policy1\<lparr>policy_selected_final := e\<rparr>)"
      by blast
    then have "xccdf_policy_add_selector_internal policy bench sel True = Some (concerned bench sel \<noteq> {}, ?policy1\<lparr>policy_selected_final := e\<rparr>)"
      using d(1) empty none by (auto simp: add_selector_items policy0_def [symmetric] Let_def)
    then show "\<exists>d'. xccdf_policy_add_selector_internal policy bench sel True
        = Some (concerned bench sel \<noteq> {}, ?policy1\<lparr>policy_selected_final := d'\<rparr>) \<and> selection_ok bench (?policy1\<lparr>policy_selected_final := d'\<rparr>)"
      using e(2) by blast
  qed
qed

section \<open>New policies\<close>

lemma add_selectors_ok:
  "bench_ok bench \<Longrightarrow> selects_ok bench policy \<Longrightarrow>
   \<exists>policy'. add_selectors policy bench sels = Some policy' \<and> selects_ok bench policy' \<and> policy_selects policy' = policy_selects policy @ sels
     \<and> policy_selected_final policy' = policy_selected_final policy"
proof (induction sels arbitrary: policy)
  case (Cons sel sels)
  obtain policy1 where step: "xccdf_policy_add_selector_internal policy bench sel False = Some (concerned bench sel \<noteq> {}, policy1)"
      "policy_selects policy1 = policy_selects policy @ [sel]" "policy_selected_final policy1 = policy_selected_final policy"
      "selects_ok bench policy1"
    using add_selector [OF Cons.prems] by metis
  then show ?case using Cons.IH [OF Cons.prems(1) step(4)] by auto
qed simp

text \<open>The lookup of the profile that a profile extends.\<close>

definition extended_profile ::
    "nat \<Rightarrow> 'w xccdf_policy_model \<Rightarrow> xccdf_profile \<Rightarrow> (xccdf_profile option \<times> 'w xccdf_policy_model) option" where
  "extended_profile fuel model profile =
     (case profile_extends profile of
        None \<Rightarrow> Some (None, model)
      | Some parent_id \<Rightarrow>
          (case profile_id profile of
             None \<Rightarrow> None
           | Some i \<Rightarrow>
               if strcmp parent_id i = 0 then
                 Some (xccdf_benchmark_get_profile_by_id (model_benchmark model) (Some parent_id), model)
               else
                 (case xccdf_policy_model_get_policy_by_id fuel model (Some parent_id) of
                    None \<Rightarrow> None
                  | Some (None, model1) \<Rightarrow> Some (None, model1)
                  | Some (Some parent_policy, model1) \<Rightarrow> Some (policy_profile parent_policy, model1))))"

lemma add_profile_selectors_cases:
  assumes "xccdf_policy_add_profile_selectors (Suc fuel) model policy profile = Some (policy', model')"
  obtains up model1 policy1 where "extended_profile fuel model profile = Some (up, model1)"
    and "(case up of None \<Rightarrow> Some (policy, model1) | Some parent \<Rightarrow> xccdf_policy_add_profile_selectors fuel model1 policy parent)
      = Some (policy1, model')"
    and "add_selectors policy1 (model_benchmark model') (profile_selects profile) = Some policy'"
proof (cases "extended_profile fuel model profile")
  case None
  then show ?thesis using assms by (simp add: extended_profile_def)
next
  case (Some pair)
  obtain up model1 where pair: "pair = (up, model1)" by fastforce
  let ?r = "case up of None \<Rightarrow> Some (policy, model1) | Some parent \<Rightarrow> xccdf_policy_add_profile_selectors fuel model1 policy parent"
  have "(case ?r of None \<Rightarrow> None
      | Some (policy1, model2) \<Rightarrow> map_option (\<lambda>policy2. (policy2, model2)) (add_selectors policy1 (model_benchmark model2) (profile_selects profile)))
      = Some (policy', model')"
    using assms Some [unfolded extended_profile_def] pair by simp
  then obtain policy1 where "?r = Some (policy1, model')" "add_selectors policy1 (model_benchmark model') (profile_selects profile) = Some policy'"
    by (cases ?r) auto
  then show ?thesis using that Some pair by simp
qed

text \<open>The benchmark of the model stays while policies are made on the way.\<close>

lemma new_policy_benchmark_all:
  "(\<forall>model policy profile policy' model'. xccdf_policy_add_profile_selectors fuel model policy profile = Some (policy', model')
      \<longrightarrow> model_benchmark model' = model_benchmark (model :: 'w xccdf_policy_model))
   \<and> (\<forall>model profile policy' model'. xccdf_policy_new fuel model profile = Some (policy', model')
      \<longrightarrow> model_benchmark model' = model_benchmark (model :: 'w xccdf_policy_model))
   \<and> (\<forall>model i found model'. xccdf_policy_model_get_policy_by_id fuel model i = Some (found, model')
      \<longrightarrow> model_benchmark model' = model_benchmark (model :: 'w xccdf_policy_model))"
proof (induction fuel)
  case (Suc fuel)
  have lookup: "model_benchmark model1 = model_benchmark model" if "extended_profile fuel model profile = Some (up, model1)"
    for model :: "'w xccdf_policy_model" and profile up model1
    using that Suc.IH by (auto simp: extended_profile_def split: option.splits if_splits)
  have add: "model_benchmark model' = model_benchmark model"
    if "xccdf_policy_add_profile_selectors (Suc fuel) model policy profile = Some (policy', model')"
    for model :: "'w xccdf_policy_model" and policy profile policy' model'
  proof -
    from add_profile_selectors_cases [OF that] obtain up model1 policy1 where up: "extended_profile fuel model profile = Some (up, model1)"
        "(case up of None \<Rightarrow> Some (policy, model1) | Some parent \<Rightarrow> xccdf_policy_add_profile_selectors fuel model1 policy parent)
          = Some (policy1, model')" .
    have "model_benchmark model' = model_benchmark model1"
    proof (cases up)
      case (Some parent)
      then show ?thesis using up(2) Suc.IH [THEN conjunct1, rule_format, of model1 policy parent policy1 model'] by simp
    qed (use up(2) in simp)
    then show ?thesis using lookup [OF up(1)] by simp
  qed
  have new: "model_benchmark model' = model_benchmark model" if "xccdf_policy_new (Suc fuel) model profile = Some (policy', model')"
    for model :: "'w xccdf_policy_model" and profile policy' model'
    using that Suc.IH [THEN conjunct1] by (auto split: prod.splits)
  have get: "model_benchmark model' = model_benchmark model" if "xccdf_policy_model_get_policy_by_id (Suc fuel) model i = Some (found, model')"
    for model :: "'w xccdf_policy_model" and i found model'
    using that Suc.IH [THEN conjunct2, THEN conjunct1] by (auto split: option.splits)
  show ?case using add new get by (intro conjI allI impI) assumption+
qed simp

lemmas new_policy_benchmark =
  new_policy_benchmark_all [THEN conjunct1, rule_format]
  new_policy_benchmark_all [THEN conjunct2, THEN conjunct1, rule_format]
  new_policy_benchmark_all [THEN conjunct2, THEN conjunct2, rule_format]

lemma extended_profile_benchmark:
  "extended_profile fuel model profile = Some (up, model1) \<Longrightarrow>
   model_benchmark model1 = model_benchmark model \<and> (profile_extends profile = None \<longrightarrow> up = None)"
  using new_policy_benchmark(3) [of fuel model] by (auto simp: extended_profile_def split: option.splits if_splits)

lemma profile_selectors_ok:
  "bench_ok (model_benchmark model) \<Longrightarrow> selects_ok (model_benchmark model) policy \<Longrightarrow>
   xccdf_policy_add_profile_selectors fuel model policy profile = Some (policy', model') \<Longrightarrow>
   selects_ok (model_benchmark model) policy' \<and> policy_selected_final policy' = policy_selected_final policy
     \<and> (\<exists>inherited. policy_selects policy' = policy_selects policy @ inherited @ profile_selects profile
          \<and> (profile_extends profile = None \<longrightarrow> inherited = []))"
proof (induction fuel arbitrary: model policy profile policy' model')
  case (Suc fuel)
  let ?bench = "model_benchmark model"
  obtain up model1 policy1 where up: "extended_profile fuel model profile = Some (up, model1)"
      "(case up of None \<Rightarrow> Some (policy, model1) | Some parent \<Rightarrow> xccdf_policy_add_profile_selectors fuel model1 policy parent)
        = Some (policy1, model')"
      "add_selectors policy1 (model_benchmark model') (profile_selects profile) = Some policy'"
    by (rule add_profile_selectors_cases [OF Suc.prems(3)])
  note model1 = extended_profile_benchmark [OF up(1)]
  have bench: "model_benchmark model' = ?bench"
    using up(2) model1 new_policy_benchmark(1) [of fuel model1 policy] by (cases up) simp_all
  have policy1: "selects_ok ?bench policy1 \<and> policy_selected_final policy1 = policy_selected_final policy
      \<and> (\<exists>inherited. policy_selects policy1 = policy_selects policy @ inherited \<and> (profile_extends profile = None \<longrightarrow> inherited = []))"
  proof (cases up)
    case None
    then show ?thesis using up(2) Suc.prems(2) by simp
  next
    case (Some parent)
    then show ?thesis using Suc.IH [of model1 policy parent policy1 model'] up(2) model1 Suc.prems(1,2) by auto
  qed
  then show ?case using add_selectors_ok [OF Suc.prems(1), of policy1 "profile_selects profile"] up(3) bench by auto
qed simp

text \<open>Further selectors, one after the other.\<close>

fun add_selects :: "'w xccdf_policy_model \<Rightarrow> xccdf_policy \<Rightarrow> xccdf_select list \<Rightarrow> xccdf_policy option" where
  "add_selects model policy [] = Some policy"
| "add_selects model policy (sel # sels) =
     (case xccdf_policy_add_select model policy sel of
        None \<Rightarrow> None
      | Some (ok, policy') \<Rightarrow> add_selects model policy' sels)"

lemma add_selects_ok:
  "bench_ok (model_benchmark model) \<Longrightarrow> selects_ok (model_benchmark model) policy \<Longrightarrow> selection_ok (model_benchmark model) policy \<Longrightarrow>
   \<exists>policy'. add_selects model policy sels = Some policy' \<and> selects_ok (model_benchmark model) policy'
     \<and> selection_ok (model_benchmark model) policy' \<and> policy_selects policy' = policy_selects policy @ sels"
proof (induction sels arbitrary: policy)
  case (Cons sel sels)
  let ?bench = "model_benchmark model"
  obtain policy1 where step: "policy_selects policy1 = policy_selects policy @ [sel]" "selects_ok ?bench policy1"
      "\<exists>d. xccdf_policy_add_selector_internal policy ?bench sel True = Some (concerned ?bench sel \<noteq> {}, policy1\<lparr>policy_selected_final := d\<rparr>)
        \<and> selection_ok ?bench (policy1\<lparr>policy_selected_final := d\<rparr>)"
    using add_selector [OF Cons.prems(1,2), of sel] Cons.prems(3) by metis
  from step(3) obtain d where d: "xccdf_policy_add_selector_internal policy ?bench sel True
        = Some (concerned ?bench sel \<noteq> {}, policy1\<lparr>policy_selected_final := d\<rparr>)
      \<and> selection_ok ?bench (policy1\<lparr>policy_selected_final := d\<rparr>)" ..
  have "selects_ok ?bench (policy1\<lparr>policy_selected_final := d\<rparr>)"
    using step(2) by (simp add: selects_ok_def xccdf_policy_get_select_by_id_def fun_eq_iff)
  from Cons.IH [OF Cons.prems(1) this] d step(1) show ?case by (simp add: xccdf_policy_add_select_def)
qed simp

lemma policy_new_ok:
  assumes "bench_ok (model_benchmark model)" and "xccdf_policy_new fuel model profile = Some (policy, model1)"
  shows "selects_ok (model_benchmark model) policy" and "selection_ok (model_benchmark model) policy"
    and "profile_extends profile = None \<Longrightarrow> policy_selects policy = profile_selects profile"
proof -
  let ?bench = "model_benchmark model"
  obtain n where fuel: "fuel = Suc n" using assms(2) by (cases fuel) auto
  obtain p0 where p0: "xccdf_policy_add_profile_selectors n model (empty_policy (Some profile)) profile = Some (p0, model1)"
      "policy = resolve_content p0 (item_content (bench_item (model_benchmark model1))) True"
    using assms(2) by (auto simp: fuel)
  have bench: "model_benchmark model1 = ?bench" by (rule new_policy_benchmark(1) [OF p0(1)])
  have "selects_ok ?bench (empty_policy (Some profile))"
    by (auto simp: selects_ok_def empty_policy_def xccdf_policy_get_select_by_id_def latest_select_def
        htable_dictionary.empty_valid htable_dictionary.get_empty)
  note sels = profile_selectors_ok [OF assms(1) this p0(1)]
  then have "htable_ok (policy_selected_final p0)" by (simp add: empty_policy_def htable_dictionary.empty_valid)
  then have "resolves p0 policy (bench_nodes ?bench) (length [bench_item ?bench]) True"
    unfolding p0(2) bench bench_nodes_def
    by (rule resolve_subtree(2)) (use assms(1) in \<open>simp add: bench_ok_def bench_nodes_def\<close>)
  then obtain d where d: "policy = p0\<lparr>policy_selected_final := d\<rparr>" "htable_ok d"
      "\<forall>n\<in>set (bench_nodes ?bench). selected_right policy n"
    by (auto simp: resolves_def selected_right_def below_def butlast_conv_take)
  then show "selects_ok ?bench policy" "selection_ok ?bench policy"
    using sels by (simp_all add: selects_ok_def selection_ok_def list_all_iff xccdf_policy_get_select_by_id_def fun_eq_iff)
  show "policy_selects policy = profile_selects profile" if "profile_extends profile = None"
    using sels that d(1) by (simp add: empty_policy_def)
qed

section \<open>Profiles that extend others\<close>

text \<open>
  The profile that a profile extends: the one of its identifier in the tailoring or else in the benchmark; a
  profile that extends its own identifier stands for the one of the benchmark. A chain goes from the last
  profile that extends none to the profile.
\<close>

definition parent_profile :: "'w xccdf_policy_model \<Rightarrow> xccdf_profile \<Rightarrow> xccdf_profile option" where
  "parent_profile model profile =
     (case profile_extends profile of
        None \<Rightarrow> None
      | Some parent_id \<Rightarrow>
          if profile_id profile = Some parent_id then xccdf_benchmark_get_profile_by_id (model_benchmark model) (Some parent_id)
          else find_profile model (Some parent_id))"

inductive profile_chain :: "'w xccdf_policy_model \<Rightarrow> xccdf_profile \<Rightarrow> xccdf_profile list \<Rightarrow> bool"
  for model :: "'w xccdf_policy_model"
where
  chain_root: "parent_profile model profile = None \<Longrightarrow> profile_chain model profile [profile]"
| chain_step: "parent_profile model profile = Some parent \<Longrightarrow> profile_chain model parent profiles \<Longrightarrow>
    profile_chain model profile (profiles @ [profile])"

text \<open>
  A profile that extends another has an identifier, with which the other's is compared (a NULL would be read),
  and the other's is not empty (an empty identifier counts as that of the default profile).
\<close>

definition named_profile :: "xccdf_profile \<Rightarrow> bool" where
  "named_profile profile \<longleftrightarrow> (profile_extends profile \<noteq> None \<longrightarrow> profile_id profile \<noteq> None) \<and> profile_extends profile \<noteq> Some []"

text \<open>The policies that the model has already are those of the profiles of their identifiers.\<close>

definition made_policies :: "'w xccdf_policy_model \<Rightarrow> bool" where
  "made_policies model \<longleftrightarrow>
     (\<forall>policy\<in>set (model_policies model). \<forall>i. i \<noteq> [] \<longrightarrow> xccdf_policy_get_id policy = Some i \<longrightarrow>
        policy_profile policy = find_profile model (Some i))"

lemma streq_eq: "i \<noteq> [] \<Longrightarrow> oscap_streq s (Some i) \<longleftrightarrow> s = Some i"
  by (cases s) (simp_all add: oscap_streq_def oscap_strcmp_def)

lemma list_find_Some: "oscap_list_find compare xs v = Some x \<Longrightarrow> x \<in> set xs \<and> compare x v"
  by (induction xs) (auto split: if_splits)

lemma find_profile_id:
  assumes "find_profile model (Some i) = Some profile" and "i \<noteq> []"
  shows "profile_id profile = Some i"
proof -
  have "\<exists>profiles. oscap_list_find (\<lambda>profile i. oscap_streq (profile_id profile) i) profiles (Some i) = Some profile"
    using assms(1) unfolding find_profile_def xccdf_tailoring_get_profile_by_id_def xccdf_benchmark_get_profile_by_id_def
    by (auto split: option.splits)
  then show ?thesis using list_find_Some streq_eq [OF assms(2)] by fastforce
qed

lemma find_profile_policies [simp]: "find_profile (model\<lparr>model_policies := pols\<rparr>) = find_profile model"
  by (simp add: fun_eq_iff find_profile_def split: option.split)

lemma set_internal_profile: "set_internal_all p sel items = Some (ok, p') \<Longrightarrow> policy_profile p' = policy_profile p"
proof (induction p sel items arbitrary: ok p' rule: set_internal_all.induct)
  case (3 p sel i node items)
  obtain b p1 where p1: "set_internal p i sel = (b, p1)" by (cases "set_internal p i sel")
  then have "policy_profile p1 = policy_profile p" by (auto simp: set_internal_def split: prod.splits)
  moreover obtain ok' where "set_internal_all p1 sel items = Some (ok', p')" using "3.prems" p1 by auto
  ultimately show ?case using "3.IH" [OF p1 [symmetric] refl] by metis
qed simp_all

lemma add_internal_profile:
  "xccdf_policy_add_selector_internal policy bench sel False = Some (ok, policy') \<Longrightarrow> policy_profile policy' = policy_profile policy"
  unfolding add_selector_items Let_def
  by (cases "set_internal_all (policy\<lparr>policy_selects := policy_selects policy @ [sel]\<rparr>) sel (member_items bench (select_item sel))")
    (auto dest: set_internal_profile split: if_splits)

lemma add_selectors_profile: "add_selectors policy bench sels = Some policy' \<Longrightarrow> policy_profile policy' = policy_profile policy"
proof (induction sels arbitrary: policy)
  case (Cons sel sels)
  then obtain ok policy1 where "xccdf_policy_add_selector_internal policy bench sel False = Some (ok, policy1)"
      "add_selectors policy1 bench sels = Some policy'" by (auto split: option.splits)
  then show ?case using Cons.IH add_internal_profile by metis
qed simp

lemma resolve_profile:
  "policy_profile (xccdf_policy_resolve_item policy item selected) = policy_profile policy"
  "policy_profile (resolve_content policy items selected) = policy_profile policy"
  by (induction policy item selected and policy items selected rule: xccdf_policy_resolve_item_resolve_content.induct)
    (simp_all add: Let_def add_final_def detach_final_def)

text \<open>The selectors of a chain are added, its last ancestor first; policies for the ancestors are made on the way.\<close>

definition adds_chain :: "'w xccdf_policy_model \<Rightarrow> xccdf_profile \<Rightarrow> xccdf_profile list \<Rightarrow> bool" where
  "adds_chain model profile profiles \<longleftrightarrow> (\<forall>pols fuel policy. made_policies (model\<lparr>model_policies := pols\<rparr>)
     \<longrightarrow> 3 * length profiles \<le> fuel + 1 \<longrightarrow> selects_ok (model_benchmark model) policy \<longrightarrow>
     (\<exists>policy' pols'. xccdf_policy_add_profile_selectors fuel (model\<lparr>model_policies := pols\<rparr>) policy profile
          = Some (policy', model\<lparr>model_policies := pols'\<rparr>) \<and> made_policies (model\<lparr>model_policies := pols'\<rparr>)
        \<and> policy_selects policy' = policy_selects policy @ concat (map profile_selects profiles)
        \<and> policy_profile policy' = policy_profile policy \<and> selects_ok (model_benchmark model) policy'))"

lemma empty_selects_ok: "selects_ok bench (empty_policy profile)"
  by (auto simp: selects_ok_def empty_policy_def xccdf_policy_get_select_by_id_def latest_select_def
      htable_dictionary.empty_valid htable_dictionary.get_empty)

lemma resolve_content_selects: "policy_selects (resolve_content policy items selected) = policy_selects policy"
proof -
  have "policy_selects (xccdf_policy_resolve_item policy item selected) = policy_selects policy"
    "policy_selects (resolve_content policy items selected) = policy_selects policy" for policy item items selected
    by (induction policy item selected and policy items selected rule: xccdf_policy_resolve_item_resolve_content.induct)
      (simp_all add: Let_def add_final_def detach_final_def)
  then show ?thesis by simp
qed

lemma new_from_chain:
  assumes "adds_chain model profile profiles" and "made_policies (model\<lparr>model_policies := pols\<rparr>)" and "3 * length profiles \<le> fuel"
    and "profiles \<noteq> []"
  obtains policy pols' where "xccdf_policy_new fuel (model\<lparr>model_policies := pols\<rparr>) profile = Some (policy, model\<lparr>model_policies := pols'\<rparr>)"
    and "made_policies (model\<lparr>model_policies := pols'\<rparr>)" and "policy_selects policy = concat (map profile_selects profiles)"
    and "policy_profile policy = Some profile"
proof -
  obtain f where fuel: "fuel = Suc f" using assms(3,4) by (cases fuel) auto
  obtain p0 pols' where p0: "xccdf_policy_add_profile_selectors f (model\<lparr>model_policies := pols\<rparr>) (empty_policy (Some profile)) profile
        = Some (p0, model\<lparr>model_policies := pols'\<rparr>)" "made_policies (model\<lparr>model_policies := pols'\<rparr>)"
      "policy_selects p0 = policy_selects (empty_policy (Some profile)) @ concat (map profile_selects profiles)"
      "policy_profile p0 = policy_profile (empty_policy (Some profile))"
    using assms(1-3) empty_selects_ok unfolding adds_chain_def fuel by (metis Suc_eq_plus1)
  then show ?thesis
    by (intro that [of "resolve_content p0 (item_content (bench_item (model_benchmark model))) True" pols'])
      (simp_all add: fuel resolve_content_selects resolve_profile empty_policy_def)
qed

lemma get_from_chain:
  assumes "adds_chain model profile profiles" and "made_policies (model\<lparr>model_policies := pols\<rparr>)" and "3 * length profiles < fuel"
    and "profiles \<noteq> []" and "find_profile model (Some i) = Some profile" and "i \<noteq> []"
  obtains policy pols' where "xccdf_policy_model_get_policy_by_id fuel (model\<lparr>model_policies := pols\<rparr>) (Some i)
      = Some (Some policy, model\<lparr>model_policies := pols'\<rparr>)"
    and "made_policies (model\<lparr>model_policies := pols'\<rparr>)" and "policy_profile policy = Some profile"
proof -
  obtain f where fuel: "fuel = Suc f" "3 * length profiles \<le> f" using assms(3) by (cases fuel) auto
  show ?thesis
  proof (cases "oscap_list_find (\<lambda>policy i. oscap_streq (xccdf_policy_get_id policy) i) pols (Some i)")
    case (Some policy)
    then have "policy \<in> set pols" "xccdf_policy_get_id policy = Some i"
      using list_find_Some [OF Some] streq_eq [OF assms(6)] by auto
    then have "policy_profile policy = Some profile" using assms(2,5,6) by (auto simp: made_policies_def)
    then show ?thesis using that [of policy pols] Some assms(2) by (simp add: fuel)
  next
    case None
    obtain policy pols' where new: "xccdf_policy_new f (model\<lparr>model_policies := pols\<rparr>) profile = Some (policy, model\<lparr>model_policies := pols'\<rparr>)"
        "made_policies (model\<lparr>model_policies := pols'\<rparr>)" "policy_profile policy = Some profile"
      using new_from_chain [OF assms(1,2) fuel(2) assms(4)] by metis
    moreover have "xccdf_policy_get_id policy = Some i" using new(3) find_profile_id [OF assms(5,6)] by (simp add: xccdf_policy_get_id_def)
    ultimately show ?thesis
      using that [of policy "pols' @ [policy]"] None assms(5) by (simp add: fuel made_policies_def)
  qed
qed

lemma get_none:
  assumes "made_policies (model\<lparr>model_policies := pols\<rparr>)" and "0 < fuel" and "find_profile model (Some i) = None" and "i \<noteq> []"
  shows "xccdf_policy_model_get_policy_by_id fuel (model\<lparr>model_policies := pols\<rparr>) (Some i) = Some (None, model\<lparr>model_policies := pols\<rparr>)"
proof -
  have "xccdf_policy_get_id policy \<noteq> Some i" if "policy \<in> set pols" for policy
    using that assms(1,3,4) by (auto simp: made_policies_def xccdf_policy_get_id_def split: option.splits)
  then have "oscap_list_find (\<lambda>policy i. oscap_streq (xccdf_policy_get_id policy) i) pols (Some i) = None"
    using list_find_Some streq_eq [OF assms(4)]
    by (cases "oscap_list_find (\<lambda>policy i. oscap_streq (xccdf_policy_get_id policy) i) pols (Some i)") fastforce+
  then show ?thesis using assms(2,3) by (cases fuel) simp_all
qed

lemma chain_nonempty: "profile_chain model profile profiles \<Longrightarrow> profiles \<noteq> [] \<and> last profiles = profile"
  by (induction rule: profile_chain.induct) auto

lemma extended_parent:
  assumes "named_profile profile" and "made_policies (model\<lparr>model_policies := pols\<rparr>)" and "0 < fuel"
    and "\<And>parent. parent_profile model profile = Some parent \<Longrightarrow> \<exists>profiles. adds_chain model parent profiles \<and> profiles \<noteq> [] \<and> 3 * length profiles < fuel"
  obtains pols' where "extended_profile fuel (model\<lparr>model_policies := pols\<rparr>) profile
      = Some (parent_profile model profile, model\<lparr>model_policies := pols'\<rparr>)" and "made_policies (model\<lparr>model_policies := pols'\<rparr>)"
proof (cases "profile_extends profile")
  case None
  then show ?thesis using that [of pols] assms(2) by (simp add: extended_profile_def parent_profile_def)
next
  case (Some parent_id)
  then obtain i where i: "profile_id profile = Some i" and ne: "parent_id \<noteq> []" using assms(1) by (auto simp: named_profile_def)
  show ?thesis
  proof (cases "i = parent_id")
    case True
    then show ?thesis using that [of pols] assms(2) Some i by (simp add: extended_profile_def parent_profile_def)
  next
    case False
    then have parent: "parent_profile model profile = find_profile model (Some parent_id)" using Some i by (simp add: parent_profile_def)
    show ?thesis
    proof (cases "find_profile model (Some parent_id)")
      case None
      then show ?thesis using that [of pols] assms(2) Some i False get_none [OF assms(2,3) None ne] by (simp add: extended_profile_def parent)
    next
      case (Some p)
      then obtain profiles where "adds_chain model p profiles" "profiles \<noteq> []" "3 * length profiles < fuel" using assms(4) parent by auto
      from get_from_chain [OF this(1) assms(2) this(3,2) Some ne] obtain policy pols' where
        "xccdf_policy_model_get_policy_by_id fuel (model\<lparr>model_policies := pols\<rparr>) (Some parent_id) = Some (Some policy, model\<lparr>model_policies := pols'\<rparr>)"
        "made_policies (model\<lparr>model_policies := pols'\<rparr>)" "policy_profile policy = Some p" .
      then show ?thesis using that [of pols'] \<open>profile_extends profile = Some parent_id\<close> i False Some
        by (simp add: extended_profile_def parent)
    qed
  qed
qed

lemma add_selectors_step:
  "extended_profile fuel model profile = Some (up, model1) \<Longrightarrow>
   xccdf_policy_add_profile_selectors (Suc fuel) model policy profile =
     (case (case up of None \<Rightarrow> Some (policy, model1) | Some parent \<Rightarrow> xccdf_policy_add_profile_selectors fuel model1 policy parent) of
        None \<Rightarrow> None
      | Some (policy1, model2) \<Rightarrow>
          map_option (\<lambda>policy2. (policy2, model2)) (add_selectors policy1 (model_benchmark model2) (profile_selects profile)))"
  by (simp add: extended_profile_def)

lemma chain_adds:
  assumes "profile_chain model profile profiles" and "bench_ok (model_benchmark model)" and "\<forall>p\<in>set profiles. named_profile p"
  shows "adds_chain model profile profiles"
  using assms(1,3)
proof (induction rule: profile_chain.induct)
  case (chain_root profile)
  show ?case unfolding adds_chain_def
  proof (intro allI impI)
    fix pols fuel policy
    assume made: "made_policies (model\<lparr>model_policies := pols\<rparr>)" and "3 * length [profile] \<le> fuel + 1"
      and ok: "selects_ok (model_benchmark model) policy"
    then obtain f where fuel: "fuel = Suc f" "0 < f" by (cases fuel) auto
    obtain pols' where up: "extended_profile f (model\<lparr>model_policies := pols\<rparr>) profile = Some (None, model\<lparr>model_policies := pols'\<rparr>)"
        "made_policies (model\<lparr>model_policies := pols'\<rparr>)"
      using extended_parent [OF _ made fuel(2), of profile] chain_root by auto
    obtain policy' where "add_selectors policy (model_benchmark model) (profile_selects profile) = Some policy'"
        "selects_ok (model_benchmark model) policy'" "policy_selects policy' = policy_selects policy @ profile_selects profile"
      using add_selectors_ok [OF assms(2) ok] by blast
    then show "\<exists>policy' pols'. xccdf_policy_add_profile_selectors fuel (model\<lparr>model_policies := pols\<rparr>) policy profile
          = Some (policy', model\<lparr>model_policies := pols'\<rparr>) \<and> made_policies (model\<lparr>model_policies := pols'\<rparr>)
        \<and> policy_selects policy' = policy_selects policy @ concat (map profile_selects [profile])
        \<and> policy_profile policy' = policy_profile policy \<and> selects_ok (model_benchmark model) policy'"
      unfolding fuel(1) add_selectors_step [OF up(1)] using up(2) add_selectors_profile by auto
  qed
next
  case (chain_step profile parent profiles)
  have ih: "adds_chain model parent profiles" using chain_step by simp
  show ?case unfolding adds_chain_def
  proof (intro allI impI)
    fix pols fuel policy
    assume made: "made_policies (model\<lparr>model_policies := pols\<rparr>)" and len: "3 * length (profiles @ [profile]) \<le> fuel + 1"
      and ok: "selects_ok (model_benchmark model) policy"
    then obtain f where fuel: "fuel = Suc f" "0 < f" "3 * length profiles < f" by (cases fuel) auto
    obtain pols1 where up: "extended_profile f (model\<lparr>model_policies := pols\<rparr>) profile = Some (Some parent, model\<lparr>model_policies := pols1\<rparr>)"
        "made_policies (model\<lparr>model_policies := pols1\<rparr>)"
      using extended_parent [OF _ made fuel(2), of profile] chain_step.hyps chain_step.prems ih fuel(3) chain_nonempty by (metis Un_iff list.set_intros(1) option.inject set_append)
    obtain policy1 pols2 where one: "xccdf_policy_add_profile_selectors f (model\<lparr>model_policies := pols1\<rparr>) policy parent
          = Some (policy1, model\<lparr>model_policies := pols2\<rparr>)" "made_policies (model\<lparr>model_policies := pols2\<rparr>)"
        "policy_selects policy1 = policy_selects policy @ concat (map profile_selects profiles)"
        "policy_profile policy1 = policy_profile policy" "selects_ok (model_benchmark model) policy1"
      using ih [unfolded adds_chain_def, rule_format, OF up(2) _ ok, of f] fuel(3) by auto
    obtain policy' where two: "add_selectors policy1 (model_benchmark model) (profile_selects profile) = Some policy'"
        "selects_ok (model_benchmark model) policy'" "policy_selects policy' = policy_selects policy1 @ profile_selects profile"
      using add_selectors_ok [OF assms(2) one(5)] by blast
    have "xccdf_policy_add_profile_selectors fuel (model\<lparr>model_policies := pols\<rparr>) policy profile
        = Some (policy', model\<lparr>model_policies := pols2\<rparr>)"
      unfolding fuel(1) add_selectors_step [OF up(1)] using one(1) two(1) by simp
    then show "\<exists>policy' pols'. xccdf_policy_add_profile_selectors fuel (model\<lparr>model_policies := pols\<rparr>) policy profile
          = Some (policy', model\<lparr>model_policies := pols'\<rparr>) \<and> made_policies (model\<lparr>model_policies := pols'\<rparr>)
        \<and> policy_selects policy' = policy_selects policy @ concat (map profile_selects (profiles @ [profile]))
        \<and> policy_profile policy' = policy_profile policy \<and> selects_ok (model_benchmark model) policy'"
      using one(2-5) two(2,3) add_selectors_profile [OF two(1)] by auto
  qed
qed

section \<open>Properties\<close>

text \<open>Whatever policy is made for a profile, an item is selected by the latest selectors.\<close>

lemma selection_of_new:
  assumes "bench_ok (model_benchmark model)" and "xccdf_policy_new fuel model profile = Some (policy, model1)"
  shows "\<exists>policy'. add_selects model policy sels = Some policy' \<and> policy_selects policy' = policy_selects policy @ sels
      \<and> (\<forall>n\<in>set (bench_nodes (model_benchmark model)). xccdf_policy_is_item_selected policy' (node_id n)
           = Some (list_all (chosen (model_benchmark model) (policy_selects policy')) (butlast n)))"
proof -
  note new = policy_new_ok [OF assms]
  obtain policy' where policy': "add_selects model policy sels = Some policy'" "selects_ok (model_benchmark model) policy'"
      "selection_ok (model_benchmark model) policy'" "policy_selects policy' = policy_selects policy @ sels"
    using add_selects_ok [OF assms(1) new(1,2)] by blast
  then show ?thesis
    using own_selected_chosen [OF policy'(2)] by (auto simp: selection_ok_def list_all_iff selected_right_def)
qed

text \<open>
  C3. For a profile with a chain of the profiles that it extends, a policy is made (for every fuel from three
  times the length of the chain, so making it ends), and its selectors are those of the chain: the last
  ancestor's first, the profile's own last. After any further selectors, an item of the benchmark is selected
  just when the item and all groups around it are, each by the latest selector of the policy for its
  identifier or its cluster, or else by its own attribute. The benchmark's identifiers are distinct and its
  dictionaries hold the items of the tree; every profile of the chain that extends another has an identifier,
  and the other's is not empty; and the policies that the model already has are those of the profiles that
  their identifiers name.
\<close>

theorem selection_correct:
  assumes "bench_ok (model_benchmark model)"
    and "profile_chain model profile profiles" and "\<forall>p\<in>set profiles. named_profile p"
    and "made_policies model" and "3 * length profiles \<le> fuel"
  shows "\<exists>policy model1 policy'. xccdf_policy_new fuel model profile = Some (policy, model1)
    \<and> policy_selects policy = concat (map profile_selects profiles)
    \<and> add_selects model policy sels = Some policy' \<and> policy_selects policy' = policy_selects policy @ sels
    \<and> (\<forall>n\<in>set (bench_nodes (model_benchmark model)). xccdf_policy_is_item_selected policy' (node_id n)
         = Some (list_all (chosen (model_benchmark model) (policy_selects policy')) (butlast n)))"
proof -
  have self: "model\<lparr>model_policies := model_policies model\<rparr> = model" by simp
  obtain policy pols where new: "xccdf_policy_new fuel model profile = Some (policy, model\<lparr>model_policies := pols\<rparr>)"
      "policy_selects policy = concat (map profile_selects profiles)"
    using new_from_chain [OF chain_adds [OF assms(2,1,3)], of "model_policies model" fuel] assms(4,5) chain_nonempty [OF assms(2)]
    by (metis self)
  then show ?thesis using selection_of_new [OF assms(1) new(1), of sels] by blast
qed

text \<open>A benchmark of a group with a rule.\<close>

definition small_base :: "string \<Rightarrow> xccdf_item_base" where
  "small_base i = \<lparr>item_id = i, item_cluster_id = None, item_weight = 1, item_selected = True, item_platforms = []\<rparr>"

definition small_rule :: xccdf_item where
  "small_rule = XCCDF_RULE (small_base ''r'') \<lparr>rule_role = 0, rule_severity = 0, rule_checks = []\<rparr>"

definition small_group :: xccdf_item where
  "small_group = XCCDF_GROUP (small_base ''g'') [] [small_rule]"

definition small_root :: xccdf_item where
  "small_root = XCCDF_BENCHMARK (small_base ''b'') [] [small_group]"

definition small_model :: "unit xccdf_policy_model" where
  "small_model =
     \<lparr>model_benchmark = \<lparr>bench_item = small_root,
        bench_items_dict = snd (oscap_htable_add (snd (oscap_htable_add oscap_htable_new ''r'' [small_rule, small_group, small_root]))
          ''g'' [small_group, small_root]),
        bench_clusters_dict = oscap_htable_new, bench_profiles = [], bench_cpe_list = None, bench_cpe_lang_model = None,
        bench_version = ''1.2''\<rparr>,
      model_tailoring = None, model_policies = [], model_callbacks = [], model_engines = []\<rparr>"

lemma small_nodes: "bench_nodes (model_benchmark small_model) = [[small_group, small_root], [small_rule, small_group, small_root]]"
  by (simp add: small_model_def bench_nodes_def small_root_def) (simp add: small_group_def small_rule_def)

lemma small_members:
  "xccdf_benchmark_get_member (model_benchmark small_model) i =
     (if i = ''g'' then Some [small_group, small_root] else if i = ''r'' then Some [small_rule, small_group, small_root] else None)"
  by (simp add: xccdf_benchmark_get_member_def small_model_def htable_dictionary.get_add htable_dictionary.valid_add
      htable_dictionary.empty_valid htable_dictionary.get_empty)

lemma small_bench_ok: "bench_ok (model_benchmark small_model)"
proof -
  have ids: "xccdf_item_get_id small_group = ''g''" "xccdf_item_get_id small_rule = ''r''"
    by (simp_all add: small_group_def small_rule_def small_base_def)
  have "is_group small_group" by (simp add: small_group_def)
  moreover have "bench_item (model_benchmark small_model) = small_root" "bench_clusters_dict (model_benchmark small_model) = oscap_htable_new"
    by (simp_all add: small_model_def)
  ultimately show ?thesis
    by (simp add: bench_ok_def small_nodes small_members ids member_ok_def htable_dictionary.get_empty)
      (auto simp: small_root_def)
qed

text \<open>A profile that takes the group out, and one that extends it.\<close>

definition base_profile :: xccdf_profile where
  "base_profile = default_profile\<lparr>profile_id := Some ''base'', profile_selects := [\<lparr>select_item = ''g'', select_selected = False\<rparr>]\<rparr>"

definition child_profile :: xccdf_profile where
  "child_profile = default_profile\<lparr>profile_id := Some ''child'', profile_extends := Some ''base'',
     profile_selects := [\<lparr>select_item = ''r'', select_selected = True\<rparr>]\<rparr>"

definition profiles_model :: "unit xccdf_policy_model" where
  "profiles_model = small_model\<lparr>model_benchmark := model_benchmark small_model\<lparr>bench_profiles := [base_profile, child_profile]\<rparr>\<rparr>"

lemma profiles_bench:
  "bench_nodes (model_benchmark profiles_model) = bench_nodes (model_benchmark small_model)"
  "xccdf_benchmark_get_member (model_benchmark profiles_model) i = xccdf_benchmark_get_member (model_benchmark small_model) i"
  "concerned (model_benchmark profiles_model) sel = concerned (model_benchmark small_model) sel"
  by (simp_all add: profiles_model_def bench_nodes_def xccdf_benchmark_get_member_def concerned_def member_items_def
      xccdf_benchmark_get_cluster_items_def cong: option.case_cong)

lemma profiles_bench_ok: "bench_ok (model_benchmark profiles_model)"
proof -
  have same: "bench_item (model_benchmark profiles_model) = bench_item (model_benchmark small_model)"
    "bench_clusters_dict (model_benchmark profiles_model) = bench_clusters_dict (model_benchmark small_model)"
    by (simp_all add: profiles_model_def)
  moreover have member: "member_ok (model_benchmark profiles_model) i n = member_ok (model_benchmark small_model) i n" for i n
    by (simp add: member_ok_def profiles_bench same(1))
  moreover have "cluster_ok (model_benchmark profiles_model) c = cluster_ok (model_benchmark small_model) c" for c
    by (simp add: cluster_ok_def member cong: hitem.case_cong)
  ultimately show ?thesis using small_bench_ok by (simp add: bench_ok_def profiles_bench)
qed

lemma profiles_chain: "profile_chain profiles_model child_profile ([base_profile] @ [child_profile])"
proof (rule profile_chain.chain_step)
  show "parent_profile profiles_model child_profile = Some base_profile"
    by (simp add: parent_profile_def child_profile_def default_profile_def find_profile_def profiles_model_def small_model_def
        xccdf_benchmark_get_profile_by_id_def base_profile_def streq_eq)
  show "profile_chain profiles_model base_profile [base_profile]"
    by (rule profile_chain.chain_root) (simp add: parent_profile_def base_profile_def default_profile_def)
qed

lemma selection_correct_witness:
  "\<exists>policy model1 policy'. xccdf_policy_new 6 profiles_model child_profile = Some (policy, model1)
     \<and> add_selects profiles_model policy [\<lparr>select_item = ''r'', select_selected = True\<rparr>] = Some policy'
     \<and> xccdf_policy_is_item_selected policy' ''r'' = Some False"
proof -
  let ?sel = "\<lparr>select_item = ''r'', select_selected = True\<rparr>" and ?out = "\<lparr>select_item = ''g'', select_selected = False\<rparr>"
  have "\<forall>p\<in>set ([base_profile] @ [child_profile]). named_profile p" "made_policies profiles_model"
    by (simp_all add: named_profile_def base_profile_def child_profile_def default_profile_def made_policies_def profiles_model_def small_model_def)
  moreover have "concat (map profile_selects ([base_profile] @ [child_profile])) = [?out, ?sel]"
    by (simp add: base_profile_def child_profile_def)
  ultimately obtain policy model1 policy' where
    policy': "xccdf_policy_new 6 profiles_model child_profile = Some (policy, model1)"
      "add_selects profiles_model policy [?sel] = Some policy'"
      "xccdf_policy_is_item_selected policy' (node_id [small_rule, small_group, small_root])
        = Some (list_all (chosen (model_benchmark profiles_model) [?out, ?sel, ?sel]) [small_rule, small_group])"
    using selection_correct [OF profiles_bench_ok profiles_chain, of 6 "[?sel]"] by (auto simp: profiles_bench small_nodes)
  have "concerned (model_benchmark small_model) ?out = {''g''}" "concerned (model_benchmark small_model) ?sel = {''r''}"
    by (simp_all add: concerned_def member_items_def small_members)
  then have "\<not> chosen (model_benchmark profiles_model) [?out, ?sel, ?sel] small_group"
    by (simp add: chosen_def latest_select_def small_group_def small_base_def profiles_bench)
  then show ?thesis using policy' by (auto simp: small_rule_def small_base_def)
qed

end
