(* ===== verification/Cvss.thy ===== *)
theory Cvss
  imports Complex_Main Oscap_Util
begin

text \<open>
  The Common Vulnerability Scoring System, version 2 (\<open>CVSS/cvss.c\<close>): metrics of an impact in vectors and
  in elements of XML documents, and the scores computed from their weights.

  A \<open>float\<close> or \<open>double\<close> is a rational number, None for NaN. Every operation is rounded by a parameter: \<open>rf\<close>
  for \<open>float\<close>, \<open>rd\<close> for \<open>double\<close>. Converting NaN or a number out of range to \<open>int\<close> is undefined, which
  is None as the result of a function, as are failed assertions.
\<close>

section \<open>Keys and values\<close>

abbreviation CVSS_NONE :: nat where "CVSS_NONE \<equiv> 0"
abbreviation CVSS_BASE :: nat where "CVSS_BASE \<equiv> 256"
abbreviation CVSS_TEMPORAL :: nat where "CVSS_TEMPORAL \<equiv> 512"
abbreviation CVSS_ENVIRONMENTAL :: nat where "CVSS_ENVIRONMENTAL \<equiv> 768"

text \<open>A key is a category and the index of a metric in it (\<open>enum cvss_key\<close>).\<close>

abbreviation CVSS_KEY_NONE :: nat where "CVSS_KEY_NONE \<equiv> CVSS_NONE"
abbreviation CVSS_KEY_access_vector :: nat where "CVSS_KEY_access_vector \<equiv> 256"
abbreviation CVSS_KEY_access_complexity :: nat where "CVSS_KEY_access_complexity \<equiv> 257"
abbreviation CVSS_KEY_authentication :: nat where "CVSS_KEY_authentication \<equiv> 258"
abbreviation CVSS_KEY_confidentiality_impact :: nat where "CVSS_KEY_confidentiality_impact \<equiv> 259"
abbreviation CVSS_KEY_integrity_impact :: nat where "CVSS_KEY_integrity_impact \<equiv> 260"
abbreviation CVSS_KEY_availability_impact :: nat where "CVSS_KEY_availability_impact \<equiv> 261"
abbreviation CVSS_KEY_exploitability :: nat where "CVSS_KEY_exploitability \<equiv> 512"
abbreviation CVSS_KEY_remediation_level :: nat where "CVSS_KEY_remediation_level \<equiv> 513"
abbreviation CVSS_KEY_report_confidence :: nat where "CVSS_KEY_report_confidence \<equiv> 514"
abbreviation CVSS_KEY_collateral_damage_potential :: nat where "CVSS_KEY_collateral_damage_potential \<equiv> 768"
abbreviation CVSS_KEY_target_distribution :: nat where "CVSS_KEY_target_distribution \<equiv> 769"
abbreviation CVSS_KEY_confidentiality_requirement :: nat where "CVSS_KEY_confidentiality_requirement \<equiv> 770"
abbreviation CVSS_KEY_integrity_requirement :: nat where "CVSS_KEY_integrity_requirement \<equiv> 771"
abbreviation CVSS_KEY_availability_requirement :: nat where "CVSS_KEY_availability_requirement \<equiv> 772"
abbreviation CVSS_KEY_BASE_NUM :: nat where "CVSS_KEY_BASE_NUM \<equiv> 6"
abbreviation CVSS_KEY_TEMPORAL_NUM :: nat where "CVSS_KEY_TEMPORAL_NUM \<equiv> 3"
abbreviation CVSS_KEY_ENVIRONMENTAL_NUM :: nat where "CVSS_KEY_ENVIRONMENTAL_NUM \<equiv> 5"

definition CVSS_CATEGORY :: "nat \<Rightarrow> nat" where
  "CVSS_CATEGORY key = key div 256 * 256"

definition CVSS_KEY_IDX :: "nat \<Rightarrow> nat" where
  "CVSS_KEY_IDX key = key mod 256"

text \<open>The values of the metrics.\<close>

abbreviation CVSS_AV_NOT_SET :: nat where "CVSS_AV_NOT_SET \<equiv> 0"
abbreviation CVSS_AV_LOCAL :: nat where "CVSS_AV_LOCAL \<equiv> 1"
abbreviation CVSS_AV_ADJACENT_NETWORK :: nat where "CVSS_AV_ADJACENT_NETWORK \<equiv> 2"
abbreviation CVSS_AV_NETWORK :: nat where "CVSS_AV_NETWORK \<equiv> 3"
abbreviation CVSS_AC_NOT_SET :: nat where "CVSS_AC_NOT_SET \<equiv> 0"
abbreviation CVSS_AC_HIGH :: nat where "CVSS_AC_HIGH \<equiv> 1"
abbreviation CVSS_AC_MEDIUM :: nat where "CVSS_AC_MEDIUM \<equiv> 2"
abbreviation CVSS_AC_LOW :: nat where "CVSS_AC_LOW \<equiv> 3"
abbreviation CVSS_AU_NOT_SET :: nat where "CVSS_AU_NOT_SET \<equiv> 0"
abbreviation CVSS_AU_MULTIPLE :: nat where "CVSS_AU_MULTIPLE \<equiv> 1"
abbreviation CVSS_AU_SINGLE :: nat where "CVSS_AU_SINGLE \<equiv> 2"
abbreviation CVSS_AU_NONE :: nat where "CVSS_AU_NONE \<equiv> 3"
abbreviation CVSS_IMP_NOT_SET :: nat where "CVSS_IMP_NOT_SET \<equiv> 0"
abbreviation CVSS_IMP_NONE :: nat where "CVSS_IMP_NONE \<equiv> 1"
abbreviation CVSS_IMP_PARTIAL :: nat where "CVSS_IMP_PARTIAL \<equiv> 2"
abbreviation CVSS_IMP_COMPLETE :: nat where "CVSS_IMP_COMPLETE \<equiv> 3"
abbreviation CVSS_E_NOT_DEFINED :: nat where "CVSS_E_NOT_DEFINED \<equiv> 0"
abbreviation CVSS_E_UNPROVEN :: nat where "CVSS_E_UNPROVEN \<equiv> 1"
abbreviation CVSS_E_PROOF_OF_CONCEPT :: nat where "CVSS_E_PROOF_OF_CONCEPT \<equiv> 2"
abbreviation CVSS_E_FUNCTIONAL :: nat where "CVSS_E_FUNCTIONAL \<equiv> 3"
abbreviation CVSS_E_HIGH :: nat where "CVSS_E_HIGH \<equiv> 4"
abbreviation CVSS_RL_NOT_DEFINED :: nat where "CVSS_RL_NOT_DEFINED \<equiv> 0"
abbreviation CVSS_RL_OFFICIAL_FIX :: nat where "CVSS_RL_OFFICIAL_FIX \<equiv> 1"
abbreviation CVSS_RL_TEMPORARY_FIX :: nat where "CVSS_RL_TEMPORARY_FIX \<equiv> 2"
abbreviation CVSS_RL_WORKAROUND :: nat where "CVSS_RL_WORKAROUND \<equiv> 3"
abbreviation CVSS_RL_UNAVAILABLE :: nat where "CVSS_RL_UNAVAILABLE \<equiv> 4"
abbreviation CVSS_RC_NOT_DEFINED :: nat where "CVSS_RC_NOT_DEFINED \<equiv> 0"
abbreviation CVSS_RC_UNCONFIRMED :: nat where "CVSS_RC_UNCONFIRMED \<equiv> 1"
abbreviation CVSS_RC_UNCORROBORATED :: nat where "CVSS_RC_UNCORROBORATED \<equiv> 2"
abbreviation CVSS_RC_CONFIRMED :: nat where "CVSS_RC_CONFIRMED \<equiv> 3"
abbreviation CVSS_CDP_NOT_DEFINED :: nat where "CVSS_CDP_NOT_DEFINED \<equiv> 0"
abbreviation CVSS_CDP_NONE :: nat where "CVSS_CDP_NONE \<equiv> 1"
abbreviation CVSS_CDP_LOW :: nat where "CVSS_CDP_LOW \<equiv> 2"
abbreviation CVSS_CDP_LOW_MEDIUM :: nat where "CVSS_CDP_LOW_MEDIUM \<equiv> 3"
abbreviation CVSS_CDP_MEDIUM_HIGH :: nat where "CVSS_CDP_MEDIUM_HIGH \<equiv> 4"
abbreviation CVSS_CDP_HIGH :: nat where "CVSS_CDP_HIGH \<equiv> 5"
abbreviation CVSS_TD_NOT_DEFINED :: nat where "CVSS_TD_NOT_DEFINED \<equiv> 0"
abbreviation CVSS_TD_NONE :: nat where "CVSS_TD_NONE \<equiv> 1"
abbreviation CVSS_TD_LOW :: nat where "CVSS_TD_LOW \<equiv> 2"
abbreviation CVSS_TD_MEDIUM :: nat where "CVSS_TD_MEDIUM \<equiv> 3"
abbreviation CVSS_TD_HIGH :: nat where "CVSS_TD_HIGH \<equiv> 4"
abbreviation CVSS_REQ_NOT_DEFINED :: nat where "CVSS_REQ_NOT_DEFINED \<equiv> 0"
abbreviation CVSS_REQ_LOW :: nat where "CVSS_REQ_LOW \<equiv> 1"
abbreviation CVSS_REQ_MEDIUM :: nat where "CVSS_REQ_MEDIUM \<equiv> 2"
abbreviation CVSS_REQ_HIGH :: nat where "CVSS_REQ_HIGH \<equiv> 3"

record cvss_keytab_entry =
  keytab_key :: nat
  keytab_human_str :: string
  keytab_xml_str :: cstr

definition CVSS_KEYTAB :: "cvss_keytab_entry list" where
  "CVSS_KEYTAB =
    [\<lparr>keytab_key = CVSS_KEY_access_vector, keytab_human_str = ''Access Vector'', keytab_xml_str = Some ''access-vector''\<rparr>,
     \<lparr>keytab_key = CVSS_KEY_access_complexity, keytab_human_str = ''Access Complexity'', keytab_xml_str = Some ''access-complexity''\<rparr>,
     \<lparr>keytab_key = CVSS_KEY_authentication, keytab_human_str = ''Authentication'', keytab_xml_str = Some ''authentication''\<rparr>,
     \<lparr>keytab_key = CVSS_KEY_confidentiality_impact, keytab_human_str = ''Confidentiality Impact'', keytab_xml_str = Some ''confidentiality-impact''\<rparr>,
     \<lparr>keytab_key = CVSS_KEY_integrity_impact, keytab_human_str = ''Integrity Impact'', keytab_xml_str = Some ''integrity-impact''\<rparr>,
     \<lparr>keytab_key = CVSS_KEY_availability_impact, keytab_human_str = ''Availability Impact'', keytab_xml_str = Some ''availability-impact''\<rparr>,
     \<lparr>keytab_key = CVSS_KEY_exploitability, keytab_human_str = ''Exploitability'', keytab_xml_str = Some ''exploitability''\<rparr>,
     \<lparr>keytab_key = CVSS_KEY_remediation_level, keytab_human_str = ''Remediation Level'', keytab_xml_str = Some ''remediation-level''\<rparr>,
     \<lparr>keytab_key = CVSS_KEY_report_confidence, keytab_human_str = ''Report Confidence'', keytab_xml_str = Some ''report-confidence''\<rparr>,
     \<lparr>keytab_key = CVSS_KEY_collateral_damage_potential, keytab_human_str = ''Collateral Damage Potential'', keytab_xml_str = Some ''collateral-damage-potential''\<rparr>,
     \<lparr>keytab_key = CVSS_KEY_target_distribution, keytab_human_str = ''Target Distribution'', keytab_xml_str = Some ''target-distribution''\<rparr>,
     \<lparr>keytab_key = CVSS_KEY_confidentiality_requirement, keytab_human_str = ''Confidentiality Requirement'', keytab_xml_str = Some ''confidentiality-requirement''\<rparr>,
     \<lparr>keytab_key = CVSS_KEY_integrity_requirement, keytab_human_str = ''Integrity Requirement'', keytab_xml_str = Some ''integrity-requirement''\<rparr>,
     \<lparr>keytab_key = CVSS_KEY_availability_requirement, keytab_human_str = ''Availability Requirement'', keytab_xml_str = Some ''availability-requirement''\<rparr>]"

definition CVSS_KEYTAB_END :: cvss_keytab_entry where
  "CVSS_KEYTAB_END = \<lparr>keytab_key = CVSS_KEY_NONE, keytab_human_str = ''Invalid entry'', keytab_xml_str = None\<rparr>"

text \<open>Looked up by key or, with the key 0, by the name of an element. None is the failed assertion.\<close>

fun keytab_find :: "cvss_keytab_entry list \<Rightarrow> nat \<Rightarrow> cstr \<Rightarrow> cvss_keytab_entry" where
  "keytab_find [] key elname = CVSS_KEYTAB_END"
| "keytab_find (e # es) key elname =
     (if keytab_key e = key \<or> oscap_streq (keytab_xml_str e) elname then e else keytab_find es key elname)"

definition cvss_keytab :: "nat \<Rightarrow> cstr \<Rightarrow> cvss_keytab_entry option" where
  "cvss_keytab key elname =
     (if key = CVSS_KEY_NONE \<or> elname = None then Some (keytab_find CVSS_KEYTAB key elname) else None)"

record cvss_valtab_entry =
  valtab_key :: nat
  valtab_value :: nat
  valtab_human_str :: string
  valtab_vector_str :: string
  valtab_xml_str :: cstr
  valtab_weight :: "rat option"

abbreviation valtab_entry :: "nat \<Rightarrow> nat \<Rightarrow> string \<Rightarrow> string \<Rightarrow> cstr \<Rightarrow> rat option \<Rightarrow> cvss_valtab_entry" where
  "valtab_entry key val human vector xml weight \<equiv>
     \<lparr>valtab_key = key, valtab_value = val, valtab_human_str = human, valtab_vector_str = vector, valtab_xml_str = xml,
      valtab_weight = weight\<rparr>"

definition CVSS_VALTAB :: "cvss_valtab_entry list" where
  "CVSS_VALTAB =
    [valtab_entry CVSS_KEY_access_vector CVSS_AV_NOT_SET ''Not Set'' ''AV:-'' (None) (None),
     valtab_entry CVSS_KEY_access_vector CVSS_AV_LOCAL ''Local'' ''AV:L'' (Some ''LOCAL'') (Some (395 / 1000)),
     valtab_entry CVSS_KEY_access_vector CVSS_AV_ADJACENT_NETWORK ''Adjacent Network'' ''AV:A'' (Some ''ADJACENT_NETWORK'') (Some (646 / 1000)),
     valtab_entry CVSS_KEY_access_vector CVSS_AV_NETWORK ''Network'' ''AV:N'' (Some ''NETWORK'') (Some (1000 / 1000)),
     valtab_entry CVSS_KEY_access_complexity CVSS_AC_NOT_SET ''Not Set'' ''AC:-'' (None) (None),
     valtab_entry CVSS_KEY_access_complexity CVSS_AC_HIGH ''High'' ''AC:H'' (Some ''HIGH'') (Some (350 / 1000)),
     valtab_entry CVSS_KEY_access_complexity CVSS_AC_MEDIUM ''Medium'' ''AC:M'' (Some ''MEDIUM'') (Some (610 / 1000)),
     valtab_entry CVSS_KEY_access_complexity CVSS_AC_LOW ''Low'' ''AC:L'' (Some ''LOW'') (Some (710 / 1000)),
     valtab_entry CVSS_KEY_authentication CVSS_AU_NOT_SET ''Not Set'' ''AU:-'' (None) (None),
     valtab_entry CVSS_KEY_authentication CVSS_AU_MULTIPLE ''Multiple Instances'' ''AU:M'' (Some ''MULTIPLE_INSTANCES'') (Some (450 / 1000)),
     valtab_entry CVSS_KEY_authentication CVSS_AU_SINGLE ''Single Instance'' ''AU:S'' (Some ''SINGLE_INSTANCE'') (Some (560 / 1000)),
     valtab_entry CVSS_KEY_authentication CVSS_AU_NONE ''None'' ''AU:N'' (Some ''NONE'') (Some (704 / 1000)),
     valtab_entry CVSS_KEY_confidentiality_impact CVSS_IMP_NOT_SET ''Not Set'' ''C:-'' (None) (None),
     valtab_entry CVSS_KEY_confidentiality_impact CVSS_IMP_NONE ''None'' ''C:N'' (Some ''NONE'') (Some (0 / 1000)),
     valtab_entry CVSS_KEY_confidentiality_impact CVSS_IMP_PARTIAL ''Partial'' ''C:P'' (Some ''PARTIAL'') (Some (275 / 1000)),
     valtab_entry CVSS_KEY_confidentiality_impact CVSS_IMP_COMPLETE ''Complete'' ''C:C'' (Some ''COMPLETE'') (Some (660 / 1000)),
     valtab_entry CVSS_KEY_integrity_impact CVSS_IMP_NOT_SET ''Not Set'' ''I:-'' (None) (None),
     valtab_entry CVSS_KEY_integrity_impact CVSS_IMP_NONE ''None'' ''I:N'' (Some ''NONE'') (Some (0 / 1000)),
     valtab_entry CVSS_KEY_integrity_impact CVSS_IMP_PARTIAL ''Partial'' ''I:P'' (Some ''PARTIAL'') (Some (275 / 1000)),
     valtab_entry CVSS_KEY_integrity_impact CVSS_IMP_COMPLETE ''Complete'' ''I:C'' (Some ''COMPLETE'') (Some (660 / 1000)),
     valtab_entry CVSS_KEY_availability_impact CVSS_IMP_NOT_SET ''Not Set'' ''A:-'' (None) (None),
     valtab_entry CVSS_KEY_availability_impact CVSS_IMP_NONE ''None'' ''A:N'' (Some ''NONE'') (Some (0 / 1000)),
     valtab_entry CVSS_KEY_availability_impact CVSS_IMP_PARTIAL ''Partial'' ''A:P'' (Some ''PARTIAL'') (Some (275 / 1000)),
     valtab_entry CVSS_KEY_availability_impact CVSS_IMP_COMPLETE ''Complete'' ''A:C'' (Some ''COMPLETE'') (Some (660 / 1000)),
     valtab_entry CVSS_KEY_exploitability CVSS_E_NOT_DEFINED ''Not Defined'' ''E:ND'' (Some ''NOT_DEFINED'') (Some (1000 / 1000)),
     valtab_entry CVSS_KEY_exploitability CVSS_E_UNPROVEN ''Unproven'' ''E:U'' (Some ''UNPROVEN'') (Some (850 / 1000)),
     valtab_entry CVSS_KEY_exploitability CVSS_E_PROOF_OF_CONCEPT ''Proof-of-Concept'' ''E:POC'' (Some ''PROOF_OF_CONCEPT'') (Some (900 / 1000)),
     valtab_entry CVSS_KEY_exploitability CVSS_E_FUNCTIONAL ''Functional'' ''E:F'' (Some ''FUNCTIONAL'') (Some (950 / 1000)),
     valtab_entry CVSS_KEY_exploitability CVSS_E_HIGH ''High'' ''E:H'' (Some ''HIGH'') (Some (1000 / 1000)),
     valtab_entry CVSS_KEY_remediation_level CVSS_RL_NOT_DEFINED ''Not Defined'' ''RL:ND'' (Some ''NOT_DEFINED'') (Some (1000 / 1000)),
     valtab_entry CVSS_KEY_remediation_level CVSS_RL_OFFICIAL_FIX ''Official Fix'' ''RL:OF'' (Some ''OFFICIAL_FIX'') (Some (870 / 1000)),
     valtab_entry CVSS_KEY_remediation_level CVSS_RL_TEMPORARY_FIX ''Temporary Fix'' ''RL:TF'' (Some ''TEMPORARY_FIX'') (Some (900 / 1000)),
     valtab_entry CVSS_KEY_remediation_level CVSS_RL_WORKAROUND ''Workaround'' ''RL:W'' (Some ''WORKAROUND'') (Some (950 / 1000)),
     valtab_entry CVSS_KEY_remediation_level CVSS_RL_UNAVAILABLE ''Unavailable'' ''RL:U'' (Some ''UNAVAILABLE'') (Some (1000 / 1000)),
     valtab_entry CVSS_KEY_report_confidence CVSS_RC_NOT_DEFINED ''Not Defined'' ''RC:ND'' (Some ''NOT_DEFINED'') (Some (1000 / 1000)),
     valtab_entry CVSS_KEY_report_confidence CVSS_RC_UNCONFIRMED ''Unconfirmed'' ''RC:UC'' (Some ''UNCONFIRMED'') (Some (900 / 1000)),
     valtab_entry CVSS_KEY_report_confidence CVSS_RC_UNCORROBORATED ''Uncorroborated'' ''RC:UR'' (Some ''UNCORROBORATED'') (Some (950 / 1000)),
     valtab_entry CVSS_KEY_report_confidence CVSS_RC_CONFIRMED ''Confirmed'' ''RC:C'' (Some ''CONFIRMED'') (Some (1000 / 1000)),
     valtab_entry CVSS_KEY_collateral_damage_potential CVSS_CDP_NOT_DEFINED ''Not Defined'' ''CDP:ND'' (Some ''NOT_DEFINED'') (Some (0 / 1000)),
     valtab_entry CVSS_KEY_collateral_damage_potential CVSS_CDP_NONE ''None'' ''CDP:N'' (Some ''NONE'') (Some (0 / 1000)),
     valtab_entry CVSS_KEY_collateral_damage_potential CVSS_CDP_LOW ''Low'' ''CDP:L'' (Some ''LOW'') (Some (100 / 1000)),
     valtab_entry CVSS_KEY_collateral_damage_potential CVSS_CDP_LOW_MEDIUM ''Low-Medium'' ''CDP:LM'' (Some ''LOW_MEDIUM'') (Some (300 / 1000)),
     valtab_entry CVSS_KEY_collateral_damage_potential CVSS_CDP_MEDIUM_HIGH ''Medium-High'' ''CDP:MH'' (Some ''MEDIUM_HIGH'') (Some (400 / 1000)),
     valtab_entry CVSS_KEY_collateral_damage_potential CVSS_CDP_HIGH ''High'' ''CDP:H'' (Some ''HIGH'') (Some (500 / 1000)),
     valtab_entry CVSS_KEY_target_distribution CVSS_TD_NOT_DEFINED ''Not Defined'' ''TD:ND'' (Some ''NOT_DEFINED'') (Some (1000 / 1000)),
     valtab_entry CVSS_KEY_target_distribution CVSS_TD_NONE ''None'' ''TD:N'' (Some ''NONE'') (Some (0 / 1000)),
     valtab_entry CVSS_KEY_target_distribution CVSS_TD_LOW ''Low'' ''TD:L'' (Some ''LOW'') (Some (250 / 1000)),
     valtab_entry CVSS_KEY_target_distribution CVSS_TD_MEDIUM ''Medium'' ''TD:M'' (Some ''MEDIUM'') (Some (750 / 1000)),
     valtab_entry CVSS_KEY_target_distribution CVSS_TD_HIGH ''High'' ''TD:H'' (Some ''HIGH'') (Some (1000 / 1000)),
     valtab_entry CVSS_KEY_confidentiality_requirement CVSS_REQ_NOT_DEFINED ''Not Defined'' ''CR:ND'' (Some ''NOT_DEFINED'') (Some (1000 / 1000)),
     valtab_entry CVSS_KEY_confidentiality_requirement CVSS_REQ_LOW ''Low'' ''CR:L'' (Some ''LOW'') (Some (500 / 1000)),
     valtab_entry CVSS_KEY_confidentiality_requirement CVSS_REQ_MEDIUM ''Medium'' ''CR:M'' (Some ''MEDIUM'') (Some (1000 / 1000)),
     valtab_entry CVSS_KEY_confidentiality_requirement CVSS_REQ_HIGH ''High'' ''CR:H'' (Some ''HIGH'') (Some (1510 / 1000)),
     valtab_entry CVSS_KEY_integrity_requirement CVSS_REQ_NOT_DEFINED ''Not Defined'' ''IR:ND'' (Some ''NOT_DEFINED'') (Some (1000 / 1000)),
     valtab_entry CVSS_KEY_integrity_requirement CVSS_REQ_LOW ''Low'' ''IR:L'' (Some ''LOW'') (Some (500 / 1000)),
     valtab_entry CVSS_KEY_integrity_requirement CVSS_REQ_MEDIUM ''Medium'' ''IR:M'' (Some ''MEDIUM'') (Some (1000 / 1000)),
     valtab_entry CVSS_KEY_integrity_requirement CVSS_REQ_HIGH ''High'' ''IR:H'' (Some ''HIGH'') (Some (1510 / 1000)),
     valtab_entry CVSS_KEY_availability_requirement CVSS_REQ_NOT_DEFINED ''Not Defined'' ''AR:ND'' (Some ''NOT_DEFINED'') (Some (1000 / 1000)),
     valtab_entry CVSS_KEY_availability_requirement CVSS_REQ_LOW ''Low'' ''AR:L'' (Some ''LOW'') (Some (500 / 1000)),
     valtab_entry CVSS_KEY_availability_requirement CVSS_REQ_MEDIUM ''Medium'' ''AR:M'' (Some ''MEDIUM'') (Some (1000 / 1000)),
     valtab_entry CVSS_KEY_availability_requirement CVSS_REQ_HIGH ''High'' ''AR:H'' (Some ''HIGH'') (Some (1510 / 1000))]"

definition CVSS_VALTAB_END :: cvss_valtab_entry where
  "CVSS_VALTAB_END = valtab_entry CVSS_KEY_NONE 0 ''Invalid value'' ''!'' None None"

text \<open>Looked up by key and value, by vector string, or by key and the value of an element.\<close>

fun valtab_find :: "cvss_valtab_entry list \<Rightarrow> nat \<Rightarrow> nat \<Rightarrow> cstr \<Rightarrow> cstr \<Rightarrow> cvss_valtab_entry" where
  "valtab_find [] key val vec_str xmlval = CVSS_VALTAB_END"
| "valtab_find (entry # entries) key val vec_str xmlval =
     (if key = valtab_key entry \<and> (if xmlval \<noteq> None then oscap_streq (valtab_xml_str entry) xmlval else val = valtab_value entry)
         \<or> oscap_streq vec_str (Some (valtab_vector_str entry))
      then entry else valtab_find entries key val vec_str xmlval)"

definition cvss_valtab :: "nat \<Rightarrow> nat \<Rightarrow> cstr \<Rightarrow> cstr \<Rightarrow> cvss_valtab_entry" where
  "cvss_valtab key val vec_str xmlval = valtab_find CVSS_VALTAB key val vec_str xmlval"

section \<open>Impacts\<close>

text \<open>The union of the metrics of a category is one array with room for the most (6).\<close>

record cvss_metrics =
  category :: nat
  score :: "rat option"
  source :: cstr
  upgraded_from_version :: cstr
  generated_on_datetime :: cstr
  metrics_ANY :: "nat list"

record cvss_impact =
  base_metrics :: "cvss_metrics option"
  temporal_metrics :: "cvss_metrics option"
  environmental_metrics :: "cvss_metrics option"

definition cvss_impact_new :: cvss_impact where
  "cvss_impact_new = \<lparr>base_metrics = None, temporal_metrics = None, environmental_metrics = None\<rparr>"

definition cvss_metrics_new :: "nat \<Rightarrow> cvss_metrics" where
  "cvss_metrics_new cat = \<lparr>category = cat, score = None, source = None, upgraded_from_version = None,
     generated_on_datetime = None, metrics_ANY = replicate 6 0\<rparr>"

text \<open>The pointer to the metrics of a category, to read and to write; None is the failed assertion.\<close>

definition cvss_impact_metricsptr :: "cvss_impact \<Rightarrow> nat \<Rightarrow> cvss_metrics option option" where
  "cvss_impact_metricsptr impact cat =
     (if cat = CVSS_BASE then Some (base_metrics impact)
      else if cat = CVSS_TEMPORAL then Some (temporal_metrics impact)
      else if cat = CVSS_ENVIRONMENTAL then Some (environmental_metrics impact) else None)"

definition write_metricsptr :: "cvss_impact \<Rightarrow> nat \<Rightarrow> cvss_metrics option \<Rightarrow> cvss_impact" where
  "write_metricsptr impact cat m =
     (if cat = CVSS_BASE then impact\<lparr>base_metrics := m\<rparr>
      else if cat = CVSS_TEMPORAL then impact\<lparr>temporal_metrics := m\<rparr>
      else if cat = CVSS_ENVIRONMENTAL then impact\<lparr>environmental_metrics := m\<rparr> else impact)"

definition cvss_impact_set_metrics :: "cvss_impact \<Rightarrow> cvss_metrics \<Rightarrow> cvss_impact option" where
  "cvss_impact_set_metrics impact m =
     map_option (\<lambda>old. write_metricsptr impact (category m) (Some m)) (cvss_impact_metricsptr impact (category m))"

text \<open>With another category its assertion fails; 0 is what stands after it.\<close>

definition cvss_metrics_component_num :: "cvss_metrics \<Rightarrow> nat" where
  "cvss_metrics_component_num m =
     (if category m = CVSS_BASE then CVSS_KEY_BASE_NUM
      else if category m = CVSS_TEMPORAL then CVSS_KEY_TEMPORAL_NUM
      else if category m = CVSS_ENVIRONMENTAL then CVSS_KEY_ENVIRONMENTAL_NUM else 0)"

definition cvss_metrics_is_valid :: "cvss_metrics option \<Rightarrow> bool" where
  "cvss_metrics_is_valid m = (case m of
     None \<Rightarrow> False
   | Some m \<Rightarrow> category m = CVSS_BASE \<longrightarrow> list_all (\<lambda>i. metrics_ANY m ! i \<noteq> 0) [0..<CVSS_KEY_BASE_NUM])"

definition cvss_metrics_clone :: "cvss_metrics \<Rightarrow> cvss_metrics" where
  "cvss_metrics_clone met = (cvss_metrics_new (category met))\<lparr>score := score met, source := source met,
     upgraded_from_version := upgraded_from_version met, generated_on_datetime := generated_on_datetime met,
     metrics_ANY := take (cvss_metrics_component_num met) (metrics_ANY met) @ replicate (6 - cvss_metrics_component_num met) 0\<rparr>"

definition cvss_impact_clone :: "cvss_impact \<Rightarrow> cvss_impact" where
  "cvss_impact_clone imp = \<lparr>base_metrics = map_option cvss_metrics_clone (base_metrics imp),
     temporal_metrics = map_option cvss_metrics_clone (temporal_metrics imp),
     environmental_metrics = map_option cvss_metrics_clone (environmental_metrics imp)\<rparr>"

section \<open>Vectors\<close>

text \<open>One component of a vector; None is the syntax error.\<close>

definition read_component :: "cvss_impact \<Rightarrow> string \<Rightarrow> cvss_impact option" where
  "read_component impact component =
     (let entry = cvss_valtab 0 0 (Some component) None in
      if valtab_key entry = CVSS_KEY_NONE then None
      else (case cvss_impact_metricsptr impact (CVSS_CATEGORY (valtab_key entry)) of
              None \<Rightarrow> None
            | Some old \<Rightarrow>
                (let m = (case old of None \<Rightarrow> cvss_metrics_new (CVSS_CATEGORY (valtab_key entry)) | Some m \<Rightarrow> m)
                 in Some (write_metricsptr impact (CVSS_CATEGORY (valtab_key entry))
                   (Some (m\<lparr>metrics_ANY := (metrics_ANY m)[CVSS_KEY_IDX (valtab_key entry) := valtab_value entry]\<rparr>))))))"

fun read_components :: "cvss_impact \<Rightarrow> string list \<Rightarrow> cvss_impact option" where
  "read_components impact [] = Some impact"
| "read_components impact (component # components) =
     (case read_component impact component of None \<Rightarrow> None | Some impact' \<Rightarrow> read_components impact' components)"

text \<open>A vector may be in parentheses.\<close>

definition cvss_impact_new_from_vector :: "cstr \<Rightarrow> cvss_impact option" where
  "cvss_impact_new_from_vector cvss_vector =
     (case cvss_vector of
        None \<Rightarrow> None
      | Some v \<Rightarrow>
          (let read = (\<lambda>vector_start. read_components cvss_impact_new (oscap_split (oscap_strtoupper vector_start) ''/'')) in
           case v of
             [] \<Rightarrow> read []
           | c # rest \<Rightarrow>
               if c = CHR ''('' then (if last v \<noteq> CHR '')'' then None else read (butlast rest))
               else read v))"

definition component_vector :: "cvss_metrics \<Rightarrow> nat \<Rightarrow> string" where
  "component_vector m i = valtab_vector_str (cvss_valtab (category m + i) (metrics_ANY m ! i) None None)"

definition cvss_metrics_to_vector :: "cvss_metrics option \<Rightarrow> string" where
  "cvss_metrics_to_vector m = (case m of
     None \<Rightarrow> []
   | Some m \<Rightarrow> concat (map (\<lambda>i. component_vector m i @ ''/'') [0..<cvss_metrics_component_num m]))"

definition cvss_impact_to_vector :: "cvss_impact \<Rightarrow> string" where
  "cvss_impact_to_vector impact =
     butlast (cvss_metrics_to_vector (base_metrics impact) @ cvss_metrics_to_vector (temporal_metrics impact)
       @ cvss_metrics_to_vector (environmental_metrics impact))"

section \<open>Elements\<close>

text \<open>The element of a metric that is read into metrics of a category, and those that are written.\<close>

definition read_metric_element :: "cvss_metrics \<Rightarrow> string \<Rightarrow> cstr \<Rightarrow> cvss_metrics option" where
  "read_metric_element ret elname text_content =
     map_option (\<lambda>key.
         let val = cvss_valtab (keytab_key key) 0 None text_content in
         if CVSS_CATEGORY (valtab_key val) = category ret
         then ret\<lparr>metrics_ANY := (metrics_ANY ret)[CVSS_KEY_IDX (valtab_key val) := valtab_value val]\<rparr>
         else ret)
       (cvss_keytab 0 (Some elname))"

definition metric_element :: "cvss_metrics \<Rightarrow> nat \<Rightarrow> (string \<times> string) option" where
  "metric_element m i =
     (let val = cvss_valtab (category m + i) (metrics_ANY m ! i) None None in
      case cvss_keytab (category m + i) None of
        None \<Rightarrow> None
      | Some key \<Rightarrow>
          (case (keytab_xml_str key, valtab_xml_str val) of
             (Some name, Some content) \<Rightarrow> Some (name, content)
           | _ \<Rightarrow> None))"

definition metric_elements :: "cvss_metrics \<Rightarrow> (string \<times> string) list" where
  "metric_elements m = List.map_filter (metric_element m) [0..<cvss_metrics_component_num m]"

section \<open>Scores\<close>

type_synonym cfloat = "rat option"

definition cvss_impact_val :: "cvss_impact \<Rightarrow> nat \<Rightarrow> nat" where
  "cvss_impact_val impact key =
     (case cvss_impact_metricsptr impact (CVSS_CATEGORY key) of
        Some (Some metric) \<Rightarrow> metrics_ANY metric ! CVSS_KEY_IDX key
      | _ \<Rightarrow> 4294967295)"

definition cvss_impact_entry :: "cvss_impact \<Rightarrow> nat \<Rightarrow> cvss_valtab_entry" where
  "cvss_impact_entry impact key = cvss_valtab key (cvss_impact_val impact key) None None"

definition CVSS_W :: "(rat \<Rightarrow> rat) \<Rightarrow> cvss_impact \<Rightarrow> nat \<Rightarrow> cfloat" where
  "CVSS_W rf impact key = map_option rf (valtab_weight (cvss_impact_entry impact key))"

text \<open>An operation on numbers that may be NaN, rounded.\<close>

definition fop :: "(rat \<Rightarrow> rat) \<Rightarrow> (rat \<Rightarrow> rat \<Rightarrow> rat) \<Rightarrow> cfloat \<Rightarrow> cfloat \<Rightarrow> cfloat" where
  "fop rnd f a b = (case (a, b) of (Some x, Some y) \<Rightarrow> Some (rnd (f x y)) | _ \<Rightarrow> None)"

text \<open>\<open>round\<close> of the C library, halves away from zero; the conversion to \<open>int\<close>.\<close>

definition c_round :: "rat \<Rightarrow> int" where
  "c_round x = (if x < 0 then - \<lfloor>- x + 1 / 2\<rfloor> else \<lfloor>x + 1 / 2\<rfloor>)"

definition cvss_round :: "(rat \<Rightarrow> rat) \<Rightarrow> (rat \<Rightarrow> rat) \<Rightarrow> cfloat \<Rightarrow> cfloat option" where
  "cvss_round rf rd x =
     (case x of
        None \<Rightarrow> None
      | Some x \<Rightarrow>
          (let n = c_round (rd (rd (x * 10) + rd (1 / 100000))) in
           if n < - 2147483648 \<or> 2147483647 < n then None else Some (Some (rf (rd (of_int n / 10))))))"

definition cvss_impact_base_exploitability_subscore :: "(rat \<Rightarrow> rat) \<Rightarrow> cvss_impact \<Rightarrow> cfloat" where
  "cvss_impact_base_exploitability_subscore rf impact =
     fop rf (*) (fop rf (*) (fop rf (*) (Some 20) (CVSS_W rf impact CVSS_KEY_access_vector))
       (CVSS_W rf impact CVSS_KEY_access_complexity)) (CVSS_W rf impact CVSS_KEY_authentication)"

text \<open>\<open>10.41 * (1.0 - (1.0 - c) * (1.0 - i) * (1.0 - a))\<close> in \<open>double\<close>.\<close>

definition impact_of :: "(rat \<Rightarrow> rat) \<Rightarrow> (rat \<Rightarrow> rat) \<Rightarrow> cfloat \<Rightarrow> cfloat \<Rightarrow> cfloat \<Rightarrow> cfloat" where
  "impact_of rf rd c i a =
     map_option rf (fop rd (*) (Some (rd (1041 / 100)))
       (fop rd (-) (Some 1) (fop rd (*) (fop rd (*) (fop rd (-) (Some 1) c) (fop rd (-) (Some 1) i)) (fop rd (-) (Some 1) a))))"

definition cvss_impact_base_impact_subscore :: "(rat \<Rightarrow> rat) \<Rightarrow> (rat \<Rightarrow> rat) \<Rightarrow> cvss_impact \<Rightarrow> cfloat" where
  "cvss_impact_base_impact_subscore rf rd impact =
     impact_of rf rd (CVSS_W rf impact CVSS_KEY_confidentiality_impact) (CVSS_W rf impact CVSS_KEY_integrity_impact)
       (CVSS_W rf impact CVSS_KEY_availability_impact)"

text \<open>The last steps of the base score, from the subscores.\<close>

definition base_score_of :: "(rat \<Rightarrow> rat) \<Rightarrow> (rat \<Rightarrow> rat) \<Rightarrow> cfloat \<Rightarrow> cfloat \<Rightarrow> cfloat option" where
  "base_score_of rf rd imp_s exp_s =
     (let f_imp = Some (if imp_s = Some 0 then 0 else rf (rd (1176 / 1000)));
          sum = fop rd (+) (fop rd (*) (Some (rd (6 / 10))) imp_s) (fop rd (*) (Some (rd (4 / 10))) exp_s)
      in cvss_round rf rd (map_option rf (fop rd (*) (fop rd (-) sum (Some (15 / 10))) f_imp)))"

definition cvss_impact_base_score_impl ::
    "(rat \<Rightarrow> rat) \<Rightarrow> (rat \<Rightarrow> rat) \<Rightarrow> cvss_impact \<Rightarrow> (cvss_impact \<Rightarrow> cfloat) \<Rightarrow> cfloat option" where
  "cvss_impact_base_score_impl rf rd impact impact_score_calculator =
     (if \<not> cvss_metrics_is_valid (base_metrics impact) then Some None
      else base_score_of rf rd (impact_score_calculator impact) (cvss_impact_base_exploitability_subscore rf impact))"

definition cvss_impact_base_score :: "(rat \<Rightarrow> rat) \<Rightarrow> (rat \<Rightarrow> rat) \<Rightarrow> cvss_impact \<Rightarrow> cfloat option" where
  "cvss_impact_base_score rf rd impact =
     cvss_impact_base_score_impl rf rd impact (cvss_impact_base_impact_subscore rf rd)"

definition cvss_impact_temporal_multiplier :: "(rat \<Rightarrow> rat) \<Rightarrow> cvss_impact \<Rightarrow> cfloat" where
  "cvss_impact_temporal_multiplier rf impact =
     (if \<not> cvss_metrics_is_valid (temporal_metrics impact) then None
      else fop rf (*) (fop rf (*) (CVSS_W rf impact CVSS_KEY_exploitability) (CVSS_W rf impact CVSS_KEY_remediation_level))
        (CVSS_W rf impact CVSS_KEY_report_confidence))"

definition cvss_impact_temporal_score :: "(rat \<Rightarrow> rat) \<Rightarrow> (rat \<Rightarrow> rat) \<Rightarrow> cvss_impact \<Rightarrow> cfloat option" where
  "cvss_impact_temporal_score rf rd impact =
     (if \<not> cvss_metrics_is_valid (temporal_metrics impact) then Some None
      else Option.bind (cvss_impact_base_score rf rd impact)
        (\<lambda>s. cvss_round rf rd (fop rf (*) s (cvss_impact_temporal_multiplier rf impact))))"

definition cvss_impact_base_adjusted_impact_subscore :: "(rat \<Rightarrow> rat) \<Rightarrow> (rat \<Rightarrow> rat) \<Rightarrow> cvss_impact \<Rightarrow> cfloat" where
  "cvss_impact_base_adjusted_impact_subscore rf rd impact =
     (if \<not> cvss_metrics_is_valid (environmental_metrics impact) \<or> \<not> cvss_metrics_is_valid (base_metrics impact) then None
      else (let c = fop rf (*) (CVSS_W rf impact CVSS_KEY_confidentiality_impact) (CVSS_W rf impact CVSS_KEY_confidentiality_requirement);
                i = fop rf (*) (CVSS_W rf impact CVSS_KEY_integrity_impact) (CVSS_W rf impact CVSS_KEY_integrity_requirement);
                a = fop rf (*) (CVSS_W rf impact CVSS_KEY_availability_impact) (CVSS_W rf impact CVSS_KEY_availability_requirement)
            in (case impact_of rf rd c i a of
                  Some imp \<Rightarrow> Some (if imp \<le> 10 then imp else 10)
                | None \<Rightarrow> Some 10)))"

definition cvss_impact_adjusted_base_score :: "(rat \<Rightarrow> rat) \<Rightarrow> (rat \<Rightarrow> rat) \<Rightarrow> cvss_impact \<Rightarrow> cfloat option" where
  "cvss_impact_adjusted_base_score rf rd impact =
     cvss_impact_base_score_impl rf rd impact (cvss_impact_base_adjusted_impact_subscore rf rd)"

definition cvss_impact_adjusted_temporal_score :: "(rat \<Rightarrow> rat) \<Rightarrow> (rat \<Rightarrow> rat) \<Rightarrow> cvss_impact \<Rightarrow> cfloat option" where
  "cvss_impact_adjusted_temporal_score rf rd impact =
     Option.bind (cvss_impact_adjusted_base_score rf rd impact)
       (\<lambda>s. cvss_round rf rd (fop rf (*) s (cvss_impact_temporal_multiplier rf impact)))"

definition cvss_impact_environmental_score :: "(rat \<Rightarrow> rat) \<Rightarrow> (rat \<Rightarrow> rat) \<Rightarrow> cvss_impact \<Rightarrow> cfloat option" where
  "cvss_impact_environmental_score rf rd impact =
     (if \<not> cvss_metrics_is_valid (environmental_metrics impact) then Some None
      else Option.bind (cvss_impact_adjusted_temporal_score rf rd impact)
        (\<lambda>temp_s. if temp_s = None then Some None
           else cvss_round rf rd (map_option rf (fop rd (*)
                  (fop rd (+) temp_s (fop rd (*) (fop rd (-) (Some 10) temp_s) (CVSS_W rf impact CVSS_KEY_collateral_damage_potential)))
                  (CVSS_W rf impact CVSS_KEY_target_distribution)))))"

end
