(* ===== verification/Cvss_Props.thy ===== *)
theory Cvss_Props
  imports Cvss
begin

text \<open>
  Round trips of CVSS metrics through vectors and XML elements, and bounds of the base score.
\<close>

section \<open>The tables\<close>

lemma valtab_vectors_distinct: "distinct (map valtab_vector_str CVSS_VALTAB)"
  unfolding CVSS_VALTAB_def list.map cvss_valtab_entry.simps by code_simp

lemma valtab_values_distinct: "distinct (map (\<lambda>e. (valtab_key e, valtab_value e)) CVSS_VALTAB)"
  unfolding CVSS_VALTAB_def list.map cvss_valtab_entry.simps by simp

lemma valtab_xml_distinct: "distinct (map (\<lambda>e. (valtab_key e, valtab_xml_str e)) CVSS_VALTAB)"
  unfolding CVSS_VALTAB_def list.map cvss_valtab_entry.simps by simp

lemma valtab_keys: "list_all (\<lambda>e. valtab_key e \<noteq> 0) CVSS_VALTAB"
  unfolding CVSS_VALTAB_def list.pred_inject cvss_valtab_entry.simps by simp

text \<open>Vector strings are in upper case, without the characters of the syntax; only unset values have no XML text.\<close>

definition vector_text :: "string \<Rightarrow> bool" where
  "vector_text v \<longleftrightarrow> map c_toupper v = v \<and> CHR ''/'' \<notin> set v \<and> CHR ''('' \<notin> set v \<and> v \<noteq> []"

lemma valtab_vectors: "list_all (\<lambda>e. vector_text (valtab_vector_str e)) CVSS_VALTAB"
  unfolding CVSS_VALTAB_def list.pred_inject cvss_valtab_entry.simps by code_simp

lemma valtab_xml: "list_all (\<lambda>e. valtab_xml_str e \<noteq> Some [] \<and> (valtab_xml_str e = None \<longrightarrow> valtab_value e = 0 \<and> valtab_key e < 512)) CVSS_VALTAB"
  unfolding CVSS_VALTAB_def list.pred_inject cvss_valtab_entry.simps by simp

lemma streq_None [simp]: "oscap_streq None (Some v) \<longleftrightarrow> v = []" "oscap_streq (Some v) None \<longleftrightarrow> v = []"
  by (auto simp: oscap_streq_def oscap_strcmp_def)

lemma streq_Some [simp]: "oscap_streq (Some v) (Some u) \<longleftrightarrow> v = u"
  by (simp add: oscap_streq_def oscap_strcmp_def)

lemma valtab_find_vector:
  "list_all (\<lambda>e. valtab_key e \<noteq> 0) es \<Longrightarrow> distinct (map valtab_vector_str es) \<Longrightarrow> e \<in> set es \<Longrightarrow>
   valtab_find es 0 0 (Some (valtab_vector_str e)) None = e"
  by (induction es) (auto simp: image_iff)

lemma valtab_find_value:
  "list_all (\<lambda>e. vector_text (valtab_vector_str e)) es \<Longrightarrow> distinct (map (\<lambda>e. (valtab_key e, valtab_value e)) es) \<Longrightarrow> e \<in> set es \<Longrightarrow>
   valtab_find es (valtab_key e) (valtab_value e) None None = e"
  by (induction es) (auto simp: image_iff vector_text_def)

lemma valtab_find_xml:
  "list_all (\<lambda>e. vector_text (valtab_vector_str e)) es \<Longrightarrow> distinct (map (\<lambda>e. (valtab_key e, valtab_xml_str e)) es) \<Longrightarrow> e \<in> set es \<Longrightarrow>
   valtab_xml_str e = Some x \<Longrightarrow> x \<noteq> [] \<Longrightarrow> valtab_find es (valtab_key e) 0 None (Some x) = e"
  by (induction es) (auto simp: image_iff vector_text_def oscap_streq_def oscap_strcmp_def split: option.splits)

lemma valtab_lookup:
  assumes "e \<in> set CVSS_VALTAB"
  shows "cvss_valtab 0 0 (Some (valtab_vector_str e)) None = e"
    and "cvss_valtab (valtab_key e) (valtab_value e) None None = e"
    and "valtab_xml_str e = Some x \<Longrightarrow> cvss_valtab (valtab_key e) 0 None (Some x) = e"
proof -
  have "x \<noteq> []" if "valtab_xml_str e = Some x" using valtab_xml assms that by (auto simp: list_all_iff)
  then show "cvss_valtab 0 0 (Some (valtab_vector_str e)) None = e" "cvss_valtab (valtab_key e) (valtab_value e) None None = e"
      "valtab_xml_str e = Some x \<Longrightarrow> cvss_valtab (valtab_key e) 0 None (Some x) = e"
    unfolding cvss_valtab_def
    by (simp_all add: valtab_find_vector [OF valtab_keys valtab_vectors_distinct assms]
        valtab_find_value [OF valtab_vectors valtab_values_distinct assms]
        valtab_find_xml [OF valtab_vectors valtab_xml_distinct assms])
qed

lemma keytab_distinct:
  "distinct (map keytab_key CVSS_KEYTAB)" "distinct (map keytab_xml_str CVSS_KEYTAB)"
  unfolding CVSS_KEYTAB_def list.map cvss_keytab_entry.simps by simp_all

lemma keytab_xml: "list_all (\<lambda>k. keytab_key k \<noteq> 0 \<and> keytab_xml_str k \<noteq> None \<and> keytab_xml_str k \<noteq> Some []) CVSS_KEYTAB"
  unfolding CVSS_KEYTAB_def list.pred_inject cvss_keytab_entry.simps by simp

lemma keytab_keys:
  "map keytab_key CVSS_KEYTAB = [256, 257, 258, 259, 260, 261, 512, 513, 514, 768, 769, 770, 771, 772]"
  unfolding CVSS_KEYTAB_def list.map cvss_keytab_entry.simps by (rule refl)

lemma keytab_find_entry:
  "list_all (\<lambda>k. keytab_key k \<noteq> 0 \<and> keytab_xml_str k \<noteq> None \<and> keytab_xml_str k \<noteq> Some []) ks \<Longrightarrow> distinct (map keytab_key ks) \<Longrightarrow>
   distinct (map keytab_xml_str ks) \<Longrightarrow> k \<in> set ks \<Longrightarrow>
   keytab_find ks (keytab_key k) None = k \<and> keytab_find ks 0 (keytab_xml_str k) = k"
proof (induction ks)
  case (Cons a ks)
  obtain x where x: "keytab_xml_str k = Some x" "x \<noteq> []" using Cons.prems(1,4) by (auto simp: list_all_iff)
  show ?case using Cons x by (auto simp: image_iff)
qed simp

lemma keytab_lookup:
  assumes "cat = CVSS_BASE \<and> i < 6 \<or> cat = CVSS_TEMPORAL \<and> i < 3 \<or> cat = CVSS_ENVIRONMENTAL \<and> i < 5"
  shows "\<exists>k name. cvss_keytab (cat + i) None = Some k \<and> keytab_key k = cat + i \<and> keytab_xml_str k = Some name
    \<and> cvss_keytab 0 (Some name) = Some k"
proof -
  have "cat + i \<in> set [256, 257, 258, 259, 260, 261, 512, 513, 514, 768, 769, 770, 771, 772]"
    using assms by (simp only: list.set insert_iff empty_iff) presburger
  then obtain k where k: "k \<in> set CVSS_KEYTAB" "keytab_key k = cat + i"
    using keytab_keys by (metis imageE list.set_map)
  obtain name where name: "keytab_xml_str k = Some name" using keytab_xml k(1) by (auto simp: list_all_iff)
  show ?thesis
    using keytab_find_entry [OF keytab_xml keytab_distinct k(1)] k(2) name by (auto simp: cvss_keytab_def)
qed

section \<open>Metrics\<close>

definition category_num :: "nat \<Rightarrow> nat" where
  "category_num cat = cvss_metrics_component_num (cvss_metrics_new cat)"

text \<open>Metrics of a category with values of the table, as they are after reading.\<close>

definition metrics_ok :: "nat \<Rightarrow> cvss_metrics \<Rightarrow> bool" where
  "metrics_ok cat m \<longleftrightarrow> cat \<in> {CVSS_BASE, CVSS_TEMPORAL, CVSS_ENVIRONMENTAL}
     \<and> m = (cvss_metrics_new cat)\<lparr>metrics_ANY := metrics_ANY m\<rparr> \<and> length (metrics_ANY m) = 6
     \<and> (\<forall>i<category_num cat. \<exists>e\<in>set CVSS_VALTAB. valtab_key e = cat + i \<and> valtab_value e = metrics_ANY m ! i)
     \<and> drop (category_num cat) (metrics_ANY m) = replicate (6 - category_num cat) 0"

definition impact_ok :: "cvss_impact \<Rightarrow> bool" where
  "impact_ok impact \<longleftrightarrow> pred_option (metrics_ok CVSS_BASE) (base_metrics impact)
     \<and> pred_option (metrics_ok CVSS_TEMPORAL) (temporal_metrics impact)
     \<and> pred_option (metrics_ok CVSS_ENVIRONMENTAL) (environmental_metrics impact)"

lemma category_num_simps [simp]: "category_num 256 = 6" "category_num 512 = 3" "category_num 768 = 5"
  by (simp_all add: category_num_def cvss_metrics_component_num_def cvss_metrics_new_def)

lemma metrics_okD:
  assumes "metrics_ok cat m"
  shows "category m = cat" and "cvss_metrics_component_num m = category_num cat" and "category_num cat \<le> 6"
    and "cat \<in> {256, 512, 768}"
proof -
  have "category m = category ((cvss_metrics_new cat)\<lparr>metrics_ANY := metrics_ANY m\<rparr>)" using assms by (simp add: metrics_ok_def)
  then show cat: "category m = cat" by (simp add: cvss_metrics_new_def)
  then show "cvss_metrics_component_num m = category_num cat"
    by (simp add: category_num_def cvss_metrics_component_num_def cvss_metrics_new_def)
  show "cat \<in> {256, 512, 768}" using assms by (simp add: metrics_ok_def)
  then show "category_num cat \<le> 6" by auto
qed

text \<open>The entry of a metric, and what its vector string and its element read as.\<close>

lemma metric_entry:
  assumes "metrics_ok cat m" and "i < category_num cat"
  obtains e where "e \<in> set CVSS_VALTAB" and "valtab_key e = cat + i" and "valtab_value e = metrics_ANY m ! i"
    and "component_vector m i = valtab_vector_str e" and "cvss_valtab (category m + i) (metrics_ANY m ! i) None None = e"
    and "CVSS_CATEGORY (valtab_key e) = cat" and "CVSS_KEY_IDX (valtab_key e) = i"
proof -
  obtain e where e: "e \<in> set CVSS_VALTAB" "valtab_key e = cat + i" "valtab_value e = metrics_ANY m ! i"
    using assms by (auto simp: metrics_ok_def)
  have lookup: "cvss_valtab (category m + i) (metrics_ANY m ! i) None None = e"
    using valtab_lookup(2) [OF e(1)] e(2,3) metrics_okD(1) [OF assms(1)] by simp
  have "i < 256" using assms(2) metrics_okD(3) [OF assms(1)] by simp
  moreover have "256 dvd cat" using metrics_okD(4) [OF assms(1)] by auto
  then obtain c where "cat = 256 * c" ..
  ultimately have "CVSS_CATEGORY (cat + i) = cat" "CVSS_KEY_IDX (cat + i) = i"
    by (simp_all add: CVSS_CATEGORY_def CVSS_KEY_IDX_def)
  then show ?thesis using that [of e] e lookup by (simp add: component_vector_def)
qed

text \<open>Metrics of which only the first values are read yet.\<close>

definition read_so_far :: "nat \<Rightarrow> cvss_metrics \<Rightarrow> nat \<Rightarrow> cvss_metrics" where
  "read_so_far cat m j = (cvss_metrics_new cat)\<lparr>metrics_ANY := take j (metrics_ANY m) @ replicate (6 - j) 0\<rparr>"

lemma read_so_far_0: "read_so_far cat m 0 = cvss_metrics_new cat"
  by (simp add: read_so_far_def cvss_metrics_new_def)

lemma read_so_far_all:
  assumes "metrics_ok cat m"
  shows "read_so_far cat m (category_num cat) = m"
proof -
  have "take (category_num cat) (metrics_ANY m) @ replicate (6 - category_num cat) 0 = metrics_ANY m"
    using assms append_take_drop_id [of "category_num cat" "metrics_ANY m"] by (simp add: metrics_ok_def)
  then show ?thesis using assms by (simp add: read_so_far_def metrics_ok_def)
qed

lemma read_so_far_next:
  assumes "metrics_ok cat m" and "j < category_num cat"
  shows "(read_so_far cat m j)\<lparr>metrics_ANY := (metrics_ANY (read_so_far cat m j))[j := metrics_ANY m ! j]\<rparr> = read_so_far cat m (Suc j)"
proof -
  have j: "j < length (metrics_ANY m)" "6 - j = Suc (6 - Suc j)" "length (metrics_ANY m) = 6"
    using assms metrics_okD(3) [OF assms(1)] by (auto simp: metrics_ok_def)
  then have "(take j (metrics_ANY m) @ replicate (6 - j) 0)[j := metrics_ANY m ! j] = take (Suc j) (metrics_ANY m) @ replicate (6 - Suc j) 0"
    by (simp add: take_Suc_conv_app_nth list_update_append)
  then show ?thesis by (simp add: read_so_far_def)
qed

section \<open>Reading vectors\<close>

lemma metricsptr_write [simp]:
  "cat \<in> {256, 512, 768} \<Longrightarrow> cvss_impact_metricsptr (write_metricsptr impact cat x) cat = Some x"
  "write_metricsptr (write_metricsptr impact cat x) cat y = write_metricsptr impact cat y"
  by (auto simp: cvss_impact_metricsptr_def write_metricsptr_def)

lemma read_component_step:
  assumes "metrics_ok cat m" and "cvss_impact_metricsptr impact cat = Some (if j = 0 then None else Some (read_so_far cat m j))"
    and "j < category_num cat"
  shows "read_component impact (component_vector m j) = Some (write_metricsptr impact cat (Some (read_so_far cat m (Suc j))))"
proof -
  obtain e where e: "e \<in> set CVSS_VALTAB" "valtab_value e = metrics_ANY m ! j" "component_vector m j = valtab_vector_str e"
      "CVSS_CATEGORY (valtab_key e) = cat" "CVSS_KEY_IDX (valtab_key e) = j"
    using metric_entry [OF assms(1,3)] by metis
  have "valtab_key e \<noteq> 0" using valtab_keys e(1) by (auto simp: list_all_iff)
  moreover have "(if j = 0 then cvss_metrics_new cat else read_so_far cat m j) = read_so_far cat m j" by (simp add: read_so_far_0)
  ultimately show ?thesis
    using assms(2) e read_so_far_next [OF assms(1,3)] valtab_lookup(1) [OF e(1)]
    by (simp add: read_component_def Let_def split: if_splits)
qed

lemma read_metrics:
  assumes "metrics_ok cat m" and "cvss_impact_metricsptr impact cat = Some (if j = 0 then None else Some (read_so_far cat m j))"
    and "j < category_num cat"
  shows "read_components impact (map (component_vector m) [j..<category_num cat] @ rest)
      = read_components (write_metricsptr impact cat (Some m)) rest"
  using assms(2,3)
proof (induction "category_num cat - Suc j" arbitrary: j impact)
  case 0
  then have j: "[j..<category_num cat] = [j]" "Suc j = category_num cat" by (simp_all add: upt_rec)
  show ?case using read_component_step [OF assms(1) "0.prems"] j(2) read_so_far_all [OF assms(1)] by (simp add: j(1))
next
  case (Suc k)
  let ?impact = "write_metricsptr impact cat (Some (read_so_far cat m (Suc j)))"
  have "cvss_impact_metricsptr ?impact cat = Some (Some (read_so_far cat m (Suc j)))"
    using metrics_okD(4) [OF assms(1)] by (rule metricsptr_write(1))
  then have "read_components ?impact (map (component_vector m) [Suc j..<category_num cat] @ rest)
      = read_components (write_metricsptr ?impact cat (Some m)) rest"
    using Suc.hyps(2) by (intro Suc.hyps(1)) auto
  then show ?case using read_component_step [OF assms(1) Suc.prems] Suc.prems(2) by (simp add: upt_conv_Cons)
qed

text \<open>The components of a vector.\<close>

definition metrics_components :: "cvss_metrics option \<Rightarrow> string list" where
  "metrics_components m = (case m of None \<Rightarrow> [] | Some m \<Rightarrow> map (component_vector m) [0..<cvss_metrics_component_num m])"

lemma read_part:
  assumes "pred_option (metrics_ok cat) m" and "cvss_impact_metricsptr impact cat = Some None"
  shows "read_components impact (metrics_components m @ rest) = read_components (write_metricsptr impact cat m) rest"
proof (cases m)
  case None
  then have "write_metricsptr impact cat m = impact"
    using assms(2) by (auto simp: write_metricsptr_def cvss_impact_metricsptr_def split: if_splits)
  then show ?thesis using None by (simp add: metrics_components_def)
next
  case (Some n)
  then have n: "metrics_ok cat n" using assms(1) by simp
  have "0 < category_num cat" using metrics_okD(4) [OF n] by auto
  then show ?thesis
    using read_metrics [OF n, of impact 0 rest] assms(2) Some metrics_okD(2) [OF n] by (simp add: metrics_components_def)
qed

lemma components_text: "pred_option (metrics_ok cat) m \<Longrightarrow> v \<in> set (metrics_components m) \<Longrightarrow> vector_text v"
proof -
  assume ok: "pred_option (metrics_ok cat) m" "v \<in> set (metrics_components m)"
  then obtain n i where n: "m = Some n" "metrics_ok cat n" "v = component_vector n i" "i < category_num cat"
    using metrics_okD(2) by (cases m) (auto simp: metrics_components_def)
  obtain e where "e \<in> set CVSS_VALTAB" "component_vector n i = valtab_vector_str e" using metric_entry [OF n(2,4)] by metis
  then show "vector_text v" using valtab_vectors n(3) by (auto simp: list_all_iff)
qed

lemma joined_text:
  assumes "\<And>v. v \<in> set vs \<Longrightarrow> vector_text v" and "vs \<noteq> []"
  shows "butlast (concat (map (\<lambda>v. v @ ''/'') vs)) = c_join CHR ''/'' vs" and "oscap_strtoupper (c_join CHR ''/'' vs) = c_join CHR ''/'' vs"
    and "CHR ''('' \<notin> set (c_join CHR ''/'' vs)" and "c_join CHR ''/'' vs \<noteq> []"
proof -
  have slash: "c_toupper CHR ''/'' = CHR ''/''" by code_simp
  have "butlast (concat (map (\<lambda>v. v @ ''/'') vs)) = c_join CHR ''/'' vs \<and> map c_toupper (c_join CHR ''/'' vs) = c_join CHR ''/'' vs
      \<and> CHR ''('' \<notin> set (c_join CHR ''/'' vs) \<and> c_join CHR ''/'' vs \<noteq> []"
    using assms
  proof (induction vs)
    case (Cons v vs)
    then show ?case by (cases "vs = []") (auto simp: vector_text_def c_join_Cons slash butlast_append)
  qed simp
  then show "butlast (concat (map (\<lambda>v. v @ ''/'') vs)) = c_join CHR ''/'' vs" "oscap_strtoupper (c_join CHR ''/'' vs) = c_join CHR ''/'' vs"
    "CHR ''('' \<notin> set (c_join CHR ''/'' vs)" "c_join CHR ''/'' vs \<noteq> []" by (simp_all add: oscap_strtoupper_def)
qed

lemma metrics_vector: "cvss_metrics_to_vector m = concat (map (\<lambda>v. v @ ''/'') (metrics_components m))"
  by (cases m) (simp_all add: cvss_metrics_to_vector_def metrics_components_def comp_def)

lemma vector_read:
  assumes "impact_ok impact" and "impact \<noteq> cvss_impact_new"
  shows "cvss_impact_new_from_vector (Some (cvss_impact_to_vector impact)) = Some impact"
    and "cvss_impact_new_from_vector (Some (''('' @ cvss_impact_to_vector impact @ '')'')) = Some impact"
proof -
  let ?b = "metrics_components (base_metrics impact)" and ?t = "metrics_components (temporal_metrics impact)"
    and ?e = "metrics_components (environmental_metrics impact)"
  define vs where "vs = ?b @ ?t @ ?e"
  define v where "v = c_join CHR ''/'' vs"
  have parts: "pred_option (metrics_ok 256) (base_metrics impact)" "pred_option (metrics_ok 512) (temporal_metrics impact)"
      "pred_option (metrics_ok 768) (environmental_metrics impact)"
    using assms(1) by (simp_all add: impact_ok_def)
  have nonempty: "metrics_components m \<noteq> [] \<longleftrightarrow> m \<noteq> None" if "pred_option (metrics_ok cat) m" for cat m
    using that metrics_okD(2,4) by (cases m) (fastforce simp: metrics_components_def)+
  have "base_metrics impact \<noteq> None \<or> temporal_metrics impact \<noteq> None \<or> environmental_metrics impact \<noteq> None"
    using assms(2) by (cases impact) (auto simp: cvss_impact_new_def)
  then have vs: "vs \<noteq> []" using nonempty parts unfolding vs_def by auto
  have texts: "u \<in> set vs \<Longrightarrow> vector_text u" for u using components_text parts unfolding vs_def by auto
  note joined = joined_text [OF texts vs]
  have vector: "cvss_impact_to_vector impact = v"
    using joined(1) by (simp add: cvss_impact_to_vector_def metrics_vector vs_def v_def)
  have split: "oscap_split v ''/'' = vs"
    unfolding v_def oscap_split_eq by (rule c_split_join [OF vs]) (use texts in \<open>simp add: vector_text_def\<close>)
  have "read_components cvss_impact_new vs = Some impact"
  proof -
    let ?i1 = "write_metricsptr cvss_impact_new 256 (base_metrics impact)"
    let ?i2 = "write_metricsptr ?i1 512 (temporal_metrics impact)"
    have "read_components cvss_impact_new vs = read_components ?i1 (?t @ ?e)"
      unfolding vs_def by (rule read_part [OF parts(1)]) (simp add: cvss_impact_metricsptr_def cvss_impact_new_def)
    also have "\<dots> = read_components ?i2 ?e"
      by (rule read_part [OF parts(2)]) (simp add: cvss_impact_metricsptr_def cvss_impact_new_def write_metricsptr_def)
    also have "\<dots> = read_components (write_metricsptr ?i2 768 (environmental_metrics impact)) []"
      using read_part [OF parts(3), of ?i2 "[]"]
      by (simp add: cvss_impact_metricsptr_def cvss_impact_new_def write_metricsptr_def)
    also have "\<dots> = Some impact" by (simp add: write_metricsptr_def cvss_impact_new_def)
    finally show ?thesis .
  qed
  then have read: "read_components cvss_impact_new (oscap_split (oscap_strtoupper v) ''/'') = Some impact"
    using joined(2) split by (simp add: v_def)
  obtain c rest where c: "v = c # rest" "c \<noteq> CHR ''(''" using joined(3,4) by (cases v) (auto simp: v_def)
  then show "cvss_impact_new_from_vector (Some (cvss_impact_to_vector impact)) = Some impact"
    using read by (simp add: vector cvss_impact_new_from_vector_def Let_def)
  show "cvss_impact_new_from_vector (Some (''('' @ cvss_impact_to_vector impact @ '')'')) = Some impact"
    using read by (simp add: vector cvss_impact_new_from_vector_def Let_def butlast_append)
qed

section \<open>Reading elements\<close>

text \<open>The elements of metrics read one after the other.\<close>

fun read_elements :: "cvss_metrics \<Rightarrow> (string \<times> string) list \<Rightarrow> cvss_metrics option" where
  "read_elements m [] = Some m"
| "read_elements m ((name, content) # elements) =
     (case read_metric_element m name (Some content) of None \<Rightarrow> None | Some m' \<Rightarrow> read_elements m' elements)"

lemma metric_element_read:
  assumes "metrics_ok cat m" and "cvss_metrics_is_valid (Some m)" and "j < category_num cat"
  obtains name content where "metric_element m j = Some (name, content)"
    and "read_metric_element (read_so_far cat m j) name (Some content) = Some (read_so_far cat m (Suc j))"
proof -
  obtain e where e: "e \<in> set CVSS_VALTAB" "valtab_key e = cat + j" "valtab_value e = metrics_ANY m ! j"
      "cvss_valtab (category m + j) (metrics_ANY m ! j) None None = e" "CVSS_CATEGORY (valtab_key e) = cat" "CVSS_KEY_IDX (valtab_key e) = j"
    using metric_entry [OF assms(1,3)] by metis
  have cat: "cat \<in> {256, 512, 768}" "category m = cat" using metrics_okD [OF assms(1)] by simp_all
  have "cat = 256 \<Longrightarrow> valtab_value e \<noteq> 0"
    using assms(2,3) cat(2) e(3) by (auto simp: cvss_metrics_is_valid_def list_all_iff)
  then obtain content where content: "valtab_xml_str e = Some content"
    using valtab_xml e(1,2) cat(1) by (cases "valtab_xml_str e") (auto simp: list_all_iff)
  obtain k name where k: "cvss_keytab (cat + j) None = Some k" "keytab_key k = cat + j" "keytab_xml_str k = Some name"
      "cvss_keytab 0 (Some name) = Some k"
    using keytab_lookup [of cat j] cat(1) assms(3) by auto
  have "metric_element m j = Some (name, content)" using e(4) content k cat(2) by (simp add: metric_element_def Let_def)
  moreover have "category (read_so_far cat m j) = cat" by (simp add: read_so_far_def cvss_metrics_new_def)
  then have "read_metric_element (read_so_far cat m j) name (Some content) = Some (read_so_far cat m (Suc j))"
    using k(2,4) valtab_lookup(3) [OF e(1) content] e(2,3,5,6) read_so_far_next [OF assms(1,3)]
    by (simp add: read_metric_element_def Let_def)
  ultimately show ?thesis using that by blast
qed

lemma metric_elements_read:
  assumes "metrics_ok cat m" and "cvss_metrics_is_valid (Some m)"
  shows "j \<le> category_num cat \<Longrightarrow>
    read_elements (read_so_far cat m j) (List.map_filter (metric_element m) [j..<category_num cat]) = Some m"
proof (induction "category_num cat - j" arbitrary: j)
  case 0
  then show ?case using read_so_far_all [OF assms(1)] by simp
next
  case (Suc k)
  then have j: "j < category_num cat" by simp
  obtain name content where step: "metric_element m j = Some (name, content)"
      "read_metric_element (read_so_far cat m j) name (Some content) = Some (read_so_far cat m (Suc j))"
    using metric_element_read [OF assms j] by blast
  have "read_elements (read_so_far cat m (Suc j)) (List.map_filter (metric_element m) [Suc j..<category_num cat]) = Some m"
    using Suc.hyps(2) j by (intro Suc.hyps(1)) auto
  then show ?case using step j by (simp add: upt_conv_Cons)
qed

section \<open>Bounds of the base score\<close>

text \<open>Rounding is exact for 0 and 1 and off by at most a millionth in the range of the computation.\<close>

definition close_rounding :: "(rat \<Rightarrow> rat) \<Rightarrow> bool" where
  "close_rounding rnd \<longleftrightarrow> rnd 0 = 0 \<and> rnd 1 = 1
     \<and> (\<forall>x. 1 / 1000000 \<le> \<bar>x\<bar> \<longrightarrow> \<bar>x\<bar> \<le> 1000000 \<longrightarrow> \<bar>rnd x - x\<bar> \<le> \<bar>x\<bar> / 1000000)"

definition in_range :: "rat \<Rightarrow> rat \<Rightarrow> rat \<Rightarrow> bool" where
  "in_range l u x \<longleftrightarrow> l \<le> x \<and> x \<le> u"

lemma in_range_round:
  assumes "close_rounding rnd" and "in_range l u x" and "1 / 1000000 \<le> l" and "u \<le> 1000000"
    and "l' \<le> l * (999999 / 1000000)" and "u * (1000001 / 1000000) \<le> u'"
  shows "in_range l' u' (rnd x)"
proof -
  have x: "0 < x" "x \<le> 1000000" "1 / 1000000 \<le> x" using assms(2-4) by (auto simp: in_range_def)
  then have "\<bar>rnd x - x\<bar> \<le> x / 1000000" using assms(1) unfolding close_rounding_def by (metis abs_of_pos)
  then have "x * (999999 / 1000000) \<le> rnd x" "rnd x \<le> x * (1000001 / 1000000)" by linarith+
  moreover have "l * (999999 / 1000000) \<le> x * (999999 / 1000000)" "x * (1000001 / 1000000) \<le> u * (1000001 / 1000000)"
    using assms(2) by (simp_all add: in_range_def)
  ultimately show ?thesis using assms(5,6) by (auto simp: in_range_def)
qed

lemma in_range_mult:
  assumes "in_range l1 u1 x" and "in_range l2 u2 y" and "0 \<le> l1" and "0 \<le> l2"
  shows "in_range (l1 * l2) (u1 * u2) (x * y)"
  using assms by (auto simp: in_range_def intro!: mult_mono)

lemma in_range_add: "in_range l1 u1 x \<Longrightarrow> in_range l2 u2 y \<Longrightarrow> in_range (l1 + l2) (u1 + u2) (x + y)"
  by (auto simp: in_range_def)

lemma in_range_diff: "in_range l1 u1 x \<Longrightarrow> in_range l2 u2 y \<Longrightarrow> in_range (l1 - u2) (u1 - l2) (x - y)"
  by (auto simp: in_range_def)

lemma in_range_self: "in_range x x x"
  by (simp add: in_range_def)

lemma base_weights:
  "list_all (\<lambda>e. valtab_value e \<noteq> 0 \<longrightarrow>
     (valtab_key e = 256 \<longrightarrow> pred_option (in_range (395 / 1000) 1) (valtab_weight e) \<and> valtab_weight e \<noteq> None)
     \<and> (valtab_key e = 257 \<longrightarrow> pred_option (in_range (35 / 100) (71 / 100)) (valtab_weight e) \<and> valtab_weight e \<noteq> None)
     \<and> (valtab_key e = 258 \<longrightarrow> pred_option (in_range (45 / 100) (704 / 1000)) (valtab_weight e) \<and> valtab_weight e \<noteq> None)
     \<and> (valtab_key e \<in> {259, 260, 261} \<longrightarrow>
          (if valtab_value e = 1 then valtab_weight e = Some 0
           else pred_option (in_range (275 / 1000) (66 / 100)) (valtab_weight e) \<and> valtab_weight e \<noteq> None))) CVSS_VALTAB"
  unfolding CVSS_VALTAB_def list.pred_inject cvss_valtab_entry.simps by (simp add: in_range_def)

lemma base_weight:
  assumes "e \<in> set CVSS_VALTAB" and "valtab_value e \<noteq> 0"
  shows "valtab_key e = 256 \<Longrightarrow> \<exists>w. valtab_weight e = Some w \<and> in_range (395 / 1000) 1 w"
    and "valtab_key e = 257 \<Longrightarrow> \<exists>w. valtab_weight e = Some w \<and> in_range (35 / 100) (71 / 100) w"
    and "valtab_key e = 258 \<Longrightarrow> \<exists>w. valtab_weight e = Some w \<and> in_range (45 / 100) (704 / 1000) w"
    and "valtab_key e \<in> {259, 260, 261} \<Longrightarrow>
      \<exists>w. valtab_weight e = Some w \<and> (if valtab_value e = 1 then w = 0 else in_range (275 / 1000) (66 / 100) w)"
proof -
  note range = base_weights [unfolded list_all_iff, rule_format, OF assms]
  show "valtab_key e = 256 \<Longrightarrow> \<exists>w. valtab_weight e = Some w \<and> in_range (395 / 1000) 1 w" using range by auto
  show "valtab_key e = 257 \<Longrightarrow> \<exists>w. valtab_weight e = Some w \<and> in_range (35 / 100) (71 / 100) w" using range by auto
  show "valtab_key e = 258 \<Longrightarrow> \<exists>w. valtab_weight e = Some w \<and> in_range (45 / 100) (704 / 1000) w" using range by auto
  show "valtab_key e \<in> {259, 260, 261} \<Longrightarrow>
      \<exists>w. valtab_weight e = Some w \<and> (if valtab_value e = 1 then w = 0 else in_range (275 / 1000) (66 / 100) w)"
    using range by (cases "valtab_value e = 1") auto
qed

text \<open>The weights of the metrics of an impact, before rounding.\<close>

lemma rounded_weight:
  assumes "base_metrics impact = Some m" and "metrics_ok CVSS_BASE m" and "cvss_metrics_is_valid (Some m)" and "i < 6"
  obtains e where "e \<in> set CVSS_VALTAB" and "valtab_key e = 256 + i" and "valtab_value e = metrics_ANY m ! i"
    and "valtab_value e \<noteq> 0" and "CVSS_W rf impact (256 + i) = map_option rf (valtab_weight e)"
proof -
  obtain e where e: "e \<in> set CVSS_VALTAB" "valtab_key e = 256 + i" "valtab_value e = metrics_ANY m ! i"
      "cvss_valtab (category m + i) (metrics_ANY m ! i) None None = e" "CVSS_CATEGORY (256 + i) = 256" "CVSS_KEY_IDX (256 + i) = i"
    using metric_entry [OF assms(2), of i] assms(4) by (metis category_num_simps(1))
  have cat: "category m = 256" by (rule metrics_okD(1) [OF assms(2)])
  then have "CVSS_W rf impact (256 + i) = map_option rf (valtab_weight e)"
    using e(4-6) assms(1) by (simp add: CVSS_W_def cvss_impact_entry_def cvss_impact_val_def cvss_impact_metricsptr_def)
  moreover have "valtab_value e \<noteq> 0" using assms(3,4) cat e(3) by (auto simp: cvss_metrics_is_valid_def list_all_iff)
  ultimately show ?thesis using that e(1-3) by blast
qed

lemma exploitability_bounds:
  assumes "close_rounding rf" and "base_metrics impact = Some m" and "metrics_ok CVSS_BASE m" and "cvss_metrics_is_valid (Some m)"
  shows "\<exists>x. cvss_impact_base_exploitability_subscore rf impact = Some x \<and> in_range (122 / 100) (10002 / 1000) x"
proof -
  obtain av where av: "CVSS_W rf impact 256 = Some (rf av)" "in_range (395 / 1000) 1 av"
  proof -
    obtain e where e: "e \<in> set CVSS_VALTAB" "valtab_key e = 256 + 0" "valtab_value e \<noteq> 0" "CVSS_W rf impact (256 + 0) = map_option rf (valtab_weight e)"
      by (rule rounded_weight [OF assms(2-4), of 0 rf]) simp
    then show ?thesis using base_weight(1) [OF e(1,3)] that by auto
  qed
  obtain ac where ac: "CVSS_W rf impact 257 = Some (rf ac)" "in_range (35 / 100) (71 / 100) ac"
  proof -
    obtain e where e: "e \<in> set CVSS_VALTAB" "valtab_key e = 256 + 1" "valtab_value e \<noteq> 0" "CVSS_W rf impact (256 + 1) = map_option rf (valtab_weight e)"
      by (rule rounded_weight [OF assms(2-4), of 1 rf]) simp
    then show ?thesis using base_weight(2) [OF e(1,3)] that by auto
  qed
  obtain au where au: "CVSS_W rf impact 258 = Some (rf au)" "in_range (45 / 100) (704 / 1000) au"
  proof -
    obtain e where e: "e \<in> set CVSS_VALTAB" "valtab_key e = 256 + 2" "valtab_value e \<noteq> 0" "CVSS_W rf impact (256 + 2) = map_option rf (valtab_weight e)"
      by (rule rounded_weight [OF assms(2-4), of 2 rf]) simp
    then show ?thesis using base_weight(3) [OF e(1,3)] that by auto
  qed
  have 1: "in_range (394 / 1000) (100001 / 100000) (rf av)" by (rule in_range_round [OF assms(1) av(2)]) simp_all
  have 2: "in_range (349 / 1000) (71001 / 100000) (rf ac)" by (rule in_range_round [OF assms(1) ac(2)]) simp_all
  have 3: "in_range (449 / 1000) (70401 / 100000) (rf au)" by (rule in_range_round [OF assms(1) au(2)]) simp_all
  have 4: "in_range (787 / 100) (20001 / 1000) (rf (20 * rf av))"
    by (rule in_range_round [OF assms(1) in_range_mult [OF in_range_self 1]]) simp_all
  have 5: "in_range (274 / 100) (14202 / 1000) (rf (rf (20 * rf av) * rf ac))"
    by (rule in_range_round [OF assms(1) in_range_mult [OF 4 2]]) simp_all
  have "in_range (122 / 100) (10002 / 1000) (rf (rf (rf (20 * rf av) * rf ac) * rf au))"
    by (rule in_range_round [OF assms(1) in_range_mult [OF 5 3]]) simp_all
  then show ?thesis using av(1) ac(1) au(1) by (simp add: cvss_impact_base_exploitability_subscore_def fop_def)
qed

text \<open>One minus the weight of an impact: 1 for the value NONE (1).\<close>

lemma impact_factor:
  assumes "close_rounding rf" and "close_rounding rd" and "base_metrics impact = Some m" and "metrics_ok CVSS_BASE m"
    and "cvss_metrics_is_valid (Some m)" and "3 \<le> i" and "i < 6"
  obtains w where "CVSS_W rf impact (256 + i) = Some w"
    and "if metrics_ANY m ! i = 1 then rd (1 - w) = 1 else in_range (3398 / 10000) (7261 / 10000) (rd (1 - w))"
proof -
  obtain e where e: "e \<in> set CVSS_VALTAB" "valtab_key e = 256 + i" "valtab_value e = metrics_ANY m ! i" "valtab_value e \<noteq> 0"
      "CVSS_W rf impact (256 + i) = map_option rf (valtab_weight e)"
    by (rule rounded_weight [OF assms(3-5,7)])
  have "valtab_key e \<in> {259, 260, 261}" using e(2) assms(6,7) by auto
  then obtain w where w: "valtab_weight e = Some w" "if valtab_value e = 1 then w = 0 else in_range (275 / 1000) (66 / 100) w"
    using base_weight(4) [OF e(1,4)] by blast
  show ?thesis
  proof (rule that [of "rf w"])
    show "CVSS_W rf impact (256 + i) = Some (rf w)" using e(5) w(1) by simp
    show "if metrics_ANY m ! i = 1 then rd (1 - rf w) = 1 else in_range (3398 / 10000) (7261 / 10000) (rd (1 - rf w))"
    proof (cases "metrics_ANY m ! i = 1")
      case True
      then show ?thesis using w(2) e(3) assms(1,2) by (simp add: close_rounding_def)
    next
      case False
      then have "in_range (275 / 1000) (66 / 100) w" using w(2) e(3) by simp
      then have "in_range (274 / 1000) (66001 / 100000) (rf w)" by (rule in_range_round [OF assms(1)]) simp_all
      from in_range_diff [OF in_range_self [of 1] this]
      have "in_range (3398 / 10000) (7261 / 10000) (rd (1 - rf w))" by (rule in_range_round [OF assms(2)]) simp_all
      then show ?thesis using False by simp
    qed
  qed
qed

lemma in_range_wider: "in_range l u x \<Longrightarrow> l' \<le> l \<Longrightarrow> u \<le> u' \<Longrightarrow> in_range l' u' x"
  by (auto simp: in_range_def)

text \<open>The product of the three factors.\<close>

lemma factors_product:
  assumes "close_rounding rd" and "\<And>k. k < 3 \<Longrightarrow> if none k then f k = 1 else in_range (3398 / 10000) (7261 / 10000) (f k)"
  shows "if none 0 \<and> none 1 \<and> none 2 then rd (rd (f 0 * f 1) * f 2) = (1 :: rat)
    else in_range (392 / 10000) (7262 / 10000) (rd (rd (f 0 * f 1) * f (2 :: nat)))"
proof -
  have f: "in_range (3398 / 10000) 1 (f k)" if "k < 3" for k
    using assms(2) [OF that] by (cases "none k") (auto simp: in_range_def)
  have less: "in_range (3398 / 10000) (7261 / 10000) (f k)" if "k < 3" "\<not> none k" for k using assms(2) [OF that(1)] that(2) by simp
  have any: "in_range (1154 / 10000) (1000001 / 1000000) (rd (f 0 * f 1))"
    by (rule in_range_round [OF assms(1) in_range_mult [OF f f]]) simp_all
  have "in_range (1154 / 10000) (72611 / 100000) (rd (f 0 * f 1))" if "\<not> none 0"
    by (rule in_range_round [OF assms(1) in_range_mult [OF less [OF _ that] f]]) simp_all
  moreover have "in_range (1154 / 10000) (72611 / 100000) (rd (f 0 * f 1))" if "\<not> none 1"
    by (rule in_range_round [OF assms(1) in_range_mult [OF f less [OF _ that]]]) simp_all
  ultimately have two: "in_range (1154 / 10000) (72611 / 100000) (rd (f 0 * f 1))" if "\<not> none 0 \<or> \<not> none 1" using that by blast
  have "in_range (392 / 10000) (7262 / 10000) (rd (rd (f 0 * f 1) * f 2))" if "\<not> none 0 \<or> \<not> none 1"
    by (rule in_range_round [OF assms(1) in_range_mult [OF two [OF that] f]]) simp_all
  moreover have "in_range (392 / 10000) (7262 / 10000) (rd (rd (f 0 * f 1) * f 2))" if "\<not> none 2"
    by (rule in_range_round [OF assms(1) in_range_mult [OF any less [OF _ that]]]) simp_all
  moreover have "rd (rd (f 0 * f 1) * f 2) = 1" if "none 0" "none 1" "none 2"
    using assms(2) [of 0] assms(2) [of 1] assms(2) [of 2] that assms(1) by (simp add: close_rounding_def)
  ultimately show ?thesis by auto
qed

text \<open>No impact on confidentiality, integrity and availability.\<close>

definition no_impact :: "cvss_metrics \<Rightarrow> bool" where
  "no_impact m \<longleftrightarrow> metrics_ANY m ! 3 = CVSS_IMP_NONE \<and> metrics_ANY m ! 4 = CVSS_IMP_NONE \<and> metrics_ANY m ! 5 = CVSS_IMP_NONE"

lemma impact_bounds:
  assumes "close_rounding rf" and "close_rounding rd" and "base_metrics impact = Some m" and "metrics_ok CVSS_BASE m"
    and "cvss_metrics_is_valid (Some m)"
  shows "\<exists>x. cvss_impact_base_impact_subscore rf rd impact = Some x
    \<and> (if no_impact m then x = 0 else in_range (2847 / 1000) (10004 / 1000) x)"
proof -
  have "\<exists>w. CVSS_W rf impact (256 + (k + 3)) = Some w
      \<and> (if metrics_ANY m ! (k + 3) = 1 then rd (1 - w) = 1 else in_range (3398 / 10000) (7261 / 10000) (rd (1 - w)))" if "k < 3" for k
  proof -
    have "3 \<le> k + 3" "k + 3 < 6" using that by simp_all
    from impact_factor [OF assms this] show ?thesis by blast
  qed
  then obtain w where w: "\<And>k. k < 3 \<Longrightarrow> CVSS_W rf impact (256 + (k + 3)) = Some (w k)
      \<and> (if metrics_ANY m ! (k + 3) = 1 then rd (1 - w k) = 1 else in_range (3398 / 10000) (7261 / 10000) (rd (1 - w k)))"
    by metis
  define p where "p = rd (rd (rd (1 - w 0) * rd (1 - w 1)) * rd (1 - w 2))"
  have p: "if no_impact m then p = 1 else in_range (392 / 10000) (7262 / 10000) p"
  proof -
    have "if metrics_ANY m ! (k + 3) = 1 then rd (1 - w k) = 1 else in_range (3398 / 10000) (7261 / 10000) (rd (1 - w k))" if "k < 3" for k
      by (rule conjunct2 [OF w [OF that]])
    from factors_product [OF assms(2), of "\<lambda>k. metrics_ANY m ! (k + 3) = 1" "\<lambda>k. rd (1 - w k)", OF this]
    show ?thesis by (simp add: p_def no_impact_def cong: if_cong)
  qed
  define x where "x = rf (rd (rd (1041 / 100) * rd (1 - p)))"
  have sub: "cvss_impact_base_impact_subscore rf rd impact = Some x"
    using w [of 0] w [of 1] w [of 2] by (simp add: cvss_impact_base_impact_subscore_def impact_of_def fop_def x_def p_def)
  have const: "in_range (104099 / 10000) (104101 / 10000) (rd (1041 / 100))" by (rule in_range_round [OF assms(2) in_range_self]) simp_all
  show ?thesis
  proof (cases "no_impact m")
    case True
    then show ?thesis using sub p assms(1,2) by (simp add: x_def close_rounding_def)
  next
    case False
    then have "in_range (392 / 10000) (7262 / 10000) p" using p by simp
    from in_range_diff [OF in_range_self [of 1] this] have "in_range (2737 / 10000) (9609 / 10000) (rd (1 - p))"
      by (rule in_range_round [OF assms(2)]) simp_all
    from in_range_mult [OF const this] have "in_range (2848 / 1000) (100032 / 10000) (rd (rd (1041 / 100) * rd (1 - p)))"
      by (rule in_range_round [OF assms(2)]) simp_all
    then have "in_range (2847 / 1000) (10004 / 1000) x" unfolding x_def by (rule in_range_round [OF assms(1)]) simp_all
    then show ?thesis using sub False by simp
  qed
qed


text \<open>Rounding a number to a tenth.\<close>

lemma round_tenth:
  assumes "close_rounding rd" and "in_range (808 / 1000) (100024 / 10000) x"
  shows "\<exists>n. cvss_round rf rd (Some x) = Some (Some (rf (rd (of_int n / 10)))) \<and> 0 < n \<and> n \<le> 100"
proof -
  have eps: "in_range (99 / 10000000) (101 / 10000000) (rd (1 / 100000))" by (rule in_range_round [OF assms(1) in_range_self]) simp_all
  have "in_range (807 / 100) (100025 / 1000) (rd (x * 10))"
    by (rule in_range_round [OF assms(1) in_range_mult [OF assms(2) in_range_self]]) simp_all
  from in_range_add [OF this eps] have y: "in_range (806 / 100) (100026 / 1000) (rd (rd (x * 10) + rd (1 / 100000)))"
    by (rule in_range_round [OF assms(1)]) simp_all
  define n where "n = c_round (rd (rd (x * 10) + rd (1 / 100000)))"
  have "0 < n" "n \<le> 100" using y by (simp_all add: n_def c_round_def in_range_def)
  then show ?thesis by (intro exI [of _ n]) (simp add: cvss_round_def n_def Let_def)
qed

lemma round_zero:
  assumes "close_rounding rd"
  shows "cvss_round rf rd (Some 0) = Some (Some (rf (rd 0)))"
proof -
  have eps: "in_range (99 / 10000000) (101 / 10000000) (rd (1 / 100000))" by (rule in_range_round [OF assms(1) in_range_self]) simp_all
  have "in_range (98 / 10000000) (102 / 10000000) (rd (rd (1 / 100000)))" by (rule in_range_round [OF assms eps]) simp_all
  then have "c_round (rd (rd (1 / 100000))) = 0" by (simp add: c_round_def in_range_def) linarith
  then show ?thesis using assms by (simp add: cvss_round_def close_rounding_def Let_def)
qed

lemma base_score_bounds:
  assumes "close_rounding rf" and "close_rounding rd" and "in_range (122 / 100) (10002 / 1000) y"
    and "x = 0 \<or> in_range (2847 / 1000) (10004 / 1000) x"
  shows "\<exists>n. base_score_of rf rd (Some x) (Some y) = Some (Some (rf (rd (of_int n / 10)))) \<and> 0 \<le> n \<and> n \<le> 100 \<and> (n = 0 \<longleftrightarrow> x = 0)"
proof (cases "x = 0")
  case True
  have "rf 0 = 0" "rd 0 = 0" using assms(1,2) by (simp_all add: close_rounding_def)
  then show ?thesis using True round_zero [OF assms(2)] by (intro exI [of _ 0]) (simp add: base_score_of_def fop_def Let_def)
next
  case False
  then have x: "in_range (2847 / 1000) (10004 / 1000) x" using assms(4) by simp
  have c6: "in_range (59999 / 100000) (60001 / 100000) (rd (6 / 10))" by (rule in_range_round [OF assms(2) in_range_self]) simp_all
  have c4: "in_range (39999 / 100000) (40001 / 100000) (rd (4 / 10))" by (rule in_range_round [OF assms(2) in_range_self]) simp_all
  have c1: "in_range (11759 / 10000) (11761 / 10000) (rd (1176 / 1000))" by (rule in_range_round [OF assms(2) in_range_self]) simp_all
  have f: "in_range (11758 / 10000) (11762 / 10000) (rf (rd (1176 / 1000)))" by (rule in_range_round [OF assms(1) c1]) simp_all
  have a: "in_range (1708 / 1000) (60026 / 10000) (rd (rd (6 / 10) * x))"
    by (rule in_range_round [OF assms(2) in_range_mult [OF c6 x]]) simp_all
  have b: "in_range (487 / 1000) (40010 / 10000) (rd (rd (4 / 10) * y))"
    by (rule in_range_round [OF assms(2) in_range_mult [OF c4 assms(3)]]) simp_all
  define s where "s = rd (rd (rd (6 / 10) * x) + rd (rd (4 / 10) * y))"
  have s: "in_range (2194 / 1000) (100037 / 10000) s" unfolding s_def by (rule in_range_round [OF assms(2) in_range_add [OF a b]]) simp_all
  from in_range_diff [OF this in_range_self [of "15 / 10"]] have "in_range (693 / 1000) (85038 / 10000) (rd (s - 15 / 10))"
    by (rule in_range_round [OF assms(2)]) simp_all
  from in_range_mult [OF this f] have "in_range (812 / 1000) (100023 / 10000) (rd (rd (s - 15 / 10) * rf (rd (1176 / 1000))))"
    by (rule in_range_round [OF assms(2)]) simp_all
  then have "in_range (808 / 1000) (100024 / 10000) (rf (rd (rd (s - 15 / 10) * rf (rd (1176 / 1000)))))"
    by (rule in_range_round [OF assms(1)]) simp_all
  from round_tenth [OF assms(2) this, of rf] obtain n where n: "0 < n" "n \<le> 100"
      "cvss_round rf rd (Some (rf (rd (rd (s - 15 / 10) * rf (rd (1176 / 1000)))))) = Some (Some (rf (rd (of_int n / 10))))"
    by blast
  have "base_score_of rf rd (Some x) (Some y) = cvss_round rf rd (Some (rf (rd (rd (s - 15 / 10) * rf (rd (1176 / 1000))))))"
    using False by (simp add: base_score_of_def fop_def s_def Let_def)
  then show ?thesis using n False by (intro exI [of _ n]) simp
qed


section \<open>An example\<close>

text \<open>An impact with all base metrics at their third value.\<close>

definition demo_impact :: cvss_impact where
  "demo_impact = \<lparr>base_metrics = Some ((cvss_metrics_new CVSS_BASE)\<lparr>metrics_ANY := [3, 3, 3, 3, 3, 3]\<rparr>),
     temporal_metrics = None, environmental_metrics = None\<rparr>"

lemma valtab_base_third:
  "i < 6 \<Longrightarrow> \<exists>e\<in>set CVSS_VALTAB. valtab_key e = 256 + i \<and> valtab_value e = 3"
proof -
  assume "i < 6"
  then have "i \<in> {0, 1, 2, 3, 4, 5}" by (simp only: insert_iff empty_iff) presburger
  then have "(256 + i, 3) \<in> set (map (\<lambda>e. (valtab_key e, valtab_value e)) CVSS_VALTAB)"
    unfolding CVSS_VALTAB_def list.map cvss_valtab_entry.simps by (elim insertE emptyE) simp_all
  then show ?thesis by (auto simp: image_iff)
qed

lemma demo_impact_ok: "impact_ok demo_impact"
proof -
  have "[3, 3, 3, 3, 3, 3] ! i = (3::nat)" if "i < 6" for i
    using that nth_replicate [of i 6 "3 :: nat"] by (simp add: numeral_eq_Suc)
  then show ?thesis
    using valtab_base_third by (simp add: impact_ok_def demo_impact_def metrics_ok_def cvss_metrics_new_def)
qed

section \<open>Properties\<close>



text \<open>
  C33. The base score of valid base metrics is a tenth from 0 to 10, and 0 just when there is no impact on
  confidentiality, integrity and availability, whatever the rounding of the operations within a millionth.
\<close>

theorem cvss_base_score_bounds:
  assumes "close_rounding rf" and "close_rounding rd" and "base_metrics impact = Some m" and "metrics_ok CVSS_BASE m"
    and "cvss_metrics_is_valid (Some m)"
  shows "\<exists>n. cvss_impact_base_score rf rd impact = Some (Some (rf (rd (of_int n / 10)))) \<and> 0 \<le> n \<and> n \<le> 100
    \<and> (n = 0 \<longleftrightarrow> no_impact m)"
proof -
  obtain y where y: "cvss_impact_base_exploitability_subscore rf impact = Some y" "in_range (122 / 100) (10002 / 1000) y"
    using exploitability_bounds [OF assms(1,3-5)] by blast
  obtain x where x: "cvss_impact_base_impact_subscore rf rd impact = Some x"
      "if no_impact m then x = 0 else in_range (2847 / 1000) (10004 / 1000) x"
    using impact_bounds [OF assms] by blast
  have "x = 0 \<or> in_range (2847 / 1000) (10004 / 1000) x" "x = 0 \<longleftrightarrow> no_impact m"
    using x(2) by (auto simp: in_range_def split: if_splits)
  then show ?thesis
    using base_score_bounds [OF assms(1,2) y(2), of x] x(1) y(1) assms(3,5)
    by (simp add: cvss_impact_base_score_def cvss_impact_base_score_impl_def)
qed

lemma cvss_base_score_bounds_witness:
  "\<exists>n. cvss_impact_base_score (\<lambda>a. a) (\<lambda>a. a) demo_impact = Some (Some (of_int n / 10)) \<and> 0 \<le> n \<and> n \<le> 100
    \<and> (n = 0 \<longleftrightarrow> no_impact (the (base_metrics demo_impact)))"
proof (rule cvss_base_score_bounds)
  show "close_rounding (\<lambda>a. a)" "close_rounding (\<lambda>a. a)" by (simp_all add: close_rounding_def)
  show "base_metrics demo_impact = Some (the (base_metrics demo_impact))" by (simp add: demo_impact_def)
  show "metrics_ok CVSS_BASE (the (base_metrics demo_impact))" using demo_impact_ok by (simp add: impact_ok_def demo_impact_def)
  show "cvss_metrics_is_valid (Some (the (base_metrics demo_impact)))"
    by (simp add: demo_impact_def cvss_metrics_is_valid_def upt_rec)
qed


end
