(* ===== verification/Seap_Spb.thy ===== *)
theory Seap_Spb
  imports Complex_Main "HOL-Library.Word" Prelude
begin

text \<open>
  Sparse buffers (\<open>OVAL/probes/SEAP/generic/spb.c\<close>), in which the parser of S-expressions keeps what it
  receives: an array of buffers that are read as one.

  The memory at a base address is the list of its bytes. The array is the list of the items in use (the first
  \<open>btotal\<close> slots); \<open>balloc\<close> is the number of slots. Reads and writes outside a buffer or the array are None.
\<close>

unbundle bit_operations_syntax

section \<open>Buffers\<close>

type_synonym octet = "8 word"

record spb_item =
  spb_base :: "octet list"
  gend :: "64 word"

record spb =
  spb_buffer :: "spb_item list"
  btotal :: "32 word"
  balloc :: "32 word"

abbreviation SPB_DEFAULT_BALLOC :: "32 word" where "SPB_DEFAULT_BALLOC \<equiv> 32"
abbreviation SPB_BALLOC_HIGHTRESH :: "32 word" where "SPB_BALLOC_HIGHTRESH \<equiv> 512"
abbreviation SPB_BALLOC_ADD :: "32 word" where "SPB_BALLOC_ADD \<equiv> 32"

definition spb_gend :: "spb \<Rightarrow> nat \<Rightarrow> 64 word option" where
  "spb_gend spb i = (if i < length (spb_buffer spb) then Some (gend (spb_buffer spb ! i)) else None)"

definition spb_new :: "octet list option \<Rightarrow> 64 word \<Rightarrow> 32 word \<Rightarrow> spb" where
  "spb_new buf buflen alloc =
     (case buf of
        Some b \<Rightarrow>
          if buflen > 0
          then \<lparr>spb_buffer = [\<lparr>spb_base = b, gend = buflen - 1\<rparr>], btotal = 1,
                balloc = (if alloc = 0 then SPB_DEFAULT_BALLOC else alloc)\<rparr>
          else \<lparr>spb_buffer = [], btotal = 0, balloc = (if alloc = 0 then SPB_DEFAULT_BALLOC else alloc)\<rparr>
      | None \<Rightarrow> \<lparr>spb_buffer = [], btotal = 0, balloc = (if alloc = 0 then SPB_DEFAULT_BALLOC else alloc)\<rparr>)"

definition spb_size :: "spb \<Rightarrow> 64 word option" where
  "spb_size spb = (if btotal spb > 0 then map_option (\<lambda>g. g + 1) (spb_gend spb (unat (btotal spb - 1))) else Some 0)"

text \<open>The binary search: \<open>s\<close> is where the rest of \<open>w\<close> items begins.\<close>

function spb_bsearch :: "spb \<Rightarrow> 64 word \<Rightarrow> 32 word \<Rightarrow> 32 word \<Rightarrow> 32 word option" where
  "spb_bsearch spb idx s w =
     (if w > 0 then
        (case spb_gend spb (unat (s + w div 2)) of
           None \<Rightarrow> None
         | Some g \<Rightarrow>
             if idx > g then spb_bsearch spb idx (s + (w div 2 + 1)) (w - w div 2 - 1)
             else spb_bsearch spb idx s (w div 2))
      else Some s)"
  by auto
termination
proof (relation "measure (\<lambda>(spb, idx, s, w). unat w)", simp)
  fix s w :: "32 word" assume "w > 0"
  then have "unat w > 0" by (simp add: unat_gt_0)
  moreover have half: "unat (w div 2) = unat w div 2" by (simp add: unat_div)
  moreover have "unat (w - w div 2 - 1) = unat w - unat w div 2 - 1"
  proof -
    have "w div 2 \<le> w" by (simp add: word_le_nat_alt half)
    then have "unat (w - w div 2) = unat w - unat w div 2" by (simp add: unat_sub half)
    moreover have "1 \<le> w - w div 2"
      using calculation \<open>unat w > 0\<close> by (simp add: word_le_nat_alt)
    ultimately show ?thesis by (simp add: unat_sub)
  qed
  ultimately show "((spb, idx, s + (w div 2 + 1), w - w div 2 - 1), spb, idx, s, w) \<in> measure (\<lambda>(spb, idx, s, w). unat w)"
      "((spb, idx, s, w div 2), spb, idx, s, w) \<in> measure (\<lambda>(spb, idx, s, w). unat w)" for spb :: spb and idx :: "64 word"
    by auto
qed

declare spb_bsearch.simps [simp del]

text \<open>The size is kept in 32 bits.\<close>

definition spb_bindex :: "spb \<Rightarrow> 64 word \<Rightarrow> 32 word option" where
  "spb_bindex spb idx =
     (case spb_size spb of
        None \<Rightarrow> None
      | Some len \<Rightarrow>
          (let s = ucast len :: 32 word in
           if idx < ucast s then spb_bsearch spb idx 0 (btotal spb) else Some (btotal spb)))"

definition spb_add :: "spb \<Rightarrow> octet list \<Rightarrow> 64 word \<Rightarrow> spb option" where
  "spb_add spb buf buflen =
     (let alloc = (if btotal spb \<ge> balloc spb then
                     (if balloc spb < SPB_BALLOC_HIGHTRESH then push_bit 1 (balloc spb) else balloc spb + SPB_BALLOC_ADD)
                   else balloc spb)
      in case (if btotal spb > 0 then map_option (\<lambda>g. g + buflen) (spb_gend spb (unat (btotal spb - 1))) else Some (buflen - 1)) of
           None \<Rightarrow> None
         | Some g \<Rightarrow>
             if btotal spb < alloc
             then Some (spb\<lparr>spb_buffer := spb_buffer spb @ [\<lparr>spb_base = buf, gend = g\<rparr>], btotal := btotal spb + 1, balloc := alloc\<rparr>)
             else None)"

section \<open>Reading\<close>

text \<open>Bytes of a buffer, from an offset.\<close>

definition spb_copy :: "spb \<Rightarrow> nat \<Rightarrow> 64 word \<Rightarrow> 64 word \<Rightarrow> octet list option" where
  "spb_copy spb i off len =
     (if i < length (spb_buffer spb) \<and> unat off + unat len \<le> length (spb_base (spb_buffer spb ! i))
      then Some (take (unat len) (drop (unat off) (spb_base (spb_buffer spb ! i)))) else None)"

text \<open>
  The offset in a buffer of an index of the sparse buffer, and the number of bytes of the buffer. The index of
  a buffer is below \<open>btotal\<close>, so that it cannot wrap around.
\<close>

definition spb_offset :: "spb \<Rightarrow> nat \<Rightarrow> 64 word \<Rightarrow> 64 word option" where
  "spb_offset spb i start = (if i > 0 then map_option (\<lambda>g. start - g - 1) (spb_gend spb (i - 1)) else Some start)"

definition spb_length :: "spb \<Rightarrow> nat \<Rightarrow> 64 word option" where
  "spb_length spb i =
     (if i > 0 then Option.bind (spb_gend spb i) (\<lambda>g. map_option (\<lambda>g'. g - g') (spb_gend spb (i - 1)))
      else map_option (\<lambda>g. g + 1) (spb_gend spb 0))"

text \<open>The buffers after the first, handed to a callback until \<open>sz\<close> bytes are reached.\<close>

function spb_pick_loop :: "spb \<Rightarrow> nat \<Rightarrow> 64 word \<Rightarrow> ('a \<Rightarrow> octet list \<Rightarrow> 'a) \<Rightarrow> 'a \<Rightarrow> ('a \<times> 64 word) option" where
  "spb_pick_loop spb i sz cb arg =
     (if i < unat (btotal spb) \<and> sz > 0 then
        (case spb_length spb i of
           None \<Rightarrow> None
         | Some len \<Rightarrow>
             (let l_len = (if sz < len then sz else len) in
              case spb_copy spb i 0 l_len of
                None \<Rightarrow> None
              | Some bs \<Rightarrow> spb_pick_loop spb (Suc i) (sz - l_len) cb (cb arg bs)))
      else Some (arg, sz))"
  by auto
termination by (relation "measure (\<lambda>(spb, i, sz, cb, arg). unat (btotal spb) - i)") auto

declare spb_pick_loop.simps [simp del]

text \<open>What is returned, and what the callback made of the bytes.\<close>

definition spb_pick_cb :: "spb \<Rightarrow> 64 word \<Rightarrow> 64 word \<Rightarrow> ('a \<Rightarrow> octet list \<Rightarrow> 'a) \<Rightarrow> 'a \<Rightarrow> (int \<times> 'a) option" where
  "spb_pick_cb spb start sz cb arg =
     (case spb_bindex spb start of
        None \<Rightarrow> None
      | Some b_idx \<Rightarrow>
          if b_idx < btotal spb then
            (case spb_offset spb (unat b_idx) start of
               None \<Rightarrow> None
             | Some l_off \<Rightarrow>
                 (case spb_length spb (unat b_idx) of
                    None \<Rightarrow> None
                  | Some len \<Rightarrow>
                      (let l_len = (if sz < len - l_off then sz else len - l_off) in
                       case spb_copy spb (unat b_idx) l_off l_len of
                         None \<Rightarrow> None
                       | Some bs \<Rightarrow>
                           map_option (\<lambda>(arg', left). (if left > 0 then 1 else 0, arg'))
                             (spb_pick_loop spb (Suc (unat b_idx)) (sz - l_len) cb (cb arg bs)))))
          else Some (- 1, arg))"

text \<open>\<open>spb_pick\<close> does the same, copying the bytes one after the other to its destination.\<close>

definition spb_pick :: "spb \<Rightarrow> 64 word \<Rightarrow> 64 word \<Rightarrow> (int \<times> octet list) option" where
  "spb_pick spb start sz = spb_pick_cb spb start sz (@) []"

definition spb_pick_raw :: "spb \<Rightarrow> 32 word \<Rightarrow> 64 word \<Rightarrow> 64 word \<Rightarrow> (int \<times> octet list) option" where
  "spb_pick_raw spb bindex start sz = spb_pick spb start sz"

text \<open>An index out of range gives -1 as a byte.\<close>

definition spb_octet :: "spb \<Rightarrow> 64 word \<Rightarrow> octet option" where
  "spb_octet spb idx =
     (case spb_bindex spb idx of
        None \<Rightarrow> None
      | Some b_idx \<Rightarrow>
          if b_idx < btotal spb then
            Option.bind (spb_offset spb (unat b_idx) idx) (\<lambda>l_off. map_option hd (spb_copy spb (unat b_idx) l_off 1))
          else Some (- 1))"

text \<open>
  A pointer into a buffer when the bytes stand in one buffer, else NULL (\<open>Some None\<close>): what can be read there.
\<close>

definition spb_direct :: "spb \<Rightarrow> 64 word \<Rightarrow> 64 word \<Rightarrow> octet list option option" where
  "spb_direct spb start sz =
     (case spb_bindex spb start of
        None \<Rightarrow> None
      | Some b_idx \<Rightarrow>
          if b_idx < btotal spb then
            (case spb_gend spb (unat b_idx) of
               None \<Rightarrow> None
             | Some g \<Rightarrow>
                 if start + sz - 1 \<le> g
                 then map_option (\<lambda>l_off. Some (drop (unat l_off) (spb_base (spb_buffer spb ! unat b_idx))))
                        (spb_offset spb (unat b_idx) start)
                 else Some None)
          else Some None)"

section \<open>Dropping bytes\<close>

text \<open>
  The buffers before an index are dropped. Returned are the sparse buffer, how many bytes are gone, and the
  base addresses that are freed with \<open>SPB_FLAG_FREE\<close>.
\<close>

definition spb_drop_head :: "spb \<Rightarrow> 64 word \<Rightarrow> bool \<Rightarrow> (spb \<times> 64 word \<times> octet list list) option" where
  "spb_drop_head spb sz free =
     (case spb_bindex spb sz of
        None \<Rightarrow> None
      | Some b_idx \<Rightarrow>
          if b_idx > 0 then
            (if b_idx \<ge> btotal spb then
               map_option (\<lambda>g.
                   (\<lparr>spb_buffer = [], btotal = 0, balloc = SPB_DEFAULT_BALLOC\<rparr>, g + 1,
                    if free then rev (map spb_base (spb_buffer spb)) else []))
                 (spb_gend spb (unat (btotal spb - 1)))
             else
               map_option (\<lambda>g.
                   let e_sub = g + 1;
                       left = btotal spb - b_idx;
                       alloc = (if drop_bit 1 (balloc spb) > left then drop_bit 1 (balloc spb) else balloc spb)
                   in (\<lparr>spb_buffer = map (gend_update (\<lambda>g'. g' - e_sub)) (drop (unat b_idx) (spb_buffer spb)),
                        btotal = left, balloc = alloc\<rparr>, e_sub,
                       if free then rev (map spb_base (take (unat b_idx - 1) (spb_buffer spb))) else []))
                 (spb_gend spb (unat (b_idx - 1))))
          else Some (spb, 0, []))"

end
