(* ===== verification/Seap_Spb_Props.thy ===== *)
theory Seap_Spb_Props
  imports Seap_Spb
begin

text \<open>
  A sparse buffer behaves as the concatenation of its buffers, as long as this is smaller than 4 GiB.
\<close>

section \<open>The bytes of a sparse buffer\<close>

definition spb_bytes :: "spb \<Rightarrow> octet list" where
  "spb_bytes spb = concat (map spb_base (spb_buffer spb))"

text \<open>Where a buffer begins.\<close>

definition spb_begin :: "spb \<Rightarrow> nat \<Rightarrow> nat" where
  "spb_begin spb i = length (concat (map spb_base (take i (spb_buffer spb))))"

definition spb_ok :: "spb \<Rightarrow> bool" where
  "spb_ok spb \<longleftrightarrow> length (spb_buffer spb) = unat (btotal spb) \<and> length (spb_bytes spb) < 2 ^ 32
     \<and> 0 < balloc spb \<and> btotal spb \<le> balloc spb
     \<and> (\<forall>i<length (spb_buffer spb). Suc (unat (gend (spb_buffer spb ! i))) = spb_begin spb (Suc i))"

lemma spb_begin_0 [simp]: "spb_begin spb 0 = 0"
  by (simp add: spb_begin_def)

lemma spb_begin_Suc:
  "i < length (spb_buffer spb) \<Longrightarrow> spb_begin spb (Suc i) = spb_begin spb i + length (spb_base (spb_buffer spb ! i))"
  by (simp add: spb_begin_def take_Suc_conv_app_nth)

lemma spb_begin_all: "length (spb_buffer spb) \<le> i \<Longrightarrow> spb_begin spb i = length (spb_bytes spb)"
  by (simp add: spb_begin_def spb_bytes_def)

lemma spb_begin_mono: "i \<le> j \<Longrightarrow> spb_begin spb i \<le> spb_begin spb j"
proof -
  assume "i \<le> j"
  then obtain k where "j = i + k" by (auto simp: le_iff_add)
  then show ?thesis by (simp add: spb_begin_def take_add)
qed

lemma spb_begin_le: "spb_begin spb i \<le> length (spb_bytes spb)"
  using spb_begin_mono [of i "max i (length (spb_buffer spb))" spb] spb_begin_all [of spb "max i (length (spb_buffer spb))"] by simp

lemma drop_begin:
  assumes "i < length (spb_buffer spb)"
  shows "drop (spb_begin spb i) (spb_bytes spb) = spb_base (spb_buffer spb ! i) @ drop (spb_begin spb (Suc i)) (spb_bytes spb)"
proof -
  have split: "spb_bytes spb = concat (map spb_base (take k (spb_buffer spb))) @ concat (map spb_base (drop k (spb_buffer spb)))" for k
    unfolding spb_bytes_def by (metis append_take_drop_id concat_append map_append)
  have "drop (spb_begin spb k) (spb_bytes spb) = concat (map spb_base (drop k (spb_buffer spb)))" for k
    using split [of k] by (simp add: spb_begin_def)
  then show ?thesis using assms by (simp add: Cons_nth_drop_Suc [symmetric])
qed

lemma spb_gend_ok:
  assumes "spb_ok spb" and "i < length (spb_buffer spb)"
  obtains g where "spb_gend spb i = Some g" and "Suc (unat g) = spb_begin spb (Suc i)"
  using assms by (auto simp: spb_ok_def spb_gend_def)

lemma unat_begin: "spb_ok spb \<Longrightarrow> n \<le> length (spb_bytes spb) \<Longrightarrow> unat (of_nat n :: 64 word) = n"
  by (simp add: spb_ok_def unsigned_of_nat take_bit_nat_eq_self)

lemma spb_length_ok:
  assumes "spb_ok spb" and "i < length (spb_buffer spb)"
  shows "spb_length spb i = Some (of_nat (length (spb_base (spb_buffer spb ! i))))"
proof -
  obtain g where g: "spb_gend spb i = Some g" "Suc (unat g) = spb_begin spb (Suc i)" using spb_gend_ok [OF assms] .
  show ?thesis
  proof (cases i)
    case 0
    have "g + 1 = of_nat (Suc (unat g))" by simp
    then show ?thesis using 0 g spb_begin_Suc [OF assms(2)] by (simp add: spb_length_def)
  next
    case (Suc j)
    then obtain g' where g': "spb_gend spb j = Some g'" "Suc (unat g') = spb_begin spb i"
      using spb_gend_ok [OF assms(1), of j] assms(2) by auto
    then have "unat g = unat g' + length (spb_base (spb_buffer spb ! i))" using g(2) spb_begin_Suc [OF assms(2)] by simp
    then have "g = g' + of_nat (length (spb_base (spb_buffer spb ! i)))"
      by (metis of_nat_add of_nat_unat ucast_id)
    then show ?thesis using Suc g(1) g'(1) by (simp add: spb_length_def)
  qed
qed

lemma spb_offset_ok:
  assumes "spb_ok spb" and "i < length (spb_buffer spb)" and "spb_begin spb i \<le> unat start"
  obtains off where "spb_offset spb i start = Some off" and "unat off = unat start - spb_begin spb i"
proof (cases i)
  case 0
  then show ?thesis using that by (simp add: spb_offset_def)
next
  case (Suc j)
  then obtain g where g: "spb_gend spb j = Some g" "Suc (unat g) = spb_begin spb i"
    using spb_gend_ok [OF assms(1), of j] assms(2) by auto
  have "start - g - 1 = start - of_nat (spb_begin spb i)" using g(2) [symmetric] by (simp add: algebra_simps)
  moreover have "unat (start - of_nat (spb_begin spb i)) = unat start - spb_begin spb i"
    using assms(3) unat_begin [OF assms(1) spb_begin_le] by (simp add: unat_sub word_le_nat_alt)
  ultimately show ?thesis using that [of "start - g - 1"] Suc g(1) by (simp only: spb_offset_def zero_less_Suc if_True diff_Suc_1 option.map simp_thms)
qed

lemma spb_size_ok:
  assumes "spb_ok spb"
  shows "spb_size spb = Some (of_nat (length (spb_bytes spb)))"
proof (cases "btotal spb = 0")
  case True
  then have "spb_buffer spb = []" using assms by (simp add: spb_ok_def)
  then show ?thesis using True by (simp add: spb_size_def spb_bytes_def)
next
  case False
  then have n: "0 < unat (btotal spb)" "unat (btotal spb - 1) = unat (btotal spb) - 1"
    by (simp_all add: unat_gt_0 unat_minus_one)
  then obtain g where g: "spb_gend spb (unat (btotal spb - 1)) = Some g" "Suc (unat g) = spb_begin spb (unat (btotal spb))"
    using spb_gend_ok [OF assms, of "unat (btotal spb) - 1"] assms by (auto simp: spb_ok_def)
  have "g + 1 = of_nat (Suc (unat g))" by simp
  moreover have "spb_begin spb (unat (btotal spb)) = length (spb_bytes spb)"
    using assms by (intro spb_begin_all) (simp add: spb_ok_def)
  ultimately show ?thesis using g False by (simp add: spb_size_def word_gt_0)
qed

section \<open>The search\<close>

lemma unat_32: "unat (w :: 32 word) < 2 ^ 32"
proof -
  have "unat w < 2 ^ LENGTH(32)" by (rule unsigned_less)
  then show ?thesis by simp
qed

lemma halves:
  fixes s w :: "32 word"
  assumes "unat s + unat w < 2 ^ 32" and "w > 0"
  shows "unat (s + w div 2) = unat s + unat w div 2" and "unat (s + (w div 2 + 1)) = Suc (unat s + unat w div 2)"
    and "unat (w - w div 2 - 1) = unat w - unat w div 2 - 1" and "unat (w div 2) = unat w div 2"
proof -
  show half: "unat (w div 2) = unat w div 2" by (simp add: unat_div)
  have pos: "unat w > 0" using assms(2) by (simp add: unat_gt_0)
  have "unat s + unat w div 2 < 2 ^ 32" using assms(1) by (rule le_less_trans [rotated]) simp
  then show "unat (s + w div 2) = unat s + unat w div 2"
    using half unat_add_lem [of s "w div 2"] by simp
  have "unat w div 2 + 1 < 2 ^ 32" using assms(1) pos by simp
  then have one: "unat (w div 2 + 1) = unat w div 2 + 1"
    using half unat_add_lem [of "w div 2" 1] by simp
  have lim: "unat s + unat w div 2 + 1 < 2 ^ 32" using assms(1) pos by simp
  show "unat (s + (w div 2 + 1)) = Suc (unat s + unat w div 2)"
    using lim one unat_add_lem [of s "w div 2 + 1"] by simp
  have "w div 2 + 1 \<le> w" using one pos by (simp add: word_le_nat_alt)
  then have "unat (w - (w div 2 + 1)) = unat w - (unat w div 2 + 1)" using one by (simp add: unat_sub)
  then show "unat (w - w div 2 - 1) = unat w - unat w div 2 - 1" by (simp add: algebra_simps)
qed

lemma bsearch_ok:
  assumes "spb_ok spb" and "unat s + unat w \<le> length (spb_buffer spb)" and "spb_begin spb (unat s) \<le> unat idx"
    and "unat s + unat w < length (spb_buffer spb) \<Longrightarrow> unat idx < spb_begin spb (Suc (unat s + unat w))"
  shows "\<exists>r. spb_bsearch spb idx s w = Some r \<and> unat r \<le> length (spb_buffer spb) \<and> spb_begin spb (unat r) \<le> unat idx
    \<and> (unat r < length (spb_buffer spb) \<longrightarrow> unat idx < spb_begin spb (Suc (unat r)))"
  using assms
proof (induction spb idx s w rule: spb_bsearch.induct)
  case (1 spb idx s w)
  have n: "length (spb_buffer spb) = unat (btotal spb)" using "1.prems"(1) by (simp add: spb_ok_def)
  show ?case
  proof (cases "w > 0")
    case False
    then have "unat w = 0" by (simp add: word_gt_0)
    then show ?thesis using False "1.prems"(2-) by (subst spb_bsearch.simps) simp
  next
    case True
    then have pos: "unat w > 0" by (simp add: unat_gt_0)
    let ?mid = "unat s + unat w div 2"
    have "unat s + unat w < 2 ^ 32" using "1.prems"(2) n unat_32 [of "btotal spb"] by simp
    note mid = halves [OF this True]
    have "?mid < length (spb_buffer spb)" using "1.prems"(2) pos by simp
    then obtain g where g: "spb_gend spb ?mid = Some g" "Suc (unat g) = spb_begin spb (Suc ?mid)"
      using spb_gend_ok [OF "1.prems"(1)] by blast
    show ?thesis
    proof (cases "idx > g")
      case idx: True
      then have "spb_begin spb (Suc ?mid) \<le> unat idx" using g(2) by (simp add: word_less_nat_alt)
      then have "\<exists>r. spb_bsearch spb idx (s + (w div 2 + 1)) (w - w div 2 - 1) = Some r \<and> unat r \<le> length (spb_buffer spb)
          \<and> spb_begin spb (unat r) \<le> unat idx \<and> (unat r < length (spb_buffer spb) \<longrightarrow> unat idx < spb_begin spb (Suc (unat r)))"
        using "1.prems" mid pos by (intro "1.IH"(1) [OF True _ idx]) (simp_all add: g(1))
      then show ?thesis using True idx g(1) by (subst spb_bsearch.simps) (simp add: mid)
    next
      case idx: False
      then have "unat idx < spb_begin spb (Suc ?mid)" using g(2) by (simp add: word_less_nat_alt)
      then have "\<exists>r. spb_bsearch spb idx s (w div 2) = Some r \<and> unat r \<le> length (spb_buffer spb)
          \<and> spb_begin spb (unat r) \<le> unat idx \<and> (unat r < length (spb_buffer spb) \<longrightarrow> unat idx < spb_begin spb (Suc (unat r)))"
        using "1.prems" mid pos by (intro "1.IH"(2) [OF True _ idx]) (simp_all add: g(1))
      then show ?thesis using True idx g(1) by (subst spb_bsearch.simps) (simp add: mid)
    qed
  qed
qed

lemma bindex_ok:
  assumes "spb_ok spb" and "unat idx < length (spb_bytes spb)"
  obtains r where "spb_bindex spb idx = Some r" and "r < btotal spb" and "unat r < length (spb_buffer spb)"
    and "spb_begin spb (unat r) \<le> unat idx" and "unat idx < spb_begin spb (Suc (unat r))"
proof -
  have n: "length (spb_buffer spb) = unat (btotal spb)" using assms(1) by (simp add: spb_ok_def)
  obtain r where r: "spb_bsearch spb idx 0 (btotal spb) = Some r" "unat r \<le> length (spb_buffer spb)"
      "spb_begin spb (unat r) \<le> unat idx"
      "unat r < length (spb_buffer spb) \<longrightarrow> unat idx < spb_begin spb (Suc (unat r))"
    using bsearch_ok [OF assms(1), of 0 "btotal spb" idx] n by auto
  have "unat r \<noteq> length (spb_buffer spb)"
    using r(3) assms(2) spb_begin_all [of spb "length (spb_buffer spb)"] by auto
  then have lt: "unat r < length (spb_buffer spb)" using r(2) by simp
  have "unat (ucast (ucast (of_nat (length (spb_bytes spb)) :: 64 word) :: 32 word) :: 64 word) = length (spb_bytes spb)"
    using assms(1) by (simp add: spb_ok_def unsigned_ucast_eq unsigned_of_nat take_bit_nat_eq_self)
  then have "idx < ucast (ucast (of_nat (length (spb_bytes spb)) :: 64 word) :: 32 word)"
    using assms(2) by (simp add: word_less_nat_alt)
  then have "spb_bindex spb idx = Some r" using spb_size_ok [OF assms(1)] r(1) by (simp add: spb_bindex_def)
  moreover have "r < btotal spb" using lt n by (simp add: word_less_nat_alt)
  ultimately show ?thesis using that lt r(3,4) by blast
qed

lemma bindex_out:
  assumes "spb_ok spb" and "length (spb_bytes spb) \<le> unat idx"
  shows "spb_bindex spb idx = Some (btotal spb)"
proof -
  have "unat (ucast (ucast (of_nat (length (spb_bytes spb)) :: 64 word) :: 32 word) :: 64 word) = length (spb_bytes spb)"
    using assms(1) by (simp add: spb_ok_def unsigned_ucast_eq unsigned_of_nat take_bit_nat_eq_self)
  then have "\<not> idx < ucast (ucast (of_nat (length (spb_bytes spb)) :: 64 word) :: 32 word)"
    using assms(2) by (simp add: word_less_nat_alt)
  then show ?thesis using spb_size_ok [OF assms(1)] by (simp add: spb_bindex_def)
qed

section \<open>Reading\<close>

text \<open>Bytes copied from the loop on, chunk by chunk.\<close>

lemma pick_loop_ok:
  assumes "spb_ok spb"
  shows "\<exists>chunks. spb_pick_loop spb i sz cb arg = Some (foldl cb arg chunks, sz - of_nat (length (concat chunks)))
    \<and> concat chunks = take (unat sz) (drop (spb_begin spb i) (spb_bytes spb))"
  using assms
proof (induction spb i sz cb arg rule: spb_pick_loop.induct)
  case (1 spb i sz cb arg)
  have n: "length (spb_buffer spb) = unat (btotal spb)" using "1.prems" by (simp add: spb_ok_def)
  show ?case
  proof (cases "i < unat (btotal spb) \<and> sz > 0")
    case False
    then have "drop (spb_begin spb i) (spb_bytes spb) = [] \<or> unat sz = 0"
      using spb_begin_all [of spb i] n by (auto simp: word_gt_0)
    then show ?thesis using False by (intro exI [of _ "[]"]) (auto simp: spb_pick_loop.simps)
  next
    case True
    let ?base = "spb_base (spb_buffer spb ! i)"
    have i: "i < length (spb_buffer spb)" using True n by simp
    have "length ?base \<le> length (spb_bytes spb)" using spb_begin_Suc [OF i] spb_begin_le [of spb "Suc i"] by simp
    then have len: "unat (of_nat (length ?base) :: 64 word) = length ?base" by (rule unat_begin [OF "1.prems"])
    define l where "l = (if sz < of_nat (length ?base) then sz else of_nat (length ?base))"
    have l: "unat l = min (unat sz) (length ?base)" by (simp add: l_def word_less_nat_alt len)
    then have copy: "spb_copy spb i 0 l = Some (take (unat l) ?base)" using i by (simp add: spb_copy_def)
    obtain chunks where chunks:
      "spb_pick_loop spb (Suc i) (sz - l) cb (cb arg (take (unat l) ?base))
         = Some (foldl cb (cb arg (take (unat l) ?base)) chunks, sz - l - of_nat (length (concat chunks)))"
      "concat chunks = take (unat (sz - l)) (drop (spb_begin spb (Suc i)) (spb_bytes spb))"
      using "1.IH" [OF True spb_length_ok [OF "1.prems" i] l_def copy] "1.prems" by blast
    have "of_nat (unat l) = l" by simp
    then have l_word: "of_nat (min (unat sz) (length ?base)) = l" using l by simp
    have "l \<le> sz" using l by (simp add: word_le_nat_alt)
    then have "unat (sz - l) = unat sz - length ?base" using l by (simp add: unat_sub)
    then have "concat (take (unat l) ?base # chunks) = take (unat sz) (drop (spb_begin spb i) (spb_bytes spb))"
      using chunks(2) drop_begin [OF i] l by (simp add: min_def)
    moreover have "sz - l - of_nat (length (concat chunks)) = sz - of_nat (length (concat (take (unat l) ?base # chunks)))"
      using l l_word by (simp add: algebra_simps)
    moreover have "spb_pick_loop spb i sz cb arg = spb_pick_loop spb (Suc i) (sz - l) cb (cb arg (take (unat l) ?base))"
      using True copy spb_length_ok [OF "1.prems" i] by (subst spb_pick_loop.simps) (simp add: l_def Let_def)
    ultimately show ?thesis using chunks(1) by (intro exI [of _ "take (unat l) ?base # chunks"]) simp
  qed
qed

lemma pick_cb_ok:
  assumes "spb_ok spb" and "unat start < length (spb_bytes spb)"
  shows "\<exists>chunks. spb_pick_cb spb start sz cb arg
      = Some (if unat start + unat sz \<le> length (spb_bytes spb) then 0 else 1, foldl cb arg chunks)
    \<and> concat chunks = take (unat sz) (drop (unat start) (spb_bytes spb))"
proof -
  obtain r where r: "spb_bindex spb start = Some r" "r < btotal spb" "unat r < length (spb_buffer spb)"
      "spb_begin spb (unat r) \<le> unat start" "unat start < spb_begin spb (Suc (unat r))"
    using bindex_ok [OF assms] .
  let ?base = "spb_base (spb_buffer spb ! unat r)"
  obtain off where off: "spb_offset spb (unat r) start = Some off" "unat off = unat start - spb_begin spb (unat r)"
    using spb_offset_ok [OF assms(1) r(3,4)] .
  have off_le: "unat off < length ?base" using off(2) r(4,5) spb_begin_Suc [OF r(3)] by simp
  have "length ?base \<le> length (spb_bytes spb)" using spb_begin_Suc [OF r(3)] spb_begin_le [of spb "Suc (unat r)"] by simp
  then have len: "unat (of_nat (length ?base) :: 64 word) = length ?base" by (rule unat_begin [OF assms(1)])
  then have rest: "unat (of_nat (length ?base) - off :: 64 word) = length ?base - unat off"
    using off_le by (simp add: unat_sub word_le_nat_alt)
  define l where "l = (if sz < of_nat (length ?base) - off then sz else of_nat (length ?base) - off)"
  have l: "unat l = min (unat sz) (length ?base - unat off)" by (simp add: l_def word_less_nat_alt rest)
  then have copy: "spb_copy spb (unat r) off l = Some (take (unat l) (drop (unat off) ?base))" (is "_ = Some ?bs")
    using r(3) off_le by (simp add: spb_copy_def)
  obtain chunks where chunks:
    "spb_pick_loop spb (Suc (unat r)) (sz - l) cb (cb arg ?bs) = Some (foldl cb (cb arg ?bs) chunks, sz - l - of_nat (length (concat chunks)))"
    "concat chunks = take (unat (sz - l)) (drop (spb_begin spb (Suc (unat r))) (spb_bytes spb))"
    using pick_loop_ok [OF assms(1), of "Suc (unat r)" "sz - l" cb "cb arg ?bs"] by blast
  have "l \<le> sz" using l by (simp add: word_le_nat_alt)
  then have left: "unat (sz - l) = unat sz - (length ?base - unat off)" using l by (simp add: unat_sub)
  have start: "drop (unat start) (spb_bytes spb) = drop (unat off) ?base @ drop (spb_begin spb (Suc (unat r))) (spb_bytes spb)"
  proof -
    have "drop (unat start) (spb_bytes spb) = drop (unat off) (drop (spb_begin spb (unat r)) (spb_bytes spb))"
      using off(2) r(4) by simp
    then show ?thesis using off_le by (simp add: drop_begin [OF r(3)])
  qed
  then have all: "concat (?bs # chunks) = take (unat sz) (drop (unat start) (spb_bytes spb))"
    using chunks(2) left l by (simp add: min_def)
  have "length (concat (?bs # chunks)) = min (unat sz) (length (spb_bytes spb) - unat start)" by (simp only: all length_take length_drop)
  then have sum: "unat l + length (concat chunks) = min (unat sz) (length (spb_bytes spb) - unat start)" using l off_le by simp
  then have "unat (sz - l - of_nat (length (concat chunks))) = unat sz - (unat l + length (concat chunks))"
  proof -
    have c: "unat (of_nat (length (concat chunks)) :: 64 word) = length (concat chunks)"
      using sum by (intro unat_begin [OF assms(1)]) simp
    have "unat (sz - l) = unat sz - unat l" using \<open>l \<le> sz\<close> by (rule unat_sub)
    moreover have "unat l + length (concat chunks) \<le> unat sz" using sum by simp
    ultimately have "of_nat (length (concat chunks)) \<le> sz - l" using c by (simp add: word_le_nat_alt)
    moreover have "unat (sz - l) = unat sz - unat l" using \<open>l \<le> sz\<close> by (rule unat_sub)
    ultimately show ?thesis using c by (simp add: unat_sub)
  qed
  then have "sz - l - of_nat (length (concat chunks)) > 0 \<longleftrightarrow> \<not> unat start + unat sz \<le> length (spb_bytes spb)"
    using sum assms(2) by (auto simp: word_less_nat_alt)
  then have "spb_pick_cb spb start sz cb arg
      = Some (if unat start + unat sz \<le> length (spb_bytes spb) then 0 else 1, foldl cb arg (?bs # chunks))"
    using r(1,2) off(1) spb_length_ok [OF assms(1) r(3)] copy chunks(1)
    by (simp add: spb_pick_cb_def l_def [symmetric] Let_def)
  then show ?thesis using all by blast
qed

lemma pick_ok:
  assumes "spb_ok spb" and "unat start < length (spb_bytes spb)"
  shows "spb_pick spb start sz
    = Some (if unat start + unat sz \<le> length (spb_bytes spb) then 0 else 1, take (unat sz) (drop (unat start) (spb_bytes spb)))"
proof -
  have "foldl (@) xs chunks = xs @ concat chunks" for xs :: "octet list" and chunks
    by (induction chunks arbitrary: xs) simp_all
  then show ?thesis using pick_cb_ok [OF assms, of sz "(@)" "[]"] by (auto simp: spb_pick_def)
qed

lemma octet_ok:
  assumes "spb_ok spb" and "unat idx < length (spb_bytes spb)"
  shows "spb_octet spb idx = Some (spb_bytes spb ! unat idx)"
proof -
  obtain r where r: "spb_bindex spb idx = Some r" "r < btotal spb" "unat r < length (spb_buffer spb)"
      "spb_begin spb (unat r) \<le> unat idx" "unat idx < spb_begin spb (Suc (unat r))"
    using bindex_ok [OF assms] .
  obtain off where off: "spb_offset spb (unat r) idx = Some off" "unat off = unat idx - spb_begin spb (unat r)"
    using spb_offset_ok [OF assms(1) r(3,4)] .
  have lt: "unat off < length (spb_base (spb_buffer spb ! unat r))" using off(2) r(4,5) spb_begin_Suc [OF r(3)] by simp
  then have "drop (unat off) (spb_base (spb_buffer spb ! unat r)) \<noteq> []" by simp
  moreover have "spb_bytes spb ! unat idx = drop (spb_begin spb (unat r)) (spb_bytes spb) ! unat off"
    using off(2) r(4) spb_begin_le [of spb "unat r"] by simp
  ultimately show ?thesis
    using r(1-3) off(1) lt drop_begin [OF r(3)]
    by (simp add: spb_octet_def spb_copy_def take_Suc hd_drop_conv_nth nth_append Suc_le_eq)
qed

section \<open>Growing and dropping\<close>

lemma new_ok:
  assumes "length b = unat buflen" and "length b < 2 ^ 32"
  shows "spb_ok (spb_new (Some b) buflen alloc)" and "spb_bytes (spb_new (Some b) buflen alloc) = b"
    and "spb_ok (spb_new None buflen alloc)" and "spb_bytes (spb_new None buflen alloc) = []"
proof -
  have "1 \<le> alloc" if "alloc \<noteq> 0" using that by (simp add: word_le_nat_alt Suc_le_eq unat_gt_0)
  moreover have "Suc (unat (buflen - 1)) = length b" if "buflen \<noteq> 0"
    using that assms(1) by (simp add: unat_minus_one unat_gt_0)
  moreover have "b = []" if "buflen = 0" using that assms(1) by simp
  ultimately show "spb_ok (spb_new (Some b) buflen alloc)" "spb_bytes (spb_new (Some b) buflen alloc) = b"
      "spb_ok (spb_new None buflen alloc)" "spb_bytes (spb_new None buflen alloc) = []"
    using assms(2) by (auto simp: spb_new_def spb_ok_def spb_bytes_def spb_begin_def word_gt_0)
qed

lemma alloc_grows:
  fixes t a :: "32 word"
  assumes "0 < a" and "t \<le> a" and "unat t < 2 ^ 32 - 33"
  shows "t < (if t \<ge> a then (if a < 512 then push_bit 1 a else a + 32) else a)"
proof (cases "t \<ge> a")
  case False
  then show ?thesis by simp
next
  case True
  then have t: "t = a" using assms(2) by simp
  show ?thesis
  proof (cases "a < 512")
    case small: True
    then have "unat (a * 2) = unat a * 2"
      using unat_mult_lem [of a 2] by (simp add: word_less_nat_alt)
    then have "unat (push_bit 1 a) = 2 * unat a" by (simp add: push_bit_eq_mult)
    then show ?thesis using t True small assms(1) by (simp add: word_less_nat_alt)
  next
    case False
    have "unat (a + 32) = unat a + 32" using assms(3) t unat_add_lem [of a 32] by simp
    then show ?thesis using t True False by (simp add: word_less_nat_alt)
  qed
qed

lemma add_ok:
  assumes "spb_ok spb" and "length buf = unat buflen" and "length (spb_bytes spb) + length buf < 2 ^ 32"
    and "spb_buffer spb = [] \<Longrightarrow> buf \<noteq> []" and "length (spb_buffer spb) < 2 ^ 32 - 33"
  shows "\<exists>spb'. spb_add spb buf buflen = Some spb' \<and> spb_ok spb' \<and> spb_bytes spb' = spb_bytes spb @ buf"
proof -
  have n: "length (spb_buffer spb) = unat (btotal spb)" and room: "0 < balloc spb" "btotal spb \<le> balloc spb"
    using assms(1) by (simp_all add: spb_ok_def)
  define alloc where "alloc = (if btotal spb \<ge> balloc spb then
       (if balloc spb < 512 then push_bit 1 (balloc spb) else balloc spb + 32) else balloc spb)"
  have alloc: "btotal spb < alloc" unfolding alloc_def using room assms(5) n by (intro alloc_grows) simp_all
  have total: "unat (btotal spb + 1) = Suc (unat (btotal spb))"
    using assms(5) n unat_add_lem [of "btotal spb" 1] by simp
  obtain g where g: "(if btotal spb > 0 then map_option (\<lambda>g. g + buflen) (spb_gend spb (unat (btotal spb - 1))) else Some (buflen - 1)) = Some g"
      "Suc (unat g) = length (spb_bytes spb) + length buf"
  proof (cases "btotal spb = 0")
    case True
    then have "spb_buffer spb = []" using n by simp
    then have "buflen \<noteq> 0" using assms(2,4) by auto
    then have "Suc (unat (buflen - 1)) = length buf" using assms(2) by (simp add: unat_minus_one unat_gt_0)
    then show ?thesis using that True \<open>spb_buffer spb = []\<close> by (simp add: spb_bytes_def)
  next
    case False
    then have m: "unat (btotal spb - 1) = unat (btotal spb) - 1" "0 < unat (btotal spb)" by (simp_all add: unat_minus_one unat_gt_0)
    then obtain g where g: "spb_gend spb (unat (btotal spb - 1)) = Some g" "Suc (unat g) = spb_begin spb (unat (btotal spb))"
      using spb_gend_ok [OF assms(1), of "unat (btotal spb) - 1"] n by auto
    then have "Suc (unat g) = length (spb_bytes spb)" using spb_begin_all [of spb "unat (btotal spb)"] n by simp
    moreover from this have "unat (g + buflen) = unat g + unat buflen"
      using assms(2,3) unat_add_lem [of g buflen] by simp
    ultimately show ?thesis using that [of "g + buflen"] g(1) False assms(2) by (simp add: word_gt_0)
  qed
  define spb' where "spb' = spb\<lparr>spb_buffer := spb_buffer spb @ [\<lparr>spb_base = buf, gend = g\<rparr>], btotal := btotal spb + 1, balloc := alloc\<rparr>"
  have "spb_add spb buf buflen = Some spb'"
    using g(1) alloc by (simp add: spb_add_def alloc_def [symmetric] spb'_def Let_def)
  moreover have bytes: "spb_bytes spb' = spb_bytes spb @ buf" by (simp add: spb'_def spb_bytes_def)
  moreover have "Suc (unat (gend (spb_buffer spb' ! i))) = spb_begin spb' (Suc i)" if "i < length (spb_buffer spb')" for i
  proof (cases "i < length (spb_buffer spb)")
    case True
    then show ?thesis using assms(1) by (simp add: spb'_def nth_append spb_ok_def spb_begin_def)
  next
    case False
    then have "i = length (spb_buffer spb)" using that by (simp add: spb'_def)
    then show ?thesis using g(2) by (simp add: spb'_def spb_begin_def spb_bytes_def)
  qed
  moreover have "0 < alloc \<and> btotal spb + 1 \<le> alloc"
    using alloc total by (simp add: word_less_nat_alt word_le_nat_alt)
  moreover have "length (spb_buffer spb') = unat (btotal spb')" using total n by (simp add: spb'_def)
  ultimately show ?thesis using assms(3) by (auto simp: spb_ok_def spb'_def)
qed

text \<open>The items after the first \<open>r\<close>, with their ends moved.\<close>

lemma gend_update_base [simp]: "spb_base (gend_update f it) = spb_base it"
  by (cases it) simp

lemma dropped_ok:
  assumes "spb_ok spb" and "unat r < length (spb_buffer spb)" and "spb_begin spb (unat r) < spb_begin spb (Suc (unat r))"
    and "unat e_sub = spb_begin spb (unat r)" and "0 < alloc" and "btotal spb - r \<le> alloc"
  shows "spb_ok \<lparr>spb_buffer = map (gend_update (\<lambda>g'. g' - e_sub)) (drop (unat r) (spb_buffer spb)), btotal = btotal spb - r, balloc = alloc\<rparr>"
    (is "spb_ok ?spb'")
    and "spb_bytes \<lparr>spb_buffer = map (gend_update (\<lambda>g'. g' - e_sub)) (drop (unat r) (spb_buffer spb)), btotal = btotal spb - r, balloc = alloc\<rparr>
      = drop (spb_begin spb (unat r)) (spb_bytes spb)"
proof -
  have n: "length (spb_buffer spb) = unat (btotal spb)" using assms(1) by (simp add: spb_ok_def)
  have bases: "map spb_base (spb_buffer ?spb') = drop (unat r) (map spb_base (spb_buffer spb))"
    by (simp add: drop_map comp_def)
  have split: "spb_bytes spb = concat (take (unat r) (map spb_base (spb_buffer spb))) @ concat (drop (unat r) (map spb_base (spb_buffer spb)))"
    unfolding spb_bytes_def by (metis append_take_drop_id concat_append)
  then show bytes: "spb_bytes ?spb' = drop (spb_begin spb (unat r)) (spb_bytes spb)"
    unfolding spb_bytes_def [of ?spb'] bases by (simp add: spb_begin_def take_map)
  have begins: "spb_begin ?spb' i = spb_begin spb (unat r + i) - spb_begin spb (unat r)" for i
  proof -
    have "concat (map spb_base (take i (spb_buffer ?spb'))) = concat (take i (drop (unat r) (map spb_base (spb_buffer spb))))"
      using bases by (metis take_map)
    then show ?thesis by (simp add: spb_begin_def take_add take_map drop_map)
  qed
  have "Suc (unat (gend (spb_buffer ?spb' ! i))) = spb_begin ?spb' (Suc i)" if i: "i < length (spb_buffer ?spb')" for i
  proof -
    let ?j = "unat r + i"
    have j: "?j < length (spb_buffer spb)" using i assms(2) by simp
    then have g: "Suc (unat (gend (spb_buffer spb ! ?j))) = spb_begin spb (Suc ?j)" using assms(1) by (simp add: spb_ok_def)
    have "spb_begin spb (Suc (unat r)) \<le> spb_begin spb (Suc ?j)" by (rule spb_begin_mono) simp
    then have le: "unat e_sub \<le> unat (gend (spb_buffer spb ! ?j))" using g assms(3,4) by simp
    then have "unat (gend (spb_buffer spb ! ?j) - e_sub) = unat (gend (spb_buffer spb ! ?j)) - unat e_sub"
      by (simp add: unat_sub word_le_nat_alt)
    moreover have "gend (spb_buffer ?spb' ! i) = gend (spb_buffer spb ! ?j) - e_sub" using j by simp
    ultimately show ?thesis using g le assms(4) begins [of "Suc i"] by simp
  qed
  moreover have "unat (btotal spb - r) = unat (btotal spb) - unat r" using assms(2) n by (simp add: unat_sub word_le_nat_alt)
  moreover have "length (spb_bytes spb) < 2 ^ 32" using assms(1) by (simp add: spb_ok_def)
  then have "length (spb_bytes ?spb') < 2 ^ 32" unfolding bytes length_drop by (rule le_less_trans [OF diff_le_self])
  ultimately show "spb_ok ?spb'" using n assms(5,6) by (simp add: spb_ok_def)
qed

lemma drop_ok:
  assumes "spb_ok spb"
  shows "\<exists>spb' n freed k. spb_drop_head spb sz free = Some (spb', n, freed) \<and> spb_ok spb'
    \<and> k \<le> length (spb_buffer spb) \<and> map spb_base (spb_buffer spb') = drop k (map spb_base (spb_buffer spb))
    \<and> unat n = spb_begin spb k \<and> spb_bytes spb' = drop (unat n) (spb_bytes spb)
    \<and> (if unat sz < length (spb_bytes spb)
       then k < length (spb_buffer spb) \<and> unat n \<le> unat sz \<and> unat sz < spb_begin spb (Suc k) else spb_bytes spb' = [])"
proof (cases "unat sz < length (spb_bytes spb)")
  case False
  then have r: "spb_bindex spb sz = Some (btotal spb)" using bindex_out [OF assms] by simp
  show ?thesis
  proof (cases "btotal spb > 0")
    case True
    then have m: "unat (btotal spb - 1) = unat (btotal spb) - 1" "0 < unat (btotal spb)" by (simp_all add: unat_minus_one unat_gt_0 word_gt_0)
    have n: "length (spb_buffer spb) = unat (btotal spb)" using assms by (simp add: spb_ok_def)
    obtain g where g: "spb_gend spb (unat (btotal spb - 1)) = Some g" "Suc (unat g) = spb_begin spb (unat (btotal spb))"
      using spb_gend_ok [OF assms, of "unat (btotal spb) - 1"] m n by auto
    then have "Suc (unat g) = length (spb_bytes spb)" using spb_begin_all [of spb "unat (btotal spb)"] n by simp
    moreover from this have "unat (g + 1) = Suc (unat g)"
      using assms unat_add_lem [of g 1] by (simp add: spb_ok_def)
    moreover have "spb_begin spb (length (spb_buffer spb)) = length (spb_bytes spb)" by (simp add: spb_begin_def spb_bytes_def)
    ultimately show ?thesis using False True r g(1)
      by (intro exI [of _ "\<lparr>spb_buffer = [], btotal = 0, balloc = SPB_DEFAULT_BALLOC\<rparr>"] exI [of _ "g + 1"]
          exI [of _ "if free then rev (map spb_base (spb_buffer spb)) else []"] exI [of _ "length (spb_buffer spb)"])
        (auto simp: spb_drop_head_def spb_ok_def spb_bytes_def)
  next
    case False
    then have "spb_buffer spb = []" "spb_bytes spb = []" using assms by (simp_all add: spb_ok_def spb_bytes_def word_gt_0)
    then show ?thesis using False r assms by (simp add: spb_drop_head_def)
  qed
next
  case True
  obtain r where r: "spb_bindex spb sz = Some r" "r < btotal spb" "unat r < length (spb_buffer spb)"
      "spb_begin spb (unat r) \<le> unat sz" "unat sz < spb_begin spb (Suc (unat r))"
    using bindex_ok [OF assms True] .
  show ?thesis
  proof (cases "r > 0")
    case False
    then have "r = 0" by (simp add: word_gt_0)
    then show ?thesis using r True assms by (intro exI [of _ spb] exI [of _ 0] exI [of _ "[]"]) (simp add: spb_drop_head_def)
  next
    case pos: True
    then have m: "unat (r - 1) = unat r - 1" "0 < unat r" by (simp_all add: unat_minus_one unat_gt_0 word_gt_0)
    have "unat r - 1 < length (spb_buffer spb)" using r(3) by simp
    then obtain g where g: "spb_gend spb (unat (r - 1)) = Some g" "Suc (unat g) = spb_begin spb (unat r)"
      using spb_gend_ok [OF assms] m by (metis Suc_diff_1)
    have e: "unat (g + 1) = spb_begin spb (unat r)"
      using g(2) spb_begin_le [of spb "unat r"] assms unat_add_lem [of g 1] by (simp add: spb_ok_def)
    define alloc where "alloc = (if drop_bit 1 (balloc spb) > btotal spb - r then drop_bit 1 (balloc spb) else balloc spb)"
    have left: "btotal spb - r \<le> btotal spb" using r(2) by (simp add: word_sub_le less_imp_le)
    have room: "0 < balloc spb" "btotal spb \<le> balloc spb" using assms by (simp_all add: spb_ok_def)
    have alloc: "0 < alloc" "btotal spb - r \<le> alloc"
      using room left by (auto simp: alloc_def intro: order.strict_trans1 [OF word_zero_le])
    note ok = dropped_ok [OF assms r(3) le_less_trans [OF r(4,5)] e alloc]
    have "map spb_base (map (gend_update (\<lambda>g'. g' - (g + 1))) (drop (unat r) (spb_buffer spb)))
        = drop (unat r) (map spb_base (spb_buffer spb))"
      by (simp add: comp_def drop_map)
    moreover have "\<exists>freed. spb_drop_head spb sz free
        = Some (\<lparr>spb_buffer = map (gend_update (\<lambda>g'. g' - (g + 1))) (drop (unat r) (spb_buffer spb)), btotal = btotal spb - r, balloc = alloc\<rparr>, g + 1, freed)"
      using pos r(1) r(2) [folded not_le] g(1) by (simp add: spb_drop_head_def alloc_def Let_def)
    ultimately show ?thesis using ok True r(3-5) e by (auto simp del: map_map intro!: exI [of _ "unat r"])
  qed
qed

lemma direct_ok:
  assumes "spb_ok spb" and "unat start < length (spb_bytes spb)" and "0 < unat sz" and "unat start + unat sz < 2 ^ 64"
  shows "case spb_direct spb start sz of
      None \<Rightarrow> False
    | Some None \<Rightarrow> True
    | Some (Some bs) \<Rightarrow> unat sz \<le> length bs \<and> take (unat sz) bs = take (unat sz) (drop (unat start) (spb_bytes spb))"
proof -
  obtain r where r: "spb_bindex spb start = Some r" "r < btotal spb" "unat r < length (spb_buffer spb)"
      "spb_begin spb (unat r) \<le> unat start" "unat start < spb_begin spb (Suc (unat r))"
    using bindex_ok [OF assms(1,2)] .
  obtain off where off: "spb_offset spb (unat r) start = Some off" "unat off = unat start - spb_begin spb (unat r)"
    using spb_offset_ok [OF assms(1) r(3,4)] .
  obtain g where g: "spb_gend spb (unat r) = Some g" "Suc (unat g) = spb_begin spb (Suc (unat r))"
    using spb_gend_ok [OF assms(1) r(3)] .
  let ?base = "spb_base (spb_buffer spb ! unat r)"
  have off_le: "unat off < length ?base" using off(2) r(4,5) spb_begin_Suc [OF r(3)] by simp
  have "drop (unat start) (spb_bytes spb) = drop (unat off) (drop (spb_begin spb (unat r)) (spb_bytes spb))"
    using off(2) r(4) by simp
  then have start: "drop (unat start) (spb_bytes spb) = drop (unat off) ?base @ drop (spb_begin spb (Suc (unat r))) (spb_bytes spb)"
    using off_le by (simp add: drop_begin [OF r(3)])
  have end_: "unat (start + sz - 1) = unat start + unat sz - 1"
  proof -
    have "unat (start + sz) = unat start + unat sz" using assms(4) unat_add_lem [of start sz] by simp
    then show ?thesis using assms(3) unat_minus_one [of "start + sz"] by (metis add_is_0 less_irrefl unat_0)
  qed
  have "unat sz \<le> length ?base - unat off" if "start + sz - 1 \<le> g"
    using that end_ g(2) off(2) r(4) spb_begin_Suc [OF r(3)] assms(3) by (simp add: word_le_nat_alt)
  then show ?thesis using r(1,2) g(1) off(1) start by (auto simp: spb_direct_def)
qed

section \<open>Properties\<close>

text \<open>
  C34. A sparse buffer of less than 4 GiB is read as the concatenation of its buffers: its size is theirs, a byte
  at an index is the byte there, bytes picked are those from the index on, with 1 when they are fewer than asked
  for and -1 out of range, and a pointer that is handed out points at the bytes.
\<close>

theorem spb_reads_correct:
  assumes "spb_ok spb" and "0 < unat sz" and "unat start + unat sz < 2 ^ 64"
  shows "spb_size spb = Some (of_nat (length (spb_bytes spb)))
    \<and> (if unat start < length (spb_bytes spb) then
         spb_octet spb start = Some (spb_bytes spb ! unat start)
         \<and> spb_pick spb start sz = Some (if unat start + unat sz \<le> length (spb_bytes spb) then 0 else 1,
             take (unat sz) (drop (unat start) (spb_bytes spb)))
         \<and> (case spb_direct spb start sz of
              None \<Rightarrow> False
            | Some None \<Rightarrow> True
            | Some (Some bs) \<Rightarrow> unat sz \<le> length bs \<and> take (unat sz) bs = take (unat sz) (drop (unat start) (spb_bytes spb)))
       else spb_octet spb start = Some (- 1) \<and> spb_pick spb start sz = Some (- 1, []) \<and> spb_direct spb start sz = Some None)"
proof (cases "unat start < length (spb_bytes spb)")
  case True
  then show ?thesis
    using spb_size_ok [OF assms(1)] octet_ok [OF assms(1)] pick_ok [OF assms(1)] direct_ok [OF assms(1) _ assms(2,3)] by simp
next
  case False
  then have "spb_bindex spb start = Some (btotal spb)" using bindex_out [OF assms(1)] by simp
  then show ?thesis using False spb_size_ok [OF assms(1)]
    by (simp add: spb_octet_def spb_pick_def spb_pick_cb_def spb_direct_def)
qed

text \<open>The text \<open>ab\<close> and \<open>cde\<close> in two buffers.\<close>

definition demo_spb :: spb where
  "demo_spb = \<lparr>spb_buffer = [\<lparr>spb_base = [97, 98], gend = 1\<rparr>, \<lparr>spb_base = [99, 100, 101], gend = 4\<rparr>], btotal = 2, balloc = 32\<rparr>"

lemma demo_spb_ok: "spb_ok demo_spb" "spb_bytes demo_spb = [97, 98, 99, 100, 101]"
  by (simp_all add: spb_ok_def demo_spb_def spb_bytes_def spb_begin_def less_Suc_eq all_conj_distrib)

theorem spb_reads_correct_witness:
  "spb_pick demo_spb 1 3 = Some (0, [98, 99, 100]) \<and> spb_octet demo_spb 1 = Some 98"
  using spb_reads_correct [OF demo_spb_ok(1), of 3 1] by (simp add: demo_spb_ok(2))

text \<open>
  C35. On a sparse buffer of less than 4 GiB: a buffer that is added, not empty when it is the first, comes at
  the end (up to \<open>2 ^ 32\<close> bytes in all, and while the table of buffers can grow); dropping the head removes the
  first \<open>k\<close> buffers whole and the others stay as they are, where \<open>n\<close>, the size of those dropped, is returned and
  the byte at the size given lies in the buffer after them; everything goes when the size reaches the end.
\<close>

theorem spb_updates_correct:
  assumes "spb_ok spb"
  shows "(length buf = unat buflen \<and> length (spb_bytes spb) + length buf < 2 ^ 32 \<and> (spb_buffer spb = [] \<longrightarrow> buf \<noteq> [])
      \<and> length (spb_buffer spb) < 2 ^ 32 - 33 \<longrightarrow>
      (\<exists>spb'. spb_add spb buf buflen = Some spb' \<and> spb_ok spb' \<and> spb_bytes spb' = spb_bytes spb @ buf))
    \<and> (\<exists>spb' n freed k. spb_drop_head spb sz free = Some (spb', n, freed) \<and> spb_ok spb'
        \<and> k \<le> length (spb_buffer spb) \<and> map spb_base (spb_buffer spb') = drop k (map spb_base (spb_buffer spb))
        \<and> unat n = spb_begin spb k \<and> spb_bytes spb' = drop (unat n) (spb_bytes spb)
        \<and> (if unat sz < length (spb_bytes spb)
           then k < length (spb_buffer spb) \<and> unat n \<le> unat sz \<and> unat sz < spb_begin spb (Suc k) else spb_bytes spb' = []))"
  using add_ok [OF assms, of buf buflen] drop_ok [OF assms, of sz free] by blast

theorem spb_updates_correct_witness:
  "(\<exists>spb'. spb_add demo_spb [102] 1 = Some spb' \<and> spb_ok spb' \<and> spb_bytes spb' = [97, 98, 99, 100, 101, 102])
    \<and> (\<exists>spb' n freed. spb_drop_head demo_spb 3 True = Some (spb', n, freed) \<and> spb_bytes spb' = drop (unat n) [97, 98, 99, 100, 101])"
proof -
  have "length (spb_buffer demo_spb) < 2 ^ 32 - 33" "spb_buffer demo_spb \<noteq> []" by (simp_all add: demo_spb_def)
  then show ?thesis
    using spb_updates_correct [OF demo_spb_ok(1), of "[102]" 1 3 True] by (auto simp: demo_spb_ok(2))
qed

text \<open>An empty buffer that is added first breaks the search: the byte after it is looked up in it.\<close>

lemma empty_first_buffer:
  "Option.bind (spb_add (spb_new None 0 0) [] 0) (\<lambda>spb. Option.bind (spb_add spb [97] 1) (\<lambda>spb. spb_octet spb 0)) = None"
  by (simp add: spb_new_def spb_add_def spb_gend_def spb_octet_def spb_bindex_def spb_size_def spb_bsearch.simps spb_offset_def spb_copy_def)

end
