(* ===== verification/Seap_Base64.thy ===== *)
theory Seap_Base64
  imports Complex_Main "HOL-Library.Word" Prelude
begin

text \<open>
  Base64 (\<open>OVAL/probes/SEAP/generic/xbase64.c\<close>, the part built with \<open>WANT_BASE64\<close>), which the parser of
  S-expressions uses for encoded strings.

  Bytes are words of 8 bits, in which the shifts of the code are done; the bits an \<open>int\<close> would keep above
  them are cut when the result is stored. A \<open>char\<close> is signed. A read outside an array is None.
\<close>

unbundle bit_operations_syntax

type_synonym byte8 = "8 word"

definition BASE64_PADDING_CHAR :: char where
  "BASE64_PADDING_CHAR = CHR ''=''"

definition b64_enc_alphabet :: string where
  "b64_enc_alphabet = ''ABCDEFGHIJKLMNOPQRSTUVWXYZabcdefghijklmnopqrstuvwxyz0123456789+/''"

definition b64_dec_alphabet :: "byte8 list" where
  "b64_dec_alphabet =
     [52, 53, 54, 55, 56, 57, 58, 59, 60, 61, 0, 0, 0, 0, 0, 0, 0,
      0, 1, 2, 3, 4, 5, 6, 7, 8, 9, 10, 11, 12, 13, 14, 15, 16, 17, 18, 19, 20, 21, 22, 23, 24, 25,
      0, 0, 0, 0, 0, 0,
      26, 27, 28, 29, 30, 31, 32, 33, 34, 35, 36, 37, 38, 39, 40, 41, 42, 43, 44, 45, 46, 47, 48, 49, 50, 51]"

text \<open>Indexes into the alphabets.\<close>

definition b64_enc :: "byte8 \<Rightarrow> char" where
  "b64_enc i = b64_enc_alphabet ! unat i"

definition c_schar :: "char \<Rightarrow> int" where
  "c_schar c = (if of_char c < (128 :: int) then of_char c else of_char c - 256)"

text \<open>The remainder has the sign of the dividend.\<close>

definition b64_index :: "char \<Rightarrow> int" where
  "b64_index c = (let n = c_schar c - 48 in if n < 0 then - (- n mod 75) else n mod 75)"

definition b64_dec :: "char \<Rightarrow> byte8 option" where
  "b64_dec c = (if b64_index c < 0 then None else Some (b64_dec_alphabet ! nat (b64_index c)))"

section \<open>Encoding\<close>

definition b64_enc3 :: "byte8 \<Rightarrow> byte8 \<Rightarrow> byte8 \<Rightarrow> string" where
  "b64_enc3 b0 b1 b2 =
     [b64_enc (drop_bit 2 (b0 AND 0xfc)),
      b64_enc (push_bit 4 (b0 AND 0x03) OR drop_bit 4 (b1 AND 0xf0)),
      b64_enc (push_bit 2 (b1 AND 0x0f) OR drop_bit 6 (b2 AND 0xc0)),
      b64_enc (b2 AND 0x3f)]"

definition b64_enc2 :: "byte8 \<Rightarrow> byte8 \<Rightarrow> string" where
  "b64_enc2 b0 b1 =
     [b64_enc (drop_bit 2 (b0 AND 0xfc)),
      b64_enc (push_bit 4 (b0 AND 0x03) OR drop_bit 4 (b1 AND 0xf0)),
      b64_enc (push_bit 2 (b1 AND 0x0f)),
      BASE64_PADDING_CHAR]"

definition b64_enc1 :: "byte8 \<Rightarrow> string" where
  "b64_enc1 b =
     [b64_enc (drop_bit 2 (b AND 0xfc)), b64_enc (push_bit 4 (b AND 0x03)), BASE64_PADDING_CHAR, BASE64_PADDING_CHAR]"

text \<open>Groups of three bytes, then the one or two that are left.\<close>

fun base64_encode :: "byte8 list \<Rightarrow> string" where
  "base64_encode (b0 # b1 # b2 # rest) = b64_enc3 b0 b1 b2 @ base64_encode rest"
| "base64_encode [b0, b1] = b64_enc2 b0 b1"
| "base64_encode [b0] = b64_enc1 b0"
| "base64_encode [] = []"

section \<open>Decoding\<close>

definition b64_dec4 :: "char \<Rightarrow> char \<Rightarrow> char \<Rightarrow> char \<Rightarrow> byte8 list option" where
  "b64_dec4 c0 c1 c2 c3 =
     (case (b64_dec c0, b64_dec c1, b64_dec c2, b64_dec c3) of
        (Some d0, Some d1, Some d2, Some d3) \<Rightarrow>
          Some [push_bit 2 d0 OR drop_bit 4 (d1 AND 0x30),
                push_bit 4 (d1 AND 0x0f) OR drop_bit 2 (d2 AND 0x3c),
                push_bit 6 (d2 AND 0x03) OR d3]
      | _ \<Rightarrow> None)"

definition b64_dec3 :: "char \<Rightarrow> char \<Rightarrow> char \<Rightarrow> byte8 list option" where
  "b64_dec3 c0 c1 c2 =
     (case (b64_dec c0, b64_dec c1, b64_dec c2) of
        (Some d0, Some d1, Some d2) \<Rightarrow>
          Some [push_bit 2 d0 OR drop_bit 4 (d1 AND 0x30), push_bit 4 (d1 AND 0x0f) OR drop_bit 2 (d2 AND 0x3c)]
      | _ \<Rightarrow> None)"

definition b64_dec2 :: "char \<Rightarrow> char \<Rightarrow> byte8 list option" where
  "b64_dec2 c0 c1 =
     (case (b64_dec c0, b64_dec c1) of
        (Some d0, Some d1) \<Rightarrow> Some [push_bit 6 (d0 AND 0x03) OR d1]
      | _ \<Rightarrow> None)"

text \<open>The groups of four characters; what is left is handed back.\<close>

fun b64_groups :: "nat \<Rightarrow> string \<Rightarrow> (byte8 list \<times> string) option" where
  "b64_groups 0 data = Some ([], data)"
| "b64_groups (Suc n) (c0 # c1 # c2 # c3 # rest) =
     (case b64_dec4 c0 c1 c2 c3 of
        None \<Rightarrow> None
      | Some bs \<Rightarrow> map_option (\<lambda>(bs', left). (bs @ bs', left)) (b64_groups n rest))"
| "b64_groups (Suc n) _ = None"

text \<open>
  A length that is a multiple of 4 and not 0 may end with padding; another one takes the number of characters
  over 4 for the kind of the last group. \<open>Some []\<close> with a rest of one character is the NULL buffer.
\<close>

definition base64_decode :: "string \<Rightarrow> byte8 list option" where
  "base64_decode data =
     (let sz = length data; d = sz mod 4 in
      if sz = 0 then None
      else if d = 1 then Some []
      else (let pad = d = 0 \<and> data ! (sz - 1) = BASE64_PADDING_CHAR;
                s = (if pad then sz - 4 else sz);
                d = (if pad then (if data ! (sz - 2) = BASE64_PADDING_CHAR then 2 else 1) else d)
            in case b64_groups (s div 4) data of
                 None \<Rightarrow> None
               | Some (bs, rest) \<Rightarrow>
                   if d = 2 then map_option (\<lambda>bs'. bs @ bs') (b64_dec2 (rest ! 0) (rest ! 1))
                   else if d = 1 then map_option (\<lambda>bs'. bs @ bs') (b64_dec3 (rest ! 0) (rest ! 1) (rest ! 2))
                   else Some bs))"

end
