(* ===== verification/Seap_Base64_Props.thy ===== *)
theory Seap_Base64_Props
  imports Seap_Base64
begin

text \<open>
  What decoding gives for encoded data: it is the data when no character is \<open>+\<close> or \<open>/\<close> and the last group
  is not that of a single byte.
\<close>

section \<open>The alphabets\<close>

lemma alphabet_tables:
  "list_all (\<lambda>n. b64_dec (b64_enc_alphabet ! n) = (if n = 62 \<or> n = 63 then None else Some (of_nat n))
     \<and> (b64_enc_alphabet ! n \<in> {CHR ''+'', CHR ''/''} \<longleftrightarrow> n = 62 \<or> n = 63)
     \<and> b64_enc_alphabet ! n \<noteq> BASE64_PADDING_CHAR) [0..<64]"
  by code_simp

text \<open>The two characters that the decoder looks up before the beginning of its table.\<close>

definition b64_bad :: "char \<Rightarrow> bool" where
  "b64_bad c \<longleftrightarrow> c = CHR ''+'' \<or> c = CHR ''/''"

lemma dec_enc:
  assumes "i < 64"
  shows "b64_dec (b64_enc i) = (if b64_bad (b64_enc i) then None else Some i)" and "b64_enc i \<noteq> BASE64_PADDING_CHAR"
proof -
  have "unat i \<in> set [0..<64]" using assms by (simp add: word_less_nat_alt)
  moreover have "of_nat (unat i) = i" by simp
  ultimately show "b64_dec (b64_enc i) = (if b64_bad (b64_enc i) then None else Some i)" "b64_enc i \<noteq> BASE64_PADDING_CHAR"
    using alphabet_tables by (auto simp: list_all_iff b64_enc_def b64_bad_def)
qed

lemma pad_not_bad [simp]: "\<not> b64_bad BASE64_PADDING_CHAR"
  by (simp add: b64_bad_def BASE64_PADDING_CHAR_def)

section \<open>Bits\<close>

lemma nth8: "n < LENGTH(8) \<Longrightarrow> n = 0 \<or> n = 1 \<or> n = 2 \<or> n = 3 \<or> n = 4 \<or> n = 5 \<or> n = 6 \<or> n = 7"
  by simp presburger

definition sextet0 :: "byte8 \<Rightarrow> byte8" where "sextet0 b0 = drop_bit 2 (b0 AND 0xfc)"
definition sextet1 :: "byte8 \<Rightarrow> byte8 \<Rightarrow> byte8" where
  "sextet1 b0 b1 = push_bit 4 (b0 AND 0x03) OR drop_bit 4 (b1 AND 0xf0)"
definition sextet2 :: "byte8 \<Rightarrow> byte8 \<Rightarrow> byte8" where
  "sextet2 b1 b2 = push_bit 2 (b1 AND 0x0f) OR drop_bit 6 (b2 AND 0xc0)"
definition sextet3 :: "byte8 \<Rightarrow> byte8" where "sextet3 b2 = b2 AND 0x3f"

lemmas sextet_defs = sextet0_def sextet1_def sextet2_def sextet3_def

lemma sextet_less:
  fixes i :: byte8
  assumes "i AND 0xc0 = 0"
  shows "i < 64"
proof -
  have "take_bit 6 i = i"
  proof (rule bit_word_eqI)
    fix n assume n: "n < LENGTH(8)"
    have "bit (i AND 0xc0) n = False" using assms by simp
    then show "bit (take_bit 6 i) n = bit i n" using nth8 [OF n] by (elim disjE; simp add: bit_simps)
  qed
  then show ?thesis using word_mod_less_divisor [of 64 i] by (simp add: take_bit_eq_mod)
qed

lemma sextets_less: "sextet0 b0 < 64" "sextet1 b0 b1 < 64" "sextet2 b1 b2 < 64" "sextet3 b2 < 64"
  unfolding sextet_defs by (rule sextet_less, rule bit_word_eqI, drule nth8, elim disjE; simp add: bit_simps)+

lemma bytes_of_sextets:
  "push_bit 2 (sextet0 b0) OR drop_bit 4 (sextet1 b0 b1 AND 0x30) = b0"
  "push_bit 4 (sextet1 b0 b1 AND 0x0f) OR drop_bit 2 (sextet2 b1 b2 AND 0x3c) = b1"
  "push_bit 6 (sextet2 b1 b2 AND 0x03) OR sextet3 b2 = b2"
  unfolding sextet_defs by (rule bit_word_eqI, drule nth8, elim disjE; simp add: bit_simps)+

text \<open>The encoders and decoders over sextets.\<close>

lemma enc_sextets:
  "b64_enc3 b0 b1 b2 = [b64_enc (sextet0 b0), b64_enc (sextet1 b0 b1), b64_enc (sextet2 b1 b2), b64_enc (sextet3 b2)]"
  "b64_enc2 b0 b1 = [b64_enc (sextet0 b0), b64_enc (sextet1 b0 b1), b64_enc (sextet2 b1 0), BASE64_PADDING_CHAR]"
  "b64_enc1 b0 = [b64_enc (sextet0 b0), b64_enc (sextet1 b0 0), BASE64_PADDING_CHAR, BASE64_PADDING_CHAR]"
  by (simp_all add: b64_enc3_def b64_enc2_def b64_enc1_def sextet_defs)

section \<open>Groups\<close>

lemma dec4_enc3:
  "\<exists>c0 c1 c2 c3. b64_enc3 b0 b1 b2 = [c0, c1, c2, c3] \<and> BASE64_PADDING_CHAR \<notin> {c0, c1, c2, c3}
     \<and> b64_dec4 c0 c1 c2 c3 = (if list_ex b64_bad [c0, c1, c2, c3] then None else Some [b0, b1, b2])"
  unfolding enc_sextets
  by (intro exI conjI, rule refl)
    (simp_all add: b64_dec4_def dec_enc sextets_less dec_enc(2) [symmetric] bytes_of_sextets [simplified])

lemma dec3_enc2:
  "\<exists>c0 c1 c2. b64_enc2 b0 b1 = [c0, c1, c2, BASE64_PADDING_CHAR] \<and> BASE64_PADDING_CHAR \<notin> {c0, c1, c2}
     \<and> b64_dec3 c0 c1 c2 = (if list_ex b64_bad [c0, c1, c2] then None else Some [b0, b1])"
  unfolding enc_sextets
  by (intro exI conjI, rule refl)
    (simp_all add: b64_dec3_def dec_enc sextets_less dec_enc(2) [symmetric] bytes_of_sextets [simplified])

text \<open>A single byte is not decoded to itself, but to bits of its two sextets.\<close>

definition single_decoded :: "byte8 \<Rightarrow> byte8" where
  "single_decoded b = push_bit 6 (sextet0 b AND 0x03) OR sextet1 b 0"

lemma dec2_enc1:
  "\<exists>c0 c1. b64_enc1 b = [c0, c1, BASE64_PADDING_CHAR, BASE64_PADDING_CHAR]
     \<and> b64_dec2 c0 c1 = (if list_ex b64_bad [c0, c1] then None else Some [single_decoded b])"
  unfolding enc_sextets
  by (intro exI conjI, rule refl) (simp_all add: b64_dec2_def dec_enc sextets_less single_decoded_def)

lemma encode_split:
  "\<exists>full pre rest. data = full @ rest \<and> length full = 3 * (length data div 3) \<and> length rest < 3
     \<and> base64_encode data = pre @ base64_encode rest \<and> length pre = 4 * (length data div 3) \<and> BASE64_PADDING_CHAR \<notin> set pre
     \<and> (\<forall>x. b64_groups (length data div 3) (pre @ x) = (if list_ex b64_bad pre then None else Some (full, x)))"
proof (induction data rule: base64_encode.induct)
  case (1 b0 b1 b2 rest)
  obtain c0 c1 c2 c3 where c: "b64_enc3 b0 b1 b2 = [c0, c1, c2, c3]" "BASE64_PADDING_CHAR \<notin> {c0, c1, c2, c3}"
      "b64_dec4 c0 c1 c2 c3 = (if list_ex b64_bad [c0, c1, c2, c3] then None else Some [b0, b1, b2])"
    using dec4_enc3 by blast
  obtain full pre t where t: "rest = full @ t" "length full = 3 * (length rest div 3)" "length t < 3"
      "base64_encode rest = pre @ base64_encode t" "length pre = 4 * (length rest div 3)" "BASE64_PADDING_CHAR \<notin> set pre"
      "\<And>x. b64_groups (length rest div 3) (pre @ x) = (if list_ex b64_bad pre then None else Some (full, x))"
    using "1.IH" by blast
  have k: "length (b0 # b1 # b2 # rest) div 3 = Suc (length rest div 3)" by simp
  show ?case
    unfolding k
    by (intro exI [of _ "b0 # b1 # b2 # full"] exI [of _ "[c0, c1, c2, c3] @ pre"] exI [of _ t])
      (use c t in auto)
qed (auto intro!: exI [of _ "[]"])

section \<open>Properties\<close>

text \<open>What stands for the data after encoding and decoding.\<close>

definition b64_survives :: "byte8 list \<Rightarrow> byte8 list" where
  "b64_survives data = (if length data mod 3 = 1 then butlast data @ [single_decoded (last data)] else data)"

text \<open>
  C36. Decoding the encoding of data gives the data back, unless the encoding has one of the characters \<open>+\<close> and
  \<open>/\<close>, for which the decoder reads before its table, or the length is one more than a multiple of 3, when the
  last byte is wrong.
\<close>

theorem base64_decode_encode:
  assumes "data \<noteq> []"
  shows "base64_decode (base64_encode data) = (if list_ex b64_bad (base64_encode data) then None else Some (b64_survives data))"
proof -
  obtain full pre rest where s: "data = full @ rest" "length full = 3 * (length data div 3)" "length rest < 3"
      "base64_encode data = pre @ base64_encode rest" "length pre = 4 * (length data div 3)" "BASE64_PADDING_CHAR \<notin> set pre"
      "\<And>x. b64_groups (length data div 3) (pre @ x) = (if list_ex b64_bad pre then None else Some (full, x))"
    using encode_split by blast
  define k where "k = length data div 3"
  have "length data = length full + length rest" using s(1) by simp
  then have m: "length data mod 3 = length rest" using s(2,3) by presburger
  have groups: "b64_groups k (pre @ x) = (if list_ex b64_bad pre then None else Some (full, x))" for x
    using s(7) by (simp add: k_def)
  have pre: "length pre = 4 * k" using s(5) by (simp add: k_def)
  note short = s(3)
  note s = s(1,4,6)
  consider (none) "rest = []" | (one) b where "rest = [b]" | (two) b0 b1 where "rest = [b0, b1]"
    using short by (cases rest rule: base64_encode.cases) auto
  then show ?thesis
  proof cases
    case none
    then have "pre \<noteq> []" using assms groups [of "[]"] pre s(1) m \<open>length data = length full + length rest\<close>
      by (cases "k = 0") (auto simp: k_def)
    then have k: "0 < k" using pre by (cases k) auto
    have "pre ! (length pre - 1) \<noteq> BASE64_PADDING_CHAR" using s(3) \<open>pre \<noteq> []\<close> by (metis last_conv_nth last_in_set)
    then have "base64_decode pre = map_option fst (b64_groups k (pre @ []))"
      using k pre by (auto simp: base64_decode_def Let_def split: option.splits)
    then show ?thesis using none s m groups [of "[]"] by (simp add: b64_survives_def)
  next
    case one
    obtain c0 c1 where c: "b64_enc1 b = [c0, c1, BASE64_PADDING_CHAR, BASE64_PADDING_CHAR]"
        "b64_dec2 c0 c1 = (if list_ex b64_bad [c0, c1] then None else Some [single_decoded b])"
      using dec2_enc1 by blast
    let ?e = "pre @ [c0, c1, BASE64_PADDING_CHAR, BASE64_PADDING_CHAR]"
    have "?e ! (length ?e - 1) = BASE64_PADDING_CHAR" "?e ! (length ?e - 2) = BASE64_PADDING_CHAR"
      by (simp_all add: nth_append)
    then have "base64_decode ?e = (case b64_groups k ?e of
        None \<Rightarrow> None | Some (bs, rest) \<Rightarrow> map_option (\<lambda>bs'. bs @ bs') (b64_dec2 (rest ! 0) (rest ! 1)))"
      using pre by (simp add: base64_decode_def Let_def split: option.split)
    then show ?thesis using one s m c groups by (simp add: b64_survives_def)
  next
    case two
    obtain c0 c1 c2 where c: "b64_enc2 b0 b1 = [c0, c1, c2, BASE64_PADDING_CHAR]" "BASE64_PADDING_CHAR \<notin> {c0, c1, c2}"
        "b64_dec3 c0 c1 c2 = (if list_ex b64_bad [c0, c1, c2] then None else Some [b0, b1])"
      using dec3_enc2 by blast
    let ?e = "pre @ [c0, c1, c2, BASE64_PADDING_CHAR]"
    have "?e ! (length ?e - 1) = BASE64_PADDING_CHAR" "?e ! (length ?e - 2) \<noteq> BASE64_PADDING_CHAR"
      using c(2) by (auto simp: nth_append)
    then have "base64_decode ?e = (case b64_groups k ?e of
        None \<Rightarrow> None | Some (bs, rest) \<Rightarrow> map_option (\<lambda>bs'. bs @ bs') (b64_dec3 (rest ! 0) (rest ! 1) (rest ! 2)))"
      using pre by (simp add: base64_decode_def Let_def split: option.split)
    then show ?thesis using two s m c groups by (simp add: b64_survives_def)
  qed
qed

theorem base64_decode_encode_witness:
  "base64_decode (base64_encode [104, 105]) = Some [104, 105] \<and> base64_decode (base64_encode [104]) = Some [0x80]"
proof -
  have "\<not> list_ex b64_bad (base64_encode [104, 105])" "\<not> list_ex b64_bad (base64_encode [104])" by code_simp+
  then show ?thesis
    using base64_decode_encode [of "[104, 105]"] base64_decode_encode [of "[104]"] by (simp add: b64_survives_def single_decoded_def sextet_defs)
qed

end
