(* ===== verification/Sexp_Block.thy ===== *)
theory Sexp_Block
  imports Prelude "HOL-Library.Monad_Syntax"
begin

text \<open>
  The memory of S-expressions (\<open>OVAL/probes/SEAP/sexp-value.c\<close>): counted values, and lists as chains of
  counted blocks that lists can share.

  A \<open>SEXP_t\<close> holds the address of a value (\<open>s_valp\<close>; its low bits, the type of the value, are the constructor
  of \<open>rawval\<close>) and of its user type. What a string or a number holds is a parameter ('v). Addresses are
  natural numbers, 0 is NULL; \<open>h_brk\<close> is the next address never used. A block holds its members in use (\<open>real\<close>
  of them, of \<open>2 ^ sz\<close>), the next block and the binary logarithm of its size.

  A result None is an abort, a failed assertion, a read of memory that is not there or a loop that does not end. The
  32-bit counts of references to values are natural numbers: 2 ^ 32 references would be 64 GiB of \<open>SEXP_t\<close>. The
  16-bit counts of references to blocks are bounded as in the code. Memory is never freed in the model.
\<close>

section \<open>The heap\<close>

record SEXP_t =
  s_valp :: nat
  s_type :: nat

record lblk =
  lb_next :: nat
  lb_sz :: nat
  lb_refs :: nat
  lb_memb :: "SEXP_t list"

abbreviation lb_real :: "lblk \<Rightarrow> nat" where "lb_real b \<equiv> length (lb_memb b)"

datatype 'v rawval = RV_ATOM 'v | RV_LIST (b_addr: nat) (rv_offset: nat)

record 'v sval =
  v_refs :: nat
  v_raw :: "'v rawval"

record 'v sheap =
  h_vals :: "nat \<rightharpoonup> 'v sval"
  h_blks :: "nat \<rightharpoonup> lblk"
  h_brk :: nat

definition blk_at :: "'v sheap \<Rightarrow> nat \<Rightarrow> lblk option" where
  "blk_at h p = (if p = 0 then None else h_blks h p)"

definition blk_set :: "'v sheap \<Rightarrow> nat \<Rightarrow> lblk \<Rightarrow> 'v sheap" where
  "blk_set h p b = h\<lparr>h_blks := (h_blks h)(p \<mapsto> b)\<rparr>"

section \<open>Values\<close>

definition SEXP_val_new :: "'v sheap \<Rightarrow> 'v rawval \<Rightarrow> nat \<times> 'v sheap" where
  "SEXP_val_new h raw =
     (h_brk h, h\<lparr>h_vals := (h_vals h)(h_brk h \<mapsto> \<lparr>v_refs = 1, v_raw = raw\<rparr>), h_brk := h_brk h + 1\<rparr>)"

definition SEXP_rawval_incref :: "'v sheap \<Rightarrow> nat \<Rightarrow> 'v sheap option" where
  "SEXP_rawval_incref h valp =
     (case h_vals h valp of
        None \<Rightarrow> None
      | Some v \<Rightarrow> Some (h\<lparr>h_vals := (h_vals h)(valp \<mapsto> v\<lparr>v_refs := v_refs v + 1\<rparr>)\<rparr>))"

definition SEXP_rawval_decref :: "'v sheap \<Rightarrow> nat \<Rightarrow> (bool \<times> 'v sheap) option" where
  "SEXP_rawval_decref h valp =
     (case h_vals h valp of
        None \<Rightarrow> None
      | Some v \<Rightarrow>
          if v_refs v = 0 then None
          else Some (v_refs v - 1 = 0, h\<lparr>h_vals := (h_vals h)(valp \<mapsto> v\<lparr>v_refs := v_refs v - 1\<rparr>)\<rparr>))"

section \<open>Blocks\<close>

definition SEXP_rawval_lblk_new :: "'v sheap \<Rightarrow> nat \<Rightarrow> (nat \<times> 'v sheap) option" where
  "SEXP_rawval_lblk_new h sz =
     (if sz < 16
      then Some (h_brk h, (blk_set h (h_brk h) \<lparr>lb_next = 0, lb_sz = sz, lb_refs = 1, lb_memb = []\<rparr>)
                            \<lparr>h_brk := h_brk h + 1\<rparr>)
      else None)"

definition SEXP_rawval_lblk_decref :: "'v sheap \<Rightarrow> nat \<Rightarrow> (bool \<times> 'v sheap) option" where
  "SEXP_rawval_lblk_decref h p =
     do {
       b \<leftarrow> blk_at h p;
       let refs = (lb_refs b + 65535) mod 65536;
       Some (refs = 0, blk_set h p (b\<lparr>lb_refs := refs\<rparr>))
     }"

text \<open>Members stored in a block are references of their own: each is counted.\<close>

fun increfs :: "'v sheap \<Rightarrow> SEXP_t list \<Rightarrow> 'v sheap option" where
  "increfs h [] = Some h"
| "increfs h (s # ss) = Option.bind (SEXP_rawval_incref h (s_valp s)) (\<lambda>h. increfs h ss)"

definition SEXP_rawval_lblk_fill :: "'v sheap \<Rightarrow> nat \<Rightarrow> SEXP_t list \<Rightarrow> (nat \<times> 'v sheap) option" where
  "SEXP_rawval_lblk_fill h p s_exp =
     do {
       b \<leftarrow> blk_at h p;
       if length s_exp > 2 ^ lb_sz b - lb_real b then Some (0, h)
       else do {
         h \<leftarrow> increfs h s_exp;
         Some (p, blk_set h p (b\<lparr>lb_memb := s_exp\<rparr>))
       }
     }"

definition lblk_put :: "'v sheap \<Rightarrow> nat \<Rightarrow> SEXP_t \<Rightarrow> 'v sheap option" where
  "lblk_put h p s =
     do {
       b \<leftarrow> blk_at h p;
       h \<leftarrow> SEXP_rawval_incref h (s_valp s);
       Some (blk_set h p (b\<lparr>lb_memb := lb_memb b @ [s]\<rparr>))
     }"

text \<open>The recursive call of \<open>SEXP_rawval_lblk_add1\<close> is for a new block, which has room.\<close>

definition SEXP_rawval_lblk_add1 :: "'v sheap \<Rightarrow> nat \<Rightarrow> SEXP_t \<Rightarrow> 'v sheap option" where
  "SEXP_rawval_lblk_add1 h p s =
     do {
       b \<leftarrow> blk_at h p;
       if lb_real b < 2 ^ lb_sz b then lblk_put h p s
       else do {
         (new_lb, h) \<leftarrow> SEXP_rawval_lblk_new h (if lb_sz b = 15 then 6 else lb_sz b + 1);
         lblk_put (blk_set h p (b\<lparr>lb_next := new_lb\<rparr>)) new_lb s
       }
     }"

partial_function (option) SEXP_rawval_lblk_last :: "'v sheap \<Rightarrow> nat \<Rightarrow> nat option" where
  "SEXP_rawval_lblk_last h p =
     do {
       b \<leftarrow> blk_at h p;
       if lb_next b \<noteq> 0 then SEXP_rawval_lblk_last h (lb_next b) else Some p
     }"

text \<open>
  The place of the member \<open>n\<close>, counted from 1: a block and an index in it (None in the result: there is no such
  member). For 0 the code reads before the block.
\<close>

partial_function (option) SEXP_rawval_lblk_nth :: "'v sheap \<Rightarrow> nat \<Rightarrow> nat \<Rightarrow> (nat \<times> nat) option option" where
  "SEXP_rawval_lblk_nth h p n =
     (if p = 0 then Some None
      else do {
        b \<leftarrow> blk_at h p;
        if lb_real b \<ge> n then (if n = 0 then None else Some (Some (p, n - 1)))
        else SEXP_rawval_lblk_nth h (lb_next b) (n - lb_real b)
      })"

definition memb_at :: "'v sheap \<Rightarrow> nat \<times> nat \<Rightarrow> SEXP_t option" where
  "memb_at h loc =
     do {
       b \<leftarrow> blk_at h (fst loc);
       if snd loc < lb_real b then Some (lb_memb b ! snd loc) else None
     }"

partial_function (option) lblk_length :: "'v sheap \<Rightarrow> nat \<Rightarrow> nat option" where
  "lblk_length h p =
     (if p = 0 then Some 0
      else do {
        b \<leftarrow> blk_at h p;
        n \<leftarrow> lblk_length h (lb_next b);
        Some (lb_real b + n)
      })"

text \<open>The length is a \<open>size_t\<close>.\<close>

definition SEXP_rawval_list_length :: "'v sheap \<Rightarrow> nat \<Rightarrow> nat \<Rightarrow> nat option" where
  "SEXP_rawval_list_length h baddr off =
     do {
       n \<leftarrow> lblk_length h baddr;
       Some (nat ((int n - int off) mod 2 ^ 64))
     }"

subsection \<open>Copying\<close>

text \<open>
  \<open>off_o\<close> is the place in the old block; the place in the new block (\<open>off_n\<close>) is always the number of its
  members, and \<open>cur_sz\<close> is its size.
\<close>

partial_function (option) lblk_copy_loop :: "'v sheap \<Rightarrow> nat \<Rightarrow> nat \<Rightarrow> nat \<Rightarrow> nat \<Rightarrow> 'v sheap option" where
  "lblk_copy_loop h lb_old off_o lb_new cur_sz =
     (if lb_old = 0 then Some h
      else do {
        b \<leftarrow> blk_at h lb_old;
        (if lb_real b = off_o \<and> lb_next b = 0 then Some h
         else do {
           let (old, off) = (if lb_real b = off_o then (lb_next b, 0) else (lb_old, off_o));
           bn \<leftarrow> blk_at h lb_new;
           (h, new, sz) \<leftarrow>
             (if lb_real bn \<ge> 2 ^ cur_sz
              then do {
                (lb_next', h) \<leftarrow> SEXP_rawval_lblk_new h (cur_sz + 1);
                Some (blk_set h lb_new (bn\<lparr>lb_next := lb_next'\<rparr>), lb_next', cur_sz + 1)
              }
              else Some (h, lb_new, cur_sz));
           bo \<leftarrow> blk_at h old;
           bn \<leftarrow> blk_at h new;
           let xs = take (min (2 ^ sz - lb_real bn) (lb_real bo - off)) (drop off (lb_memb bo));
           h \<leftarrow> increfs h xs;
           lblk_copy_loop (blk_set h new (bn\<lparr>lb_memb := lb_memb bn @ xs\<rparr>)) old (off + length xs) new sz
         })
      })"

definition SEXP_rawval_lblk_copy :: "'v sheap \<Rightarrow> nat \<Rightarrow> nat \<Rightarrow> (nat \<times> 'v sheap) option" where
  "SEXP_rawval_lblk_copy h lblkp n_skip =
     (if lblkp = 0 then Some (0, h)
      else do {
        (lb_head, h) \<leftarrow> SEXP_rawval_lblk_new h 0;
        h \<leftarrow> lblk_copy_loop h lblkp n_skip lb_head 0;
        Some (lb_head, h)
      })"

definition SEXP_rawval_lblk_incref :: "'v sheap \<Rightarrow> nat \<Rightarrow> (nat \<times> 'v sheap) option" where
  "SEXP_rawval_lblk_incref h lblkp =
     do {
       b \<leftarrow> blk_at h lblkp;
       if lb_refs b < 65535 then Some (lblkp, blk_set h lblkp (b\<lparr>lb_refs := lb_refs b + 1\<rparr>))
       else SEXP_rawval_lblk_copy h lblkp 0
     }"

definition SEXP_rawval_list_copy :: "'v sheap \<Rightarrow> nat \<Rightarrow> (nat \<times> 'v sheap) option" where
  "SEXP_rawval_list_copy h valp =
     do {
       v \<leftarrow> h_vals h valp;
       case v_raw v of
         RV_ATOM _ \<Rightarrow> None
       | RV_LIST b off \<Rightarrow>
           do {
             (b', h) \<leftarrow> SEXP_rawval_lblk_copy h b off;
             Some (SEXP_val_new h (RV_LIST b' 0))
           }
     }"

subsection \<open>Adding and replacing\<close>

definition blk_link :: "'v sheap \<Rightarrow> nat \<Rightarrow> nat \<Rightarrow> 'v sheap option" where
  "blk_link h prev p =
     (if prev = 0 then Some h
      else do { b \<leftarrow> blk_at h prev; Some (blk_set h prev (b\<lparr>lb_next := p\<rparr>)) })"

text \<open>
  \<open>SEXP_rawval_lblk_add\<close> looks for the last block. At a shared block, it copies the list from its head
  (\<open>lblkp\<close>), not from that block, and drops a reference to the head. The result is the block to add to and the
  head of the list.
\<close>

partial_function (option) lblk_add_loop :: "'v sheap \<Rightarrow> nat \<Rightarrow> nat \<Rightarrow> nat \<Rightarrow> (nat \<times> nat \<times> 'v sheap) option" where
  "lblk_add_loop h lblkp lb_prev lblk =
     (if lblk = 0 then Some (lb_prev, lblkp, h)
      else do {
        b \<leftarrow> blk_at h lblk;
        if lb_refs b < 2 then lblk_add_loop h lblkp lblk (lb_next b)
        else do {
          (lb_ptr, h) \<leftarrow> SEXP_rawval_lblk_copy h lblkp 0;
          h \<leftarrow> blk_link h lb_prev lb_ptr;
          (_, h) \<leftarrow> SEXP_rawval_lblk_decref h lblkp;
          last \<leftarrow> SEXP_rawval_lblk_last h lb_ptr;
          Some (last, if lb_prev = 0 then lb_ptr else lblkp, h)
        }
      })"

definition SEXP_rawval_lblk_add :: "'v sheap \<Rightarrow> nat \<Rightarrow> SEXP_t \<Rightarrow> (nat \<times> 'v sheap) option" where
  "SEXP_rawval_lblk_add h lblkp s_exp =
     do {
       (lb_prev, lb_head, h) \<leftarrow>
         (if lblkp = 0 then do { (p, h) \<leftarrow> SEXP_rawval_lblk_new h 1; Some (p, p, h) }
          else lblk_add_loop h lblkp 0 lblkp);
       h \<leftarrow> SEXP_rawval_lblk_add1 h lb_prev s_exp;
       Some (lb_head, h)
     }"

definition memb_replace :: "'v sheap \<Rightarrow> nat \<times> nat \<Rightarrow> SEXP_t \<Rightarrow> (SEXP_t \<times> 'v sheap) option" where
  "memb_replace h loc s =
     do {
       o_val \<leftarrow> memb_at h loc;
       h \<leftarrow> SEXP_rawval_incref h (s_valp s);
       b \<leftarrow> blk_at h (fst loc);
       Some (o_val, blk_set h (fst loc) (b\<lparr>lb_memb := (lb_memb b)[snd loc := s]\<rparr>))
     }"

text \<open>
  Blocks before the one of the member are looked at for being shared, the block of the member is not. The result
  is the head, the old member (None: there is none) and the heap.
\<close>

partial_function (option) lblk_replace_loop ::
    "'v sheap \<Rightarrow> nat \<Rightarrow> nat \<Rightarrow> nat \<Rightarrow> nat \<Rightarrow> SEXP_t \<Rightarrow> (nat \<times> SEXP_t option \<times> 'v sheap) option" where
  "lblk_replace_loop h lb_head lb_prev lblk n n_val =
     do {
       b \<leftarrow> blk_at h lblk;
       if n > lb_real b then
         (if lb_refs b < 2 then
            (if lb_next b = 0 then Some (lb_head, None, h)
             else lblk_replace_loop h lb_head lblk (lb_next b) (n - lb_real b) n_val)
          else do {
            (lb_ptr, h) \<leftarrow> SEXP_rawval_lblk_copy h lblk 0;
            h \<leftarrow> blk_link h lb_prev lb_ptr;
            (_, h) \<leftarrow> SEXP_rawval_lblk_decref h lblk;
            loc \<leftarrow> SEXP_rawval_lblk_nth h lb_ptr n;
            loc \<leftarrow> loc;
            (o_val, h) \<leftarrow> memb_replace h loc n_val;
            Some (if lb_prev = 0 then lb_ptr else lb_head, Some o_val, h)
          })
       else if n = 0 then None
       else do {
         (o_val, h) \<leftarrow> memb_replace h (lblk, n - 1) n_val;
         Some (lb_head, Some o_val, h)
       }
     }"

definition SEXP_rawval_lblk_replace ::
    "'v sheap \<Rightarrow> nat \<Rightarrow> nat \<Rightarrow> SEXP_t \<Rightarrow> (nat \<times> SEXP_t option \<times> 'v sheap) option" where
  "SEXP_rawval_lblk_replace h lblkp n n_val = lblk_replace_loop h lblkp 0 lblkp n n_val"

declare SEXP_rawval_lblk_last.simps [code] SEXP_rawval_lblk_nth.simps [code] lblk_length.simps [code]
  lblk_copy_loop.simps [code] lblk_add_loop.simps [code] lblk_replace_loop.simps [code]

end
