(* ===== verification/Sexp_List.thy ===== *)
theory Sexp_List
  imports Sexp_Block
begin

text \<open>
  Lists of S-expressions (\<open>OVAL/probes/SEAP/sexp-manip.c\<close>, \<open>sexp-manip_r.c\<close>). A list is a value that holds the
  first block of a chain and the number of members of that block to skip. The argument of a function that
  changes its list is the \<open>SEXP_t\<close> at the caller's: it is returned changed.

  In a result, None of the inner option is NULL (the functions set \<open>errno\<close>); see Sexp_Block for the outer one.
\<close>

section \<open>Reading\<close>

definition SEXP_ref :: "'v sheap \<Rightarrow> SEXP_t \<Rightarrow> (SEXP_t \<times> 'v sheap) option" where
  "SEXP_ref h s = do { h \<leftarrow> SEXP_rawval_incref h (s_valp s); Some (s, h) }"

definition SEXP_raw :: "'v sheap \<Rightarrow> SEXP_t \<Rightarrow> 'v rawval option" where
  "SEXP_raw h l = map_option v_raw (h_vals h (s_valp l))"

definition SEXP_listp :: "'v sheap \<Rightarrow> SEXP_t \<Rightarrow> bool option" where
  "SEXP_listp h l = map_option (\<lambda>r. case r of RV_LIST _ _ \<Rightarrow> True | RV_ATOM _ \<Rightarrow> False) (SEXP_raw h l)"

definition SEXP_list_length :: "'v sheap \<Rightarrow> SEXP_t \<Rightarrow> nat option" where
  "SEXP_list_length h l =
     do {
       r \<leftarrow> SEXP_raw h l;
       case r of
         RV_ATOM _ \<Rightarrow> Some (2 ^ 64 - 1)
       | RV_LIST b off \<Rightarrow> SEXP_rawval_list_length h b off
     }"

text \<open>The member that a place of the chain holds.\<close>

definition loc_memb :: "'v sheap \<Rightarrow> (nat \<times> nat) option \<Rightarrow> SEXP_t option option" where
  "loc_memb h loc = (case loc of None \<Rightarrow> Some None | Some l \<Rightarrow> map_option Some (memb_at h l))"

definition memb_ref :: "'v sheap \<Rightarrow> SEXP_t option \<Rightarrow> (SEXP_t option \<times> 'v sheap) option" where
  "memb_ref h m =
     (case m of
        None \<Rightarrow> Some (None, h)
      | Some s \<Rightarrow> do { (s, h) \<leftarrow> SEXP_ref h s; Some (Some s, h) })"

definition list_peek :: "'v sheap \<Rightarrow> SEXP_t \<Rightarrow> nat \<Rightarrow> SEXP_t option option" where
  "list_peek h l n =
     do {
       r \<leftarrow> SEXP_raw h l;
       case r of
         RV_ATOM _ \<Rightarrow> Some None
       | RV_LIST b off \<Rightarrow>
           if n < 1 then Some None
           else do {
             loc \<leftarrow> SEXP_rawval_lblk_nth h b ((off + n) mod 2 ^ 32);
             loc_memb h loc
           }
     }"

definition SEXP_list_nth :: "'v sheap \<Rightarrow> SEXP_t \<Rightarrow> nat \<Rightarrow> (SEXP_t option \<times> 'v sheap) option" where
  "SEXP_list_nth h l n = do { m \<leftarrow> list_peek h l n; memb_ref h m }"

definition SEXP_list_first :: "'v sheap \<Rightarrow> SEXP_t \<Rightarrow> (SEXP_t option \<times> 'v sheap) option" where
  "SEXP_list_first h l =
     do {
       r \<leftarrow> SEXP_raw h l;
       case r of
         RV_ATOM _ \<Rightarrow> Some (None, h)
       | RV_LIST b off \<Rightarrow>
           do {
             loc \<leftarrow> SEXP_rawval_lblk_nth h b (off + 1);
             m \<leftarrow> loc_memb h loc;
             memb_ref h m
           }
     }"

definition SEXP_list_last :: "'v sheap \<Rightarrow> SEXP_t \<Rightarrow> (SEXP_t option \<times> 'v sheap) option" where
  "SEXP_list_last h l =
     do {
       r \<leftarrow> SEXP_raw h l;
       case r of
         RV_ATOM _ \<Rightarrow> Some (None, h)
       | RV_LIST b off \<Rightarrow>
           do {
             p \<leftarrow> SEXP_rawval_lblk_last h b;
             blk \<leftarrow> blk_at h p;
             m \<leftarrow> (if lb_real blk = 0 then None else memb_at h (p, lb_real blk - 1));
             memb_ref h (Some m)
           }
     }"

text \<open>Iterators: a block, the index in it and the number of its members.\<close>

record SEXP_list_it =
  it_block :: nat
  it_index :: nat
  it_count :: nat

definition it_at :: "'v sheap \<Rightarrow> nat \<Rightarrow> nat \<Rightarrow> SEXP_list_it option" where
  "it_at h p i =
     (if p = 0 then Some \<lparr>it_block = 0, it_index = i, it_count = 0\<rparr>
      else do { b \<leftarrow> blk_at h p; Some \<lparr>it_block = p, it_index = i, it_count = lb_real b\<rparr> })"

definition SEXP_list_it_new :: "'v sheap \<Rightarrow> SEXP_t \<Rightarrow> SEXP_list_it option option" where
  "SEXP_list_it_new h l =
     do {
       r \<leftarrow> SEXP_raw h l;
       case r of
         RV_ATOM _ \<Rightarrow> Some None
       | RV_LIST b off \<Rightarrow> map_option Some (it_at h b off)
     }"

definition SEXP_list_it_next :: "'v sheap \<Rightarrow> SEXP_list_it \<Rightarrow> (SEXP_t option \<times> SEXP_list_it) option" where
  "SEXP_list_it_next h it =
     (if it_block it = 0 then Some (None, it)
      else do {
        item \<leftarrow> memb_at h (it_block it, it_index it);
        b \<leftarrow> blk_at h (it_block it);
        let i = it_index it + 1;
        it' \<leftarrow> (if i = it_count it then it_at h (lb_next b) 0 else Some (it\<lparr>it_index := i\<rparr>));
        Some (Some item, it')
      })"

text \<open>What a loop over an iterator sees.\<close>

partial_function (option) it_items :: "'v sheap \<Rightarrow> SEXP_list_it \<Rightarrow> SEXP_t list option" where
  "it_items h it =
     do {
       (item, it) \<leftarrow> SEXP_list_it_next h it;
       case item of
         None \<Rightarrow> Some []
       | Some s \<Rightarrow> do { ss \<leftarrow> it_items h it; Some (s # ss) }
     }"

definition SEXP_list_items :: "'v sheap \<Rightarrow> SEXP_t \<Rightarrow> SEXP_t list option" where
  "SEXP_list_items h l = do { it \<leftarrow> SEXP_list_it_new h l; it \<leftarrow> it; it_items h it }"

section \<open>Making lists\<close>

function b_exp_loop :: "nat \<Rightarrow> nat \<Rightarrow> nat" where
  "b_exp_loop b n = (if 2 ^ b < n then b_exp_loop (b + 1) n else b)"
  by auto
termination by (relation "measure (\<lambda>(b, n). n - 2 ^ b)") (auto simp: diff_less_mono2)

declare b_exp_loop.simps [simp del]

text \<open>The arguments are collected in an array of 32 pointers, NULL included.\<close>

definition SEXP_list_new :: "'v sheap \<Rightarrow> SEXP_t list \<Rightarrow> (SEXP_t \<times> 'v sheap) option" where
  "SEXP_list_new h ms =
     (if length ms \<ge> 32 then None
      else do {
        (b, h) \<leftarrow>
          (if ms \<noteq> [] then do {
             (p, h) \<leftarrow> SEXP_rawval_lblk_new h (b_exp_loop 0 (length ms));
             (p', h) \<leftarrow> SEXP_rawval_lblk_fill h p ms;
             if p' = p then Some (p, h) else None
           }
           else Some (0, h));
        let (valp, h) = SEXP_val_new h (RV_LIST b 0);
        Some (\<lparr>s_valp = valp, s_type = 0\<rparr>, h)
      })"

definition SEXP_list_rest :: "'v sheap \<Rightarrow> SEXP_t \<Rightarrow> (SEXP_t option \<times> 'v sheap) option" where
  "SEXP_list_rest h l =
     do {
       r \<leftarrow> SEXP_raw h l;
       case r of
         RV_ATOM _ \<Rightarrow> Some (None, h)
       | RV_LIST b off \<Rightarrow>
           do {
             (b', off', h) \<leftarrow>
               (let off' = (off + 1) mod 65536 in
                if b = 0 then Some (b, off', h)
                else do {
                  blk \<leftarrow> blk_at h b;
                  let (b', off') = (if off' = lb_real blk then (lb_next blk, 0) else (b, off'));
                  if b' = 0 then Some (b', off', h)
                  else do { (b', h) \<leftarrow> SEXP_rawval_lblk_incref h b'; Some (b', off', h) }
                });
             let (valp, h) = SEXP_val_new h (RV_LIST b' off');
             Some (Some \<lparr>s_valp = valp, s_type = 0\<rparr>, h)
           }
     }"

section \<open>Changing lists\<close>

definition val_set_addr :: "'v sheap \<Rightarrow> nat \<Rightarrow> nat \<Rightarrow> 'v sheap option" where
  "val_set_addr h valp b =
     do {
       v \<leftarrow> h_vals h valp;
       case v_raw v of
         RV_ATOM _ \<Rightarrow> None
       | RV_LIST _ off \<Rightarrow> Some (h\<lparr>h_vals := (h_vals h)(valp \<mapsto> v\<lparr>v_raw := RV_LIST b off\<rparr>)\<rparr>)
     }"

text \<open>The private copy that is made of a list value with more than one reference.\<close>

definition list_private :: "'v sheap \<Rightarrow> SEXP_t \<Rightarrow> (SEXP_t \<times> 'v sheap) option" where
  "list_private h l =
     do {
       (uptr, h) \<leftarrow> SEXP_rawval_list_copy h (s_valp l);
       (z, h) \<leftarrow> SEXP_rawval_decref h (s_valp l);
       if z then None else Some (l\<lparr>s_valp := uptr\<rparr>, h)
     }"

definition SEXP_list_add :: "'v sheap \<Rightarrow> SEXP_t \<Rightarrow> SEXP_t \<Rightarrow> (SEXP_t option \<times> 'v sheap) option" where
  "SEXP_list_add h l s_exp =
     do {
       v \<leftarrow> h_vals h (s_valp l);
       case v_raw v of
         RV_ATOM _ \<Rightarrow> Some (None, h)
       | RV_LIST b off \<Rightarrow>
           if v_refs v > 1 then
             do {
               (l, h) \<leftarrow> list_private h l;
               r \<leftarrow> SEXP_raw h l;
               uptr \<leftarrow> SEXP_rawval_lblk_last h (b_addr r);
               h \<leftarrow> SEXP_rawval_lblk_add1 h uptr s_exp;
               Some (Some l, h)
             }
           else
             do {
               (b', h) \<leftarrow> SEXP_rawval_lblk_add h b s_exp;
               h \<leftarrow> val_set_addr h (s_valp l) b';
               Some (Some l, h)
             }
     }"

text \<open>The list is returned with the old member, of which it had a reference.\<close>

definition SEXP_list_replace ::
    "'v sheap \<Rightarrow> SEXP_t \<Rightarrow> nat \<Rightarrow> SEXP_t \<Rightarrow> (SEXP_t \<times> SEXP_t option \<times> 'v sheap) option" where
  "SEXP_list_replace h l n n_val =
     (if n < 1 then Some (l, None, h)
      else do {
        v \<leftarrow> h_vals h (s_valp l);
        case v_raw v of
          RV_ATOM _ \<Rightarrow> Some (l, None, h)
        | RV_LIST _ _ \<Rightarrow>
            do {
              (l, h) \<leftarrow> (if v_refs v > 1 then list_private h l else Some (l, h));
              r \<leftarrow> SEXP_raw h l;
              (b', o_val, h) \<leftarrow> SEXP_rawval_lblk_replace h (b_addr r) ((rv_offset r + n) mod 2 ^ 32) n_val;
              h \<leftarrow> val_set_addr h (s_valp l) b';
              Some (l, o_val, h)
            }
      })"

text \<open>\<open>SEXP_list_foreach\<close> takes a reference to each member and drops it again: none is left.\<close>

partial_function (option) list_join_loop :: "'v sheap \<Rightarrow> SEXP_t \<Rightarrow> SEXP_t \<Rightarrow> nat \<Rightarrow> (SEXP_t \<times> 'v sheap) option" where
  "list_join_loop h list_j list_b i =
     do {
       m \<leftarrow> list_peek h list_b i;
       case m of
         None \<Rightarrow> Some (list_j, h)
       | Some memb \<Rightarrow>
           do {
             (l, h) \<leftarrow> SEXP_list_add h list_j memb;
             list_join_loop h (case l of None \<Rightarrow> list_j | Some l \<Rightarrow> l) list_b (i + 1)
           }
     }"

definition SEXP_list_join :: "'v sheap \<Rightarrow> SEXP_t \<Rightarrow> SEXP_t \<Rightarrow> (SEXP_t option \<times> 'v sheap) option" where
  "SEXP_list_join h list_a list_b =
     do {
       a \<leftarrow> SEXP_listp h list_a;
       b \<leftarrow> SEXP_listp h list_b;
       if \<not> a \<or> \<not> b then Some (None, h)
       else do {
         (valp, h) \<leftarrow> SEXP_rawval_list_copy h (s_valp list_a);
         (l, h) \<leftarrow> list_join_loop h \<lparr>s_valp = valp, s_type = 0\<rparr> list_b 1;
         Some (Some l, h)
       }
     }"

declare it_items.simps [code] list_join_loop.simps [code]

end
