(* ===== verification/Sexp_Chain.thy ===== *)
theory Sexp_Chain
  imports Sexp_List
begin

text \<open>
  Chains of blocks as lists of members: what is read from them, and what copying them makes.
\<close>

section \<open>Chains\<close>

text \<open>
  The blocks of a chain, in order: they are not empty and hold at most as many members as their sizes allow.
\<close>

fun lchain :: "(nat \<rightharpoonup> lblk) \<Rightarrow> nat \<Rightarrow> nat list \<Rightarrow> bool" where
  "lchain B p [] \<longleftrightarrow> p = 0"
| "lchain B p (q # qs) \<longleftrightarrow> p = q \<and> q \<noteq> 0 \<and>
     (case B q of
        None \<Rightarrow> False
      | Some b \<Rightarrow> lb_memb b \<noteq> [] \<and> lb_sz b < 16 \<and> lb_real b \<le> 2 ^ lb_sz b \<and> lchain B (lb_next b) qs)"

definition lcont :: "(nat \<rightharpoonup> lblk) \<Rightarrow> nat list \<Rightarrow> SEXP_t list" where
  "lcont B qs = concat (map (\<lambda>q. lb_memb (the (B q))) qs)"

lemma lcont_simps [simp]:
  "lcont B [] = []"
  "lcont B (q # qs) = lb_memb (the (B q)) @ lcont B qs"
  "lcont B (ps @ qs) = lcont B ps @ lcont B qs"
  by (simp_all add: lcont_def)

text \<open>Chains do not depend on the counts of references.\<close>

definition shape :: "lblk option \<Rightarrow> (nat \<times> nat \<times> SEXP_t list) option" where
  "shape = map_option (\<lambda>b. (lb_next b, lb_sz b, lb_memb b))"

lemma shape_Some: "shape (Some b) = Some (lb_next b, lb_sz b, lb_memb b)"
  by (simp add: shape_def)

lemma shape_eq_Some:
  assumes "shape x = shape (Some b)"
  obtains b' where "x = Some b'" "lb_next b' = lb_next b" "lb_sz b' = lb_sz b" "lb_memb b' = lb_memb b"
  using assms by (auto simp: shape_def)

lemma lchain_cong:
  assumes "\<forall>q \<in> set qs. shape (B' q) = shape (B q)"
  shows "lchain B' p qs = lchain B p qs"
  using assms
proof (induction qs arbitrary: p)
  case (Cons q qs)
  have q: "shape (B' q) = shape (B q)" using Cons.prems by simp
  have IH: "lchain B' r qs = lchain B r qs" for r using Cons.IH Cons.prems by simp
  show ?case
  proof (cases "B q")
    case None
    with q have "B' q = None" by (simp add: shape_def)
    with None show ?thesis by simp
  next
    case (Some b)
    with q obtain b' where "B' q = Some b'" "lb_next b' = lb_next b" "lb_sz b' = lb_sz b" "lb_memb b' = lb_memb b"
      using shape_eq_Some by metis
    with Some IH show ?thesis by simp
  qed
qed simp

lemma lcont_cong:
  assumes "\<forall>q \<in> set qs. shape (B' q) = shape (B q)"
  shows "lcont B' qs = lcont B qs"
proof -
  have "lb_memb (the (B' q)) = lb_memb (the (B q))" if "q \<in> set qs" for q
    using assms that by (cases "B q"; cases "B' q") (force simp: shape_def)+
  then have "map (\<lambda>q. lb_memb (the (B' q))) qs = map (\<lambda>q. lb_memb (the (B q))) qs"
    by (intro map_cong) auto
  then show ?thesis by (simp only: lcont_def)
qed

lemma lchain_unique: "lchain B p qs \<Longrightarrow> lchain B p rs \<Longrightarrow> qs = rs"
proof (induction qs arbitrary: p rs)
  case Nil
  then show ?case by (cases rs) auto
next
  case (Cons q qs)
  then show ?case by (cases rs) (auto split: option.splits)
qed

lemma lchain_tail:
  "lchain B p (ps @ q # qs) \<Longrightarrow> lchain B q (q # qs)"
proof (induction ps arbitrary: p)
  case (Cons a ps)
  from Cons.prems obtain r where "lchain B r (ps @ q # qs)" by (auto split: option.splits)
  then show ?case by (rule Cons.IH)
qed simp

lemma lchain_distinct: "lchain B p qs \<Longrightarrow> distinct qs"
proof (induction qs arbitrary: p)
  case (Cons q qs)
  have "q \<notin> set qs"
  proof
    assume "q \<in> set qs"
    then obtain us vs where qs: "qs = us @ q # vs" by (meson split_list)
    have "lchain B q (q # vs)" using lchain_tail [of B p "q # us" q vs] Cons.prems qs by simp
    moreover have "lchain B q (q # qs)" using Cons.prems by simp
    ultimately have "vs = qs" using lchain_unique by blast
    with qs show False by (metis length_append length_Cons not_add_less2 lessI)
  qed
  with Cons show ?case by (auto split: option.splits)
qed simp

lemma lchain_Some:
  assumes "lchain B p qs" "q \<in> set qs"
  obtains b where "q \<noteq> 0" "B q = Some b" "lb_memb b \<noteq> []" "lb_sz b < 16" "lb_real b \<le> 2 ^ lb_sz b"
proof -
  obtain us vs where "qs = us @ q # vs" using assms(2) by (meson split_list)
  with assms(1) have "lchain B q (q # vs)" using lchain_tail by blast
  with that show ?thesis by (auto split: option.splits)
qed

lemma lchain_last:
  assumes "lchain B p (qs @ [z])"
  obtains b where "B z = Some b" "lb_next b = 0" "z \<noteq> 0" "lb_memb b \<noteq> []" "lb_sz b < 16" "lb_real b \<le> 2 ^ lb_sz b"
  using lchain_tail [OF assms] that by (auto split: option.splits)

text \<open>The end of a chain is replaced.\<close>

lemma lchain_relink:
  assumes "lchain B p (qs @ z # rs)" and "\<forall>q \<in> set qs. shape (B' q) = shape (B q)" and "lchain B' z (z # ts)"
  shows "lchain B' p (qs @ z # ts)"
  using assms(1,2)
proof (induction qs arbitrary: p)
  case Nil
  with assms(3) show ?case by (simp split: option.splits)
next
  case (Cons a qs)
  then obtain b where b: "B a = Some b" "p = a" "a \<noteq> 0" "lb_memb b \<noteq> []" "lb_sz b < 16" "lb_real b \<le> 2 ^ lb_sz b"
    "lchain B (lb_next b) (qs @ z # rs)" by (auto split: option.splits)
  with Cons have "lchain B' (lb_next b) (qs @ z # ts)" by simp
  moreover have "shape (B' a) = shape (Some b)" using Cons.prems(2) b(1) by simp
  ultimately show ?case using b by (elim shape_eq_Some) simp
qed

section \<open>Heaps\<close>

text \<open>Nothing is stored at NULL or at the addresses never used.\<close>

definition hwf :: "'v sheap \<Rightarrow> bool" where
  "hwf h \<longleftrightarrow> h_brk h > 0 \<and> (\<forall>p. h_blks h p \<noteq> None \<or> h_vals h p \<noteq> None \<longrightarrow> 0 < p \<and> p < h_brk h)"

text \<open>Only references to values are added.\<close>

definition vext :: "(nat \<rightharpoonup> 'v sval) \<Rightarrow> (nat \<rightharpoonup> 'v sval) \<Rightarrow> bool" where
  "vext V V' \<longleftrightarrow> dom V' = dom V \<and>
     (\<forall>p v v'. V p = Some v \<longrightarrow> V' p = Some v' \<longrightarrow> v_raw v' = v_raw v \<and> v_refs v \<le> v_refs v')"

lemma vext_refl [simp]: "vext V V"
  by (simp add: vext_def)

lemma vext_None: "vext V V' \<Longrightarrow> V' p = None \<longleftrightarrow> V p = None"
  by (metis domIff vext_def)

lemma vext_Some:
  assumes "vext V V'" "V p = Some v"
  obtains v' where "V' p = Some v'" "v_raw v' = v_raw v" "v_refs v \<le> v_refs v'"
  using assms vext_None [OF assms(1), of p] by (cases "V' p") (auto simp: vext_def)

lemma vext_trans [trans]:
  assumes "vext U V" "vext V W"
  shows "vext U W"
  unfolding vext_def
proof (intro conjI allI impI)
  show "dom W = dom U" using assms by (simp add: vext_def)
next
  fix p v v' assume p: "U p = Some v" "W p = Some v'"
  obtain u where u: "V p = Some u" "v_raw u = v_raw v" "v_refs v \<le> v_refs u"
    using assms(1) p(1) by (rule vext_Some)
  obtain w where "W p = Some w" "v_raw w = v_raw u" "v_refs u \<le> v_refs w" using assms(2) u(1) by (rule vext_Some)
  with u p(2) show "v_raw v' = v_raw v" "v_refs v \<le> v_refs v'" by auto
qed

lemma hwf_vext:
  "hwf h \<Longrightarrow> vext (h_vals h) (h_vals h') \<Longrightarrow> h_blks h' = h_blks h \<Longrightarrow> h_brk h' = h_brk h \<Longrightarrow> hwf h'"
  by (simp add: hwf_def vext_None)

lemma hwf_blk: "hwf h \<Longrightarrow> h_blks h p = Some b \<Longrightarrow> blk_at h p = Some b \<and> 0 < p \<and> p < h_brk h"
  by (auto simp: hwf_def blk_at_def)

lemma blk_set_simps [simp]:
  "h_blks (blk_set h p b) = (h_blks h)(p \<mapsto> b)" "h_vals (blk_set h p b) = h_vals h" "h_brk (blk_set h p b) = h_brk h"
  by (simp_all add: blk_set_def)

lemma hwf_blk_set: "hwf h \<Longrightarrow> h_blks h p \<noteq> None \<Longrightarrow> hwf (blk_set h p b)"
  by (simp add: hwf_def)

lemma incref_correct:
  assumes "h_vals h p = Some v"
  obtains h' where "SEXP_rawval_incref h p = Some h'" "h_blks h' = h_blks h" "h_brk h' = h_brk h"
    "vext (h_vals h) (h_vals h')"
proof
  show "SEXP_rawval_incref h p = Some (h\<lparr>h_vals := (h_vals h)(p \<mapsto> v\<lparr>v_refs := v_refs v + 1\<rparr>)\<rparr>)"
    using assms by (simp add: SEXP_rawval_incref_def)
  show "vext (h_vals h) (h_vals (h\<lparr>h_vals := (h_vals h)(p \<mapsto> v\<lparr>v_refs := v_refs v + 1\<rparr>)\<rparr>))"
    using assms by (auto simp: vext_def)
qed simp_all

lemma incref_others: "SEXP_rawval_incref h p = Some h' \<Longrightarrow> q \<noteq> p \<Longrightarrow> h_vals h' q = h_vals h q"
  by (auto simp: SEXP_rawval_incref_def split: option.splits)

lemma increfs_correct:
  assumes "\<forall>s \<in> set ss. h_vals h (s_valp s) \<noteq> None"
  obtains h' where "increfs h ss = Some h'" "h_blks h' = h_blks h" "h_brk h' = h_brk h" "vext (h_vals h) (h_vals h')"
proof -
  have "\<exists>h'. increfs h ss = Some h' \<and> h_blks h' = h_blks h \<and> h_brk h' = h_brk h \<and> vext (h_vals h) (h_vals h')"
    using assms
  proof (induction ss arbitrary: h)
    case (Cons s ss)
    then obtain v where "h_vals h (s_valp s) = Some v" by auto
    then obtain h1 where h1: "SEXP_rawval_incref h (s_valp s) = Some h1" "h_blks h1 = h_blks h" "h_brk h1 = h_brk h"
      "vext (h_vals h) (h_vals h1)" by (rule incref_correct)
    moreover have "\<forall>s \<in> set ss. h_vals h1 (s_valp s) \<noteq> None" using Cons.prems vext_None [OF h1(4)] by simp
    ultimately show ?case using Cons.IH [of h1] by (auto intro: vext_trans)
  qed simp
  with that show ?thesis by blast
qed

lemma lblk_new_correct:
  assumes "hwf h" "sz < 16"
  obtains h' where "SEXP_rawval_lblk_new h sz = Some (h_brk h, h')"
    "h_blks h' = (h_blks h)(h_brk h \<mapsto> \<lparr>lb_next = 0, lb_sz = sz, lb_refs = 1, lb_memb = []\<rparr>)"
    "h_vals h' = h_vals h" "h_brk h' = h_brk h + 1" "hwf h'"
proof
  let ?h = "(blk_set h (h_brk h) \<lparr>lb_next = 0, lb_sz = sz, lb_refs = 1, lb_memb = []\<rparr>)\<lparr>h_brk := h_brk h + 1\<rparr>"
  show "SEXP_rawval_lblk_new h sz = Some (h_brk h, ?h)" using assms(2) by (simp add: SEXP_rawval_lblk_new_def)
  show "hwf ?h" using assms(1) unfolding hwf_def by (auto simp: less_Suc_eq)
qed simp_all

section \<open>Copying a chain\<close>

text \<open>A chain made by copying: the block \<open>new\<close>, which held what \<open>bn\<close> holds, and new blocks.\<close>

definition copied :: "'v sheap \<Rightarrow> 'v sheap \<Rightarrow> nat \<Rightarrow> lblk \<Rightarrow> nat list \<Rightarrow> SEXP_t list \<Rightarrow> bool" where
  "copied h h' new bn ns xs \<longleftrightarrow>
     hwf h' \<and> vext (h_vals h) (h_vals h') \<and> h_brk h \<le> h_brk h' \<and>
     (\<forall>q. q < h_brk h \<longrightarrow> q \<noteq> new \<longrightarrow> h_blks h' q = h_blks h q) \<and> (\<forall>q \<in> set ns. h_brk h \<le> q) \<and>
     lchain (h_blks h') new (new # ns) \<and> lcont (h_blks h') (new # ns) = lb_memb bn @ xs \<and>
     lb_refs (the (h_blks h' new)) = lb_refs bn \<and> (\<forall>q \<in> set ns. lb_refs (the (h_blks h' q)) = 1)"

lemma copy_where:
  assumes ch: "lchain B old (old # qs)" and b: "B old = Some b" and off: "off \<le> lb_real b"
    and more: "\<not> (lb_real b = off \<and> lb_next b = 0)"
  obtains old2 off2 qs2 b2 where "(if lb_real b = off then (lb_next b, 0) else (old, off)) = (old2, off2)"
    "lchain B old2 (old2 # qs2)" "B old2 = Some b2" "off2 < lb_real b2"
    "drop off2 (lcont B (old2 # qs2)) = drop off (lcont B (old # qs))" "set (old2 # qs2) \<subseteq> set (old # qs)"
proof (cases "lb_real b = off")
  case True
  with ch b more have nx: "lchain B (lb_next b) qs" "lb_next b \<noteq> 0" by auto
  then obtain qs2 where qs: "qs = lb_next b # qs2" by (cases qs) auto
  with nx obtain b2 where "B (lb_next b) = Some b2" "lb_memb b2 \<noteq> []" by (auto split: option.splits)
  with True nx qs b that [of "lb_next b" 0 qs2 b2] show ?thesis by auto
next
  case False
  with ch b off that [of old off qs b] show ?thesis by auto
qed

lemma copy_room:
  assumes h: "hwf h" and bn: "h_blks h new = Some bn" "lb_next bn = 0" "lb_sz bn = sz" "sz < 16" "lb_real bn \<le> 2 ^ sz"
    and room: "n + lb_real bn \<le> 2 ^ 16 - 2 ^ sz" "0 < n"
  obtains h2 new2 sz2 bn2 where
    "(if lb_real bn \<ge> 2 ^ sz
      then do {
        (lb_next', h) \<leftarrow> SEXP_rawval_lblk_new h (sz + 1);
        Some (blk_set h new (bn\<lparr>lb_next := lb_next'\<rparr>), lb_next', sz + 1)
      }
      else Some (h, new, sz)) = Some (h2, new2, sz2)"
    "h_blks h2 new2 = Some bn2" "lb_next bn2 = 0" "lb_sz bn2 = sz2" "sz2 < 16" "lb_real bn2 < 2 ^ sz2"
    "n + lb_real bn2 \<le> 2 ^ 16 - 2 ^ sz2" "hwf h2" "h_vals h2 = h_vals h"
    "h2 = h \<and> new2 = new \<and> bn2 = bn \<or>
     new2 = h_brk h \<and> lb_memb bn2 = [] \<and> lb_refs bn2 = 1 \<and> h_brk h2 = h_brk h + 1 \<and> lb_real bn = 2 ^ sz \<and>
     h_blks h2 = (h_blks h)(new \<mapsto> bn\<lparr>lb_next := new2\<rparr>, new2 \<mapsto> bn2)"
proof (cases "lb_real bn = 2 ^ sz")
  case True
  then have "1 + 2 ^ sz \<le> (2 ^ 16 - 2 ^ sz :: nat)" using room by linarith
  then have "2 ^ (sz + 1) < (2 ^ 16 :: nat)" by simp
  then have sz: "sz + 1 < 16" by (rule power_less_imp_less_exp [rotated]) simp
  have cap: "n \<le> 2 ^ 16 - 2 ^ (sz + 1)" using room True by simp
  obtain h1 where h1: "SEXP_rawval_lblk_new h (sz + 1) = Some (h_brk h, h1)"
    "h_blks h1 = (h_blks h)(h_brk h \<mapsto> \<lparr>lb_next = 0, lb_sz = sz + 1, lb_refs = 1, lb_memb = []\<rparr>)"
    "h_vals h1 = h_vals h" "h_brk h1 = h_brk h + 1" "hwf h1" using lblk_new_correct [OF h sz] .
  have new: "new \<noteq> h_brk h" using hwf_blk [OF h bn(1)] by simp
  show ?thesis
    by (rule that [of "blk_set h1 new (bn\<lparr>lb_next := h_brk h\<rparr>)" "h_brk h" "sz + 1"
        "\<lparr>lb_next = 0, lb_sz = sz + 1, lb_refs = 1, lb_memb = []\<rparr>"])
      (use True sz cap new bn(1) h1 in \<open>simp_all add: hwf_blk_set fun_upd_twist\<close>)
next
  case False
  with bn(5) have lt: "lb_real bn < 2 ^ sz" by simp
  show ?thesis by (rule that [of h new sz bn]) (use lt assms in simp_all)
qed

lemma copy_loop_correct:
  assumes "hwf h" "lchain (h_blks h) old (old # qs)" "h_blks h old = Some b" "off \<le> lb_real b"
    "h_blks h new = Some bn" "lb_next bn = 0" "lb_sz bn = sz" "sz < 16" "lb_real bn \<le> 2 ^ sz" "new \<notin> set (old # qs)"
    "length (drop off (lcont (h_blks h) (old # qs))) + lb_real bn \<le> 2 ^ 16 - 2 ^ sz"
    "\<forall>s \<in> set (lcont (h_blks h) (old # qs)). h_vals h (s_valp s) \<noteq> None"
    "drop off (lcont (h_blks h) (old # qs)) \<noteq> [] \<or> lb_memb bn \<noteq> []"
  shows "\<exists>h' ns. lblk_copy_loop h old off new sz = Some h' \<and>
     copied h h' new bn ns (drop off (lcont (h_blks h) (old # qs)))"
  using assms
proof (induction "length (drop off (lcont (h_blks h) (old # qs)))" arbitrary: h old qs b off new bn sz rule: less_induct)
  case (less h old qs off b new bn sz)
  let ?B = "h_blks h" and ?xs = "drop off (lcont (h_blks h) (old # qs))"
  have old: "blk_at h old = Some b" "old \<noteq> 0" using hwf_blk [OF less.prems(1,3)] by auto
  have at_new: "blk_at h new = Some bn" using hwf_blk [OF less.prems(1,5)] by auto
  show ?case
  proof (cases "lb_real b = off \<and> lb_next b = 0")
    case True
    with less.prems(2,3) have "lchain ?B 0 qs" by simp
    then have "qs = []" by (cases qs) auto
    with True less.prems(3) have xs: "?xs = []" by simp
    have "lblk_copy_loop h old off new sz = Some h" using True old by (subst lblk_copy_loop.simps) simp
    moreover have "copied h h new bn [] ?xs"
      using less.prems xs hwf_blk [OF less.prems(1,5)] by (simp add: copied_def)
    ultimately show ?thesis by blast
  next
    case False
    obtain old2 off2 qs2 b2 where old2: "(if lb_real b = off then (lb_next b, 0) else (old, off)) = (old2, off2)"
      "lchain ?B old2 (old2 # qs2)" "?B old2 = Some b2" "off2 < lb_real b2"
      "drop off2 (lcont ?B (old2 # qs2)) = ?xs" "set (old2 # qs2) \<subseteq> set (old # qs)"
      using copy_where [OF less.prems(2,3,4) False] .
    have xs: "?xs = drop off2 (lb_memb b2) @ lcont ?B qs2" 
      unfolding old2(5) [symmetric] using old2(3,4) by simp
    then have pos: "0 < length ?xs" using old2(4) by simp
    obtain h2 new2 sz2 bn2 where room: "(if lb_real bn \<ge> 2 ^ sz
        then do {
          (lb_next', h) \<leftarrow> SEXP_rawval_lblk_new h (sz + 1);
          Some (blk_set h new (bn\<lparr>lb_next := lb_next'\<rparr>), lb_next', sz + 1)
        }
        else Some (h, new, sz)) = Some (h2, new2, sz2)"
      and bn2: "h_blks h2 new2 = Some bn2" "lb_next bn2 = 0" "lb_sz bn2 = sz2" "sz2 < 16" "lb_real bn2 < 2 ^ sz2"
      and cap: "length ?xs + lb_real bn2 \<le> 2 ^ 16 - 2 ^ sz2" and h2: "hwf h2" "h_vals h2 = h_vals h"
      and link: "h2 = h \<and> new2 = new \<and> bn2 = bn \<or>
        new2 = h_brk h \<and> lb_memb bn2 = [] \<and> lb_refs bn2 = 1 \<and> h_brk h2 = h_brk h + 1 \<and> lb_real bn = 2 ^ sz \<and>
        h_blks h2 = (h_blks h)(new \<mapsto> bn\<lparr>lb_next := new2\<rparr>, new2 \<mapsto> bn2)"
      using copy_room [OF less.prems(1,5-9,11) pos] .
    have brk: "q < h_brk h" if "q \<in> set (old # qs)" for q
      using lchain_Some [OF less.prems(2) that] less.prems(1) by (metis hwf_blk)
    have new2: "new2 \<notin> set (old2 # qs2)" using link brk less.prems(10) old2(6) by blast
    have same2: "h_blks h2 q = ?B q" if "q \<in> set (old2 # qs2)" for q
      using link that new2 less.prems(10) old2(6) by auto
    define ys where "ys = take (min (2 ^ sz2 - lb_real bn2) (lb_real b2 - off2)) (drop off2 (lb_memb b2))"
    have len_ys: "length ys = min (2 ^ sz2 - lb_real bn2) (lb_real b2 - off2)" by (simp add: ys_def min.commute)
    have ys: "ys \<noteq> []" "length ys \<le> 2 ^ sz2 - lb_real bn2" "off2 + length ys \<le> lb_real b2"
      using bn2(5) old2(4) by (auto simp: ys_def)
    have ys_set: "set ys \<subseteq> set (lcont ?B (old2 # qs2))"
      using old2(3) by (auto simp: ys_def dest: in_set_takeD in_set_dropD)
    have all2: "\<forall>s \<in> set (lcont ?B (old2 # qs2)). h_vals h (s_valp s) \<noteq> None"
      using less.prems(12) old2(6) by (auto simp: lcont_def)
    then have "\<forall>s \<in> set ys. h_vals h2 (s_valp s) \<noteq> None" using h2(2) ys_set by auto
    then obtain h3 where h3: "increfs h2 ys = Some h3" "h_blks h3 = h_blks h2" "h_brk h3 = h_brk h2"
      "vext (h_vals h2) (h_vals h3)" by (rule increfs_correct)
    define bn4 where "bn4 = bn2\<lparr>lb_memb := lb_memb bn2 @ ys\<rparr>"
    define h4 where "h4 = blk_set h3 new2 bn4"
    have loop: "lblk_copy_loop h old off new sz = lblk_copy_loop h4 old2 (off2 + length ys) new2 sz2"
    proof -
      have "blk_at h2 old2 = Some b2" "blk_at h2 new2 = Some bn2"
        using hwf_blk [OF h2(1)] bn2(1) same2 [of old2] old2(3) by auto
      then show ?thesis
        using False old at_new old2(1) room h3(1)
        by (subst lblk_copy_loop.simps) (auto simp: ys_def [symmetric] h4_def bn4_def len_ys)
    qed
    have B4: "h_blks h4 = (h_blks h2)(new2 \<mapsto> bn4)" by (simp add: h4_def h3(2))
    have hwf4: "hwf h4" unfolding h4_def
      by (rule hwf_blk_set, rule hwf_vext [OF h2(1) h3(4,2,3)]) (simp add: h3(2) bn2(1))
    have same4: "h_blks h4 q = ?B q" if "q \<in> set (old2 # qs2)" for q
      using that new2 same2 B4 by auto
    have cont4: "lcont (h_blks h4) (old2 # qs2) = lcont ?B (old2 # qs2)" by (rule lcont_cong) (use same4 in simp)
    have drop4: "drop (off2 + length ys) (lcont ?B (old2 # qs2)) = drop (length ys) ?xs"
      by (simp add: old2(5) [symmetric] add.commute del: lcont_simps)
    have xs_ys: "?xs = ys @ drop (length ys) ?xs"
    proof -
      have "take (length ys) ?xs = ys" using ys(3) xs by (simp add: ys_def min.commute)
      then show ?thesis by (metis append_take_drop_id)
    qed
    then have len: "length ?xs = length ys + length (drop (length ys) ?xs)" by (metis length_append)
    have vals4: "h_vals h4 p = None \<longleftrightarrow> h_vals h p = None" for p
      using vext_None [OF h3(4)] h2(2) by (simp add: h4_def)
    have "\<exists>h' ns. lblk_copy_loop h4 old2 (off2 + length ys) new2 sz2 = Some h' \<and>
       copied h4 h' new2 bn4 ns (drop (off2 + length ys) (lcont (h_blks h4) (old2 # qs2)))"
    proof (rule less.hyps)
      show "length (drop (off2 + length ys) (lcont (h_blks h4) (old2 # qs2))) < length ?xs"
        using ys(1) len by (simp only: cont4 drop4) simp
      show "lchain (h_blks h4) old2 (old2 # qs2)"
        by (rule iffD2 [OF lchain_cong old2(2)]) (use same4 in simp)
      show "h_blks h4 old2 = Some b2" using same4 [of old2] old2(3) by simp
      show "length (drop (off2 + length ys) (lcont (h_blks h4) (old2 # qs2))) + lb_real bn4 \<le> 2 ^ 16 - 2 ^ sz2"
        using cap len by (simp only: cont4 drop4) (simp add: bn4_def)
      show "\<forall>s \<in> set (lcont (h_blks h4) (old2 # qs2)). h_vals h4 (s_valp s) \<noteq> None"
        using all2 by (simp only: cont4 vals4)
    qed (use hwf4 B4 bn2 ys new2 in \<open>simp_all add: bn4_def\<close>)
    then obtain h' ns where h': "lblk_copy_loop h old off new sz = Some h'"
      "copied h4 h' new2 bn4 ns (drop (length ys) ?xs)" by (auto simp only: loop cont4 drop4)
    have ext: "vext (h_vals h) (h_vals h')"
      using vext_trans [OF h3(4)] h'(2) h2(2) by (simp add: copied_def h4_def)
    from link show ?thesis
    proof
      assume stay: "h2 = h \<and> new2 = new \<and> bn2 = bn"
      have "copied h h' new bn ns ?xs"
        using h'(2) ext stay B4 xs_ys
        by (auto simp: copied_def h4_def h3(2,3) bn4_def simp del: lcont_simps lchain.simps)
      with h'(1) show ?thesis by blast
    next
      assume fresh: "new2 = h_brk h \<and> lb_memb bn2 = [] \<and> lb_refs bn2 = 1 \<and> h_brk h2 = h_brk h + 1 \<and> lb_real bn = 2 ^ sz \<and>
        h_blks h2 = (h_blks h)(new \<mapsto> bn\<lparr>lb_next := new2\<rparr>, new2 \<mapsto> bn2)"
      have new: "0 < new" "new < h_brk h" using hwf_blk [OF less.prems(1,5)] by auto
      have brk4: "h_brk h4 = h_brk h + 1" using fresh by (simp add: h4_def h3(3))
      have same': "h_blks h' q = h_blks h4 q" if "q < h_brk h + 1" "q \<noteq> new2" for q
        using h'(2) that brk4 by (simp add: copied_def)
      then have bnew: "h_blks h' new = Some (bn\<lparr>lb_next := new2\<rparr>)" using new fresh B4 by simp
      have bn_ne: "lb_memb bn \<noteq> []" using fresh by auto
      have tail: "lchain (h_blks h') new2 (new2 # ns)"
        "lcont (h_blks h') (new2 # ns) = ys @ drop (length ys) ?xs"
        using h'(2) fresh by (simp_all add: copied_def bn4_def del: lcont_simps lchain.simps)
      have "copied h h' new bn (new2 # ns) ?xs"
        unfolding copied_def
      proof (intro conjI)
        show "lchain (h_blks h') new (new # new2 # ns)"
          using bnew new bn_ne tail(1) less.prems(7-9) by simp
        show "lcont (h_blks h') (new # new2 # ns) = lb_memb bn @ ?xs"
          using bnew tail(2) xs_ys by (subst lcont_simps(2)) simp
        show "\<forall>q. q < h_brk h \<longrightarrow> q \<noteq> new \<longrightarrow> h_blks h' q = h_blks h q"
          using same' fresh B4 by auto
      qed (use h'(2) ext bnew fresh brk4 in \<open>auto simp: copied_def bn4_def\<close>)
      with h'(1) show ?thesis by blast
    qed
  qed
qed


lemma lblk_copy_correct:
  assumes "hwf h" "lchain (h_blks h) p qs" "qs \<noteq> [] \<Longrightarrow> skip < lb_real (the (h_blks h p))"
    "length (drop skip (lcont (h_blks h) qs)) \<le> 65535"
    "\<forall>s \<in> set (lcont (h_blks h) qs). h_vals h (s_valp s) \<noteq> None"
  obtains p' h' ns where "SEXP_rawval_lblk_copy h p skip = Some (p', h')" "hwf h'" "h_brk h \<le> h_brk h'"
    "vext (h_vals h) (h_vals h')" "\<forall>q. q < h_brk h \<longrightarrow> h_blks h' q = h_blks h q"
    "lchain (h_blks h') p' ns" "lcont (h_blks h') ns = drop skip (lcont (h_blks h) qs)"
    "\<forall>q \<in> set ns. h_brk h \<le> q \<and> lb_refs (the (h_blks h' q)) = 1"
proof (cases qs)
  case Nil
  with assms that [of 0 h "[]"] show ?thesis by (simp add: SEXP_rawval_lblk_copy_def)
next
  case (Cons q rs)
  then obtain b where b: "h_blks h p = Some b" "p = q" "p \<noteq> 0" using assms(2) by (auto split: option.splits)
  let ?new = "h_brk h" and ?bn = "\<lparr>lb_next = 0, lb_sz = 0, lb_refs = 1, lb_memb = []\<rparr>"
  obtain h1 where h1: "SEXP_rawval_lblk_new h 0 = Some (?new, h1)" "h_blks h1 = (h_blks h)(?new \<mapsto> ?bn)"
    "h_vals h1 = h_vals h" "h_brk h1 = h_brk h + 1" "hwf h1" using lblk_new_correct [OF assms(1), of 0] by auto
  have lt: "q < ?new" if "q \<in> set qs" for q
    using lchain_Some [OF assms(2) that] assms(1) by (metis hwf_blk)
  then have same: "h_blks h1 q = h_blks h q" if "q \<in> set qs" for q using h1(2) that by auto
  have cont: "lcont (h_blks h1) qs = lcont (h_blks h) qs" by (rule lcont_cong) (simp add: same)
  have pr: "p # rs = qs" using Cons b(2) by simp
  have ne: "drop skip (lcont (h_blks h) qs) \<noteq> []" using assms(3) Cons b by simp
  have "\<exists>h' ns. lblk_copy_loop h1 p skip ?new 0 = Some h' \<and>
      copied h1 h' ?new ?bn ns (drop skip (lcont (h_blks h1) (p # rs)))"
  proof (rule copy_loop_correct)
    show "lchain (h_blks h1) p (p # rs)"
      by (rule iffD2 [OF lchain_cong, where B1 = "h_blks h"]) (use assms(2) Cons b same in auto)
    show "h_blks h1 p = Some b" using same [of p] Cons b by simp
    show "?new \<notin> set (p # rs)" using lt Cons b by auto
    show "skip \<le> lb_real b" using assms(3) Cons b by simp
  qed (use h1 assms(4,5) cont ne Cons b in simp_all)
  then obtain h' ns where h': "lblk_copy_loop h1 p skip ?new 0 = Some h'"
    "copied h1 h' ?new ?bn ns (drop skip (lcont (h_blks h) qs))" by (auto simp only: pr cont)
  show ?thesis
  proof (rule that [of ?new h' "?new # ns"])
    show "SEXP_rawval_lblk_copy h p skip = Some (?new, h')"
      using b h1(1) h'(1) by (simp add: SEXP_rawval_lblk_copy_def)
  qed (use h'(2) h1 in \<open>auto simp: copied_def simp del: lchain.simps lcont_simps\<close>)
qed

section \<open>Reading a chain\<close>

lemma blk_at_chain:
  assumes "lchain (h_blks h) p (q # qs)"
  obtains b where "p = q" "q \<noteq> 0" "blk_at h q = Some b" "h_blks h q = Some b" "lb_memb b \<noteq> []" "lchain (h_blks h) (lb_next b) qs"
  using assms that by (auto simp: blk_at_def split: option.splits)

lemma lblk_last_correct: "lchain (h_blks h) p (qs @ [z]) \<Longrightarrow> SEXP_rawval_lblk_last h p = Some z"
proof (induction qs arbitrary: p)
  case Nil
  from Nil have "lchain (h_blks h) p [z]" by simp
  then obtain b where "p = z" "blk_at h z = Some b" "lchain (h_blks h) (lb_next b) []" by (rule blk_at_chain)
  then show ?case by (subst SEXP_rawval_lblk_last.simps) simp
next
  case (Cons a qs)
  from Cons.prems have "lchain (h_blks h) p (a # qs @ [z])" by simp
  then obtain b where b: "p = a" "blk_at h a = Some b" "lchain (h_blks h) (lb_next b) (qs @ [z])" by (rule blk_at_chain)
  moreover have "lb_next b \<noteq> 0" using b(3) by (cases qs) auto
  ultimately show ?case using Cons.IH by (subst SEXP_rawval_lblk_last.simps) simp
qed

lemma lblk_length_correct: "lchain (h_blks h) p qs \<Longrightarrow> lblk_length h p = Some (length (lcont (h_blks h) qs))"
proof (induction qs arbitrary: p)
  case Nil
  then show ?case by (subst lblk_length.simps) simp
next
  case (Cons a qs)
  from Cons.prems obtain b where "p = a" "a \<noteq> 0" "blk_at h a = Some b" "h_blks h a = Some b" "lchain (h_blks h) (lb_next b) qs"
    by (rule blk_at_chain)
  with Cons.IH show ?case by (subst lblk_length.simps) simp
qed

text \<open>A place of a chain: the block after \<open>us\<close>, and an index in it.\<close>

lemma lblk_nth_correct:
  assumes "lchain (h_blks h) p qs" "1 \<le> n"
  shows "n \<le> length (lcont (h_blks h) qs) \<Longrightarrow>
      \<exists>us q vs b i. qs = us @ q # vs \<and> h_blks h q = Some b \<and> i < lb_real b \<and>
        SEXP_rawval_lblk_nth h p n = Some (Some (q, i)) \<and> n = length (lcont (h_blks h) us) + i + 1"
    and "n > length (lcont (h_blks h) qs) \<Longrightarrow> SEXP_rawval_lblk_nth h p n = Some None"
  using assms
proof (induction qs arbitrary: p n)
  case Nil
  { case 1
    then show ?case by simp
  next
    case 2
    then show ?case by (subst SEXP_rawval_lblk_nth.simps) simp
  }
next
  case (Cons a qs)
  { case 1
    from 1(2) obtain b where b: "p = a" "a \<noteq> 0" "blk_at h a = Some b" "h_blks h a = Some b" "lchain (h_blks h) (lb_next b) qs"
      by (rule blk_at_chain)
    show ?case
    proof (cases "n \<le> lb_real b")
      case True
      then have "SEXP_rawval_lblk_nth h p n = Some (Some (a, n - 1))"
        using b 1(3) by (subst SEXP_rawval_lblk_nth.simps) simp
      with True b 1(3) show ?thesis by (intro exI [of _ "[]"] exI [of _ a] exI [of _ qs] exI [of _ b] exI [of _ "n - 1"]) auto
    next
      case False
      have "\<exists>us q vs b' i. qs = us @ q # vs \<and> h_blks h q = Some b' \<and> i < lb_real b' \<and>
          SEXP_rawval_lblk_nth h (lb_next b) (n - lb_real b) = Some (Some (q, i)) \<and>
          n - lb_real b = length (lcont (h_blks h) us) + i + 1"
        by (rule Cons.IH(1)) (use 1 b False in auto)
      then obtain us q vs b' i where "qs = us @ q # vs" "h_blks h q = Some b'" "i < lb_real b'"
        "SEXP_rawval_lblk_nth h (lb_next b) (n - lb_real b) = Some (Some (q, i))"
        "n - lb_real b = length (lcont (h_blks h) us) + i + 1" by blast
      moreover from this have "SEXP_rawval_lblk_nth h p n = Some (Some (q, i))"
        using b False by (subst SEXP_rawval_lblk_nth.simps) simp
      ultimately show ?thesis using b False
        by (intro exI [of _ "a # us"] exI [of _ q] exI [of _ vs] exI [of _ b'] exI [of _ i]) auto
    qed
  next
    case 2
    from 2(2) obtain b where b: "p = a" "a \<noteq> 0" "blk_at h a = Some b" "h_blks h a = Some b" "lchain (h_blks h) (lb_next b) qs"
      by (rule blk_at_chain)
    then have "SEXP_rawval_lblk_nth h (lb_next b) (n - lb_real b) = Some None"
      by (intro Cons.IH(2)) (use 2 in auto)
    with b 2 show ?case by (subst SEXP_rawval_lblk_nth.simps) simp
  }
qed

lemma lblk_nth_memb:
  assumes "lchain (h_blks h) p qs" "1 \<le> n"
  obtains loc where "SEXP_rawval_lblk_nth h p n = Some loc"
    "loc_memb h loc = Some (if n \<le> length (lcont (h_blks h) qs) then Some (lcont (h_blks h) qs ! (n - 1)) else None)"
proof (cases "n \<le> length (lcont (h_blks h) qs)")
  case True
  then obtain us q vs b i where w: "qs = us @ q # vs" "h_blks h q = Some b" "i < lb_real b"
    "SEXP_rawval_lblk_nth h p n = Some (Some (q, i))" "n = length (lcont (h_blks h) us) + i + 1"
    using lblk_nth_correct(1) [OF assms] by blast
  have "blk_at h q = Some b"
    using lchain_Some [OF assms(1)] w(1,2) by (metis blk_at_def in_set_conv_decomp)
  with w True that [of "Some (q, i)"] show ?thesis by (simp add: loc_memb_def memb_at_def nth_append)
next
  case False
  then have "SEXP_rawval_lblk_nth h p n = Some None" using lblk_nth_correct(2) [OF assms] by simp
  with False that [of None] show ?thesis by (simp add: loc_memb_def)
qed

end
