(* ===== verification/Sexp_List_Add.thy ===== *)
theory Sexp_List_Add
  imports Sexp_Chain
begin

text \<open>
  A list in a heap represents a list of members (\<open>lrep\<close>): how it is read, and what adding a member to it does.
\<close>

section \<open>Lists in a heap\<close>

text \<open>
  A list with its blocks and the members it represents, those of the first block that it skips left out. The
  values of the members exist.
\<close>

definition lrep :: "'v sheap \<Rightarrow> SEXP_t \<Rightarrow> nat list \<Rightarrow> SEXP_t list \<Rightarrow> bool" where
  "lrep h l qs xs \<longleftrightarrow>
     (case SEXP_raw h l of
        Some (RV_LIST b off) \<Rightarrow>
          lchain (h_blks h) b qs \<and> off < 65536 \<and> (if qs = [] then off = 0 else off < lb_real (the (h_blks h (hd qs)))) \<and>
          xs = drop off (lcont (h_blks h) qs) \<and> (\<forall>s \<in> set (lcont (h_blks h) qs). h_vals h (s_valp s) \<noteq> None)
      | _ \<Rightarrow> False)"

lemma lrepE:
  assumes "lrep h l qs xs"
  obtains v b off where "h_vals h (s_valp l) = Some v" "v_raw v = RV_LIST b off" "lchain (h_blks h) b qs" "off < 65536"
    "if qs = [] then off = 0 else off < lb_real (the (h_blks h (hd qs)))" "xs = drop off (lcont (h_blks h) qs)"
    "\<forall>s \<in> set (lcont (h_blks h) qs). h_vals h (s_valp s) \<noteq> None"
  using assms by (auto simp: lrep_def SEXP_raw_def split: option.splits rawval.splits)

lemma lrepI:
  assumes "h_vals h (s_valp l) = Some v" "v_raw v = RV_LIST b off" "lchain (h_blks h) b qs" "off < 65536"
    "if qs = [] then off = 0 else off < lb_real (the (h_blks h (hd qs)))" "xs = drop off (lcont (h_blks h) qs)"
    "\<forall>s \<in> set (lcont (h_blks h) qs). h_vals h (s_valp s) \<noteq> None"
  shows "lrep h l qs xs"
  using assms by (simp add: lrep_def SEXP_raw_def)

text \<open>The count of references to the value of a list, and the blocks that only this list has.\<close>

definition val_refs :: "'v sheap \<Rightarrow> SEXP_t \<Rightarrow> nat" where
  "val_refs h l = (case h_vals h (s_valp l) of None \<Rightarrow> 0 | Some v \<Rightarrow> v_refs v)"

definition own_blks :: "'v sheap \<Rightarrow> nat list \<Rightarrow> nat set" where
  "own_blks h qs = {q \<in> set qs. lb_refs (the (h_blks h q)) < 2}"

text \<open>
  A heap that extends another: what is in it stays, but for the blocks \<open>M\<close> and the values \<open>V\<close>.
\<close>

definition hext :: "'v sheap \<Rightarrow> 'v sheap \<Rightarrow> nat set \<Rightarrow> nat set \<Rightarrow> bool" where
  "hext h h' M V \<longleftrightarrow> hwf h' \<and> h_brk h \<le> h_brk h' \<and>
     (\<forall>q. h_blks h q \<noteq> None \<longrightarrow> q \<notin> M \<longrightarrow> shape (h_blks h' q) = shape (h_blks h q)) \<and>
     (\<forall>p. h_vals h p \<noteq> None \<longrightarrow> h_vals h' p \<noteq> None) \<and>
     (\<forall>p v. h_vals h p = Some v \<longrightarrow> p \<notin> V \<longrightarrow> map_option v_raw (h_vals h' p) = Some (v_raw v))"

lemma lrep_hext:
  assumes "lrep h l qs xs" "hext h h' M V" "s_valp l \<notin> V" "set qs \<inter> M = {}"
  shows "lrep h' l qs xs"
proof -
  from assms(1) obtain v b off where l: "h_vals h (s_valp l) = Some v" "v_raw v = RV_LIST b off" "lchain (h_blks h) b qs"
    "off < 65536" "if qs = [] then off = 0 else off < lb_real (the (h_blks h (hd qs)))" "xs = drop off (lcont (h_blks h) qs)"
    "\<forall>s \<in> set (lcont (h_blks h) qs). h_vals h (s_valp s) \<noteq> None" by (rule lrepE)
  have same: "\<forall>q \<in> set qs. shape (h_blks h' q) = shape (h_blks h q)"
  proof
    fix q assume q: "q \<in> set qs"
    obtain c where "h_blks h q = Some c" using lchain_Some [OF l(3) q] by blast
    with q assms(2,4) show "shape (h_blks h' q) = shape (h_blks h q)" by (auto simp: hext_def)
  qed
  obtain v' where v': "h_vals h' (s_valp l) = Some v'" "v_raw v' = RV_LIST b off"
  proof -
    have "map_option v_raw (h_vals h' (s_valp l)) = Some (v_raw v)" using assms(2,3) l(1) by (simp add: hext_def)
    with that l(2) show ?thesis by auto
  qed
  show ?thesis
  proof (rule lrepI [OF v'])
    show "lchain (h_blks h') b qs" by (rule iffD2 [OF lchain_cong l(3)]) (use same in simp)
    show "if qs = [] then off = 0 else off < lb_real (the (h_blks h' (hd qs)))"
    proof (cases qs)
      case (Cons q rs)
      then have "lcont (h_blks h') [q] = lcont (h_blks h) [q]" by (intro lcont_cong) (use same in simp)
      with l(5) Cons show ?thesis by simp
    qed (use l(5) in simp)
    show "xs = drop off (lcont (h_blks h') qs)" using l(6) lcont_cong [OF same] by simp
    show "\<forall>s \<in> set (lcont (h_blks h') qs). h_vals h' (s_valp s) \<noteq> None"
      using l(7) lcont_cong [OF same] assms(2) by (simp add: hext_def)
  qed (rule l(4))
qed

lemma hext_trans:
  assumes "hext h h1 M V" "hext h1 h2 M' V'"
  shows "hext h h2 (M \<union> M') (V \<union> V')"
  unfolding hext_def
proof (intro conjI allI impI)
  fix q assume q: "h_blks h q \<noteq> None" "q \<notin> M \<union> M'"
  then have s: "shape (h_blks h1 q) = shape (h_blks h q)" using assms(1) by (simp add: hext_def)
  with q have "h_blks h1 q \<noteq> None" by (auto simp: shape_def)
  with q s assms(2) show "shape (h_blks h2 q) = shape (h_blks h q)" by (simp add: hext_def)
next
  fix p v assume p: "h_vals h p = Some v" "p \<notin> V \<union> V'"
  then have "map_option v_raw (h_vals h1 p) = Some (v_raw v)" using assms(1) by (simp add: hext_def)
  then obtain v1 where v1: "h_vals h1 p = Some v1" "v_raw v1 = v_raw v" by auto
  have "map_option v_raw (h_vals h2 p) = Some (v_raw v1)" using assms(2) v1(1) p(2) by (simp add: hext_def)
  with v1(2) show "map_option v_raw (h_vals h2 p) = Some (v_raw v)" by simp
next
  show "hwf h2" using assms(2) by (simp add: hext_def)
  show "h_brk h \<le> h_brk h2" using assms by (meson hext_def order_trans)
next
  fix p assume "h_vals h p \<noteq> None"
  with assms show "h_vals h2 p \<noteq> None" unfolding hext_def by blast
qed

lemma hext_mono: "hext h h' M V \<Longrightarrow> M \<subseteq> M' \<Longrightarrow> V \<subseteq> V' \<Longrightarrow> hext h h' M' V'"
  unfolding hext_def by blast

lemma hext_blks: "hext h h' M V \<Longrightarrow> h_blks h q = Some b \<Longrightarrow> q \<notin> M \<Longrightarrow> shape (h_blks h' q) = shape (Some b)"
  by (simp add: hext_def)

lemma hext_vext:
  assumes "hwf h" "vext (h_vals h) (h_vals h')" "h_brk h \<le> h_brk h'" "hwf h'"
    "\<And>q. h_blks h q \<noteq> None \<Longrightarrow> q \<notin> M \<Longrightarrow> shape (h_blks h' q) = shape (h_blks h q)"
  shows "hext h h' M {}"
  unfolding hext_def
proof (intro conjI allI impI)
  fix p v assume "h_vals h p = Some v"
  with assms(2) obtain v' where "h_vals h' p = Some v'" "v_raw v' = v_raw v" by (rule vext_Some)
  then show "map_option v_raw (h_vals h' p) = Some (v_raw v)" by simp
qed (use assms vext_None [OF assms(2)] in auto)

section \<open>Reading a list\<close>

lemma list_peek_correct:
  assumes "lrep h l qs xs" "n < 2 ^ 32 - 2 ^ 16"
  shows "list_peek h l n = Some (if 1 \<le> n \<and> n \<le> length xs then Some (xs ! (n - 1)) else None)"
proof -
  from assms(1) obtain v b off where l: "h_vals h (s_valp l) = Some v" "v_raw v = RV_LIST b off" "lchain (h_blks h) b qs"
    "off < 65536" "if qs = [] then off = 0 else off < lb_real (the (h_blks h (hd qs)))" "xs = drop off (lcont (h_blks h) qs)"
    "\<forall>s \<in> set (lcont (h_blks h) qs). h_vals h (s_valp s) \<noteq> None" by (rule lrepE)
  show ?thesis
  proof (cases "1 \<le> n")
    case True
    then obtain loc where loc: "SEXP_rawval_lblk_nth h b (off + n) = Some loc"
      "loc_memb h loc = Some (if off + n \<le> length (lcont (h_blks h) qs) then Some (lcont (h_blks h) qs ! (off + n - 1)) else None)"
      using lblk_nth_memb [OF l(3), of "off + n"] by auto
    have "(off + n) mod 2 ^ 32 = off + n" using l(4) assms(2) by simp
    moreover have "off \<le> length (lcont (h_blks h) qs)" using l(5) by (cases qs) auto
    ultimately show ?thesis
      using True loc l(1,2) by (auto simp: list_peek_def SEXP_raw_def l(6))
  qed (use l in \<open>simp add: list_peek_def SEXP_raw_def\<close>)
qed

lemma list_length_correct:
  assumes "lrep h l qs xs" "length (lcont (h_blks h) qs) < 2 ^ 64"
  shows "SEXP_list_length h l = Some (length xs)"
proof -
  from assms(1) obtain v b off where l: "h_vals h (s_valp l) = Some v" "v_raw v = RV_LIST b off" "lchain (h_blks h) b qs"
    "off < 65536" "if qs = [] then off = 0 else off < lb_real (the (h_blks h (hd qs)))" "xs = drop off (lcont (h_blks h) qs)"
    "\<forall>s \<in> set (lcont (h_blks h) qs). h_vals h (s_valp s) \<noteq> None" by (rule lrepE)
  have le: "off \<le> length (lcont (h_blks h) qs)" using l(5) by (cases qs) auto
  then have "nat ((int (length (lcont (h_blks h) qs)) - int off) mod 2 ^ 64) = length (lcont (h_blks h) qs) - off"
    using assms(2) by simp
  with l show ?thesis
    by (simp add: SEXP_list_length_def SEXP_raw_def SEXP_rawval_list_length_def lblk_length_correct [OF l(3)])
qed

lemma it_items_chain:
  assumes "lchain (h_blks h) b qs" "if qs = [] then True else off < lb_real (the (h_blks h (hd qs)))" "it_at h b off = Some it"
  shows "it_items h it = Some (drop off (lcont (h_blks h) qs))"
  using assms
proof (induction "length (drop off (lcont (h_blks h) qs))" arbitrary: b qs off it rule: less_induct)
  case (less qs off b it)
  show ?case
  proof (cases qs)
    case Nil
    with less.prems show ?thesis
      by (subst it_items.simps) (auto simp: SEXP_list_it_next_def it_at_def)
  next
    case (Cons q rs)
    with less.prems(1) obtain c where c: "b = q" "q \<noteq> 0" "blk_at h q = Some c" "h_blks h q = Some c" "lb_memb c \<noteq> []"
      "lchain (h_blks h) (lb_next c) rs" using blk_at_chain by blast
    with less.prems Cons have off: "off < lb_real c" and it: "it = \<lparr>it_block = q, it_index = off, it_count = lb_real c\<rparr>"
      by (auto simp: it_at_def)
    define b' where "b' = (if off + 1 = lb_real c then lb_next c else q)"
    define off' where "off' = (if off + 1 = lb_real c then 0 else off + 1)"
    define qs' where "qs' = (if off + 1 = lb_real c then rs else qs)"
    have drop: "drop off (lcont (h_blks h) qs) = lb_memb c ! off # drop off' (lcont (h_blks h) qs')"
      using off Cons c(4) by (auto simp: off'_def qs'_def Cons_nth_drop_Suc drop_Suc_Cons simp flip: Cons_nth_drop_Suc)
    have ch: "lchain (h_blks h) b' qs'" using c Cons less.prems(1) by (simp add: b'_def qs'_def split: option.splits)
    have off': "if qs' = [] then True else off' < lb_real (the (h_blks h (hd qs')))"
    proof (cases "off + 1 = lb_real c")
      case True
      show ?thesis
      proof (cases rs)
        case (Cons r rs')
        with c(6) obtain d where "h_blks h r = Some d" "lb_memb d \<noteq> []" using blk_at_chain by blast
        with True Cons show ?thesis by (simp add: qs'_def off'_def)
      qed (use True in \<open>simp add: qs'_def\<close>)
    next
      case False
      with Cons c(4) off show ?thesis by (simp add: qs'_def off'_def)
    qed
    obtain it' where it': "it_at h b' off' = Some it'"
      using ch c(3) by (cases "qs'") (auto simp: it_at_def blk_at_def split: option.splits)
    have "SEXP_list_it_next h it = Some (Some (lb_memb c ! off), it')"
      using c off it' by (auto simp: SEXP_list_it_next_def it memb_at_def b'_def off'_def it_at_def
          split: Option.bind_splits)
    moreover have "it_items h it' = Some (drop off' (lcont (h_blks h) qs'))"
      by (rule less.hyps [OF _ ch off' it']) (simp add: drop)
    ultimately show ?thesis by (subst it_items.simps) (simp add: drop)
  qed
qed

lemma list_items_correct:
  assumes "lrep h l qs xs"
  shows "SEXP_list_items h l = Some xs"
proof -
  from assms obtain v b off where l: "h_vals h (s_valp l) = Some v" "v_raw v = RV_LIST b off" "lchain (h_blks h) b qs"
    "off < 65536" "if qs = [] then off = 0 else off < lb_real (the (h_blks h (hd qs)))" "xs = drop off (lcont (h_blks h) qs)"
    "\<forall>s \<in> set (lcont (h_blks h) qs). h_vals h (s_valp s) \<noteq> None" by (rule lrepE)
  obtain it where it: "it_at h b off = Some it"
    using l(3) by (cases qs) (auto simp: it_at_def blk_at_def split: option.splits)
  have "it_items h it = Some xs" unfolding l(6) by (rule it_items_chain [OF l(3) _ it]) (use l(5) in auto)
  with l it show ?thesis by (simp add: SEXP_list_items_def SEXP_list_it_new_def SEXP_raw_def)
qed

section \<open>Adding to a list\<close>

lemma add1_correct:
  assumes "hwf h" "lchain (h_blks h) p (qs @ [z])" "h_vals h (s_valp s) \<noteq> None"
  obtains h' ns where "SEXP_rawval_lblk_add1 h z s = Some h'" "hwf h'" "h_brk h \<le> h_brk h'" "vext (h_vals h) (h_vals h')"
    "\<forall>q. q < h_brk h \<longrightarrow> q \<noteq> z \<longrightarrow> h_blks h' q = h_blks h q"
    "lchain (h_blks h') p (qs @ z # ns)" "lcont (h_blks h') (qs @ z # ns) = lcont (h_blks h) (qs @ [z]) @ [s]"
    "\<forall>q \<in> set ns. h_brk h \<le> q \<and> lb_refs (the (h_blks h' q)) = 1"
    "lb_refs (the (h_blks h' z)) = lb_refs (the (h_blks h z))" "lb_real (the (h_blks h z)) \<le> lb_real (the (h_blks h' z))"
    "\<forall>p. p \<noteq> s_valp s \<longrightarrow> h_vals h' p = h_vals h p"
proof -
  obtain b where b: "h_blks h z = Some b" "lb_next b = 0" "z \<noteq> 0" "lb_memb b \<noteq> []" "lb_sz b < 16" "lb_real b \<le> 2 ^ lb_sz b"
    using assms(2) by (rule lchain_last)
  have at_z: "blk_at h z = Some b" "z < h_brk h" using hwf_blk [OF assms(1) b(1)] by auto
  have z: "z \<notin> set qs" using lchain_distinct [OF assms(2)] by simp
  have lt: "q < h_brk h" if "q \<in> set qs" for q
    using lchain_Some [OF assms(2), of q] that assms(1) by (metis Un_iff hwf_blk set_append)
  obtain v where v: "h_vals h (s_valp s) = Some v" using assms(3) by auto
  show ?thesis
  proof (cases "lb_real b < 2 ^ lb_sz b")
    case True
    obtain h1 where h1: "SEXP_rawval_incref h (s_valp s) = Some h1" "h_blks h1 = h_blks h" "h_brk h1 = h_brk h"
      "vext (h_vals h) (h_vals h1)" using v by (rule incref_correct)
    let ?h' = "blk_set h1 z (b\<lparr>lb_memb := lb_memb b @ [s]\<rparr>)"
    have same: "\<forall>q \<in> set qs. shape (h_blks ?h' q) = shape (h_blks h q)" using z h1(2) by auto
    show ?thesis
    proof (rule that [of ?h' "[]"])
      show "SEXP_rawval_lblk_add1 h z s = Some ?h'"
        using True at_z h1(1) by (simp add: SEXP_rawval_lblk_add1_def lblk_put_def)
      show "hwf ?h'" using hwf_vext [OF assms(1) h1(4,2,3)] b(1) h1(2) by (simp add: hwf_blk_set)
      show "lchain (h_blks ?h') p (qs @ [z])"
        by (rule lchain_relink [OF assms(2) same]) (use b True in simp)
      show "lcont (h_blks ?h') (qs @ [z]) = lcont (h_blks h) (qs @ [z]) @ [s]"
        using lcont_cong [OF same] b(1) by (simp add: fun_upd_def)
    qed (use h1 b incref_others [OF h1(1)] in auto)
  next
    case False
    define sz where "sz = (if lb_sz b = 15 then 6 else lb_sz b + 1)"
    have sz: "sz < 16" using b(5) by (simp add: sz_def)
    let ?new = "h_brk h"
    obtain h1 where h1: "SEXP_rawval_lblk_new h sz = Some (?new, h1)"
      "h_blks h1 = (h_blks h)(?new \<mapsto> \<lparr>lb_next = 0, lb_sz = sz, lb_refs = 1, lb_memb = []\<rparr>)"
      "h_vals h1 = h_vals h" "h_brk h1 = ?new + 1" "hwf h1" using lblk_new_correct [OF assms(1) sz] .
    define h2 where "h2 = blk_set h1 z (b\<lparr>lb_next := ?new\<rparr>)"
    have h2: "hwf h2" "h_vals h2 = h_vals h" "h_brk h2 = ?new + 1"
      "h_blks h2 = (h_blks h)(z \<mapsto> b\<lparr>lb_next := ?new\<rparr>, ?new \<mapsto> \<lparr>lb_next = 0, lb_sz = sz, lb_refs = 1, lb_memb = []\<rparr>)"
      using h1 b(1) at_z(2) by (auto simp: h2_def hwf_blk_set fun_upd_twist)
    obtain h3 where h3: "SEXP_rawval_incref h2 (s_valp s) = Some h3" "h_blks h3 = h_blks h2" "h_brk h3 = h_brk h2"
      "vext (h_vals h2) (h_vals h3)" using v h2(2) incref_correct [of h2] by metis
    let ?bn = "\<lparr>lb_next = 0, lb_sz = sz, lb_refs = 1, lb_memb = [s]\<rparr>"
    define h5 where "h5 = blk_set h3 ?new ?bn"
    have B': "h_blks h5 = (h_blks h)(z \<mapsto> b\<lparr>lb_next := ?new\<rparr>, ?new \<mapsto> ?bn)" by (simp add: h5_def h3(2) h2(4))
    have h5: "hwf h5" "h_vals h5 = h_vals h3" "h_brk h5 = ?new + 1"
      using hwf_vext [OF h2(1) h3(4,2,3)] h2(3,4) h3(2,3) by (simp_all add: hwf_blk_set h5_def)
    have pos: "0 < ?new" using at_z by simp
    have same: "\<forall>q \<in> set qs. shape (h_blks h5 q) = shape (h_blks h q)"
      using z lt by (auto simp: B')
    have sc: "lcont (h_blks h5) qs = lcont (h_blks h) qs" by (rule lcont_cong [OF same])
    have ct: "lb_memb (the (h_blks h5 z)) = lb_memb b" "lb_memb (the (h_blks h5 ?new)) = [s]" using at_z(2) by (simp_all add: B')
    have "blk_at h2 ?new = Some \<lparr>lb_next = 0, lb_sz = sz, lb_refs = 1, lb_memb = []\<rparr>"
      using hwf_blk [OF h2(1)] h2(4) by simp
    then have put: "lblk_put h2 ?new s = Some h5" using h3(1) by (simp add: lblk_put_def h5_def)
    show ?thesis
    proof (rule that [of h5 "[?new]"])
      show "SEXP_rawval_lblk_add1 h z s = Some h5"
        using False at_z h1(1) put by (simp add: SEXP_rawval_lblk_add1_def sz_def [symmetric] h2_def [symmetric])
      show "lchain (h_blks h5) p (qs @ z # [?new])"
        by (rule lchain_relink [OF assms(2) same]) (use b sz pos at_z(2) in \<open>simp add: B'\<close>)
      show "lcont (h_blks h5) (qs @ z # [?new]) = lcont (h_blks h) (qs @ [z]) @ [s]"
        using sc ct b(1) by simp
    qed (use h5 h3 h2 b at_z(2) incref_others [OF h3(1)] in \<open>auto simp: B'\<close>)
  qed
qed

lemma add_loop_owned:
  assumes "lchain (h_blks h) cur (qs @ [z])" "\<forall>q \<in> set (qs @ [z]). lb_refs (the (h_blks h q)) < 2"
  shows "lblk_add_loop h lblkp prev cur = Some (z, lblkp, h)"
  using assms
proof (induction qs arbitrary: prev cur)
  case Nil
  from Nil(1) have "lchain (h_blks h) cur [z]" by simp
  then obtain b where b: "cur = z" "z \<noteq> 0" "blk_at h z = Some b" "h_blks h z = Some b" "lchain (h_blks h) (lb_next b) []"
    by (rule blk_at_chain)
  then have "lblk_add_loop h lblkp z (lb_next b) = Some (z, lblkp, h)" by (subst lblk_add_loop.simps) simp
  with b Nil(2) show ?case by (subst lblk_add_loop.simps) simp
next
  case (Cons a qs)
  from Cons.prems(1) have "lchain (h_blks h) cur (a # qs @ [z])" by simp
  then obtain b where b: "cur = a" "a \<noteq> 0" "blk_at h a = Some b" "h_blks h a = Some b" "lchain (h_blks h) (lb_next b) (qs @ [z])"
    by (rule blk_at_chain)
  with Cons show ?case by (subst lblk_add_loop.simps) simp
qed

lemma add_loop_shared_head:
  assumes "hwf h" "lchain (h_blks h) p (q # qs)" "2 \<le> lb_refs (the (h_blks h q))"
    "length (lcont (h_blks h) (q # qs)) \<le> 65535" "\<forall>s \<in> set (lcont (h_blks h) (q # qs)). h_vals h (s_valp s) \<noteq> None"
  obtains h' p' ns z where "lblk_add_loop h p 0 p = Some (z, p', h')" "hwf h'" "h_brk h \<le> h_brk h'"
    "vext (h_vals h) (h_vals h')" "\<forall>q. q < h_brk h \<longrightarrow> shape (h_blks h' q) = shape (h_blks h q)"
    "lchain (h_blks h') p' (ns @ [z])" "lcont (h_blks h') (ns @ [z]) = lcont (h_blks h) (q # qs)"
    "\<forall>q \<in> set (ns @ [z]). h_brk h \<le> q \<and> lb_refs (the (h_blks h' q)) = 1"
    "lb_real (the (h_blks h' p')) \<ge> 1"
proof -
  obtain b where b: "p = q" "q \<noteq> 0" "blk_at h q = Some b" "h_blks h q = Some b" "lb_memb b \<noteq> []" "lchain (h_blks h) (lb_next b) qs"
    using assms(2) by (rule blk_at_chain)
  obtain p' h1 ns' where c: "SEXP_rawval_lblk_copy h p 0 = Some (p', h1)" "hwf h1" "h_brk h \<le> h_brk h1"
    "vext (h_vals h) (h_vals h1)" "\<forall>q. q < h_brk h \<longrightarrow> h_blks h1 q = h_blks h q" "lchain (h_blks h1) p' ns'"
    "lcont (h_blks h1) ns' = drop 0 (lcont (h_blks h) (q # qs))"
    "\<forall>q \<in> set ns'. h_brk h \<le> q \<and> lb_refs (the (h_blks h1 q)) = 1"
    by (rule lblk_copy_correct [OF assms(1,2), of 0]) (use assms b in auto)
  have "ns' \<noteq> []" using c(7) b by auto
  then obtain ns z where ns': "ns' = ns @ [z]" by (metis rev_exhaust)
  have qlt: "q < h_brk h" using hwf_blk [OF assms(1) b(4)] by simp
  define b' where "b' = b\<lparr>lb_refs := (lb_refs b + 65535) mod 65536\<rparr>"
  define h2 where "h2 = blk_set h1 q b'"
  have q1: "blk_at h1 q = Some b" "h_blks h1 q = Some b" using c(5) qlt b by (auto simp: blk_at_def)
  have dec: "\<exists>z. SEXP_rawval_lblk_decref h1 p = Some (z, h2)"
    using b(1) q1 by (simp add: SEXP_rawval_lblk_decref_def h2_def b'_def Let_def)
  have same: "\<forall>r \<in> set ns'. shape (h_blks h2 r) = shape (h_blks h1 r)" using c(8) qlt by (auto simp: h2_def)
  have ch: "lchain (h_blks h2) p' (ns @ [z])" using iffD2 [OF lchain_cong [OF same] c(6)] ns' by simp
  have ct: "lcont (h_blks h2) ns' = lcont (h_blks h) (q # qs)" using lcont_cong [OF same] c(7) by simp
  show ?thesis
  proof (rule that [of z p' h2 ns])
    show "lblk_add_loop h p 0 p = Some (z, p', h2)"
      using b dec c(1) lblk_last_correct [OF ch] assms(3)
      by (subst lblk_add_loop.simps) (auto simp: blk_link_def)
    show "hwf h2" using c(2) q1(2) by (simp add: h2_def hwf_blk_set)
    show "\<forall>r. r < h_brk h \<longrightarrow> shape (h_blks h2 r) = shape (h_blks h r)"
      using c(5) b(4) by (auto simp: h2_def b'_def shape_def)
    show "\<forall>r \<in> set (ns @ [z]). h_brk h \<le> r \<and> lb_refs (the (h_blks h2 r)) = 1"
      using c(8) qlt ns' by (auto simp: h2_def)
    show "lcont (h_blks h2) (ns @ [z]) = lcont (h_blks h) (q # qs)" using ct ns' by simp
    show "lb_real (the (h_blks h2 p')) \<ge> 1"
      using ch by (cases "ns @ [z]") (auto split: option.splits simp: Suc_le_eq)
  qed (use c ch in \<open>auto simp: h2_def\<close>)
qed

text \<open>
  A list to which a member may be added: a value that several \<open>SEXP_t\<close> refer to has a member and at most
  65535 (its copy has blocks of 1, 2, 4 ... 2 ^ 15 members); the value of one \<open>SEXP_t\<close> shares no block with
  another list, or all of them and skips none.
\<close>

definition addable :: "'v sheap \<Rightarrow> SEXP_t \<Rightarrow> nat list \<Rightarrow> SEXP_t list \<Rightarrow> bool" where
  "addable h l qs xs \<longleftrightarrow>
     (if val_refs h l > 1 then xs \<noteq> [] \<and> length xs \<le> 65535
      else own_blks h qs = set qs \<or>
           qs \<noteq> [] \<and> 2 \<le> lb_refs (the (h_blks h (hd qs))) \<and> length (lcont (h_blks h) qs) \<le> 65535 \<and> length xs = length (lcont (h_blks h) qs))"

lemma list_private_correct:
  assumes "hwf h" "lrep h l qs xs" "val_refs h l > 1" "length xs \<le> 65535"
  obtains l' h' qs' b where "list_private h l = Some (l', h')" "hwf h'" "lrep h' l' qs' xs" "hext h h' {} {}"
    "h_vals h' (s_valp l') = Some \<lparr>v_refs = 1, v_raw = RV_LIST b 0\<rparr>" "own_blks h' qs' = set qs'" "\<forall>q \<in> set qs'. h_brk h \<le> q"
    "s_type l' = s_type l" "h_vals h (s_valp l') = None"
proof -
  from assms(2) obtain v b off where l: "h_vals h (s_valp l) = Some v" "v_raw v = RV_LIST b off" "lchain (h_blks h) b qs"
    "off < 65536" "if qs = [] then off = 0 else off < lb_real (the (h_blks h (hd qs)))" "xs = drop off (lcont (h_blks h) qs)"
    "\<forall>s \<in> set (lcont (h_blks h) qs). h_vals h (s_valp s) \<noteq> None" by (rule lrepE)
  have hd: "off < lb_real (the (h_blks h b))" if "qs \<noteq> []"
    using that l(3,5) by (cases qs) auto
  obtain p' h1 ns where c: "SEXP_rawval_lblk_copy h b off = Some (p', h1)" "hwf h1" "h_brk h \<le> h_brk h1"
    "vext (h_vals h) (h_vals h1)" "\<forall>q. q < h_brk h \<longrightarrow> h_blks h1 q = h_blks h q" "lchain (h_blks h1) p' ns"
    "lcont (h_blks h1) ns = drop off (lcont (h_blks h) qs)"
    "\<forall>q \<in> set ns. h_brk h \<le> q \<and> lb_refs (the (h_blks h1 q)) = 1"
    by (rule lblk_copy_correct [OF assms(1) l(3) hd]) (use assms(4) l in auto)
  let ?new = "h_brk h1"
  define h2 where "h2 = h1\<lparr>h_vals := (h_vals h1)(?new \<mapsto> \<lparr>v_refs = 1, v_raw = RV_LIST p' 0\<rparr>), h_brk := ?new + 1\<rparr>"
  have copy: "SEXP_rawval_list_copy h (s_valp l) = Some (?new, h2)"
    using l(1,2) c(1) by (simp add: SEXP_rawval_list_copy_def SEXP_val_new_def h2_def)
  obtain v1 where v1: "h_vals h1 (s_valp l) = Some v1" "v_raw v1 = v_raw v" "v_refs v \<le> v_refs v1"
    using c(4) l(1) by (rule vext_Some)
  have refs: "v_refs v1 > 1" using assms(3) l(1) v1(3) by (simp add: val_refs_def)
  have lt: "p < h_brk h" if "h_vals h p \<noteq> None" for p using assms(1) that by (simp add: hwf_def)
  have lt1: "p < h_brk h1" if "h_vals h1 p \<noteq> None" for p using c(2) that by (simp add: hwf_def)
  have ne: "s_valp l \<noteq> ?new" using lt1 [of "s_valp l"] v1(1) by auto
  define v2 where "v2 = v1\<lparr>v_refs := v_refs v1 - 1\<rparr>"
  define h3 where "h3 = h2\<lparr>h_vals := (h_vals h2)(s_valp l \<mapsto> v2)\<rparr>"
  have dec: "SEXP_rawval_decref h2 (s_valp l) = Some (False, h3)"
    using v1(1) ne refs by (auto simp: SEXP_rawval_decref_def h2_def h3_def v2_def)
  have V3: "h_vals h3 = (h_vals h1)(?new \<mapsto> \<lparr>v_refs = 1, v_raw = RV_LIST p' 0\<rparr>, s_valp l \<mapsto> v2)"
    "h_blks h3 = h_blks h1" "h_brk h3 = ?new + 1" by (simp_all add: h3_def h2_def)
  have hwf3: "hwf h3"
    using c(2) v1(1) unfolding hwf_def V3 by (auto simp: less_Suc_eq)
  have none: "h_vals h ?new = None" 
  proof (rule ccontr)
    assume "h_vals h ?new \<noteq> None"
    from lt [OF this] c(3) show False by simp
  qed
  show ?thesis
  proof (rule that [of "l\<lparr>s_valp := ?new\<rparr>" h3 ns p'])
    show "list_private h l = Some (l\<lparr>s_valp := ?new\<rparr>, h3)"
      using copy dec by (simp add: list_private_def)
    show "lrep h3 (l\<lparr>s_valp := ?new\<rparr>) ns xs"
    proof (rule lrepI)
      show "if ns = [] then 0 = 0 else 0 < lb_real (the (h_blks h3 (hd ns)))"
        using c(6) V3(2) by (cases ns) (auto split: option.splits)
      have "\<forall>s \<in> set xs. h_vals h (s_valp s) \<noteq> None" using l(6,7) by (meson in_set_dropD)
      then have "\<forall>s \<in> set xs. h_vals h1 (s_valp s) \<noteq> None" using vext_None [OF c(4)] by simp
      then show "\<forall>s \<in> set (lcont (h_blks h3) ns). h_vals h3 (s_valp s) \<noteq> None"
        using c(7) l(6) by (auto simp: V3)
    qed (use c ne l(6) in \<open>auto simp: V3\<close>)
    show "hext h h3 {} {}"
      unfolding hext_def
    proof (intro conjI allI impI)
      fix q assume "h_blks h q \<noteq> None"
      with assms(1) have "q < h_brk h" by (simp add: hwf_def)
      with c(5) show "shape (h_blks h3 q) = shape (h_blks h q)" by (simp add: V3)
    next
      fix p w assume p: "h_vals h p = Some w"
      then obtain w' where w: "h_vals h1 p = Some w'" "v_raw w' = v_raw w" "v_refs w \<le> v_refs w'" using vext_Some [OF c(4)] by metis
      moreover have "p \<noteq> ?new" using none p by auto
      ultimately show "map_option v_raw (h_vals h3 p) = Some (v_raw w)" using v1(1) by (auto simp: V3 v2_def)
    next
      fix p assume "h_vals h p \<noteq> None"
      then show "h_vals h3 p \<noteq> None" using vext_None [OF c(4), of p] by (auto simp: V3)
    qed (use hwf3 c(3) V3(3) in auto)
    show "own_blks h3 ns = set ns" using c(8) by (auto simp: own_blks_def V3)
  qed (use hwf3 ne none c(8) in \<open>auto simp: V3\<close>)
qed

lemma val_set_addr_correct:
  assumes "hwf h" "h_vals h p = Some v" "v_raw v = RV_LIST b off"
  obtains h' where "val_set_addr h p b' = Some h'" "h_blks h' = h_blks h" "h_brk h' = h_brk h"
    "h_vals h' = (h_vals h)(p \<mapsto> v\<lparr>v_raw := RV_LIST b' off\<rparr>)" "hext h h' {} {p}"
proof (rule that)
  let ?h = "h\<lparr>h_vals := (h_vals h)(p \<mapsto> v\<lparr>v_raw := RV_LIST b' off\<rparr>)\<rparr>"
  show "val_set_addr h p b' = Some ?h" using assms by (simp add: val_set_addr_def)
  have "hwf ?h" using assms(1,2) unfolding hwf_def by auto
  then show "hext h ?h {} {p}" by (simp add: hext_def)
qed simp_all

text \<open>
  The list after its last block \<open>z\<close> got the member: the value of the list, which may still have another head,
  is set.
\<close>

lemma add_finish:
  assumes "hwf h" "lchain (h_blks h) p (qs @ [z])" "h_vals h (s_valp s) \<noteq> None"
    "h_vals h (s_valp l) = Some v" "v_raw v = RV_LIST b off" "off < 65536"
    "off < lb_real (the (h_blks h (hd (qs @ [z]))))"
    "\<forall>s \<in> set (lcont (h_blks h) (qs @ [z])). h_vals h (s_valp s) \<noteq> None"
  obtains h1 h' ns where "SEXP_rawval_lblk_add1 h z s = Some h1" "val_set_addr h1 (s_valp l) p = Some h'"
    "lrep h' l (qs @ z # ns) (drop off (lcont (h_blks h) (qs @ [z])) @ [s])"
    "hext h h' {z} {s_valp l}" "b = p \<Longrightarrow> hext h h1 {z} {} \<and> h' = h1"
    "\<forall>q \<in> set ns. h_brk h \<le> q \<and> lb_refs (the (h_blks h' q)) = 1"
    "\<forall>q \<in> set (qs @ [z]). lb_refs (the (h_blks h' q)) = lb_refs (the (h_blks h q))"
    "s_valp s \<noteq> s_valp l \<Longrightarrow> val_refs h' l = v_refs v"
proof -
  obtain h1 ns where a: "SEXP_rawval_lblk_add1 h z s = Some h1" "hwf h1" "h_brk h \<le> h_brk h1" "vext (h_vals h) (h_vals h1)"
    "\<forall>q. q < h_brk h \<longrightarrow> q \<noteq> z \<longrightarrow> h_blks h1 q = h_blks h q"
    "lchain (h_blks h1) p (qs @ z # ns)" "lcont (h_blks h1) (qs @ z # ns) = lcont (h_blks h) (qs @ [z]) @ [s]"
    "\<forall>q \<in> set ns. h_brk h \<le> q \<and> lb_refs (the (h_blks h1 q)) = 1"
    "lb_refs (the (h_blks h1 z)) = lb_refs (the (h_blks h z))" "lb_real (the (h_blks h z)) \<le> lb_real (the (h_blks h1 z))"
    "\<forall>p. p \<noteq> s_valp s \<longrightarrow> h_vals h1 p = h_vals h p"
    using add1_correct [OF assms(1-3)] .
  obtain v1 where v1: "h_vals h1 (s_valp l) = Some v1" "v_raw v1 = v_raw v" "v_refs v \<le> v_refs v1"
    using a(4) assms(4) by (rule vext_Some)
  obtain h' where s: "val_set_addr h1 (s_valp l) p = Some h'" "h_blks h' = h_blks h1" "h_brk h' = h_brk h1"
    "h_vals h' = (h_vals h1)(s_valp l \<mapsto> v1\<lparr>v_raw := RV_LIST p off\<rparr>)" "hext h1 h' {} {s_valp l}"
    using val_set_addr_correct [OF a(2) v1(1)] v1(2) assms(5) by metis
  have lt: "q < h_brk h" if "h_blks h q \<noteq> None" for q using assms(1) that by (simp add: hwf_def)
  have e1: "hext h h1 {z} {}" by (rule hext_vext [OF assms(1) a(4,3,2)]) (use a(5) lt in auto)
  have ltq: "q < h_brk h" if q: "q \<in> set (qs @ [z])" for q
    using lchain_Some [OF assms(2) q] lt by blast
  have vals: "h_vals h' p = None \<longleftrightarrow> h_vals h p = None" for p
    using vext_None [OF a(4), of p] v1(1) s(4) by auto
  have h_eq: "h' = h1" if "b = p"
  proof -
    have "v1\<lparr>v_raw := RV_LIST p off\<rparr> = v1" using that v1(2) assms(5) by simp
    then have "h_vals h' = h_vals h1" using s(4) v1(1) by (simp add: fun_upd_idem)
    with s(2,3) show ?thesis by simp
  qed
  show ?thesis
  proof (rule that [OF a(1) s(1)])
    show "lrep h' l (qs @ z # ns) (drop off (lcont (h_blks h) (qs @ [z])) @ [s])"
    proof (rule lrepI)
      show "h_vals h' (s_valp l) = Some (v1\<lparr>v_raw := RV_LIST p off\<rparr>)" using s(4) by simp
      show "lchain (h_blks h') p (qs @ z # ns)" using a(6) s(2) by simp
      have "lb_real (the (h_blks h (hd (qs @ [z])))) \<le> lb_real (the (h_blks h' (hd (qs @ z # ns))))"
        using a(5,10) s(2) ltq lchain_distinct [OF assms(2)] by (cases qs) auto
      with assms(7) show "if qs @ z # ns = [] then off = 0 else off < lb_real (the (h_blks h' (hd (qs @ z # ns))))" by simp
      have "off \<le> length (lcont (h_blks h) (qs @ [z]))" using assms(7) by (cases qs) auto
      then show "drop off (lcont (h_blks h) (qs @ [z])) @ [s] = drop off (lcont (h_blks h') (qs @ z # ns))"
        by (simp only: s(2) a(7) drop_append) simp
      show "\<forall>s \<in> set (lcont (h_blks h') (qs @ z # ns)). h_vals h' (s_valp s) \<noteq> None"
        using assms(3,8) by (simp only: s(2) a(7) vals) auto
    qed (use assms(6) in simp_all)
    show "hext h h' {z} {s_valp l}" using hext_trans [OF e1 s(5)] by simp
    show "hext h h1 {z} {} \<and> h' = h1" if "b = p" using e1 h_eq that by simp
    show "\<forall>q \<in> set (qs @ [z]). lb_refs (the (h_blks h' q)) = lb_refs (the (h_blks h q))"
    proof
      fix q assume q: "q \<in> set (qs @ [z])"
      show "lb_refs (the (h_blks h' q)) = lb_refs (the (h_blks h q))"
        using a(5,9) s(2) ltq [OF q] by (cases "q = z") auto
    qed
    show "val_refs h' l = v_refs v" if "s_valp s \<noteq> s_valp l"
      using that a(11) assms(4) v1(1) s(4) by (auto simp: val_refs_def)
  qed (use a(8) s(2) in auto)
qed

lemma hext_forget: "hext h h' {z} V \<Longrightarrow> h_blks h z = None \<Longrightarrow> hext h h' {} V"
  by (auto simp: hext_def)

lemma add_to_empty:
  assumes "hwf h" "lrep h l [] xs" "h_vals h (s_valp s) \<noteq> None" "val_refs h l \<le> 1"
  obtains h' p where "SEXP_list_add h l s = Some (Some l, h')" "lrep h' l [p] [s]" "hext h h' {} {s_valp l}"
    "lb_refs (the (h_blks h' p)) = 1" "h_brk h \<le> p" "s_valp s \<noteq> s_valp l \<longrightarrow> val_refs h' l = val_refs h l"
proof -
  from assms(2) obtain v where l: "h_vals h (s_valp l) = Some v" "v_raw v = RV_LIST 0 0"
    by (rule lrepE) (auto split: if_splits)
  let ?new = "h_brk h"
  obtain h1 where h1: "SEXP_rawval_lblk_new h 1 = Some (?new, h1)"
    "h_blks h1 = (h_blks h)(?new \<mapsto> \<lparr>lb_next = 0, lb_sz = 1, lb_refs = 1, lb_memb = []\<rparr>)"
    "h_vals h1 = h_vals h" "h_brk h1 = ?new + 1" "hwf h1" using lblk_new_correct [OF assms(1), of 1] by auto
  have at: "blk_at h1 ?new = Some \<lparr>lb_next = 0, lb_sz = 1, lb_refs = 1, lb_memb = []\<rparr>" and pos: "0 < ?new"
    using hwf_blk [OF h1(5)] h1(2) by auto
  obtain w where w: "h_vals h1 (s_valp s) = Some w" using assms(3) h1(3) by auto
  obtain h2 where h2: "SEXP_rawval_incref h1 (s_valp s) = Some h2" "h_blks h2 = h_blks h1" "h_brk h2 = h_brk h1"
    "vext (h_vals h1) (h_vals h2)" using w by (rule incref_correct)
  define h3 where "h3 = blk_set h2 ?new \<lparr>lb_next = 0, lb_sz = 1, lb_refs = 1, lb_memb = [s]\<rparr>"
  have add1: "SEXP_rawval_lblk_add1 h1 ?new s = Some h3"
    using at h2(1) by (simp add: SEXP_rawval_lblk_add1_def lblk_put_def h3_def)
  have h3: "hwf h3" "h_vals h3 = h_vals h2" "h_brk h3 = ?new + 1"
    "h_blks h3 = (h_blks h)(?new \<mapsto> \<lparr>lb_next = 0, lb_sz = 1, lb_refs = 1, lb_memb = [s]\<rparr>)"
    using hwf_vext [OF h1(5) h2(4,2,3)] h1 h2 by (simp_all add: h3_def hwf_blk_set)
  have ext: "vext (h_vals h) (h_vals h3)" using h2(4) h1(3) h3(2) by simp
  have e3: "hext h h3 {} {}"
    by (rule hext_vext [OF assms(1) ext _ h3(1)]) (use h3 assms(1) in \<open>auto simp: hwf_def\<close>)
  obtain v3 where v3: "h_vals h3 (s_valp l) = Some v3" "v_raw v3 = RV_LIST 0 0"
    using vext_Some [OF ext l(1)] l(2) by metis
  obtain w0 where "h_vals h (s_valp s) = Some w0" using assms(3) by auto
  with ext obtain w3 where s3: "h_vals h3 (s_valp s) = Some w3" by (rule vext_Some)
  obtain h' where h': "val_set_addr h3 (s_valp l) ?new = Some h'" "h_blks h' = h_blks h3" "h_brk h' = h_brk h3"
    "h_vals h' = (h_vals h3)(s_valp l \<mapsto> v3\<lparr>v_raw := RV_LIST ?new 0\<rparr>)" "hext h3 h' {} {s_valp l}"
    using val_set_addr_correct [OF h3(1) v3] by metis
  show ?thesis
  proof (rule that [of h' ?new])
    show "SEXP_list_add h l s = Some (Some l, h')"
      using l assms(4) h1(1) add1 h'(1) by (simp add: SEXP_list_add_def SEXP_rawval_lblk_add_def val_refs_def)
    show "lrep h' l [?new] [s]"
    proof (rule lrepI [where off = 0])
      show "h_vals h' (s_valp l) = Some (v3\<lparr>v_raw := RV_LIST ?new 0\<rparr>)" using h'(4) by simp
      show "\<forall>s \<in> set (lcont (h_blks h') [?new]). h_vals h' (s_valp s) \<noteq> None"
        using s3 h'(2,4) h3(4) by simp
    qed (use h'(2) h3(4) pos in simp_all)
    show "hext h h' {} {s_valp l}" using hext_trans [OF e3 h'(5)] by simp
    show "s_valp s \<noteq> s_valp l \<longrightarrow> val_refs h' l = val_refs h l"
      using incref_others [OF h2(1)] h1(3) h3(2) h'(4) l(1) v3(1) by (auto simp: val_refs_def)
  qed (use h'(2) h3(4) in simp_all)
qed

text \<open>The list of one \<open>SEXP_t\<close> that shares no block.\<close>

lemma list_add_owned:
  assumes "hwf h" "lrep h l qs xs" "h_vals h (s_valp s) \<noteq> None" "val_refs h l \<le> 1" "own_blks h qs = set qs"
  obtains h' qs' where "SEXP_list_add h l s = Some (Some l, h')" "lrep h' l qs' (xs @ [s])" "hext h h' (set qs) {s_valp l}"
    "own_blks h' qs' = set qs'" "set qs' \<subseteq> set qs \<union> {q. h_brk h \<le> q}" "s_valp s \<noteq> s_valp l \<longrightarrow> val_refs h' l = val_refs h l"
proof (cases qs rule: rev_cases)
  case Nil
  with assms(2) have l0: "lrep h l [] xs" by simp
  then have xs: "xs = []" by (rule lrepE) simp
  obtain h' p where "SEXP_list_add h l s = Some (Some l, h')" "lrep h' l [p] [s]" "hext h h' {} {s_valp l}"
    "lb_refs (the (h_blks h' p)) = 1" "h_brk h \<le> p" "s_valp s \<noteq> s_valp l \<longrightarrow> val_refs h' l = val_refs h l"
    by (rule add_to_empty [OF assms(1) l0 assms(3,4)])
  moreover from this have "own_blks h' [p] = {p}" by (auto simp: own_blks_def)
  ultimately show ?thesis using xs Nil that [of h' "[p]"] by simp
next
  case (snoc us z)
  from assms(2) obtain v b off where l: "h_vals h (s_valp l) = Some v" "v_raw v = RV_LIST b off" "lchain (h_blks h) b qs"
    "off < 65536" "if qs = [] then off = 0 else off < lb_real (the (h_blks h (hd qs)))" "xs = drop off (lcont (h_blks h) qs)"
    "\<forall>s \<in> set (lcont (h_blks h) qs). h_vals h (s_valp s) \<noteq> None" by (rule lrepE)
  have own: "\<forall>q \<in> set (us @ [z]). lb_refs (the (h_blks h q)) < 2" using assms(5) snoc by (auto simp: own_blks_def)
  have ch: "lchain (h_blks h) b (us @ [z])" using l(3) snoc by simp
  obtain h1 h' ns where f: "SEXP_rawval_lblk_add1 h z s = Some h1" "val_set_addr h1 (s_valp l) b = Some h'"
    "lrep h' l (us @ z # ns) (drop off (lcont (h_blks h) (us @ [z])) @ [s])"
    "hext h h' {z} {s_valp l}" "b = b \<Longrightarrow> hext h h1 {z} {} \<and> h' = h1"
    "\<forall>q \<in> set ns. h_brk h \<le> q \<and> lb_refs (the (h_blks h' q)) = 1"
    "\<forall>q \<in> set (us @ [z]). lb_refs (the (h_blks h' q)) = lb_refs (the (h_blks h q))"
    "s_valp s \<noteq> s_valp l \<Longrightarrow> val_refs h' l = v_refs v"
    by (rule add_finish [OF assms(1) ch assms(3) l(1,2,4)]) (use l(5,7) snoc in auto)
  have b0: "b \<noteq> 0" using ch by (cases us) auto
  show ?thesis
  proof (rule that [of h' "us @ z # ns"])
    have "v_refs v \<le> 1" using assms(4) l(1) by (simp add: val_refs_def)
    then show "SEXP_list_add h l s = Some (Some l, h')"
      using l(1,2) b0 add_loop_owned [OF ch own, of b 0] f(1,2) by (simp add: SEXP_list_add_def SEXP_rawval_lblk_add_def)
    show "lrep h' l (us @ z # ns) (xs @ [s])" using f(3) l(6) snoc by simp
    show "hext h h' (set qs) {s_valp l}" by (rule hext_mono [OF f(4)]) (use snoc in auto)
    show "own_blks h' (us @ z # ns) = set (us @ z # ns)" using f(6,7) own by (auto simp: own_blks_def)
    show "set (us @ z # ns) \<subseteq> set qs \<union> {q. h_brk h \<le> q}" using f(6) snoc by auto
    show "s_valp s \<noteq> s_valp l \<longrightarrow> val_refs h' l = val_refs h l"
      using f(8) l(1) by (simp add: val_refs_def)
  qed
qed

lemma list_add_correct:
  assumes "hwf h" "lrep h l qs xs" "h_vals h (s_valp s) \<noteq> None" "addable h l qs xs"
  obtains l' h' qs' where "SEXP_list_add h l s = Some (Some l', h')" "lrep h' l' qs' (xs @ [s])"
    "hext h h' (if val_refs h l > 1 then {} else own_blks h qs) (if val_refs h l > 1 then {} else {s_valp l})"
    "own_blks h' qs' = set qs'" "s_type l' = s_type l"
proof (cases "val_refs h l > 1")
  case True
  with assms(4) have xs: "xs \<noteq> []" "length xs \<le> 65535" by (auto simp: addable_def)
  obtain l1 h1 qs1 b1 where p: "list_private h l = Some (l1, h1)" "hwf h1" "lrep h1 l1 qs1 xs" "hext h h1 {} {}"
    "h_vals h1 (s_valp l1) = Some \<lparr>v_refs = 1, v_raw = RV_LIST b1 0\<rparr>" "own_blks h1 qs1 = set qs1" "\<forall>q \<in> set qs1. h_brk h \<le> q"
    "s_type l1 = s_type l" "h_vals h (s_valp l1) = None" using list_private_correct [OF assms(1,2) True xs(2)] .
  from p(3,5) have ch: "lchain (h_blks h1) b1 qs1" and ct: "xs = lcont (h_blks h1) qs1"
    and ok: "\<forall>s \<in> set (lcont (h_blks h1) qs1). h_vals h1 (s_valp s) \<noteq> None" by (auto elim!: lrepE)
  from ct xs(1) obtain us z where qs1: "qs1 = us @ [z]" by (cases qs1 rule: rev_cases) auto
  have s1: "h_vals h1 (s_valp s) \<noteq> None" using assms(3) p(4) by (simp add: hext_def)
  have ch': "lchain (h_blks h1) b1 (us @ [z])" using ch qs1 by simp
  have hd: "0 < lb_real (the (h_blks h1 (hd (us @ [z]))))"
    using ch' by (cases us) (auto split: option.splits)
  obtain h2 h' ns where f: "SEXP_rawval_lblk_add1 h1 z s = Some h2"
    "lrep h' l1 (us @ z # ns) (drop 0 (lcont (h_blks h1) (us @ [z])) @ [s])"
    "b1 = b1 \<Longrightarrow> hext h1 h2 {z} {} \<and> h' = h2"
    "\<forall>q \<in> set ns. h_brk h1 \<le> q \<and> lb_refs (the (h_blks h' q)) = 1"
    "\<forall>q \<in> set (us @ [z]). lb_refs (the (h_blks h' q)) = lb_refs (the (h_blks h1 q))"
    by (rule add_finish [OF p(2) ch' s1 p(5), of b1 0]) (use hd ok qs1 in auto)
  have e2: "hext h1 h2 {z} {}" and h': "h' = h2" using f(3) by simp_all
  have zn: "h_blks h z = None"
  proof (rule ccontr)
    assume "h_blks h z \<noteq> None"
    with assms(1) have "z < h_brk h" by (simp add: hwf_def)
    with p(7) qs1 show False by auto
  qed
  have v: "v_refs (the (h_vals h (s_valp l))) > 1" and raw: "\<exists>b off. v_raw (the (h_vals h (s_valp l))) = RV_LIST b off"
    and some: "h_vals h (s_valp l) \<noteq> None"
    using True assms(2) by (auto elim!: lrepE simp: val_refs_def)
  show ?thesis
  proof (rule that [of l1 h2 "us @ z # ns"])
    show "SEXP_list_add h l s = Some (Some l1, h2)"
      using v raw some p(1,5) lblk_last_correct [OF ch'] f(1) by (auto simp: SEXP_list_add_def SEXP_raw_def)
    show "lrep h2 l1 (us @ z # ns) (xs @ [s])" using f(2) h' ct qs1 by simp
    have "hext h h2 {z} {}" using hext_trans [OF p(4) e2] by simp
    then have "hext h h2 {} {}" using zn by (rule hext_forget)
    with True show "hext h h2 (if val_refs h l > 1 then {} else own_blks h qs) (if val_refs h l > 1 then {} else {s_valp l})"
      by simp
    show "own_blks h2 (us @ z # ns) = set (us @ z # ns)"
      using f(4,5) p(6) h' qs1 by (auto simp: own_blks_def)
  qed (rule p(8))
next
  case False
  show ?thesis
  proof (cases "own_blks h qs = set qs")
    case True
    obtain h' qs' where "SEXP_list_add h l s = Some (Some l, h')" "lrep h' l qs' (xs @ [s])" "hext h h' (set qs) {s_valp l}"
      "own_blks h' qs' = set qs'" using list_add_owned [OF assms(1-3) _ True] False by (metis not_less)
    with False True that [of l h' qs'] show ?thesis by simp
  next
    case shared: False
    with assms(4) False have a: "qs \<noteq> []" "2 \<le> lb_refs (the (h_blks h (hd qs)))" "length (lcont (h_blks h) qs) \<le> 65535"
      "length xs = length (lcont (h_blks h) qs)" by (auto simp: addable_def)
    from assms(2) obtain v b off where l: "h_vals h (s_valp l) = Some v" "v_raw v = RV_LIST b off" "lchain (h_blks h) b qs"
      "off < 65536" "if qs = [] then off = 0 else off < lb_real (the (h_blks h (hd qs)))" "xs = drop off (lcont (h_blks h) qs)"
      "\<forall>s \<in> set (lcont (h_blks h) qs). h_vals h (s_valp s) \<noteq> None" by (rule lrepE)
    obtain q rs where qs: "qs = q # rs" using a(1) by (cases qs) auto
    have "lcont (h_blks h) qs \<noteq> []" using l(3) qs by (auto split: option.splits)
    then have "0 < length (lcont (h_blks h) qs)" by (simp only: length_greater_0_conv not_False_eq_True)
    moreover have "length (lcont (h_blks h) qs) - off = length (lcont (h_blks h) qs)" using a(4) by (simp only: l(6) length_drop)
    ultimately have off: "off = 0" by linarith
    obtain h1 p' ns z where c: "lblk_add_loop h b 0 b = Some (z, p', h1)" "hwf h1" "h_brk h \<le> h_brk h1"
      "vext (h_vals h) (h_vals h1)" "\<forall>q. q < h_brk h \<longrightarrow> shape (h_blks h1 q) = shape (h_blks h q)"
      "lchain (h_blks h1) p' (ns @ [z])" "lcont (h_blks h1) (ns @ [z]) = lcont (h_blks h) (q # rs)"
      "\<forall>q \<in> set (ns @ [z]). h_brk h \<le> q \<and> lb_refs (the (h_blks h1 q)) = 1"
      "lb_real (the (h_blks h1 p')) \<ge> 1"
      by (rule add_loop_shared_head [OF assms(1), of b q rs]) (use l a qs in auto)
    have lt: "q < h_brk h" if "h_blks h q \<noteq> None" for q using assms(1) that by (simp add: hwf_def)
    have e1: "hext h h1 {} {}" by (rule hext_vext [OF assms(1) c(4,3,2)]) (use c(5) lt in auto)
    obtain v1 where v1: "h_vals h1 (s_valp l) = Some v1" "v_raw v1 = RV_LIST b 0"
      using vext_Some [OF c(4) l(1)] l(2) off by metis
    have s1: "h_vals h1 (s_valp s) \<noteq> None" using assms(3) vext_None [OF c(4)] by simp
    have hd: "0 < lb_real (the (h_blks h1 (hd (ns @ [z]))))"
      using c(6,9) by (cases ns) auto
    have ok: "\<forall>s \<in> set (lcont (h_blks h1) (ns @ [z])). h_vals h1 (s_valp s) \<noteq> None"
      using l(7) qs vext_None [OF c(4)] by (simp only: c(7))
    obtain h2 h' ns' where f: "SEXP_rawval_lblk_add1 h1 z s = Some h2" "val_set_addr h2 (s_valp l) p' = Some h'"
      "lrep h' l (ns @ z # ns') (drop 0 (lcont (h_blks h1) (ns @ [z])) @ [s])" "hext h1 h' {z} {s_valp l}"
      "\<forall>q \<in> set ns'. h_brk h1 \<le> q \<and> lb_refs (the (h_blks h' q)) = 1"
      "\<forall>q \<in> set (ns @ [z]). lb_refs (the (h_blks h' q)) = lb_refs (the (h_blks h1 q))"
      by (rule add_finish [OF c(2,6) s1 v1]) (use hd ok in auto)
    have b0: "b \<noteq> 0" using l(3) qs by simp
    have vr: "\<not> v_refs v > 1" using False l(1) by (simp add: val_refs_def)
    have zn: "h_blks h z = None"
    proof (rule ccontr)
      assume "h_blks h z \<noteq> None"
      with lt c(8) show False by fastforce
    qed
    show ?thesis
    proof (rule that [of l h' "ns @ z # ns'"])
      show "SEXP_list_add h l s = Some (Some l, h')"
        using l(1,2) vr b0 c(1) f(1,2) by (simp add: SEXP_list_add_def SEXP_rawval_lblk_add_def)
      show "lrep h' l (ns @ z # ns') (xs @ [s])" using f(3) unfolding c(7) l(6) off qs by simp
      have "hext h h' {z} {s_valp l}" using hext_trans [OF e1 f(4)] by simp
      then have "hext h h' {} {s_valp l}" using zn by (rule hext_forget)
      then show "hext h h' (if val_refs h l > 1 then {} else own_blks h qs) (if val_refs h l > 1 then {} else {s_valp l})"
        using False by (auto intro: hext_mono)
      show "own_blks h' (ns @ z # ns') = set (ns @ z # ns')"
        using f(5,6) c(8) by (auto simp: own_blks_def)
    qed simp
  qed
qed


end
