(* ===== verification/Sexp_List_Props.thy ===== *)
theory Sexp_List_Props
  imports Sexp_List_Add
begin

text \<open>
  What the lists of S-expressions promise: the operations read and change the lists of members as the functions
  on lists do, leaving other lists alone, as long as only whole lists are shared; and what happens when a list
  shares a block that is not its first.
\<close>

section \<open>Making lists\<close>

lemma b_exp_loop_ge: "n \<le> 2 ^ b_exp_loop b n"
  by (induction b n rule: b_exp_loop.induct) (subst b_exp_loop.simps, simp)

lemma b_exp_loop_le: "n \<le> 2 ^ k \<Longrightarrow> b \<le> k \<Longrightarrow> b_exp_loop b n \<le> k"
proof (induction b n rule: b_exp_loop.induct)
  case (1 b n)
  show ?case
  proof (cases "2 ^ b < n")
    case True
    with 1(2) have "(2 :: nat) ^ b < 2 ^ k" by linarith
    then have "b < k" by simp
    with 1 True show ?thesis by (subst b_exp_loop.simps) simp
  next
    case False
    with 1(3) show ?thesis by (subst b_exp_loop.simps) simp
  qed
qed

lemma val_new_correct:
  assumes "hwf h"
  obtains h' where "SEXP_val_new h raw = (h_brk h, h')" "h_blks h' = h_blks h" "hext h h' {} {}"
    "h_vals h' = (h_vals h)(h_brk h \<mapsto> \<lparr>v_refs = 1, v_raw = raw\<rparr>)" "h_vals h (h_brk h) = None"
proof (rule that)
  let ?h = "h\<lparr>h_vals := (h_vals h)(h_brk h \<mapsto> \<lparr>v_refs = 1, v_raw = raw\<rparr>), h_brk := h_brk h + 1\<rparr>"
  show "SEXP_val_new h raw = (h_brk h, ?h)" by (simp add: SEXP_val_new_def)
  have "hwf ?h" using assms unfolding hwf_def by (auto simp: less_Suc_eq)
  moreover show none: "h_vals h (h_brk h) = None" using assms unfolding hwf_def by (metis less_irrefl)
  ultimately show "hext h ?h {} {}" by (auto simp: hext_def)
qed simp_all

text \<open>A new value for a chain of blocks.\<close>

lemma lrep_new:
  assumes "hwf h" "lchain (h_blks h) b qs" "off < 65536" "if qs = [] then off = 0 else off < lb_real (the (h_blks h (hd qs)))"
    "xs = drop off (lcont (h_blks h) qs)" "\<forall>s \<in> set (lcont (h_blks h) qs). h_vals h (s_valp s) \<noteq> None"
  obtains h' where "SEXP_val_new h (RV_LIST b off) = (h_brk h, h')" "lrep h' \<lparr>s_valp = h_brk h, s_type = 0\<rparr> qs xs"
    "hext h h' {} {}" "val_refs h' \<lparr>s_valp = h_brk h, s_type = 0\<rparr> = 1" "h_blks h' = h_blks h" "h_vals h (h_brk h) = None"
proof -
  obtain h' where h': "SEXP_val_new h (RV_LIST b off) = (h_brk h, h')" "h_blks h' = h_blks h" "hext h h' {} {}"
    "h_vals h' = (h_vals h)(h_brk h \<mapsto> \<lparr>v_refs = 1, v_raw = RV_LIST b off\<rparr>)" "h_vals h (h_brk h) = None"
    using val_new_correct [OF assms(1)] .
  have "lrep h' \<lparr>s_valp = h_brk h, s_type = 0\<rparr> qs xs"
    by (rule lrepI [where v = "\<lparr>v_refs = 1, v_raw = RV_LIST b off\<rparr>" and b = b and off = off]) (use assms h' in auto)
  moreover have "val_refs h' \<lparr>s_valp = h_brk h, s_type = 0\<rparr> = 1" using h'(4) by (simp add: val_refs_def)
  ultimately show ?thesis using that h' by blast
qed

lemma list_new_correct:
  assumes "hwf h" "length ms < 32" "\<forall>s \<in> set ms. h_vals h (s_valp s) \<noteq> None"
  obtains l h' qs where "SEXP_list_new h ms = Some (l, h')" "lrep h' l qs ms" "hext h h' {} {}" "own_blks h' qs = set qs"
    "val_refs h' l = 1" "h_vals h (s_valp l) = None" "\<forall>q \<in> set qs. h_brk h \<le> q"
proof (cases "ms = []")
  case True
  obtain h' where "SEXP_val_new h (RV_LIST 0 0) = (h_brk h, h')" "lrep h' \<lparr>s_valp = h_brk h, s_type = 0\<rparr> [] []"
    "hext h h' {} {}" "val_refs h' \<lparr>s_valp = h_brk h, s_type = 0\<rparr> = 1" "h_vals h (h_brk h) = None"
    using lrep_new [OF assms(1), of 0 "[]" 0 "[]"] by auto
  with True that [of _ h' "[]"] show ?thesis by (simp add: SEXP_list_new_def own_blks_def)
next
  case False
  let ?new = "h_brk h" and ?sz = "b_exp_loop 0 (length ms)"
  have sz: "?sz < 16" using b_exp_loop_le [of "length ms" 5 0] assms(2) by simp
  obtain h1 where h1: "SEXP_rawval_lblk_new h ?sz = Some (?new, h1)"
    "h_blks h1 = (h_blks h)(?new \<mapsto> \<lparr>lb_next = 0, lb_sz = ?sz, lb_refs = 1, lb_memb = []\<rparr>)"
    "h_vals h1 = h_vals h" "h_brk h1 = ?new + 1" "hwf h1" using lblk_new_correct [OF assms(1) sz] .
  have at: "blk_at h1 ?new = Some \<lparr>lb_next = 0, lb_sz = ?sz, lb_refs = 1, lb_memb = []\<rparr>" and pos: "0 < ?new"
    using hwf_blk [OF h1(5)] h1(2) by auto
  obtain h2 where h2: "increfs h1 ms = Some h2" "h_blks h2 = h_blks h1" "h_brk h2 = h_brk h1" "vext (h_vals h1) (h_vals h2)"
    using increfs_correct [of ms h1] assms(3) h1(3) by auto
  define h3 where "h3 = blk_set h2 ?new \<lparr>lb_next = 0, lb_sz = ?sz, lb_refs = 1, lb_memb = ms\<rparr>"
  have fill: "SEXP_rawval_lblk_fill h1 ?new ms = Some (?new, h3)"
    using at h2(1) b_exp_loop_ge [of "length ms" 0] by (simp add: SEXP_rawval_lblk_fill_def h3_def)
  have h3: "hwf h3" "h_vals h3 = h_vals h2" "h_brk h3 = ?new + 1"
    "h_blks h3 = (h_blks h)(?new \<mapsto> \<lparr>lb_next = 0, lb_sz = ?sz, lb_refs = 1, lb_memb = ms\<rparr>)"
    using hwf_vext [OF h1(5) h2(4,2,3)] h1 h2 by (simp_all add: h3_def hwf_blk_set)
  have ext: "vext (h_vals h) (h_vals h3)" using h2(4) h1(3) h3(2) by simp
  have e3: "hext h h3 {} {}"
    by (rule hext_vext [OF assms(1) ext _ h3(1)]) (use h3 assms(1) in \<open>auto simp: hwf_def\<close>)
  obtain h' where h': "SEXP_val_new h3 (RV_LIST ?new 0) = (h_brk h3, h')" "lrep h' \<lparr>s_valp = h_brk h3, s_type = 0\<rparr> [?new] ms"
    "hext h3 h' {} {}" "val_refs h' \<lparr>s_valp = h_brk h3, s_type = 0\<rparr> = 1" "h_blks h' = h_blks h3" "h_vals h3 (h_brk h3) = None"
    by (rule lrep_new [OF h3(1), of ?new "[?new]" 0 ms])
      (use h3(4) pos False sz b_exp_loop_ge [of "length ms" 0] assms(3) vext_None [OF ext] in auto)
  show ?thesis
  proof (rule that [of "\<lparr>s_valp = h_brk h3, s_type = 0\<rparr>" h' "[?new]"])
    show "SEXP_list_new h ms = Some (\<lparr>s_valp = h_brk h3, s_type = 0\<rparr>, h')"
      using False assms(2) h1(1) fill h'(1) by (simp add: SEXP_list_new_def)
    show "hext h h' {} {}" using hext_trans [OF e3 h'(3)] by simp
    show "h_vals h (s_valp \<lparr>s_valp = h_brk h3, s_type = 0\<rparr>) = None" using h'(6) vext_None [OF ext] by simp
  qed (use h' h3(4) in \<open>auto simp: own_blks_def\<close>)
qed

text \<open>The rest of a list shares the blocks of the list.\<close>

lemma list_rest_correct:
  assumes "hwf h" "lrep h l qs (x # xs)" "\<forall>q \<in> set qs. lb_refs (the (h_blks h q)) < 65535"
  obtains r h' qs' where "SEXP_list_rest h l = Some (Some r, h')" "lrep h' r qs' xs" "hext h h' {} {}"
    "val_refs h' r = 1" "h_vals h (s_valp r) = None" "qs' = qs \<or> qs' = tl qs"
proof -
  from assms(2) obtain v b off where l: "h_vals h (s_valp l) = Some v" "v_raw v = RV_LIST b off" "lchain (h_blks h) b qs"
    "off < 65536" "if qs = [] then off = 0 else off < lb_real (the (h_blks h (hd qs)))" "x # xs = drop off (lcont (h_blks h) qs)"
    "\<forall>s \<in> set (lcont (h_blks h) qs). h_vals h (s_valp s) \<noteq> None" by (rule lrepE)
  obtain q rs where qs: "qs = q # rs" using l(6) by (cases qs) auto
  with l(3) obtain c where c: "b = q" "q \<noteq> 0" "blk_at h q = Some c" "h_blks h q = Some c" "lb_memb c \<noteq> []"
    "lchain (h_blks h) (lb_next c) rs" using blk_at_chain by blast
  have real: "off < lb_real c" using l(5) qs c(4) by simp
  have "lb_sz c < 16" "lb_real c \<le> 2 ^ lb_sz c" using l(3) qs c(4) by auto
  moreover from this have "(2 :: nat) ^ lb_sz c \<le> 2 ^ 15" by (intro power_increasing) simp_all
  ultimately have "lb_real c \<le> 2 ^ 15" by linarith
  then have wrap: "(off + 1) mod 65536 = off + 1" and small: "off + 1 < 65536" using real by auto
  define b' where "b' = (if off + 1 = lb_real c then lb_next c else q)"
  define off' where "off' = (if off + 1 = lb_real c then 0 else off + 1)"
  define qs' where "qs' = (if off + 1 = lb_real c then rs else qs)"
  have ch: "lchain (h_blks h) b' qs'" using c l(3) qs by (simp add: b'_def qs'_def)
  have off': "if qs' = [] then off' = 0 else off' < lb_real (the (h_blks h (hd qs')))"
  proof (cases "off + 1 = lb_real c")
    case True
    show ?thesis
    proof (cases rs)
      case (Cons r rs')
      with c(6) obtain d where "h_blks h r = Some d" "lb_memb d \<noteq> []" using blk_at_chain by blast
      with True Cons show ?thesis by (simp add: qs'_def off'_def)
    qed (use True in \<open>simp add: qs'_def off'_def\<close>)
  next
    case False
    with qs c(4) real show ?thesis by (simp add: qs'_def off'_def)
  qed
  have xs: "xs = drop off' (lcont (h_blks h) qs')"
  proof -
    have "xs = drop (off + 1) (lcont (h_blks h) qs)" using l(6) by (metis drop_Suc list.sel(3) Suc_eq_plus1 tl_drop)
    then show ?thesis using qs c(4) real by (auto simp: off'_def qs'_def)
  qed
  have ok: "\<forall>s \<in> set (lcont (h_blks h) qs'). h_vals h (s_valp s) \<noteq> None" using l(7) qs by (auto simp: qs'_def)
  have sub: "set qs' \<subseteq> set qs" using qs by (auto simp: qs'_def)
  obtain h1 where h1: "(if b' = 0 then Some (b', off', h)
      else do { (b', h) \<leftarrow> SEXP_rawval_lblk_incref h b'; Some (b', off', h) }) = Some (b', off', h1)"
    "hwf h1" "h_vals h1 = h_vals h" "h_brk h1 = h_brk h" "\<forall>q. shape (h_blks h1 q) = shape (h_blks h q)"
  proof (cases "b' = 0")
    case True
    with assms(1) that [of h] show ?thesis by simp
  next
    case False
    with ch obtain d ds where d: "qs' = b' # ds" "h_blks h b' = Some d" by (cases qs') (auto split: option.splits)
    then have "lb_refs d < 65535" using assms(3) sub by fastforce
    moreover have "blk_at h b' = Some d" using hwf_blk [OF assms(1) d(2)] by simp
    ultimately show ?thesis
      using False d(2) hwf_blk_set [OF assms(1), of b'] that [of "blk_set h b' (d\<lparr>lb_refs := lb_refs d + 1\<rparr>)"]
      by (simp add: SEXP_rawval_lblk_incref_def shape_def)
  qed
  have same: "\<forall>q \<in> set qs'. shape (h_blks h1 q) = shape (h_blks h q)" using h1(5) by simp
  have e1: "hext h h1 {} {}" using h1 by (simp add: hext_def)
  have ch1: "lchain (h_blks h1) b' qs'" by (rule iffD2 [OF lchain_cong [OF same] ch])
  have c1: "lcont (h_blks h1) qs' = lcont (h_blks h) qs'" by (rule lcont_cong [OF same])
  have hd1: "if qs' = [] then off' = 0 else off' < lb_real (the (h_blks h1 (hd qs')))"
  proof (cases qs')
    case (Cons r rs')
    then have "lcont (h_blks h1) [r] = lcont (h_blks h) [r]" by (intro lcont_cong) (use same in simp)
    with off' Cons show ?thesis by simp
  qed (use off' in simp)
  have small': "off' < 65536" using small by (simp add: off'_def)
  have xs1: "xs = drop off' (lcont (h_blks h1) qs')" using xs c1 by simp
  have ok1: "\<forall>s \<in> set (lcont (h_blks h1) qs'). h_vals h1 (s_valp s) \<noteq> None" using ok c1 h1(3) by simp
  obtain h' where h': "SEXP_val_new h1 (RV_LIST b' off') = (h_brk h1, h')" "lrep h' \<lparr>s_valp = h_brk h1, s_type = 0\<rparr> qs' xs"
    "hext h1 h' {} {}" "val_refs h' \<lparr>s_valp = h_brk h1, s_type = 0\<rparr> = 1" "h_blks h' = h_blks h1" "h_vals h1 (h_brk h1) = None"
    using lrep_new [OF h1(2) ch1 small' hd1 xs1 ok1] .
  show ?thesis
  proof (rule that [of "\<lparr>s_valp = h_brk h1, s_type = 0\<rparr>" h' qs'])
    show "SEXP_list_rest h l = Some (Some \<lparr>s_valp = h_brk h1, s_type = 0\<rparr>, h')"
      using l(1,2) c(1,2,3) h1(1) h'(1) wrap
      by (cases "off + 1 = lb_real c"; cases "lb_next c = 0")
        (auto simp: SEXP_list_rest_def SEXP_raw_def b'_def off'_def split: Option.bind_splits)
    show "hext h h' {} {}" using hext_trans [OF e1 h'(3)] by simp
    show "qs' = qs \<or> qs' = tl qs" using qs by (simp add: qs'_def)
  qed (use h' h1(3) in auto)
qed

section \<open>Replacing a member\<close>

lemma lchain_memb_upd:
  assumes "B q = Some b" "length ms = lb_real b"
  shows "lchain (B(q \<mapsto> b\<lparr>lb_memb := ms\<rparr>)) p qs = lchain B p qs"
proof (induction qs arbitrary: p)
  case (Cons r rs)
  show ?case
  proof (cases "r = q")
    case True
    have "ms = [] \<longleftrightarrow> lb_memb b = []" using assms(2) by (metis length_0_conv)
    with True assms Cons show ?thesis by simp
  qed (use Cons in \<open>simp split: option.splits\<close>)
qed simp

lemma replace_loop_owned:
  assumes "lchain (h_blks h) cur qs" "\<forall>q \<in> set qs. lb_refs (the (h_blks h q)) < 2" "1 \<le> n"
  shows "n \<le> length (lcont (h_blks h) qs) \<Longrightarrow>
      \<exists>loc. SEXP_rawval_lblk_nth h cur n = Some (Some loc) \<and>
        lblk_replace_loop h lb_head prev cur n v = map_option (\<lambda>(o_val, h). (lb_head, Some o_val, h)) (memb_replace h loc v)"
    and "qs \<noteq> [] \<Longrightarrow> n > length (lcont (h_blks h) qs) \<Longrightarrow>
      lblk_replace_loop h lb_head prev cur n v = Some (lb_head, None, h)"
  using assms
proof (induction qs arbitrary: cur prev n)
  case (Cons a qs)
  { case 1
    from 1(2) obtain b where b: "cur = a" "a \<noteq> 0" "blk_at h a = Some b" "h_blks h a = Some b" "lchain (h_blks h) (lb_next b) qs"
      by (rule blk_at_chain)
    show ?case
    proof (cases "n \<le> lb_real b")
      case True
      with b 1(4) have "SEXP_rawval_lblk_nth h cur n = Some (Some (a, n - 1))"
        by (subst SEXP_rawval_lblk_nth.simps) simp
      moreover have "lblk_replace_loop h lb_head prev cur n v = map_option (\<lambda>(o_val, h). (lb_head, Some o_val, h)) (memb_replace h (a, n - 1) v)"
        using True b 1(4) by (subst lblk_replace_loop.simps) (cases "memb_replace h (a, n - 1) v"; auto)
      ultimately show ?thesis by blast
    next
      case False
      have n: "n - lb_real b \<le> length (lcont (h_blks h) qs)" "1 \<le> n - lb_real b" using 1(1) False b(4) by auto
      have nx: "lb_next b \<noteq> 0" using 1(1) False b by (cases qs) auto
      obtain loc where "SEXP_rawval_lblk_nth h (lb_next b) (n - lb_real b) = Some (Some loc)"
        "lblk_replace_loop h lb_head cur (lb_next b) (n - lb_real b) v = map_option (\<lambda>(o_val, h). (lb_head, Some o_val, h)) (memb_replace h loc v)"
        using Cons.IH(1) [OF n(1) b(5) _ n(2)] 1(3) by fastforce
      then show ?thesis using b False nx 1(3)
        by (intro exI [of _ loc]) (subst SEXP_rawval_lblk_nth.simps, subst lblk_replace_loop.simps, simp)
    qed
  next
    case 2
    from 2(3) obtain b where b: "cur = a" "a \<noteq> 0" "blk_at h a = Some b" "h_blks h a = Some b" "lchain (h_blks h) (lb_next b) qs"
      by (rule blk_at_chain)
    have n: "n > lb_real b" using 2(2) b by simp
    show ?case
    proof (cases "lb_next b = 0")
      case True
      with 2(4) b n show ?thesis by (subst lblk_replace_loop.simps) simp
    next
      case False
      then have "qs \<noteq> []" using b(5) by auto
      then have "lblk_replace_loop h lb_head cur (lb_next b) (n - lb_real b) v = Some (lb_head, None, h)"
        by (intro Cons.IH(2)) (use 2 b n in auto)
      with False 2(4) b n show ?thesis by (subst lblk_replace_loop.simps) simp
    qed
  }
qed simp_all

lemma list_replace_owned:
  assumes "hwf h" "lrep h l qs xs" "h_vals h (s_valp s) \<noteq> None" "val_refs h l \<le> 1" "own_blks h qs = set qs"
    "1 \<le> n" "n < 2 ^ 32 - 2 ^ 16" "xs \<noteq> []"
  obtains h' where
    "SEXP_list_replace h l n s = Some (l, if n \<le> length xs then Some (xs ! (n - 1)) else None, h')"
    "lrep h' l qs (xs[n - 1 := s])" "hext h h' (set qs) {s_valp l}"
proof -
  from assms(2) obtain v b off where l: "h_vals h (s_valp l) = Some v" "v_raw v = RV_LIST b off" "lchain (h_blks h) b qs"
    "off < 65536" "if qs = [] then off = 0 else off < lb_real (the (h_blks h (hd qs)))" "xs = drop off (lcont (h_blks h) qs)"
    "\<forall>s \<in> set (lcont (h_blks h) qs). h_vals h (s_valp s) \<noteq> None" by (rule lrepE)
  have own: "\<forall>q \<in> set qs. lb_refs (the (h_blks h q)) < 2" using assms(5) by (auto simp: own_blks_def)
  have vr: "\<not> v_refs v > 1" using assms(4) l(1) by (simp add: val_refs_def)
  have wrap: "(off + n) mod 2 ^ 32 = off + n" using l(4) assms(7) by simp
  have len: "off \<le> length (lcont (h_blks h) qs)" using l(5) by (cases qs) auto
  have call: "SEXP_list_replace h l n s =
      do {
        (b', o_val, h) \<leftarrow> lblk_replace_loop h b 0 b (off + n) s;
        h \<leftarrow> val_set_addr h (s_valp l) b';
        Some (l, o_val, h)
      }"
    using l(1,2) vr assms(6) wrap by (simp add: SEXP_list_replace_def SEXP_raw_def SEXP_rawval_lblk_replace_def)
  show ?thesis
  proof (cases "n \<le> length xs")
    case False
    then have "lblk_replace_loop h b 0 b (off + n) s = Some (b, None, h)"
      by (intro replace_loop_owned(2) [OF l(3) own]) (use assms(6,8) l(6) len in auto)
    moreover have "val_set_addr h (s_valp l) b = Some h"
    proof -
      have "v\<lparr>v_raw := RV_LIST b off\<rparr> = v" using l(2) by simp
      then show ?thesis using l(1,2) by (simp add: val_set_addr_def fun_upd_idem)
    qed
    ultimately have "SEXP_list_replace h l n s = Some (l, None, h)" by (simp add: call)
    moreover have "xs[n - 1 := s] = xs" using False by (simp add: list_update_beyond)
    ultimately show ?thesis using that [of h] False assms(1,2) by (simp add: hext_def)
  next
    case True
    then have n: "off + n \<le> length (lcont (h_blks h) qs)" "1 \<le> off + n" using l(6) assms(6) len by auto
    obtain us q vs c i where w: "qs = us @ q # vs" "h_blks h q = Some c" "i < lb_real c"
      "SEXP_rawval_lblk_nth h b (off + n) = Some (Some (q, i))" "off + n = length (lcont (h_blks h) us) + i + 1"
      using lblk_nth_correct(1) [OF l(3) n(2,1)] by blast
    have loop: "lblk_replace_loop h b 0 b (off + n) s = map_option (\<lambda>(o_val, h). (b, Some o_val, h)) (memb_replace h (q, i) s)"
      using replace_loop_owned(1) [OF l(3) own n(2,1)] w(4) by auto
    have at: "blk_at h q = Some c" using hwf_blk [OF assms(1) w(2)] by simp
    obtain vs0 where "h_vals h (s_valp s) = Some vs0" using assms(3) by auto
    then obtain h1 where h1: "SEXP_rawval_incref h (s_valp s) = Some h1" "h_blks h1 = h_blks h" "h_brk h1 = h_brk h"
      "vext (h_vals h) (h_vals h1)" by (rule incref_correct)
    define c' where "c' = c\<lparr>lb_memb := (lb_memb c)[i := s]\<rparr>"
    define h2 where "h2 = blk_set h1 q c'"
    have old: "lb_memb c ! i = xs ! (n - 1)"
    proof -
      have "xs ! (n - 1) = lcont (h_blks h) qs ! (off + n - 1)" using True assms(6) l(6) len by simp
      also have "\<dots> = lb_memb c ! i" using w(1,2,3,5) by (simp add: nth_append)
      finally show ?thesis by simp
    qed
    have rep: "memb_replace h (q, i) s = Some (xs ! (n - 1), h2)"
      using at w(3) h1(1,2) hwf_blk [OF assms(1) w(2)] old
      by (simp add: memb_replace_def memb_at_def blk_at_def h2_def c'_def)
    have hwf2: "hwf h2" using hwf_vext [OF assms(1) h1(4,2,3)] w(2) h1(2) by (simp add: h2_def hwf_blk_set)
    have B2: "h_blks h2 = (h_blks h)(q \<mapsto> c')" "h_brk h2 = h_brk h" "h_vals h2 = h_vals h1" by (simp_all add: h2_def h1)
    have q: "q \<notin> set us" "q \<notin> set vs" using lchain_distinct [OF l(3)] w(1) by auto
    have ch2: "lchain (h_blks h2) b qs" unfolding B2 c'_def using lchain_memb_upd [of "h_blks h" q c] w(2) l(3) by simp
    have "lcont (h_blks h2) us = lcont (h_blks h) us" "lcont (h_blks h2) vs = lcont (h_blks h) vs"
      by (rule lcont_cong, use q B2 in auto)+
    then have ct2: "lcont (h_blks h2) qs = (lcont (h_blks h) qs)[off + n - 1 := s]"
      using w(1,2,3,5) by (simp add: B2(1) c'_def list_update_append)
    have e2: "hext h h2 (set qs) {}"
      by (rule hext_vext [OF assms(1) _ _ hwf2]) (use B2 h1(4) w(1) in auto)
    obtain v1 where v1: "h_vals h2 (s_valp l) = Some v1" "v_raw v1 = RV_LIST b off"
      using vext_Some [OF h1(4) l(1)] l(2) B2(3) by metis
    obtain h' where h': "val_set_addr h2 (s_valp l) b = Some h'" "h_blks h' = h_blks h2" "h_brk h' = h_brk h2"
      "h_vals h' = (h_vals h2)(s_valp l \<mapsto> v1\<lparr>v_raw := RV_LIST b off\<rparr>)" "hext h2 h' {} {s_valp l}"
      using val_set_addr_correct [OF hwf2 v1] by metis
    show ?thesis
    proof (rule that [of h'])
      show "SEXP_list_replace h l n s = Some (l, if n \<le> length xs then Some (xs ! (n - 1)) else None, h')"
        using True loop rep h'(1) by (simp add: call)
      show "lrep h' l qs (xs[n - 1 := s])"
      proof (rule lrepI)
        show "h_vals h' (s_valp l) = Some (v1\<lparr>v_raw := RV_LIST b off\<rparr>)" using h'(4) by simp
        show "lchain (h_blks h') b qs" using ch2 h'(2) by simp
        have "lb_real (the (h_blks h' (hd qs))) = lb_real (the (h_blks h (hd qs)))"
          using w(2) B2(1) h'(2) by (simp add: c'_def)
        with l(5) show "if qs = [] then off = 0 else off < lb_real (the (h_blks h' (hd qs)))" by simp
        show "xs[n - 1 := s] = drop off (lcont (h_blks h') qs)"
          using l(6) h'(2) ct2 assms(6) len by (simp add: drop_update_swap)
        have "\<forall>p. h_vals h' p = None \<longrightarrow> h_vals h p = None"
          using h'(4) B2(3) vext_None [OF h1(4)] by simp
        then show "\<forall>s \<in> set (lcont (h_blks h') qs). h_vals h' (s_valp s) \<noteq> None"
          using l(7) assms(3) h'(2) ct2 set_update_subset_insert [of "lcont (h_blks h) qs" "off + n - 1" s]
          by (metis insert_iff subset_iff)
      qed (use l(4) in simp_all)
      show "hext h h' (set qs) {s_valp l}" using hext_trans [OF e2 h'(5)] by simp
    qed
  qed
qed

lemma list_replace_correct:
  assumes "hwf h" "lrep h l qs xs" "h_vals h (s_valp s) \<noteq> None" "1 \<le> n" "n < 2 ^ 32 - 2 ^ 16" "xs \<noteq> []"
    "if val_refs h l > 1 then length xs \<le> 65535 else own_blks h qs = set qs"
  obtains l' h' qs' where
    "SEXP_list_replace h l n s = Some (l', if n \<le> length xs then Some (xs ! (n - 1)) else None, h')"
    "lrep h' l' qs' (xs[n - 1 := s])"
    "hext h h' (if val_refs h l > 1 then {} else set qs) (if val_refs h l > 1 then {} else {s_valp l})"
proof (cases "val_refs h l > 1")
  case False
  with assms(7) have own: "own_blks h qs = set qs" and vr: "val_refs h l \<le> 1" by auto
  obtain h' where "SEXP_list_replace h l n s = Some (l, if n \<le> length xs then Some (xs ! (n - 1)) else None, h')"
    "lrep h' l qs (xs[n - 1 := s])" "hext h h' (set qs) {s_valp l}"
    using list_replace_owned [OF assms(1-3) vr own assms(4-6)] .
  with False that [of l h' qs] show ?thesis by simp
next
  case True
  with assms(7) have len: "length xs \<le> 65535" by simp
  obtain l1 h1 qs1 b1 where p: "list_private h l = Some (l1, h1)" "hwf h1" "lrep h1 l1 qs1 xs" "hext h h1 {} {}"
    "h_vals h1 (s_valp l1) = Some \<lparr>v_refs = 1, v_raw = RV_LIST b1 0\<rparr>" "own_blks h1 qs1 = set qs1" "\<forall>q \<in> set qs1. h_brk h \<le> q"
    "s_type l1 = s_type l" "h_vals h (s_valp l1) = None" using list_private_correct [OF assms(1,2) True len] .
  have s1: "h_vals h1 (s_valp s) \<noteq> None" using assms(3) p(4) by (simp add: hext_def)
  have vr: "val_refs h1 l1 \<le> 1" using p(5) by (simp add: val_refs_def)
  obtain h' where r: "SEXP_list_replace h1 l1 n s = Some (l1, if n \<le> length xs then Some (xs ! (n - 1)) else None, h')"
    "lrep h' l1 qs1 (xs[n - 1 := s])" "hext h1 h' (set qs1) {s_valp l1}"
    using list_replace_owned [OF p(2,3) s1 vr p(6) assms(4-6)] .
  have some: "\<exists>v b off. h_vals h (s_valp l) = Some v \<and> v_refs v > 1 \<and> v_raw v = RV_LIST b off"
    using True assms(2) by (auto elim!: lrepE simp: val_refs_def)
  have "SEXP_list_replace h l n s = SEXP_list_replace h1 l1 n s"
    using some p(1,5) assms(4) by (auto simp: SEXP_list_replace_def SEXP_raw_def)
  moreover have "hext h h' {} {}"
  proof -
    have e: "hext h h' (set qs1) {s_valp l1}" using hext_trans [OF p(4) r(3)] by simp
    have "q \<notin> set qs1" if "h_blks h q \<noteq> None" for q
    proof
      assume "q \<in> set qs1"
      with p(7) have "h_brk h \<le> q" by simp
      moreover have "q < h_brk h" using assms(1) that by (simp add: hwf_def)
      ultimately show False by simp
    qed
    moreover have "p \<noteq> s_valp l1" if "h_vals h p = Some v" for p v using that p(9) by auto
    ultimately show ?thesis using e by (auto simp: hext_def)
  qed
  ultimately show ?thesis using that [of l1 h' qs1] r True by simp
qed

section \<open>Joining lists\<close>

lemma lrep_below:
  assumes "hwf h" "lrep h l qs xs"
  shows "\<forall>q \<in> set qs. q < h_brk h" "\<forall>s \<in> set xs. h_vals h (s_valp s) \<noteq> None" "h_vals h (s_valp l) \<noteq> None"
    "\<exists>b off. SEXP_raw h l = Some (RV_LIST b off)"
proof -
  from assms(2) obtain v b off where l: "h_vals h (s_valp l) = Some v" "v_raw v = RV_LIST b off" "lchain (h_blks h) b qs"
    "xs = drop off (lcont (h_blks h) qs)" "\<forall>s \<in> set (lcont (h_blks h) qs). h_vals h (s_valp s) \<noteq> None" by (rule lrepE)
  show "\<forall>q \<in> set qs. q < h_brk h"
  proof
    fix q assume "q \<in> set qs"
    then obtain c where "h_blks h q = Some c" using lchain_Some [OF l(3)] by blast
    then show "q < h_brk h" using hwf_blk [OF assms(1)] by simp
  qed
  show "\<forall>s \<in> set xs. h_vals h (s_valp s) \<noteq> None" using l(4,5) by (meson in_set_dropD)
qed (use assms(2) in \<open>auto elim!: lrepE simp: SEXP_raw_def\<close>)

lemma list_join_loop_correct:
  assumes "hwf h" "lrep h j qj zs" "val_refs h j \<le> 1" "own_blks h qj = set qj" "lrep h l qs ys"
    "set qj \<inter> set qs = {}" "s_valp j \<noteq> s_valp l" "\<forall>y \<in> set ys. s_valp y \<noteq> s_valp j"
    "k \<le> length ys" "length ys < 2 ^ 32 - 2 ^ 16 - 1"
  shows "\<exists>h' qj'. list_join_loop h j l (k + 1) = Some (j, h') \<and> lrep h' j qj' (zs @ drop k ys) \<and>
    hext h h' (set qj) {s_valp j}"
  using assms
proof (induction "length ys - k" arbitrary: h qj zs k)
  case 0
  then have "k = length ys" by simp
  then have "list_peek h l (k + 1) = Some None"
    using list_peek_correct [OF "0.prems"(5), of "k + 1"] "0.prems"(10) by simp
  then have "list_join_loop h j l (k + 1) = Some (j, h)" by (subst list_join_loop.simps) simp
  with 0 \<open>k = length ys\<close> show ?case by (auto simp: hext_def)
next
  case (Suc n)
  then have k: "k < length ys" by simp
  have peek: "list_peek h l (k + 1) = Some (Some (ys ! k))"
    using list_peek_correct [OF Suc.prems(5), of "k + 1"] Suc.prems(10) k by simp
  have y: "h_vals h (s_valp (ys ! k)) \<noteq> None" "s_valp (ys ! k) \<noteq> s_valp j"
    using lrep_below(2) [OF Suc.prems(1,5)] Suc.prems(8) k by auto
  obtain h1 q1 where a: "SEXP_list_add h j (ys ! k) = Some (Some j, h1)" "lrep h1 j q1 (zs @ [ys ! k])" "hext h h1 (set qj) {s_valp j}"
    "own_blks h1 q1 = set q1" "set q1 \<subseteq> set qj \<union> {q. h_brk h \<le> q}"
    "s_valp (ys ! k) \<noteq> s_valp j \<longrightarrow> val_refs h1 j = val_refs h j"
    using list_add_owned [OF Suc.prems(1,2) y(1) Suc.prems(3,4)] .
  have l1: "lrep h1 l qs ys" by (rule lrep_hext [OF Suc.prems(5) a(3)]) (use Suc.prems(6,7) in auto)
  have dis: "set q1 \<inter> set qs = {}" using a(5) Suc.prems(6) lrep_below(1) [OF Suc.prems(1,5)] by fastforce
  have "\<exists>h' qj'. list_join_loop h1 j l (k + 1 + 1) = Some (j, h') \<and> lrep h' j qj' ((zs @ [ys ! k]) @ drop (k + 1) ys) \<and>
    hext h1 h' (set q1) {s_valp j}"
    by (rule Suc.hyps(1)) (use Suc a l1 dis k y in \<open>auto simp: hext_def\<close>)
  then obtain h' qj' where r: "list_join_loop h1 j l (k + 1 + 1) = Some (j, h')"
    "lrep h' j qj' (zs @ drop k ys)" "hext h1 h' (set q1) {s_valp j}"
    using Cons_nth_drop_Suc [OF k] by auto
  have "hext h h' (set qj \<union> set q1) {s_valp j}" using hext_trans [OF a(3) r(3)] by simp
  moreover have "q \<notin> set q1" if "h_blks h q \<noteq> None" "q \<notin> set qj" for q
    using that a(5) Suc.prems(1) by (fastforce simp: hwf_def)
  ultimately have "hext h h' (set qj) {s_valp j}" by (auto simp: hext_def)
  moreover have "list_join_loop h j l (k + 1) = Some (j, h')"
    using peek a(1) r(1) by (subst list_join_loop.simps) simp
  ultimately show ?case using r(2) by blast
qed

lemma list_join_correct:
  assumes "hwf h" "lrep h a qa xs" "lrep h l qs ys" "length xs \<le> 65535" "length ys < 2 ^ 32 - 2 ^ 16 - 1"
  obtains j h' qj where "SEXP_list_join h a l = Some (Some j, h')" "lrep h' j qj (xs @ ys)" "hext h h' {} {}"
proof -
  from assms(2) obtain v b off where v: "h_vals h (s_valp a) = Some v" "v_raw v = RV_LIST b off" "lchain (h_blks h) b qa"
    "off < 65536" "if qa = [] then off = 0 else off < lb_real (the (h_blks h (hd qa)))" "xs = drop off (lcont (h_blks h) qa)"
    "\<forall>s \<in> set (lcont (h_blks h) qa). h_vals h (s_valp s) \<noteq> None" by (rule lrepE)
  have hd: "off < lb_real (the (h_blks h b))" if "qa \<noteq> []"
    using that v(3,5) by (cases qa) auto
  obtain p' h1 ns where c: "SEXP_rawval_lblk_copy h b off = Some (p', h1)" "hwf h1" "h_brk h \<le> h_brk h1"
    "vext (h_vals h) (h_vals h1)" "\<forall>q. q < h_brk h \<longrightarrow> h_blks h1 q = h_blks h q" "lchain (h_blks h1) p' ns"
    "lcont (h_blks h1) ns = drop off (lcont (h_blks h) qa)"
    "\<forall>q \<in> set ns. h_brk h \<le> q \<and> lb_refs (the (h_blks h1 q)) = 1"
    by (rule lblk_copy_correct [OF assms(1) v(3) hd]) (use assms(4) v in auto)
  have hd1: "if ns = [] then 0 = 0 else 0 < lb_real (the (h_blks h1 (hd ns)))"
    using c(6) by (cases ns) (auto split: option.splits)
  have ok: "\<forall>s \<in> set (lcont (h_blks h1) ns). h_vals h1 (s_valp s) \<noteq> None"
    using c(7) v(7) vext_None [OF c(4)] by (metis in_set_dropD)
  let ?j = "\<lparr>s_valp = h_brk h1, s_type = 0\<rparr>"
  obtain h2 where h2: "SEXP_val_new h1 (RV_LIST p' 0) = (h_brk h1, h2)" "lrep h2 ?j ns xs"
    "hext h1 h2 {} {}" "val_refs h2 ?j = 1" "h_blks h2 = h_blks h1" "h_vals h1 (h_brk h1) = None"
    by (rule lrep_new [OF c(2,6), of 0 xs]) (use hd1 ok c(7) v(6) in auto)
  have lt: "q < h_brk h" if "h_blks h q \<noteq> None" for q using assms(1) that by (simp add: hwf_def)
  have "hext h h1 {} {}" by (rule hext_vext [OF assms(1) c(4,3,2)]) (use c(5) lt in auto)
  from hext_trans [OF this h2(3)] have e2: "hext h h2 {} {}" by simp
  have l2: "lrep h2 l qs ys" by (rule lrep_hext [OF assms(3) e2]) simp_all
  have none: "h_vals h (h_brk h1) = None" using h2(6) vext_None [OF c(4)] by simp
  have dis: "set ns \<inter> set qs = {}" using c(8) lrep_below(1) [OF assms(1,3)] by fastforce
  have own: "own_blks h2 ns = set ns" using c(8) h2(5) by (auto simp: own_blks_def)
  have ne: "s_valp ?j \<noteq> s_valp l" "\<forall>y \<in> set ys. s_valp y \<noteq> s_valp ?j"
    using none lrep_below(2,3) [OF assms(1,3)] by auto
  have hwf2: "hwf h2" using h2(3) by (simp add: hext_def)
  obtain h' qj where r: "list_join_loop h2 ?j l 1 = Some (?j, h')" "lrep h' ?j qj (xs @ ys)" "hext h2 h' (set ns) {s_valp ?j}"
    using list_join_loop_correct [OF hwf2 h2(2) _ own l2 dis ne, of 0] h2(4) assms(5) by auto
  have "SEXP_listp h a = Some True" "SEXP_listp h l = Some True"
    using lrep_below(4) [OF assms(1,2)] lrep_below(4) [OF assms(1,3)] by (auto simp: SEXP_listp_def)
  then have "SEXP_list_join h a l = Some (Some ?j, h')"
    using v(1,2) c(1) h2(1) r(1) by (simp add: SEXP_list_join_def SEXP_rawval_list_copy_def)
  moreover have "hext h h' {} {}"
  proof -
    have e: "hext h h' (set ns) {h_brk h1}" using hext_trans [OF e2 r(3)] by simp
    have "q \<notin> set ns" if "h_blks h q \<noteq> None" for q using lt [OF that] c(8) by auto
    moreover have "p \<noteq> h_brk h1" if "h_vals h p = Some w" for p w using that none by auto
    ultimately show ?thesis using e by (auto simp: hext_def)
  qed
  ultimately show ?thesis using that r(2) by blast
qed

section \<open>Shared blocks\<close>

text \<open>
  A list of two members in two blocks; the second block is counted \<open>refs\<close> times. It is shared after
  \<open>SEXP_list_rest\<close> of the list, for as long as the rest is there.
\<close>

definition ex_memb :: "nat \<Rightarrow> SEXP_t" where "ex_memb p = \<lparr>s_valp = p, s_type = 0\<rparr>"

definition ex_heap :: "nat \<Rightarrow> unit sheap" where
  "ex_heap refs =
     \<lparr>h_vals = [1 \<mapsto> \<lparr>v_refs = 2, v_raw = RV_ATOM ()\<rparr>, 2 \<mapsto> \<lparr>v_refs = 2, v_raw = RV_ATOM ()\<rparr>,
        3 \<mapsto> \<lparr>v_refs = 1, v_raw = RV_LIST 4 0\<rparr>],
      h_blks = [4 \<mapsto> \<lparr>lb_next = 5, lb_sz = 0, lb_refs = 1, lb_memb = [ex_memb 1]\<rparr>,
        5 \<mapsto> \<lparr>lb_next = 0, lb_sz = 1, lb_refs = refs, lb_memb = [ex_memb 2]\<rparr>],
      h_brk = 6\<rparr>"

lemma ex_heap_hwf: "hwf (ex_heap refs)"
  by (simp add: hwf_def ex_heap_def)

lemma ex_heap_lrep: "lrep (ex_heap refs) (ex_memb 3) [4, 5] [ex_memb 1, ex_memb 2]"
  by (rule lrepI [where v = "\<lparr>v_refs = 1, v_raw = RV_LIST 4 0\<rparr>" and off = 0]) (simp_all add: ex_heap_def ex_memb_def)

lemmas list_eval =
  ex_heap_def ex_memb_def Let_def SEXP_list_new_def SEXP_list_rest_def SEXP_list_add_def SEXP_list_replace_def SEXP_list_nth_def
  SEXP_list_length_def SEXP_list_items_def SEXP_list_it_new_def SEXP_list_it_next_def SEXP_raw_def SEXP_ref_def
  SEXP_rawval_list_length_def lblk_length.simps list_peek_def loc_memb_def memb_ref_def memb_at_def it_at_def it_items.simps
  SEXP_rawval_lblk_add_def lblk_add_loop.simps SEXP_rawval_lblk_copy_def lblk_copy_loop.simps SEXP_rawval_lblk_new_def
  SEXP_rawval_lblk_fill_def SEXP_rawval_lblk_incref_def SEXP_rawval_lblk_decref_def SEXP_rawval_lblk_last.simps
  SEXP_rawval_lblk_nth.simps SEXP_rawval_lblk_add1_def SEXP_rawval_lblk_replace_def lblk_replace_loop.simps memb_replace_def
  blk_at_def blk_set_def blk_link_def lblk_put_def SEXP_rawval_incref_def SEXP_val_new_def val_set_addr_def

text \<open>Adding to a list that shares its second block: the first is there twice.\<close>

lemma shared_tail_duplicates:
  "map_option (\<lambda>(l, h). map_option (map s_valp) (SEXP_list_items h (the l)))
     (SEXP_list_add (ex_heap 2) (ex_memb 3) (ex_memb 1)) = Some (Some [1, 1, 2, 1])"
  by (simp add: list_eval b_exp_loop.simps)

text \<open>Replacing a member in a shared block changes the other list.\<close>

lemma shared_block_replaced:
  "do {
     (r, h) \<leftarrow> SEXP_list_rest (ex_heap 1) (ex_memb 3);
     r \<leftarrow> r;
     (l, o_val, h) \<leftarrow> SEXP_list_replace h (ex_memb 3) 2 (ex_memb 1);
     xs \<leftarrow> SEXP_list_items h r;
     Some (map s_valp xs)
   } = Some [1]"
  by (simp add: list_eval b_exp_loop.simps)

text \<open>
  The rest of an empty list: its length is 2 ^ 64 - 1, and a member added to it is skipped.
\<close>

lemma rest_of_empty:
  "do {
     (l, h) \<leftarrow> SEXP_list_new (ex_heap 1) [];
     (r, h) \<leftarrow> SEXP_list_rest h l;
     r \<leftarrow> r;
     n \<leftarrow> SEXP_list_length h r;
     (r, h) \<leftarrow> SEXP_list_add h r (ex_memb 1);
     r \<leftarrow> r;
     (m, h) \<leftarrow> SEXP_list_nth h r 1;
     Some (n, m)
   } = Some (2 ^ 64 - 1, None)"
  by (simp add: list_eval b_exp_loop.simps)

text \<open>Adding to the rest of a list in the same block: the copy has the skipped member in a block of its own, and a loop reads outside it.\<close>

lemma rest_added_unreadable:
  "do {
     (l, h) \<leftarrow> SEXP_list_new (ex_heap 1) [ex_memb 1, ex_memb 2];
     (r, h) \<leftarrow> SEXP_list_rest h l;
     r \<leftarrow> r;
     (r, h) \<leftarrow> SEXP_list_add h r (ex_memb 1);
     r \<leftarrow> r;
     Some (SEXP_list_items h r)
   } = Some None"
  by (simp add: list_eval b_exp_loop.simps)

section \<open>Properties\<close>

lemma lrep_hext_all: "lrep h l qs xs \<Longrightarrow> hext h h' {} {} \<Longrightarrow> lrep h' l qs xs"
  by (erule lrep_hext, assumption) simp_all

lemma memb_ref_fst:
  assumes "case m of None \<Rightarrow> True | Some s \<Rightarrow> h_vals h (s_valp s) \<noteq> None"
  shows "map_option fst (memb_ref h m) = Some m"
  using assms by (auto simp: memb_ref_def SEXP_ref_def SEXP_rawval_incref_def split: option.splits)

lemma list_nth_fst:
  assumes "hwf h" "lrep h l qs xs" "n < 2 ^ 32 - 2 ^ 16"
  shows "map_option fst (SEXP_list_nth h l n) = Some (if 1 \<le> n \<and> n \<le> length xs then Some (xs ! (n - 1)) else None)"
proof -
  have "map_option fst (memb_ref h (if 1 \<le> n \<and> n \<le> length xs then Some (xs ! (n - 1)) else None)) =
    Some (if 1 \<le> n \<and> n \<le> length xs then Some (xs ! (n - 1)) else None)"
    by (rule memb_ref_fst) (use lrep_below(2) [OF assms(1,2)] in auto)
  then show ?thesis by (simp add: SEXP_list_nth_def list_peek_correct [OF assms(2,3)])
qed

lemma list_first_nth: "lrep h l qs xs \<Longrightarrow> SEXP_list_first h l = SEXP_list_nth h l 1"
  by (erule lrepE) (simp add: SEXP_list_first_def SEXP_list_nth_def list_peek_def SEXP_raw_def)

lemma list_last_fst:
  assumes "hwf h" "lrep h l qs xs" "xs \<noteq> []"
  shows "map_option fst (SEXP_list_last h l) = Some (Some (last xs))"
proof -
  from assms(2) obtain v b off where l: "h_vals h (s_valp l) = Some v" "v_raw v = RV_LIST b off" "lchain (h_blks h) b qs"
    "xs = drop off (lcont (h_blks h) qs)" by (rule lrepE)
  obtain us z where qs: "qs = us @ [z]" using l(4) assms(3) by (cases qs rule: rev_cases) auto
  obtain c where c: "h_blks h z = Some c" "z \<noteq> 0" "lb_memb c \<noteq> []" using l(3) qs lchain_last by blast
  have "last xs = last (lcont (h_blks h) qs)" using assms(3) l(4) by simp
  also have "\<dots> = last (lb_memb c)" using qs c by simp
  also have "\<dots> = lb_memb c ! (lb_real c - 1)" using c(3) by (rule last_conv_nth)
  finally have "memb_at h (z, lb_real c - 1) = Some (last xs)" using c by (simp add: memb_at_def blk_at_def)
  moreover have "map_option fst (memb_ref h (Some (last xs))) = Some (Some (last xs))"
    by (rule memb_ref_fst) (use lrep_below(2) [OF assms(1,2)] assms(3) in auto)
  ultimately show ?thesis
    using l(1,2) c lblk_last_correct [of h b us z] l(3) qs by (simp add: SEXP_list_last_def SEXP_raw_def blk_at_def)
qed

text \<open>
  C37. Reading a list of S-expressions: the length, the member at each place (and NULL at every other), the first
  and the last member, and what a loop over its iterator sees, are those of the list of members that its blocks
  hold; the rest of the list represents the tail, shares its blocks and leaves every list as it is.
\<close>

theorem sexp_list_reads:
  assumes "hwf h" "lrep h l qs xs" "length (lcont (h_blks h) qs) < 2 ^ 64"
  shows "SEXP_list_length h l = Some (length xs) \<and> SEXP_list_items h l = Some xs \<and>
    (\<forall>n < 2 ^ 32 - 2 ^ 16. map_option fst (SEXP_list_nth h l n) =
       Some (if 1 \<le> n \<and> n \<le> length xs then Some (xs ! (n - 1)) else None)) \<and>
    map_option fst (SEXP_list_first h l) = Some (case xs of [] \<Rightarrow> None | x # _ \<Rightarrow> Some x) \<and>
    (xs \<noteq> [] \<longrightarrow> map_option fst (SEXP_list_last h l) = Some (Some (last xs))) \<and>
    (xs \<noteq> [] \<and> (\<forall>q \<in> set qs. lb_refs (the (h_blks h q)) < 65535) \<longrightarrow>
      (\<exists>r h' qs'. SEXP_list_rest h l = Some (Some r, h') \<and> lrep h' r qs' (tl xs) \<and>
        (\<forall>l2 qs2 ys. lrep h l2 qs2 ys \<longrightarrow> lrep h' l2 qs2 ys)))"
proof (intro conjI allI impI)
  show "map_option fst (SEXP_list_first h l) = Some (case xs of [] \<Rightarrow> None | x # _ \<Rightarrow> Some x)"
    using list_nth_fst [OF assms(1,2), of 1] by (cases xs) (simp_all add: list_first_nth [OF assms(2)])
next
  assume a: "xs \<noteq> [] \<and> (\<forall>q \<in> set qs. lb_refs (the (h_blks h q)) < 65535)"
  then have l: "lrep h l qs (hd xs # tl xs)" using assms(2) by simp
  obtain r h' qs' where r: "SEXP_list_rest h l = Some (Some r, h')" "lrep h' r qs' (tl xs)" "hext h h' {} {}"
    using list_rest_correct [OF assms(1) l] a by metis
  have "\<forall>l2 qs2 ys. lrep h l2 qs2 ys \<longrightarrow> lrep h' l2 qs2 ys" using lrep_hext_all r(3) by blast
  with r(1,2) show "\<exists>r h' qs'. SEXP_list_rest h l = Some (Some r, h') \<and> lrep h' r qs' (tl xs) \<and>
      (\<forall>l2 qs2 ys. lrep h l2 qs2 ys \<longrightarrow> lrep h' l2 qs2 ys)"
    by (intro exI [of _ r] exI [of _ h'] exI [of _ qs'] conjI)
qed (fact list_length_correct [OF assms(2,3)] list_items_correct [OF assms(2)] list_nth_fst [OF assms(1,2)] list_last_fst [OF assms(1,2)])+

theorem sexp_list_reads_witness:
  "SEXP_list_items (ex_heap 1) (ex_memb 3) = Some [ex_memb 1, ex_memb 2]"
  using sexp_list_reads [OF ex_heap_hwf ex_heap_lrep, of 1] by (simp add: lcont_def ex_heap_def)

text \<open>
  C38. Changing a list of S-expressions: a member added to the list is the last one, a member replaced gives the
  old one, and other lists stay as they are (also those that share the value of the list, which gets a copy). The list
  is \<open>addable\<close>: a list value with several references, of 1 to 65535 members; or one that shares no block with another
  list; or, when adding, one that shares all its blocks, of at most 65535 members, and skips no member. It does not hold
  for other lists: see \<open>shared_tail_duplicates\<close>, \<open>shared_block_replaced\<close>, \<open>rest_added_unreadable\<close> and \<open>rest_of_empty\<close>.
\<close>

theorem sexp_list_changes:
  assumes "hwf h" "lrep h l qs xs" "h_vals h (s_valp s) \<noteq> None" "addable h l qs xs"
  shows "(\<exists>l' h' qs'. SEXP_list_add h l s = Some (Some l', h') \<and> lrep h' l' qs' (xs @ [s]) \<and>
       (\<forall>l2 qs2 ys. lrep h l2 qs2 ys \<longrightarrow> val_refs h l > 1 \<or> s_valp l2 \<noteq> s_valp l \<and> set qs2 \<inter> own_blks h qs = {} \<longrightarrow>
          lrep h' l2 qs2 ys)) \<and>
    (\<forall>n. 1 \<le> n \<longrightarrow> n \<le> length xs \<longrightarrow> n < 2 ^ 32 - 2 ^ 16 \<longrightarrow> val_refs h l > 1 \<or> own_blks h qs = set qs \<longrightarrow>
       (\<exists>l' h' qs'. SEXP_list_replace h l n s = Some (l', Some (xs ! (n - 1)), h') \<and> lrep h' l' qs' (xs[n - 1 := s]) \<and>
         (\<forall>l2 qs2 ys. lrep h l2 qs2 ys \<longrightarrow> val_refs h l > 1 \<or> s_valp l2 \<noteq> s_valp l \<and> set qs2 \<inter> own_blks h qs = {} \<longrightarrow>
            lrep h' l2 qs2 ys)))"
proof (intro conjI allI impI)
  obtain l' h' qs' where a: "SEXP_list_add h l s = Some (Some l', h')" "lrep h' l' qs' (xs @ [s])"
    "hext h h' (if val_refs h l > 1 then {} else own_blks h qs) (if val_refs h l > 1 then {} else {s_valp l})"
    using list_add_correct [OF assms] .
  have "lrep h' l2 qs2 ys" if "lrep h l2 qs2 ys" "val_refs h l > 1 \<or> s_valp l2 \<noteq> s_valp l \<and> set qs2 \<inter> own_blks h qs = {}" for l2 qs2 ys
    by (rule lrep_hext [OF that(1) a(3)]) (use that(2) in auto)
  with a(1,2) show "\<exists>l' h' qs'. SEXP_list_add h l s = Some (Some l', h') \<and> lrep h' l' qs' (xs @ [s]) \<and>
      (\<forall>l2 qs2 ys. lrep h l2 qs2 ys \<longrightarrow> val_refs h l > 1 \<or> s_valp l2 \<noteq> s_valp l \<and> set qs2 \<inter> own_blks h qs = {} \<longrightarrow> lrep h' l2 qs2 ys)"
    by blast
next
  fix n assume n: "1 \<le> n" "n \<le> length xs" "n < 2 ^ 32 - 2 ^ 16" and o: "val_refs h l > 1 \<or> own_blks h qs = set qs"
  have ok: "if val_refs h l > 1 then length xs \<le> 65535 else own_blks h qs = set qs"
    using o assms(4) by (auto simp: addable_def)
  have "xs \<noteq> []" using n by auto
  then obtain l' h' qs' where a: "SEXP_list_replace h l n s = Some (l', if n \<le> length xs then Some (xs ! (n - 1)) else None, h')"
    "lrep h' l' qs' (xs[n - 1 := s])" "hext h h' (if val_refs h l > 1 then {} else set qs) (if val_refs h l > 1 then {} else {s_valp l})"
    using list_replace_correct [OF assms(1-3) n(1,3) _ ok] by blast
  have "lrep h' l2 qs2 ys" if "lrep h l2 qs2 ys" "val_refs h l > 1 \<or> s_valp l2 \<noteq> s_valp l \<and> set qs2 \<inter> own_blks h qs = {}" for l2 qs2 ys
    by (rule lrep_hext [OF that(1) a(3)]) (use that(2) o in auto)
  with a(1,2) n(2) show "\<exists>l' h' qs'. SEXP_list_replace h l n s = Some (l', Some (xs ! (n - 1)), h') \<and> lrep h' l' qs' (xs[n - 1 := s]) \<and>
      (\<forall>l2 qs2 ys. lrep h l2 qs2 ys \<longrightarrow> val_refs h l > 1 \<or> s_valp l2 \<noteq> s_valp l \<and> set qs2 \<inter> own_blks h qs = {} \<longrightarrow> lrep h' l2 qs2 ys)"
    by auto
qed

theorem sexp_list_changes_witness:
  "\<exists>l' h' qs'. SEXP_list_add (ex_heap 1) (ex_memb 3) (ex_memb 2) = Some (Some l', h') \<and>
     lrep h' l' qs' [ex_memb 1, ex_memb 2, ex_memb 2]"
proof -
  have "addable (ex_heap 1) (ex_memb 3) [4, 5] [ex_memb 1, ex_memb 2]"
    by (auto simp: addable_def own_blks_def ex_heap_def val_refs_def ex_memb_def)
  moreover have "h_vals (ex_heap 1) (s_valp (ex_memb 2)) \<noteq> None" by (simp add: ex_heap_def ex_memb_def)
  ultimately show ?thesis
    using sexp_list_changes [OF ex_heap_hwf ex_heap_lrep, where s = "ex_memb 2"] by fastforce
qed

text \<open>
  C39. Making lists of S-expressions: a list of less than 32 members is made of these members; the list joined from one
  of at most 65535 members and another has the members of both; the rest of a list with a member is that without the
  first, while no block is counted 65535 times. All other lists stay as they are.
\<close>

theorem sexp_list_makes:
  assumes "hwf h" "lrep h l qs xs" "lrep h l2 qs2 ys"
  shows "(length ms < 32 \<and> (\<forall>s\<in>set ms. h_vals h (s_valp s) \<noteq> None) \<longrightarrow>
      (\<exists>j h' qj. SEXP_list_new h ms = Some (j, h') \<and> lrep h' j qj ms \<and>
         (\<forall>l3 qs3 zs. lrep h l3 qs3 zs \<longrightarrow> lrep h' l3 qs3 zs)))
    \<and> (length xs \<le> 65535 \<and> length ys < 2 ^ 32 - 2 ^ 16 - 1 \<longrightarrow>
      (\<exists>j h' qj. SEXP_list_join h l l2 = Some (Some j, h') \<and> lrep h' j qj (xs @ ys) \<and>
         (\<forall>l3 qs3 zs. lrep h l3 qs3 zs \<longrightarrow> lrep h' l3 qs3 zs)))
    \<and> (xs \<noteq> [] \<and> (\<forall>q\<in>set qs. lb_refs (the (h_blks h q)) < 65535) \<longrightarrow>
      (\<exists>r h' qr. SEXP_list_rest h l = Some (Some r, h') \<and> lrep h' r qr (tl xs) \<and>
         (\<forall>l3 qs3 zs. lrep h l3 qs3 zs \<longrightarrow> lrep h' l3 qs3 zs)))"
proof (intro conjI impI; elim conjE)
  assume "length ms < 32" "\<forall>s\<in>set ms. h_vals h (s_valp s) \<noteq> None"
  from list_new_correct [OF assms(1) this] show "\<exists>j h' qj. SEXP_list_new h ms = Some (j, h') \<and> lrep h' j qj ms \<and>
      (\<forall>l3 qs3 zs. lrep h l3 qs3 zs \<longrightarrow> lrep h' l3 qs3 zs)" using lrep_hext_all by metis
next
  assume "length xs \<le> 65535" "length ys < 2 ^ 32 - 2 ^ 16 - 1"
  from list_join_correct [OF assms(1-3) this] show "\<exists>j h' qj. SEXP_list_join h l l2 = Some (Some j, h') \<and> lrep h' j qj (xs @ ys) \<and>
      (\<forall>l3 qs3 zs. lrep h l3 qs3 zs \<longrightarrow> lrep h' l3 qs3 zs)" using lrep_hext_all by metis
next
  assume "xs \<noteq> []" and refs: "\<forall>q\<in>set qs. lb_refs (the (h_blks h q)) < 65535"
  then have "lrep h l qs (hd xs # tl xs)" using assms(2) by simp
  from list_rest_correct [OF assms(1) this refs] show "\<exists>r h' qr. SEXP_list_rest h l = Some (Some r, h') \<and> lrep h' r qr (tl xs) \<and>
      (\<forall>l3 qs3 zs. lrep h l3 qs3 zs \<longrightarrow> lrep h' l3 qs3 zs)" using lrep_hext_all by metis
qed

theorem sexp_list_makes_witness:
  "(\<exists>j h' qj. SEXP_list_join (ex_heap 1) (ex_memb 3) (ex_memb 3) = Some (Some j, h') \<and>
      lrep h' j qj [ex_memb 1, ex_memb 2, ex_memb 1, ex_memb 2])
    \<and> (\<exists>r h' qr. SEXP_list_rest (ex_heap 1) (ex_memb 3) = Some (Some r, h') \<and> lrep h' r qr [ex_memb 2])
    \<and> (\<exists>j h' qj. SEXP_list_new (ex_heap 1) [ex_memb 2] = Some (j, h') \<and> lrep h' j qj [ex_memb 2])"
proof -
  have "\<forall>s\<in>set [ex_memb 2]. h_vals (ex_heap 1) (s_valp s) \<noteq> None" "\<forall>q\<in>set [4, 5]. lb_refs (the (h_blks (ex_heap 1) q)) < 65535"
    by (auto simp: ex_heap_def ex_memb_def)
  then show ?thesis using sexp_list_makes [OF ex_heap_hwf [of 1] ex_heap_lrep ex_heap_lrep, of "[ex_memb 2]"] by auto
qed

end
