(* ===== verification/Sexp_Sort.thy ===== *)
theory Sexp_Sort
  imports Sexp_List "HOL-Library.Multiset"
begin

text \<open>
  Sorting a list of S-expressions in place (\<open>SEXP_list_sort\<close> of \<open>OVAL/probes/SEAP/sexp-manip.c\<close>), with the binary
  search of \<open>common/bfind.c\<close>: each block is sorted by \<open>qsort\<close>; then each block, from the first, takes the least
  members of the blocks after it, which get its members at their places.

  A comparison is a function to \<open>int\<close>. Blocks have at most 2 ^ 15 members, so that indexes do not wrap around.
\<close>

section \<open>Binary search\<close>

text \<open>
  The members \<open>s\<close> to \<open>s + w - 1\<close> are searched. Found: an index (\<open>Inl\<close>); not found: the index where the key
  would be (\<open>Inr\<close>).
\<close>

function bfind_loop :: "('k \<Rightarrow> 'a \<Rightarrow> int) \<Rightarrow> 'a list \<Rightarrow> 'k \<Rightarrow> nat \<Rightarrow> nat \<Rightarrow> nat + nat" where
  "bfind_loop cmpfn xs key s w =
     (if w > 0 then
        (let cmp = cmpfn key (xs ! (s + w div 2)) in
         if cmp > 0 then bfind_loop cmpfn xs key (s + (w div 2 + 1)) (w - w div 2 - 1)
         else if cmp < 0 then bfind_loop cmpfn xs key s (w div 2)
         else Inl (s + w div 2))
      else Inr s)"
  by auto
termination by (relation "measure (\<lambda>(cmpfn, xs, key, s, w). w)") auto

declare bfind_loop.simps [simp del]

definition oscap_bfind :: "('k \<Rightarrow> 'a \<Rightarrow> int) \<Rightarrow> 'a list \<Rightarrow> 'k \<Rightarrow> 'a option" where
  "oscap_bfind cmpfn xs key =
     (case bfind_loop cmpfn xs key 0 (length xs) of Inl i \<Rightarrow> Some (xs ! i) | Inr _ \<Rightarrow> None)"

text \<open>The index or -1, and what is in \<open>*save\<close> after the call: it is written only when nothing is found.\<close>

definition oscap_bfind_i :: "('k \<Rightarrow> 'a \<Rightarrow> int) \<Rightarrow> 'a list \<Rightarrow> 'k \<Rightarrow> nat \<Rightarrow> int \<times> nat" where
  "oscap_bfind_i cmpfn xs key save =
     (case bfind_loop cmpfn xs key 0 (length xs) of Inl i \<Rightarrow> (int i, save) | Inr s \<Rightarrow> (-1, s))"

section \<open>Sorting blocks\<close>

text \<open>\<open>qsort\<close> of the C library. C does not say in which order members that compare equal are left.\<close>

fun c_insort :: "('a \<Rightarrow> 'a \<Rightarrow> int) \<Rightarrow> 'a \<Rightarrow> 'a list \<Rightarrow> 'a list" where
  "c_insort cmp x [] = [x]"
| "c_insort cmp x (y # ys) = (if cmp x y \<le> 0 then x # y # ys else y # c_insort cmp x ys)"

definition c_qsort :: "('a \<Rightarrow> 'a \<Rightarrow> int) \<Rightarrow> 'a list \<Rightarrow> 'a list" where
  "c_qsort cmp xs = foldr (c_insort cmp) xs []"

text \<open>
  The least first member of the later blocks, when it is less than \<open>min_v\<close>: its block (counted from \<open>j\<close>), or \<open>min_i\<close>.
  Reading an empty block is None.
\<close>

fun min_block :: "('a \<Rightarrow> 'a \<Rightarrow> int) \<Rightarrow> 'a \<Rightarrow> nat option \<Rightarrow> nat \<Rightarrow> 'a list list \<Rightarrow> ('a \<times> nat option) option" where
  "min_block compare min_v min_i j [] = Some (min_v, min_i)"
| "min_block compare min_v min_i j (blk # blks) =
     (case blk of
        [] \<Rightarrow> None
      | v # _ \<Rightarrow> if compare v min_v < 0 then min_block compare v (Some j) (j + 1) blks
                else min_block compare min_v min_i (j + 1) blks)"

text \<open>The block from which the first member was taken gets the old value in its place.\<close>

definition blk_put_back :: "('a \<Rightarrow> 'a \<Rightarrow> int) \<Rightarrow> 'a list \<Rightarrow> 'a \<Rightarrow> 'a list" where
  "blk_put_back compare blk tmp_v =
     (let dst_i = (if length blk > 1 then snd (oscap_bfind_i compare (tl blk) tmp_v 0) else 0)
      in take dst_i (tl blk) @ tmp_v # drop dst_i (tl blk))"

text \<open>The members of a block from its index, and the later blocks.\<close>

fun sort_block :: "('a \<Rightarrow> 'a \<Rightarrow> int) \<Rightarrow> 'a list \<Rightarrow> 'a list list \<Rightarrow> ('a list \<times> 'a list list) option" where
  "sort_block compare [] blks = Some ([], blks)"
| "sort_block compare (first_v # xs) blks =
     do {
       (min_v, min_i) \<leftarrow> min_block compare first_v None 0 blks;
       let blks' = (case min_i of None \<Rightarrow> blks | Some j \<Rightarrow> blks[j := blk_put_back compare (blks ! j) first_v]);
       (ys, blks'') \<leftarrow> sort_block compare xs blks';
       Some (min_v # ys, blks'')
     }"

text \<open>All blocks but the last; the first one from the index \<open>off\<close>.\<close>

lemma sort_block_length: "sort_block compare xs blks = Some (ys, blks') \<Longrightarrow> length blks' = length blks"
  by (induction compare xs blks arbitrary: ys blks' rule: sort_block.induct)
    (auto simp: Let_def split: Option.bind_splits option.splits)

function sort_blocks :: "('a \<Rightarrow> 'a \<Rightarrow> int) \<Rightarrow> nat \<Rightarrow> 'a list list \<Rightarrow> 'a list list option" where
  "sort_blocks compare off [] = Some []"
| "sort_blocks compare off [blk] = Some [blk]"
| "sort_blocks compare off (blk # b # blks) =
     (case sort_block compare (drop off blk) (b # blks) of
        None \<Rightarrow> None
      | Some (ys, blks') \<Rightarrow> map_option (\<lambda>bs. (take off blk @ ys) # bs) (sort_blocks compare 0 blks'))"
  by pat_completeness auto
termination
  by (relation "measure (\<lambda>(compare, off, blks). length blks)") (auto dest: sort_block_length)

section \<open>Sorting a list\<close>

partial_function (option) chain_blocks :: "'v sheap \<Rightarrow> nat \<Rightarrow> nat list option" where
  "chain_blocks h p =
     (if p = 0 then Some []
      else do {
        b \<leftarrow> blk_at h p;
        qs \<leftarrow> chain_blocks h (lb_next b);
        Some (p # qs)
      })"

declare chain_blocks.simps [code]

definition blk_memb :: "'v sheap \<Rightarrow> nat \<Rightarrow> SEXP_t list" where
  "blk_memb h q = (case blk_at h q of None \<Rightarrow> [] | Some b \<Rightarrow> lb_memb b)"

fun set_membs :: "'v sheap \<Rightarrow> nat list \<Rightarrow> SEXP_t list list \<Rightarrow> 'v sheap option" where
  "set_membs h (q # qs) (ms # mss) =
     do {
       b \<leftarrow> blk_at h q;
       set_membs (blk_set h q (b\<lparr>lb_memb := ms\<rparr>)) qs mss
     }"
| "set_membs h _ _ = Some h"

definition SEXP_list_sort :: "'v sheap \<Rightarrow> SEXP_t \<Rightarrow> (SEXP_t \<Rightarrow> SEXP_t \<Rightarrow> int) \<Rightarrow> (SEXP_t option \<times> 'v sheap) option" where
  "SEXP_list_sort h l compare =
     do {
       r \<leftarrow> SEXP_raw h l;
       case r of
         RV_ATOM _ \<Rightarrow> Some (None, h)
       | RV_LIST b off \<Rightarrow>
           do {
             qs \<leftarrow> chain_blocks h b;
             mss \<leftarrow> sort_blocks compare off (map (\<lambda>q. c_qsort compare (blk_memb h q)) qs);
             h \<leftarrow> set_membs h qs mss;
             Some (Some l, h)
           }
     }"

definition SEXP_refcmp :: "'z SEXP_t_scheme \<Rightarrow> 'z SEXP_t_scheme \<Rightarrow> int" where
  "SEXP_refcmp a b = (if s_valp a < s_valp b then -1 else if s_valp a > s_valp b then 1 else 0)"

end
