(* ===== verification/Sexp_Sort_Props.thy ===== *)
theory Sexp_Sort_Props
  imports Sexp_Sort Sexp_List_Props
begin

text \<open>
  Searching finds a member with the key, or the place for it; sorting a list whose members have distinct values
  gives the list in order, in the same blocks. With two members of the same value the result can be out of order.
\<close>

section \<open>Comparisons by a key\<close>

text \<open>
  What searching and sorting ask of a comparison: it compares keys of the members. \<open>SEXP_refcmp\<close> compares the
  addresses of values.
\<close>

locale key_compare =
  fixes compare :: "'a \<Rightarrow> 'a \<Rightarrow> int" and key :: "'a \<Rightarrow> nat"
  assumes compare_less: "compare a b < 0 \<longleftrightarrow> key a < key b"
    and compare_greater: "compare a b > 0 \<longleftrightarrow> key b < key a"
begin

lemma compare_le: "compare a b \<le> 0 \<longleftrightarrow> key a \<le> key b"
  using compare_greater [of a b] by linarith

lemma bfind_loop_correct:
  assumes "sorted (map key xs)" "s + w \<le> length xs"
    "\<forall>i < s. key (xs ! i) < key k" "\<forall>i < length xs. s + w \<le> i \<longrightarrow> key k < key (xs ! i)"
  shows "case bfind_loop compare xs k s w of
      Inl i \<Rightarrow> i < length xs \<and> key (xs ! i) = key k
    | Inr s' \<Rightarrow> s' \<le> length xs \<and> (\<forall>i < s'. key (xs ! i) < key k) \<and> (\<forall>i < length xs. s' \<le> i \<longrightarrow> key k < key (xs ! i))"
  using assms
proof (induction w arbitrary: s rule: less_induct)
  case (less w)
  have mono: "key (xs ! i) \<le> key (xs ! j)" if "i \<le> j" "j < length xs" for i j
    using sorted_nth_mono [OF less.prems(1), of i j] that by simp
  show ?case
  proof (cases "w > 0")
    case False
    with less.prems show ?thesis by (subst bfind_loop.simps) simp
  next
    case True
    let ?m = "s + w div 2"
    have m: "?m < length xs" using True less.prems(2) by linarith
    consider (gt) "compare k (xs ! ?m) > 0" | (lt) "compare k (xs ! ?m) < 0" | (eq) "compare k (xs ! ?m) = 0" by linarith
    then show ?thesis
    proof cases
      case gt
      then have "\<forall>i < s + (w div 2 + 1). key (xs ! i) < key k"
        using compare_greater mono [of _ ?m] m by (metis add.assoc less_Suc_eq_le le_less_trans Suc_eq_plus1)
      moreover have "s + (w div 2 + 1) + (w - w div 2 - 1) = s + w" using True by linarith
      ultimately have "case bfind_loop compare xs k (s + (w div 2 + 1)) (w - w div 2 - 1) of
          Inl i \<Rightarrow> i < length xs \<and> key (xs ! i) = key k
        | Inr s' \<Rightarrow> s' \<le> length xs \<and> (\<forall>i < s'. key (xs ! i) < key k) \<and> (\<forall>i < length xs. s' \<le> i \<longrightarrow> key k < key (xs ! i))"
        using less.IH [of "w - w div 2 - 1" "s + (w div 2 + 1)"] less.prems True by simp
      with True gt show ?thesis by (subst bfind_loop.simps) simp
    next
      case lt
      then have "\<forall>i < length xs. ?m \<le> i \<longrightarrow> key k < key (xs ! i)"
        using compare_less mono [of ?m] by (metis less_le_trans)
      then have "case bfind_loop compare xs k s (w div 2) of
          Inl i \<Rightarrow> i < length xs \<and> key (xs ! i) = key k
        | Inr s' \<Rightarrow> s' \<le> length xs \<and> (\<forall>i < s'. key (xs ! i) < key k) \<and> (\<forall>i < length xs. s' \<le> i \<longrightarrow> key k < key (xs ! i))"
        using less.IH [of "w div 2" s] less.prems True m by simp
      with True lt show ?thesis by (subst bfind_loop.simps) simp
    next
      case eq
      then have "key (xs ! ?m) = key k" using compare_less [of k "xs ! ?m"] compare_greater [of k "xs ! ?m"] by simp
      with True eq m show ?thesis by (subst bfind_loop.simps) simp
    qed
  qed
qed

lemma bfind_all:
  assumes "sorted (map key xs)"
  shows "case bfind_loop compare xs k 0 (length xs) of
      Inl i \<Rightarrow> i < length xs \<and> key (xs ! i) = key k
    | Inr s' \<Rightarrow> s' \<le> length xs \<and> (\<forall>i < s'. key (xs ! i) < key k) \<and> (\<forall>i < length xs. s' \<le> i \<longrightarrow> key k < key (xs ! i))"
  by (rule bfind_loop_correct) (use assms in auto)

lemma bfind_correct:
  assumes "sorted (map key xs)"
  shows "case oscap_bfind compare xs k of None \<Rightarrow> key k \<notin> key ` set xs | Some x \<Rightarrow> x \<in> set xs \<and> key x = key k"
proof (cases "bfind_loop compare xs k 0 (length xs)")
  case (Inl i)
  with bfind_all [OF assms, of k] show ?thesis by (simp add: oscap_bfind_def)
next
  case (Inr s)
  then have "(\<forall>i < s. key (xs ! i) < key k) \<and> (\<forall>i < length xs. s \<le> i \<longrightarrow> key k < key (xs ! i))"
    using bfind_all [OF assms, of k] by simp
  then have "key (xs ! i) \<noteq> key k" if "i < length xs" for i using that by (cases "i < s") auto
  then have "\<forall>y \<in> set xs. key y \<noteq> key k" by (simp add: all_set_conv_all_nth)
  then have "key k \<notin> key ` set xs" by (metis imageE)
  with Inr show ?thesis by (simp add: oscap_bfind_def)
qed

text \<open>The place for a member that is not there keeps the order.\<close>

lemma bfind_place:
  assumes "sorted (map key xs)" "key k \<notin> key ` set xs"
  obtains s where "oscap_bfind_i compare xs k save = (-1, s)" "sorted (map key (take s xs @ k # drop s xs))" "s \<le> length xs"
proof (cases "bfind_loop compare xs k 0 (length xs)")
  case (Inl i)
  then have "i < length xs" "key (xs ! i) = key k" using bfind_all [OF assms(1), of k] by simp_all
  then have "key k \<in> key ` set xs" by (metis image_eqI nth_mem)
  with assms(2) show ?thesis by contradiction
next
  case (Inr s)
  then have s: "s \<le> length xs" "\<forall>i < s. key (xs ! i) < key k" "\<forall>i < length xs. s \<le> i \<longrightarrow> key k < key (xs ! i)"
    using bfind_all [OF assms(1), of k] by simp_all
  have lo: "key y < key k" if "y \<in> set (take s xs)" for y
    using that s(1,2) unfolding in_set_conv_nth by auto
  have hi: "key k < key y" if "y \<in> set (drop s xs)" for y
    using that s(1,3) unfolding in_set_conv_nth by auto
  have "sorted (map key (take s xs @ drop s xs))" using assms(1) by simp
  then have "sorted (map key (take s xs @ k # drop s xs))"
    using lo hi unfolding map_append sorted_append list.map sorted_simps(2) set_map by (auto intro: less_imp_le)
  with Inr s(1) that show ?thesis by (simp add: oscap_bfind_i_def)
qed

lemma qsort_correct: "sorted (map key (c_qsort compare xs))" "mset (c_qsort compare xs) = mset xs"
proof -
  have ins: "mset (c_insort compare x ys) = add_mset x (mset ys)" for x ys
    by (induction ys) auto
  have set_ins: "set (c_insort compare x ys) = insert x (set ys)" for x ys
    using ins [of x ys] by (metis set_mset_add_mset_insert set_mset_mset)
  have srt: "sorted (map key (c_insort compare x ys))" if "sorted (map key ys)" for x ys
    using that by (induction ys) (auto simp: compare_le set_ins)
  show "mset (c_qsort compare xs) = mset xs" by (induction xs) (simp_all add: c_qsort_def ins)
  show "sorted (map key (c_qsort compare xs))" by (induction xs) (simp_all add: c_qsort_def srt)
qed

lemma min_block_correct:
  assumes "\<forall>b \<in> set blks. b \<noteq> [] \<and> sorted (map key b)" "case min_i of None \<Rightarrow> True | Some i \<Rightarrow> i < j"
  obtains v i where "min_block compare min_v min_i j blks = Some (v, i)" "key v \<le> key min_v" "\<forall>y \<in> set (concat blks). key v \<le> key y"
    "v = min_v \<and> i = min_i \<or> (\<exists>m. i = Some (j + m) \<and> m < length blks \<and> v = hd (blks ! m) \<and> key v < key min_v)"
proof -
  have "\<exists>v i. min_block compare min_v min_i j blks = Some (v, i) \<and> key v \<le> key min_v \<and> (\<forall>y \<in> set (concat blks). key v \<le> key y) \<and>
      (v = min_v \<and> i = min_i \<or> (\<exists>m. i = Some (j + m) \<and> m < length blks \<and> v = hd (blks ! m) \<and> key v < key min_v))"
    using assms(1)
  proof (induction blks arbitrary: min_v min_i j)
    case (Cons b bs)
    then obtain w ws where b: "b = w # ws" by (cases b) auto
    have le: "\<forall>y \<in> set b. key w \<le> key y" using Cons.prems b by simp
    show ?case
    proof (cases "compare w min_v < 0")
      case True
      then have lt: "key w < key min_v" by (simp add: compare_less)
      obtain v i where v: "min_block compare w (Some j) (j + 1) bs = Some (v, i)" "key v \<le> key w" "\<forall>y \<in> set (concat bs). key v \<le> key y"
        "v = w \<and> i = Some j \<or> (\<exists>m. i = Some (j + 1 + m) \<and> m < length bs \<and> v = hd (bs ! m) \<and> key v < key w)"
        using Cons.IH [of w "Some j" "j + 1"] Cons.prems by auto
      have "\<exists>m. i = Some (j + m) \<and> m < length (b # bs) \<and> v = hd ((b # bs) ! m) \<and> key v < key min_v"
        using v(4)
      proof
        assume "v = w \<and> i = Some j"
        with b lt show ?thesis by (intro exI [of _ 0]) simp
      next
        assume "\<exists>m. i = Some (j + 1 + m) \<and> m < length bs \<and> v = hd (bs ! m) \<and> key v < key w"
        then obtain m where "i = Some (j + 1 + m)" "m < length bs" "v = hd (bs ! m)" "key v < key w" by blast
        with lt show ?thesis by (intro exI [of _ "Suc m"]) simp
      qed
      moreover have "\<forall>y \<in> set (concat (b # bs)). key v \<le> key y" using v(2,3) le by fastforce
      ultimately show ?thesis using True v(1,2) lt b by (intro exI [of _ v] exI [of _ i]) auto
    next
      case False
      then have ge: "key min_v \<le> key w" by (simp add: compare_less)
      obtain v i where v: "min_block compare min_v min_i (j + 1) bs = Some (v, i)" "key v \<le> key min_v" "\<forall>y \<in> set (concat bs). key v \<le> key y"
        "v = min_v \<and> i = min_i \<or> (\<exists>m. i = Some (j + 1 + m) \<and> m < length bs \<and> v = hd (bs ! m) \<and> key v < key min_v)"
        using Cons.IH [of min_v min_i "j + 1"] Cons.prems by auto
      have "v = min_v \<and> i = min_i \<or> (\<exists>m. i = Some (j + m) \<and> m < length (b # bs) \<and> v = hd ((b # bs) ! m) \<and> key v < key min_v)"
        using v(4) by (metis Suc_less_eq add.assoc length_Cons nth_Cons_Suc plus_1_eq_Suc)
      moreover have "\<forall>y \<in> set (concat (b # bs)). key v \<le> key y" using v(2,3) le ge by fastforce
      ultimately show ?thesis using False v(1,2) b by (intro exI [of _ v] exI [of _ i]) auto
    qed
  qed auto
  with that show ?thesis by blast
qed

end

section \<open>Sorting blocks\<close>

text \<open>Whatever the comparison, the blocks keep their members and lengths.\<close>

lemma bfind_loop_le: "bfind_loop cmp xs k s w = Inr s' \<Longrightarrow> s' \<le> s + w"
proof (induction cmp xs k s w rule: bfind_loop.induct)
  case (1 cmp xs k s w)
  then show ?case
    by (subst (asm) (3) bfind_loop.simps) (fastforce simp: Let_def split: if_splits)
qed

lemma put_back_mset:
  assumes "blk \<noteq> []"
  shows "mset (blk_put_back cmp blk x) = add_mset x (mset (tl blk))" "length (blk_put_back cmp blk x) = length blk"
proof -
  have le: "snd (oscap_bfind_i cmp (tl blk) x 0) \<le> length (tl blk)"
    using bfind_loop_le [of cmp "tl blk" x 0 "length (tl blk)"] by (auto simp: oscap_bfind_i_def split: sum.splits)
  have "mset (take d (tl blk)) + mset (drop d (tl blk)) = mset (tl blk)" for d
    by (metis append_take_drop_id mset_append)
  then show "mset (blk_put_back cmp blk x) = add_mset x (mset (tl blk))"
    by (simp add: blk_put_back_def Let_def)
  show "length (blk_put_back cmp blk x) = length blk"
    using le assms by (auto simp: blk_put_back_def Let_def min_def)
qed

lemma min_block_some:
  assumes "\<forall>b \<in> set blks. b \<noteq> []"
  shows "\<exists>v i. min_block cmp min_v min_i j blks = Some (v, i) \<and>
     (v = min_v \<and> i = min_i \<or> (\<exists>m < length blks. i = Some (j + m) \<and> v = hd (blks ! m)))"
  using assms
proof (induction blks arbitrary: min_v min_i j)
  case (Cons b bs)
  then obtain w ws where b: "b = w # ws" by (cases b) auto
  show ?case
  proof (cases "cmp w min_v < 0")
    case True
    obtain v i where v: "min_block cmp w (Some j) (j + 1) bs = Some (v, i)"
      "v = w \<and> i = Some j \<or> (\<exists>m < length bs. i = Some (j + 1 + m) \<and> v = hd (bs ! m))"
      using Cons.IH [of w "Some j" "j + 1"] Cons.prems by auto
    have "\<exists>m < length (b # bs). i = Some (j + m) \<and> v = hd ((b # bs) ! m)"
      using v(2)
    proof
      assume "v = w \<and> i = Some j"
      with b show ?thesis by (intro exI [of _ 0]) simp
    next
      assume "\<exists>m < length bs. i = Some (j + 1 + m) \<and> v = hd (bs ! m)"
      then obtain m where "m < length bs" "i = Some (j + 1 + m)" "v = hd (bs ! m)" by blast
      then show ?thesis by (intro exI [of _ "Suc m"]) simp
    qed
    with True v(1) b show ?thesis by auto
  next
    case False
    obtain v i where v: "min_block cmp min_v min_i (j + 1) bs = Some (v, i)"
      "v = min_v \<and> i = min_i \<or> (\<exists>m < length bs. i = Some (j + 1 + m) \<and> v = hd (bs ! m))"
      using Cons.IH [of min_v min_i "j + 1"] Cons.prems by auto
    have "v = min_v \<and> i = min_i \<or> (\<exists>m < length (b # bs). i = Some (j + m) \<and> v = hd ((b # bs) ! m))"
      using v(2) by (metis Suc_less_eq add.assoc length_Cons nth_Cons_Suc plus_1_eq_Suc)
    with False v(1) b show ?thesis by auto
  qed
qed simp

lemma mset_concat_update:
  "m < length bs \<Longrightarrow> mset (concat (bs[m := b])) + mset (bs ! m) = mset (concat bs) + mset b"
proof (induction bs arbitrary: m)
  case (Cons a bs)
  show ?case
  proof (cases m)
    case (Suc m')
    with Cons have "mset (concat (bs[m' := b])) + mset (bs ! m') = mset (concat bs) + mset b" by simp
    with Suc show ?thesis by (simp add: add.assoc)
  qed simp
qed simp

text \<open>One step: the member taken, and the later blocks after it.\<close>

lemma sort_step:
  assumes "\<forall>b \<in> set blks. b \<noteq> []"
  obtains v blks' where "sort_block cmp (x # xs) blks = map_option (\<lambda>(ys, bs). (v # ys, bs)) (sort_block cmp xs blks')"
    "add_mset v (mset (concat blks')) = add_mset x (mset (concat blks))" "map length blks' = map length blks"
    "\<forall>b \<in> set blks'. b \<noteq> []" "\<exists>i. min_block cmp x None 0 blks = Some (v, i)"
    "\<forall>b' \<in> set blks'. b' \<in> set blks \<or> (\<exists>b \<in> set blks. b' = blk_put_back cmp b x)"
proof -
  obtain v i where v: "min_block cmp x None 0 blks = Some (v, i)" "v = x \<and> i = None \<or> (\<exists>m < length blks. i = Some m \<and> v = hd (blks ! m))"
    using min_block_some [OF assms, of cmp x None 0] by auto
  have step: "sort_block cmp (x # xs) blks = map_option (\<lambda>(ys, bs). (v # ys, bs))
      (sort_block cmp xs (case i of None \<Rightarrow> blks | Some j \<Rightarrow> blks[j := blk_put_back cmp (blks ! j) x]))"
    by (simp add: v(1) Let_def map_conv_bind_option split_def comp_def)
  from v(2) show ?thesis
  proof
    assume "v = x \<and> i = None"
    with step assms v(1) show ?thesis by (intro that [of v blks]) auto
  next
    assume "\<exists>m < length blks. i = Some m \<and> v = hd (blks ! m)"
    then obtain m where m: "m < length blks" "i = Some m" "v = hd (blks ! m)" by blast
    let ?b = "blk_put_back cmp (blks ! m) x"
    have ne: "blks ! m \<noteq> []" using assms m(1) by simp
    have mv: "mset (blks ! m) = add_mset v (mset (tl (blks ! m)))" using ne m(3) by (cases "blks ! m") auto
    have "mset (concat (blks[m := ?b])) + add_mset v (mset (tl (blks ! m))) = mset (concat blks) + add_mset x (mset (tl (blks ! m)))"
      using mset_concat_update [OF m(1), of ?b] unfolding mv put_back_mset(1) [OF ne] .
    then have ms: "add_mset v (mset (concat (blks[m := ?b]))) = add_mset x (mset (concat blks))" by simp
    have ln: "map length (blks[m := ?b]) = map length blks"
      using put_back_mset(2) [OF ne, of cmp x] m(1) by (simp add: map_update list_update_same_conv)
    have nes: "\<forall>b \<in> set (blks[m := ?b]). b \<noteq> []"
      using assms put_back_mset(2) [OF ne, of cmp x] ne set_update_subset_insert [of blks m ?b] by (metis insert_iff length_0_conv subset_iff)
    have mem: "\<forall>b' \<in> set (blks[m := ?b]). b' \<in> set blks \<or> (\<exists>b \<in> set blks. b' = blk_put_back cmp b x)"
      using set_update_subset_insert [of blks m ?b] m(1) by (metis insert_iff nth_mem subset_iff)
    show ?thesis using step v(1) m(2) by (intro that [OF _ ms ln nes _ mem]) auto
  qed
qed

lemma sort_block_perm:
  assumes "\<forall>b \<in> set blks. b \<noteq> []"
  shows "\<exists>ys bs. sort_block cmp xs blks = Some (ys, bs) \<and> length ys = length xs \<and> map length bs = map length blks \<and>
    (\<forall>b \<in> set bs. b \<noteq> []) \<and> mset (ys @ concat bs) = mset (xs @ concat blks)"
  using assms
proof (induction xs arbitrary: blks)
  case (Cons x xs)
  obtain v blks' where s: "sort_block cmp (x # xs) blks = map_option (\<lambda>(ys, bs). (v # ys, bs)) (sort_block cmp xs blks')"
    "add_mset v (mset (concat blks')) = add_mset x (mset (concat blks))" "map length blks' = map length blks"
    "\<forall>b \<in> set blks'. b \<noteq> []" using sort_step [OF Cons.prems] by metis
  obtain ys bs where r: "sort_block cmp xs blks' = Some (ys, bs)" "length ys = length xs" "map length bs = map length blks'"
    "\<forall>b \<in> set bs. b \<noteq> []" "mset (ys @ concat bs) = mset (xs @ concat blks')" using Cons.IH [OF s(4)] by blast
  have "mset ((v # ys) @ concat bs) = mset xs + add_mset v (mset (concat blks'))" using r(5) by simp
  also have "\<dots> = mset ((x # xs) @ concat blks)" by (simp only: s(2)) simp
  finally show ?case using s(1,3) r by simp
qed simp

lemma sort_blocks_perm:
  assumes "\<forall>b \<in> set blks. b \<noteq> []"
  shows "\<exists>bs. sort_blocks cmp off blks = Some bs \<and> map length bs = map length blks \<and> mset (concat bs) = mset (concat blks)"
  using assms
proof (induction cmp off blks rule: sort_blocks.induct)
  case (3 cmp off blk b blks)
  obtain ys bs where s: "sort_block cmp (drop off blk) (b # blks) = Some (ys, bs)" "length ys = length (drop off blk)"
    "map length bs = map length (b # blks)" "\<forall>b \<in> set bs. b \<noteq> []" "mset (ys @ concat bs) = mset (drop off blk @ concat (b # blks))"
    using sort_block_perm [of "b # blks" cmp "drop off blk"] "3.prems" by auto
  obtain rs where r: "sort_blocks cmp 0 bs = Some rs" "map length rs = map length bs" "mset (concat rs) = mset (concat bs)"
    using "3.IH" [OF s(1) refl s(4)] by blast
  have "mset (take off blk) + mset (drop off blk) = mset blk" by (metis append_take_drop_id mset_append)
  moreover have "mset ys + mset (concat bs) = mset (drop off blk) + mset (concat (b # blks))" using s(5) by simp
  ultimately have "mset (take off blk @ ys) + mset (concat bs) = mset blk + mset (concat (b # blks))"
    by (simp only: mset_append add.assoc [symmetric]) (metis add.assoc)
  then show ?case using s(1-3) r by (auto simp: min_def add.assoc)
qed simp_all

context key_compare
begin

lemma put_back_sorted:
  assumes "blk \<noteq> []" "sorted (map key blk)" "key x \<notin> key ` set (tl blk)"
  shows "sorted (map key (blk_put_back compare blk x))"
proof (cases "length blk > 1")
  case True
  have "sorted (map key (tl blk))" using assms(1,2) by (cases blk) auto
  then obtain s where "oscap_bfind_i compare (tl blk) x 0 = (-1, s)" "sorted (map key (take s (tl blk) @ x # drop s (tl blk)))"
    using bfind_place assms(3) by metis
  with True show ?thesis by (simp add: blk_put_back_def)
next
  case False
  with assms(1) have "tl blk = []" by (cases blk) auto
  with False show ?thesis by (simp add: blk_put_back_def)
qed

lemma sort_block_correct:
  assumes "sorted (map key xs)" "\<forall>b \<in> set blks. b \<noteq> [] \<and> sorted (map key b)" "distinct (map key (xs @ concat blks))"
    "sort_block compare xs blks = Some (ys, bs)"
  shows "sorted (map key ys) \<and> (\<forall>b \<in> set bs. sorted (map key b)) \<and> (\<forall>y \<in> set ys. \<forall>z \<in> set (concat bs). key y \<le> key z)"
  using assms
proof (induction xs arbitrary: blks ys)
  case (Cons x xs)
  have ne: "\<forall>b \<in> set blks. b \<noteq> []" using Cons.prems(2) by simp
  obtain v blks' where s: "sort_block compare (x # xs) blks = map_option (\<lambda>(ys, bs). (v # ys, bs)) (sort_block compare xs blks')"
    "add_mset v (mset (concat blks')) = add_mset x (mset (concat blks))" "\<forall>b \<in> set blks'. b \<noteq> []"
    "\<exists>i. min_block compare x None 0 blks = Some (v, i)"
    "\<forall>b' \<in> set blks'. b' \<in> set blks \<or> (\<exists>b \<in> set blks. b' = blk_put_back compare b x)" using sort_step [OF ne] by metis
  obtain ys' where ys: "ys = v # ys'" "sort_block compare xs blks' = Some (ys', bs)" using s(1) Cons.prems(4) by auto
  have v: "key v \<le> key x" "\<forall>y \<in> set (concat blks). key v \<le> key y"
  proof -
    obtain v' i where "min_block compare x None 0 blks = Some (v', i)" "key v' \<le> key x" "\<forall>y \<in> set (concat blks). key v' \<le> key y"
      by (rule min_block_correct [OF Cons.prems(2), where min_i = None and j = 0 and min_v = x]) auto
    with s(4) show "key v \<le> key x" "\<forall>y \<in> set (concat blks). key v \<le> key y" by auto
  qed
  have x: "key x \<notin> key ` set (concat blks)" using Cons.prems(3) by auto
  have srt: "\<forall>b \<in> set blks'. b \<noteq> [] \<and> sorted (map key b)"
  proof
    fix b' assume b': "b' \<in> set blks'"
    with s(5) consider "b' \<in> set blks" | b where "b \<in> set blks" "b' = blk_put_back compare b x" by blast
    then have "sorted (map key b')"
    proof cases
      case 2
      moreover have "set (tl b) \<subseteq> set b" by (cases b) auto
      ultimately show ?thesis using put_back_sorted [of b x] Cons.prems(2) x by auto
    qed (use Cons.prems(2) in simp)
    with b' s(3) show "b' \<noteq> [] \<and> sorted (map key b')" by simp
  qed
  have ms: "mset (v # xs @ concat blks') = mset (x # xs @ concat blks)" using s(2) by simp
  have dis: "distinct (map key (v # xs @ concat blks'))"
  proof -
    have "mset (map key (v # xs @ concat blks')) = mset (map key (x # xs @ concat blks))" using ms by (simp only: mset_map)
    then show ?thesis using Cons.prems(3) mset_eq_imp_distinct_iff by (metis append_Cons)
  qed
  have IH: "sorted (map key ys') \<and> (\<forall>b \<in> set bs. sorted (map key b)) \<and> (\<forall>y \<in> set ys'. \<forall>z \<in> set (concat bs). key y \<le> key z)"
    by (rule Cons.IH [OF _ srt _ ys(2)]) (use Cons.prems(1) dis in auto)
  have "mset (ys' @ concat bs) = mset (xs @ concat blks')" using sort_block_perm [OF s(3), of compare xs] ys(2) by auto
  then have set_ys: "set ys' \<union> set (concat bs) = set xs \<union> set (concat blks')" by (metis mset_eq_setD set_append)
  have "set (v # xs @ concat blks') = set (x # xs @ concat blks)" using ms by (rule mset_eq_setD)
  then have sub: "set xs \<union> set (concat blks') \<subseteq> insert x (set xs \<union> set (concat blks))" by auto
  have "key v \<le> key y" if "y \<in> set ys' \<union> set (concat bs)" for y
  proof -
    from that set_ys sub consider "y = x" | "y \<in> set xs" | "y \<in> set (concat blks)" by blast
    then show ?thesis using v Cons.prems(1) by cases (auto intro: order_trans)
  qed
  with IH ys(1) show ?case by auto
qed simp

lemma sort_blocks_correct:
  assumes "\<forall>b \<in> set blks. b \<noteq> [] \<and> sorted (map key b)" "distinct (map key (concat blks))" "sort_blocks compare 0 blks = Some bs"
  shows "sorted (map key (concat bs))"
  using assms
proof (induction "length blks" arbitrary: blks bs)
  case (Suc n)
  then obtain blk rest where blks: "blks = blk # rest" by (cases blks) auto
  show ?case
  proof (cases rest)
    case Nil
    with Suc.prems blks show ?thesis by auto
  next
    case (Cons b blks')
    have ne: "\<forall>b \<in> set rest. b \<noteq> []" using Suc.prems(1) blks by simp
    obtain ys cs where s: "sort_block compare blk rest = Some (ys, cs)" "length ys = length blk" "map length cs = map length rest"
      "\<forall>b \<in> set cs. b \<noteq> []" "mset (ys @ concat cs) = mset (blk @ concat rest)"
      using sort_block_perm [OF ne, of compare blk] by blast
    then obtain rs where r: "sort_blocks compare 0 cs = Some rs" "bs = ys # rs"
      using Suc.prems(3) blks Cons by (auto split: option.splits)
    have c: "sorted (map key ys) \<and> (\<forall>b \<in> set cs. sorted (map key b)) \<and> (\<forall>y \<in> set ys. \<forall>z \<in> set (concat cs). key y \<le> key z)"
      by (rule sort_block_correct [OF _ _ _ s(1)]) (use Suc.prems(1,2) blks in auto)
    have "mset (map key (ys @ concat cs)) = mset (map key (blk @ concat rest))" using s(5) by (simp only: mset_map)
    then have "distinct (map key (ys @ concat cs))" using Suc.prems(2) blks mset_eq_imp_distinct_iff by fastforce
    then have "sorted (map key (concat rs))"
      by (intro Suc.hyps(1) [OF _ _ _ r(1)]) (use Suc.hyps(2) s(3,4) c blks in \<open>auto dest: map_eq_imp_length_eq\<close>)
    moreover have "mset (concat rs) = mset (concat cs)" using sort_blocks_perm [OF s(4), of compare 0] r(1) by auto
    then have "set (concat rs) = set (concat cs)" by (rule mset_eq_setD)
    ultimately show ?thesis using c by (simp only: r(2) concat.simps map_append sorted_append set_map) auto
  qed
qed simp

end

section \<open>Sorting a list\<close>

interpretation refcmp: key_compare SEXP_refcmp s_valp
  by unfold_locales (auto simp: SEXP_refcmp_def)

lemma chain_blocks_correct: "lchain (h_blks h) p qs \<Longrightarrow> chain_blocks h p = Some qs"
proof (induction qs arbitrary: p)
  case Nil
  then show ?case by (subst chain_blocks.simps) simp
next
  case (Cons q qs)
  from Cons.prems obtain b where "p = q" "q \<noteq> 0" "blk_at h q = Some b" "lchain (h_blks h) (lb_next b) qs" by (rule blk_at_chain)
  with Cons.IH show ?case by (subst chain_blocks.simps) simp
qed

text \<open>The members of the blocks of a chain are set to as many new ones.\<close>

lemma set_membs_correct:
  assumes "hwf h" "distinct qs" "\<forall>q \<in> set qs. h_blks h q \<noteq> None" "map length mss = map (\<lambda>q. lb_real (the (h_blks h q))) qs"
  obtains h' where "set_membs h qs mss = Some h'" "hwf h'" "h_vals h' = h_vals h" "h_brk h' = h_brk h"
    "\<forall>q. q \<notin> set qs \<longrightarrow> h_blks h' q = h_blks h q" "map (\<lambda>q. lb_memb (the (h_blks h' q))) qs = mss"
    "\<And>p rs. lchain (h_blks h') p rs = lchain (h_blks h) p rs"
    "\<forall>q. map_option (\<lambda>b. lb_real b) (h_blks h' q) = map_option (\<lambda>b. lb_real b) (h_blks h q)"
proof -
  have "\<exists>h'. set_membs h qs mss = Some h' \<and> hwf h' \<and> h_vals h' = h_vals h \<and> h_brk h' = h_brk h \<and>
      (\<forall>q. q \<notin> set qs \<longrightarrow> h_blks h' q = h_blks h q) \<and> map (\<lambda>q. lb_memb (the (h_blks h' q))) qs = mss \<and>
      (\<forall>p rs. lchain (h_blks h') p rs = lchain (h_blks h) p rs) \<and>
      (\<forall>q. map_option (\<lambda>b. lb_real b) (h_blks h' q) = map_option (\<lambda>b. lb_real b) (h_blks h q))"
    using assms
  proof (induction qs arbitrary: h mss)
    case (Cons q qs)
    obtain b where b: "h_blks h q = Some b" using Cons.prems(3) by auto
    obtain ms rest where mss: "mss = ms # rest" "length ms = lb_real b" "map length rest = map (\<lambda>q. lb_real (the (h_blks h q))) qs"
      using Cons.prems(4) b by (cases mss) auto
    define h1 where "h1 = blk_set h q (b\<lparr>lb_memb := ms\<rparr>)"
    have at: "blk_at h q = Some b" using hwf_blk [OF Cons.prems(1) b] by simp
    have B1: "h_blks h1 = (h_blks h)(q \<mapsto> b\<lparr>lb_memb := ms\<rparr>)" by (simp add: h1_def)
    have w1: "hwf h1" using Cons.prems(1) b by (simp add: h1_def hwf_blk_set)
    have same: "\<forall>r \<in> set qs. h_blks h1 r = h_blks h r" using Cons.prems(2) B1 by auto
    obtain h' where h': "set_membs h1 qs rest = Some h'" "hwf h'" "h_vals h' = h_vals h1" "h_brk h' = h_brk h1"
      "\<forall>q. q \<notin> set qs \<longrightarrow> h_blks h' q = h_blks h1 q" "map (\<lambda>q. lb_memb (the (h_blks h' q))) qs = rest"
      "\<forall>p rs. lchain (h_blks h') p rs = lchain (h_blks h1) p rs"
      "\<forall>q. map_option (\<lambda>b. lb_real b) (h_blks h' q) = map_option (\<lambda>b. lb_real b) (h_blks h1 q)"
      using Cons.IH [OF w1, of rest] Cons.prems(2,3) mss(3) same by auto
    have "lchain (h_blks h1) p rs = lchain (h_blks h) p rs" for p rs
      unfolding B1 by (rule lchain_memb_upd [where B = "h_blks h"]) (rule b mss(2))+
    moreover have "lb_memb (the (h_blks h' q)) = ms" using h'(5) Cons.prems(2) B1 by simp
    ultimately show ?case
      using h' mss at Cons.prems(2) B1 b by (intro exI [of _ h']) (auto simp: h1_def)
  qed auto
  with that show ?thesis by blast
qed

lemma list_sort_correct:
  assumes "hwf h" "lrep h l qs xs" "length xs = length (lcont (h_blks h) qs)"
  obtains h' ys where "SEXP_list_sort h l SEXP_refcmp = Some (Some l, h')" "lrep h' l qs ys" "mset ys = mset xs"
    "hext h h' (set qs) {}" "h_vals h' = h_vals h" "distinct (map s_valp xs) \<longrightarrow> sorted (map s_valp ys)"
proof -
  from assms(2) obtain v b off where l: "h_vals h (s_valp l) = Some v" "v_raw v = RV_LIST b off" "lchain (h_blks h) b qs"
    "off < 65536" "if qs = [] then off = 0 else off < lb_real (the (h_blks h (hd qs)))" "xs = drop off (lcont (h_blks h) qs)"
    "\<forall>s \<in> set (lcont (h_blks h) qs). h_vals h (s_valp s) \<noteq> None" by (rule lrepE)
  have off: "off = 0"
  proof (cases qs)
    case (Cons q rs)
    then have "off < length (lcont (h_blks h) qs)" using l(5) by simp
    with assms(3) show ?thesis using l(6) by simp
  qed (use l(5) in simp)
  have xs: "xs = lcont (h_blks h) qs" using l(6) off by simp
  let ?m = "\<lambda>q. lb_memb (the (h_blks h q))" and ?blks = "map (\<lambda>q. c_qsort SEXP_refcmp (blk_memb h q)) qs"
  have memb: "blk_memb h q = ?m q" "?m q \<noteq> []" "h_blks h q \<noteq> None" if q: "q \<in> set qs" for q
  proof -
    obtain c where "q \<noteq> 0" "h_blks h q = Some c" "lb_memb c \<noteq> []" using lchain_Some [OF l(3) q] by metis
    then show "blk_memb h q = ?m q" "?m q \<noteq> []" "h_blks h q \<noteq> None" by (simp_all add: blk_memb_def blk_at_def)
  qed
  have ms: "mset (c_qsort SEXP_refcmp (blk_memb h q)) = mset (?m q)" if "q \<in> set qs" for q
    using memb(1) [OF that] by (simp add: refcmp.qsort_correct)
  have ne: "\<forall>c \<in> set ?blks. c \<noteq> []"
  proof
    fix c assume "c \<in> set ?blks"
    then obtain q where "q \<in> set qs" "c = c_qsort SEXP_refcmp (blk_memb h q)" by auto
    with ms [of q] memb(2) [of q] show "c \<noteq> []" by auto
  qed
  have cat: "mset (concat ?blks) = mset xs"
    unfolding xs lcont_def using ms by (simp add: mset_concat comp_def cong: map_cong)
  obtain mss where s: "sort_blocks SEXP_refcmp 0 ?blks = Some mss" "map length mss = map length ?blks"
    "mset (concat mss) = mset (concat ?blks)" using sort_blocks_perm [OF ne, of SEXP_refcmp 0] by blast
  have "length (c_qsort SEXP_refcmp (blk_memb h q)) = length (?m q)" if "q \<in> set qs" for q
    using ms [OF that] by (metis size_mset)
  then have len: "map length mss = map (\<lambda>q. lb_real (the (h_blks h q))) qs" using s(2) by simp
  have some: "\<forall>q \<in> set qs. h_blks h q \<noteq> None" using memb(3) by blast
  obtain h' where h': "set_membs h qs mss = Some h'" "hwf h'" "h_vals h' = h_vals h" "h_brk h' = h_brk h"
    "\<forall>q. q \<notin> set qs \<longrightarrow> h_blks h' q = h_blks h q" "map (\<lambda>q. lb_memb (the (h_blks h' q))) qs = mss"
    "\<And>p rs. lchain (h_blks h') p rs = lchain (h_blks h) p rs"
    "\<forall>q. map_option (\<lambda>b. lb_real b) (h_blks h' q) = map_option (\<lambda>b. lb_real b) (h_blks h q)"
    using set_membs_correct [OF assms(1) lchain_distinct [OF l(3)] some len] by blast
  have ys: "mset (concat mss) = mset xs" using s(3) cat by simp
  show ?thesis
  proof (rule that [of h' "concat mss"])
    show "SEXP_list_sort h l SEXP_refcmp = Some (Some l, h')"
      using l(1,2) off chain_blocks_correct [OF l(3)] s(1) h'(1) by (simp add: SEXP_list_sort_def SEXP_raw_def)
    show "lrep h' l qs (concat mss)"
    proof (rule lrepI [where v = v and b = b and off = 0])
      show "lchain (h_blks h') b qs" using h'(7) l(3) by simp
      have "lb_real (the (h_blks h' (hd qs))) > 0" if "qs \<noteq> []"
      proof -
        have "lchain (h_blks h') b qs" using h'(7) l(3) by simp
        with that show ?thesis by (cases qs) (auto split: option.splits)
      qed
      then show "if qs = [] then 0 = 0 else 0 < lb_real (the (h_blks h' (hd qs)))" by simp
      show "concat mss = drop 0 (lcont (h_blks h') qs)" by (simp add: lcont_def h'(6))
      have "set (concat mss) = set xs" using ys by (rule mset_eq_setD)
      then show "\<forall>s \<in> set (lcont (h_blks h') qs). h_vals h' (s_valp s) \<noteq> None"
        using l(7) xs h'(3) by (simp add: lcont_def h'(6))
    qed (use l(1,2) off h'(3) in simp_all)
    show "hext h h' (set qs) {}"
      by (rule hext_vext [OF assms(1)]) (use h' in auto)
    show "distinct (map s_valp xs) \<longrightarrow> sorted (map s_valp (concat mss))"
    proof
      assume "distinct (map s_valp xs)"
      moreover have "mset (map s_valp (concat ?blks)) = mset (map s_valp xs)" using cat by (simp only: mset_map)
      ultimately have d: "distinct (map s_valp (concat ?blks))" using mset_eq_imp_distinct_iff by blast
      show "sorted (map s_valp (concat mss))"
        by (rule refcmp.sort_blocks_correct [OF _ d s(1)]) (use ne refcmp.qsort_correct(1) in auto)
    qed
  qed (use ys h'(3) in simp_all)
qed

section \<open>Properties\<close>

text \<open>
  C40. Sorting a list of S-expressions by address keeps its members, its blocks and every list that shares no block with
  it, and puts the members in order when no value occurs twice, if the list skips no member of its first block. The
  conditions are needed: \<open>sorting_duplicates\<close> is a list with one value twice that is left out of order, and in
  \<open>sorting_rest\<close> a member that the rest of a list skips takes the place of its own.
\<close>

theorem sexp_list_sort_correct:
  assumes "hwf h" "lrep h l qs xs" "length xs = length (lcont (h_blks h) qs)"
  shows "\<exists>h' ys. SEXP_list_sort h l SEXP_refcmp = Some (Some l, h') \<and> lrep h' l qs ys \<and> mset ys = mset xs \<and>
    (distinct (map s_valp xs) \<longrightarrow> sorted (map s_valp ys)) \<and>
    (\<forall>l2 qs2 zs. lrep h l2 qs2 zs \<longrightarrow> set qs2 \<inter> set qs = {} \<longrightarrow> lrep h' l2 qs2 zs)"
proof -
  obtain h' ys where s: "SEXP_list_sort h l SEXP_refcmp = Some (Some l, h')" "lrep h' l qs ys" "mset ys = mset xs"
    "hext h h' (set qs) {}" "distinct (map s_valp xs) \<longrightarrow> sorted (map s_valp ys)"
    using list_sort_correct [OF assms] .
  have "\<forall>l2 qs2 zs. lrep h l2 qs2 zs \<longrightarrow> set qs2 \<inter> set qs = {} \<longrightarrow> lrep h' l2 qs2 zs"
    using lrep_hext [OF _ s(4)] by blast
  with s show ?thesis by blast
qed

theorem sexp_list_sort_correct_witness:
  "\<exists>h' ys. SEXP_list_sort (ex_heap 1) (ex_memb 3) SEXP_refcmp = Some (Some (ex_memb 3), h') \<and>
     lrep h' (ex_memb 3) [4, 5] ys \<and> sorted (map s_valp ys)"
proof -
  have "length [ex_memb 1, ex_memb 2] = length (lcont (h_blks (ex_heap 1)) [4, 5])" by (simp add: ex_heap_def)
  from sexp_list_sort_correct [OF ex_heap_hwf ex_heap_lrep this] show ?thesis by (auto simp: ex_memb_def)
qed

text \<open>The binary search does not say where a value goes that is there already: it goes first.\<close>

lemma sorting_duplicates:
  "map_option (map s_valp \<circ> concat) (sort_blocks SEXP_refcmp 0 [map ex_memb [5, 9], map ex_memb [1, 3, 5, 7]]) =
     Some [1, 5, 3, 5, 7, 9]"
  by (simp add: ex_memb_def SEXP_refcmp_def Let_def blk_put_back_def oscap_bfind_i_def bfind_loop.simps)

text \<open>The whole first block is sorted, also the members that the rest of a list skips: here its one member is another one after.\<close>

lemma sorting_rest:
  "do {
     (l, h) \<leftarrow> SEXP_list_new (ex_heap 1) [ex_memb 2, ex_memb 1];
     (r, h) \<leftarrow> SEXP_list_rest h l;
     r \<leftarrow> r;
     xs \<leftarrow> SEXP_list_items h r;
     (_, h) \<leftarrow> SEXP_list_sort h r SEXP_refcmp;
     ys \<leftarrow> SEXP_list_items h r;
     Some (map s_valp xs, map s_valp ys)
   } = Some ([1], [2])"
  by (simp add: list_eval b_exp_loop.simps SEXP_list_sort_def chain_blocks.simps c_qsort_def blk_memb_def SEXP_refcmp_def)

end
