(* ===== verification/Spec2Isabelle.thy ===== *)
theory Spec2Isabelle
  imports Prelude Oscap_Util Oval_Types Oval_Enumerations Oval_Results Oval_Version Comparator
    Oval_Cmp Oval_Evr Oval_Cmp_Ip Oval_Ent_Cmp Oval_Test Oval_Test_Props Oval_Criteria Oval_Criteria_Props
    Oval_Component Oval_Component_Props Oscap_List Oscap_Htable Oscap_Tsort Xccdf_Types Xccdf_Score Xccdf_Score_Props
    Cpe_Name Cpe_Name_Props Cpe_Lang Xccdf_Benchmark Xccdf_Policy Xccdf_Policy_Eval Xccdf_Policy_Run Xccdf_Policy_Tailor
    Xccdf_Policy_Props Xccdf_Policy_Run_Props Xccdf_Select_Props Cvss Cvss_Props
    Seap_Spb Seap_Spb_Props Seap_Base64 Seap_Base64_Props Sexp_Block Sexp_List Sexp_Chain Sexp_List_Add
    Sexp_List_Props Sexp_Sort Sexp_Sort_Props
begin

text \<open>
  OpenSCAP, the library of the Security Content Automation Protocol (SCAP), checks a system against
  content written in OVAL (tests of the state of a system) and XCCDF (benchmarks of rules). The parts of
  the program, under \<open>src/openscap-1.2.1/src/\<close>, and how they work together:

  \<^item> \<open>OVAL\<close>: probes collect items of the system; \<open>OVAL/results\<close> evaluates tests of collected items
    against states, combines the results along the criteria of definitions, and computes variables from
    components, of which states and objects use the values.
  \<^item> \<open>CPE\<close>: names of platforms, dictionaries of them with checks, and expressions over them, which tell
    whether an item of a benchmark applies to the system.
  \<^item> \<open>XCCDF\<close> and \<open>XCCDF_POLICY\<close>: a benchmark is a tree of groups and rules; a policy (of a profile)
    selects some of them, hands the checks of the selected rules to checking engines (one is OVAL),
    combines the results of complex checks and keeps a result for every rule; scores are computed from
    the results.
  \<^item> \<open>common\<close>: lists, hash tables, iterators and text functions under all of these.

  Theories and what they model, in the order they import each other (functions keep their names in C;
  \<open>static\<close> ones lose a leading underscore):

  \<^item> \<open>Prelude\<close>: characters, C strings (\<open>cstr\<close>, NULL is None) and numbers as text, with the lemmas the
    others share. \<open>Oscap_Util\<close>: \<open>common/util.c\<close> (string tables under the contract \<open>string_table\<close>,
    splitting, trimming, expansion of IPv6 addresses).
  \<^item> \<open>Oscap_List\<close>, \<open>Oscap_Htable\<close>: \<open>common/list.c\<close>. Iterators over lists and over hash tables meet the
    contract \<open>iterator\<close> (a loop sees exactly what is pending and ends); hash tables meet the contract
    \<open>dictionary\<close>, on which benchmarks and policies rest. \<open>Oscap_Tsort\<close>: \<open>common/tsort.c\<close>.
  \<^item> \<open>Oval_Types\<close>, \<open>Oval_Enumerations\<close>: the enumerations of \<open>OVAL/public\<close> and their texts
    (\<open>oval_enumerations.c\<close>), every table an instance of \<open>string_table\<close>. \<open>Oval_Version\<close>:
    \<open>oval_version.c\<close>.
  \<^item> \<open>Oval_Results\<close>: the combination of partial results (\<open>results/oval_resultTest.c\<close>,
    \<open>probes/probe/entcmp.c\<close>) and its specification by priorities among results.
  \<^item> \<open>Comparator\<close>, \<open>Oval_Cmp\<close>, \<open>Oval_Evr\<close>, \<open>Oval_Cmp_Ip\<close>, \<open>Oval_Ent_Cmp\<close>: the comparisons of values
    (\<open>results/oval_cmp*.c\<close>); three-way comparisons meet the contract of \<open>Comparator\<close>.
  \<^item> \<open>Oval_Test\<close>, \<open>Oval_Criteria\<close> (with \<open>_Props\<close>): tests, criteria, definitions and systems of results
    (\<open>results/oval_result*.c\<close>). \<open>Oval_Component\<close> (with \<open>_Props\<close>): \<open>oval_component.c\<close>,
    \<open>oval_variable.c\<close>.
  \<^item> \<open>Cpe_Name\<close> (with \<open>_Props\<close>), \<open>Cpe_Lang\<close>: \<open>CPE/cpename.c\<close>, \<open>cpedict.c\<close>, \<open>cpelang.c\<close>.
  \<^item> \<open>Xccdf_Types\<close>, \<open>Xccdf_Benchmark\<close>: the data of XCCDF and the dictionaries of a benchmark
    (\<open>XCCDF/item.h\<close>, \<open>benchmark.c\<close>). \<open>Xccdf_Score\<close> (with \<open>_Props\<close>): \<open>result_scoring.c\<close>.
  \<^item> \<open>Xccdf_Policy\<close>: policies and selection (\<open>XCCDF_POLICY/xccdf_policy.c\<close>).
    \<open>Xccdf_Policy_Eval\<close>: complex checks, exported values, choice of checks and applicability of items.
    \<open>Xccdf_Policy_Run\<close>: the evaluation of rules and of the policy. \<open>Xccdf_Policy_Tailor\<close>: tailored items
    and the files of checks. \<open>Xccdf_Select_Props\<close>, \<open>Xccdf_Policy_Props\<close>,
    \<open>Xccdf_Policy_Run_Props\<close>: their properties.
  \<^item> \<open>Cvss\<close> (with \<open>_Props\<close>): \<open>CVSS/cvss.c\<close>, vectors, elements and scores of vulnerabilities.
  \<^item> \<open>Seap_Spb\<close>, \<open>Seap_Base64\<close> (with \<open>_Props\<close>): \<open>probes/SEAP/generic/spb.c\<close>, \<open>xbase64.c\<close>, on which the
    parser of the messages of probes rests.
  \<^item> \<open>Sexp_Block\<close>, \<open>Sexp_List\<close>: \<open>probes/SEAP/sexp-value.c\<close> and the lists of \<open>sexp-manip.c\<close>: a heap of counted
    values and of counted blocks that lists share. \<open>Sexp_Chain\<close>: chains of blocks as sequences;
    \<open>Sexp_List_Add\<close>, \<open>Sexp_List_Props\<close>: the operations on lists as operations on sequences, and where sharing
    breaks this. \<open>Sexp_Sort\<close> (with \<open>_Props\<close>): sorting of lists in place, and \<open>common/bfind.c\<close>.
  What the lemmas show. Tables: reading and writing of enumeration texts are inverse. Results: the counting
  code computes the priorities of the specification, for both implementations, whatever the order of the
  results. Comparisons: total preorders, and the documented relation on values. Tests and definitions: the
  decision of every branch, that results are cached and computed once, that evaluation returns on acyclic
  definitions and does not on circular ones. Variables: values are typed, every combination of CONCAT is
  given once, settled variables stay. Containers: the contracts. CPE: a name survives writing and reading.
  XCCDF: scores are the weights of passing rules, up to the rounding of single precision, a policy has the selectors of the chain of
  profiles that its profile extends, an item is selected as the latest selectors for it and for the groups
  around it say, complex checks are formulas over their simple checks, and the
  evaluation of a policy gives every rule its results. CVSS: vectors and elements of metrics read
  back as written, the base score is a tenth between 0 and 10. SEAP: sparse buffers refine byte
  sequences, what base64 decodes to, and lists of S-expressions refine sequences as long as no block
  that changes is shared.

  Conventions. Structures passed by pointer are records, returned updated; shared objects (result tests and
  definitions, variables, collected items) stand in lists or maps and are referred to by position or
  identifier. A NULL pointer that is read and a read outside an array give None, or the abort that the theory
  describes. Assertions are compiled out unless the program is configured with \<open>--enable-debug\<close>: where a
  document can make one fail (addresses with another operation, packed names, expressions of checks alone,
  versions, times), the definitions follow the default build, which goes on behind it; where only a wrong call
  or a broken invariant of the structures can, the result is None. Recursions of the program that need not end take a fuel; theorems state
  how much is enough (for definitions and variables, more than the length of the longest chain of
  references; for the topological sort, more than the number of nodes). Counters and sizes that memory
  bounds are natural numbers; words keep their width where the code depends on it (hashes, masks, versions,
  addresses). Floats are rational numbers, with the rounding of each operation a parameter.

  Parameters stand for code outside the sources: regular expressions (PCRE), \<open>inet_pton\<close>, \<open>strtod\<close> and
  arithmetic of doubles, calendar functions, checking engines and reporters that a client registers, the
  probes' answers.

  Not modelled: conversion between XML and the structures (libxml2), copies and freeing of memory, files,
  processes, threads and sockets: parsers and exporters of all documents, data streams, sources, the
  probes and their protocol, remediation by scripts, SCE, the command line tool, bindings, and third-party
  code in the tree. \<open>PROJECT.json\<close> lists these parts with the reasons.
\<close>

end
